(* ===== verification/Prelude.thy ===== *)
theory Prelude
  imports Main "HOL-Library.Char_ord" "HOL-Library.List_Lexorder"
begin

text \<open>
  What every component of the VeilBridge model shares.

  \<^item> The part of Go's standard library the sources use on text: \<^verbatim>\<open>strings.TrimSpace\<close>,
    \<^verbatim>\<open>Cut\<close>, \<^verbatim>\<open>Split\<close>, \<^verbatim>\<open>Fields\<close>, \<^verbatim>\<open>Join\<close>, \<^verbatim>\<open>HasPrefix\<close>, \<^verbatim>\<open>ToLower\<close>, \<^verbatim>\<open>strconv.Itoa\<close>,
    \<^verbatim>\<open>strconv.Atoi\<close> and their kin, each under its Go name. A Go string is a \<open>string\<close>, one
    \<open>char\<close> per byte, and the order of strings is the bytewise one of \<^verbatim>\<open>sort.Strings\<close>.
    White space and letter case are those of ASCII; bytes of \<open>128\<close> and above are neither
    space nor letters here.
  \<^item> Refusals and errors: a Go function that returns \<open>(T, error)\<close> is a function into
    \<open>error + 'a\<close>. \<open>Refused f r\<close> is \<^verbatim>\<open>core.Refuse(f, ...)\<close>, an error that names a field of the
    request; \<open>Failed r\<close> is any other. The reason is a short tag of the sentence the code
    prints: the sentences themselves are not modelled.
  \<^item> Generic contracts as locales: a state machine with an invariant, a codec (printing and
    reading back), a list of rules of which the first match decides.
\<close>

named_theorems go_string \<open>laws of the string functions\<close>
named_theorems inv_intro \<open>an operation keeps its component's invariant\<close>

section \<open>Errors\<close>

datatype error = Refused string string | Failed string | Wraps error error

type_synonym 'a result = "error + 'a"

fun refusal_field :: "error \<Rightarrow> string option" where
  "refusal_field (Refused f r) = Some f"
| "refusal_field (Failed r) = None"
| "refusal_field (Wraps a b) = (case refusal_field a of Some f \<Rightarrow> Some f | None \<Rightarrow> refusal_field b)"

fun errorText :: "error \<Rightarrow> string" where
  "errorText (Refused f r) = r"
| "errorText (Failed r) = r"
| "errorText (Wraps a b) = errorText a @ '': '' @ errorText b"

text \<open>\<^verbatim>\<open>errors.Is\<close>: the value itself, or one that it wraps.\<close>

fun errIs :: "error \<Rightarrow> error \<Rightarrow> bool" where
  "errIs (Wraps a b) e \<longleftrightarrow> Wraps a b = e \<or> errIs a e \<or> errIs b e"
| "errIs e' e \<longleftrightarrow> e' = e"

text \<open>\<open>core.Refuse\<close>: a nil error stays nil, anything else gets the field.\<close>

definition Refuse :: "string \<Rightarrow> error option \<Rightarrow> error option" where
  "Refuse field err = (case err of None \<Rightarrow> None
     | Some e \<Rightarrow> Some (Refused field (errorText e)))"

text \<open>What \<^verbatim>\<open>os.ReadFile\<close> and \<^verbatim>\<open>os.Remove\<close> answer; the sources tell a missing file from an error.\<close>

datatype read_result = FileData string | FileMissing | ReadError error

datatype remove_result = Removed | NothingToRemove | RemoveError error

definition the_default :: "'a \<Rightarrow> 'a option \<Rightarrow> 'a" where
  "the_default d m = (case m of None \<Rightarrow> d | Some x \<Rightarrow> x)"

section \<open>Strings\<close>

abbreviation newline :: char where "newline \<equiv> CHR 0x0A"
abbreviation backslash :: char where "backslash \<equiv> CHR 0x5C"
abbreviation quote :: char where "quote \<equiv> CHR 0x27"

definition is_space :: "char \<Rightarrow> bool" where
  "is_space c \<longleftrightarrow> of_char c \<in> {9, 10, 11, 12, 13, 32 :: nat}"

definition is_digit :: "char \<Rightarrow> bool" where
  "is_digit c \<longleftrightarrow> 48 \<le> (of_char c :: nat) \<and> (of_char c :: nat) \<le> 57"

definition lower_char :: "char \<Rightarrow> char" where
  "lower_char c = (if 65 \<le> (of_char c :: nat) \<and> (of_char c :: nat) \<le> 90
     then char_of (of_char c + 32 :: nat) else c)"

definition upper_char :: "char \<Rightarrow> char" where
  "upper_char c = (if 97 \<le> (of_char c :: nat) \<and> (of_char c :: nat) \<le> 122
     then char_of (of_char c - 32 :: nat) else c)"

definition ToLower :: "string \<Rightarrow> string" where "ToLower s = map lower_char s"

definition ToUpper :: "string \<Rightarrow> string" where "ToUpper s = map upper_char s"

definition TrimLeft :: "(char \<Rightarrow> bool) \<Rightarrow> string \<Rightarrow> string" where
  "TrimLeft p s = dropWhile p s"

definition TrimRight :: "(char \<Rightarrow> bool) \<Rightarrow> string \<Rightarrow> string" where
  "TrimRight p s = rev (dropWhile p (rev s))"

definition TrimSpace :: "string \<Rightarrow> string" where
  "TrimSpace s = TrimRight is_space (TrimLeft is_space s)"

definition HasPrefix :: "string \<Rightarrow> string \<Rightarrow> bool" where
  "HasPrefix s p \<longleftrightarrow> take (length p) s = p"

definition HasSuffix :: "string \<Rightarrow> string \<Rightarrow> bool" where
  "HasSuffix s p \<longleftrightarrow> length p \<le> length s \<and> drop (length s - length p) s = p"

definition TrimPrefix :: "string \<Rightarrow> string \<Rightarrow> string" where
  "TrimPrefix s p = (if HasPrefix s p then drop (length p) s else s)"

definition TrimSuffix :: "string \<Rightarrow> string \<Rightarrow> string" where
  "TrimSuffix s p = (if HasSuffix s p then take (length s - length p) s else s)"

text \<open>\<open>strings.Cut\<close> at a one-byte separator: \<open>None\<close> where Go says \<open>found = false\<close>.\<close>

fun Cut :: "string \<Rightarrow> char \<Rightarrow> (string \<times> string) option" where
  "Cut [] sep = None"
| "Cut (c # s) sep = (if c = sep then Some ([], s)
     else map_option (\<lambda>(a, b). (c # a, b)) (Cut s sep))"

text \<open>\<open>strings.Split\<close> at a one-byte separator; never the empty list.\<close>

fun Split :: "string \<Rightarrow> char \<Rightarrow> string list" where
  "Split [] sep = [[]]"
| "Split (c # s) sep = (if c = sep then [] # Split s sep
     else (case Split s sep of [] \<Rightarrow> [[c]] | p # ps \<Rightarrow> (c # p) # ps))"

text \<open>\<open>strings.SplitN\<close> with \<open>n > 0\<close>: at most \<open>n\<close> parts, the last holds the rest.\<close>

fun SplitN :: "nat \<Rightarrow> string \<Rightarrow> char \<Rightarrow> string list" where
  "SplitN 0 s sep = []"
| "SplitN (Suc 0) s sep = [s]"
| "SplitN (Suc (Suc n)) s sep = (case Cut s sep of None \<Rightarrow> [s]
     | Some (a, b) \<Rightarrow> a # SplitN (Suc n) b sep)"

text \<open>\<open>strings.FieldsFunc\<close>: the maximal runs of bytes that are no separator.\<close>

fun FieldsFunc :: "(char \<Rightarrow> bool) \<Rightarrow> string \<Rightarrow> string list" where
  "FieldsFunc p [] = []"
| "FieldsFunc p (c # s) = (if p c then FieldsFunc p s
     else (case s of [] \<Rightarrow> [[c]]
       | d # t \<Rightarrow> if p d then [c] # FieldsFunc p s
         else (case FieldsFunc p s of [] \<Rightarrow> [[c]] | f # fs \<Rightarrow> (c # f) # fs)))"

definition Fields :: "string \<Rightarrow> string list" where "Fields s = FieldsFunc is_space s"

fun Join :: "string list \<Rightarrow> string \<Rightarrow> string" where
  "Join [] sep = []"
| "Join [x] sep = x"
| "Join (x # y # xs) sep = x @ sep @ Join (y # xs) sep"

fun Contains :: "string \<Rightarrow> string \<Rightarrow> bool" where
  "Contains [] p \<longleftrightarrow> p = []"
| "Contains (c # s) p \<longleftrightarrow> HasPrefix (c # s) p \<or> Contains s p"

definition ContainsAny :: "string \<Rightarrow> string \<Rightarrow> bool" where
  "ContainsAny s chars \<longleftrightarrow> list_ex (\<lambda>c. c \<in> set chars) s"

definition RemoveChar :: "char \<Rightarrow> string \<Rightarrow> string" where
  \<comment> \<open>\<open>strings.ReplaceAll(s, c, "")\<close> for a one-byte \<open>c\<close>\<close>
  "RemoveChar c s = filter (\<lambda>x. x \<noteq> c) s"

definition EqualFold :: "string \<Rightarrow> string \<Rightarrow> bool" where
  "EqualFold a b \<longleftrightarrow> ToLower a = ToLower b"

section \<open>Numbers as text\<close>

definition digit_char :: "nat \<Rightarrow> char" where "digit_char d = char_of (48 + d)"

definition digit_val :: "char \<Rightarrow> nat" where "digit_val c = of_char c - 48"

fun nat_digits :: "nat \<Rightarrow> string" where
  "nat_digits n = (if n < 10 then [digit_char n] else nat_digits (n div 10) @ [digit_char (n mod 10)])"

declare nat_digits.simps [simp del]

definition Itoa :: "int \<Rightarrow> string" where
  "Itoa i = (if i < 0 then CHR ''-'' # nat_digits (nat (- i)) else nat_digits (nat i))"

definition digits_val :: "string \<Rightarrow> nat" where
  "digits_val s = foldl (\<lambda>a c. 10 * a + digit_val c) 0 s"

definition all_digits :: "string \<Rightarrow> bool" where
  "all_digits s \<longleftrightarrow> s \<noteq> [] \<and> list_all is_digit s"

text \<open>
  \<open>strconv.Atoi\<close> (and \<open>ParseInt(s, 10, 64)\<close>) on a 64-bit target: an optional sign, at least
  one digit, nothing else, and a value that fits an \<open>int64\<close>.
\<close>

definition Atoi :: "string \<Rightarrow> int option" where
  "Atoi s =
     (let neg = (take 1 s = ''-'');
          ds = (if take 1 s = ''-'' \<or> take 1 s = ''+'' then drop 1 s else s);
          v = (if neg then - int (digits_val ds) else int (digits_val ds))
      in if all_digits ds \<and> - (2 ^ 63) \<le> v \<and> v < 2 ^ 63 then Some v else None)"

text \<open>Hexadecimal digits: both letter cases are read, lower case is printed.\<close>

definition hexVal :: "char \<Rightarrow> nat option" where
  "hexVal c = (let n = of_char c :: nat in
     if 48 \<le> n \<and> n \<le> 57 then Some (n - 48)
     else if 97 \<le> n \<and> n \<le> 102 then Some (n - 87)
     else if 65 \<le> n \<and> n \<le> 70 then Some (n - 55) else None)"

definition hexDigit :: "nat \<Rightarrow> char" where
  "hexDigit d = (if d < 10 then char_of (48 + d) else char_of (87 + d))"

section \<open>Laws of the string functions\<close>

text \<open>Character tests as comparisons of characters, which the simplifier evaluates faster than their codes.\<close>

lemma of_char_iff: "of_char c = (of_char d :: nat) \<longleftrightarrow> c = d"
  by (rule of_char_eq_iff)

lemma is_space_code [code]:
  "is_space c \<longleftrightarrow> c = CHR '' '' \<or> c = newline \<or> c = CHR 0x09 \<or> c = CHR 0x0D \<or> c = CHR 0x0B \<or> c = CHR 0x0C"
  unfolding is_space_def
  using of_char_iff [of c "CHR '' ''"] of_char_iff [of c newline] of_char_iff [of c "CHR 0x09"] of_char_iff [of c "CHR 0x0D"]
    of_char_iff [of c "CHR 0x0B"] of_char_iff [of c "CHR 0x0C"] by auto

lemma blank_space: "is_space CHR '' ''"
  by (simp add: is_space_def)

lemma HasPrefix_iff: "HasPrefix s p \<longleftrightarrow> (\<exists>t. s = p @ t)"
  by (metis HasPrefix_def append_eq_conv_conj append_take_drop_id)

lemma HasSuffix_iff: "HasSuffix s p \<longleftrightarrow> (\<exists>t. s = t @ p)"
proof
  assume "HasSuffix s p"
  then have "s = take (length s - length p) s @ p"
    by (metis HasSuffix_def append_take_drop_id)
  then show "\<exists>t. s = t @ p" ..
qed (auto simp: HasSuffix_def)

lemma HasPrefix_append [simp, go_string]: "HasPrefix (p @ t) p"
  by (auto simp: HasPrefix_iff)

lemma HasSuffix_append [simp, go_string]: "HasSuffix (t @ p) p"
  by (auto simp: HasSuffix_iff)

lemma TrimPrefix_append [simp, go_string]: "TrimPrefix (p @ t) p = t"
  by (simp add: TrimPrefix_def)

lemma TrimSuffix_append [simp, go_string]: "TrimSuffix (t @ p) p = t"
  by (simp add: TrimSuffix_def)

lemma Cut_Some [go_string]: "Cut s sep = Some (a, b) \<longleftrightarrow> s = a @ sep # b \<and> sep \<notin> set a"
  by (induction s sep arbitrary: a b rule: Cut.induct) (auto simp: Cons_eq_append_conv)

lemma Cut_None [go_string]: "Cut s sep = None \<longleftrightarrow> sep \<notin> set s"
  by (induction s sep rule: Cut.induct) auto

lemma Split_not_Nil [simp]: "Split s sep \<noteq> []"
  by (induction s sep rule: Split.induct) (auto split: list.splits)

lemma Join_Cons: "xs \<noteq> [] \<Longrightarrow> Join (x # xs) sep = x @ sep @ Join xs sep"
  by (cases xs) auto

lemma Join_Split [go_string]: "Join (Split s sep) [sep] = s"
proof (induction s sep rule: Split.induct)
  case (2 c s sep)
  then show ?case
    by (cases "Split s sep"; cases "tl (Split s sep)") (auto simp: Join_Cons)
qed simp

lemma Split_no_sep [go_string]: "sep \<notin> set s \<Longrightarrow> Split s sep = [s]"
  by (induction s sep rule: Split.induct) auto

lemma Split_append [go_string]: "sep \<notin> set a \<Longrightarrow> Split (a @ sep # b) sep = a # Split b sep"
  by (induction a) auto

lemma Split_Join [go_string]:
  "xs \<noteq> [] \<Longrightarrow> \<forall>x \<in> set xs. sep \<notin> set x \<Longrightarrow> Split (Join xs [sep]) sep = xs"
  by (induction xs "[sep]" rule: Join.induct) (auto simp: Split_no_sep Split_append)

lemma set_Split: "x \<in> set (Split s sep) \<Longrightarrow> sep \<notin> set x"
proof (induction s sep arbitrary: x rule: Split.induct)
  case (2 c s sep)
  then show ?case by (cases "Split s sep") (auto split: if_splits)
qed simp

lemma TrimSpace_id [go_string]: "s \<noteq> [] \<Longrightarrow> \<not> is_space (hd s) \<Longrightarrow> \<not> is_space (last s) \<Longrightarrow> TrimSpace s = s"
proof -
  assume "s \<noteq> []" "\<not> is_space (hd s)" "\<not> is_space (last s)"
  then have "dropWhile is_space s = s" "dropWhile is_space (rev s) = rev s"
    by (simp_all add: dropWhile_eq_self_iff hd_rev)
  then show ?thesis by (simp add: TrimSpace_def TrimLeft_def TrimRight_def)
qed

lemma TrimSpace_snoc_space [go_string]: "is_space c \<Longrightarrow> TrimSpace (v @ [c]) = TrimSpace v"
proof (cases "\<forall>x \<in> set v. is_space x")
  case False
  assume c: "is_space c"
  from False have "dropWhile is_space (v @ [c]) = dropWhile is_space v @ [c]" by (auto simp: dropWhile_append)
  with c show ?thesis by (simp add: TrimSpace_def TrimLeft_def TrimRight_def)
next
  case True
  assume "is_space c"
  with True have "dropWhile is_space (v @ [c]) = []" "dropWhile is_space v = []" by auto
  then show ?thesis by (simp only: TrimSpace_def TrimLeft_def)
qed

lemma dropWhile_all: "(\<forall>x \<in> set (dropWhile P s). P x) \<longleftrightarrow> dropWhile P s = []"
  by (metis hd_dropWhile hd_in_set empty_iff empty_set)

lemma TrimSpace_eq_Nil: "TrimSpace s = [] \<longleftrightarrow> (\<forall>c \<in> set s. is_space c)"
proof -
  have "TrimSpace s = [] \<longleftrightarrow> (\<forall>x \<in> set (dropWhile is_space s). is_space x)"
    by (simp add: TrimSpace_def TrimLeft_def TrimRight_def)
  then show ?thesis by (simp add: dropWhile_all)
qed

lemma TrimSpace_Nil [simp]: "TrimSpace [] = []"
  by (simp add: TrimSpace_eq_Nil)

lemma TrimSpace_ends:
  assumes "TrimSpace s \<noteq> []"
  shows "\<not> is_space (hd (TrimSpace s)) \<and> \<not> is_space (last (TrimSpace s))"
proof -
  let ?l = "dropWhile is_space s"
  have t: "TrimSpace s = rev (dropWhile is_space (rev ?l))" by (simp add: TrimSpace_def TrimLeft_def TrimRight_def)
  with assms have ne: "dropWhile is_space (rev ?l) \<noteq> []" by simp
  then have "\<not> is_space (last (TrimSpace s))" using t hd_dropWhile [OF ne] by (simp add: last_rev)
  moreover have l: "?l = TrimSpace s @ rev (takeWhile is_space (rev ?l))"
    unfolding t by (metis rev_append rev_rev_ident takeWhile_dropWhile_id)
  then have "?l \<noteq> []" using assms by (metis append_is_Nil_conv)
  then have "\<not> is_space (hd ?l)" by (rule hd_dropWhile)
  then have "\<not> is_space (hd (TrimSpace s))" using l assms by (metis hd_append2)
  ultimately show ?thesis by blast
qed

lemma TrimSpace_idem [simp]: "TrimSpace (TrimSpace s) = TrimSpace s"
  using TrimSpace_ends [of s] TrimSpace_id [of "TrimSpace s"] by (cases "TrimSpace s = []") simp_all

lemma find_append: "List.find P (xs @ ys) = (case List.find P xs of None \<Rightarrow> List.find P ys | Some x \<Rightarrow> Some x)"
  by (induction xs) auto

lemma find_after: "\<forall>c \<in> set xs. \<not> P c \<Longrightarrow> P y \<Longrightarrow> List.find P (xs @ y # ys) = Some y"
  by (induction xs) auto

text \<open>Words: non-empty, no separator inside. \<open>Fields\<close> and \<open>Join\<close> with one blank are inverse on them.\<close>

lemma FieldsFunc_word: "w \<noteq> [] \<Longrightarrow> \<forall>c \<in> set w. \<not> p c \<Longrightarrow> FieldsFunc p w = [w]"
proof (induction w)
  case (Cons c w)
  then show ?case by (cases w) auto
qed simp

lemma FieldsFunc_word_sep:
  "w \<noteq> [] \<Longrightarrow> \<forall>c \<in> set w. \<not> p c \<Longrightarrow> p d \<Longrightarrow> FieldsFunc p (w @ d # s) = w # FieldsFunc p s"
proof (induction w)
  case (Cons c w)
  then show ?case by (cases w) auto
qed simp

lemma FieldsFunc_list_all: "list_all (\<lambda>x. x \<noteq> [] \<and> list_all (\<lambda>c. \<not> p c) x) (FieldsFunc p s)"
proof (induction s)
  case (Cons c s)
  then show ?case by (cases s; cases "FieldsFunc p s") auto
qed simp

lemma FieldsFunc_words: "x \<in> set (FieldsFunc p s) \<Longrightarrow> x \<noteq> [] \<and> (\<forall>c \<in> set x. \<not> p c)"
  using FieldsFunc_list_all [of p s] by (auto simp: list_all_iff)

lemma FieldsFunc_Join:
  "\<forall>x \<in> set xs. x \<noteq> [] \<and> (\<forall>c \<in> set x. \<not> p c) \<Longrightarrow> p d \<Longrightarrow> FieldsFunc p (Join xs [d]) = xs"
  by (induction xs "[d]" rule: Join.induct) (auto simp: FieldsFunc_word FieldsFunc_word_sep)

section \<open>Laws of numbers as text\<close>

lemma of_char_digit [simp]: "d < 10 \<Longrightarrow> of_char (digit_char d) = 48 + d"
  by (simp add: digit_char_def)

lemma digit_val_char [simp]: "d < 10 \<Longrightarrow> digit_val (digit_char d) = d"
  by (simp add: digit_val_def)

lemma is_digit_char [simp]: "d < 10 \<Longrightarrow> is_digit (digit_char d)"
  by (simp add: is_digit_def)

lemma zero_char [simp]: "char_of (48 :: nat) = CHR ''0''"
  by code_simp

lemma digits_val_snoc: "digits_val (s @ [c]) = 10 * digits_val s + digit_val c"
  by (simp add: digits_val_def)

lemma digits_val_nat_digits [simp]: "digits_val (nat_digits n) = n"
proof (induction n rule: nat_digits.induct)
  case (1 n)
  then show ?case
    by (cases "n < 10") (simp_all add: nat_digits.simps [of n] digits_val_snoc, simp add: digits_val_def)
qed

lemma all_digits_nat_digits [simp]: "all_digits (nat_digits n)"
proof (induction n rule: nat_digits.induct)
  case (1 n)
  then show ?case
    by (cases "n < 10") (auto simp add: nat_digits.simps [of n] all_digits_def)
qed

lemma nat_digits_not_Nil [simp]: "nat_digits n \<noteq> []"
  using all_digits_nat_digits [of n] by (simp add: all_digits_def)

lemma hd_nat_digits: "n \<noteq> 0 \<Longrightarrow> hd (nat_digits n) \<noteq> CHR ''0''"
proof (induction n rule: nat_digits.induct)
  case (1 n)
  show ?case
  proof (cases "n < 10")
    case True
    then have "digit_val (digit_char n) \<noteq> digit_val CHR ''0''" using 1(2) by (simp add: digit_val_def)
    then have "digit_char n \<noteq> CHR ''0''" by metis
    then show ?thesis using True by (simp add: nat_digits.simps [of n])
  next
    case False
    then show ?thesis using 1(1) by (simp add: nat_digits.simps [of n] hd_append)
  qed
qed

lemma is_digit_hd_nat_digits: "is_digit (hd (nat_digits n))"
  using all_digits_nat_digits [of n] by (cases "nat_digits n") (auto simp: all_digits_def)

lemma take1_nat_digits: "take 1 (nat_digits n) \<noteq> ''-''" "take 1 (nat_digits n) \<noteq> ''+''"
  using is_digit_hd_nat_digits [of n]
  by (cases "nat_digits n"; auto simp: is_digit_def)+

lemma Atoi_Itoa [go_string]: "- (2 ^ 63) \<le> i \<Longrightarrow> i < 2 ^ 63 \<Longrightarrow> Atoi (Itoa i) = Some i"
  using take1_nat_digits [of "nat i"] by (auto simp: Atoi_def Itoa_def Let_def)

lemma hexVal_hexDigit [simp]: "d < 16 \<Longrightarrow> hexVal (hexDigit d) = Some d"
  by (auto simp: hexVal_def hexDigit_def Let_def)

lemma hexVal_range: "hexVal c = Some x \<Longrightarrow> x < 16"
  by (auto simp: hexVal_def Let_def split: if_splits)

lemma hexDigit_plain:
  assumes "d < 16"
  shows "hexDigit d \<noteq> CHR '':''" "hexDigit d \<noteq> CHR ''_''" "\<not> is_space (hexDigit d)"
proof -
  have "hexVal CHR '':'' = None" "hexVal CHR ''_'' = None" by (simp_all add: hexVal_def)
  with hexVal_hexDigit [OF assms] show "hexDigit d \<noteq> CHR '':''" "hexDigit d \<noteq> CHR ''_''" by auto
  show "\<not> is_space (hexDigit d)" using assms by (auto simp: is_space_def hexDigit_def)
qed

lemma hexDigit_lower: "d < 16 \<Longrightarrow> lower_char (hexDigit d) = hexDigit d"
  by (cases "d < 10") (simp_all add: lower_char_def hexDigit_def)

section \<open>Steps that may fail\<close>

text \<open>
  A Go function that changes the world and returns \<open>(T, error)\<close>: \<open>bindR\<close> is the early return on an error, the
  world being what it is by then.
\<close>

type_synonym ('w, 'a) step = "'w \<Rightarrow> 'a result \<times> 'w"

definition bindR :: "('w, 'a) step \<Rightarrow> ('a \<Rightarrow> ('w, 'b) step) \<Rightarrow> ('w, 'b) step" where
  "bindR m f w = (case m w of (Inl e, w') \<Rightarrow> (Inl e, w') | (Inr x, w') \<Rightarrow> f x w')"

definition retR :: "'a \<Rightarrow> ('w, 'a) step" where "retR x w = (Inr x, w)"
definition failR :: "error \<Rightarrow> ('w, 'a) step" where "failR e w = (Inl e, w)"
definition checkR :: "bool \<Rightarrow> error \<Rightarrow> ('w, unit) step" where "checkR b e = (if b then retR () else failR e)"
definition liftR :: "'a result \<Rightarrow> ('w, 'a) step" where "liftR r w = (r, w)"

definition pureR :: "('w \<Rightarrow> 'a \<times> 'w) \<Rightarrow> ('w, 'a) step" where
  \<comment> \<open>a step that cannot fail\<close>
  "pureR m w = (case m w of (x, w') \<Rightarrow> (Inr x, w'))"

definition wrapR :: "error \<Rightarrow> ('w, 'a) step \<Rightarrow> ('w, 'a) step" where
  \<comment> \<open>\<^verbatim>\<open>fmt.Errorf("...: %w", err)\<close>: the error is told in other words\<close>
  "wrapR e m w = (case m w of (Inl _, w') \<Rightarrow> (Inl e, w') | (Inr x, w') \<Rightarrow> (Inr x, w'))"

lemma bindR_Inr: "bindR m f w = (Inr y, w') \<longleftrightarrow> (\<exists>x u. m w = (Inr x, u) \<and> f x u = (Inr y, w'))"
  by (auto simp: bindR_def split: prod.splits sum.splits)

lemma checkR_Inr [simp]: "checkR b e w = (Inr x, w') \<longleftrightarrow> b \<and> w' = w"
  by (auto simp: checkR_def retR_def failR_def)

lemma retR_eq [simp]: "retR x w = (r, w') \<longleftrightarrow> r = Inr x \<and> w' = w"
  by (auto simp: retR_def)

lemma failR_eq [simp]: "failR e w = (r, w') \<longleftrightarrow> r = Inl e \<and> w' = w"
  by (auto simp: failR_def)

lemma liftR_eq [simp]: "liftR q w = (r, w') \<longleftrightarrow> q = r \<and> w' = w"
  by (auto simp: liftR_def)

lemma pureR_Inr [simp]: "pureR m w = (Inr x, w') \<longleftrightarrow> m w = (x, w')"
  by (auto simp: pureR_def split: prod.splits)

lemma wrapR_Inr [simp]: "wrapR e m w = (Inr x, w') \<longleftrightarrow> m w = (Inr x, w')"
  by (auto simp: wrapR_def split: prod.splits sum.splits)

lemmas step_Inr = bindR_Inr

text \<open>A relation between the worlds that every part of a step respects, the whole step respects.\<close>

definition keepsR :: "('w \<Rightarrow> 'x) \<Rightarrow> ('w, 'a) step \<Rightarrow> bool" where
  "keepsR f m \<longleftrightarrow> (\<forall>w. f (snd (m w)) = f w)"

lemma keepsR_D: "keepsR f m \<Longrightarrow> m w = (r, w') \<Longrightarrow> f w' = f w"
  by (auto simp: keepsR_def dest: spec [of _ w])

lemma keepsR_I: "(\<And>w r w'. m w = (r, w') \<Longrightarrow> f w' = f w) \<Longrightarrow> keepsR f m"
  by (metis keepsR_def prod.collapse)

lemma keeps_bindR [intro]: "keepsR f m \<Longrightarrow> (\<And>x. keepsR f (g x)) \<Longrightarrow> keepsR f (bindR m g)"
proof (rule keepsR_I)
  fix w r w'
  assume m: "keepsR f m" and g: "\<And>x. keepsR f (g x)" and "bindR m g w = (r, w')"
  then show "f w' = f w"
    using keepsR_D [OF m, of w] keepsR_D [OF g] by (auto simp: bindR_def split: prod.splits sum.splits)
qed

lemma keeps_simple [intro]: "keepsR f (retR x)" "keepsR f (failR e)" "keepsR f (checkR b e)" "keepsR f (liftR r)"
  by (simp_all add: keepsR_def retR_def failR_def checkR_def liftR_def)

lemma keeps_pureR [intro]: "(\<And>w. f (snd (m w)) = f w) \<Longrightarrow> keepsR f (pureR m)"
  by (simp add: keepsR_def pureR_def case_prod_beta)

lemma keeps_wrapR [intro]: "keepsR f m \<Longrightarrow> keepsR f (wrapR e m)"
  by (rule keepsR_I) (auto simp: wrapR_def dest: keepsR_D split: prod.splits sum.splits)

text \<open>
  Triples for such steps: from a world with \<open>P\<close>, a result \<open>x\<close> leaves \<open>Q x\<close> and an error leaves \<open>E\<close>. The rules follow the
  structure of a step.
\<close>

definition holdsR :: "('w \<Rightarrow> bool) \<Rightarrow> ('w, 'a) step \<Rightarrow> ('a \<Rightarrow> 'w \<Rightarrow> bool) \<Rightarrow> ('w \<Rightarrow> bool) \<Rightarrow> bool" where
  "holdsR P m Q E \<longleftrightarrow> (\<forall>w. P w \<longrightarrow> (case m w of (Inr x, w') \<Rightarrow> Q x w' | (Inl e, w') \<Rightarrow> E w'))"

lemma holdsR_I:
  "(\<And>w x w'. P w \<Longrightarrow> m w = (Inr x, w') \<Longrightarrow> Q x w') \<Longrightarrow> (\<And>w e w'. P w \<Longrightarrow> m w = (Inl e, w') \<Longrightarrow> E w') \<Longrightarrow> holdsR P m Q E"
  by (auto simp: holdsR_def split: prod.splits sum.splits)

lemma holdsR_Inr: "holdsR P m Q E \<Longrightarrow> P w \<Longrightarrow> m w = (Inr x, w') \<Longrightarrow> Q x w'"
  by (auto simp: holdsR_def dest: spec [of _ w])

lemma holdsR_Inl: "holdsR P m Q E \<Longrightarrow> P w \<Longrightarrow> m w = (Inl e, w') \<Longrightarrow> E w'"
  by (auto simp: holdsR_def dest: spec [of _ w])

lemma holds_bindR:
  assumes "holdsR P m Q E" and "\<And>x. holdsR (Q x) (f x) R E"
  shows "holdsR P (bindR m f) R E"
proof (rule holdsR_I)
  fix w x w'
  assume "P w" "bindR m f w = (Inr x, w')"
  then show "R x w'" using holdsR_Inr [OF assms(1)] holdsR_Inr [OF assms(2)] unfolding bindR_Inr by blast
next
  fix w e w'
  assume p: "P w" and b: "bindR m f w = (Inl e, w')"
  show "E w'"
  proof (cases "fst (m w)")
    case (Inl e')
    then have "m w = (Inl e, w')" using b by (cases "m w") (simp add: bindR_def)
    then show ?thesis using holdsR_Inl [OF assms(1) p] by blast
  next
    case (Inr x)
    then obtain u where "m w = (Inr x, u)" "f x u = (Inl e, w')" using b by (cases "m w") (simp add: bindR_def)
    then show ?thesis using holdsR_Inr [OF assms(1) p] holdsR_Inl [OF assms(2)] by blast
  qed
qed

lemma holds_retR: "(\<And>w. P w \<Longrightarrow> Q x w) \<Longrightarrow> holdsR P (retR x) Q E"
  by (auto simp: holdsR_def retR_def)

lemma holds_failR: "(\<And>w. P w \<Longrightarrow> E w) \<Longrightarrow> holdsR P (failR e) Q E"
  by (auto simp: holdsR_def failR_def)

lemma holds_checkR: "(\<And>w. P w \<Longrightarrow> E w) \<Longrightarrow> holdsR P (checkR b e) (\<lambda>_ w. P w \<and> b) E"
  by (auto simp: holdsR_def checkR_def retR_def failR_def)

lemma holds_liftR: "(\<And>w. P w \<Longrightarrow> E w) \<Longrightarrow> holdsR P (liftR r) (\<lambda>_. P) E"
  by (cases r) (auto simp: holdsR_def liftR_def)

lemma holds_wrapR: "holdsR P m Q E \<Longrightarrow> holdsR P (wrapR e m) Q E"
  by (rule holdsR_I) (auto simp: wrapR_def dest: holdsR_Inr holdsR_Inl split: prod.splits sum.splits)

lemma holds_weaken:
  "holdsR P m Q E \<Longrightarrow> (\<And>w. P' w \<Longrightarrow> P w) \<Longrightarrow> (\<And>x w. Q x w \<Longrightarrow> Q' x w) \<Longrightarrow> (\<And>w. E w \<Longrightarrow> E' w) \<Longrightarrow> holdsR P' m Q' E'"
  by (rule holdsR_I) (meson holdsR_Inr holdsR_Inl)+

section \<open>State machines\<close>

text \<open>
  A machine is a set of start states and labelled steps. An invariant of the machine holds in
  every reachable state; the locale proves it once for all components that are machines.
\<close>

inductive reachable :: "('s \<Rightarrow> bool) \<Rightarrow> ('s \<Rightarrow> 'e \<Rightarrow> 's \<Rightarrow> bool) \<Rightarrow> 's \<Rightarrow> bool" for start step where
  reach_start: "start s \<Longrightarrow> reachable start step s"
| reach_step: "reachable start step s \<Longrightarrow> step s e t \<Longrightarrow> reachable start step t"

inductive trace :: "('s \<Rightarrow> 'e \<Rightarrow> 's \<Rightarrow> bool) \<Rightarrow> 's \<Rightarrow> 'e list \<Rightarrow> 's \<Rightarrow> bool" for step where
  trace_nil: "trace step s [] s"
| trace_cons: "step s e u \<Longrightarrow> trace step u es t \<Longrightarrow> trace step s (e # es) t"

inductive_cases trace_nilE: "trace step s [] t"
inductive_cases trace_consE: "trace step s (e # es) t"

locale machine =
  fixes start :: "'s \<Rightarrow> bool" and step :: "'s \<Rightarrow> 'e \<Rightarrow> 's \<Rightarrow> bool" and inv :: "'s \<Rightarrow> bool"
  assumes start_inv: "start s \<Longrightarrow> inv s"
    and step_inv: "inv s \<Longrightarrow> step s e t \<Longrightarrow> inv t"
begin

lemma reachable_inv: "reachable start step s \<Longrightarrow> inv s"
  by (induction rule: reachable.induct) (auto intro: start_inv step_inv)

lemma trace_inv: "trace step s es t \<Longrightarrow> inv s \<Longrightarrow> inv t"
  by (induction rule: trace.induct) (auto intro: step_inv)

text \<open>A property that a selected kind of event keeps holds along every trace of such events.\<close>

lemma trace_keeps:
  assumes "trace step s es t" and "inv s" and "P s" and "\<forall>e \<in> set es. ok e"
    and keep: "\<And>s e t. inv s \<Longrightarrow> P s \<Longrightarrow> ok e \<Longrightarrow> step s e t \<Longrightarrow> P t"
  shows "P t"
  using assms(1-4) by (induction rule: trace.induct) (auto intro: keep step_inv)

end

section \<open>Searching a list\<close>

lemma find_in: "List.find P xs = Some x \<Longrightarrow> x \<in> set xs \<and> P x"
  by (auto simp: find_Some_iff)

end
