(* ===== verification/Apply.thy ===== *)
theory Apply
  imports Prelude
begin

text \<open>
  The apply transaction of \<^verbatim>\<open>internal/core/apply.go\<close>: Snapshot, Apply, Confirm, and silence
  means revert.

  The coordinator is the record \<open>coordinator\<close>, its methods are functions that take the
  coordinator and the world and return both. The world \<open>'w\<close> is everything behind the two Go
  interfaces \<^verbatim>\<open>ConfigApplier\<close> and \<^verbatim>\<open>ApplyJournal\<close>, which are records of functions here, as an
  interface value is in Go. Every method body runs under the coordinator's mutex, so a method is
  one atomic step; \<open>now\<close> and \<open>newToken\<close> are arguments of \<open>Apply\<close>. The watchdog is the token its
  closure was built with; \<^verbatim>\<open>Stop\<close> cannot take back a callback that already started, so the machine
  \<open>apply_step\<close> lets every timer ever started run at any later moment.
  Times are nanoseconds, \<open>None\<close> is the zero \<^verbatim>\<open>time.Time\<close>.
\<close>

section \<open>Data\<close>

datatype apply_phase =
    PhaseIdle | PhaseAwaitingConfirm | PhaseConfirmed | PhaseReverted | PhaseRevertFailed

record snapshot =
  snap_ID :: string
  snap_Taken :: "int option"
  snap_Payload :: string

definition no_snapshot :: snapshot where
  "no_snapshot = \<lparr>snap_ID = [], snap_Taken = None, snap_Payload = []\<rparr>"

record apply_record =
  rec_SnapshotID :: string
  rec_Token :: string
  rec_Deadline :: "int option"

text \<open>One constructor per error value and per wrapping sentence of the file.\<close>

datatype apply_error =
    ErrApplyInFlight
  | ErrNoApplyInFlight
  | ErrWrongToken
  | ReadPending error
  | SnapshotGone string error
  | UndoAfterRestart string error
  | JournalNotCleared error
  | SnapshotBeforeApply error
  | CommitAndRevertFailed error error
  | CommitFailedRestored error
  | NotJournalled error
  | StageFailed error
  | SnapshotBeforeApplying error
  | AutoRevertFailed string error
  | ClearJournal error

record 'w config_applier =
  ap_Snapshot :: "'w \<Rightarrow> snapshot result \<times> 'w"
  ap_Commit :: "'w \<Rightarrow> error option \<times> 'w"
  ap_Revert :: "snapshot \<Rightarrow> 'w \<Rightarrow> error option \<times> 'w"

record 'w apply_journal =
  jr_Save :: "apply_record \<Rightarrow> 'w \<Rightarrow> error option \<times> 'w"
  jr_Load :: "'w \<Rightarrow> apply_record option result \<times> 'w"
  jr_Clear :: "'w \<Rightarrow> error option \<times> 'w"

type_synonym 'w snapshot_loader = "string \<Rightarrow> 'w \<Rightarrow> snapshot result"

record apply_state =
  st_Phase :: apply_phase
  st_Token :: string
  st_Deadline :: "int option"
  st_SnapshotID :: string
  st_Err :: "apply_error option"
  st_WindowSeconds :: int

record 'w apply_env =
  applier :: "'w config_applier"
  journal :: "'w apply_journal option"

record coordinator =
  phase :: apply_phase
  token :: string
  deadline :: "int option"
  window :: int
  csnapshot :: snapshot
  lastSnapshotID :: string
  watchdog :: "string option"
  lastErr :: "apply_error option"

definition Second :: int where "Second = 1000000000"

definition DefaultApplyWindow :: int where "DefaultApplyWindow = 90 * Second"

definition NewApplyCoordinator :: coordinator where
  "NewApplyCoordinator = \<lparr>phase = PhaseIdle, token = [], deadline = None, window = 0,
     csnapshot = no_snapshot, lastSnapshotID = [], watchdog = None, lastErr = None\<rparr>"

section \<open>Methods\<close>

definition stateLocked :: "coordinator \<Rightarrow> apply_state" where
  "stateLocked c =
     (let w = (if phase c = PhaseAwaitingConfirm \<and> window c > 0 then window c else DefaultApplyWindow)
      in \<lparr>st_Phase = phase c, st_Token = token c, st_Deadline = deadline c,
          st_SnapshotID = lastSnapshotID c, st_Err = lastErr c,
          st_WindowSeconds = w div Second\<rparr>)"

definition clearJournalLocked :: "'w apply_env \<Rightarrow> coordinator \<Rightarrow> 'w \<Rightarrow> coordinator \<times> 'w" where
  "clearJournalLocked env c w =
     (case journal env of None \<Rightarrow> (c, w)
      | Some j \<Rightarrow> (case jr_Clear j w of
            (None, w') \<Rightarrow> (c, w')
          | (Some e, w') \<Rightarrow>
              (if lastErr c = None then c\<lparr>lastErr := Some (ClearJournal e)\<rparr> else c, w')))"

definition revertLocked :: "'w apply_env \<Rightarrow> coordinator \<Rightarrow> 'w \<Rightarrow> coordinator \<times> 'w" where
  "revertLocked env c w =
     (let snap = csnapshot c in
      case ap_Revert (applier env) snap w of
        (Some e, w') \<Rightarrow>
          (c\<lparr>token := [], deadline := None, phase := PhaseRevertFailed,
             lastErr := Some (AutoRevertFailed (snap_ID snap) e)\<rparr>, w')
      | (None, w') \<Rightarrow>
          clearJournalLocked env
            (c\<lparr>token := [], deadline := None, phase := PhaseReverted,
               lastErr := None, csnapshot := no_snapshot\<rparr>) w')"

type_synonym 'w outcome = "(apply_state \<times> apply_error option) \<times> coordinator \<times> 'w"

definition answer :: "coordinator \<Rightarrow> apply_error option \<Rightarrow> 'w \<Rightarrow> 'w outcome" where
  "answer c err w = ((stateLocked c, err), c, w)"

text \<open>
  What \<open>Apply\<close> and \<open>ApplyNow\<close> both do when the commit fails: put the snapshot back at once
  and say which of the two outcomes it was. \<open>Apply\<close> also keeps the snapshot.
\<close>

definition commitFailed :: "'w apply_env \<Rightarrow> coordinator \<Rightarrow> snapshot \<Rightarrow> error \<Rightarrow> 'w \<Rightarrow> 'w outcome" where
  "commitFailed env c snap err w =
     (case ap_Revert (applier env) snap w of
        (Some re, w') \<Rightarrow>
          (let c' = c\<lparr>phase := PhaseRevertFailed, lastErr := Some (CommitAndRevertFailed err re)\<rparr>
           in answer c' (lastErr c') w')
      | (None, w') \<Rightarrow>
          (let c' = c\<lparr>phase := PhaseReverted, lastErr := Some (CommitFailedRestored err)\<rparr>
           in answer c' (lastErr c') w'))"

definition Apply :: "'w apply_env \<Rightarrow> int \<Rightarrow> string \<Rightarrow> int \<Rightarrow> coordinator \<Rightarrow> 'w \<Rightarrow> 'w outcome" where
  "Apply env timeout newToken now c w =
     (if phase c = PhaseAwaitingConfirm then answer c (Some ErrApplyInFlight) w
      else case ap_Snapshot (applier env) w of
        (Inl e, w1) \<Rightarrow>
          (let c' = c\<lparr>phase := PhaseIdle, lastErr := Some (SnapshotBeforeApply e)\<rparr>
           in answer c' (lastErr c') w1)
      | (Inr snap, w1) \<Rightarrow>
          (let c1 = c\<lparr>lastSnapshotID := snap_ID snap\<rparr> in
           case ap_Commit (applier env) w1 of
             (Some e, w2) \<Rightarrow> commitFailed env (c1\<lparr>csnapshot := snap\<rparr>) snap e w2
           | (None, w2) \<Rightarrow>
               (let c2 = c1\<lparr>phase := PhaseAwaitingConfirm, token := newToken, csnapshot := snap,
                            deadline := Some (now + timeout), window := timeout, lastErr := None\<rparr>;
                    r = \<lparr>rec_SnapshotID = snap_ID snap, rec_Token = newToken,
                         rec_Deadline = deadline c2\<rparr>;
                    (c3, w3) = (case journal env of None \<Rightarrow> (c2, w2)
                      | Some j \<Rightarrow> (case jr_Save j r w2 of
                            (None, w') \<Rightarrow> (c2, w')
                          | (Some e, w') \<Rightarrow> (c2\<lparr>lastErr := Some (NotJournalled e)\<rparr>, w')))
                in answer (c3\<lparr>watchdog := Some newToken\<rparr>) None w3)))"

definition Confirm :: "'w apply_env \<Rightarrow> string \<Rightarrow> coordinator \<Rightarrow> 'w \<Rightarrow> 'w outcome" where
  "Confirm env tok c w =
     (if phase c \<noteq> PhaseAwaitingConfirm then answer c (Some ErrNoApplyInFlight) w
      else if tok \<noteq> token c then answer c (Some ErrWrongToken) w
      else let (c', w') = clearJournalLocked env
                 (c\<lparr>watchdog := None, phase := PhaseConfirmed, token := [], deadline := None,
                    csnapshot := no_snapshot\<rparr>) w
           in answer c' None w')"

definition Stage :: "('w \<Rightarrow> error option \<times> 'w) \<Rightarrow> coordinator \<Rightarrow> 'w \<Rightarrow> apply_error option \<times> coordinator \<times> 'w" where
  "Stage stage c w =
     (if phase c = PhaseAwaitingConfirm then (Some ErrApplyInFlight, c, w)
      else let (e, w') = stage w in (map_option StageFailed e, c, w'))"

definition Exclusive :: "('w \<Rightarrow> error option \<times> 'w) \<Rightarrow> coordinator \<Rightarrow> 'w \<Rightarrow> apply_error option \<times> coordinator \<times> 'w" where
  "Exclusive fn c w = (let (e, w') = fn w in (map_option StageFailed e, c, w'))"

definition ApplyNow :: "'w apply_env \<Rightarrow> ('w \<Rightarrow> error option \<times> 'w) \<Rightarrow> coordinator \<Rightarrow> 'w \<Rightarrow> 'w outcome" where
  "ApplyNow env stage c w =
     (if phase c = PhaseAwaitingConfirm then answer c (Some ErrApplyInFlight) w
      else case stage w of
        (Some e, w1) \<Rightarrow> answer c (Some (StageFailed e)) w1
      | (None, w1) \<Rightarrow> (case ap_Snapshot (applier env) w1 of
          (Inl e, w2) \<Rightarrow> answer c (Some (SnapshotBeforeApplying e)) w2
        | (Inr snap, w2) \<Rightarrow>
            (let c1 = c\<lparr>lastSnapshotID := snap_ID snap\<rparr> in
             case ap_Commit (applier env) w2 of
               (Some e, w3) \<Rightarrow> commitFailed env c1 snap e w3
             | (None, w3) \<Rightarrow> answer (c1\<lparr>phase := PhaseIdle, lastErr := None\<rparr>) None w3)))"

definition Revert :: "'w apply_env \<Rightarrow> coordinator \<Rightarrow> 'w \<Rightarrow> 'w outcome" where
  "Revert env c w =
     (if phase c \<noteq> PhaseAwaitingConfirm then answer c (Some ErrNoApplyInFlight) w
      else let (c', w') = revertLocked env (c\<lparr>watchdog := None\<rparr>) w in answer c' (lastErr c') w')"

definition autoRevert :: "'w apply_env \<Rightarrow> string \<Rightarrow> coordinator \<Rightarrow> 'w \<Rightarrow> coordinator \<times> 'w" where
  "autoRevert env tok c w =
     (if phase c \<noteq> PhaseAwaitingConfirm \<or> tok \<noteq> token c then (c, w)
      else revertLocked env (c\<lparr>watchdog := None\<rparr>) w)"

definition RecoverPending ::
    "'w apply_env \<Rightarrow> 'w snapshot_loader \<Rightarrow> coordinator \<Rightarrow> 'w \<Rightarrow> (bool \<times> apply_error option) \<times> coordinator \<times> 'w" where
  "RecoverPending env loader c w =
     (case journal env of None \<Rightarrow> ((False, None), c, w)
      | Some j \<Rightarrow> (case jr_Load j w of
          (Inl e, w1) \<Rightarrow> ((False, Some (ReadPending e)), c, w1)
        | (Inr None, w1) \<Rightarrow> ((False, None), c, w1)
        | (Inr (Some r), w1) \<Rightarrow>
            (let c1 = c\<lparr>lastSnapshotID := rec_SnapshotID r\<rparr> in
             case loader (rec_SnapshotID r) w1 of
               Inl e \<Rightarrow> (let err = SnapshotGone (rec_SnapshotID r) e in
                 ((False, Some err), c1\<lparr>phase := PhaseRevertFailed, lastErr := Some err\<rparr>, w1))
             | Inr snap \<Rightarrow> (case ap_Revert (applier env) snap w1 of
                 (Some e, w2) \<Rightarrow> (let err = UndoAfterRestart (rec_SnapshotID r) e in
                   ((False, Some err), c1\<lparr>phase := PhaseRevertFailed, lastErr := Some err\<rparr>, w2))
               | (None, w2) \<Rightarrow> (case jr_Clear j w2 of
                   (Some e, w3) \<Rightarrow> ((True, Some (JournalNotCleared e)), c1, w3)
                 | (None, w3) \<Rightarrow> ((True, None), c1\<lparr>phase := PhaseReverted\<rparr>, w3))))))"

lemmas apply_ops =
  answer_def stateLocked_def clearJournalLocked_def revertLocked_def commitFailed_def Apply_def
  Confirm_def Stage_def Exclusive_def ApplyNow_def Revert_def autoRevert_def RecoverPending_def

section \<open>The transaction machine\<close>

text \<open>
  One process of the daemon runs the coordinator; \<open>timers\<close> are the watchdog callbacks it
  started that have not run yet, stopped or not, and \<open>issued\<close> are all tokens handed out. A
  token is \<^verbatim>\<open>apply-<nanoseconds>\<close>: non-empty and new each time. A restart forgets the
  coordinator and its timers and begins with \<open>RecoverPending\<close>, as \<^verbatim>\<open>cmd/veilbridged/main.go\<close> does.
\<close>

record 'w system =
  co :: coordinator
  wd :: 'w
  timers :: "string list"
  issued :: "string list"

datatype 'w event =
    EvApply int string int
  | EvConfirm string
  | EvRevert
  | EvStage "'w \<Rightarrow> error option \<times> 'w"
  | EvExclusive "'w \<Rightarrow> error option \<times> 'w"
  | EvApplyNow "'w \<Rightarrow> error option \<times> 'w"
  | EvTimer string
  | EvRestart

inductive apply_step :: "'w apply_env \<Rightarrow> 'w snapshot_loader \<Rightarrow> 'w system \<Rightarrow> 'w event \<Rightarrow> 'w system \<Rightarrow> bool"
  for env ld where
  step_apply: "tok \<notin> set (issued s) \<Longrightarrow> tok \<noteq> [] \<Longrightarrow>
     Apply env tmo tok now (co s) (wd s) = ((st, err), c', w') \<Longrightarrow>
     apply_step env ld s (EvApply tmo tok now)
       (s\<lparr>co := c', wd := w', issued := tok # issued s,
          timers := (if err = None then tok # timers s else timers s)\<rparr>)"
| step_confirm: "Confirm env tok (co s) (wd s) = (r, c', w') \<Longrightarrow>
     apply_step env ld s (EvConfirm tok) (s\<lparr>co := c', wd := w'\<rparr>)"
| step_revert: "Revert env (co s) (wd s) = (r, c', w') \<Longrightarrow>
     apply_step env ld s EvRevert (s\<lparr>co := c', wd := w'\<rparr>)"
| step_stage: "Stage f (co s) (wd s) = (e, c', w') \<Longrightarrow>
     apply_step env ld s (EvStage f) (s\<lparr>co := c', wd := w'\<rparr>)"
| step_exclusive: "Exclusive f (co s) (wd s) = (e, c', w') \<Longrightarrow>
     apply_step env ld s (EvExclusive f) (s\<lparr>co := c', wd := w'\<rparr>)"
| step_applynow: "ApplyNow env f (co s) (wd s) = (r, c', w') \<Longrightarrow>
     apply_step env ld s (EvApplyNow f) (s\<lparr>co := c', wd := w'\<rparr>)"
| step_timer: "tok \<in> set (timers s) \<Longrightarrow> autoRevert env tok (co s) (wd s) = (c', w') \<Longrightarrow>
     apply_step env ld s (EvTimer tok) (s\<lparr>co := c', wd := w', timers := remove1 tok (timers s)\<rparr>)"
| step_restart: "RecoverPending env ld NewApplyCoordinator (wd s) = (r, c', w') \<Longrightarrow>
     apply_step env ld s EvRestart (s\<lparr>co := c', wd := w', timers := []\<rparr>)"

text \<open>The events that do not end the transaction of \<open>tok\<close>.\<close>

definition bystander :: "string \<Rightarrow> 'w event \<Rightarrow> bool" where
  "bystander tok e \<longleftrightarrow> (case e of
     EvConfirm t \<Rightarrow> t \<noteq> tok | EvTimer t \<Rightarrow> t \<noteq> tok | EvRevert \<Rightarrow> False | EvRestart \<Rightarrow> False | _ \<Rightarrow> True)"

text \<open>Those of them that must not change anything: all but running a function under the lock.\<close>

definition refusable :: "string \<Rightarrow> 'w event \<Rightarrow> bool" where
  "refusable tok e \<longleftrightarrow> (case e of EvExclusive f \<Rightarrow> False | _ \<Rightarrow> bystander tok e)"

inductive_cases apply_stepE: "apply_step env ld s (EvApply tmo tok now) t"
inductive_cases confirm_stepE: "apply_step env ld s (EvConfirm tok) t"
inductive_cases timer_stepE: "apply_step env ld s (EvTimer tok) t"
inductive_cases restart_stepE: "apply_step env ld s EvRestart t"

definition first_system :: "'w system \<Rightarrow> bool" where
  "first_system s \<longleftrightarrow> co s = NewApplyCoordinator \<and> timers s = [] \<and> issued s = []"

text \<open>
  The invariant of the coordinator: exactly while a change awaits confirmation there is a token,
  a deadline, a snapshot the state names, and a watchdog built for that very token.
\<close>

definition coord_inv :: "coordinator \<Rightarrow> bool" where
  "coord_inv c \<longleftrightarrow>
     (if phase c = PhaseAwaitingConfirm
      then token c \<noteq> [] \<and> watchdog c = Some (token c) \<and> deadline c \<noteq> None \<and>
           snap_ID (csnapshot c) = lastSnapshotID c
      else token c = [] \<and> watchdog c = None \<and> deadline c = None)"

definition system_inv :: "'w system \<Rightarrow> bool" where
  "system_inv s \<longleftrightarrow> coord_inv (co s) \<and> set (timers s) \<subseteq> set (issued s) \<and>
     (phase (co s) = PhaseAwaitingConfirm \<longrightarrow> token (co s) \<in> set (timers s))"

lemma coord_inv_idle:
  "phase c \<noteq> PhaseAwaitingConfirm \<Longrightarrow>
    coord_inv c \<longleftrightarrow> token c = [] \<and> watchdog c = None \<and> deadline c = None"
  by (simp add: coord_inv_def)

text \<open>What a method may do to the phase, one lemma per method.\<close>

lemma clearJournalLocked_fields:
  "clearJournalLocked env c w = (c', w') \<Longrightarrow>
     phase c' = phase c \<and> token c' = token c \<and> deadline c' = deadline c \<and> watchdog c' = watchdog c \<and>
     csnapshot c' = csnapshot c \<and> lastSnapshotID c' = lastSnapshotID c"
  by (auto simp: clearJournalLocked_def split: option.splits prod.splits if_splits)

lemma revertLocked_fields:
  "revertLocked env c w = (c', w') \<Longrightarrow>
     phase c' \<in> {PhaseReverted, PhaseRevertFailed} \<and> token c' = [] \<and> deadline c' = None \<and>
     watchdog c' = watchdog c"
  by (auto simp: revertLocked_def Let_def split: option.splits prod.splits dest!: clearJournalLocked_fields)

lemma coord_inv_Apply:
  assumes "coord_inv c" and "tok \<noteq> []" and "Apply env tmo tok now c w = ((st, err), c', w')"
  shows "coord_inv c'"
    and "err = None \<longleftrightarrow> phase c \<noteq> PhaseAwaitingConfirm \<and> phase c' = PhaseAwaitingConfirm"
    and "err = None \<Longrightarrow> token c' = tok"
    and "err \<noteq> None \<Longrightarrow> phase c = PhaseAwaitingConfirm \<Longrightarrow> c' = c"
  using assms
  by (auto simp: Apply_def answer_def commitFailed_def coord_inv_def Let_def
      split: if_splits option.splits prod.splits sum.splits)

lemma coord_inv_Confirm:
  "coord_inv c \<Longrightarrow> Confirm env tok c w = (r, c', w') \<Longrightarrow>
     coord_inv c' \<and> (c' = c \<or> phase c' = PhaseConfirmed)"
  by (auto simp: Confirm_def answer_def coord_inv_def split: if_splits prod.splits dest!: clearJournalLocked_fields)

lemma coord_inv_Revert:
  "coord_inv c \<Longrightarrow> Revert env c w = (r, c', w') \<Longrightarrow>
     coord_inv c' \<and> (c' = c \<or> phase c' \<noteq> PhaseAwaitingConfirm)"
  by (auto simp: Revert_def answer_def coord_inv_def split: if_splits prod.splits dest!: revertLocked_fields)

lemma coord_inv_autoRevert:
  "coord_inv c \<Longrightarrow> autoRevert env tok c w = (c', w') \<Longrightarrow> coord_inv c'"
  by (auto simp: autoRevert_def coord_inv_def split: if_splits dest!: revertLocked_fields)

lemma coord_inv_ApplyNow:
  "coord_inv c \<Longrightarrow> ApplyNow env f c w = (r, c', w') \<Longrightarrow>
     coord_inv c' \<and> (phase c' = PhaseAwaitingConfirm \<longleftrightarrow> phase c = PhaseAwaitingConfirm) \<and> token c' = token c"
  by (auto simp: ApplyNow_def answer_def commitFailed_def coord_inv_def Let_def
      split: if_splits option.splits prod.splits sum.splits)

lemma Stage_coordinator: "Stage f c w = (e, c', w') \<Longrightarrow> c' = c"
  by (auto simp: Stage_def split: if_splits prod.splits)

lemma Exclusive_coordinator: "Exclusive f c w = (e, c', w') \<Longrightarrow> c' = c"
  by (auto simp: Exclusive_def split: prod.splits)

lemma coord_inv_RecoverPending:
  assumes "RecoverPending env ld NewApplyCoordinator w = (r, c', w')"
  shows "coord_inv c'" "phase c' \<noteq> PhaseAwaitingConfirm"
  using assms
  by (auto simp: RecoverPending_def NewApplyCoordinator_def coord_inv_def Let_def
      split: option.splits prod.splits sum.splits)

lemma system_inv_coord: "system_inv s \<Longrightarrow> coord_inv (co s)"
  by (simp add: system_inv_def)

lemma system_inv_same_timers:
  assumes "system_inv s" and "coord_inv c'"
    and "phase c' = PhaseAwaitingConfirm \<Longrightarrow> phase (co s) = PhaseAwaitingConfirm \<and> token c' = token (co s)"
  shows "system_inv (s\<lparr>co := c', wd := w'\<rparr>)"
  using assms by (auto simp: system_inv_def)

lemma system_inv_step:
  assumes "system_inv s" and "apply_step env ld s e t"
  shows "system_inv t"
  using assms(2)
proof (cases rule: apply_step.cases)
  case (step_apply tok tmo now st err c' w')
  note facts = coord_inv_Apply [OF system_inv_coord [OF assms(1)] step_apply(4,5)]
  show ?thesis
    using assms(1) step_apply(1-3) facts by (auto simp: system_inv_def)
next
  case (step_confirm tok r c' w')
  from coord_inv_Confirm [OF system_inv_coord [OF assms(1)] this(3)] show ?thesis
    unfolding step_confirm(2) by (intro system_inv_same_timers [OF assms(1)]) auto
next
  case (step_revert r c' w')
  from coord_inv_Revert [OF system_inv_coord [OF assms(1)] this(3)] show ?thesis
    unfolding step_revert(2) by (intro system_inv_same_timers [OF assms(1)]) auto
next
  case (step_stage f e' c' w')
  from Stage_coordinator [OF this(3)] system_inv_coord [OF assms(1)] show ?thesis
    unfolding step_stage(2) by (intro system_inv_same_timers [OF assms(1)]) auto
next
  case (step_exclusive f e' c' w')
  from Exclusive_coordinator [OF this(3)] system_inv_coord [OF assms(1)] show ?thesis
    unfolding step_exclusive(2) by (intro system_inv_same_timers [OF assms(1)]) auto
next
  case (step_applynow f r c' w')
  from coord_inv_ApplyNow [OF system_inv_coord [OF assms(1)] this(3)] show ?thesis
    unfolding step_applynow(2) by (intro system_inv_same_timers [OF assms(1)]) auto
next
  case (step_timer tok c' w')
  have "token c' \<in> set (remove1 tok (timers s))" if "phase c' = PhaseAwaitingConfirm"
    using that assms(1) step_timer(4)
    by (auto simp: autoRevert_def system_inv_def in_set_remove1
        split: if_splits dest!: revertLocked_fields)
  with coord_inv_autoRevert [OF system_inv_coord [OF assms(1)] step_timer(4)] assms(1)
  show ?thesis
    unfolding step_timer(2) using set_remove1_subset [of tok "timers s"]
    by (auto simp: system_inv_def)
next
  case (step_restart r c' w')
  from coord_inv_RecoverPending [OF this(3)] assms(1) show ?thesis
    unfolding step_restart(2) by (auto simp: system_inv_def)
qed

interpretation coord: machine first_system "apply_step env ld" system_inv for env ld
proof unfold_locales
  show "system_inv s" if "first_system s" for s :: "'w system"
    using that by (simp add: first_system_def system_inv_def NewApplyCoordinator_def coord_inv_def)
qed (rule system_inv_step)

text \<open>The machine as a function: \<open>None\<close> where an event cannot happen.\<close>

fun exec :: "'w apply_env \<Rightarrow> 'w snapshot_loader \<Rightarrow> 'w system \<Rightarrow> 'w event \<Rightarrow> 'w system option" where
  "exec env ld s (EvApply tmo tok now) =
     (if tok \<in> set (issued s) \<or> tok = [] then None
      else let ((st, err), c', w') = Apply env tmo tok now (co s) (wd s)
           in Some (s\<lparr>co := c', wd := w', issued := tok # issued s,
                timers := (if err = None then tok # timers s else timers s)\<rparr>))"
| "exec env ld s (EvConfirm tok) = (let (r, c', w') = Confirm env tok (co s) (wd s) in Some (s\<lparr>co := c', wd := w'\<rparr>))"
| "exec env ld s EvRevert = (let (r, c', w') = Revert env (co s) (wd s) in Some (s\<lparr>co := c', wd := w'\<rparr>))"
| "exec env ld s (EvStage f) = (let (r, c', w') = Stage f (co s) (wd s) in Some (s\<lparr>co := c', wd := w'\<rparr>))"
| "exec env ld s (EvExclusive f) = (let (r, c', w') = Exclusive f (co s) (wd s) in Some (s\<lparr>co := c', wd := w'\<rparr>))"
| "exec env ld s (EvApplyNow f) = (let (r, c', w') = ApplyNow env f (co s) (wd s) in Some (s\<lparr>co := c', wd := w'\<rparr>))"
| "exec env ld s (EvTimer tok) =
     (if tok \<notin> set (timers s) then None
      else let (c', w') = autoRevert env tok (co s) (wd s)
           in Some (s\<lparr>co := c', wd := w', timers := remove1 tok (timers s)\<rparr>))"
| "exec env ld s EvRestart =
     (let (r, c', w') = RecoverPending env ld NewApplyCoordinator (wd s)
      in Some (s\<lparr>co := c', wd := w', timers := []\<rparr>))"

lemma exec_iff_step: "exec env ld s e = Some t \<longleftrightarrow> apply_step env ld s e t"
proof
  show "exec env ld s e = Some t \<Longrightarrow> apply_step env ld s e t"
    by (cases e) (auto simp: Let_def intro: apply_step.intros split: if_splits prod.splits dest: step_apply [of _ s env _ _ _ _ _ _ ld])
  show "apply_step env ld s e t \<Longrightarrow> exec env ld s e = Some t"
    by (induction rule: apply_step.induct) auto
qed

lemma exec_trace:
  "foldl (\<lambda>m e. Option.bind m (\<lambda>s. exec env ld s e)) (Some s) es = Some t \<Longrightarrow> trace (apply_step env ld) s es t"
proof (induction es arbitrary: s)
  case (Cons e es)
  have none: "foldl (\<lambda>m e. Option.bind m (\<lambda>s. exec env ld s e)) None es = None" for es
    by (induction es) auto
  from Cons show ?case
    by (cases "exec env ld s e") (auto simp: none exec_iff_step intro: trace.intros)
qed (auto intro: trace.intros)

section \<open>What the coordinator relies on, and what it promises\<close>

text \<open>
  The contract of an adapter's applier and journal. \<open>cfg\<close> is the live configuration,
  \<open>content\<close> reads a snapshot's payload, \<open>jrec\<close> is the record the journal holds and \<open>disk\<close> the
  snapshots that outlive the process. A commit may do anything to the configuration, and every
  operation may fail.
\<close>

locale config_contract =
  fixes A :: "'w config_applier" and J :: "'w apply_journal" and loader :: "'w snapshot_loader"
    and cfg :: "'w \<Rightarrow> 'c" and content :: "string \<Rightarrow> 'c option"
    and jrec :: "'w \<Rightarrow> apply_record option" and disk :: "'w \<Rightarrow> string \<Rightarrow> string option"
  assumes snapshot_ok: "ap_Snapshot A w = (Inr sn, w') \<Longrightarrow> content (snap_Payload sn) = Some (cfg w)"
    and snapshot_frame: "ap_Snapshot A w = (x, w') \<Longrightarrow> cfg w' = cfg w \<and> jrec w' = jrec w"
    and commit_frame: "ap_Commit A w = (y, w') \<Longrightarrow> jrec w' = jrec w \<and> disk w' = disk w"
    and revert_ok: "ap_Revert A sn w = (None, w') \<Longrightarrow> content (snap_Payload sn) = Some cf \<Longrightarrow> cfg w' = cf"
    and revert_frame: "ap_Revert A sn w = (y, w') \<Longrightarrow> jrec w' = jrec w \<and> disk w' = disk w"
    and save_ok: "jr_Save J rc w = (None, w') \<Longrightarrow> jrec w' = Some rc"
    and save_frame: "jr_Save J rc w = (y, w') \<Longrightarrow> cfg w' = cfg w \<and> disk w' = disk w"
    and load_ok: "jr_Load J w = (Inr z, w') \<Longrightarrow> z = jrec w"
    and load_frame: "jr_Load J w = (l, w') \<Longrightarrow> cfg w' = cfg w \<and> jrec w' = jrec w \<and> disk w' = disk w"
    and clear_ok: "jr_Clear J w = (None, w') \<Longrightarrow> jrec w' = None"
    and clear_frame: "jr_Clear J w = (y, w') \<Longrightarrow> cfg w' = cfg w \<and> disk w' = disk w"
    and loader_ok: "loader i w = Inr sn \<Longrightarrow> disk w i = Some (snap_Payload sn)"
begin

abbreviation env :: "'w apply_env" where "env \<equiv> \<lparr>applier = A, journal = Some J\<rparr>"

abbreviation steps :: "'w system \<Rightarrow> 'w event \<Rightarrow> 'w system \<Rightarrow> bool" where
  "steps \<equiv> apply_step env loader"

text \<open>A change that awaits confirmation under the token \<open>tok\<close>, with \<open>cf\<close> to go back to.\<close>

definition pending :: "string \<Rightarrow> 'c \<Rightarrow> 'w system \<Rightarrow> bool" where
  "pending tok cf s \<longleftrightarrow> phase (co s) = PhaseAwaitingConfirm \<and> token (co s) = tok \<and>
     content (snap_Payload (csnapshot (co s))) = Some cf"

lemma Apply_success:
  assumes "Apply env tmo tok now c w = ((st, None), c', w')"
  shows "phase c' = PhaseAwaitingConfirm" "token c' = tok"
    "content (snap_Payload (csnapshot c')) = Some (cfg w)"
    "lastErr c' = None \<Longrightarrow> \<exists>r. jrec w' = Some r \<and> rec_SnapshotID r = snap_ID (csnapshot c')"
  using assms
  by (auto simp: Apply_def answer_def commitFailed_def Let_def dest: snapshot_ok save_ok
      split: if_splits option.splits prod.splits sum.splits)

lemma pending_start:
  assumes "steps s (EvApply tmo tok now) t" and "phase (co s) \<noteq> PhaseAwaitingConfirm"
    and "phase (co t) = PhaseAwaitingConfirm" and "system_inv s"
  shows "pending tok (cfg (wd s)) t"
proof -
  from assms(1) obtain st err c' w' where ap: "Apply env tmo tok now (co s) (wd s) = ((st, err), c', w')"
    and tok: "tok \<noteq> []" and co: "co t = c'"
    by (elim apply_stepE) auto
  have "err = None"
    using coord_inv_Apply(2) [OF system_inv_coord [OF assms(4)] tok ap] assms(2,3) co by simp
  with Apply_success [of tmo tok now "co s" "wd s" st c' w'] ap co show ?thesis
    by (simp add: pending_def)
qed

lemma busy_refuses:
  assumes "phase c = PhaseAwaitingConfirm"
  shows "Apply env tmo tok now c w = answer c (Some ErrApplyInFlight) w"
    and "ApplyNow env f c w = answer c (Some ErrApplyInFlight) w"
    and "Stage f c w = (Some ErrApplyInFlight, c, w)"
    and "tok \<noteq> token c \<Longrightarrow> Confirm env tok c w = answer c (Some ErrWrongToken) w"
    and "tok \<noteq> token c \<Longrightarrow> autoRevert env tok c w = (c, w)"
  using assms by (simp_all add: Apply_def ApplyNow_def Stage_def Confirm_def autoRevert_def)

lemma pending_step:
  assumes "pending tok cf s" and "bystander tok e" and "steps s e t"
  shows "pending tok cf t"
  using assms(3,1,2)
  by (cases rule: apply_step.cases)
    (auto simp: pending_def bystander_def busy_refuses answer_def Exclusive_def split: prod.splits)

lemma pending_trace:
  assumes "trace steps s es t" and "pending tok cf s" and "\<forall>e \<in> set es. bystander tok e"
  shows "pending tok cf t"
  using assms by (induction rule: trace.induct) (auto intro: pending_step)

lemma revertLocked_outcome:
  assumes "revertLocked env c w = (c', w')" and "content (snap_Payload (csnapshot c)) = Some cf"
  shows "(phase c' = PhaseReverted \<and> cfg w' = cf) \<or> (phase c' = PhaseRevertFailed \<and> lastErr c' \<noteq> None)"
  using assms
  by (auto simp: revertLocked_def clearJournalLocked_def Let_def dest: revert_ok clear_frame
      split: option.splits prod.splits if_splits)

lemma timer_undoes:
  assumes "pending tok cf s" and "steps s (EvTimer tok) t"
  shows "(phase (co t) = PhaseReverted \<and> cfg (wd t) = cf) \<or>
    (phase (co t) = PhaseRevertFailed \<and> lastErr (co t) \<noteq> None)"
proof -
  from assms(2) obtain c' w' where ar: "autoRevert env tok (co s) (wd s) = (c', w')"
    and t: "co t = c'" "wd t = w'"
    by (elim timer_stepE) auto
  from ar assms(1) have "revertLocked env ((co s)\<lparr>watchdog := None\<rparr>) (wd s) = (c', w')"
    by (simp add: autoRevert_def pending_def)
  from revertLocked_outcome [OF this, of cf] assms(1) t show ?thesis
    by (simp add: pending_def)
qed

text \<open>
  A restart inside the window: the journal names the snapshot and the snapshot is on disk, so
  the change is undone, or an error says it was not.
\<close>

lemma restart_undoes:
  assumes "jrec w = Some r" and "disk w (rec_SnapshotID r) = Some p" and "content p = Some cf"
    and "RecoverPending env loader c w = ((done, err), c', w')"
  shows "(done \<and> cfg w' = cf) \<or> (\<not> done \<and> err \<noteq> None)"
proof (cases "jr_Load J w")
  case (Pair l w1)
  show ?thesis
  proof (cases l)
    case (Inl e)
    with Pair assms(4) show ?thesis by (auto simp: RecoverPending_def)
  next
    case (Inr z)
    with Pair load_ok load_frame have z: "z = Some r" and fr: "disk w1 = disk w"
      using assms(1) by fastforce+
    have undone: "cfg w3 = cf"
      if "loader (rec_SnapshotID r) w1 = Inr sn" "ap_Revert A sn w1 = (None, w2)" "jr_Clear J w2 = (x, w3)"
      for sn w2 w3 x
      using revert_ok [OF that(2)] loader_ok [OF that(1)] clear_frame [OF that(3)] assms(2,3) fr by simp
    show ?thesis
      using assms(4) Pair Inr z
      by (auto simp: RecoverPending_def Let_def dest: undone split: sum.splits option.splits prod.splits)
  qed
qed

text \<open>After a clean confirmation nothing is left for a restart to undo.\<close>

lemma confirm_clears:
  assumes "Confirm env tok c w = ((st, None), c', w')" and "lastErr c = None" and "lastErr c' = None"
  shows "phase c' = PhaseConfirmed" "cfg w' = cfg w" "jrec w' = None"
  using assms
  by (auto simp: Confirm_def clearJournalLocked_def answer_def Let_def dest: clear_ok clear_frame
      split: if_splits option.splits prod.splits)

lemma restart_idle:
  assumes "jrec w = None" and "RecoverPending env loader c w = ((done, err), c', w')"
  shows "\<not> done" "c' = c" "cfg w' = cfg w"
  using assms
  by (auto simp: RecoverPending_def Let_def dest: load_ok load_frame
      split: sum.splits option.splits prod.splits)

end

end
