(* ===== verification/Uci_Applier.thy ===== *)
theory Uci_Applier
  imports Apply
begin

text \<open>
  The OpenWrt side of the transaction: \<^verbatim>\<open>internal/adapters/openwrt/uci.go\<close> (snapshots of
  \<^verbatim>\<open>/etc/config\<close> as tar archives, \<^verbatim>\<open>uci commit\<close>, revert by unpacking, the snapshot directory
  and its pruning) and \<^verbatim>\<open>journal.go\<close> (the record of a change nobody confirmed yet).

  The operating system is a parameter: the record \<open>os\<close> holds the programs run through the
  command seam, the file operations and the JSON codec of the journal's record. The locale
  \<open>os_contract\<close> says what the code relies on; under it the applier and the journal satisfy
  \<open>config_contract\<close>, the coordinator's side of the interface.
\<close>

section \<open>The operating system as a parameter\<close>

record 'w os =
  os_run :: "string \<Rightarrow> string list \<Rightarrow> 'w \<Rightarrow> string result \<times> 'w"
  os_ReadFile :: "string \<Rightarrow> 'w \<Rightarrow> read_result"
  os_WriteFile :: "string \<Rightarrow> string \<Rightarrow> 'w \<Rightarrow> error option \<times> 'w"
  os_MkdirAll :: "string \<Rightarrow> 'w \<Rightarrow> error option \<times> 'w"
  os_Rename :: "string \<Rightarrow> string \<Rightarrow> 'w \<Rightarrow> error option \<times> 'w"
  os_Remove :: "string \<Rightarrow> 'w \<Rightarrow> remove_result \<times> 'w"
  os_ReadDir :: "string \<Rightarrow> 'w \<Rightarrow> (string \<times> bool) list result"
  os_CreateTemp :: "'w \<Rightarrow> string result \<times> 'w"
  os_stamp :: "'w \<Rightarrow> string"
  os_now :: "'w \<Rightarrow> int"
  json_Marshal :: "apply_record \<Rightarrow> string result"
  json_Unmarshal :: "string \<Rightarrow> apply_record result"

definition joinPath :: "string \<Rightarrow> string \<Rightarrow> string" where
  "joinPath dir name = dir @ ''/'' @ name"

section \<open>The command seam\<close>

definition fw4Program :: string where "fw4Program = ''/sbin/fw4''"
definition nftProgram :: string where "nftProgram = ''/usr/sbin/nft''"
definition ipProgram :: string where "ipProgram = ''/sbin/ip''"

definition allowedCommands :: "string list" where
  "allowedCommands = [''uci'', ''tar'', ''/sbin/reload_config'', fw4Program, nftProgram, ipProgram]"

definition runCommand :: "'w os \<Rightarrow> string \<Rightarrow> string list \<Rightarrow> 'w \<Rightarrow> string result \<times> 'w" where
  "runCommand os name args w =
     (if name \<notin> set allowedCommands then (Inl (Failed ''not in the allow-list''), w)
      else os_run os name args w)"

section \<open>The applier\<close>

record uci_applier =
  configRoot :: string
  configDir :: string
  snapshotDir :: string
  journalPath :: string
  keepSnapshots :: nat

definition newUCIApplier :: uci_applier where
  "newUCIApplier = \<lparr>configRoot = ''/etc'', configDir = ''config'',
     snapshotDir = ''/etc/veilbridge/snapshots'',
     journalPath = ''/etc/veilbridge/pending-apply.json'', keepSnapshots = 5\<rparr>"

lemma newUCIApplier_paths:
  "configRoot newUCIApplier = ''/etc''" "configDir newUCIApplier = ''config''"
  "snapshotDir newUCIApplier = ''/etc/veilbridge/snapshots''"
  "journalPath newUCIApplier = ''/etc/veilbridge/pending-apply.json''"
  "keepSnapshots newUCIApplier = 5"
  by (simp_all add: newUCIApplier_def)

definition unsafeID :: "string \<Rightarrow> bool" where
  "unsafeID i \<longleftrightarrow> i = [] \<or> ContainsAny i [CHR ''/'', backslash] \<or> Contains i ''..''"

definition snapshotPath :: "uci_applier \<Rightarrow> string \<Rightarrow> string" where
  "snapshotPath u i = joinPath (snapshotDir u) (i @ ''.tar.gz'')"

text \<open>\<open>prune\<close> keeps the newest \<open>keepSnapshots\<close> archives: the last ones in the order of names.\<close>

fun removeNames :: "'w os \<Rightarrow> string \<Rightarrow> string list \<Rightarrow> 'w \<Rightarrow> error option \<times> 'w" where
  "removeNames os dir [] w = (None, w)"
| "removeNames os dir (n # ns) w =
     (case os_Remove os (joinPath dir n) w of
        (Removed, w') \<Rightarrow> removeNames os dir ns w'
      | (NothingToRemove, w') \<Rightarrow> (Some (Failed ''prune old snapshot''), w')
      | (RemoveError e, w') \<Rightarrow> (Some (Failed ''prune old snapshot''), w'))"

definition pruneNames :: "nat \<Rightarrow> (string \<times> bool) list \<Rightarrow> string list" where
  "pruneNames keep entries =
     (let names = sort (map fst (filter (\<lambda>(n, isDir). \<not> isDir \<and> HasPrefix n ''uci-'') entries))
      in if length names \<le> keep then [] else take (length names - keep) names)"

definition prune :: "uci_applier \<Rightarrow> 'w os \<Rightarrow> 'w \<Rightarrow> error option \<times> 'w" where
  "prune u os w =
     (case os_ReadDir os (snapshotDir u) w of
        Inl e \<Rightarrow> (Some e, w)
      | Inr entries \<Rightarrow> removeNames os (snapshotDir u) (pruneNames (keepSnapshots u) entries) w)"

definition persist :: "uci_applier \<Rightarrow> 'w os \<Rightarrow> snapshot \<Rightarrow> 'w \<Rightarrow> error option \<times> 'w" where
  "persist u os snap w =
     (if snapshotDir u = [] then (None, w)
      else case os_MkdirAll os (snapshotDir u) w of
        (Some e, w1) \<Rightarrow> (Some e, w1)
      | (None, w1) \<Rightarrow>
          if unsafeID (snap_ID snap) then (Some (Failed ''unsafe snapshot id''), w1)
          else (case os_WriteFile os (snapshotPath u (snap_ID snap)) (snap_Payload snap) w1 of
              (Some e, w2) \<Rightarrow> (Some e, w2)
            | (None, w2) \<Rightarrow> prune u os w2))"

definition uci_Snapshot :: "uci_applier \<Rightarrow> 'w os \<Rightarrow> 'w \<Rightarrow> snapshot result \<times> 'w" where
  "uci_Snapshot u os w =
     (case runCommand os ''tar'' [''czf'', ''-'', ''-C'', configRoot u, configDir u] w of
        (Inl e, w1) \<Rightarrow> (Inl (Failed ''snapshot /etc/config''), w1)
      | (Inr payload, w1) \<Rightarrow>
          if payload = [] then (Inl (Failed ''snapshot /etc/config: archive is empty''), w1)
          else let snap = \<lparr>snap_ID = ''uci-'' @ os_stamp os w1, snap_Taken = Some (os_now os w1),
                           snap_Payload = payload\<rparr>
               in (Inr snap, snd (persist u os snap w1)))"

definition uci_Commit :: "'w os \<Rightarrow> 'w \<Rightarrow> error option \<times> 'w" where
  "uci_Commit os w =
     (case runCommand os ''uci'' [''commit''] w of
        (Inl e, w1) \<Rightarrow> (Some (Failed ''uci commit''), w1)
      | (Inr out, w1) \<Rightarrow> (case runCommand os ''/sbin/reload_config'' [] w1 of
          (Inl e, w2) \<Rightarrow> (Some (Failed ''reload_config after commit''), w2)
        | (Inr out2, w2) \<Rightarrow> (None, w2)))"

text \<open>\<open>stagedPackages\<close>: the package names of \<open>uci changes\<close>, each once, sorted.\<close>

definition stagedLine :: "string \<Rightarrow> string option" where
  "stagedLine l =
     (let line = TrimSpace (TrimPrefix (TrimSpace l) ''-'') in
      if line = [] then None
      else case Cut line CHR ''.'' of None \<Rightarrow> None
        | Some (name, rest) \<Rightarrow> if name = [] then None else Some name)"

definition stagedPackages :: "string \<Rightarrow> string list" where
  "stagedPackages out = sort (remdups (List.map_filter stagedLine (Split out newline)))"

fun revertPackages :: "'w os \<Rightarrow> string list \<Rightarrow> 'w \<Rightarrow> error option \<times> 'w" where
  "revertPackages os [] w = (None, w)"
| "revertPackages os (p # ps) w =
     (case runCommand os ''uci'' [''revert'', p] w of
        (Inl e, w') \<Rightarrow> (Some (Failed ''revert: drop staged changes''), w')
      | (Inr out, w') \<Rightarrow> revertPackages os ps w')"

definition dropStaged :: "'w os \<Rightarrow> 'w \<Rightarrow> error option \<times> 'w" where
  "dropStaged os w =
     (case runCommand os ''uci'' [''changes''] w of
        (Inl e, w1) \<Rightarrow> (Some (Failed ''revert: list staged changes''), w1)
      | (Inr out, w1) \<Rightarrow> revertPackages os (stagedPackages out) w1)"

text \<open>
  The body of \<open>Revert\<close> between creating the temporary file and its deferred removal:
  write the archive, unpack it, tell the services.
\<close>

definition unpackSnapshot :: "uci_applier \<Rightarrow> 'w os \<Rightarrow> snapshot \<Rightarrow> string \<Rightarrow> 'w \<Rightarrow> error option \<times> 'w" where
  "unpackSnapshot u os snap tmp w =
     (case os_WriteFile os tmp (snap_Payload snap) w of
        (Some e, w1) \<Rightarrow> (Some (Failed ''revert: write archive''), w1)
      | (None, w1) \<Rightarrow> (case runCommand os ''tar'' [''xzf'', tmp, ''-C'', configRoot u] w1 of
          (Inl e, w2) \<Rightarrow> (Some (Failed ''revert: unpack snapshot''), w2)
        | (Inr out, w2) \<Rightarrow> (case runCommand os ''/sbin/reload_config'' [] w2 of
            (Inl e, w3) \<Rightarrow> (Some (Failed ''revert: reload_config''), w3)
          | (Inr out2, w3) \<Rightarrow> (None, w3))))"

definition uci_Revert :: "uci_applier \<Rightarrow> 'w os \<Rightarrow> snapshot \<Rightarrow> 'w \<Rightarrow> error option \<times> 'w" where
  "uci_Revert u os snap w =
     (if snap_Payload snap = [] then (Some (Failed ''revert: snapshot carries no data''), w)
      else case dropStaged os w of
        (Some e, w1) \<Rightarrow> (Some e, w1)
      | (None, w1) \<Rightarrow> (case os_CreateTemp os w1 of
          (Inl e, w2) \<Rightarrow> (Some (Failed ''revert: temp file''), w2)
        | (Inr tmp, w2) \<Rightarrow>
            let (err, w3) = unpackSnapshot u os snap tmp w2
            in (err, snd (os_Remove os tmp w3))))"

definition LoadSnapshot :: "uci_applier \<Rightarrow> 'w os \<Rightarrow> 'w snapshot_loader" where
  "LoadSnapshot u os i w =
     (if unsafeID i then Inl (Failed ''refusing to load snapshot with unsafe id'')
      else case os_ReadFile os (snapshotPath u i) w of
        FileMissing \<Rightarrow> Inl (Failed ''load snapshot'')
      | ReadError e \<Rightarrow> Inl (Failed ''load snapshot'')
      | FileData p \<Rightarrow> if p = [] then Inl (Failed ''load snapshot: file is empty'')
          else Inr \<lparr>snap_ID = i, snap_Taken = None, snap_Payload = p\<rparr>)"

section \<open>The journal\<close>

definition journal_Save :: "string \<Rightarrow> 'w os \<Rightarrow> apply_record \<Rightarrow> 'w \<Rightarrow> error option \<times> 'w" where
  "journal_Save path os r w =
     (case os_MkdirAll os ''/etc/veilbridge'' w of
        (Some e, w1) \<Rightarrow> (Some (Failed ''journal dir''), w1)
      | (None, w1) \<Rightarrow> (case json_Marshal os r of
          Inl e \<Rightarrow> (Some (Failed ''encode pending apply''), w1)
        | Inr data \<Rightarrow> (case os_WriteFile os (path @ ''.tmp'') data w1 of
            (Some e, w2) \<Rightarrow> (Some (Failed ''write pending apply''), w2)
          | (None, w2) \<Rightarrow> (case os_Rename os (path @ ''.tmp'') path w2 of
              (Some e, w3) \<Rightarrow> (Some (Failed ''commit pending apply''), w3)
            | (None, w3) \<Rightarrow> (None, w3)))))"

definition journal_Load :: "string \<Rightarrow> 'w os \<Rightarrow> 'w \<Rightarrow> apply_record option result \<times> 'w" where
  "journal_Load path os w =
     ((case os_ReadFile os path w of
         FileMissing \<Rightarrow> Inr None
       | ReadError e \<Rightarrow> Inl (Failed ''read pending apply'')
       | FileData d \<Rightarrow> (case json_Unmarshal os d of
           Inl e \<Rightarrow> Inl (Failed ''pending apply file is unreadable'')
         | Inr r \<Rightarrow> if rec_SnapshotID r = [] then Inl (Failed ''pending apply file names no snapshot'')
             else Inr (Some r))), w)"

definition journal_Clear :: "string \<Rightarrow> 'w os \<Rightarrow> 'w \<Rightarrow> error option \<times> 'w" where
  "journal_Clear path os w =
     (case os_Remove os path w of
        (RemoveError e, w') \<Rightarrow> (Some (Failed ''clear pending apply''), w')
      | (_, w') \<Rightarrow> (None, w'))"

definition uciApplier :: "'w os \<Rightarrow> 'w config_applier" where
  "uciApplier os = \<lparr>ap_Snapshot = uci_Snapshot newUCIApplier os, ap_Commit = uci_Commit os,
     ap_Revert = uci_Revert newUCIApplier os\<rparr>"

definition applyJournal :: "'w os \<Rightarrow> 'w apply_journal" where
  "applyJournal os = \<lparr>jr_Save = journal_Save (journalPath newUCIApplier) os,
     jr_Load = journal_Load (journalPath newUCIApplier) os,
     jr_Clear = journal_Clear (journalPath newUCIApplier) os\<rparr>"

section \<open>What the applier relies on\<close>

text \<open>
  \<open>conf\<close> is the content of \<^verbatim>\<open>/etc/config\<close>, \<open>files\<close> every other file, \<open>archive\<close> what an archive
  holds. The laws: \<^verbatim>\<open>tar c\<close> prints an archive of the configuration and changes nothing,
  \<^verbatim>\<open>tar x\<close> makes the configuration what the archive holds, \<^verbatim>\<open>reload_config\<close> reads it only, no
  program the adapter may run touches a file outside \<^verbatim>\<open>/etc/config\<close>, a file operation acts on
  its own path only and leaves the configuration alone when that path is elsewhere, a temporary file is under
  \<^verbatim>\<open>/tmp\<close>, and the JSON of a record decodes to it.
\<close>

definition elsewhere :: "string \<Rightarrow> bool" where
  "elsewhere f \<longleftrightarrow> \<not> HasPrefix f ''/etc/config/''"

text \<open>What the journal's file records, and the payload kept under a snapshot's name.\<close>

definition journal_rec :: "'w os \<Rightarrow> ('w \<Rightarrow> string \<Rightarrow> string option) \<Rightarrow> 'w \<Rightarrow> apply_record option" where
  "journal_rec os files w = (case files w (journalPath newUCIApplier) of None \<Rightarrow> None
     | Some d \<Rightarrow> (case json_Unmarshal os d of Inl e \<Rightarrow> None | Inr r \<Rightarrow> Some r))"

definition snapshot_file :: "('w \<Rightarrow> string \<Rightarrow> string option) \<Rightarrow> 'w \<Rightarrow> string \<Rightarrow> string option" where
  "snapshot_file files w i = files w (snapshotPath newUCIApplier i)"

locale os_contract =
  fixes os :: "'w os" and files :: "'w \<Rightarrow> string \<Rightarrow> string option"
    and conf :: "'w \<Rightarrow> 'c" and archive :: "string \<Rightarrow> 'c option"
  assumes tar_create: "os_run os ''tar'' [''czf'', ''-'', ''-C'', ''/etc'', ''config''] w = (Inr p, w') \<Longrightarrow>
      archive p = Some (conf w)"
    and tar_create_conf: "os_run os ''tar'' [''czf'', ''-'', ''-C'', ''/etc'', ''config''] w = (x, w') \<Longrightarrow>
      conf w' = conf w"
    and tar_extract: "os_run os ''tar'' [''xzf'', f, ''-C'', ''/etc''] w = (Inr out, w') \<Longrightarrow>
      files w f = Some p \<Longrightarrow> archive p = Some cf \<Longrightarrow> conf w' = cf"
    and reload_conf: "os_run os ''/sbin/reload_config'' [] w = (x, w') \<Longrightarrow> conf w' = conf w"
    and run_files: "name \<in> set allowedCommands \<Longrightarrow> os_run os name args w = (x, w') \<Longrightarrow> files w' = files w"
    and read_data: "os_ReadFile os f w = FileData d \<Longrightarrow> files w f = Some d"
    and read_missing: "os_ReadFile os f w = FileMissing \<Longrightarrow> files w f = None"
    and write_ok: "os_WriteFile os f d w = (None, w') \<Longrightarrow> files w' f = Some d"
    and write_frame: "elsewhere f \<Longrightarrow> os_WriteFile os f d w = (y, w') \<Longrightarrow>
      conf w' = conf w \<and> (\<forall>g. g \<noteq> f \<longrightarrow> files w' g = files w g)"
    and mkdir_frame: "os_MkdirAll os f w = (y, w') \<Longrightarrow> conf w' = conf w \<and> files w' = files w"
    and rename_ok: "os_Rename os f g w = (None, w') \<Longrightarrow> files w' g = files w f"
    and rename_frame: "elsewhere f \<Longrightarrow> elsewhere g \<Longrightarrow> os_Rename os f g w = (y, w') \<Longrightarrow>
      conf w' = conf w \<and> (\<forall>h. h \<noteq> f \<longrightarrow> h \<noteq> g \<longrightarrow> files w' h = files w h)"
    and remove_ok: "os_Remove os f w = (q, w') \<Longrightarrow> (\<forall>e. q \<noteq> RemoveError e) \<Longrightarrow> files w' f = None"
    and remove_frame: "elsewhere f \<Longrightarrow> os_Remove os f w = (q, w') \<Longrightarrow>
      conf w' = conf w \<and> (\<forall>g. g \<noteq> f \<longrightarrow> files w' g = files w g)"
    and temp_frame: "os_CreateTemp os w = (x, w') \<Longrightarrow>
      conf w' = conf w \<and> (\<forall>g. \<not> HasPrefix g ''/tmp/'' \<longrightarrow> files w' g = files w g)"
    and temp_name: "os_CreateTemp os w = (Inr f, w') \<Longrightarrow> HasPrefix f ''/tmp/''"
    and json_roundtrip: "json_Marshal os r = Inr d \<Longrightarrow> json_Unmarshal os d = Inr r"
begin

lemma run_frame: "runCommand os name args w = (x, w') \<Longrightarrow> files w' = files w"
  by (auto simp: runCommand_def dest: run_files split: if_splits)

lemma runCommand_allowed: "name \<in> set allowedCommands \<Longrightarrow> runCommand os name args w = os_run os name args w"
  by (simp add: runCommand_def)

lemma etc_elsewhere: "elsewhere (''/etc/veilbridge/'' @ x)" "HasPrefix f ''/tmp/'' \<Longrightarrow> elsewhere f"
  by (auto simp: elsewhere_def HasPrefix_iff)

text \<open>Operations on the snapshot directory leave the configuration and the journal alone.\<close>

abbreviation quiet :: "'w \<Rightarrow> 'w \<Rightarrow> bool" where
  "quiet w w' \<equiv> conf w' = conf w \<and>
     files w' (journalPath newUCIApplier) = files w (journalPath newUCIApplier)"

lemma snapshotDir_path:
  "elsewhere (joinPath (snapshotDir newUCIApplier) n)"
  "journalPath newUCIApplier \<noteq> joinPath (snapshotDir newUCIApplier) n"
  using etc_elsewhere(1) [of "''snapshots/'' @ n"] by (auto simp: joinPath_def newUCIApplier_paths)

lemma remove_quiet: "os_Remove os (joinPath (snapshotDir newUCIApplier) n) w = (q, w') \<Longrightarrow> quiet w w'"
  using remove_frame [OF snapshotDir_path(1)] snapshotDir_path(2) by blast

lemma removeNames_quiet:
  "removeNames os (snapshotDir newUCIApplier) ns w = (y, w') \<Longrightarrow> quiet w w'"
  by (induction ns arbitrary: w)
    (auto split: prod.splits remove_result.splits dest!: remove_quiet)

lemma persist_quiet: "persist newUCIApplier os sn w = (y, w') \<Longrightarrow> quiet w w'"
proof -
  have w: "quiet v v'" if "os_WriteFile os (snapshotPath newUCIApplier i) d v = (z, v')" for i d v v' z
    using write_frame [OF snapshotDir_path(1) that [unfolded snapshotPath_def]] snapshotDir_path(2)
    by blast
  show "persist newUCIApplier os sn w = (y, w') \<Longrightarrow> quiet w w'"
    by (auto simp: persist_def prune_def split: if_splits prod.splits option.splits sum.splits
        dest!: w mkdir_frame removeNames_quiet)
qed

lemma quiet_journal: "quiet w w' \<Longrightarrow> journal_rec os files w' = journal_rec os files w"
  by (simp add: journal_rec_def)

lemma allowed_programs: "''tar'' \<in> set allowedCommands" "''uci'' \<in> set allowedCommands"
  "''/sbin/reload_config'' \<in> set allowedCommands"
  by (simp_all add: allowedCommands_def)

lemmas run_tools = allowed_programs [THEN runCommand_allowed]

lemma snapshot_contract:
  assumes "uci_Snapshot newUCIApplier os w = (x, w')"
  shows "quiet w w'" and "x = Inr sn \<Longrightarrow> archive (snap_Payload sn) = Some (conf w)"
proof -
  let ?args = "[''czf'', ''-'', ''-C'', ''/etc'', ''config'']"
  obtain t w1 where t: "os_run os ''tar'' ?args w = (t, w1)" by (cases "os_run os ''tar'' ?args w")
  have q: "quiet w w1"
    using tar_create_conf [OF t] run_files [OF allowed_programs(1) t] by simp
  show "quiet w w'"
    using assms t q
    using persist_quiet [OF surjective_pairing]
    by (auto simp: uci_Snapshot_def newUCIApplier_paths(1,2) run_tools Let_def split: sum.splits if_splits)
  show "x = Inr sn \<Longrightarrow> archive (snap_Payload sn) = Some (conf w)"
    using assms t tar_create [of w]
    by (auto simp: uci_Snapshot_def newUCIApplier_paths(1,2) run_tools Let_def split: sum.splits if_splits)
qed

lemma revertPackages_files: "revertPackages os ps w = (y, w') \<Longrightarrow> files w' = files w"
  by (induction ps arbitrary: w) (auto split: prod.splits sum.splits dest!: run_frame)

lemma dropStaged_files: "dropStaged os w = (y, w') \<Longrightarrow> files w' = files w"
  by (auto simp: dropStaged_def split: prod.splits sum.splits dest!: run_frame revertPackages_files)

lemma commit_contract: "uci_Commit os w = (y, w') \<Longrightarrow> files w' = files w"
  by (auto simp: uci_Commit_def split: prod.splits sum.splits dest!: run_frame)

text \<open>The temporary archive: under \<^verbatim>\<open>/tmp\<close>, so neither the journal nor a snapshot.\<close>

lemma unpack_contract:
  assumes "unpackSnapshot newUCIApplier os sn tmp w = (y, w')" and "HasPrefix tmp ''/tmp/''"
  shows "\<not> HasPrefix g ''/tmp/'' \<Longrightarrow> files w' g = files w g"
    and "y = None \<Longrightarrow> archive (snap_Payload sn) = Some cf \<Longrightarrow> conf w' = cf"
proof -
  have frame: "files v' g = files v g"
    if "os_WriteFile os tmp d v = (z, v')" "\<not> HasPrefix g ''/tmp/''" for d v v' z
    using write_frame [OF etc_elsewhere(2) [OF assms(2)] that(1)] that(2) assms(2) by metis
  show "\<not> HasPrefix g ''/tmp/'' \<Longrightarrow> files w' g = files w g"
    using assms(1)
    by (auto simp: unpackSnapshot_def split: prod.splits option.splits sum.splits
        dest!: run_frame dest: frame)
  assume "y = None" and a: "archive (snap_Payload sn) = Some cf"
  with assms(1) obtain w1 w2 o1 o2 where
      "os_WriteFile os tmp (snap_Payload sn) w = (None, w1)"
      "os_run os ''tar'' [''xzf'', tmp, ''-C'', ''/etc''] w1 = (Inr o1, w2)"
      "os_run os ''/sbin/reload_config'' [] w2 = (Inr o2, w')"
    by (auto simp: unpackSnapshot_def newUCIApplier_paths(1) run_tools split: prod.splits option.splits sum.splits)
  then show "conf w' = cf"
    using tar_extract [of tmp w1 o1 w2 "snap_Payload sn" cf] write_ok reload_conf a by metis
qed

lemma revert_contract:
  assumes "uci_Revert newUCIApplier os sn w = (y, w')"
  shows "\<not> HasPrefix g ''/tmp/'' \<Longrightarrow> files w' g = files w g"
    and "y = None \<Longrightarrow> archive (snap_Payload sn) = Some cf \<Longrightarrow> conf w' = cf"
proof -
  have rm: "(\<not> HasPrefix g ''/tmp/'' \<longrightarrow> files v' g = files v g) \<and> conf v' = conf v"
    if "os_Remove os tmp v = (q, v')" "HasPrefix tmp ''/tmp/''" for tmp v v' q
    using remove_frame [OF etc_elsewhere(2) [OF that(2)] that(1)] that(2) by metis
  show "\<not> HasPrefix g ''/tmp/'' \<Longrightarrow> files w' g = files w g"
    using assms
    by (auto simp: uci_Revert_def Let_def split: prod.splits option.splits sum.splits if_splits
        dest!: dropStaged_files dest: temp_frame temp_name unpack_contract(1) rm [OF surjective_pairing])
      (metis rm surjective_pairing temp_frame temp_name unpack_contract(1))+
  assume "y = None" and a: "archive (snap_Payload sn) = Some cf"
  with assms obtain w1 w2 w3 tmp where
      "os_CreateTemp os w1 = (Inr tmp, w2)" "unpackSnapshot newUCIApplier os sn tmp w2 = (None, w3)"
      "w' = snd (os_Remove os tmp w3)"
    by (auto simp: uci_Revert_def Let_def split: prod.splits option.splits sum.splits if_splits)
  then show "conf w' = cf"
    using unpack_contract(2) [of sn tmp w2 None w3 cf] temp_name [of w1 tmp w2] a
      rm [of tmp w3 "fst (os_Remove os tmp w3)" w'] by (metis surjective_pairing)
qed

lemma file_paths:
  "\<not> HasPrefix (journalPath newUCIApplier) ''/tmp/''" "\<not> HasPrefix (snapshotPath newUCIApplier i) ''/tmp/''"
  "elsewhere (journalPath newUCIApplier)" "elsewhere (journalPath newUCIApplier @ ''.tmp'')"
  "snapshotPath newUCIApplier i \<noteq> journalPath newUCIApplier"
  "snapshotPath newUCIApplier i \<noteq> journalPath newUCIApplier @ ''.tmp''"
  by (simp_all add: snapshotPath_def joinPath_def newUCIApplier_paths HasPrefix_def elsewhere_def)

lemma same_files:
  assumes "\<And>g. \<not> HasPrefix g ''/tmp/'' \<Longrightarrow> files w' g = files w g"
  shows "journal_rec os files w' = journal_rec os files w" "snapshot_file files w' = snapshot_file files w"
  using assms file_paths(1,2) by (auto simp: journal_rec_def snapshot_file_def fun_eq_iff)

lemma save_contract:
  assumes "journal_Save (journalPath newUCIApplier) os rc w = (y, w')"
  shows "y = None \<Longrightarrow> journal_rec os files w' = Some rc"
    and "conf w' = conf w" and "snapshot_file files w' = snapshot_file files w"
proof -
  let ?j = "journalPath newUCIApplier"
  have wf: "conf v' = conf v" "snapshot_file files v' = snapshot_file files v"
    if "os_WriteFile os (?j @ ''.tmp'') d v = (z, v')" for d v v' z
    using write_frame [OF file_paths(4) that] file_paths(6) by (auto simp: snapshot_file_def)
  have rf: "conf v' = conf v" "snapshot_file files v' = snapshot_file files v"
    if "os_Rename os (?j @ ''.tmp'') ?j v = (z, v')" for v v' z
    using rename_frame [OF file_paths(4,3) that] file_paths(5,6) by (auto simp: snapshot_file_def)
  have mf: "conf v' = conf v" "snapshot_file files v' = snapshot_file files v"
    if "os_MkdirAll os d v = (z, v')" for d v v' z
    using mkdir_frame [OF that] by (auto simp: snapshot_file_def)
  note splits = prod.splits option.splits sum.splits
  show "conf w' = conf w"
    using assms by (auto simp: journal_Save_def split: splits dest!: wf(1) rf(1) mf(1))
  show "snapshot_file files w' = snapshot_file files w"
    using assms by (auto simp: journal_Save_def split: splits dest!: wf(2) rf(2) mf(2))
  assume "y = None"
  with assms obtain w1 w2 d where d: "json_Marshal os rc = Inr d"
      and w: "os_WriteFile os (?j @ ''.tmp'') d w1 = (None, w2)"
      and r: "os_Rename os (?j @ ''.tmp'') ?j w2 = (None, w')"
    by (auto simp: journal_Save_def split: splits)
  show "journal_rec os files w' = Some rc"
    using write_ok [OF w] rename_ok [OF r] json_roundtrip [OF d] by (simp add: journal_rec_def)
qed

lemma load_contract:
  assumes "journal_Load (journalPath newUCIApplier) os w = (x, w')"
  shows "w' = w" and "x = Inr z \<Longrightarrow> z = journal_rec os files w"
  using assms
  by (auto simp: journal_Load_def journal_rec_def dest: read_data read_missing
      split: read_result.splits sum.splits if_splits)

lemma clear_contract:
  assumes "journal_Clear (journalPath newUCIApplier) os w = (y, w')"
  shows "y = None \<Longrightarrow> journal_rec os files w' = None"
    and "conf w' = conf w" and "snapshot_file files w' = snapshot_file files w"
proof -
  obtain q where q: "os_Remove os (journalPath newUCIApplier) w = (q, w')"
    and y: "y = None \<Longrightarrow> \<forall>e. q \<noteq> RemoveError e"
    using assms by (auto simp: journal_Clear_def split: prod.splits remove_result.splits)
  show "y = None \<Longrightarrow> journal_rec os files w' = None"
    using remove_ok [OF q y] by (simp add: journal_rec_def)
  show "conf w' = conf w" "snapshot_file files w' = snapshot_file files w"
    using remove_frame [OF file_paths(3) q] file_paths(5) by (auto simp: snapshot_file_def)
qed

lemma loader_contract: "LoadSnapshot newUCIApplier os i w = Inr sn \<Longrightarrow> snapshot_file files w i = Some (snap_Payload sn)"
  by (auto simp: LoadSnapshot_def snapshot_file_def dest: read_data split: if_splits read_result.splits)

end

text \<open>The adapter keeps the contract the coordinator relies on.\<close>

sublocale os_contract \<subseteq> cc: config_contract "uciApplier os" "applyJournal os" "LoadSnapshot newUCIApplier os"
  conf archive "journal_rec os files" "snapshot_file files"
proof unfold_locales
  fix w sn w' x y rc z l cf i
  show "ap_Snapshot (uciApplier os) w = (Inr sn, w') \<Longrightarrow> archive (snap_Payload sn) = Some (conf w)"
    by (auto simp: uciApplier_def dest: snapshot_contract(2))
  show "ap_Snapshot (uciApplier os) w = (x, w') \<Longrightarrow>
      conf w' = conf w \<and> journal_rec os files w' = journal_rec os files w"
    by (auto simp: uciApplier_def journal_rec_def dest!: snapshot_contract(1))
  show "ap_Commit (uciApplier os) w = (y, w') \<Longrightarrow>
      journal_rec os files w' = journal_rec os files w \<and> snapshot_file files w' = snapshot_file files w"
    by (auto simp: uciApplier_def dest!: commit_contract intro: same_files)
  show "ap_Revert (uciApplier os) sn w = (None, w') \<Longrightarrow> archive (snap_Payload sn) = Some cf \<Longrightarrow> conf w' = cf"
    by (auto simp: uciApplier_def dest: revert_contract(2))
  show "ap_Revert (uciApplier os) sn w = (y, w') \<Longrightarrow>
      journal_rec os files w' = journal_rec os files w \<and> snapshot_file files w' = snapshot_file files w"
    by (auto simp: uciApplier_def intro: same_files dest: revert_contract(1))
  show "jr_Save (applyJournal os) rc w = (None, w') \<Longrightarrow> journal_rec os files w' = Some rc"
    by (auto simp: applyJournal_def dest: save_contract(1))
  show "jr_Save (applyJournal os) rc w = (y, w') \<Longrightarrow>
      conf w' = conf w \<and> snapshot_file files w' = snapshot_file files w"
    by (auto simp: applyJournal_def dest: save_contract(2,3))
  show "jr_Load (applyJournal os) w = (Inr z, w') \<Longrightarrow> z = journal_rec os files w"
    by (auto simp: applyJournal_def dest: load_contract(2))
  show "jr_Load (applyJournal os) w = (l, w') \<Longrightarrow> conf w' = conf w \<and>
      journal_rec os files w' = journal_rec os files w \<and> snapshot_file files w' = snapshot_file files w"
    by (auto simp: applyJournal_def dest: load_contract(1))
  show "jr_Clear (applyJournal os) w = (None, w') \<Longrightarrow> journal_rec os files w' = None"
    by (auto simp: applyJournal_def dest: clear_contract(1))
  show "jr_Clear (applyJournal os) w = (y, w') \<Longrightarrow>
      conf w' = conf w \<and> snapshot_file files w' = snapshot_file files w"
    by (auto simp: applyJournal_def dest: clear_contract(2,3))
  show "LoadSnapshot newUCIApplier os i w = Inr sn \<Longrightarrow> snapshot_file files w i = Some (snap_Payload sn)"
    by (rule loader_contract)
qed

context os_contract
begin

lemma keeps_config_contract:
  "config_contract (uciApplier os) (applyJournal os) (LoadSnapshot newUCIApplier os)
     conf archive (journal_rec os files) (snapshot_file files)"
  by (rule cc.config_contract_axioms)

end

end
