(* ===== verification/Transaction.thy ===== *)
theory Transaction
  imports Uci_Applier "HOL-Library.AList" "HOL-Library.Multiset"
begin

text \<open>
  The transaction end to end: the coordinator of \<^verbatim>\<open>apply.go\<close> over the OpenWrt applier and journal.
  \<open>ref_os\<close> is a small operating system that keeps \<open>os_contract\<close>: a file table, a configuration, a
  staged edit and a clock. The properties are stated for every operating system with the contract;
  their witnesses run on this one.
\<close>

section \<open>A reference operating system\<close>

record ref_world =
  rw_conf :: string
  rw_staged :: "string option"
  rw_files :: "(string \<times> string) list"
  rw_clock :: nat

definition ref_file :: "ref_world \<Rightarrow> string \<Rightarrow> string option" where
  "ref_file w = map_of (rw_files w)"

definition ref_archive :: "string \<Rightarrow> string option" where
  "ref_archive p = (case p of [] \<Rightarrow> None | c # cf \<Rightarrow> if c = CHR ''T'' then Some cf else None)"

definition ref_run :: "string \<Rightarrow> string list \<Rightarrow> ref_world \<Rightarrow> string result \<times> ref_world" where
  "ref_run name args w =
     (if name = ''tar'' then
        (case args of
           [m, f, d, r] \<Rightarrow>
             if m = ''xzf'' then
               (case Option.bind (ref_file w f) ref_archive of
                  None \<Rightarrow> (Inl (Failed ''tar''), w)
                | Some cf \<Rightarrow> (Inr [], w\<lparr>rw_conf := cf\<rparr>))
             else (Inl (Failed ''tar''), w)
         | _ \<Rightarrow> (Inr (CHR ''T'' # rw_conf w), w\<lparr>rw_clock := rw_clock w + 1\<rparr>))
      else if name = ''uci'' then
        (if args = [''commit''] then
           (case rw_staged w of None \<Rightarrow> (Inr [], w)
            | Some cf \<Rightarrow> (Inr [], w\<lparr>rw_conf := cf, rw_staged := None\<rparr>))
         else if args = [''changes''] then
           (Inr (case rw_staged w of None \<Rightarrow> [] | Some cf \<Rightarrow> ''network.staged='' @ cf), w)
         else (Inr [], w\<lparr>rw_staged := None\<rparr>))
      else (Inr [], w))"

definition ref_write :: "string \<Rightarrow> string \<Rightarrow> ref_world \<Rightarrow> error option \<times> ref_world" where
  "ref_write f d w = (None, w\<lparr>rw_files := AList.update f d (rw_files w)\<rparr>)"

definition ref_remove :: "string \<Rightarrow> ref_world \<Rightarrow> remove_result \<times> ref_world" where
  "ref_remove f w = (if ref_file w f = None then (NothingToRemove, w)
     else (Removed, w\<lparr>rw_files := AList.delete f (rw_files w)\<rparr>))"

definition ref_rename :: "string \<Rightarrow> string \<Rightarrow> ref_world \<Rightarrow> error option \<times> ref_world" where
  "ref_rename f g w = (case ref_file w f of None \<Rightarrow> (Some (Failed ''rename''), w)
     | Some d \<Rightarrow> (None, w\<lparr>rw_files := AList.update g d (if f = g then rw_files w else AList.delete f (rw_files w))\<rparr>))"

definition ref_marshal :: "apply_record \<Rightarrow> string result" where
  "ref_marshal r =
     (let dl = (case rec_Deadline r of None \<Rightarrow> ''zero'' | Some i \<Rightarrow> Itoa i) in
      if newline \<in> set (rec_SnapshotID r) \<or> newline \<in> set (rec_Token r) \<or>
         (\<exists>i \<in> set_option (rec_Deadline r). Atoi (Itoa i) \<noteq> Some i \<or> newline \<in> set (Itoa i)) then Inl (Failed ''json'')
      else Inr (Join [rec_SnapshotID r, rec_Token r, dl] [newline]))"

definition ref_unmarshal :: "string \<Rightarrow> apply_record result" where
  "ref_unmarshal d =
     (case Split d newline of
        [i, t, dl] \<Rightarrow> Inr \<lparr>rec_SnapshotID = i, rec_Token = t, rec_Deadline = Atoi dl\<rparr>
      | _ \<Rightarrow> Inl (Failed ''json''))"

definition ref_os :: "ref_world os" where
  "ref_os = \<lparr>os_run = ref_run,
     os_ReadFile = (\<lambda>f w. case ref_file w f of None \<Rightarrow> FileMissing | Some d \<Rightarrow> FileData d),
     os_WriteFile = ref_write,
     os_MkdirAll = (\<lambda>d w. (None, w)),
     os_Rename = ref_rename,
     os_Remove = ref_remove,
     os_ReadDir = (\<lambda>d w. Inr (map (\<lambda>f. (drop (length d + 1) f, False))
        (filter (\<lambda>f. HasPrefix f (d @ ''/'')) (map fst (rw_files w))))),
     os_CreateTemp = (\<lambda>w. (Inr ''/tmp/veilbridge-revert.tar.gz'',
        w\<lparr>rw_files := AList.update ''/tmp/veilbridge-revert.tar.gz'' [] (rw_files w)\<rparr>)),
     os_stamp = (\<lambda>w. nat_digits (rw_clock w)),
     os_now = (\<lambda>w. int (rw_clock w)),
     json_Marshal = ref_marshal, json_Unmarshal = ref_unmarshal\<rparr>"

lemma ref_file_simps [simp]:
  "ref_file (w\<lparr>rw_conf := c\<rparr>) = ref_file w" "ref_file (w\<lparr>rw_staged := s\<rparr>) = ref_file w"
  "ref_file (w\<lparr>rw_clock := n\<rparr>) = ref_file w"
  "ref_file (w\<lparr>rw_files := AList.update f d fs\<rparr>) = (map_of fs)(f \<mapsto> d)"
  "ref_file (w\<lparr>rw_files := AList.delete f fs\<rparr>) = (map_of fs)(f := None)"
  by (simp_all add: ref_file_def update_conv' delete_conv')

lemma ref_json: "ref_marshal r = Inr d \<Longrightarrow> ref_unmarshal d = Inr r"
proof -
  have z: "Atoi ''zero'' = None" "newline \<notin> set ''zero''"
    by (simp_all add: Atoi_def all_digits_def is_digit_def Let_def)
  assume "ref_marshal r = Inr d"
  then have ok: "newline \<notin> set (rec_SnapshotID r)" "newline \<notin> set (rec_Token r)"
      "\<And>i. rec_Deadline r = Some i \<Longrightarrow> Atoi (Itoa i) = Some i \<and> newline \<notin> set (Itoa i)"
    and d: "d = Join [rec_SnapshotID r, rec_Token r,
        (case rec_Deadline r of None \<Rightarrow> ''zero'' | Some i \<Rightarrow> Itoa i)] [newline]"
    by (auto simp: ref_marshal_def Let_def split: if_splits)
  show ?thesis
    unfolding ref_unmarshal_def d using ok z
    by (subst Split_Join) (auto split: option.splits)
qed

interpretation ref: os_contract ref_os ref_file rw_conf ref_archive
proof unfold_locales
  fix w w' :: ref_world and f g p cf d out args name x y q r
  let ?tar = "[''czf'', ''-'', ''-C'', ''/etc'', ''config'']"
  show "os_run ref_os ''tar'' ?tar w = (Inr p, w') \<Longrightarrow> ref_archive p = Some (rw_conf w)"
    by (auto simp: ref_os_def ref_run_def ref_archive_def)
  show "os_run ref_os ''tar'' ?tar w = (x, w') \<Longrightarrow> rw_conf w' = rw_conf w"
    by (auto simp: ref_os_def ref_run_def)
  show "os_run ref_os ''tar'' [''xzf'', f, ''-C'', ''/etc''] w = (Inr out, w') \<Longrightarrow>
      ref_file w f = Some p \<Longrightarrow> ref_archive p = Some cf \<Longrightarrow> rw_conf w' = cf"
    by (auto simp: ref_os_def ref_run_def)
  show "os_run ref_os ''/sbin/reload_config'' [] w = (x, w') \<Longrightarrow> rw_conf w' = rw_conf w"
    by (auto simp: ref_os_def ref_run_def)
  show "os_run ref_os name args w = (x, w') \<Longrightarrow> ref_file w' = ref_file w"
    by (auto simp: ref_os_def ref_run_def split: if_splits list.splits option.splits)
  show "os_ReadFile ref_os f w = FileData d \<Longrightarrow> ref_file w f = Some d"
    and "os_ReadFile ref_os f w = FileMissing \<Longrightarrow> ref_file w f = None"
    by (auto simp: ref_os_def split: option.splits)
  show "os_WriteFile ref_os f d w = (None, w') \<Longrightarrow> ref_file w' f = Some d"
    and "os_WriteFile ref_os f d w = (y, w') \<Longrightarrow>
      rw_conf w' = rw_conf w \<and> (\<forall>g. g \<noteq> f \<longrightarrow> ref_file w' g = ref_file w g)"
    by (auto simp: ref_os_def ref_write_def) (auto simp: ref_file_def)
  show "os_MkdirAll ref_os f w = (y, w') \<Longrightarrow> rw_conf w' = rw_conf w \<and> ref_file w' = ref_file w"
    by (auto simp: ref_os_def)
  show "os_Rename ref_os f g w = (None, w') \<Longrightarrow> ref_file w' g = ref_file w f"
    and "os_Rename ref_os f g w = (y, w') \<Longrightarrow>
      rw_conf w' = rw_conf w \<and> (\<forall>h. h \<noteq> f \<longrightarrow> h \<noteq> g \<longrightarrow> ref_file w' h = ref_file w h)"
    by (auto simp: ref_os_def ref_rename_def delete_conv' split: option.splits)
      (auto simp: ref_file_def)
  show "os_Remove ref_os f w = (q, w') \<Longrightarrow> (\<forall>e. q \<noteq> RemoveError e) \<Longrightarrow> ref_file w' f = None"
    and "os_Remove ref_os f w = (q, w') \<Longrightarrow>
      rw_conf w' = rw_conf w \<and> (\<forall>g. g \<noteq> f \<longrightarrow> ref_file w' g = ref_file w g)"
    by (auto simp: ref_os_def ref_remove_def split: if_splits) (auto simp: ref_file_def)
  show "os_CreateTemp ref_os w = (x, w') \<Longrightarrow> rw_conf w' = rw_conf w \<and>
      (\<forall>g. \<not> HasPrefix g ''/tmp/'' \<longrightarrow> ref_file w' g = ref_file w g)"
    by (auto simp: ref_os_def HasPrefix_def) (auto simp: ref_file_def HasPrefix_def)
  show "os_CreateTemp ref_os w = (Inr f, w') \<Longrightarrow> HasPrefix f ''/tmp/''"
    by (auto simp: ref_os_def HasPrefix_def)
  show "json_Marshal ref_os r = Inr d \<Longrightarrow> json_Unmarshal ref_os d = Inr r"
    by (simp add: ref_os_def ref_json)
qed

section \<open>Properties of the transaction\<close>

definition openwrt_env :: "'w os \<Rightarrow> 'w apply_env" where
  "openwrt_env os = \<lparr>applier = uciApplier os, journal = Some (applyJournal os)\<rparr>"

abbreviation openwrt_step :: "'w os \<Rightarrow> 'w system \<Rightarrow> 'w event \<Rightarrow> 'w system \<Rightarrow> bool" where
  "openwrt_step os \<equiv> apply_step (openwrt_env os) (LoadSnapshot newUCIApplier os)"

lemmas keeps_contract = os_contract.keeps_config_contract

text \<open>A timer of a reachable state that belongs to the pending change can always run.\<close>

lemma timer_enabled:
  assumes "system_inv s" and "phase (co s) = PhaseAwaitingConfirm"
  shows "\<exists>t. apply_step env ld s (EvTimer (token (co s))) t"
  using assms step_timer [of "token (co s)" s env _ _ ld] by (auto simp: system_inv_def) (metis surj_pair)

text \<open>
  C1. In every state the daemon can reach, whatever the applier, the journal and the operating system do and in
  whatever order requests, stopped and expired timers and restarts come: a token, a deadline and
  a watchdog built for that very token exist exactly while a change awaits its confirmation,
  and the timer that will undo the change is among those that can still run.
\<close>

theorem awaiting_is_guarded:
  assumes "reachable first_system (apply_step env ld) s"
  shows "if phase (co s) = PhaseAwaitingConfirm
    then token (co s) \<noteq> [] \<and> watchdog (co s) = Some (token (co s)) \<and> deadline (co s) \<noteq> None \<and>
      snap_ID (csnapshot (co s)) = lastSnapshotID (co s) \<and> token (co s) \<in> set (timers s)
    else token (co s) = [] \<and> watchdog (co s) = None \<and> deadline (co s) = None"
  using coord.reachable_inv [OF assms] by (simp add: system_inv_def coord_inv_def)

text \<open>
  C2. Silence means revert. A change is applied; then anything may happen except the right
  confirmation, an explicit undo, a restart, or its own timer. The timer can still run, and when
  it does the configuration is what it was before the change, or the phase says the revert failed
  and an error says why.
\<close>

theorem unconfirmed_change_is_undone:
  assumes os: "os_contract os files conf archive" and inv: "system_inv s"
    and applied: "openwrt_step os s (EvApply tmo tok now) t"
    and fresh: "phase (co s) \<noteq> PhaseAwaitingConfirm" "phase (co t) = PhaseAwaitingConfirm"
    and waiting: "trace (openwrt_step os) t es u" "\<forall>e \<in> set es. bystander tok e"
  shows "\<exists>v. openwrt_step os u (EvTimer tok) v \<and>
    (phase (co v) = PhaseReverted \<and> conf (wd v) = conf (wd s) \<or>
     phase (co v) = PhaseRevertFailed \<and> lastErr (co v) \<noteq> None)"
proof -
  note cc = keeps_contract [OF os]
  have p: "config_contract.pending archive tok (conf (wd s)) u"
    using config_contract.pending_trace [OF cc] config_contract.pending_start [OF cc]
      assms unfolding openwrt_env_def by blast
  have "system_inv u"
    using coord.trace_inv [OF waiting(1)] coord.step_inv [OF inv applied] by blast
  moreover have "phase (co u) = PhaseAwaitingConfirm" "token (co u) = tok"
    using p by (simp_all add: config_contract.pending_def [OF cc])
  ultimately obtain v where v: "openwrt_step os u (EvTimer tok) v"
    using timer_enabled by metis
  with config_contract.timer_undoes [OF cc p, of v] show ?thesis
    unfolding openwrt_env_def by blast
qed

text \<open>A run on the reference system: the staged edit \<^verbatim>\<open>b\<close> replaces the configuration \<^verbatim>\<open>a\<close>.\<close>

definition demo_start :: "ref_world system" where
  "demo_start = \<lparr>co = NewApplyCoordinator,
     wd = \<lparr>rw_conf = ''a'', rw_staged = Some ''b'', rw_files = [], rw_clock = 7\<rparr>, timers = [], issued = []\<rparr>"

abbreviation demo_exec :: "ref_world system \<Rightarrow> ref_world event \<Rightarrow> ref_world system option" where
  "demo_exec \<equiv> exec (openwrt_env ref_os) (LoadSnapshot newUCIApplier ref_os)"

definition demo_applied :: "ref_world system" where
  "demo_applied = \<lparr>co = \<lparr>phase = PhaseAwaitingConfirm, token = ''t1'', deadline = Some 100, window = 90,
       csnapshot = \<lparr>snap_ID = ''uci-8'', snap_Taken = Some 8, snap_Payload = ''Ta''\<rparr>,
       lastSnapshotID = ''uci-8'', watchdog = Some ''t1'', lastErr = None\<rparr>,
     wd = \<lparr>rw_conf = ''b'', rw_staged = None,
       rw_files = [(''/etc/veilbridge/snapshots/uci-8.tar.gz'', ''Ta''),
         (''/etc/veilbridge/pending-apply.json'', ''uci-8'' @ [newline] @ ''t1'' @ [newline] @ ''100'')],
       rw_clock = 8\<rparr>,
     timers = [''t1''], issued = [''t1'']\<rparr>"

lemma demo_exec: "demo_exec demo_start (EvApply 90 ''t1'' 10) = Some demo_applied"
  by code_simp

lemma demo_apply: "openwrt_step ref_os demo_start (EvApply 90 ''t1'' 10) demo_applied"
  using demo_exec by (simp only: exec_iff_step)

lemma demo_inv: "first_system demo_start" "system_inv demo_start"
  using coord.start_inv [of demo_start] by (simp_all add: demo_start_def first_system_def)

lemma demo_facts: "phase (co demo_start) = PhaseIdle" "phase (co demo_applied) = PhaseAwaitingConfirm"
  "rw_conf (wd demo_start) = ''a''" "rw_conf (wd demo_applied) = ''b''" "lastErr (co demo_applied) = None"
  "snapshot_file ref_file (wd demo_applied) ''uci-8'' = Some ''Ta''"
  by (simp_all add: demo_start_def demo_applied_def NewApplyCoordinator_def snapshot_file_def
      snapshotPath_def joinPath_def newUCIApplier_paths ref_file_def)

theorem awaiting_is_guarded_witness:
  "phase (co demo_applied) = PhaseAwaitingConfirm \<and> token (co demo_applied) \<in> set (timers demo_applied)"
  using awaiting_is_guarded [OF reach_step [where step = "openwrt_step ref_os",
      OF reach_start [of first_system, OF demo_inv(1)] demo_apply]] demo_facts(2) by simp

theorem unconfirmed_change_is_undone_witness:
  "\<exists>u v. openwrt_step ref_os demo_applied (EvConfirm ''t0'') u \<and> openwrt_step ref_os u (EvTimer ''t1'') v \<and>
    (phase (co v) = PhaseReverted \<and> rw_conf (wd v) = ''a'' \<or>
     phase (co v) = PhaseRevertFailed \<and> lastErr (co v) \<noteq> None)"
proof -
  obtain r c' w' where "Confirm (openwrt_env ref_os) ''t0'' (co demo_applied) (wd demo_applied) = (r, c', w')"
    by (rule prod_cases3)
  from step_confirm [OF this] obtain u where u: "openwrt_step ref_os demo_applied (EvConfirm ''t0'') u" ..
  have "trace (openwrt_step ref_os) demo_applied [EvConfirm ''t0''] u"
    using u by (blast intro: trace.intros)
  from unconfirmed_change_is_undone [OF ref.os_contract_axioms demo_inv(2) demo_apply _ demo_facts(2) this]
  show ?thesis using u demo_facts(1,3) by (auto simp: bystander_def)
qed

text \<open>
  While a change awaits confirmation no request starts another, stages or commits anything, and
  neither a wrong token nor a timer of an earlier change has any effect.
\<close>

lemma busy_step_same:
  assumes "phase (co s) = PhaseAwaitingConfirm" and "refusable (token (co s)) e"
    and "apply_step env ld s e t"
  shows "co t = co s \<and> wd t = wd s"
  using assms(3,1,2)
  by (cases rule: apply_step.cases)
    (auto simp: refusable_def bystander_def Apply_def ApplyNow_def Stage_def Confirm_def autoRevert_def answer_def)

lemma busy_trace_same:
  assumes "trace (apply_step env ld) s es t" and "phase (co s) = PhaseAwaitingConfirm"
    and "\<forall>e \<in> set es. refusable (token (co s)) e"
  shows "co t = co s \<and> wd t = wd s"
  using assms
proof (induction rule: trace.induct)
  case (trace_cons s e u es t)
  from busy_step_same [OF trace_cons(4) _ trace_cons(1)] trace_cons(3-5) show ?case by simp
qed simp

text \<open>
  C3. Two changes never overlap. From a state that awaits confirmation, any sequence of applies,
  immediate applies, stagings, confirmations with a wrong token and timers of earlier
  changes leaves the coordinator and the whole device exactly as they are.
\<close>

theorem pending_change_is_exclusive:
  assumes "trace (apply_step env ld) s es t" and "phase (co s) = PhaseAwaitingConfirm"
    and "\<forall>e \<in> set es. refusable (token (co s)) e"
  shows "co t = co s \<and> wd t = wd s"
  using assms by (rule busy_trace_same)

theorem pending_change_is_exclusive_witness:
  "\<exists>t. openwrt_step ref_os demo_applied (EvApplyNow (\<lambda>w. (None, w\<lparr>rw_conf := ''z''\<rparr>))) t \<and>
     co t = co demo_applied \<and> wd t = wd demo_applied"
proof -
  let ?e = "EvApplyNow (\<lambda>w. (None, w\<lparr>rw_conf := ''z''\<rparr>)) :: ref_world event"
  obtain r c' w' where "ApplyNow (openwrt_env ref_os) (\<lambda>w. (None, w\<lparr>rw_conf := ''z''\<rparr>))
      (co demo_applied) (wd demo_applied) = (r, c', w')" by (rule prod_cases3)
  from step_applynow [OF this] obtain t where t: "openwrt_step ref_os demo_applied ?e t" ..
  then have "trace (openwrt_step ref_os) demo_applied [?e] t" by (blast intro: trace.intros)
  from pending_change_is_exclusive [OF this demo_facts(2)] t show ?thesis by (auto simp: refusable_def bystander_def)
qed

text \<open>
  C4. A restart inside the window. The change was applied and journalled, the archive taken before it
  is on disk, and then only requests that the pending change refuses came before the daemon died:
  the next start puts the configuration back as it was, or reports an error.
\<close>

theorem restart_undoes_unconfirmed_change:
  assumes os: "os_contract os files conf archive" and inv: "system_inv s"
    and applied: "openwrt_step os s (EvApply tmo tok now) t"
    and fresh: "phase (co s) \<noteq> PhaseAwaitingConfirm" "phase (co t) = PhaseAwaitingConfirm"
    and saved: "lastErr (co t) = None"
      "snapshot_file files (wd t) (lastSnapshotID (co t)) = Some (snap_Payload (csnapshot (co t)))"
    and waiting: "trace (openwrt_step os) t es u"
      "\<forall>e \<in> set es. refusable tok e"
    and crash: "RecoverPending (openwrt_env os) (LoadSnapshot newUCIApplier os) NewApplyCoordinator (wd u) = ((undone, err), c', w')"
  shows "(undone \<and> conf w' = conf (wd s)) \<or> (\<not> undone \<and> err \<noteq> None)"
proof -
  note cc = keeps_contract [OF os]
  from applied obtain st e cx wx where tok: "tok \<noteq> []" and t: "co t = cx" "wd t = wx"
    and ap: "Apply (openwrt_env os) tmo tok now (co s) (wd s) = ((st, e), cx, wx)"
    by (elim apply_stepE) auto
  have "e = None"
    using coord_inv_Apply(2) [OF system_inv_coord [OF inv] tok ap] fresh t by simp
  note ok = config_contract.Apply_success [OF cc ap [unfolded openwrt_env_def \<open>e = None\<close>]]
  have "co u = co t" "wd u = wd t"
    using busy_trace_same [OF waiting(1) fresh(2)] waiting(2) ok(2) t by auto
  with config_contract.restart_undoes [OF cc _ _ _ crash [unfolded openwrt_env_def]] ok saved t
    coord_inv_Apply(1) [OF system_inv_coord [OF inv] tok ap] fresh(2)
  show ?thesis by (auto simp: coord_inv_def)
qed

theorem restart_undoes_unconfirmed_change_witness:
  "case RecoverPending (openwrt_env ref_os) (LoadSnapshot newUCIApplier ref_os) NewApplyCoordinator (wd demo_applied)
     of ((undone, err), c', w') \<Rightarrow> (undone \<and> rw_conf w' = ''a'') \<or> (\<not> undone \<and> err \<noteq> None)"
proof -
  have saved: "lastErr (co demo_applied) = None"
    "snapshot_file ref_file (wd demo_applied) (lastSnapshotID (co demo_applied)) =
       Some (snap_Payload (csnapshot (co demo_applied)))"
    using demo_facts(5,6) by (simp_all add: demo_applied_def)
  show ?thesis
    using restart_undoes_unconfirmed_change [OF ref.os_contract_axioms demo_inv(2) demo_apply _ demo_facts(2)
        saved trace_nil] demo_facts(1,3)
    by (fastforce split: prod.splits)
qed

text \<open>
  C5. A confirmed change is final. When the confirmation is accepted and the journal was cleared without an
  error, the configuration stays as the change left it, every later timer is without effect, and a
  restart finds nothing to undo.
\<close>

theorem confirmed_change_is_final:
  assumes os: "os_contract os files conf archive"
    and confirmed: "Confirm (openwrt_env os) tok c w = ((st, None), c', w')"
    and clean: "lastErr c = None" "lastErr c' = None"
    and restart: "RecoverPending (openwrt_env os) (LoadSnapshot newUCIApplier os) NewApplyCoordinator w' = ((undone, err), c2, w2)"
  shows "phase c' = PhaseConfirmed \<and> conf w' = conf w \<and>
    autoRevert (openwrt_env os) tok2 c' w' = (c', w') \<and> \<not> undone \<and> c2 = NewApplyCoordinator \<and> conf w2 = conf w"
proof -
  note cc = keeps_contract [OF os]
  note cl = config_contract.confirm_clears [OF cc confirmed [unfolded openwrt_env_def] clean]
  from config_contract.restart_idle [OF cc cl(3) restart [unfolded openwrt_env_def]] cl show ?thesis
    by (simp add: autoRevert_def)
qed

theorem confirmed_change_is_final_witness:
  "\<exists>c' w' st. Confirm (openwrt_env ref_os) ''t1'' (co demo_applied) (wd demo_applied) = ((st, None), c', w') \<and>
     phase c' = PhaseConfirmed \<and> rw_conf w' = ''b''"
proof -
  obtain st c' w' where c: "Confirm (openwrt_env ref_os) ''t1'' (co demo_applied) (wd demo_applied) = ((st, None), c', w')"
    and e: "lastErr c' = None"
    by (simp add: Confirm_def openwrt_env_def demo_applied_def clearJournalLocked_def applyJournal_def
        journal_Clear_def ref_os_def ref_remove_def ref_file_def answer_def newUCIApplier_paths)
  obtain u x c2 w2 where
    "RecoverPending (openwrt_env ref_os) (LoadSnapshot newUCIApplier ref_os) NewApplyCoordinator w' = ((u, x), c2, w2)"
    by (metis surj_pair)
  from confirmed_change_is_final [OF ref.os_contract_axioms c demo_facts(5) e this] c demo_facts(4) show ?thesis
    by auto
qed

section \<open>Pruning\<close>

definition snapshot_names :: "(string \<times> bool) list \<Rightarrow> string list" where
  "snapshot_names entries = map fst (filter (\<lambda>(n, isDir). \<not> isDir \<and> HasPrefix n ''uci-'') entries)"

lemma pruneNames_split:
  "\<exists>kept. mset (snapshot_names entries) = mset (pruneNames k entries) + mset kept \<and>
     length kept = min k (length (snapshot_names entries)) \<and>
     sorted (pruneNames k entries @ kept)"
proof -
  define ns where "ns = sort (snapshot_names entries)"
  let ?d = "length ns - k"
  have ns: "pruneNames k entries = take ?d ns"
    by (auto simp: pruneNames_def ns_def snapshot_names_def Let_def)
  have "sorted (take ?d ns @ drop ?d ns)" by (simp add: ns_def)
  moreover have "mset (take ?d ns) + mset (drop ?d ns) = mset (snapshot_names entries)"
    unfolding mset_append [symmetric] by (simp add: ns_def)
  moreover have "length (drop ?d ns) = min k (length (snapshot_names entries))"
    by (simp add: ns_def)
  ultimately show ?thesis unfolding ns by metis
qed

text \<open>
  C6. Pruning removes snapshots only, keeps exactly the newest five (all, when there are fewer), newest by
  name: no archive that goes has a greater name than one that stays.
\<close>

theorem prune_keeps_newest:
  "\<exists>kept. mset (snapshot_names entries) = mset (pruneNames (keepSnapshots newUCIApplier) entries) + mset kept \<and>
     length kept = min 5 (length (snapshot_names entries)) \<and>
     sorted (pruneNames (keepSnapshots newUCIApplier) entries @ kept)"
  using pruneNames_split [of entries "keepSnapshots newUCIApplier"] by (simp add: newUCIApplier_paths)

section \<open>What the model showed\<close>

text \<open>
  The name of a snapshot is the wall clock, and pruning goes by name: when the clock is behind the
  snapshots already there, the archive just written is the one that is removed, so the journal
  names a snapshot that is gone. Here five archives are newer than the clock.
\<close>

definition clock_behind :: ref_world where
  "clock_behind = \<lparr>rw_conf = ''a'', rw_staged = Some ''b'',
     rw_files = map (\<lambda>n. (''/etc/veilbridge/snapshots/uci-'' @ n @ ''.tar.gz'', ''Told''))
       [''21'', ''22'', ''23'', ''24'', ''25''], rw_clock = 16\<rparr>"

lemma snapshot_pruned_when_clock_behind:
  "case uci_Snapshot newUCIApplier ref_os clock_behind of
     (Inr sn, w') \<Rightarrow> snap_ID sn = ''uci-17'' \<and> snapshot_file ref_file w' (snap_ID sn) = None
   | _ \<Rightarrow> False"
  by code_simp

text \<open>
  An immediate apply does not touch the journal: a record left by a failed automatic revert survives
  it, and the next start undoes the change that was reported final.
\<close>

lemma applyNow_keeps_stale_record:
  assumes os: "os_contract os files conf archive"
    and "ApplyNow (openwrt_env os) stage c w = ((st, None), c', w')"
    and "\<And>y w1. stage w = (y, w1) \<Longrightarrow> journal_rec os files w1 = journal_rec os files w"
  shows "phase c' = PhaseIdle \<and> journal_rec os files w' = journal_rec os files w"
proof -
  note cc = keeps_contract [OF os]
  show ?thesis
    using assms(2,3) config_contract.snapshot_frame [OF cc] config_contract.commit_frame [OF cc]
    by (auto simp: ApplyNow_def openwrt_env_def answer_def commitFailed_def Let_def
        split: if_splits option.splits prod.splits sum.splits)
qed

end
