(* ===== verification/Schedule.thy ===== *)
theory Schedule
  imports Prelude
begin

text \<open>
  Internet schedules: \<^verbatim>\<open>internal/core/schedule.go\<close> (reading and cleaning a schedule, when a device
  is off, when that changes next) and the part of \<^verbatim>\<open>internal/adapters/openwrt/devices_schedule.go\<close>
  that turns a schedule into the options of one or two firewall sections and back. Minutes and
  days are Go's \<open>int\<close>; every value the code divides is non-negative, so \<open>div\<close> and \<open>mod\<close> are Go's.
\<close>

section \<open>Times of day\<close>

definition Weekdays :: "string list" where
  "Weekdays = [''mon'', ''tue'', ''wed'', ''thu'', ''fri'', ''sat'', ''sun'']"

fun indexFrom :: "int \<Rightarrow> string \<Rightarrow> string list \<Rightarrow> int" where
  "indexFrom i d [] = -1"
| "indexFrom i d (w # ws) = (if w = d then i else indexFrom (i + 1) d ws)"

definition dayIndex :: "string \<Rightarrow> int" where "dayIndex d = indexFrom 0 d Weekdays"

text \<open>
  \<open>fmt.Sscanf\<close> with a format of \<open>%d\<close> verbs and colons: blanks before a number are skipped (a
  line break is an error), a sign is accepted, and what follows the last number is not read.
\<close>

definition scanInt :: "string \<Rightarrow> (int \<times> string) option" where
  "scanInt s =
     (let s1 = dropWhile (\<lambda>c. is_space c \<and> c \<noteq> newline) s;
          neg = (take 1 s1 = ''-'');
          s2 = (if take 1 s1 = ''-'' \<or> take 1 s1 = ''+'' then drop 1 s1 else s1);
          ds = takeWhile is_digit s2
      in if ds = [] then None
         else Some (if neg then - int (digits_val ds) else int (digits_val ds), dropWhile is_digit s2))"

fun scanColons :: "nat \<Rightarrow> string \<Rightarrow> int list option" where
  "scanColons 0 s = Some []"
| "scanColons (Suc 0) s = map_option (\<lambda>(v, r). [v]) (scanInt s)"
| "scanColons (Suc n) s = (case scanInt s of None \<Rightarrow> None
     | Some (v, r) \<Rightarrow> if take 1 r = '':'' then map_option (\<lambda>vs. v # vs) (scanColons n (drop 1 r)) else None)"

definition clockMinutes :: "string \<Rightarrow> int option" where
  "clockMinutes s =
     (let v = TrimSpace s;
          hms = (if count_list v CHR '':'' = 1 then
                   (if length v \<noteq> 5 then None else map_option (\<lambda>vs. vs @ [0]) (scanColons 2 v))
                 else if count_list v CHR '':'' = 2 then
                   (if length v \<noteq> 8 then None else scanColons 3 v)
                 else None)
      in case hms of
           Some [h, m, sec] \<Rightarrow>
             if h < 0 \<or> h > 23 \<or> m < 0 \<or> m > 59 \<or> sec < 0 \<or> sec > 59 then None else Some (h * 60 + m)
         | _ \<Rightarrow> None)"

text \<open>\<open>%02d\<close> of a non-negative number.\<close>

definition pad2 :: "int \<Rightarrow> string" where
  "pad2 n = (if n < 10 then CHR ''0'' # nat_digits (nat n) else nat_digits (nat n))"

definition hhmm :: "int \<Rightarrow> string" where
  "hhmm minutes = pad2 (minutes div 60) @ '':'' @ pad2 (minutes mod 60)"

section \<open>Schedules\<close>

record internet_schedule =
  Days :: "string list"
  From :: string
  To :: string

text \<open>The code drops the flag of \<open>clockMinutes\<close> here: a time it cannot read counts as 0.\<close>

definition minutesOf :: "string \<Rightarrow> int" where
  "minutesOf v = (case clockMinutes v of None \<Rightarrow> 0 | Some m \<Rightarrow> m)"

definition Overnight :: "internet_schedule \<Rightarrow> bool" where
  "Overnight s \<longleftrightarrow> minutesOf (To s) < minutesOf (From s) \<and> minutesOf (To s) \<noteq> 0"

definition Words :: "internet_schedule \<Rightarrow> string" where
  "Words s = Join (Days s) '','' @ '' '' @ From s @ ''-'' @ To s"

fun wantDays :: "string list \<Rightarrow> string list result" where
  "wantDays [] = Inr []"
| "wantDays (d # ds) =
     (let d' = ToLower (TrimSpace d) in
      if dayIndex d' < 0 then Inl (Refused ''days'' ''not a day of the week'')
      else case wantDays ds of Inl e \<Rightarrow> Inl e | Inr ws \<Rightarrow> Inr (d' # ws))"

definition CleanSchedule :: "internet_schedule \<Rightarrow> internet_schedule result" where
  "CleanSchedule s =
     (case wantDays (Days s) of
        Inl e \<Rightarrow> Inl e
      | Inr want \<Rightarrow>
          if want = [] then Inl (Refused ''days'' ''choose at least one day'')
          else case clockMinutes (From s) of
            None \<Rightarrow> Inl (Refused ''from'' ''not a time of day'')
          | Some f \<Rightarrow> (case clockMinutes (To s) of
              None \<Rightarrow> Inl (Refused ''to'' ''not a time of day'')
            | Some t \<Rightarrow>
                if f = t then Inl (Refused ''to'' ''the window ends when it starts'')
                else Inr \<lparr>Days = filter (\<lambda>d. d \<in> set want) Weekdays, From = hhmm f, To = hhmm t\<rparr>))"

definition OffAt :: "internet_schedule \<Rightarrow> int \<Rightarrow> int \<Rightarrow> bool" where
  "OffAt s day minute =
     (let f = minutesOf (From s); t = minutesOf (To s) in
      list_ex (\<lambda>d. let i = dayIndex d in
        if t > f then day = i \<and> minute \<ge> f \<and> minute < t
        else day = i \<and> minute \<ge> f \<or> t \<noteq> 0 \<and> day = (i + 1) mod 7 \<and> minute < t) (Days s))"

text \<open>The search of \<open>NextChange\<close>: \<open>left\<close> steps remain, \<open>step\<close> is the next one.\<close>

fun nextChangeFrom :: "internet_schedule \<Rightarrow> bool \<Rightarrow> int \<Rightarrow> int \<Rightarrow> nat \<Rightarrow> int \<Rightarrow> string" where
  "nextChangeFrom s now day minute 0 step = []"
| "nextChangeFrom s now day minute (Suc left) step =
     (let m = minute + step in
      if OffAt s ((day + m div (24 * 60)) mod 7) (m mod (24 * 60)) \<noteq> now then hhmm (m mod (24 * 60))
      else nextChangeFrom s now day minute left (step + 1))"

definition NextChange :: "internet_schedule \<Rightarrow> int \<Rightarrow> int \<Rightarrow> string" where
  "NextChange s day minute = nextChangeFrom s (OffAt s day minute) day minute (7 * 24 * 60) 1"

section \<open>The firewall's options\<close>

type_synonym options = "string \<rightharpoonup> string"

definition eveningEnd :: string where "eveningEnd = ''23:59:59''"

definition fwDays :: "string list" where
  "fwDays = [''Mon'', ''Tue'', ''Wed'', ''Thu'', ''Fri'', ''Sat'', ''Sun'']"

definition baseOptions :: "string \<Rightarrow> string \<Rightarrow> string \<Rightarrow> options" where
  "baseOptions mac local name =
     [''name'' \<mapsto> name, ''src'' \<mapsto> local, ''dest'' \<mapsto> ''*'', ''src_mac'' \<mapsto> mac, ''proto'' \<mapsto> ''all'', ''target'' \<mapsto> ''REJECT'']"

text \<open>\<open>None\<close> is the panic of indexing \<open>fwDays\<close> with the index of a day that is none.\<close>

definition scheduleOptions :: "string \<Rightarrow> string \<Rightarrow> internet_schedule \<Rightarrow> (options \<times> options option) option" where
  "scheduleOptions mac local s =
     (if list_ex (\<lambda>d. dayIndex d < 0) (Days s) then None
      else
       (let days = map (\<lambda>d. fwDays ! nat (dayIndex d)) (Days s);
            next = map (\<lambda>d. fwDays ! nat ((dayIndex d + 1) mod 7)) (Days s);
            e1 = (baseOptions mac local (''VeilBridge: internet schedule for '' @ mac))
                   (''weekdays'' \<mapsto> Join days '' '', ''start_time'' \<mapsto> From s @ '':00'');
            f = minutesOf (From s); t = minutesOf (To s)
        in if t > f then Some (e1(''stop_time'' \<mapsto> To s @ '':00''), None)
           else if t = 0 then Some (e1(''stop_time'' \<mapsto> eveningEnd), None)
           else Some (e1(''stop_time'' \<mapsto> eveningEnd),
             Some ((baseOptions mac local (''VeilBridge: internet schedule for '' @ mac @ '' (after midnight)''))
               (''weekdays'' \<mapsto> Join next '' '', ''start_time'' \<mapsto> ''00:00:00'', ''stop_time'' \<mapsto> To s @ '':00'')))))"

definition opt :: "options \<Rightarrow> string \<Rightarrow> string" where
  \<comment> \<open>reading a Go map: the zero value when the key is absent\<close>
  "opt m k = (case m k of None \<Rightarrow> [] | Some v \<Rightarrow> v)"

definition scheduleFrom :: "options \<Rightarrow> options option \<Rightarrow> internet_schedule option" where
  "scheduleFrom evening morning =
     (let days = concat (map (\<lambda>w. map snd (filter (\<lambda>(d, _). EqualFold w d) (zip fwDays Weekdays)))
                   (Fields (opt evening ''weekdays'')));
          from = TrimSuffix (opt evening ''start_time'') '':00'';
          to = (if opt evening ''stop_time'' = eveningEnd then
                  (case morning of None \<Rightarrow> ''00:00'' | Some m \<Rightarrow> TrimSuffix (opt m ''stop_time'') '':00'')
                else TrimSuffix (opt evening ''stop_time'') '':00'')
      in case CleanSchedule \<lparr>Days = days, From = from, To = to\<rparr> of Inl e \<Rightarrow> None | Inr s \<Rightarrow> Some s)"

section \<open>Reading times back\<close>

lemma pad2_digits: "0 \<le> n \<Longrightarrow> n < 100 \<Longrightarrow> pad2 n = [digit_char (nat n div 10), digit_char (nat n mod 10)]"
  by (auto simp: pad2_def nat_digits.simps [of "nat n"] nat_digits.simps [of "nat n div 10"] digit_char_def)

lemma digit_char_props [simp]:
  assumes "d < 10"
  shows "\<not> is_space (digit_char d)" "digit_char d \<noteq> CHR '':''" "digit_char d \<noteq> CHR ''-''" "digit_char d \<noteq> CHR ''+''" "CHR '':'' \<noteq> digit_char d"
proof -
  note d = is_digit_char [OF assms]
  show "\<not> is_space (digit_char d)" using d by (auto simp: is_space_def is_digit_def)
  have "\<not> is_digit CHR '':''" "\<not> is_digit CHR ''-''" "\<not> is_digit CHR ''+''" by (simp_all add: is_digit_def)
  with d show "digit_char d \<noteq> CHR '':''" "digit_char d \<noteq> CHR ''-''" "digit_char d \<noteq> CHR ''+''" "CHR '':'' \<noteq> digit_char d"
    by metis+
qed

lemma scanInt_pad2:
  assumes "0 \<le> n" "n < 100" "r = [] \<or> \<not> is_digit (hd r)"
  shows "scanInt (pad2 n @ r) = Some (n, r)"
  using assms by (cases r) (auto simp: pad2_digits scanInt_def Let_def digits_val_def)

lemma pad2_shape:
  assumes "0 \<le> n" "n < 100"
  shows "length (pad2 n) = 2" "CHR '':'' \<notin> set (pad2 n)" "\<forall>c \<in> set (pad2 n). \<not> is_space c" "pad2 n \<noteq> []"
proof -
  have "nat n div 10 < 10" "nat n mod 10 < 10" using assms by linarith+
  then show "length (pad2 n) = 2" "CHR '':'' \<notin> set (pad2 n)" "\<forall>c \<in> set (pad2 n). \<not> is_space c" "pad2 n \<noteq> []"
    unfolding pad2_digits [OF assms] by simp_all
qed

lemma clock_text:
  assumes "0 \<le> h" "h < 24" "0 \<le> m" "m < 60"
  defines "v \<equiv> pad2 h @ '':'' @ pad2 m"
  shows "clockMinutes v = Some (h * 60 + m)" and "clockMinutes (v @ '':00'') = Some (h * 60 + m)"
proof -
  note sh = pad2_shape [of h] and sm = pad2_shape [of m]
  have colon: "\<not> is_digit CHR '':''" "\<not> is_space CHR ''0''" by (simp_all add: is_digit_def is_space_def)
  have "hd v \<in> set (pad2 h)" "last v \<in> set (pad2 m)" "v \<noteq> []"
    using assms(1-4) sh sm by (simp_all add: v_def)
  then have t: "TrimSpace v = v" "TrimSpace (v @ '':00'') = v @ '':00''"
    using assms(1-4) sh sm colon by (auto intro!: TrimSpace_id)
  have c: "count_list v CHR '':'' = 1" "length v = 5"
    using assms(1-4) sh sm by (simp_all add: v_def)
  have z: "scanInt ''00'' = Some (0, [])" by (simp add: scanInt_def is_space_def is_digit_def digits_val_def digit_val_def Let_def)
  have s2: "scanColons 2 v = Some [h, m]"
    using assms(1-4) scanInt_pad2 [of h] scanInt_pad2 [of m "[]"]
    by (simp add: v_def numeral_2_eq_2 colon)
  have s3: "scanColons 3 (v @ '':00'') = Some [h, m, 0]"
    using assms(1-4) scanInt_pad2 [of h] scanInt_pad2 [of m "'':00''"]
    by (simp add: v_def numeral_3_eq_3 colon z)
  show "clockMinutes v = Some (h * 60 + m)"
    unfolding clockMinutes_def t Let_def using c s2 assms(1-4) by simp
  show "clockMinutes (v @ '':00'') = Some (h * 60 + m)"
    unfolding clockMinutes_def t Let_def using c s3 assms(1-4) by simp
qed

lemma clockMinutes_hhmm:
  assumes "0 \<le> m" "m < 1440"
  shows "clockMinutes (hhmm m) = Some m" and "clockMinutes (hhmm m @ '':00'') = Some m"
proof -
  have "0 \<le> m div 60" "m div 60 < 24" "0 \<le> m mod 60" "m mod 60 < 60" using assms by auto
  from clock_text [OF this] show "clockMinutes (hhmm m) = Some m" and "clockMinutes (hhmm m @ '':00'') = Some m"
    by (simp_all add: hhmm_def)
qed

lemma clockMinutes_range: "clockMinutes v = Some m \<Longrightarrow> 0 \<le> m \<and> m < 1440"
  by (auto simp: clockMinutes_def Let_def split: option.splits list.splits if_splits)

lemma hhmm_seconds:
  assumes "0 \<le> m" "m < 1440"
  shows "scanColons 3 (hhmm m @ '':00'') = Some [m div 60, m mod 60, 0]"
proof -
  have h: "0 \<le> m div 60" "m div 60 < 100" "0 \<le> m mod 60" "m mod 60 < 100" using assms by auto
  have colon: "\<not> is_digit CHR '':''" by (simp add: is_digit_def)
  have z: "scanInt ''00'' = Some (0, [])" by (simp add: scanInt_def is_space_def is_digit_def digits_val_def digit_val_def Let_def)
  show ?thesis
    using h scanInt_pad2 [of "m div 60"] scanInt_pad2 [of "m mod 60" "'':00''"]
    by (simp add: hhmm_def numeral_3_eq_3 colon z)
qed

lemma minutesOf_hhmm [simp]: "0 \<le> m \<Longrightarrow> m < 1440 \<Longrightarrow> minutesOf (hhmm m) = m"
  by (simp add: minutesOf_def clockMinutes_hhmm)

lemma hhmm_not_Nil [simp]: "hhmm m \<noteq> []"
  by (simp add: hhmm_def)

section \<open>Clean schedules\<close>

definition clean :: "internet_schedule \<Rightarrow> bool" where
  "clean s \<longleftrightarrow> Days s \<noteq> [] \<and> Days s = filter (\<lambda>d. d \<in> set (Days s)) Weekdays \<and>
     From s = hhmm (minutesOf (From s)) \<and> To s = hhmm (minutesOf (To s)) \<and>
     minutesOf (From s) \<in> {0..<1440} \<and> minutesOf (To s) \<in> {0..<1440} \<and> minutesOf (From s) \<noteq> minutesOf (To s)"

lemma weekday_facts:
  "d \<in> set Weekdays \<Longrightarrow> ToLower (TrimSpace d) = d"
  "d \<in> set Weekdays \<longleftrightarrow> 0 \<le> dayIndex d" "dayIndex d < 7"
  by (auto simp: Weekdays_def dayIndex_def ToLower_def TrimSpace_def TrimLeft_def TrimRight_def
      is_space_def lower_char_def)

lemma not_weekday: "dayIndex d < 0 \<longleftrightarrow> d \<notin> set Weekdays"
  using weekday_facts(2) [of d] by auto

lemma wantDays_weekdays: "set ds \<subseteq> set Weekdays \<Longrightarrow> wantDays ds = Inr ds"
  by (induction ds) (auto simp: weekday_facts(1) not_weekday Let_def)

lemma wantDays_ok: "wantDays ds = Inr ws \<Longrightarrow> ws = map (ToLower \<circ> TrimSpace) ds \<and> set ws \<subseteq> set Weekdays"
  by (induction ds arbitrary: ws) (auto simp: Let_def not_weekday image_subset_iff split: if_splits sum.splits)

lemma clean_days: "clean s \<Longrightarrow> set (Days s) \<subseteq> set Weekdays"
  by (metis clean_def filter_is_subset)

lemma CleanSchedule_clean_same:
  assumes "clean s"
  shows "CleanSchedule s = Inr s"
proof -
  have "clockMinutes (From s) = Some (minutesOf (From s))" "clockMinutes (To s) = Some (minutesOf (To s))"
    using assms clockMinutes_hhmm(1) unfolding clean_def by (metis atLeastLessThan_iff)+
  with assms show ?thesis
    unfolding CleanSchedule_def wantDays_weekdays [OF clean_days [OF assms]]
    by (simp add: clean_def)
qed

lemma CleanSchedule_cleans:
  assumes "CleanSchedule s = Inr c"
  shows "clean c" and "set (Days c) = (ToLower \<circ> TrimSpace) ` set (Days s)"
    and "clockMinutes (From s) = Some (minutesOf (From c))" "clockMinutes (To s) = Some (minutesOf (To c))"
proof -
  from assms obtain ws f t where w: "wantDays (Days s) = Inr ws" "ws \<noteq> []"
    and ft: "clockMinutes (From s) = Some f" "clockMinutes (To s) = Some t" "f \<noteq> t"
    and c: "c = \<lparr>Days = filter (\<lambda>d. d \<in> set ws) Weekdays, From = hhmm f, To = hhmm t\<rparr>"
    by (auto simp: CleanSchedule_def split: sum.splits option.splits if_splits)
  note ws = wantDays_ok [OF w(1)]
  note r = clockMinutes_range [OF ft(1)] clockMinutes_range [OF ft(2)]
  show d: "set (Days c) = (ToLower \<circ> TrimSpace) ` set (Days s)" using ws by (auto simp: c)
  have ne: "Days c \<noteq> []" using d w(2) ws by (auto simp flip: set_empty)
  have "{d \<in> set Weekdays. d \<in> set ws} = set ws" using ws by blast
  with ne r ft(3) show "clean c" by (auto simp: clean_def c cong: filter_cong)
  show "clockMinutes (From s) = Some (minutesOf (From c))" "clockMinutes (To s) = Some (minutesOf (To c))"
    using ft r by (simp_all add: c)
qed

section \<open>The next change\<close>

text \<open>The moments of the week on one line: minute \<open>T\<close> counts from Monday midnight, for ever.\<close>

definition weekOff :: "internet_schedule \<Rightarrow> int \<Rightarrow> bool" where
  "weekOff s T = OffAt s ((T div 1440) mod 7) (T mod 1440)"

lemma weekOff_period: "weekOff s (T + 10080 * k) = weekOff s T"
proof -
  have e: "T + 10080 * k = T + 1440 * (7 * k)" by simp
  have "(T + 10080 * k) div 1440 = T div 1440 + 7 * k" unfolding e by (subst div_mult_self2) simp_all
  moreover have "(T + 10080 * k) mod 1440 = T mod 1440" unfolding e by (rule mod_mult_self2)
  ultimately show ?thesis by (simp add: weekOff_def)
qed

lemma weekOff_at: "OffAt s ((day + m div 1440) mod 7) (m mod 1440) = weekOff s (day * 1440 + m)"
  by (simp add: weekOff_def)

lemma nextChangeFrom_spec:
  "(nextChangeFrom s now day minute n step = [] \<and> (\<forall>k < int n. 0 \<le> k \<longrightarrow> weekOff s (day * 1440 + minute + step + k) = now)) \<or>
   (\<exists>k. 0 \<le> k \<and> k < int n \<and> nextChangeFrom s now day minute n step = hhmm ((minute + step + k) mod 1440) \<and>
      weekOff s (day * 1440 + minute + step + k) \<noteq> now \<and>
      (\<forall>j < k. 0 \<le> j \<longrightarrow> weekOff s (day * 1440 + minute + step + j) = now))"
proof (induction n arbitrary: step)
  case (Suc n)
  show ?case
  proof (cases "weekOff s (day * 1440 + (minute + step)) = now")
    case False
    then show ?thesis by (intro disjI2 exI [of _ 0]) (simp add: weekOff_at algebra_simps Let_def)
  next
    case True
    have eq: "nextChangeFrom s now day minute (Suc n) step = nextChangeFrom s now day minute n (step + 1)"
      using True by (simp add: weekOff_at Let_def)
    have shift: "weekOff s (day * 1440 + minute + step + k) = weekOff s (day * 1440 + minute + (step + 1) + (k - 1))" for k
      by (simp add: algebra_simps)
    have start: "weekOff s (day * 1440 + minute + step) = now" using True by (simp add: algebra_simps)
    have all: "\<forall>j < b + 1. 0 \<le> j \<longrightarrow> weekOff s (day * 1440 + minute + step + j) = now"
      if "\<forall>k < b. 0 \<le> k \<longrightarrow> weekOff s (day * 1440 + minute + (step + 1) + k) = now" for b :: int
    proof (intro allI impI)
      fix j :: int assume "j < b + 1" "0 \<le> j"
      then show "weekOff s (day * 1440 + minute + step + j) = now"
        using that [rule_format, of "j - 1"] start shift [of j] by (cases "j = 0") simp_all
    qed
    from Suc [of "step + 1"] show ?thesis
    proof
      assume a: "nextChangeFrom s now day minute n (step + 1) = [] \<and>
        (\<forall>k < int n. 0 \<le> k \<longrightarrow> weekOff s (day * 1440 + minute + (step + 1) + k) = now)"
      then show ?thesis using all [of "int n"] eq by (intro disjI1) simp
    next
      assume "\<exists>k. 0 \<le> k \<and> k < int n \<and> nextChangeFrom s now day minute n (step + 1) = hhmm ((minute + (step + 1) + k) mod 1440) \<and>
        weekOff s (day * 1440 + minute + (step + 1) + k) \<noteq> now \<and>
        (\<forall>j < k. 0 \<le> j \<longrightarrow> weekOff s (day * 1440 + minute + (step + 1) + j) = now)"
      then obtain k where k: "0 \<le> k" "k < int n"
        "nextChangeFrom s now day minute n (step + 1) = hhmm ((minute + (step + 1) + k) mod 1440)"
        "weekOff s (day * 1440 + minute + (step + 1) + k) \<noteq> now"
        "\<forall>j < k. 0 \<le> j \<longrightarrow> weekOff s (day * 1440 + minute + (step + 1) + j) = now" by blast
      show ?thesis
        using k all [of k] eq by (intro disjI2 exI [of _ "k + 1"]) (simp add: algebra_simps)
    qed
  qed
qed simp

lemma clean_changes:
  assumes "clean s"
  shows "\<exists>T. weekOff s T" and "\<exists>T. \<not> weekOff s T"
proof -
  let ?f = "minutesOf (From s)" and ?t = "minutesOf (To s)"
  have r: "0 \<le> ?f" "?f < 1440" "0 \<le> ?t" "?t < 1440" "?f \<noteq> ?t" using assms by (auto simp: clean_def)
  obtain d where d: "d \<in> set (Days s)" using assms by (meson clean_def last_in_set)
  then have i: "0 \<le> dayIndex d" "dayIndex d < 7" using clean_days [OF assms] weekday_facts(2,3) by auto
  have "OffAt s (dayIndex d) ?f" unfolding OffAt_def Let_def list_ex_iff using d r by (intro bexI [of _ d]) auto
  then have "weekOff s (dayIndex d * 1440 + ?f)" using r i by (simp add: weekOff_def)
  then show "\<exists>T. weekOff s T" ..
  have "\<not> OffAt s 0 ?t" unfolding OffAt_def Let_def list_ex_iff using r by auto
  then have "\<not> weekOff s ?t" using r by (simp add: weekOff_def)
  then show "\<exists>T. \<not> weekOff s T" ..
qed

section \<open>Properties\<close>

text \<open>
  C7. A schedule that is accepted is brought into one spelling: the chosen days once each in the order of
  the week, both times as HH:MM and different; cleaning it again changes nothing, and it stands for the
  days and the times that were asked for.
\<close>

theorem CleanSchedule_canonical:
  assumes "CleanSchedule s = Inr c"
  shows "clean c \<and> CleanSchedule c = Inr c \<and> set (Days c) = (ToLower \<circ> TrimSpace) ` set (Days s) \<and>
    clockMinutes (From s) = Some (minutesOf (From c)) \<and> clockMinutes (To s) = Some (minutesOf (To c))"
  using CleanSchedule_cleans [OF assms] CleanSchedule_clean_same by blast

definition weekend_night :: internet_schedule where
  "weekend_night = \<lparr>Days = [''sat'', ''sun''], From = ''22:00'', To = ''07:00''\<rparr>"

lemma weekend_night_made:
  "CleanSchedule \<lparr>Days = [''Sun'', '' sat'', ''sun''], From = ''22:00'', To = ''07:00''\<rparr> = Inr weekend_night"
  by code_simp

theorem CleanSchedule_canonical_witness: "clean weekend_night \<and> CleanSchedule weekend_night = Inr weekend_night"
  using CleanSchedule_canonical [OF weekend_night_made] by simp

text \<open>
  C8. The panel can always say when a schedule changes next: for a clean schedule \<open>NextChange\<close> is never
  empty, and the time it gives is that of the first later minute at which \<open>OffAt\<close> differs from now.
\<close>

theorem NextChange_is_first_change:
  assumes "clean s" and "0 \<le> day" "day < 7" "0 \<le> minute" "minute < 1440"
  defines "T \<equiv> day * 1440 + minute"
  shows "\<exists>k. 1 \<le> k \<and> k \<le> 7 * 24 * 60 \<and> weekOff s (T + k) \<noteq> weekOff s T \<and>
    (\<forall>j. 0 \<le> j \<and> j < k \<longrightarrow> weekOff s (T + j) = weekOff s T) \<and> NextChange s day minute = hhmm ((minute + k) mod 1440)"
proof -
  have now: "OffAt s day minute = weekOff s T" using assms by (simp add: weekOff_def T_def)
  obtain T' where T': "weekOff s T' \<noteq> weekOff s T" using clean_changes [OF assms(1)] by (metis (full_types))
  define k where "k = (T' - T - 1) mod 10080"
  have "weekOff s (T + 1 + k) = weekOff s T'"
    using weekOff_period [of s "T + 1 + k" "(T' - T - 1) div 10080"] by (simp add: k_def algebra_simps)
  with T' have "\<not> (\<forall>k < int (7 * 24 * 60). 0 \<le> k \<longrightarrow> weekOff s (T + 1 + k) = weekOff s T)"
    by (auto simp: k_def intro!: exI [of _ k])
  with nextChangeFrom_spec [of s "weekOff s T" day minute "7 * 24 * 60" 1, folded T_def]
  obtain k where k: "0 \<le> k" "k < 10080" "weekOff s (T + 1 + k) \<noteq> weekOff s T"
      "\<forall>j < k. 0 \<le> j \<longrightarrow> weekOff s (T + 1 + j) = weekOff s T"
      "NextChange s day minute = hhmm ((minute + 1 + k) mod 1440)"
    unfolding NextChange_def now by auto
  have "weekOff s (T + j) = weekOff s T" if "0 \<le> j" "j < k + 1" for j
    using that k(4) [rule_format, of "j - 1"] by (cases "j = 0") (simp_all add: algebra_simps)
  then show ?thesis
    using k by (intro exI [of _ "k + 1"]) (auto simp: algebra_simps)
qed

lemma weekend_night_clean: "clean weekend_night"
  using CleanSchedule_cleans(1) [OF weekend_night_made] .

theorem NextChange_is_first_change_witness:
  "\<exists>k. 1 \<le> k \<and> k \<le> 7 * 24 * 60 \<and> weekOff weekend_night (5 * 1440 + 600 + k) \<noteq> weekOff weekend_night (5 * 1440 + 600) \<and>
     NextChange weekend_night 5 600 = hhmm ((600 + k) mod 1440)"
  using NextChange_is_first_change [OF weekend_night_clean, of 5 600] by auto

section \<open>The firewall's sections\<close>

lemma fwDay_back:
  "d \<in> set Weekdays \<Longrightarrow>
    map snd (filter (\<lambda>(x, _). EqualFold (fwDays ! nat (dayIndex d)) x) (zip fwDays Weekdays)) = [d]"
  unfolding Weekdays_def
  by (auto simp: fwDays_def Weekdays_def dayIndex_def EqualFold_def ToLower_def lower_char_def)

lemma fwDay_word: "i < 7 \<Longrightarrow> fwDays ! i \<noteq> [] \<and> (\<forall>c \<in> set (fwDays ! i). \<not> is_space c)"
  using nth_mem [of i fwDays] by (auto simp: fwDays_def is_space_def)

lemma Fields_days:
  assumes "\<forall>d \<in> set ds. g d < 7"
  shows "Fields (Join (map (\<lambda>d. fwDays ! g d) ds) '' '') = map (\<lambda>d. fwDays ! g d) ds"
  unfolding Fields_def using assms fwDay_word by (intro FieldsFunc_Join blank_space) auto

lemma clean_index: "clean s \<Longrightarrow> d \<in> set (Days s) \<Longrightarrow> 0 \<le> dayIndex d \<and> nat (dayIndex d) < 7 \<and> nat ((dayIndex d + 1) mod 7) < 7"
  using clean_days [of s] weekday_facts(2,3) [of d] by auto

lemma clean_no_panic: "clean s \<Longrightarrow> \<not> list_ex (\<lambda>d. dayIndex d < 0) (Days s)"
  using clean_days [of s] by (auto simp: list_ex_iff not_weekday)

lemma scheduleOptions_total: "clean s \<Longrightarrow> \<exists>e m. scheduleOptions mac zone s = Some (e, m)"
  using clean_no_panic [of s] by (simp add: scheduleOptions_def Let_def)

lemma hhmm_00_not_eveningEnd: "x @ '':00'' \<noteq> eveningEnd"
proof
  assume "x @ '':00'' = eveningEnd"
  then have "last (x @ '':00'') = last eveningEnd" by simp
  then show False by (simp add: eveningEnd_def)
qed

lemma days_back:
  assumes "clean s"
  shows "concat (map (\<lambda>w. map snd (filter (\<lambda>(d, _). EqualFold w d) (zip fwDays Weekdays)))
    (Fields (Join (map (\<lambda>d. fwDays ! nat (dayIndex d)) (Days s)) '' ''))) = Days s"
proof -
  have "concat (map (\<lambda>d. map snd (filter (\<lambda>(x, _). EqualFold (fwDays ! nat (dayIndex d)) x) (zip fwDays Weekdays))) ds) = ds"
    if "set ds \<subseteq> set Weekdays" for ds
    using that by (induction ds) (simp_all add: fwDay_back)
  then show ?thesis
    using Fields_days [of "Days s" "\<lambda>d. nat (dayIndex d)"] clean_index [OF assms] clean_days [OF assms]
    by (simp add: comp_def)
qed

text \<open>
  What is written to the firewall reads back as the same schedule: the one or two sections of a clean
  schedule exist (no day is out of range) and \<open>scheduleFrom\<close> returns exactly that schedule.
\<close>

lemma schedule_roundtrip:
  assumes "clean s"
  shows "\<exists>evening morning. scheduleOptions mac zone s = Some (evening, morning) \<and> scheduleFrom evening morning = Some s"
proof -
  note np = clean_no_panic [OF assms]
  have to0: "minutesOf (To s) = 0 \<Longrightarrow> ''00:00'' = To s" and f0: "\<not> minutesOf (From s) < 0"
    using assms by (auto simp: clean_def hhmm_def pad2_def nat_digits.simps digit_char_def)
  have s: "\<lparr>Days = Days s, From = From s, To = To s\<rparr> = s" by simp
  show ?thesis
    using CleanSchedule_clean_same [OF assms] np to0 f0
    by (cases "minutesOf (To s) > minutesOf (From s)"; cases "minutesOf (To s) = 0")
      (auto simp: scheduleOptions_def scheduleFrom_def opt_def days_back [OF assms] hhmm_00_not_eveningEnd s)
qed

text \<open>
  The firewall is not part of the sources: \<open>fires o day sec\<close> says whether a rule section with
  the options \<open>o\<close> matches a packet at second \<open>sec\<close> of weekday \<open>day\<close>. What the code relies on, as the comments
  of \<^verbatim>\<open>devices_schedule.go\<close> state it: the day is checked when the packet passes, the hour match counts
  seconds and includes both ends.
\<close>

definition secondsOf :: "int list \<Rightarrow> int" where
  "secondsOf hms = (case hms of [h, m, s] \<Rightarrow> h * 3600 + m * 60 + s | _ \<Rightarrow> 0)"

locale hour_match =
  fixes fires :: "options \<Rightarrow> int \<Rightarrow> int \<Rightarrow> bool"
  assumes fires_iff: "scanColons 3 (opt rule ''start_time'') = Some a \<Longrightarrow> scanColons 3 (opt rule ''stop_time'') = Some b \<Longrightarrow>
      secondsOf a \<le> secondsOf b \<Longrightarrow> 0 \<le> day \<Longrightarrow> day < 7 \<Longrightarrow> 0 \<le> sec \<Longrightarrow> sec < 86400 \<Longrightarrow>
      fires rule day sec \<longleftrightarrow> fwDays ! nat day \<in> set (Fields (opt rule ''weekdays'')) \<and> secondsOf a \<le> sec \<and> sec \<le> secondsOf b"
begin

lemma fires_days:
  assumes "opt rule ''weekdays'' = Join (map (\<lambda>d. fwDays ! nat (g d)) ds) '' ''"
    and "\<forall>d \<in> set ds. 0 \<le> g d \<and> g d < 7"
    and "scanColons 3 (opt rule ''start_time'') = Some a" "scanColons 3 (opt rule ''stop_time'') = Some b"
    and "secondsOf a \<le> secondsOf b" "0 \<le> day" "day < 7" "0 \<le> sec" "sec < 86400"
  shows "fires rule day sec \<longleftrightarrow> day \<in> g ` set ds \<and> secondsOf a \<le> sec \<and> sec \<le> secondsOf b"
proof -
  have dist: "distinct fwDays" "length fwDays = 7" by (simp_all add: fwDays_def)
  have "fwDays ! nat day = fwDays ! nat (g d) \<longleftrightarrow> day = g d" if "d \<in> set ds" for d
    using that assms(2,6,7) dist by (auto simp: nth_eq_iff_index_eq)
  then have "fwDays ! nat day \<in> set (Fields (opt rule ''weekdays'')) \<longleftrightarrow> day \<in> g ` set ds"
    unfolding assms(1) using assms(2) by (subst Fields_days) auto
  with fires_iff [OF assms(3-9)] show ?thesis by simp
qed

end

text \<open>A firewall that does what the comments say; its hour match wraps when the end comes first.\<close>

definition nft_hour_match :: "options \<Rightarrow> int \<Rightarrow> int \<Rightarrow> bool" where
  "nft_hour_match rule day sec \<longleftrightarrow>
     (let a = secondsOf (the_default [] (scanColons 3 (opt rule ''start_time'')));
          b = secondsOf (the_default [] (scanColons 3 (opt rule ''stop_time'')))
      in fwDays ! nat day \<in> set (Fields (opt rule ''weekdays'')) \<and>
         (if a \<le> b then a \<le> sec \<and> sec \<le> b else a \<le> sec \<or> sec \<le> b))"

interpretation nft: hour_match nft_hour_match
  by unfold_locales (auto simp: nft_hour_match_def the_default_def Let_def)

lemma scan_constants: "scanColons 3 eveningEnd = Some [23, 59, 59]" "scanColons 3 ''00:00:00'' = Some [0, 0, 0]"
  by code_simp+

lemma minute_window:
  fixes sec :: int
  assumes "0 \<le> sec" "sec < 86400"
  shows "f * 60 \<le> sec \<and> sec \<le> t * 60 \<longleftrightarrow> f \<le> sec div 60 \<and> sec div 60 < t \<or> sec = t * 60 \<and> f \<le> t"
    and "f * 60 \<le> sec \<and> sec \<le> 86399 \<longleftrightarrow> f \<le> sec div 60"
    and "0 \<le> sec \<and> sec \<le> t * 60 \<longleftrightarrow> sec div 60 < t \<or> sec = t * 60"
proof -
  obtain q r where qr: "sec div 60 = q" "sec = 60 * q + r" "0 \<le> r" "r < 60"
    using div_mult_mod_eq [of sec 60] pos_mod_bound [of 60 sec] pos_mod_sign [of 60 sec] by (metis mult.commute zero_less_numeral)
  show "f * 60 \<le> sec \<and> sec \<le> t * 60 \<longleftrightarrow> f \<le> sec div 60 \<and> sec div 60 < t \<or> sec = t * 60 \<and> f \<le> t"
    and "f * 60 \<le> sec \<and> sec \<le> 86399 \<longleftrightarrow> f \<le> sec div 60"
    and "0 \<le> sec \<and> sec \<le> t * 60 \<longleftrightarrow> sec div 60 < t \<or> sec = t * 60"
    unfolding qr(1) using assms qr(2-4) by auto
qed

text \<open>
  C10. The two sections mean what the schedule means. For a clean schedule, at every second of the week, one of its
  firewall sections matches exactly when \<open>OffAt\<close> says the device is off at that minute, plus the one second
  at which a window ends: the firewall's end is inclusive. An overnight window is covered on the evening
  of its day and on the morning of the next, Sunday night into Monday included.
\<close>

theorem firewall_enforces_schedule:
  assumes fw: "hour_match fires" and cl: "clean s"
    and opts: "scheduleOptions mac zone s = Some (evening, morning)"
    and now: "0 \<le> day" "day < 7" "0 \<le> sec" "sec < 86400"
  defines "f \<equiv> minutesOf (From s)" and "t \<equiv> minutesOf (To s)"
  shows "fires evening day sec \<or> (\<exists>m. morning = Some m \<and> fires m day sec) \<longleftrightarrow>
    OffAt s day (sec div 60) \<or>
    (t \<noteq> 0 \<and> sec = t * 60 \<and> (\<exists>d \<in> set (Days s). day = (if t > f then dayIndex d else (dayIndex d + 1) mod 7)))"
proof -
  have r: "0 \<le> f" "f < 1440" "0 \<le> t" "t < 1440" "f \<noteq> t"
    and ft: "From s = hhmm f" "To s = hhmm t"
    using cl by (auto simp: clean_def f_def t_def)
  have sc: "scanColons 3 (From s @ '':00'') = Some [f div 60, f mod 60, 0]" "scanColons 3 (To s @ '':00'') = Some [t div 60, t mod 60, 0]"
    unfolding ft using r by (simp_all add: hhmm_seconds)
  have sec: "secondsOf [m div 60, m mod 60, 0] = m * 60" for m
    unfolding secondsOf_def list.case using div_mult_mod_eq [of m 60] by linarith
  have sec_const: "secondsOf [23, 59, 59] = 86399" "secondsOf [0, 0, 0] = 0" by (simp_all add: secondsOf_def)
  have idx: "\<forall>d \<in> set (Days s). 0 \<le> dayIndex d \<and> dayIndex d < 7" "\<forall>d \<in> set (Days s). 0 \<le> (dayIndex d + 1) mod 7 \<and> (dayIndex d + 1) mod 7 < 7"
    using clean_index [OF cl] weekday_facts(3) by auto
  note fires = hour_match.fires_days [OF fw _ _ _ _ _ now]
  note win = minute_window [OF now(3,4)]
  have off: "OffAt s day m \<longleftrightarrow> (if t > f then day \<in> dayIndex ` set (Days s) \<and> f \<le> m \<and> m < t
      else day \<in> dayIndex ` set (Days s) \<and> f \<le> m \<or> t \<noteq> 0 \<and> day \<in> (\<lambda>d. (dayIndex d + 1) mod 7) ` set (Days s) \<and> m < t)" for m
    by (auto simp: OffAt_def list_ex_iff Let_def f_def t_def)
  consider "t > f" | "t = 0" "f > 0" | "0 < t" "t < f" using r by linarith
  then show ?thesis
  proof cases
    case 1
    with opts have e: "opt evening ''weekdays'' = Join (map (\<lambda>d. fwDays ! nat (dayIndex d)) (Days s)) '' ''"
        "opt evening ''start_time'' = From s @ '':00''" "opt evening ''stop_time'' = To s @ '':00''" "morning = None"
      by (auto simp: scheduleOptions_def f_def t_def opt_def Let_def split: if_splits)
    show ?thesis
      using fires [OF e(1) idx(1) sc(1)[folded e(2)] sc(2)[folded e(3)]] 1 r win(1) [of f t] e(4)
      by (auto simp: sec off)
  next
    case 2
    with opts have e: "opt evening ''weekdays'' = Join (map (\<lambda>d. fwDays ! nat (dayIndex d)) (Days s)) '' ''"
        "opt evening ''start_time'' = From s @ '':00''" "opt evening ''stop_time'' = eveningEnd" "morning = None"
      by (auto simp: scheduleOptions_def f_def t_def opt_def Let_def split: if_splits)
    show ?thesis
      using fires [OF e(1) idx(1) sc(1)[folded e(2)] scan_constants(1)[folded e(3)]] 2 r win(2) [of f] e(4)
      by (auto simp: sec sec_const off)
  next
    case 3
    with opts obtain m where e: "opt evening ''weekdays'' = Join (map (\<lambda>d. fwDays ! nat (dayIndex d)) (Days s)) '' ''"
        "opt evening ''start_time'' = From s @ '':00''" "opt evening ''stop_time'' = eveningEnd" "morning = Some m"
      and m: "opt m ''weekdays'' = Join (map (\<lambda>d. fwDays ! nat ((\<lambda>d. (dayIndex d + 1) mod 7) d)) (Days s)) '' ''"
        "opt m ''start_time'' = ''00:00:00''" "opt m ''stop_time'' = To s @ '':00''"
      by (auto simp: scheduleOptions_def f_def t_def opt_def Let_def split: if_splits)
    show ?thesis
      using fires [OF e(1) idx(1) sc(1)[folded e(2)] scan_constants(1)[folded e(3)]]
        fires [OF m(1) idx(2) scan_constants(2)[folded m(2)] sc(2)[folded m(3)]] 3 r win(2) [of f] win(3) [of t] e(4)
      by (auto simp: sec sec_const off)
  qed
qed

theorem firewall_enforces_schedule_witness:
  "\<exists>evening morning. scheduleOptions ''02:00:00:00:00:01'' ''lan'' weekend_night = Some (evening, morning) \<and>
     (nft_hour_match evening 0 3600 \<or> (\<exists>m. morning = Some m \<and> nft_hour_match m 0 3600))"
proof -
  obtain e m where o: "scheduleOptions ''02:00:00:00:00:01'' ''lan'' weekend_night = Some (e, m)"
    using scheduleOptions_total [OF weekend_night_clean] by blast
  have off: "OffAt weekend_night 0 60" by code_simp
  from firewall_enforces_schedule [OF nft.hour_match_axioms weekend_night_clean o, of 0 3600] o off show ?thesis
    by auto
qed

section \<open>What the model showed\<close>

text \<open>
  \<open>Sscanf\<close> does not read to the end of its input: five bytes with one colon pass as a time even when a number
  is shorter than two digits and something follows it. A time in the evening is taken for the morning.
\<close>

lemma clockMinutes_takes_trailing_text: "clockMinutes ''9:3pm'' = Some (9 * 60 + 3)"
  by code_simp

end
