(* ===== verification/Metrics.thy ===== *)
theory Metrics
  imports Prelude
begin

text \<open>
  The history of the router's vital signs: \<^verbatim>\<open>internal/metrics/metrics.go\<close> (two circular buffers) and
  \<^verbatim>\<open>sampler.go\<close> (one reading into both). Times and durations are nanoseconds. A CPU percentage is a
  Go float the code only copies, so its type is the parameter \<open>'f\<close>. The mutex makes every method atomic.
\<close>

section \<open>Rings\<close>

record 'f sample =
  At :: int
  CPUPercent :: 'f
  MemUsed :: int
  MemTotal :: int
  StorageUsed :: int

definition sampleBytes :: nat where "sampleBytes = 40"

record 'f ring =
  buf :: "'f sample list"
  next_slot :: nat
  full :: bool
  every :: int
  last_at :: int

abbreviation sec :: int where "sec \<equiv> 1000000000"

text \<open>The zero \<^verbatim>\<open>time.Time\<close>, and \<^verbatim>\<open>Time.Sub\<close>, which saturates at the ends of \<open>int64\<close>.\<close>

definition zeroTime :: int where "zeroTime = -62135596800 * sec"

definition Sub :: "int \<Rightarrow> int \<Rightarrow> int" where
  "Sub a b = max (- (2 ^ 63)) (min (2 ^ 63 - 1) (a - b))"

definition zeroSample :: "'f \<Rightarrow> 'f sample" where
  "zeroSample z = \<lparr>At = 0, CPUPercent = z, MemUsed = 0, MemTotal = 0, StorageUsed = 0\<rparr>"

definition newRing :: "'f \<Rightarrow> int \<Rightarrow> int \<Rightarrow> 'f ring" where
  "newRing z window evry =
     (let n = nat (window div evry); n' = (if n < 1 then 1 else n)
      in \<lparr>buf = replicate n' (zeroSample z), next_slot = 0, full = False, every = evry, last_at = zeroTime\<rparr>)"

definition offer :: "'f sample \<Rightarrow> int \<Rightarrow> 'f ring \<Rightarrow> bool \<times> 'f ring" where
  "offer s now r =
     (if last_at r \<noteq> zeroTime \<and> Sub now (last_at r) < every r then (False, r)
      else
        (let nx = (next_slot r + 1) mod length (buf r)
         in (True, r\<lparr>last_at := now, buf := (buf r)[next_slot r := s], next_slot := nx,
               full := (if nx = 0 then True else full r)\<rparr>)))"

definition samples :: "'f ring \<Rightarrow> 'f sample list" where
  "samples r = (if full r then drop (next_slot r) (buf r) else []) @ take (next_slot r) (buf r)"

section \<open>The history and the sampler\<close>

definition LiveEvery :: int where "LiveEvery = 3 * sec"
definition LiveWindow :: int where "LiveWindow = 3 * 60 * sec"
definition DayEvery :: int where "DayEvery = 60 * sec"
definition DayWindow :: int where "DayWindow = 24 * 3600 * sec"

record 'f history =
  live :: "'f ring"
  day :: "'f ring"

definition NewHistory :: "'f \<Rightarrow> 'f history" where
  "NewHistory z = \<lparr>live = newRing z LiveWindow LiveEvery, day = newRing z DayWindow DayEvery\<rparr>"

definition Add :: "'f sample \<Rightarrow> 'f history \<Rightarrow> 'f history" where
  "Add s h = (let now = At s * sec in h\<lparr>live := snd (offer s now (live h)), day := snd (offer s now (day h))\<rparr>)"

definition Live :: "'f history \<Rightarrow> 'f sample list" where "Live h = samples (live h)"
definition Day :: "'f history \<Rightarrow> 'f sample list" where "Day h = samples (day h)"

definition Size :: "'f history \<Rightarrow> nat" where
  "Size h = (length (buf (live h)) + length (buf (day h))) * sampleBytes"

record 'f vitals =
  v_CPUPercent :: 'f
  v_MemUsed :: int
  v_MemTotal :: int
  v_StorageUsed :: int

text \<open>
  What the sampler reads from: \<open>src_Vitals\<close> is there when the source also implements
  \<^verbatim>\<open>VitalsReader\<close>; \<open>src_Info\<close> is the four numbers of the full snapshot.
\<close>

record 'f source =
  src_Vitals :: "'f vitals result option"
  src_Info :: "'f vitals result"

definition sampler_read :: "'f source \<Rightarrow> 'f vitals result" where
  "sampler_read src = (case src_Vitals src of Some r \<Rightarrow> r | None \<Rightarrow> src_Info src)"

definition once :: "'f source \<Rightarrow> int \<Rightarrow> 'f history \<Rightarrow> 'f history" where
  "once src now h =
     (case sampler_read src of
        Inl e \<Rightarrow> h
      | Inr v \<Rightarrow> Add \<lparr>At = now div sec, CPUPercent = v_CPUPercent v, MemUsed = v_MemUsed v,
                   MemTotal = v_MemTotal v, StorageUsed = v_StorageUsed v\<rparr> h)"

section \<open>The specification: a log of which the end is kept\<close>

definition lastn :: "nat \<Rightarrow> 'a list \<Rightarrow> 'a list" where
  "lastn n xs = drop (length xs - n) xs"

lemma lastn_append: "lastn k (lastn k ys @ zs) = lastn k (ys @ zs)"
  by (cases "k \<le> length ys") (simp_all add: lastn_def add.commute)

lemma length_lastn [simp]: "length (lastn n xs) = min n (length xs)"
  by (auto simp: lastn_def)

text \<open>The contract of a bounded log, and what follows from it for any sequence of offers.\<close>

locale bounded_log =
  fixes wf :: "'r \<Rightarrow> bool" and cap :: "'r \<Rightarrow> nat" and put :: "'a \<Rightarrow> 'r \<Rightarrow> bool \<times> 'r" and contents :: "'r \<Rightarrow> 'a list"
  assumes cap_pos: "wf r \<Longrightarrow> 0 < cap r"
    and contents_bounded: "wf r \<Longrightarrow> length (contents r) \<le> cap r"
    and put_wf: "wf r \<Longrightarrow> put x r = (b, r') \<Longrightarrow> wf r' \<and> cap r' = cap r"
    and put_kept: "wf r \<Longrightarrow> put x r = (True, r') \<Longrightarrow> contents r' = lastn (cap r) (contents r @ [x])"
    and put_refused: "put x r = (False, r') \<Longrightarrow> r' = r"
begin

fun kept :: "'a list \<Rightarrow> 'r \<Rightarrow> 'a list" where
  "kept [] r = []"
| "kept (x # xs) r = (let (b, r') = put x r in if b then x # kept xs r' else kept xs r')"

lemma contents_after:
  assumes "wf r"
  shows "contents (fold (\<lambda>x r. snd (put x r)) xs r) = lastn (cap r) (contents r @ kept xs r)"
  using assms
proof (induction xs arbitrary: r)
  case (Cons x xs)
  obtain b r' where p: "put x r = (b, r')" by (cases "put x r")
  note w = put_wf [OF Cons.prems p]
  show ?case
  proof (cases b)
    case True
    with put_kept [OF Cons.prems] p have c: "contents r' = lastn (cap r) (contents r @ [x])" by simp
    from Cons.IH [of r'] w c True p lastn_append [of "cap r" "contents r @ [x]" "kept xs r'"] show ?thesis
      by auto
  next
    case False
    with put_refused p have "r' = r" by auto
    with Cons.IH [OF Cons.prems] False p show ?thesis by simp
  qed
qed (simp add: lastn_def contents_bounded)

end

definition ring_wf :: "'f ring \<Rightarrow> bool" where
  "ring_wf r \<longleftrightarrow> next_slot r < length (buf r)"

lemma offer_keeps_last:
  assumes "ring_wf r" and "offer s now r = (True, r')"
  shows "samples r' = lastn (length (buf r)) (samples r @ [s])"
proof -
  let ?n = "next_slot r" and ?b = "buf r"
  have lt: "?n < length ?b" using assms(1) by (simp add: ring_wf_def)
  have r': "buf r' = ?b[?n := s]" "next_slot r' = (?n + 1) mod length ?b"
      "full r' \<longleftrightarrow> full r \<or> next_slot r' = 0"
    using assms(2) by (auto simp: offer_def Let_def split: if_splits)
  have split: "drop ?n ?b = ?b ! ?n # drop (Suc ?n) ?b" using lt by (rule Cons_nth_drop_Suc [symmetric])
  have upd: "take (Suc ?n) (?b[?n := s]) = take ?n ?b @ [s]" "drop (Suc ?n) (?b[?n := s]) = drop (Suc ?n) ?b"
    using lt by (simp_all add: take_Suc_conv_app_nth)
  show ?thesis
  proof (cases "Suc ?n < length ?b")
    case True
    then show ?thesis using r' split upd by (cases "length ?b") (auto simp: samples_def lastn_def)
  next
    case False
    with lt have n: "length ?b = Suc ?n" by simp
    then have "?b[?n := s] = take ?n ?b @ [s]" using upd by simp
    with n r' split show ?thesis by (auto simp: samples_def lastn_def)
  qed
qed

interpretation rg: bounded_log ring_wf "\<lambda>r. length (buf r)" "\<lambda>s. offer s (At s * sec)" samples
proof unfold_locales
  fix r r' :: "'f ring" and x :: "'f sample" and b
  have slot: "next_slot r < length (buf r) \<Longrightarrow> Suc (next_slot r) mod length (buf r) < length (buf r)"
    by (intro mod_less_divisor) auto
  show "ring_wf r \<Longrightarrow> 0 < length (buf r)" by (auto simp: ring_wf_def)
  show "ring_wf r \<Longrightarrow> length (samples r) \<le> length (buf r)" by (auto simp: ring_wf_def samples_def)
  show "ring_wf r \<Longrightarrow> offer x (At x * sec) r = (b, r') \<Longrightarrow> ring_wf r' \<and> length (buf r') = length (buf r)"
    using slot by (auto simp: ring_wf_def offer_def Let_def split: if_splits)
  show "ring_wf r \<Longrightarrow> offer x (At x * sec) r = (True, r') \<Longrightarrow> samples r' = lastn (length (buf r)) (samples r @ [x])"
    by (rule offer_keeps_last)
  show "offer x (At x * sec) r = (False, r') \<Longrightarrow> r' = r"
    by (auto simp: offer_def Let_def split: if_splits)
qed

section \<open>Properties\<close>

text \<open>Which of a sequence of samples a ring of period \<open>ev\<close> takes, when it took its last one at \<open>prev\<close>.\<close>

fun accepted :: "int \<Rightarrow> int \<Rightarrow> 'f sample list \<Rightarrow> 'f sample list" where
  "accepted ev prev [] = []"
| "accepted ev prev (s # ss) =
     (if prev \<noteq> zeroTime \<and> Sub (At s * sec) prev < ev then accepted ev prev ss
      else s # accepted ev (At s * sec) ss)"

lemma offer_fields: "offer s now r = (b, r') \<Longrightarrow> every r' = every r \<and> last_at r' = (if b then now else last_at r) \<and>
    b = (\<not> (last_at r \<noteq> zeroTime \<and> Sub now (last_at r) < every r))"
  by (auto simp: offer_def Let_def split: if_splits)

lemma kept_accepted: "rg.kept ss r = accepted (every r) (last_at r) ss"
  by (induction ss arbitrary: r) (auto split: prod.splits dest: offer_fields)

lemma fold_Add:
  "live (fold Add ss h) = fold (\<lambda>s r. snd (offer s (At s * sec) r)) ss (live h) \<and>
   day (fold Add ss h) = fold (\<lambda>s r. snd (offer s (At s * sec) r)) ss (day h)"
  by (induction ss arbitrary: h) (simp_all add: Add_def Let_def)

lemma length_buf_fold: "ring_wf r \<Longrightarrow> length (buf (fold (\<lambda>s r. snd (offer s (At s * sec) r)) ss r)) = length (buf r)"
proof (induction ss arbitrary: r)
  case (Cons s ss)
  then show ?case using rg.put_wf [OF Cons.prems surjective_pairing] by simp
qed simp

lemma newRing_facts:
  assumes "r = newRing z window ev"
  shows "ring_wf r" "samples r = []" "every r = ev" "last_at r = zeroTime"
    "length (buf r) = (if nat (window div ev) < 1 then 1 else nat (window div ev))"
  using assms by (simp_all add: newRing_def ring_wf_def samples_def Let_def)

lemmas history_consts = NewHistory_def LiveEvery_def LiveWindow_def DayEvery_def DayWindow_def

text \<open>
  C11. Whatever sequence of samples arrives, the live history is exactly the last 60 of those at least 3 seconds
  after the one taken before, the day history exactly the last 1440 of those at least a minute after the
  one taken before, both oldest first; and the two together never take more than 60000 bytes.
\<close>

theorem history_is_end_of_log:
  "Live (fold Add ss (NewHistory z)) = lastn 60 (accepted LiveEvery zeroTime ss) \<and>
   Day (fold Add ss (NewHistory z)) = lastn 1440 (accepted DayEvery zeroTime ss) \<and>
   Size (fold Add ss (NewHistory z)) = 60000"
proof -
  note l = newRing_facts [of "live (NewHistory z)" z LiveWindow LiveEvery]
  note d = newRing_facts [of "day (NewHistory z)" z DayWindow DayEvery]
  show ?thesis
    using l d fold_Add [of ss "NewHistory z"]
      rg.contents_after [OF l(1), of ss] rg.contents_after [OF d(1), of ss]
      length_buf_fold [OF l(1), of ss] length_buf_fold [OF d(1), of ss]
    by (simp add: Live_def Day_def Size_def kept_accepted history_consts sampleBytes_def)
qed

section \<open>What the model showed\<close>

text \<open>
  After the clock is set back, a ring takes nothing until it has caught up with the time of its last sample.
\<close>

lemma clock_set_back_stops_ring:
  assumes "last_at r \<noteq> zeroTime" and "0 < every r" and "now \<le> last_at r"
  shows "offer s now r = (False, r)"
  using assms by (simp add: offer_def Sub_def)

end
