(* ===== verification/Devices.thy ===== *)
theory Devices
  imports Schedule
begin

text \<open>
  Devices of the local network: \<^verbatim>\<open>internal/core/devices.go\<close> (hardware addresses, what the panel
  remembers merged with what the router sees), the notes of \<^verbatim>\<open>internal/config/config.go\<close>, \<^verbatim>\<open>ApplySchedule\<close> of
  \<^verbatim>\<open>core/schedule.go\<close>, and the section names of \<^verbatim>\<open>openwrt/devices_schedule.go\<close>.
\<close>

section \<open>Hardware addresses\<close>

text \<open>\<^verbatim>\<open>net.ParseMAC\<close>: octets in pairs of hexadecimal digits after colons or dashes, or in fours after dots.\<close>

definition xtoi2 :: "char \<Rightarrow> char \<Rightarrow> nat option" where
  "xtoi2 a b = (case hexVal a of None \<Rightarrow> None
     | Some x \<Rightarrow> (case hexVal b of None \<Rightarrow> None | Some y \<Rightarrow> Some (16 * x + y)))"

fun octets :: "char \<Rightarrow> string \<Rightarrow> nat list option" where
  "octets sep [a, b] = map_option (\<lambda>n. [n]) (xtoi2 a b)"
| "octets sep (a # b # c # r) =
     (if c \<noteq> sep then None else case xtoi2 a b of None \<Rightarrow> None
      | Some n \<Rightarrow> map_option (\<lambda>ns. n # ns) (octets sep r))"
| "octets sep s = None"

fun dottedOctets :: "string \<Rightarrow> nat list option" where
  "dottedOctets [a, b, c, d] = (case xtoi2 a b of None \<Rightarrow> None
     | Some m \<Rightarrow> map_option (\<lambda>n. [m, n]) (xtoi2 c d))"
| "dottedOctets (a # b # c # d # e # r) =
     (if e \<noteq> CHR ''.'' then None else case xtoi2 a b of None \<Rightarrow> None
      | Some m \<Rightarrow> (case xtoi2 c d of None \<Rightarrow> None
        | Some n \<Rightarrow> map_option (\<lambda>ns. m # n # ns) (dottedOctets r)))"
| "dottedOctets s = None"

definition ParseMAC :: "string \<Rightarrow> nat list option" where
  "ParseMAC s =
     (let len = length s in
      if len < 14 then None
      else if s ! 2 = CHR '':'' \<or> s ! 2 = CHR ''-'' then
        (if (len + 1) mod 3 \<noteq> 0 \<or> (len + 1) div 3 \<notin> {6, 8, 20} then None else octets (s ! 2) s)
      else if s ! 4 = CHR ''.'' then
        (if (len + 1) mod 5 \<noteq> 0 \<or> 2 * (len + 1) div 5 \<notin> {6, 8, 20} then None else dottedOctets s)
      else None)"

definition hex2 :: "nat \<Rightarrow> string" where "hex2 n = [hexDigit (n div 16), hexDigit (n mod 16)]"

definition macString :: "nat list \<Rightarrow> string" where "macString hw = Join (map hex2 hw) '':''"

definition NormalizeMAC :: "string \<Rightarrow> string result" where
  "NormalizeMAC s =
     (case ParseMAC (TrimSpace s) of
        None \<Rightarrow> Inl (Failed ''not a hardware (MAC) address'')
      | Some hw \<Rightarrow>
          if length hw \<noteq> 6 then Inl (Failed ''not a hardware (MAC) address'')
          else if hw ! 0 mod 2 = 1 then Inl (Failed ''a group address, not a device'')
          else Inr (macString hw))"

text \<open>The bits of an octet: \<open>hw[0]&1\<close> is \<open>mod 2\<close>, \<open>hw[0]&2\<close> the next one up.\<close>

definition IsPrivateMAC :: "string \<Rightarrow> bool" where
  "IsPrivateMAC mac = (case ParseMAC mac of None \<Rightarrow> False | Some hw \<Rightarrow> length hw > 0 \<and> hw ! 0 div 2 mod 2 = 1)"

section \<open>Devices\<close>

record device_link =
  Kind :: string
  Band :: string
  SignalDBm :: int

record device =
  d_MAC :: string
  d_Name :: string
  d_ReportedName :: string
  d_IPs :: "string list"
  d_ReservedIP :: string
  d_PrivateAddress :: bool
  d_New :: bool
  d_Online :: bool
  d_LastSeenSec :: "int option"
  d_Link :: device_link
  d_Internet :: string
  d_Schedule :: "internet_schedule option"
  d_OffBySchedule :: bool
  d_ScheduleChangeAt :: string
  d_RxBytes :: int
  d_TxBytes :: int
  d_Here :: bool

record device_note =
  n_MAC :: string
  n_Name :: string
  n_Known :: bool

record router_clock =
  Synced :: bool
  Now :: string
  Weekday :: string
  Timezone :: string

definition noNote :: device_note where "noNote = \<lparr>n_MAC = [], n_Name = [], n_Known = False\<rparr>"

definition noDevice :: device where
  "noDevice = \<lparr>d_MAC = [], d_Name = [], d_ReportedName = [], d_IPs = [], d_ReservedIP = [], d_PrivateAddress = False,
     d_New = False, d_Online = False, d_LastSeenSec = None, d_Link = \<lparr>Kind = [], Band = [], SignalDBm = 0\<rparr>,
     d_Internet = [], d_Schedule = None, d_OffBySchedule = False, d_ScheduleChangeAt = [], d_RxBytes = 0,
     d_TxBytes = 0, d_Here = False\<rparr>"

definition LinkUnknown :: string where "LinkUnknown = ''unknown''"
definition InternetAllowed :: string where "InternetAllowed = ''allowed''"
definition InternetBlocked :: string where "InternetBlocked = ''blocked''"
definition InternetScheduled :: string where "InternetScheduled = ''scheduled''"

definition annotate :: "device \<Rightarrow> device_note \<Rightarrow> device" where
  "annotate d n =
     (let d1 = d\<lparr>d_Name := n_Name n, d_New := (n_Name n = [] \<and> \<not> n_Known n), d_PrivateAddress := IsPrivateMAC (d_MAC d)\<rparr>;
          d2 = (if Kind (d_Link d1) = [] then d1\<lparr>d_Link := (d_Link d1)\<lparr>Kind := LinkUnknown\<rparr>\<rparr> else d1)
      in if d_Internet d2 = [] then d2\<lparr>d_Internet := InternetAllowed\<rparr> else d2)"

text \<open>The Go map \<open>byMAC\<close>: a later note of the same address replaces an earlier one.\<close>

definition byMAC :: "device_note list \<Rightarrow> string \<Rightarrow> device_note" where
  "byMAC notes m = (case List.find (\<lambda>n. n_MAC n = m) (rev notes) of None \<Rightarrow> noNote | Some n \<Rightarrow> n)"

definition MergeDevices :: "device list \<Rightarrow> device_note list \<Rightarrow> device list" where
  "MergeDevices seen notes =
     (let out = map (\<lambda>d. annotate d (byMAC notes (d_MAC d))) seen @
            map (\<lambda>n. annotate (noDevice\<lparr>d_MAC := n_MAC n, d_Link := \<lparr>Kind = LinkUnknown, Band = [], SignalDBm = 0\<rparr>\<rparr>) n)
              (filter (\<lambda>n. \<not> (n_MAC n \<in> d_MAC ` set seen \<or> (n_Name n = [] \<and> \<not> n_Known n))) notes)
      in sort_key d_MAC out)"

definition ApplySchedule :: "device \<Rightarrow> router_clock option \<Rightarrow> device" where
  "ApplySchedule d clock =
     (case d_Schedule d of None \<Rightarrow> d
      | Some s \<Rightarrow>
          (let d1 = (if d_Internet d \<noteq> InternetBlocked then d\<lparr>d_Internet := InternetScheduled\<rparr> else d) in
           case clock of None \<Rightarrow> d1
           | Some c \<Rightarrow> (case clockMinutes (Now c) of None \<Rightarrow> d1
               | Some minute \<Rightarrow>
                   (let dy = dayIndex (Weekday c) in
                    if dy < 0 then d1
                    else d1\<lparr>d_OffBySchedule := OffAt s dy minute, d_ScheduleChangeAt := NextChange s dy minute\<rparr>))))"

section \<open>What the owner said: the notes of the document\<close>

definition MaxDeviceNotes :: nat where "MaxDeviceNotes = 1024"

datatype notes_error = ErrTooManyDevices

fun deviceNote :: "string \<Rightarrow> device_note list \<Rightarrow> device_note option" where
  "deviceNote mac [] = None"
| "deviceNote mac (n # ns) = (if n_MAC n = mac then Some n else deviceNote mac ns)"

text \<open>Writing through the pointer \<open>deviceNote\<close> returns: the first note of that address.\<close>

fun changeNote :: "(device_note \<Rightarrow> device_note) \<Rightarrow> string \<Rightarrow> device_note list \<Rightarrow> device_note list" where
  "changeNote f mac [] = []"
| "changeNote f mac (n # ns) = (if n_MAC n = mac then f n # ns else n # changeNote f mac ns)"

definition SetDeviceName :: "string \<Rightarrow> string \<Rightarrow> device_note list \<Rightarrow> notes_error option \<times> device_note list" where
  "SetDeviceName mac name ds =
     (let set_it = changeNote (\<lambda>n. n\<lparr>n_Name := name, n_Known := True\<rparr>) mac in
      case deviceNote mac ds of
        Some n \<Rightarrow> (None, set_it ds)
      | None \<Rightarrow> if length ds \<ge> MaxDeviceNotes then (Some ErrTooManyDevices, ds)
          else (None, set_it (ds @ [\<lparr>n_MAC = mac, n_Name = [], n_Known = False\<rparr>])))"

fun MarkDevicesKnown :: "string list \<Rightarrow> device_note list \<Rightarrow> notes_error option \<times> device_note list" where
  "MarkDevicesKnown [] ds = (None, ds)"
| "MarkDevicesKnown (mac # macs) ds =
     (case deviceNote mac ds of
        Some n \<Rightarrow> MarkDevicesKnown macs (changeNote (\<lambda>n. n\<lparr>n_Known := True\<rparr>) mac ds)
      | None \<Rightarrow> if length ds \<ge> MaxDeviceNotes then (Some ErrTooManyDevices, ds)
          else MarkDevicesKnown macs (ds @ [\<lparr>n_MAC = mac, n_Name = [], n_Known = True\<rparr>]))"

fun ForgetDevice :: "string \<Rightarrow> device_note list \<Rightarrow> bool \<times> device_note list" where
  "ForgetDevice mac [] = (False, [])"
| "ForgetDevice mac (n # ns) = (if n_MAC n = mac then (True, ns)
     else let (b, ns') = ForgetDevice mac ns in (b, n # ns'))"

section \<open>Section names\<close>

definition schedulePrefix :: string where "schedulePrefix = ''vb_sched_''"
definition morningSuffix :: string where "morningSuffix = ''_m''"

definition scheduleSection :: "string \<Rightarrow> string" where
  "scheduleSection mac = schedulePrefix @ RemoveChar CHR '':'' mac"

definition isScheduleSection :: "string \<Rightarrow> bool" where
  "isScheduleSection section = HasPrefix section schedulePrefix"

fun pairs :: "string \<Rightarrow> string list" where
  "pairs (a # b # s) = [a, b] # pairs s"
| "pairs s = []"

definition scheduleMAC :: "string \<Rightarrow> string option" where
  "scheduleMAC section =
     (let hex = TrimSuffix (TrimPrefix section schedulePrefix) morningSuffix in
      if length hex \<noteq> 12 then None
      else case NormalizeMAC (Join (pairs hex) '':'') of Inl e \<Rightarrow> None | Inr mac \<Rightarrow> Some mac)"

section \<open>Laws of hardware addresses\<close>

lemma xtoi2_hex2 [simp]: "n < 256 \<Longrightarrow> xtoi2 (hexDigit (n div 16)) (hexDigit (n mod 16)) = Some n"
proof -
  assume "n < 256"
  then have "n div 16 < 16" "n mod 16 < 16" by auto
  then show ?thesis by (simp add: xtoi2_def)
qed

lemma xtoi2_range: "xtoi2 a b = Some n \<Longrightarrow> n < 256"
  by (auto simp: xtoi2_def dest!: hexVal_range split: option.splits)

lemma octets_range: "octets sep s = Some ns \<Longrightarrow> \<forall>n \<in> set ns. n < 256"
  by (induction sep s arbitrary: ns rule: octets.induct) (auto dest: xtoi2_range split: if_splits option.splits)

lemma dottedOctets_range: "dottedOctets s = Some ns \<Longrightarrow> \<forall>n \<in> set ns. n < 256"
  by (induction s arbitrary: ns rule: dottedOctets.induct) (auto dest: xtoi2_range split: if_splits option.splits)

lemma ParseMAC_range: "ParseMAC s = Some ns \<Longrightarrow> \<forall>n \<in> set ns. n < 256"
  by (auto simp: ParseMAC_def Let_def dest: octets_range dottedOctets_range split: if_splits)

lemma octets_macString: "hw \<noteq> [] \<Longrightarrow> \<forall>n \<in> set hw. n < 256 \<Longrightarrow> octets CHR '':'' (macString hw) = Some hw"
proof (induction hw)
  case (Cons n hw)
  then show ?case
    by (cases "hw = []") (auto simp: macString_def Join_Cons hex2_def)
qed simp

lemma length_macString: "hw \<noteq> [] \<Longrightarrow> length (macString hw) = 3 * length hw - 1"
proof (induction hw)
  case (Cons n hw)
  then show ?case by (cases "hw = []") (auto simp: macString_def Join_Cons hex2_def)
qed simp

definition device_mac :: "nat list \<Rightarrow> bool" where
  "device_mac hw \<longleftrightarrow> length hw = 6 \<and> (\<forall>n \<in> set hw. n < 256) \<and> hw ! 0 mod 2 = 0"

lemma mac_chars: "\<forall>n \<in> set hw. n < 256 \<Longrightarrow> c \<in> set (macString hw) \<Longrightarrow> c = CHR '':'' \<or> (\<exists>d < 16. c = hexDigit d)"
proof (induction hw)
  case (Cons n hw)
  then have "\<exists>d < 16. hexDigit (n div 16) = hexDigit d" "\<exists>d < 16. hexDigit (n mod 16) = hexDigit d"
    by (auto intro: exI [of _ "n div 16"] exI [of _ "n mod 16"])
  with Cons show ?case by (cases "hw = []") (auto simp: macString_def Join_Cons hex2_def)
qed (simp add: macString_def)

lemma mac_no_space: "\<forall>n \<in> set hw. n < 256 \<Longrightarrow> c \<in> set (macString hw) \<Longrightarrow> \<not> is_space c"
  using mac_chars [of hw c] hexDigit_plain(3) by (auto simp: is_space_def)

lemma ParseMAC_macString:
  assumes "length hw = 6" "\<forall>n \<in> set hw. n < 256"
  shows "ParseMAC (macString hw) = Some hw" "TrimSpace (macString hw) = macString hw"
proof -
  have ne: "hw \<noteq> []" using assms(1) by auto
  have l: "length (macString hw) = 17" using length_macString [OF ne] assms(1) by simp
  have "macString hw ! 2 = CHR '':''"
    using assms(1) by (cases hw; cases "tl hw") (auto simp: macString_def hex2_def)
  with l octets_macString [OF ne assms(2)] show "ParseMAC (macString hw) = Some hw"
    by (simp add: ParseMAC_def)
  have "macString hw \<noteq> []" using l by auto
  then show "TrimSpace (macString hw) = macString hw"
    using mac_no_space [OF assms(2)] by (intro TrimSpace_id) auto
qed

lemma NormalizeMAC_macString: "device_mac hw \<Longrightarrow> NormalizeMAC (macString hw) = Inr (macString hw)"
  by (simp add: NormalizeMAC_def device_mac_def ParseMAC_macString)

lemma NormalizeMAC_result:
  assumes "NormalizeMAC s = Inr m"
  shows "\<exists>hw. device_mac hw \<and> ParseMAC (TrimSpace s) = Some hw \<and> m = macString hw"
  using assms ParseMAC_range by (fastforce simp: NormalizeMAC_def device_mac_def split: option.splits if_splits)

lemma macString_inj: "device_mac a \<Longrightarrow> device_mac b \<Longrightarrow> macString a = macString b \<Longrightarrow> a = b"
  using ParseMAC_macString(1) by (metis device_mac_def option.inject)

text \<open>
  Every device has one key. A hardware address that is accepted, in any of the spellings with colons, dashes or
  dots and either letter case, becomes six lower-case octets with colons; that form is its own normal form, and
  two addresses get the same key exactly when their octets are the same.
\<close>

lemma NormalizeMAC_one_key:
  assumes "NormalizeMAC s = Inr m" and "NormalizeMAC s' = Inr m'"
  shows "NormalizeMAC m = Inr m \<and> length m = 17 \<and> ToLower m = m \<and>
    (m = m' \<longleftrightarrow> ParseMAC (TrimSpace s) = ParseMAC (TrimSpace s'))"
proof -
  obtain a where a: "device_mac a" "ParseMAC (TrimSpace s) = Some a" "m = macString a"
    using NormalizeMAC_result [OF assms(1)] by blast
  obtain b where b: "device_mac b" "ParseMAC (TrimSpace s') = Some b" "m' = macString b"
    using NormalizeMAC_result [OF assms(2)] by blast
  have "lower_char c = c" if "c \<in> set m" for c
    using mac_chars [of a c] a that by (auto simp: device_mac_def hexDigit_lower) (simp add: lower_char_def)
  then have "ToLower m = m" by (simp add: ToLower_def map_idI)
  moreover have "length m = 17" using a length_macString [of a] by (cases a) (auto simp: device_mac_def)
  ultimately show ?thesis using a b NormalizeMAC_macString macString_inj by auto
qed

section \<open>Sections belong to one device\<close>

lemma RemoveChar_append [simp]: "RemoveChar c (a @ b) = RemoveChar c a @ RemoveChar c b"
  by (simp add: RemoveChar_def)

lemma RemoveChar_mac:
  "\<forall>n \<in> set hw. n < 256 \<Longrightarrow> RemoveChar CHR '':'' (macString hw) = concat (map hex2 hw)"
proof (induction hw)
  case (Cons n hw)
  then have "n div 16 < 16" "n mod 16 < 16" by auto
  then have "RemoveChar CHR '':'' (hex2 n) = hex2 n"
    using hexDigit_plain(1) by (simp add: RemoveChar_def hex2_def)
  with Cons show ?case
    by (cases "hw = []") (simp_all add: macString_def Join_Cons, simp add: RemoveChar_def)
qed (simp add: macString_def RemoveChar_def)

lemma pairs_concat: "pairs (concat (map hex2 hw)) = map hex2 hw"
  by (induction hw) (simp_all add: hex2_def)

lemma length_concat_hex2: "length (concat (map hex2 hw)) = 2 * length hw"
  by (induction hw) (simp_all add: hex2_def)

lemma hex_no_suffix:
  assumes "device_mac hw"
  shows "\<not> HasSuffix (concat (map hex2 hw)) morningSuffix"
proof
  assume "HasSuffix (concat (map hex2 hw)) morningSuffix"
  then obtain t where "concat (map hex2 hw) = t @ ''_m''" by (auto simp: HasSuffix_iff morningSuffix_def)
  then have "CHR ''_'' \<in> set (concat (map hex2 hw))" by (simp only: set_append) simp
  then obtain n where "n < 256" "CHR ''_'' \<in> set (hex2 n)" using assms by (auto simp: device_mac_def)
  moreover from this have "n div 16 < 16" "n mod 16 < 16" by auto
  ultimately show False
    using hexDigit_plain(2) [of "n div 16"] hexDigit_plain(2) [of "n mod 16"] by (simp add: hex2_def)
qed

text \<open>
  A schedule's sections name their device: for every normalised hardware address both the evening's and the
  morning's section are schedule sections and read back as that address, so the sections of two devices never meet.
\<close>

lemma schedule_section_names_device:
  assumes "NormalizeMAC s = Inr mac"
  shows "isScheduleSection (scheduleSection mac) \<and> scheduleMAC (scheduleSection mac) = Some mac \<and>
    scheduleMAC (scheduleSection mac @ morningSuffix) = Some mac"
proof -
  obtain hw where hw: "device_mac hw" "mac = macString hw" using NormalizeMAC_result [OF assms] by blast
  let ?h = "concat (map hex2 hw)"
  have sec: "scheduleSection mac = schedulePrefix @ ?h"
    using hw RemoveChar_mac [of hw] by (simp add: scheduleSection_def device_mac_def)
  have "TrimSuffix ?h morningSuffix = ?h" using hex_no_suffix [OF hw(1)] by (simp add: TrimSuffix_def)
  moreover have "length ?h = 12" using hw(1) by (simp only: length_concat_hex2 device_mac_def)
  moreover have "NormalizeMAC (Join (pairs ?h) '':'') = Inr mac"
    using NormalizeMAC_macString [OF hw(1)] hw(2) by (simp only: pairs_concat macString_def)
  ultimately show ?thesis
    unfolding scheduleMAC_def sec by (simp add: isScheduleSection_def del: length_concat)
qed

section \<open>The notes as a keyed store\<close>

text \<open>
  The contract of a store of values under keys with a bounded number of entries: what a lookup returns
  after a write or a removal. The locale derives what a sequence of writes leaves.
\<close>

locale keyed_store =
  fixes wf :: "'s \<Rightarrow> bool" and lookup :: "'k \<Rightarrow> 's \<Rightarrow> 'v option"
    and put :: "'k \<Rightarrow> 'x \<Rightarrow> 's \<Rightarrow> 's option" and val :: "'k \<Rightarrow> 'x \<Rightarrow> 'v" and del :: "'k \<Rightarrow> 's \<Rightarrow> 's"
  assumes put_wf: "wf s \<Longrightarrow> put k x s = Some t \<Longrightarrow> wf t"
    and del_wf: "wf s \<Longrightarrow> wf (del k s)"
    and lookup_put: "put k x s = Some t \<Longrightarrow> lookup j t = (if j = k then Some (val k x) else lookup j s)"
    and lookup_del: "wf s \<Longrightarrow> lookup j (del k s) = (if j = k then None else lookup j s)"
begin

fun puts :: "('k \<times> 'x) list \<Rightarrow> 's \<Rightarrow> 's option" where
  "puts [] s = Some s"
| "puts ((k, x) # ws) s = Option.bind (put k x s) (puts ws)"

lemma puts_wf: "wf s \<Longrightarrow> puts ws s = Some t \<Longrightarrow> wf t"
  by (induction ws s rule: puts.induct) (auto simp: bind_eq_Some_conv dest: put_wf)

lemma puts_other: "puts ws s = Some t \<Longrightarrow> j \<notin> fst ` set ws \<Longrightarrow> lookup j t = lookup j s"
  by (induction ws s rule: puts.induct) (auto simp: bind_eq_Some_conv lookup_put)

lemma puts_last: "puts (ws @ [(k, x)]) s = Some t \<Longrightarrow> lookup k t = Some (val k x)"
proof (induction ws arbitrary: s)
  case (Cons w ws)
  then show ?case by (cases w) (auto simp: bind_eq_Some_conv)
qed (auto simp: bind_eq_Some_conv lookup_put)

lemma put_del: "wf s \<Longrightarrow> put k x s = Some t \<Longrightarrow> lookup j (del k t) = lookup j (del k s)"
  using put_wf lookup_del lookup_put by metis

end

definition notes_wf :: "device_note list \<Rightarrow> bool" where
  "notes_wf ds \<longleftrightarrow> distinct (map n_MAC ds) \<and> length ds \<le> MaxDeviceNotes"

lemma changeNote_keys: "(\<And>n. n_MAC (f n) = n_MAC n) \<Longrightarrow> map n_MAC (changeNote f mac ds) = map n_MAC ds"
  by (induction ds) auto

lemma deviceNote_change:
  "(\<And>n. n_MAC (f n) = n_MAC n) \<Longrightarrow>
    deviceNote m (changeNote f mac ds) = (if m = mac then map_option f (deviceNote mac ds) else deviceNote m ds)"
  by (induction ds) auto

lemma deviceNote_None: "deviceNote m ds = None \<longleftrightarrow> m \<notin> n_MAC ` set ds"
  by (induction ds) auto

lemma deviceNote_append: "deviceNote m (ds @ es) = (case deviceNote m ds of None \<Rightarrow> deviceNote m es | Some n \<Rightarrow> Some n)"
  by (induction ds) auto

lemma ForgetDevice_lookup:
  assumes "distinct (map n_MAC ds)"
  shows "deviceNote m (snd (ForgetDevice mac ds)) = (if m = mac then None else deviceNote m ds)"
    and "fst (ForgetDevice mac ds) \<longleftrightarrow> deviceNote mac ds \<noteq> None"
    and "snd (ForgetDevice mac ds) = filter (\<lambda>n. n_MAC n \<noteq> mac) ds"
  using assms
proof (induction ds)
  case (Cons n ds)
  { case 1 then show ?case using Cons by (auto simp: deviceNote_None split: prod.splits)
  next case 2 then show ?case using Cons by (auto split: prod.splits)
  next case 3
    have "filter (\<lambda>x. n_MAC x \<noteq> n_MAC n) ds = ds" using 3 by (auto simp: filter_id_conv) (metis image_eqI)
    then show ?case using 3 Cons by (auto split: prod.splits) }
qed auto

definition notesSet :: "string \<Rightarrow> string \<Rightarrow> device_note list \<Rightarrow> device_note list option" where
  "notesSet mac name ds = (case SetDeviceName mac name ds of (None, ds') \<Rightarrow> Some ds' | (Some e, ds') \<Rightarrow> None)"

lemma SetDeviceName_cases:
  "SetDeviceName mac name ds =
    (if deviceNote mac ds = None \<and> MaxDeviceNotes \<le> length ds then (Some ErrTooManyDevices, ds)
     else (None, changeNote (\<lambda>n. n\<lparr>n_Name := name, n_Known := True\<rparr>) mac
       (if deviceNote mac ds = None then ds @ [\<lparr>n_MAC = mac, n_Name = [], n_Known = False\<rparr>] else ds)))"
  by (auto simp: SetDeviceName_def Let_def split: option.splits)

lemma changeNote_wf:
  assumes "\<And>n. n_MAC (f n) = n_MAC n"
  shows "notes_wf (changeNote f mac ds) = notes_wf ds"
  using changeNote_keys [OF assms, of mac ds] by (metis length_map notes_wf_def)

lemma notes_wf_append:
  "notes_wf ds \<Longrightarrow> deviceNote (n_MAC n) ds = None \<Longrightarrow> length ds < MaxDeviceNotes \<Longrightarrow> notes_wf (ds @ [n])"
  by (auto simp: notes_wf_def deviceNote_None image_iff)

lemma deviceNote_key: "deviceNote mac ds = Some n \<Longrightarrow> n_MAC n = mac"
  by (induction ds) (auto split: if_splits)

interpretation dn: keyed_store notes_wf deviceNote notesSet
  "\<lambda>mac name. \<lparr>n_MAC = mac, n_Name = name, n_Known = True\<rparr>" "\<lambda>k s. snd (ForgetDevice k s)"
proof unfold_locales
  fix s t :: "device_note list" and k j x :: string
  show "notes_wf s \<Longrightarrow> notesSet k x s = Some t \<Longrightarrow> notes_wf t"
    by (auto simp: notesSet_def SetDeviceName_cases changeNote_wf intro!: notes_wf_append split: if_splits)
  show "notes_wf s \<Longrightarrow> notes_wf (snd (ForgetDevice k s))"
    by (auto simp: notes_wf_def ForgetDevice_lookup(3) distinct_map_filter intro: le_trans [OF length_filter_le])
  show "notesSet k x s = Some t \<Longrightarrow> deviceNote j t =
      (if j = k then Some \<lparr>n_MAC = k, n_Name = x, n_Known = True\<rparr> else deviceNote j s)"
    using deviceNote_key [of k s]
    by (auto simp: notesSet_def SetDeviceName_cases deviceNote_change deviceNote_append split: if_splits option.splits)
  show "notes_wf s \<Longrightarrow> deviceNote j (snd (ForgetDevice k s)) = (if j = k then None else deviceNote j s)"
    by (simp add: notes_wf_def ForgetDevice_lookup(1))
qed

lemma MarkDevicesKnown_wf: "notes_wf ds \<Longrightarrow> MarkDevicesKnown macs ds = (e, ds') \<Longrightarrow> notes_wf ds'"
proof (induction macs ds rule: MarkDevicesKnown.induct)
  case (2 mac macs ds)
  have "notes_wf (ds @ [\<lparr>n_MAC = mac, n_Name = [], n_Known = True\<rparr>])"
    if "deviceNote mac ds = None" "length ds < MaxDeviceNotes"
    using notes_wf_append [OF 2(3), of "\<lparr>n_MAC = mac, n_Name = [], n_Known = True\<rparr>"] that by simp
  with 2 show ?case by (auto simp: changeNote_wf split: option.splits if_splits)
qed simp

lemma MarkDevicesKnown_lookup:
  "MarkDevicesKnown macs ds = (None, ds') \<Longrightarrow>
    deviceNote m ds' = (if m \<in> set macs then Some (case deviceNote m ds of None \<Rightarrow> \<lparr>n_MAC = m, n_Name = [], n_Known = True\<rparr>
      | Some n \<Rightarrow> n\<lparr>n_Known := True\<rparr>) else deviceNote m ds)"
proof (induction macs ds rule: MarkDevicesKnown.induct)
  case (2 mac macs ds)
  show ?case
  proof (cases "deviceNote mac ds")
    case None
    with 2 show ?thesis by (auto simp: deviceNote_append split: if_splits option.splits)
  next
    case (Some n)
    with 2 show ?thesis by (auto simp: deviceNote_change split: if_splits option.splits)
  qed
qed simp

lemma notes_operations:
  assumes "notes_wf ds"
  shows "(case SetDeviceName mac name ds of
      (None, ds') \<Rightarrow> notes_wf ds' \<and> deviceNote mac ds' = Some \<lparr>n_MAC = mac, n_Name = name, n_Known = True\<rparr> \<and>
        (\<forall>m. m \<noteq> mac \<longrightarrow> deviceNote m ds' = deviceNote m ds)
    | (Some e, ds') \<Rightarrow> ds' = ds \<and> length ds = MaxDeviceNotes \<and> deviceNote mac ds = None)"
    and "MarkDevicesKnown macs ds = (e, ds1) \<Longrightarrow> notes_wf ds1 \<and> (e = None \<longrightarrow> (\<forall>m. deviceNote m ds1 =
      (if m \<in> set macs then Some (case deviceNote m ds of None \<Rightarrow> \<lparr>n_MAC = m, n_Name = [], n_Known = True\<rparr>
        | Some n \<Rightarrow> n\<lparr>n_Known := True\<rparr>) else deviceNote m ds)))"
    and "ForgetDevice mac ds = (found, ds2) \<Longrightarrow> notes_wf ds2 \<and> (found \<longleftrightarrow> deviceNote mac ds \<noteq> None) \<and>
      deviceNote mac ds2 = None \<and> (\<forall>m. m \<noteq> mac \<longrightarrow> deviceNote m ds2 = deviceNote m ds)"
proof -
  show "case SetDeviceName mac name ds of
      (None, ds') \<Rightarrow> notes_wf ds' \<and> deviceNote mac ds' = Some \<lparr>n_MAC = mac, n_Name = name, n_Known = True\<rparr> \<and>
        (\<forall>m. m \<noteq> mac \<longrightarrow> deviceNote m ds' = deviceNote m ds)
    | (Some e, ds') \<Rightarrow> ds' = ds \<and> length ds = MaxDeviceNotes \<and> deviceNote mac ds = None"
  proof (cases "notesSet mac name ds")
    case None
    with assms show ?thesis by (auto simp: notesSet_def SetDeviceName_cases notes_wf_def split: if_splits)
  next
    case (Some t)
    with dn.put_wf [OF assms Some] dn.lookup_put [OF Some] show ?thesis
      by (auto simp: notesSet_def split: prod.splits option.splits)
  qed
  show "MarkDevicesKnown macs ds = (e, ds1) \<Longrightarrow> notes_wf ds1 \<and> (e = None \<longrightarrow> (\<forall>m. deviceNote m ds1 =
      (if m \<in> set macs then Some (case deviceNote m ds of None \<Rightarrow> \<lparr>n_MAC = m, n_Name = [], n_Known = True\<rparr>
        | Some n \<Rightarrow> n\<lparr>n_Known := True\<rparr>) else deviceNote m ds)))"
    using MarkDevicesKnown_wf [OF assms] MarkDevicesKnown_lookup by blast
  show "ForgetDevice mac ds = (found, ds2) \<Longrightarrow> notes_wf ds2 \<and> (found \<longleftrightarrow> deviceNote mac ds \<noteq> None) \<and>
      deviceNote mac ds2 = None \<and> (\<forall>m. m \<noteq> mac \<longrightarrow> deviceNote m ds2 = deviceNote m ds)"
    using dn.del_wf [OF assms, of mac] dn.lookup_del [OF assms, of _ mac] ForgetDevice_lookup(2) [of ds mac] assms
    by (auto simp: notes_wf_def)
qed

text \<open>
  C14. The notes are one per device and at most 1024, and every operation keeps them so. Naming a device succeeds unless
  the list is full and the device is not in it, and then changes nothing; after it the device has that name and is
  known. Marking keeps names and makes every listed device known. Forgetting says whether there was a note and
  leaves none. No operation touches the note of another device.
\<close>

theorem device_notes_store:
  assumes "notes_wf ds"
  shows "(case SetDeviceName mac name ds of
      (None, ds') \<Rightarrow> notes_wf ds' \<and> deviceNote mac ds' = Some \<lparr>n_MAC = mac, n_Name = name, n_Known = True\<rparr> \<and>
        (\<forall>m. m \<noteq> mac \<longrightarrow> deviceNote m ds' = deviceNote m ds)
    | (Some e, ds') \<Rightarrow> ds' = ds \<and> length ds = MaxDeviceNotes \<and> deviceNote mac ds = None) \<and>
    (case MarkDevicesKnown macs ds of (e, ds1) \<Rightarrow> notes_wf ds1 \<and> (e = None \<longrightarrow> (\<forall>m. deviceNote m ds1 =
      (if m \<in> set macs then Some (case deviceNote m ds of None \<Rightarrow> \<lparr>n_MAC = m, n_Name = [], n_Known = True\<rparr>
        | Some n \<Rightarrow> n\<lparr>n_Known := True\<rparr>) else deviceNote m ds)))) \<and>
    (case ForgetDevice mac ds of (found, ds2) \<Rightarrow> notes_wf ds2 \<and> (found \<longleftrightarrow> deviceNote mac ds \<noteq> None) \<and>
      deviceNote mac ds2 = None \<and> (\<forall>m. m \<noteq> mac \<longrightarrow> deviceNote m ds2 = deviceNote m ds))"
proof (intro conjI)
  show "case MarkDevicesKnown macs ds of (e, ds1) \<Rightarrow> notes_wf ds1 \<and> (e = None \<longrightarrow> (\<forall>m. deviceNote m ds1 =
      (if m \<in> set macs then Some (case deviceNote m ds of None \<Rightarrow> \<lparr>n_MAC = m, n_Name = [], n_Known = True\<rparr>
        | Some n \<Rightarrow> n\<lparr>n_Known := True\<rparr>) else deviceNote m ds)))"
    using notes_operations(2) [OF assms, of macs] by (cases "MarkDevicesKnown macs ds") simp
  show "case ForgetDevice mac ds of (found, ds2) \<Rightarrow> notes_wf ds2 \<and> (found \<longleftrightarrow> deviceNote mac ds \<noteq> None) \<and>
      deviceNote mac ds2 = None \<and> (\<forall>m. m \<noteq> mac \<longrightarrow> deviceNote m ds2 = deviceNote m ds)"
    using notes_operations(3) [OF assms, of mac] by (cases "ForgetDevice mac ds") simp
qed (rule notes_operations(1) [OF assms])

theorem device_notes_store_witness:
  "\<exists>ds. SetDeviceName ''02:00:5e:10:00:0a'' ''tv'' [] = (None, ds) \<and> notes_wf ds \<and>
     deviceNote ''02:00:5e:10:00:0a'' ds = Some \<lparr>n_MAC = ''02:00:5e:10:00:0a'', n_Name = ''tv'', n_Known = True\<rparr>"
  using device_notes_store [of "[]" "''02:00:5e:10:00:0a''" "''tv''"]
  by (simp add: notes_wf_def SetDeviceName_def MaxDeviceNotes_def split: prod.splits)

section \<open>The list the panel shows\<close>

lemma annotate_fields:
  "d_MAC (annotate d n) = d_MAC d" "d_Name (annotate d n) = n_Name n"
  "d_New (annotate d n) \<longleftrightarrow> n_Name n = [] \<and> \<not> n_Known n" "d_IPs (annotate d n) = d_IPs d"
  "d_Online (annotate d n) = d_Online d" "d_Internet (annotate d n) \<noteq> []" "d_PrivateAddress (annotate d n) = IsPrivateMAC (d_MAC d)"
  by (auto simp: annotate_def Let_def InternetAllowed_def)

definition remembered :: "device_note \<Rightarrow> bool" where
  "remembered n \<longleftrightarrow> n_Name n \<noteq> [] \<or> n_Known n"

lemma byMAC_note: "distinct (map n_MAC notes) \<Longrightarrow> n \<in> set notes \<Longrightarrow> byMAC notes (n_MAC n) = n"
proof -
  assume d: "distinct (map n_MAC notes)" "n \<in> set notes"
  then obtain x where x: "List.find (\<lambda>x. n_MAC x = n_MAC n) (rev notes) = Some x"
    by (cases "List.find (\<lambda>x. n_MAC x = n_MAC n) (rev notes)") (auto simp: find_None_iff)
  then have "x \<in> set notes" "n_MAC x = n_MAC n" by (auto simp: find_Some_iff) (metis nth_mem length_rev set_rev)
  with d have "x = n" by (meson distinct_map inj_onD)
  with x show ?thesis by (simp add: byMAC_def)
qed

text \<open>
  C15. The list the panel shows is in the order of addresses and has every address once: those the router sees and those
  the owner named or knows. What the router observed of a device is kept, the name is the owner's, and a device is
  new exactly when the owner neither named it nor said it is known.
\<close>

theorem MergeDevices_complete:
  assumes "distinct (map d_MAC seen)" and "distinct (map n_MAC notes)"
  shows "sorted (map d_MAC (MergeDevices seen notes)) \<and> distinct (map d_MAC (MergeDevices seen notes)) \<and>
    d_MAC ` set (MergeDevices seen notes) = d_MAC ` set seen \<union> n_MAC ` {n \<in> set notes. remembered n} \<and>
    (\<forall>d \<in> set (MergeDevices seen notes). d_Name d = n_Name (byMAC notes (d_MAC d)) \<and>
      (d_New d \<longleftrightarrow> \<not> remembered (byMAC notes (d_MAC d))) \<and>
      (d_MAC d \<in> d_MAC ` set seen \<longrightarrow> (\<exists>d0 \<in> set seen. d = annotate d0 (byMAC notes (d_MAC d)))))"
proof -
  let ?old = "filter (\<lambda>n. \<not> (n_MAC n \<in> d_MAC ` set seen \<or> (n_Name n = [] \<and> \<not> n_Known n))) notes"
  let ?B = "\<lambda>n. annotate (noDevice\<lparr>d_MAC := n_MAC n, d_Link := \<lparr>Kind = LinkUnknown, Band = [], SignalDBm = 0\<rparr>\<rparr>) n"
  let ?out = "map (\<lambda>d. annotate d (byMAC notes (d_MAC d))) seen @ map ?B ?old"
  have m: "MergeDevices seen notes = sort_key d_MAC ?out" by (simp add: MergeDevices_def)
  have k: "map d_MAC ?out = map d_MAC seen @ map n_MAC ?old"
    by (simp add: annotate_fields(1) comp_def)
  have "distinct (map d_MAC ?out)"
    unfolding k using assms distinct_map_filter [OF assms(2)] by auto (metis image_eqI)+
  then have "distinct (map d_MAC (sort_key d_MAC ?out))"
    by (simp only: distinct_map distinct_sort set_sort)
  moreover have "d_MAC ` set ?out = d_MAC ` set seen \<union> n_MAC ` {n \<in> set notes. remembered n}"
  proof -
    have "d_MAC ` set ?out = set (map d_MAC seen @ map n_MAC ?old)" using k by (metis set_map)
    then show ?thesis by (auto simp: remembered_def)
  qed
  moreover have "d_Name d = n_Name (byMAC notes (d_MAC d)) \<and> (d_New d \<longleftrightarrow> \<not> remembered (byMAC notes (d_MAC d))) \<and>
      (d_MAC d \<in> d_MAC ` set seen \<longrightarrow> (\<exists>d0 \<in> set seen. d = annotate d0 (byMAC notes (d_MAC d))))"
    if "d \<in> set ?out" for d
    using that byMAC_note [OF assms(2)] by (auto simp: annotate_fields remembered_def)
  ultimately show ?thesis unfolding m by (simp only: set_sort sorted_sort_key) blast
qed

theorem MergeDevices_complete_witness:
  "sorted (map d_MAC (MergeDevices [noDevice\<lparr>d_MAC := ''b''\<rparr>] [\<lparr>n_MAC = ''a'', n_Name = ''tv'', n_Known = True\<rparr>])) \<and>
   d_MAC ` set (MergeDevices [noDevice\<lparr>d_MAC := ''b''\<rparr>] [\<lparr>n_MAC = ''a'', n_Name = ''tv'', n_Known = True\<rparr>]) = {''a'', ''b''}"
proof -
  have "{n \<in> set [\<lparr>n_MAC = ''a'', n_Name = ''tv'', n_Known = True\<rparr>]. remembered n} = {\<lparr>n_MAC = ''a'', n_Name = ''tv'', n_Known = True\<rparr>}"
    by (auto simp: remembered_def)
  then show ?thesis
    using MergeDevices_complete [of "[noDevice\<lparr>d_MAC := ''b''\<rparr>]" "[\<lparr>n_MAC = ''a'', n_Name = ''tv'', n_Known = True\<rparr>]"]
    by auto
qed

end
