(* ===== verification/Store.thy ===== *)
theory Store
  imports Devices
begin

text \<open>
  The panel's own document and the file it lives in: \<^verbatim>\<open>internal/config/config.go\<close> and \<^verbatim>\<open>internal/config/store.go\<close>. A file is
  written next to the old one, flushed and renamed over it. The operating system's part is the parameter \<open>store_fs\<close>, \<^verbatim>\<open>encoding/json\<close>
  a pair of functions; bcrypt is the parameter of the password check.
\<close>

section \<open>The document\<close>

record node_secret =
  ns_PrivateKey :: string
  ns_PeerPublicKey :: string
  ns_PresharedKey :: string
  ns_Address :: string
  ns_DNS :: "string list"
  ns_AllowedIPs :: "string list"
  ns_PersistentKeepalive :: int
  ns_Obfuscation :: "(string \<times> string) list"

record core_node =
  nd_ID :: string
  nd_Name :: string
  nd_Engine :: string
  nd_Endpoint :: string

record stored_node =
  sn_Node :: core_node
  sn_Secret :: node_secret

record route_rule =
  rr_ID :: string
  rr_Kind :: string
  rr_Value :: string
  rr_Target :: string
  rr_Note :: string

record settings =
  st_PasswordHash :: string
  st_ActiveNodeID :: string
  st_ListenAddr :: string

record document =
  doc_Version :: string
  doc_Nodes :: "stored_node list"
  doc_Routes :: "route_rule list"
  doc_Settings :: settings
  doc_Devices :: "device_note list"

definition configVersion :: string where "configVersion = ''0.1.0''"

definition Default :: document where
  "Default = \<lparr>doc_Version = configVersion, doc_Nodes = [], doc_Routes = [],
     doc_Settings = \<lparr>st_PasswordHash = [], st_ActiveNodeID = [], st_ListenAddr = '':8080''\<rparr>, doc_Devices = []\<rparr>"

definition Public :: "stored_node \<Rightarrow> core_node" where "Public n = sn_Node n"

definition PublicNodes :: "document \<Rightarrow> core_node list" where "PublicNodes d = map Public (doc_Nodes d)"

definition SetPassword :: "(string \<Rightarrow> string result) \<Rightarrow> string \<Rightarrow> document \<Rightarrow> error option \<times> document" where
  \<comment> \<open>\<open>hash\<close> is \<^verbatim>\<open>bcrypt.GenerateFromPassword\<close>\<close>
  "SetPassword hash password d =
     (if password = [] then (Some (Failed ''empty password''), d)
      else case hash password of Inl e \<Rightarrow> (Some e, d)
        | Inr h \<Rightarrow> (None, d\<lparr>doc_Settings := (doc_Settings d)\<lparr>st_PasswordHash := h\<rparr>\<rparr>))"

definition VerifyPassword :: "(string \<Rightarrow> string \<Rightarrow> bool) \<Rightarrow> string \<Rightarrow> document \<Rightarrow> bool" where
  \<comment> \<open>\<open>agrees\<close> is \<^verbatim>\<open>bcrypt.CompareHashAndPassword\<close>\<close>
  "VerifyPassword agrees password d =
     (if st_PasswordHash (doc_Settings d) = [] then False else agrees (st_PasswordHash (doc_Settings d)) password)"

definition withVersion :: "document \<Rightarrow> document" where
  "withVersion d = (if doc_Version d = [] then d\<lparr>doc_Version := configVersion\<rparr> else d)"

section \<open>The file\<close>

record 'w store_fs =
  sf_ReadFile :: "string \<Rightarrow> 'w \<Rightarrow> read_result"
  sf_MkdirAll :: "string \<Rightarrow> ('w, unit) step"
  sf_CreateTemp :: "string \<Rightarrow> ('w, string) step"
  sf_Chmod :: "string \<Rightarrow> ('w, unit) step"
  sf_Write :: "string \<Rightarrow> string \<Rightarrow> ('w, unit) step"
  sf_Sync :: "string \<Rightarrow> ('w, unit) step"
  sf_Close :: "string \<Rightarrow> ('w, unit) step"
  sf_Rename :: "string \<Rightarrow> string \<Rightarrow> ('w, unit) step"
  sf_Remove :: "string \<Rightarrow> 'w \<Rightarrow> 'w"

record codec =
  Marshal :: "document \<Rightarrow> string result"
  Unmarshal :: "string \<Rightarrow> document result"

definition dirOf :: "string \<Rightarrow> string" where
  \<comment> \<open>\<^verbatim>\<open>filepath.Dir\<close> of a clean absolute path\<close>
  "dirOf p = (let d = rev (drop 1 (dropWhile (\<lambda>c. c \<noteq> CHR ''/'') (rev p))) in if d = [] then ''/'' else d)"

definition Load :: "'w store_fs \<Rightarrow> codec \<Rightarrow> string \<Rightarrow> 'w \<Rightarrow> document result" where
  "Load fs js path w =
     (case sf_ReadFile fs path w of
        FileMissing \<Rightarrow> Inr Default
      | ReadError e \<Rightarrow> Inl (Failed ''read'')
      | FileData b \<Rightarrow>
          if TrimSpace b = [] then Inr Default
          else (case Unmarshal js b of Inl e \<Rightarrow> Inl (Failed ''parse'') | Inr d \<Rightarrow> Inr (withVersion d)))"

definition closing :: "'w store_fs \<Rightarrow> string \<Rightarrow> error \<Rightarrow> ('w, unit) step \<Rightarrow> ('w, unit) step" where
  \<comment> \<open>on an error the file is closed, whatever that answers\<close>
  "closing fs tmp e m w = (case m w of (Inl _, w') \<Rightarrow> (Inl e, snd (sf_Close fs tmp w')) | (Inr u, w') \<Rightarrow> (Inr u, w'))"

definition writeTemp :: "'w store_fs \<Rightarrow> string \<Rightarrow> string \<Rightarrow> string \<Rightarrow> ('w, unit) step" where
  "writeTemp fs tmp path b =
     bindR (closing fs tmp (Failed ''chmod temp'') (sf_Chmod fs tmp)) (\<lambda>_.
     bindR (closing fs tmp (Failed ''write temp'') (sf_Write fs tmp b)) (\<lambda>_.
     bindR (closing fs tmp (Failed ''sync temp'') (sf_Sync fs tmp)) (\<lambda>_.
     bindR (wrapR (Failed ''close temp'') (sf_Close fs tmp)) (\<lambda>_.
       wrapR (Failed ''rename into place'') (sf_Rename fs tmp path)))))"

definition Save :: "'w store_fs \<Rightarrow> codec \<Rightarrow> string \<Rightarrow> document option \<Rightarrow> ('w, unit) step" where
  "Save fs js path md =
     (case md of None \<Rightarrow> failR (Failed ''cannot save nil document'')
      | Some d \<Rightarrow>
          bindR (wrapR (Failed ''marshal'') (liftR (Marshal js (withVersion d)))) (\<lambda>b.
          bindR (wrapR (Failed ''mkdir'') (sf_MkdirAll fs (dirOf path))) (\<lambda>_.
          bindR (wrapR (Failed ''temp file'') (sf_CreateTemp fs (dirOf path))) (\<lambda>tmp w.
            case writeTemp fs tmp path b w of (r, w') \<Rightarrow> (r, sf_Remove fs tmp w')))))"

text \<open>One call, under the lock of the file.\<close>

definition Update :: "'w store_fs \<Rightarrow> codec \<Rightarrow> string \<Rightarrow> (document \<Rightarrow> error option \<times> document) \<Rightarrow> ('w, unit) step" where
  "Update fs js path change w =
     (case Load fs js path w of Inl e \<Rightarrow> (Inl e, w)
      | Inr d \<Rightarrow> (case change d of (Some e, d') \<Rightarrow> (Inl e, w) | (None, d') \<Rightarrow> Save fs js path (Some d') w))"

section \<open>What is relied on of the file system\<close>

text \<open>
  \<open>now\<close> is what reading a file gives, \<open>kept\<close> what would be there after a power cut now. A new temporary file is no file that was there;
  writing reaches \<open>now\<close>, flushing makes \<open>kept\<close> of it; a rename is there or not there, never half.
\<close>

locale file_store =
  fixes fs :: "'w store_fs" and now :: "'w \<Rightarrow> string \<Rightarrow> string option" and kept :: "'w \<Rightarrow> string \<Rightarrow> string option" and path :: string
  assumes read_now: "sf_ReadFile fs p w = FileData b \<longleftrightarrow> now w p = Some b"
    and read_missing: "sf_ReadFile fs p w = FileMissing \<longleftrightarrow> now w p = None"
    and mkdir: "sf_MkdirAll fs d w = (r, w') \<Longrightarrow> now w' p = now w p \<and> kept w' p = kept w p"
    and temp: "sf_CreateTemp fs d w = (t, w') \<Longrightarrow> (\<forall>tmp. t = Inr tmp \<longrightarrow> tmp \<noteq> path) \<and> now w' path = now w path \<and> kept w' path = kept w path"
    and chmod: "sf_Chmod fs f w = (r, w') \<Longrightarrow> now w' p = now w p \<and> kept w' p = kept w p"
    and write_other: "sf_Write fs f b w = (r, w') \<Longrightarrow> p \<noteq> f \<Longrightarrow> now w' p = now w p \<and> kept w' p = kept w p"
    and write_ok: "sf_Write fs f b w = (Inr u, w') \<Longrightarrow> now w' f = Some b"
    and sync_now: "sf_Sync fs f w = (r, w') \<Longrightarrow> now w' p = now w p \<and> (p \<noteq> f \<longrightarrow> kept w' p = kept w p)"
    and sync_ok: "sf_Sync fs f w = (Inr u, w') \<Longrightarrow> kept w' f = now w f"
    and close: "sf_Close fs f w = (r, w') \<Longrightarrow> now w' p = now w p \<and> kept w' p = kept w p"
    and rename_ok: "sf_Rename fs a b w = (Inr u, w') \<Longrightarrow> now w' b = now w a \<and> (kept w' b = kept w a \<or> kept w' b = kept w b)"
    and rename_failed: "sf_Rename fs a b w = (Inl e, w') \<Longrightarrow> now w' p = now w p \<and> kept w' p = kept w p"
    and remove: "p \<noteq> f \<Longrightarrow> now (sf_Remove fs f w) p = now w p \<and> kept (sf_Remove fs f w) p = kept w p"

text \<open>
  A store whose every call is watched: whether after it a power cut would still leave, at the path, something the
  watcher calls good.
\<close>

definition watchW :: "('w \<Rightarrow> bool) \<Rightarrow> 'w \<Rightarrow> bool \<Rightarrow> 'w \<times> bool" where "watchW good w b = (w, b \<and> good w)"

definition watchS :: "('w \<Rightarrow> bool) \<Rightarrow> ('w, 'a) step \<Rightarrow> ('w \<times> bool, 'a) step" where
  "watchS good m s = (case m (fst s) of (r, w') \<Rightarrow> (r, watchW good w' (snd s)))"

definition watchedStore :: "('w \<Rightarrow> bool) \<Rightarrow> 'w store_fs \<Rightarrow> ('w \<times> bool) store_fs" where
  "watchedStore good fs =
     \<lparr>sf_ReadFile = (\<lambda>p s. sf_ReadFile fs p (fst s)), sf_MkdirAll = (\<lambda>d. watchS good (sf_MkdirAll fs d)),
      sf_CreateTemp = (\<lambda>d. watchS good (sf_CreateTemp fs d)), sf_Chmod = (\<lambda>f. watchS good (sf_Chmod fs f)),
      sf_Write = (\<lambda>f b. watchS good (sf_Write fs f b)), sf_Sync = (\<lambda>f. watchS good (sf_Sync fs f)),
      sf_Close = (\<lambda>f. watchS good (sf_Close fs f)), sf_Rename = (\<lambda>a b. watchS good (sf_Rename fs a b)),
      sf_Remove = (\<lambda>f s. watchW good (sf_Remove fs f (fst s)) (snd s))\<rparr>"

lemma watchS_Inr: "watchS good m s = (Inr x, s') \<longleftrightarrow> (\<exists>w'. m (fst s) = (Inr x, w') \<and> s' = watchW good w' (snd s))"
  by (auto simp: watchS_def split: prod.splits)

lemma watchS_Inl: "watchS good m s = (Inl e, s') \<longleftrightarrow> (\<exists>w'. m (fst s) = (Inl e, w') \<and> s' = watchW good w' (snd s))"
  by (auto simp: watchS_def split: prod.splits)

lemma watchW_simps [simp]: "fst (watchW good w b) = w" "snd (watchW good w b) \<longleftrightarrow> b \<and> good w"
  by (simp_all add: watchW_def)

text \<open>A step on a watched world follows the step on the world.\<close>

definition follows :: "('w \<times> bool, 'a) step \<Rightarrow> ('w, 'a) step \<Rightarrow> bool" where
  "follows m' m \<longleftrightarrow> (\<forall>s. fst (m' s) = fst (m (fst s)) \<and> fst (snd (m' s)) = snd (m (fst s)))"

lemma followsD: "follows m' m \<Longrightarrow> m' s = (r, s') \<Longrightarrow> m (fst s) = (r, fst s')"
proof -
  assume "follows m' m" and m: "m' s = (r, s')"
  then have "fst (m' s) = fst (m (fst s)) \<and> fst (snd (m' s)) = snd (m (fst s))" unfolding follows_def by blast
  with m show "m (fst s) = (r, fst s')" by (simp add: prod_eq_iff)
qed

lemma followsI: "(\<And>s r s'. m' s = (r, s') \<Longrightarrow> m (fst s) = (r, fst s')) \<Longrightarrow> follows m' m"
proof (unfold follows_def, rule allI)
  fix s
  assume "\<And>s r s'. m' s = (r, s') \<Longrightarrow> m (fst s) = (r, fst s')"
  then have "m (fst s) = (fst (m' s), fst (snd (m' s)))" by (metis prod.collapse)
  then show "fst (m' s) = fst (m (fst s)) \<and> fst (snd (m' s)) = snd (m (fst s))" by simp
qed

lemma follows_bind: "follows m' m \<Longrightarrow> (\<And>x. follows (k' x) (k x)) \<Longrightarrow> follows (bindR m' k') (bindR m k)"
proof (rule followsI)
  fix s r s'
  assume m: "follows m' m" and k: "\<And>x. follows (k' x) (k x)" and b: "bindR m' k' s = (r, s')"
  obtain q u where q: "m' s = (q, u)" by (rule prod.exhaust)
  note q' = followsD [OF m q]
  show "bindR m k (fst s) = (r, fst s')" using b q q' followsD [OF k] by (cases q) (auto simp: bindR_def)
qed

lemma follows_wrap: "follows m' m \<Longrightarrow> follows (wrapR e m') (wrapR e m)"
  by (rule followsI) (auto simp: wrapR_def dest: followsD split: prod.splits sum.splits)

lemma follows_watch: "follows (watchS g m) m"
  by (simp add: follows_def watchS_def split: prod.split)

lemma follows_simple: "follows (failR e) (failR e)" "follows (liftR r) (liftR r)"
  by (simp_all add: follows_def failR_def liftR_def)

lemma watched_simps:
  "sf_MkdirAll (watchedStore g fs) d = watchS g (sf_MkdirAll fs d)" "sf_CreateTemp (watchedStore g fs) d = watchS g (sf_CreateTemp fs d)"
  "sf_Chmod (watchedStore g fs) f = watchS g (sf_Chmod fs f)" "sf_Write (watchedStore g fs) f b = watchS g (sf_Write fs f b)"
  "sf_Sync (watchedStore g fs) f = watchS g (sf_Sync fs f)" "sf_Close (watchedStore g fs) f = watchS g (sf_Close fs f)"
  "sf_Rename (watchedStore g fs) p q = watchS g (sf_Rename fs p q)"
  "sf_Remove (watchedStore g fs) f s = watchW g (sf_Remove fs f (fst s)) (snd s)"
  by (simp_all add: watchedStore_def)

lemma follows_closing: "follows m' m \<Longrightarrow> follows (closing (watchedStore g fs) tmp e m') (closing fs tmp e m)"
proof (rule followsI)
  fix s r s'
  assume m: "follows m' m" and c: "closing (watchedStore g fs) tmp e m' s = (r, s')"
  obtain q u where q: "m' s = (q, u)" by (rule prod.exhaust)
  obtain x v where v: "sf_Close fs tmp (fst u) = (x, v)" by (rule prod.exhaust)
  show "closing fs tmp e m (fst s) = (r, fst s')"
    using c q followsD [OF m q] v by (cases q) (auto simp: closing_def watched_simps watchS_def)
qed

lemma follows_writeTemp: "follows (writeTemp (watchedStore g fs) tmp path b) (writeTemp fs tmp path b)"
  unfolding writeTemp_def watched_simps by (intro follows_bind follows_closing follows_wrap follows_watch)

section \<open>Saving is atomic\<close>

context file_store
begin

definition intact :: "string option \<Rightarrow> string option \<Rightarrow> 'w \<times> bool \<Rightarrow> bool" where
  \<comment> \<open>nothing seen so far but the old file\<close>
  "intact k n s \<longleftrightarrow> snd s \<and> kept (fst s) path = k \<and> now (fst s) path = n"

definition good :: "string option \<Rightarrow> string \<Rightarrow> 'w \<Rightarrow> bool" where
  "good k b w \<longleftrightarrow> kept w path = k \<or> kept w path = Some b"

definition written :: "string option \<Rightarrow> string \<Rightarrow> 'w \<times> bool \<Rightarrow> bool" where
  "written k b s \<longleftrightarrow> snd s \<and> good k b (fst s) \<and> now (fst s) path = Some b"

lemma watched_quiet:
  assumes "\<And>w r w'. m w = (r, w') \<Longrightarrow> now w' path = now w path \<and> kept w' path = kept w path"
    and "\<And>w x w'. m w = (Inr x, w') \<Longrightarrow> P w \<Longrightarrow> Q w'"
  shows "holdsR (\<lambda>s. intact k n s \<and> P (fst s)) (watchS (good k b) m) (\<lambda>_ s. intact k n s \<and> Q (fst s)) (intact k n)"
proof (rule holdsR_I)
  fix s x s'
  assume p: "intact k n s \<and> P (fst s)" and "watchS (good k b) m s = (Inr x, s')"
  then obtain w' where m: "m (fst s) = (Inr x, w')" and s': "s' = watchW (good k b) w' (snd s)" unfolding watchS_Inr by blast
  from assms(1) [OF m] assms(2) [OF m] p show "intact k n s' \<and> Q (fst s')" unfolding s' by (simp add: intact_def good_def)
next
  fix s e s'
  assume p: "intact k n s \<and> P (fst s)" and "watchS (good k b) m s = (Inl e, s')"
  then obtain w' where m: "m (fst s) = (Inl e, w')" and s': "s' = watchW (good k b) w' (snd s)" unfolding watchS_Inl by blast
  from assms(1) [OF m] p show "intact k n s'" unfolding s' by (simp add: intact_def good_def)
qed

lemma closing_holds:
  assumes "holdsR P m Q (intact k n)"
  shows "holdsR P (closing (watchedStore (good k b) fs) tmp e m) Q (intact k n)"
proof (rule holdsR_I)
  fix s x s'
  assume "P s" and c: "closing (watchedStore (good k b) fs) tmp e m s = (Inr x, s')"
  then have "m s = (Inr x, s')" by (auto simp: closing_def split: prod.splits sum.splits)
  with assms \<open>P s\<close> show "Q x s'" by (rule holdsR_Inr)
next
  fix s e' s'
  assume "P s" and c: "closing (watchedStore (good k b) fs) tmp e m s = (Inl e', s')"
  then obtain e2 u where m: "m s = (Inl e2, u)" and s': "s' = snd (watchS (good k b) (sf_Close fs tmp) u)"
    by (auto simp: closing_def watchedStore_def split: prod.splits sum.splits)
  have "intact k n u" by (rule holdsR_Inl [OF assms \<open>P s\<close> m])
  then show "intact k n s'" unfolding s' using close
    by (auto simp: watchS_def intact_def good_def split: prod.splits)
qed

lemma writeTemp_holds:
  assumes tmp: "tmp \<noteq> path"
  shows "holdsR (intact k n) (writeTemp (watchedStore (good k b) fs) tmp path b) (\<lambda>_. written k b) (intact k n)"
  unfolding writeTemp_def
proof (intro holds_bindR holds_wrapR closing_holds)
  show "holdsR (intact k n) (sf_Chmod (watchedStore (good k b) fs) tmp) (\<lambda>_ s. intact k n s \<and> True) (intact k n)"
    using watched_quiet [of "sf_Chmod fs tmp" "\<lambda>_. True" "\<lambda>_. True"] chmod by (simp add: watchedStore_def)
next
  show "holdsR (\<lambda>s. intact k n s \<and> True) (sf_Write (watchedStore (good k b) fs) tmp b) (\<lambda>_ s. intact k n s \<and> now (fst s) tmp = Some b) (intact k n)"
    using watched_quiet [of "sf_Write fs tmp b" "\<lambda>_. True" "\<lambda>w. now w tmp = Some b"] write_ok write_other tmp
    by (simp add: watchedStore_def)
next
  show "holdsR (\<lambda>s. intact k n s \<and> now (fst s) tmp = Some b) (sf_Sync (watchedStore (good k b) fs) tmp)
      (\<lambda>_ s. intact k n s \<and> (now (fst s) tmp = Some b \<and> kept (fst s) tmp = Some b)) (intact k n)"
    using watched_quiet [of "sf_Sync fs tmp" "\<lambda>w. now w tmp = Some b" "\<lambda>w. now w tmp = Some b \<and> kept w tmp = Some b"]
      sync_ok sync_now tmp by (simp add: watchedStore_def)
next
  show "holdsR (\<lambda>s. intact k n s \<and> (now (fst s) tmp = Some b \<and> kept (fst s) tmp = Some b)) (sf_Close (watchedStore (good k b) fs) tmp)
      (\<lambda>_ s. intact k n s \<and> (now (fst s) tmp = Some b \<and> kept (fst s) tmp = Some b)) (intact k n)"
    using watched_quiet [of "sf_Close fs tmp" "\<lambda>w. now w tmp = Some b \<and> kept w tmp = Some b" "\<lambda>w. now w tmp = Some b \<and> kept w tmp = Some b"]
      close by (simp add: watchedStore_def)
next
  show "holdsR (\<lambda>s. intact k n s \<and> (now (fst s) tmp = Some b \<and> kept (fst s) tmp = Some b)) (sf_Rename (watchedStore (good k b) fs) tmp path)
      (\<lambda>_. written k b) (intact k n)"
  proof (rule holdsR_I)
    fix s x s'
    assume "intact k n s \<and> (now (fst s) tmp = Some b \<and> kept (fst s) tmp = Some b)"
      and "sf_Rename (watchedStore (good k b) fs) tmp path s = (Inr x, s')"
    then show "written k b s'"
      using rename_ok by (fastforce simp: watchedStore_def watchS_Inr intact_def good_def written_def)
  next
    fix s e s'
    assume "intact k n s \<and> (now (fst s) tmp = Some b \<and> kept (fst s) tmp = Some b)"
      and "sf_Rename (watchedStore (good k b) fs) tmp path s = (Inl e, s')"
    then show "intact k n s'" using rename_failed by (fastforce simp: watchedStore_def watchS_Inl intact_def good_def)
  qed
qed

lemma removed:
  assumes "tmp \<noteq> path"
  shows "intact k n s \<Longrightarrow> intact k n (sf_Remove (watchedStore (good k b) fs) tmp s)"
    and "written k b s \<Longrightarrow> written k b (sf_Remove (watchedStore (good k b) fs) tmp s)"
  using remove [of path tmp] assms by (simp_all add: watchedStore_def intact_def written_def good_def)

lemma Save_holds:
  assumes js: "Marshal js (withVersion d) = Inr b"
  shows "holdsR (intact k n) (Save (watchedStore (good k b) fs) js path (Some d)) (\<lambda>_. written k b) (intact k n)"
proof -
  let ?W = "watchedStore (good k b) fs"
  have 1: "holdsR (intact k n) (wrapR (Failed ''marshal'') (liftR (Marshal js (withVersion d)))) (\<lambda>x s. intact k n s \<and> x = b) (intact k n)"
    unfolding js by (auto simp: holdsR_def wrapR_def liftR_def)
  have 2: "holdsR (\<lambda>s. intact k n s \<and> c = b) (wrapR (Failed ''mkdir'') (sf_MkdirAll ?W (dirOf path))) (\<lambda>_ s. intact k n s \<and> c = b) (intact k n)" for c
    by (rule holds_wrapR) (use watched_quiet [of "sf_MkdirAll fs (dirOf path)" "\<lambda>_. c = b" "\<lambda>_. c = b"] mkdir in \<open>simp add: watchedStore_def\<close>)
  have 3: "holdsR (\<lambda>s. intact k n s \<and> c = b) (wrapR (Failed ''temp file'') (sf_CreateTemp ?W (dirOf path)))
      (\<lambda>tmp s. intact k n s \<and> c = b \<and> tmp \<noteq> path) (intact k n)" for c
  proof (rule holds_wrapR, rule holdsR_I)
    fix s x s'
    assume p: "intact k n s \<and> c = b" and "sf_CreateTemp ?W (dirOf path) s = (Inr x, s')"
    then obtain w' where m: "sf_CreateTemp fs (dirOf path) (fst s) = (Inr x, w')" and s': "s' = watchW (good k b) w' (snd s)"
      unfolding watchedStore_def store_fs.simps watchS_Inr by blast
    from temp [OF m] p show "intact k n s' \<and> c = b \<and> x \<noteq> path" unfolding s' by (simp add: intact_def good_def)
  next
    fix s e s'
    assume p: "intact k n s \<and> c = b" and "sf_CreateTemp ?W (dirOf path) s = (Inl e, s')"
    then obtain w' where m: "sf_CreateTemp fs (dirOf path) (fst s) = (Inl e, w')" and s': "s' = watchW (good k b) w' (snd s)"
      unfolding watchedStore_def store_fs.simps watchS_Inl by blast
    from temp [OF m] p show "intact k n s'" unfolding s' by (simp add: intact_def good_def)
  qed
  have 4: "holdsR (\<lambda>s. intact k n s \<and> c = b \<and> tmp \<noteq> path) (\<lambda>w. case writeTemp ?W tmp path c w of (r, w') \<Rightarrow> (r, sf_Remove ?W tmp w'))
      (\<lambda>_. written k b) (intact k n)" for c tmp
  proof (rule holdsR_I)
    fix s x s'
    assume p: "intact k n s \<and> c = b \<and> tmp \<noteq> path" and e: "(case writeTemp ?W tmp path c s of (r, w') \<Rightarrow> (r, sf_Remove ?W tmp w')) = (Inr x, s')"
    then obtain u where "writeTemp ?W tmp path b s = (Inr x, u)" "s' = sf_Remove ?W tmp u" by (auto split: prod.splits)
    with p holdsR_Inr [OF writeTemp_holds] removed(2) show "written k b s'" by blast
  next
    fix s e s'
    assume p: "intact k n s \<and> c = b \<and> tmp \<noteq> path" and e: "(case writeTemp ?W tmp path c s of (r, w') \<Rightarrow> (r, sf_Remove ?W tmp w')) = (Inl e, s')"
    then obtain u where "writeTemp ?W tmp path b s = (Inl e, u)" "s' = sf_Remove ?W tmp u" by (auto split: prod.splits)
    with p holdsR_Inl [OF writeTemp_holds] removed(1) show "intact k n s'" by blast
  qed
  show ?thesis unfolding Save_def option.case by (rule holds_bindR [OF 1 holds_bindR [OF 2 holds_bindR [OF 3 4]]])
qed

text \<open>Without a watcher: what a finished \<open>Save\<close> leaves, and what \<open>Load\<close> then finds.\<close>

lemma follows_Save: "follows (Save (watchedStore g fs) js path md) (Save fs js path md)"
proof -
  have "follows (\<lambda>w. case writeTemp (watchedStore g fs) tmp path b w of (r, w') \<Rightarrow> (r, sf_Remove (watchedStore g fs) tmp w'))
      (\<lambda>w. case writeTemp fs tmp path b w of (r, w') \<Rightarrow> (r, sf_Remove fs tmp w'))" for tmp b
  proof (rule followsI)
    fix s r s'
    assume c: "(case writeTemp (watchedStore g fs) tmp path b s of (r, w') \<Rightarrow> (r, sf_Remove (watchedStore g fs) tmp w')) = (r, s')"
    obtain q u where q: "writeTemp (watchedStore g fs) tmp path b s = (q, u)" by (rule prod.exhaust)
    from c q followsD [OF follows_writeTemp q]
    show "(case writeTemp fs tmp path b (fst s) of (r, w') \<Rightarrow> (r, sf_Remove fs tmp w')) = (r, fst s')" by (auto simp: watched_simps)
  qed
  then show ?thesis
    unfolding Save_def
    by (cases md) (auto simp: watched_simps follows_simple intro!: follows_bind follows_wrap follows_watch)
qed

lemma Save_now:
  assumes "Marshal js (withVersion d) = Inr b" and "Save fs js path (Some d) w = (r, w')"
  shows "now w' path = (if isl r then now w path else Some b)"
proof -
  let ?W = "watchedStore (good (kept w path) b) fs"
  obtain r' s where e: "Save ?W js path (Some d) (w, True) = (r', s)" by (rule prod.exhaust)
  have r: "r' = r" "fst s = w'" using followsD [OF follows_Save e] assms(2) by simp_all
  have i: "intact (kept w path) (now w path) (w, True)" by (simp add: intact_def)
  show ?thesis
  proof (cases r')
    case (Inl x)
    from holdsR_Inl [OF Save_holds [OF assms(1)] i e [unfolded Inl]] show ?thesis using r Inl by (auto simp: intact_def)
  next
    case (Inr x)
    from holdsR_Inr [OF Save_holds [OF assms(1)] i e [unfolded Inr]] show ?thesis using r Inr by (auto simp: written_def)
  qed
qed

lemma saved_is_loaded:
  assumes "Marshal js (withVersion d) = Inr b" and "Unmarshal js b = Inr (withVersion d)" and "TrimSpace b \<noteq> []"
    and "Save fs js path (Some d) w = (Inr u, w')"
  shows "Load fs js path w' = Inr (withVersion d)"
proof -
  have "sf_ReadFile fs path w' = FileData b" using Save_now [OF assms(1,4)] read_now by simp
  then show ?thesis using assms(2,3) by (simp add: Load_def withVersion_def)
qed

end

text \<open>
  Two writers. \<open>Update\<close> holds the lock of the file, but a writer that loads first and saves later, outside the lock, writes back what
  it read: whatever was saved in between is gone.
\<close>

context file_store
begin

lemma stale_save_undoes:
  assumes "Load fs js path w = Inr d" and "Update fs js path change w = (Inr u, w1)"
    and "Save fs js path (Some (edit d)) w1 = (Inr v, w2)"
    and "Marshal js (withVersion (edit d)) = Inr b" "Unmarshal js b = Inr (withVersion (edit d))" "TrimSpace b \<noteq> []"
    and "doc_Devices (edit d) = doc_Devices d"
  shows "\<exists>d2. Load fs js path w2 = Inr d2 \<and> doc_Devices d2 = doc_Devices d"
  using saved_is_loaded [OF assms(4-6,3)] assms(7) by (auto simp: withVersion_def)

end

section \<open>A disk\<close>

record disk =
  dk_now :: "string \<Rightarrow> string option"
  dk_kept :: "string \<Rightarrow> string option"
  dk_temps :: nat

definition DefaultPath :: string where "DefaultPath = ''/etc/veilbridge/config.json''"

definition tempName :: "string \<Rightarrow> nat \<Rightarrow> string" where "tempName d n = d @ ''/.config-'' @ nat_digits n @ ''.tmp''"

definition ref_store :: "disk store_fs" where
  "ref_store =
     \<lparr>sf_ReadFile = (\<lambda>p w. case dk_now w p of None \<Rightarrow> FileMissing | Some b \<Rightarrow> FileData b), sf_MkdirAll = (\<lambda>d w. (Inr (), w)),
      sf_CreateTemp = (\<lambda>d w. let t = tempName d (dk_temps w) in
        (Inr t, w\<lparr>dk_now := (dk_now w)(t \<mapsto> []), dk_temps := Suc (dk_temps w)\<rparr>)),
      sf_Chmod = (\<lambda>f w. (Inr (), w)), sf_Write = (\<lambda>f b w. (Inr (), w\<lparr>dk_now := (dk_now w)(f \<mapsto> b)\<rparr>)),
      sf_Sync = (\<lambda>f w. (Inr (), w\<lparr>dk_kept := (dk_kept w)(f := dk_now w f)\<rparr>)), sf_Close = (\<lambda>f w. (Inr (), w)),
      sf_Rename = (\<lambda>a b w. (Inr (), w\<lparr>dk_now := (dk_now w)(a := None, b := dk_now w a), dk_kept := (dk_kept w)(a := None, b := dk_kept w a)\<rparr>)),
      sf_Remove = (\<lambda>f w. w\<lparr>dk_now := (dk_now w)(f := None), dk_kept := (dk_kept w)(f := None)\<rparr>)\<rparr>"

lemma tempName_other: "tempName d n \<noteq> DefaultPath"
proof
  assume "tempName d n = DefaultPath"
  then have "hd (rev (tempName d n)) = hd (rev DefaultPath)" by simp
  then show False by (simp add: tempName_def DefaultPath_def)
qed

interpretation sf: file_store ref_store dk_now dk_kept DefaultPath
  by unfold_locales (auto simp: ref_store_def Let_def tempName_other tempName_other [symmetric] split: option.splits)

text \<open>
  C36. Saving the document is atomic. At every moment while it is being saved a power cut leaves the old file or the whole new one; a
  save that reports an error has changed nothing, one that succeeds has put the new document in place.
\<close>

theorem save_is_atomic:
  assumes "file_store fs now kept path" and "Marshal js (withVersion d) = Inr b"
    and "Save (watchedStore (\<lambda>v. kept v path = kept w path \<or> kept v path = Some b) fs) js path (Some d) (w, True) = (r, s)"
  shows "snd s \<and> now (fst s) path = (if isl r then now w path else Some b)"
proof -
  let ?W = "watchedStore (file_store.good kept path (kept w path) b) fs"
  have g: "(\<lambda>v. kept v path = kept w path \<or> kept v path = Some b) = file_store.good kept path (kept w path) b"
    by (rule ext) (simp add: file_store.good_def [OF assms(1)])
  have i: "file_store.intact now kept path (kept w path) (now w path) (w, True)" by (simp add: file_store.intact_def [OF assms(1)])
  note h = file_store.Save_holds [OF assms(1,2), of "kept w path" "now w path"]
  show ?thesis
  proof (cases r)
    case (Inl e)
    from holdsR_Inl [OF h i assms(3) [unfolded g Inl]] show ?thesis using Inl by (simp add: file_store.intact_def [OF assms(1)])
  next
    case (Inr u)
    from holdsR_Inr [OF h i assms(3) [unfolded g Inr]] show ?thesis using Inr by (simp add: file_store.written_def [OF assms(1)])
  qed
qed

definition demo_codec :: codec where "demo_codec = \<lparr>Marshal = (\<lambda>d. Inr ''{}''), Unmarshal = (\<lambda>b. Inr Default)\<rparr>"

definition demo_disk :: disk where
  "demo_disk = \<lparr>dk_now = [DefaultPath \<mapsto> ''old''], dk_kept = [DefaultPath \<mapsto> ''old''], dk_temps = 0\<rparr>"

lemma demo_saved: "\<exists>s. Save (watchedStore g ref_store) demo_codec DefaultPath (Some Default) (w, f) = (Inr (), s)"
  by (simp add: Save_def writeTemp_def bindR_def wrapR_def liftR_def closing_def watchedStore_def watchS_def ref_store_def Let_def demo_codec_def)

theorem save_is_atomic_witness:
  "\<exists>s. Save (watchedStore (\<lambda>v. dk_kept v DefaultPath = dk_kept demo_disk DefaultPath \<or> dk_kept v DefaultPath = Some ''{}'') ref_store)
    demo_codec DefaultPath (Some Default) (demo_disk, True) = (Inr (), s) \<and> snd s \<and> dk_now (fst s) DefaultPath = Some ''{}''"
proof -
  obtain s where s: "Save (watchedStore (\<lambda>v. dk_kept v DefaultPath = dk_kept demo_disk DefaultPath \<or> dk_kept v DefaultPath = Some ''{}'') ref_store)
    demo_codec DefaultPath (Some Default) (demo_disk, True) = (Inr (), s)"
    using demo_saved by blast
  have m: "Marshal demo_codec (withVersion Default) = Inr ''{}''" by (simp add: demo_codec_def)
  from save_is_atomic [OF sf.file_store_axioms m s] s show ?thesis by simp
qed

end
