(* ===== verification/Net.thy ===== *)
theory Net
  imports Prelude "HOL-Library.Word"
begin

unbundle bit_operations_syntax

text \<open>
  Internet addresses as the sources use them: the part of Go's \<^verbatim>\<open>net/netip\<close> and \<^verbatim>\<open>net\<close> that parses, prints
  and compares addresses and networks. An IPv4 address is a \<open>32 word\<close>, an IPv6 address a \<open>128 word\<close> with
  its zone. \<^verbatim>\<open>netip.Prefix{}\<close> and \<^verbatim>\<open>netip.Addr{}\<close>, the invalid values, are \<open>None\<close>.
\<close>

type_synonym ip4 = "32 word"
type_synonym ip6 = "128 word"

datatype addr = V4 ip4 | V6 ip6 string

fun Is4 :: "addr \<Rightarrow> bool" where "Is4 (V4 a) = True" | "Is4 (V6 a z) = False"
fun BitLen :: "addr \<Rightarrow> nat" where "BitLen (V4 a) = 32" | "BitLen (V6 a z) = 128"
fun Zone :: "addr \<Rightarrow> string" where "Zone (V4 a) = []" | "Zone (V6 a z) = z"

section \<open>Parsing addresses\<close>

text \<open>One octet: decimal digits without a leading zero, at most 255.\<close>

definition octet4 :: "string \<Rightarrow> nat option" where
  "octet4 s = (if all_digits s \<and> (length s > 1 \<longrightarrow> hd s \<noteq> CHR ''0'') \<and> digits_val s \<le> 255 then Some (digits_val s) else None)"

definition ip4_of :: "nat list \<Rightarrow> ip4" where
  "ip4_of os = foldl (\<lambda>a b. a * 256 + of_nat b) 0 os"

definition parseIPv4 :: "string \<Rightarrow> ip4 option" where
  "parseIPv4 s =
     (case those (map octet4 (Split s CHR ''.'')) of None \<Rightarrow> None
      | Some os \<Rightarrow> if length os = 4 then Some (ip4_of os) else None)"

definition is_hex :: "char \<Rightarrow> bool" where "is_hex c \<longleftrightarrow> hexVal c \<noteq> None"

definition hex_val :: "string \<Rightarrow> nat" where
  "hex_val s = foldl (\<lambda>a c. 16 * a + the_default 0 (hexVal c)) 0 s"

text \<open>
  The loop of \<^verbatim>\<open>parseIPv6\<close>: \<open>gs\<close> are the 16-bit fields read so far, \<open>ell\<close> where the double colon stands.
  The result is the fields, the position, and \<open>None\<close> on an error.
\<close>

function ip6_groups :: "string \<Rightarrow> nat list \<Rightarrow> nat option \<Rightarrow> (nat list \<times> nat option) option" where
  "ip6_groups s gs ell =
     (if length gs \<ge> 8 then (if s = [] then Some (gs, ell) else None)
      else
        let ds = takeWhile is_hex s; r = dropWhile is_hex s in
        if length ds > 4 \<or> ds = [] then None
        else if take 1 r = ''.'' then
          (if (ell = None \<and> length gs \<noteq> 6) \<or> length gs > 6 then None
           else case parseIPv4 s of None \<Rightarrow> None
             | Some a \<Rightarrow> Some (gs @ [unat (drop_bit 16 a), unat (take_bit 16 a)], ell))
        else if r = [] then Some (gs @ [hex_val ds], ell)
        else if hd r \<noteq> CHR '':'' \<or> length r = 1 then None
        else if hd (tl r) = CHR '':'' then
          (if ell \<noteq> None then None
           else if tl (tl r) = [] then Some (gs @ [hex_val ds], Some (length gs + 1))
           else ip6_groups (tl (tl r)) (gs @ [hex_val ds]) (Some (length gs + 1)))
        else ip6_groups (tl r) (gs @ [hex_val ds]) ell)"
  by pat_completeness auto
termination
  by (relation "measure (\<lambda>(s, gs, ell). 8 - length gs)") auto

definition ip6_of :: "nat list \<Rightarrow> ip6" where
  "ip6_of gs = foldl (\<lambda>a b. a * 65536 + of_nat b) 0 gs"

definition parseIPv6 :: "string \<Rightarrow> addr option" where
  "parseIPv6 inp =
     (let (s, zone, badzone) = (case Cut inp CHR ''%'' of None \<Rightarrow> (inp, [], False) | Some (a, z) \<Rightarrow> (a, z, z = []))
      in if badzone then None
         else if HasPrefix s ''::'' \<and> length s = 2 then Some (V6 0 zone)
         else case (if HasPrefix s ''::'' then ip6_groups (drop 2 s) [] (Some 0) else ip6_groups s [] None) of
           None \<Rightarrow> None
         | Some (gs, ell) \<Rightarrow>
             (if length gs < 8 then
                (case ell of None \<Rightarrow> None
                 | Some e \<Rightarrow> Some (V6 (ip6_of (take e gs @ replicate (8 - length gs) 0 @ drop e gs)) zone))
              else if ell \<noteq> None then None else Some (V6 (ip6_of gs) zone)))"

definition ParseAddr :: "string \<Rightarrow> addr option" where
  "ParseAddr s =
     (case List.find (\<lambda>c. c \<in> {CHR ''.'', CHR '':'', CHR ''%''}) s of
        None \<Rightarrow> None
      | Some c \<Rightarrow> if c = CHR ''.'' then map_option V4 (parseIPv4 s)
          else if c = CHR '':'' then parseIPv6 s else None)"

section \<open>Printing addresses\<close>

definition octets4 :: "ip4 \<Rightarrow> nat list" where
  "octets4 a = [unat (drop_bit 24 a), unat (take_bit 8 (drop_bit 16 a)), unat (take_bit 8 (drop_bit 8 a)), unat (take_bit 8 a)]"

definition ip4_string :: "ip4 \<Rightarrow> string" where
  "ip4_string a = Join (map nat_digits (octets4 a)) ''.''"

fun hex_string :: "nat \<Rightarrow> string" where
  "hex_string n = (if n < 16 then [hexDigit n] else hex_string (n div 16) @ [hexDigit (n mod 16)])"

declare hex_string.simps [simp del]

definition groups6 :: "ip6 \<Rightarrow> nat list" where
  "groups6 a = map (\<lambda>i. unat (take_bit 16 (drop_bit (112 - 16 * i) a))) [0..<8]"

text \<open>The longest run of at least two zero fields, the first of equals.\<close>

fun zero_run :: "nat list \<Rightarrow> nat" where
  "zero_run [] = 0"
| "zero_run (g # gs) = (if g = 0 then Suc (zero_run gs) else 0)"

definition best_run :: "nat list \<Rightarrow> (nat \<times> nat) option" where
  "best_run gs =
     foldl (\<lambda>b i. let l = zero_run (drop i gs) in
        if l \<ge> 2 \<and> (case b of None \<Rightarrow> True | Some (s, k) \<Rightarrow> k < l) then Some (i, l) else b) None [0..<length gs]"

definition ip6_string :: "ip6 \<Rightarrow> string" where
  "ip6_string a =
     (let gs = groups6 a in
      if take 6 gs = [0, 0, 0, 0, 0, 65535] then ''::ffff:'' @ ip4_string (ucast a)
      else case best_run gs of
        None \<Rightarrow> Join (map hex_string gs) '':''
      | Some (s, l) \<Rightarrow> Join (map hex_string (take s gs)) '':'' @ ''::'' @ Join (map hex_string (drop (s + l) gs)) '':'')"

fun addr_String :: "addr \<Rightarrow> string" where
  "addr_String (V4 a) = ip4_string a"
| "addr_String (V6 a z) = ip6_string a @ (if z = [] then [] else CHR ''%'' # z)"

section \<open>Networks\<close>

record prefix =
  pfx_addr :: addr
  pfx_bits :: nat

definition netmask4 :: "nat \<Rightarrow> ip4" where "netmask4 n = push_bit (32 - n) (drop_bit (32 - n) (-1))"

definition network4 :: "nat \<Rightarrow> ip4 \<Rightarrow> ip4" where "network4 n a = a AND netmask4 n"

definition network6 :: "nat \<Rightarrow> ip6 \<Rightarrow> ip6" where
  "network6 n a = a AND push_bit (128 - n) (drop_bit (128 - n) (-1))"

text \<open>\<^verbatim>\<open>Prefix.Masked\<close>: host bits cleared. (A prefix has no zone.)\<close>

fun maskedAddr :: "nat \<Rightarrow> addr \<Rightarrow> addr" where
  "maskedAddr n (V4 a) = V4 (network4 n a)"
| "maskedAddr n (V6 a z) = V6 (network6 n a) []"

definition Masked :: "prefix \<Rightarrow> prefix" where
  "Masked p = p\<lparr>pfx_addr := maskedAddr (pfx_bits p) (pfx_addr p)\<rparr>"

fun pfx_contains :: "prefix \<Rightarrow> addr \<Rightarrow> bool" where
  "pfx_contains p (V4 a) = (case pfx_addr p of V4 b \<Rightarrow> network4 (pfx_bits p) a = network4 (pfx_bits p) b | _ \<Rightarrow> False)"
| "pfx_contains p (V6 a z) = (z = [] \<and> (case pfx_addr p of V6 b _ \<Rightarrow> network6 (pfx_bits p) a = network6 (pfx_bits p) b | _ \<Rightarrow> False))"

definition prefix_String :: "prefix \<Rightarrow> string" where
  "prefix_String p = addr_String (pfx_addr p) @ ''/'' @ nat_digits (pfx_bits p)"

text \<open>\<^verbatim>\<open>netip.ParsePrefix\<close> cuts at the last slash; no sign and no leading zero in the length.\<close>

definition lastCut :: "string \<Rightarrow> char \<Rightarrow> (string \<times> string) option" where
  "lastCut s sep = map_option (\<lambda>(a, b). (rev b, rev a)) (Cut (rev s) sep)"

definition ParsePrefix :: "string \<Rightarrow> prefix option" where
  "ParsePrefix s =
     (case lastCut s CHR ''/'' of None \<Rightarrow> None
      | Some (ip, bs) \<Rightarrow> (case ParseAddr ip of None \<Rightarrow> None
        | Some a \<Rightarrow>
            if Zone a \<noteq> [] then None
            else if length bs > 1 \<and> \<not> (is_digit (hd bs) \<and> hd bs \<noteq> CHR ''0'') then None
            else (case Atoi bs of None \<Rightarrow> None
              | Some n \<Rightarrow> if n < 0 \<or> n > int (BitLen a) then None else Some \<lparr>pfx_addr = a, pfx_bits = nat n\<rparr>)))"

text \<open>Package \<^verbatim>\<open>net\<close>: \<open>ParseIP\<close> has no zones; \<open>To4\<close> also reads an IPv4 address inside an IPv6 one.\<close>

definition ParseIP :: "string \<Rightarrow> addr option" where
  "ParseIP s = (case ParseAddr s of Some a \<Rightarrow> if Zone a = [] then Some a else None | None \<Rightarrow> None)"

fun To4 :: "addr \<Rightarrow> ip4 option" where
  "To4 (V4 a) = Some a"
| "To4 (V6 a z) = (if drop_bit 32 a = 0xFFFF then Some (ucast a) else None)"

definition ParseIP4 :: "string \<Rightarrow> ip4 option" where
  \<comment> \<open>\<open>ip := net.ParseIP(s); ip != nil && ip.To4() != nil\<close>, and the four bytes\<close>
  "ParseIP4 s = Option.bind (ParseIP s) To4"

text \<open>
  \<^verbatim>\<open>net.IPNet\<close> as \<^verbatim>\<open>net.ParseCIDR\<close> makes it: an IPv6 network inside the mapped IPv4 addresses is an IPv4 network to \<open>To4\<close> and
  \<open>Contains\<close>. \<^verbatim>\<open>dtoi\<close> stops at \<open>0xFFFFFF\<close>, far above any length.
\<close>

datatype ipnet = N4 ip4 nat | N6 ip6 nat

definition ParseCIDR :: "string \<Rightarrow> (addr \<times> ipnet) option" where
  "ParseCIDR s =
     (case Cut s CHR ''/'' of None \<Rightarrow> None
      | Some (ip, m) \<Rightarrow> (case ParseAddr ip of None \<Rightarrow> None
        | Some a \<Rightarrow>
            if Zone a \<noteq> [] \<or> \<not> all_digits m \<or> digits_val m > BitLen a then None
            else let n = digits_val m in
              Some (a, case a of V4 x \<Rightarrow> N4 (network4 n x) n
                | V6 x z \<Rightarrow> (case To4 a of Some y \<Rightarrow> if n \<ge> 96 then N4 (network4 (n - 96) y) (n - 96) else N6 (network6 n x) n
                    | None \<Rightarrow> N6 (network6 n x) n))))"

fun net_To4 :: "ipnet \<Rightarrow> ip4 option" where
  "net_To4 (N4 a n) = Some a"
| "net_To4 (N6 a n) = None"

fun net_Contains :: "ipnet \<Rightarrow> addr \<Rightarrow> bool" where
  "net_Contains (N4 b n) a = (case To4 a of None \<Rightarrow> False | Some x \<Rightarrow> network4 n x = network4 n b)"
| "net_Contains (N6 b n) a = (case To4 a of Some x \<Rightarrow> False
     | None \<Rightarrow> (case a of V4 x \<Rightarrow> False | V6 x z \<Rightarrow> network6 n x = network6 n b))"

text \<open>\<open>IPMask.Size\<close> of four bytes: ones and bits, both 0 when the ones are not contiguous.\<close>

definition mask_Size :: "ip4 \<Rightarrow> nat \<times> nat" where
  "mask_Size m = (case List.find (\<lambda>n. m = netmask4 n) [0..<33] of None \<Rightarrow> (0, 0) | Some n \<Rightarrow> (n, 32))"

section \<open>Laws\<close>

lemma word_step8: "x = drop_bit 8 x * 256 + take_bit 8 (x :: 'a :: len word)"
  using bits_ident [of 8 x] by (simp add: push_bit_eq_mult)

lemma octets4_range: "n \<in> set (octets4 a) \<Longrightarrow> n < 256"
proof -
  have t: "unat (take_bit 8 (x :: ip4)) < 256" for x
    using take_bit_nat_less_exp [of 8 "unat x"] by (simp add: unsigned_take_bit_eq)
  have "unat a < 2 ^ 32" by (rule order.strict_trans2 [OF unsigned_less]) simp
  then have "unat (drop_bit 24 a) < 256"
    unfolding unat_drop_bit_eq by (simp add: drop_bit_eq_div less_mult_imp_div_less)
  with t show "n \<in> set (octets4 a) \<Longrightarrow> n < 256" by (auto simp: octets4_def)
qed

lemma ip4_of_octets4: "ip4_of (octets4 a) = a"
proof -
  have "drop_bit 16 a = drop_bit 24 a * 256 + take_bit 8 (drop_bit 16 a)"
    "drop_bit 8 a = drop_bit 16 a * 256 + take_bit 8 (drop_bit 8 a)" "a = drop_bit 8 a * 256 + take_bit 8 a"
    using word_step8 [of "drop_bit 16 a"] word_step8 [of "drop_bit 8 a"] word_step8 [of a] by simp_all
  then show ?thesis by (simp add: ip4_of_def octets4_def)
qed

lemma octet4_digits: "n < 256 \<Longrightarrow> octet4 (nat_digits n) = Some n"
proof (cases "n = 0")
  case False
  assume "n < 256"
  with hd_nat_digits [OF False] show ?thesis by (simp add: octet4_def)
qed (simp add: octet4_def nat_digits.simps digits_val_def digit_val_def all_digits_def is_digit_def digit_char_def)

lemma dot_not_digit: "CHR ''.'' \<notin> set (nat_digits n)" "CHR ''/'' \<notin> set (nat_digits n)" "CHR '':'' \<notin> set (nat_digits n)" "CHR ''%'' \<notin> set (nat_digits n)"
  using all_digits_nat_digits [of n] by (auto simp: all_digits_def list_all_iff is_digit_def)

lemma parseIPv4_string: "parseIPv4 (ip4_string a) = Some a"
proof -
  have s: "Split (ip4_string a) CHR ''.'' = map nat_digits (octets4 a)"
    unfolding ip4_string_def by (rule Split_Join) (auto simp: octets4_def dot_not_digit)
  have "those (map (octet4 \<circ> nat_digits) os) = Some os" if "\<forall>n \<in> set os. n < 256" for os
    using that by (induction os) (simp_all add: octet4_digits)
  with octets4_range [of _ a] have "those (map octet4 (Split (ip4_string a) CHR ''.'')) = Some (octets4 a)"
    unfolding s by simp
  then show ?thesis
    using ip4_of_octets4 [of a] by (simp add: parseIPv4_def octets4_def)
qed

lemma ParseAddr_ip4: "ParseAddr (ip4_string a) = Some (V4 a)"
proof -
  have "List.find (\<lambda>c. c \<in> {CHR ''.'', CHR '':'', CHR ''%''}) (nat_digits n @ CHR ''.'' # r) = Some CHR ''.''" for n r
    using dot_not_digit [of n] by (intro find_after) auto
  then have "List.find (\<lambda>c. c \<in> {CHR ''.'', CHR '':'', CHR ''%''}) (ip4_string a) = Some CHR ''.''"
    by (simp add: ip4_string_def octets4_def)
  then show ?thesis by (simp add: ParseAddr_def parseIPv4_string)
qed

lemma ParseIP4_string [simp]: "ParseIP4 (ip4_string a) = Some a"
  by (simp add: ParseIP4_def ParseIP_def ParseAddr_ip4)

lemma ip4_string_inj: "ip4_string a = ip4_string b \<Longrightarrow> a = b"
  by (metis ParseIP4_string option.inject)

end
