(* ===== verification/Uci.thy ===== *)
theory Uci
  imports Net "HOL-Library.AList"
begin

text \<open>
  The configuration text and the draft: \<^verbatim>\<open>internal/adapters/openwrt/network_write.go\<close> (words for settings, reading
  and printing \<^verbatim>\<open>uci\<close> output, staging a batch of settings, the uplink's settings, discarding a draft) and
  \<^verbatim>\<open>parseUCISections\<close> of \<^verbatim>\<open>firewall.go\<close>. The programs behind the command seam are the parameter \<open>run\<close>; \<open>None\<close> in its
  place is the adapter without a runner. A Go map whose keys the code lists is an association list with
  distinct keys.
\<close>

type_synonym 'w runner = "string \<Rightarrow> string list \<Rightarrow> 'w \<Rightarrow> string result \<times> 'w"

section \<open>Names\<close>

text \<open>The regular expressions of the package, as predicates.\<close>

definition word_char :: "char \<Rightarrow> bool" where
  "word_char c \<longleftrightarrow> (let n = of_char c :: nat in
     48 \<le> n \<and> n \<le> 57 \<or> 65 \<le> n \<and> n \<le> 90 \<or> 97 \<le> n \<and> n \<le> 122 \<or> n = 95)"

definition sectionName :: "string \<Rightarrow> bool" where
  "sectionName s \<longleftrightarrow> 1 \<le> length s \<and> length s \<le> 32 \<and> list_all word_char s"

definition anonSection :: "string \<Rightarrow> bool" where
  "anonSection s \<longleftrightarrow> (case Cut s CHR ''['' of None \<Rightarrow> False
     | Some (a, b) \<Rightarrow> take 1 a = ''@'' \<and> sectionName (drop 1 a) \<and>
         HasSuffix b '']'' \<and> (let ds = butlast b in all_digits ds \<and> length ds \<le> 6))"

definition keyPart :: "string \<Rightarrow> bool" where
  "keyPart s \<longleftrightarrow> 1 \<le> length s \<and> length s \<le> 64 \<and> word_char (hd s) \<and> list_all (\<lambda>c. word_char c \<or> c = CHR ''-'') (tl s)"

definition uciKey :: "string \<Rightarrow> bool" where
  "uciKey s \<longleftrightarrow> (case Split s CHR ''.'' of
     c # ps \<Rightarrow> sectionName c \<and> (length ps = 1 \<or> length ps = 2) \<and> list_all keyPart ps | [] \<Rightarrow> False)"

definition anonInternal :: "string \<Rightarrow> bool" where
  "anonInternal s \<longleftrightarrow> length s = 9 \<and> HasPrefix s ''cfg'' \<and>
     list_all (\<lambda>c. is_digit c \<or> c \<in> set ''abcdef'') (drop 3 s)"

section \<open>Words for settings\<close>

record phrase =
  ph_key :: string
  ph_words :: string

abbreviation ph :: "string \<Rightarrow> string \<Rightarrow> phrase" where "ph k w \<equiv> \<lparr>ph_key = k, ph_words = w\<rparr>"

definition optionLabels :: "(string \<times> string) list" where
  "optionLabels = [
    (''network.uplink.proto'', ''Internet connection type''),
    (''network.uplink.ipaddr'', ''Address on the internet side''),
    (''network.uplink.netmask'', ''Network mask''),
    (''network.uplink.gateway'', ''Gateway''),
    (''network.uplink.dns'', ''DNS servers''),
    (''network.uplink.peerdns'', ''Use the provider'' @ [quote] @ ''s DNS servers''),
    (''network.uplink.username'', ''Provider login''),
    (''network.uplink.password'', ''Provider password''),
    (''network.lan.proto'', ''How the local network address is set''),
    (''network.lan.ipaddr'', ''Address of this router on the local network''),
    (''network.lan.netmask'', ''Local network mask''),
    (''network.lan.dns'', ''DNS servers for the local network''),
    (''network.lan.ip6assign'', ''IPv6 addresses of the local network''),
    (''dhcp.lan.start'', ''First address handed out''),
    (''dhcp.lan.limit'', ''Last address handed out''),
    (''dhcp.lan.leasetime'', ''How long an address is given for''),
    (''dhcp.lan.ignore'', ''Hand out addresses on the local network''),
    (''dhcp.host.mac'', ''Device''),
    (''dhcp.host.ip'', ''Reserved address''),
    (''dhcp.host.name'', ''Device name''),
    (''firewall.redirect.name'', ''Port forward name''),
    (''firewall.redirect.enabled'', ''Port forward is on''),
    (''firewall.redirect.proto'', ''Protocols''),
    (''firewall.redirect.src'', ''Connections from''),
    (''firewall.redirect.src_dport'', ''Port on the router''),
    (''firewall.redirect.dest'', ''Forwarded into''),
    (''firewall.redirect.dest_ip'', ''Device address''),
    (''firewall.redirect.dest_port'', ''Port on the device''),
    (''firewall.redirect.target'', ''Kind of forward''),
    (''firewall.rule.name'', ''Rule name''),
    (''firewall.rule.enabled'', ''Rule is on''),
    (''firewall.rule.src'', ''Traffic from''),
    (''firewall.rule.dest'', ''Traffic to''),
    (''firewall.rule.proto'', ''Protocols''),
    (''firewall.rule.dest_port'', ''Ports''),
    (''firewall.rule.target'', ''Action''),
    (''firewall.rule.family'', ''IP version''),
    (''firewall.rule.position'', ''Place in the list''),
    (''network.route.name'', ''Route name''),
    (''network.route.disabled'', ''Route is on''),
    (''network.route.target'', ''Destination''),
    (''network.route.netmask'', ''Destination mask''),
    (''network.route.gateway'', ''Gateway''),
    (''network.route.interface'', ''Connection''),
    (''network.route.metric'', ''Metric''),
    (''wireless.radio.disabled'', ''Wi-Fi band is on''),
    (''wireless.radio.channel'', ''Channel''),
    (''wireless.radio.htmode'', ''Channel width''),
    (''wireless.radio.country'', ''Wi-Fi country''),
    (''wireless.wifiNet.ssid'', ''Network name''),
    (''wireless.wifiNet.key'', ''Wi-Fi password''),
    (''wireless.wifiNet.encryption'', ''Network security'')]"

definition configLabels :: "(string \<times> string) list" where
  "configLabels = [
    (''network'', ''Network setting''),
    (''firewall'', ''Firewall setting''),
    (''dhcp'', ''Local network setting''),
    (''wireless'', ''Wi-Fi setting''),
    (''system'', ''Device setting'')]"

definition sectionLabels :: "(string \<times> string) list" where
  "sectionLabels = [
    (''network'', ''Network connection''),
    (''firewall'', ''Firewall rule''),
    (''dhcp'', ''Address handout''),
    (''wireless'', ''Wi-Fi network'')]"

definition entryRoles :: "(string \<times> phrase) list" where
  "entryRoles = [
    (''host'', ph ''dhcp.host.section'' ''Reserved address''),
    (''redirect'', ph ''firewall.redirect.section'' ''Port forward''),
    (''rule'', ph ''firewall.rule.section'' ''Firewall rule''),
    (''route'', ph ''network.route.section'' ''Static route''),
    (''noInternet'', ph ''firewall.noInternet.section'' ''No internet for a device''),
    (''schedule'', ph ''firewall.schedule.section'' ''Internet schedule''),
    (''guest'', ph ''wireless.guest.section'' ''Guest network'')]"

definition rulePhrases :: "(string \<times> phrase) list" where
  "rulePhrases = [
    (''accept/router'', ph ''firewall.rule.acceptInput'' ''Allow access to the router''),
    (''reject/router'', ph ''firewall.rule.rejectInput'' ''Block access to the router''),
    (''drop/router'', ph ''firewall.rule.dropInput'' ''Block access to the router without answering''),
    (''accept/through'', ph ''firewall.rule.acceptForward'' ''Allow traffic through the router''),
    (''reject/through'', ph ''firewall.rule.rejectForward'' ''Block traffic through the router''),
    (''drop/through'', ph ''firewall.rule.dropForward'' ''Block traffic through the router without answering'')]"

definition describe :: "string \<Rightarrow> string \<Rightarrow> string \<Rightarrow> phrase" where
  "describe config role option =
     (if option = [] then
        (case map_of entryRoles role of Some p \<Rightarrow> p
         | None \<Rightarrow> (case map_of sectionLabels config of
             Some l \<Rightarrow> ph (config @ ''.section'') l
           | None \<Rightarrow> ph ''section'' ''Configuration section''))
      else
        (let key = config @ ''.'' @ role @ ''.'' @ option in
         case map_of optionLabels key of Some l \<Rightarrow> ph key l
         | None \<Rightarrow> (case map_of configLabels config of
             Some l \<Rightarrow> ph (config @ ''.setting'') l
           | None \<Rightarrow> ph ''setting'' ''System setting'')))"

definition LabelKeys :: "string list" where
  "LabelKeys = sort ([''section'', ''setting''] @ map (\<lambda>(_, p). ph_key p) entryRoles @ map (\<lambda>(_, p). ph_key p) rulePhrases @
     map fst optionLabels @ map (\<lambda>(c, _). c @ ''.section'') sectionLabels @ map (\<lambda>(c, _). c @ ''.setting'') configLabels)"

definition action :: "string \<Rightarrow> string" where
  "action target = (let t = ToUpper target in
     if t = ''REJECT'' then ''reject'' else if t = ''DROP'' then ''drop'' else ''accept'')"

definition ruleAction :: "string \<Rightarrow> string" where
  "ruleAction target = (if ToUpper target \<in> {[], ''ACCEPT'', ''REJECT'', ''DROP''} then action target else ''other'')"

definition rulePhrase :: "string \<Rightarrow> string \<Rightarrow> phrase" where
  "rulePhrase target dest =
     (let way = (if dest = [] then ''router'' else ''through'') in
      case map_of rulePhrases (ruleAction target @ ''/'' @ way) of Some p \<Rightarrow> p
      | None \<Rightarrow> the_default (ph [] []) (map_of entryRoles ''rule''))"

definition secretOption :: "string \<Rightarrow> bool" where
  "secretOption option \<longleftrightarrow> option = ''password'' \<or> option = ''key''"

definition dangerousConfig :: "string \<Rightarrow> bool" where
  "dangerousConfig config \<longleftrightarrow> config = ''network'' \<or> config = ''firewall'' \<or> config = ''wireless''"

text \<open>Four bullets (U+2022) in UTF-8.\<close>

definition bullets :: string where
  "bullets = concat (replicate 4 [CHR 0xE2, CHR 0x80, CHR 0xA2])"

definition redact :: "bool \<Rightarrow> string \<Rightarrow> string" where
  "redact secret value = (if \<not> secret then value else if value = [] then [] else bullets)"

definition firstNonEmpty :: "string list \<Rightarrow> string" where
  "firstNonEmpty vs = (case List.find (\<lambda>v. v \<noteq> []) vs of None \<Rightarrow> [] | Some v \<Rightarrow> v)"

definition entrySubject :: "string \<Rightarrow> string \<Rightarrow> string" where
  "entrySubject name words = (if name \<noteq> [] then name else words)"

record config_change =
  Label :: string
  LabelKey :: string
  From_value :: string
  To_value :: string
  Dangerous :: bool
  Detail :: string
  Subject :: string

definition withSubject :: "config_change list \<Rightarrow> string \<Rightarrow> config_change list" where
  "withSubject changes subject = map (\<lambda>c. c\<lparr>Subject := subject\<rparr>) changes"

section \<open>Reading and printing\<close>

fun odd_items :: "string list \<Rightarrow> string list" where
  "odd_items (a # b # ps) = b # odd_items ps"
| "odd_items ps = []"

definition unquoteUCI :: "string \<Rightarrow> string" where
  "unquoteUCI s =
     (let v = TrimSpace s in
      if \<not> Contains v [quote] then v
      else Join (filter (\<lambda>i. i \<noteq> []) (odd_items (Split v quote))) '' '')"

definition isDigits :: "string \<Rightarrow> bool" where "isDigits s \<longleftrightarrow> s \<noteq> [] \<and> list_all is_digit s"

record staged_edit =
  e_key :: string
  e_config :: string
  e_section :: string
  e_option :: string
  e_reorder :: bool

definition parseStagedLine :: "string \<Rightarrow> staged_edit option" where
  "parseStagedLine l =
     (let line = TrimSpace l in
      if line = [] then None
      else let removal = HasPrefix line ''-'';
               line' = TrimPrefix (TrimPrefix line ''-'') ''+'';
               cut = Cut line' CHR ''=''
           in if cut = None \<and> \<not> removal then None
              else let (k, value) = (case cut of None \<Rightarrow> (line', []) | Some (a, b) \<Rightarrow> (a, b));
                       key = TrimSuffix k ''+'';
                       parts = Split key CHR ''.''
                   in if length parts < 2 then None
                      else let option = (if length parts \<ge> 3 then last parts else [])
                           in Some \<lparr>e_key = key, e_config = parts ! 0, e_section = parts ! 1, e_option = option,
                                e_reorder = (option = [] \<and> \<not> removal \<and> isDigits (unquoteUCI value))\<rparr>)"

definition parseStagedEdits :: "string \<Rightarrow> staged_edit list" where
  "parseStagedEdits out = List.map_filter parseStagedLine (Split out newline)"

definition wholeEntryOptions :: "(string \<times> string list) list" where
  "wholeEntryOptions = [(''dhcp'', [''mac'', ''ip'', ''name'']),
     (''firewall'', [''weekdays'', ''start_time'', ''stop_time'', ''enabled'',
        ''name'', ''src'', ''dest'', ''proto'', ''dest_port'', ''target'', ''family'', ''src_mac'', ''src_dport'', ''dest_ip''])]"

definition routeEntryOptions :: "string list" where
  "routeEntryOptions = [''name'', ''target'', ''netmask'', ''gateway'', ''interface'']"

text \<open>\<open>add\<close> of \<open>keysOf\<close>: nothing empty, nothing twice.\<close>

definition addKey :: "string \<Rightarrow> string list \<Rightarrow> string list" where
  "addKey k out = (if k = [] \<or> k \<in> set out then out else out @ [k])"

definition keysOfEdit :: "staged_edit \<Rightarrow> string list" where
  "keysOfEdit e =
     (let sec = e_config e @ ''.'' @ e_section e in
      [e_key e, sec] @
      map (\<lambda>o'. sec @ ''.'' @ o') (the_default [] (map_of wholeEntryOptions (e_config e))) @
      (if e_config e = ''network'' \<and> anonInternal (e_section e) then map (\<lambda>o'. sec @ ''.'' @ o') routeEntryOptions else []))"

definition keysOf :: "staged_edit list \<Rightarrow> string \<Rightarrow> string list" where
  "keysOf edits config = fold addKey (concat (map keysOfEdit (filter (\<lambda>e. e_config e = config) edits))) []"

definition configsOf :: "staged_edit list \<Rightarrow> string list" where
  "configsOf edits = fold addKey (map e_config edits) []"

definition parseShowLine :: "string \<Rightarrow> string \<Rightarrow> (string \<times> string) option" where
  "parseShowLine config l =
     (case Cut (TrimSpace l) CHR ''='' of None \<Rightarrow> None
      | Some (key, value) \<Rightarrow> (case Cut key CHR ''.'' of None \<Rightarrow> None
        | Some (_, rest) \<Rightarrow> Some (config @ ''.'' @ rest, unquoteUCI value)))"

definition parseUCIShow :: "string \<Rightarrow> string \<Rightarrow> (string \<times> string) list" where
  "parseUCIShow config out =
     fold (\<lambda>(k, v) m. AList.update k v m) (List.map_filter (parseShowLine config) (Split out newline)) []"

definition showOf :: "(string \<times> string) list \<Rightarrow> string" where
  "showOf values = concat (map (\<lambda>k. k @ ''='' @ [quote] @ the_default [] (map_of values k) @ [quote] @ [newline])
     (sort (map fst values)))"

record uci_section =
  sec_id :: string
  sec_kind :: string
  sec_options :: "(string \<times> string) list"

definition hasSection :: "string \<Rightarrow> uci_section list \<Rightarrow> bool" where
  "hasSection i secs \<longleftrightarrow> list_ex (\<lambda>s. sec_id s = i) secs"

definition onSection :: "string \<Rightarrow> (uci_section \<Rightarrow> uci_section) \<Rightarrow> uci_section list \<Rightarrow> uci_section list" where
  "onSection i f secs = map (\<lambda>s. if sec_id s = i then f s else s) secs"

definition sectionLine :: "string \<Rightarrow> uci_section list \<Rightarrow> uci_section list" where
  "sectionLine l secs =
     (case Cut (TrimSpace l) CHR ''='' of None \<Rightarrow> secs
      | Some (key, value) \<Rightarrow> (case SplitN 3 key CHR ''.'' of
          [c, i] \<Rightarrow>
            onSection i (\<lambda>s. s\<lparr>sec_kind := unquoteUCI value\<rparr>)
              (if hasSection i secs then secs else secs @ [\<lparr>sec_id = i, sec_kind = [], sec_options = []\<rparr>])
        | [c, i, opt] \<Rightarrow> onSection i (\<lambda>s. s\<lparr>sec_options := AList.update opt (unquoteUCI value) (sec_options s)\<rparr>) secs
        | _ \<Rightarrow> secs))"

definition parseUCISections :: "string \<Rightarrow> uci_section list" where
  "parseUCISections out = fold sectionLine (Split out newline) []"

definition missingKeys :: "(string \<times> string) list \<Rightarrow> string list \<Rightarrow> string list" where
  "missingKeys values want = filter (\<lambda>k. map_of values k = None \<and> uciKey k) want"

text \<open>What a section is to the panel. The prefix of the panel's own rules is \<^verbatim>\<open>isNoInternetSection\<close>.\<close>

definition isNoInternetSection :: "string \<Rightarrow> bool" where
  "isNoInternetSection section = HasPrefix section ''vb_noinet_''"

definition lanSection :: string where "lanSection = ''lan''"

definition roleOf :: "string \<Rightarrow> string \<Rightarrow> string \<Rightarrow> string \<Rightarrow> string" where
  "roleOf config section sectionType uplink =
     (if sectionType = ''host'' then ''host''
      else if config = ''firewall'' \<and> sectionType = ''redirect'' then ''redirect''
      else if config = ''firewall'' \<and> sectionType = ''rule'' \<and> isNoInternetSection section then ''noInternet''
      else if config = ''firewall'' \<and> sectionType = ''rule'' then ''rule''
      else if config = ''network'' \<and> (sectionType = ''route'' \<or> sectionType = ''route6'') then ''route''
      else if config = ''wireless'' \<and> sectionType = ''wifi-device'' then ''radio''
      else if config = ''wireless'' \<and> sectionType = ''wifi-iface'' then ''wifiNet''
      else if section = lanSection then ''lan''
      else if config = ''network'' \<and> uplink \<noteq> [] \<and> section = uplink then ''uplink''
      else if config = ''network'' \<and> section = ''wan'' then ''uplink''
      else [])"

section \<open>Asking and staging\<close>

definition uciGet :: "'w runner \<Rightarrow> string \<Rightarrow> 'w \<Rightarrow> string \<times> 'w" where
  "uciGet run key w = (case run ''uci'' [''-q'', ''get'', key] w of
     (Inl e, w') \<Rightarrow> ([], w') | (Inr out, w') \<Rightarrow> (TrimSpace out, w'))"

definition uciSet :: "'w runner \<Rightarrow> string \<Rightarrow> string \<Rightarrow> 'w \<Rightarrow> error option \<times> 'w" where
  "uciSet run key value w = (case run ''uci'' [''set'', key @ ''='' @ value] w of
     (Inl e, w') \<Rightarrow> (Some (Failed ''stage''), w') | (Inr out, w') \<Rightarrow> (None, w'))"

definition uciDelete :: "'w runner \<Rightarrow> string \<Rightarrow> 'w \<Rightarrow> error option \<times> 'w" where
  "uciDelete run key w = (case run ''uci'' [''delete'', key] w of
     (Inl e, w') \<Rightarrow> (Some (Failed ''stage removal''), w') | (Inr out, w') \<Rightarrow> (None, w'))"

definition discardConfig :: "'w runner \<Rightarrow> string \<Rightarrow> 'w \<Rightarrow> error option \<times> 'w" where
  "discardConfig run config w =
     (if \<not> sectionName config then (Some (Failed ''not a configuration name''), w)
      else case run ''uci'' [''revert'', config] w of
        (Inl e, w') \<Rightarrow> (Some (Failed ''discard staged changes''), w') | (Inr out, w') \<Rightarrow> (None, w'))"

definition revertKey :: "'w runner \<Rightarrow> string \<Rightarrow> 'w \<Rightarrow> error option \<times> 'w" where
  "revertKey run key w =
     (if \<not> uciKey key then (Some (Failed ''not a configuration key''), w)
      else case run ''uci'' [''revert'', key] w of
        (Inl e, w') \<Rightarrow> (Some (Failed ''discard staged''), w') | (Inr out, w') \<Rightarrow> (None, w'))"

definition draftConfigs :: "string list" where
  "draftConfigs = [''network'', ''dhcp'', ''firewall''] @ [''wireless'']"

fun discardAll :: "'w runner \<Rightarrow> string list \<Rightarrow> 'w \<Rightarrow> error option \<times> 'w" where
  "discardAll run [] w = (None, w)"
| "discardAll run (c # cs) w = (case discardConfig run c w of
     (Some e, w') \<Rightarrow> (Some e, w') | (None, w') \<Rightarrow> discardAll run cs w')"

definition DiscardStaged :: "'w runner option \<Rightarrow> 'w \<Rightarrow> error option \<times> 'w" where
  "DiscardStaged mrun w = (case mrun of None \<Rightarrow> (Some (Failed ''not implemented''), w)
     | Some run \<Rightarrow> discardAll run draftConfigs w)"

definition getOne :: "'w runner \<Rightarrow> string list \<Rightarrow> 'w \<Rightarrow> string option \<times> 'w" where
  "getOne run args w = (case run ''uci'' args w of
     (Inl e, w') \<Rightarrow> (None, w') | (Inr out, w') \<Rightarrow> (Some (unquoteUCI (TrimSpace out)), w'))"

fun fillMissing :: "'w runner \<Rightarrow> string list \<Rightarrow> (string \<times> string) list \<Rightarrow> 'w \<Rightarrow> (string \<times> string) list \<times> 'w" where
  "fillMissing run [] values w = (values, w)"
| "fillMissing run (k # ks) values w = (case getOne run [''-q'', ''get'', k] w of
     (None, w') \<Rightarrow> fillMissing run ks values w'
   | (Some v, w') \<Rightarrow> fillMissing run ks (AList.update k v values) w')"

definition stagedValues :: "'w runner \<Rightarrow> string \<Rightarrow> string list \<Rightarrow> 'w \<Rightarrow> (string \<times> string) list result \<times> 'w" where
  "stagedValues run config want w =
     (if \<not> sectionName config then (Inl (Failed ''not a configuration name''), w)
      else case run ''uci'' [''-q'', ''show'', config] w of
        (Inl e, w') \<Rightarrow> (Inl (Failed ''read staged''), w')
      | (Inr out, w') \<Rightarrow>
          (let values = parseUCIShow config out; (vs, w'') = fillMissing run (missingKeys values want) values w'
           in (Inr vs, w'')))"

record setting =
  s_key :: string
  s_value :: string
  s_label :: phrase
  s_secret :: bool
  s_remove :: bool
  s_sameAsAbsent :: string
  s_shown :: string
  s_shownBefore :: string

definition setting0 :: setting where
  "setting0 = \<lparr>s_key = [], s_value = [], s_label = ph [] [], s_secret = False, s_remove = False,
     s_sameAsAbsent = [], s_shown = [], s_shownBefore = []\<rparr>"

definition isNoop :: "setting \<Rightarrow> string \<Rightarrow> bool" where
  "isNoop s before \<longleftrightarrow>
     (s_remove s \<and> (before = [] \<or> (s_sameAsAbsent s \<noteq> [] \<and> before = s_sameAsAbsent s))) \<or>
     (\<not> s_remove s \<and> before = s_value s)"

definition changeRow :: "string \<Rightarrow> string \<Rightarrow> setting \<Rightarrow> string \<Rightarrow> config_change" where
  "changeRow config key s before =
     \<lparr>Label = ph_words (s_label s), LabelKey = ph_key (s_label s),
      From_value = (if s_shownBefore s \<noteq> [] then s_shownBefore s else redact (s_secret s) before),
      To_value = (if s_remove s then [] else if s_shown s \<noteq> [] then s_shown s else redact (s_secret s) (s_value s)),
      Dangerous = dangerousConfig config, Detail = key, Subject = []\<rparr>"

definition stageKey :: "string \<Rightarrow> string \<Rightarrow> string \<Rightarrow> string" where
  "stageKey config section k = config @ ''.'' @ section @ ''.'' @ k"

definition writeSetting :: "'w runner \<Rightarrow> setting \<Rightarrow> string \<Rightarrow> 'w \<Rightarrow> error option \<times> 'w" where
  "writeSetting run s key w = (if s_remove s then uciDelete run key w else uciSet run key (s_value s) w)"

fun stageSets :: "'w runner \<Rightarrow> string \<Rightarrow> string \<Rightarrow> setting list \<Rightarrow> config_change list \<Rightarrow> 'w \<Rightarrow> config_change list result \<times> 'w" where
  "stageSets run config section [] changes w = (Inr changes, w)"
| "stageSets run config section (s # ss) changes w =
     (case uciGet run (stageKey config section (s_key s)) w of (before, w1) \<Rightarrow>
        if isNoop s before then stageSets run config section ss changes w1
        else case writeSetting run s (stageKey config section (s_key s)) w1 of
           (Some e, w2) \<Rightarrow> (Inl e, snd (discardConfig run config w2))
         | (None, w2) \<Rightarrow> stageSets run config section ss
             (changes @ [changeRow config (stageKey config section (s_key s)) s before]) w2)"

definition stage :: "'w runner \<Rightarrow> string \<Rightarrow> string \<Rightarrow> setting list \<Rightarrow> 'w \<Rightarrow> config_change list result \<times> 'w" where
  "stage run config section sets w =
     (if \<not> sectionName section \<and> \<not> anonSection section then (Inl (Failed ''not a valid section name''), w)
      else stageSets run config section sets [] w)"

section \<open>The uplink\<close>

record wan_config =
  wan_Interface :: string
  wan_Proto :: string
  wan_Address :: string
  wan_Netmask :: string
  wan_Gateway :: string
  wan_DNS :: "string list"
  wan_Username :: string
  wan_Password :: string

definition uplinkSetting :: "string \<Rightarrow> string \<Rightarrow> setting" where
  "uplinkSetting key value = setting0\<lparr>s_key := key, s_value := value, s_label := describe ''network'' ''uplink'' key\<rparr>"

definition validNetmask :: "string \<Rightarrow> error option" where
  "validNetmask m = (case ParseIP4 m of None \<Rightarrow> Some (Failed ''not a network mask'')
     | Some a \<Rightarrow> (case mask_Size a of (ones, bits) \<Rightarrow>
         if bits = 0 \<or> ones = 0 then Some (Failed ''not a contiguous network mask'') else None))"

definition appendDNS :: "setting list \<Rightarrow> string list \<Rightarrow> setting list result" where
  "appendDNS out dns =
     (if dns = [] then Inr out
      else if list_ex (\<lambda>d. ParseIP d = None) dns then Inl (Refused ''dns'' ''not a DNS server address'')
      else Inr (out @ [uplinkSetting ''dns'' (Join dns '' '')]))"

definition wanSettings :: "wan_config \<Rightarrow> setting list result" where
  "wanSettings cfg =
     (if wan_Proto cfg = ''dhcp'' then
        (let out = [uplinkSetting ''proto'' ''dhcp''] in
         if wan_DNS cfg = [] then
           Inr (out @ [(uplinkSetting ''peerdns'' [])\<lparr>s_remove := True, s_sameAsAbsent := ''1''\<rparr>,
                       (uplinkSetting ''dns'' [])\<lparr>s_remove := True\<rparr>])
         else appendDNS (out @ [uplinkSetting ''peerdns'' ''0'']) (wan_DNS cfg))
      else if wan_Proto cfg = ''static'' then
        (if ParseIP4 (wan_Address cfg) = None then Inl (Refused ''address'' ''not an IPv4 address'')
         else case validNetmask (wan_Netmask cfg) of Some e \<Rightarrow> Inl (the (Refuse ''netmask'' (Some e)))
         | None \<Rightarrow>
             if wan_Gateway cfg \<noteq> [] \<and> ParseIP (wan_Gateway cfg) = None then Inl (Refused ''gateway'' ''not a gateway address'')
             else appendDNS ([uplinkSetting ''proto'' ''static'', uplinkSetting ''ipaddr'' (wan_Address cfg),
                    uplinkSetting ''netmask'' (wan_Netmask cfg)] @
                    (if wan_Gateway cfg \<noteq> [] then [uplinkSetting ''gateway'' (wan_Gateway cfg)] else [])) (wan_DNS cfg))
      else if wan_Proto cfg = ''pppoe'' then
        (if TrimSpace (wan_Username cfg) = [] then Inl (Refused ''username'' ''PPPoE needs a user name'')
         else appendDNS ([uplinkSetting ''proto'' ''pppoe'', uplinkSetting ''username'' (wan_Username cfg)] @
                (if wan_Password cfg \<noteq> [] then [(uplinkSetting ''password'' (wan_Password cfg))\<lparr>s_secret := True\<rparr>] else []))
                (wan_DNS cfg))
      else Inl (Refused ''proto'' ''unknown connection type''))"

text \<open>\<open>uplink\<close> is what \<^verbatim>\<open>WANInfo\<close> identifies, an answer of the network daemon.\<close>

definition StageWAN :: "'w runner option \<Rightarrow> string result \<Rightarrow> wan_config \<Rightarrow> 'w \<Rightarrow> config_change list result \<times> 'w" where
  "StageWAN mrun uplink cfg w =
     (case mrun of None \<Rightarrow> (Inl (Failed ''not implemented''), w)
      | Some run \<Rightarrow>
          (case (if wan_Interface cfg = [] then uplink else Inr (wan_Interface cfg)) of
             Inl e \<Rightarrow> (Inl (Failed ''no interface given and no uplink found''), w)
           | Inr iface \<Rightarrow>
               if \<not> sectionName iface then (Inl (Refused ''interface'' ''not a valid interface name''), w)
               else (case wanSettings cfg of Inl e \<Rightarrow> (Inl e, w)
                 | Inr sets \<Rightarrow> stage run ''network'' iface sets w)))"

section \<open>Words are complete\<close>

lemma map_of_fst: "map_of xs k = Some v \<Longrightarrow> k \<in> fst ` set xs"
  by (metis map_of_SomeD image_eqI fst_conv)

text \<open>
  C16. Every phrase the panel can be sent has a translation key from the fixed list: whatever configuration file,
  role and option a setting has, and for every whole rule, the key \<open>describe\<close> or \<open>rulePhrase\<close> gives is one of \<open>LabelKeys\<close>.
\<close>

theorem describe_key_listed:
  "ph_key (describe config role option) \<in> set LabelKeys \<and> ph_key (rulePhrase target dest) \<in> set LabelKeys"
proof
  have e: "ph_key p \<in> (\<lambda>(_, p). ph_key p) ` set tab" if "map_of tab r = Some p" for r p and tab :: "(string \<times> phrase) list"
    using map_of_SomeD [OF that] by force
  have l: "c @ x \<in> (\<lambda>(c, _). c @ x) ` set tab" if "map_of tab c = Some v" for c x v and tab :: "(string \<times> string) list"
    using map_of_SomeD [OF that] by force
  have s: "set LabelKeys = {''section'', ''setting''} \<union> (\<lambda>(_, p). ph_key p) ` set entryRoles \<union> (\<lambda>(_, p). ph_key p) ` set rulePhrases \<union>
      fst ` set optionLabels \<union> (\<lambda>(c, _). c @ ''.section'') ` set sectionLabels \<union> (\<lambda>(c, _). c @ ''.setting'') ` set configLabels"
    unfolding LabelKeys_def set_sort by auto
  show "ph_key (describe config role option) \<in> set LabelKeys"
    unfolding describe_def s Let_def by (auto dest: e l map_of_fst split: option.splits)
  have r: "map_of entryRoles ''rule'' = Some (ph ''firewall.rule.section'' ''Firewall rule'')" by (simp add: entryRoles_def)
  show "ph_key (rulePhrase target dest) \<in> set LabelKeys"
    unfolding rulePhrase_def s Let_def using r e [OF r] by (auto simp: the_default_def dest: e split: option.splits)
qed

section \<open>Printing and reading back\<close>

lemma Contains_char: "Contains s [c] \<longleftrightarrow> c \<in> set s"
  by (induction s) (auto simp: HasPrefix_def)

lemma quote_not_space: "\<not> is_space quote" by (simp add: is_space_def)

lemma unquote_quoted:
  assumes "quote \<notin> set v"
  shows "unquoteUCI ([quote] @ v @ [quote]) = v"
proof -
  have t: "TrimSpace ([quote] @ v @ [quote]) = [quote] @ v @ [quote]"
    by (rule TrimSpace_id) (simp_all add: quote_not_space)
  have "Split ([quote] @ v @ [quote]) quote = [[], v, []]"
    using Split_append [of quote "[]" "v @ [quote]"] Split_append [OF assms, of "[]"] by simp
  then show ?thesis unfolding unquoteUCI_def t Let_def by (simp add: Contains_char)
qed

lemma odd_items_hd: "odd_items (a # xs) = odd_items (b # xs)"
  by (cases xs) auto

text \<open>A printed value without a quote reads back; so does a list of words, which is shown as one line.\<close>

lemma unquote_list:
  assumes "\<forall>v \<in> set vs. v \<noteq> [] \<and> quote \<notin> set v" and "vs \<noteq> []"
  shows "unquoteUCI (Join (map (\<lambda>v. [quote] @ v @ [quote]) vs) '' '') = Join vs '' ''"
proof -
  let ?q = "\<lambda>v. [quote] @ v @ [quote]"
  let ?s = "Join (map ?q vs) '' ''"
  have items: "filter (\<lambda>i. i \<noteq> []) (odd_items (Split (Join (map ?q vs) '' '') quote)) = vs"
    if "\<forall>v \<in> set vs. v \<noteq> [] \<and> quote \<notin> set v" "vs \<noteq> []" for vs
    using that
  proof (induction vs)
    case (Cons v vs)
    show ?case
    proof (cases "vs = []")
      case True
      have "Split (?q v) quote = [[], v, []]"
        using Cons(2) Split_append [of quote "[]" "v @ [quote]"] Split_append [of quote v "[]"] by simp
      with True Cons(2) show ?thesis by simp
    next
      case False
      then obtain u us where vs: "vs = u # us" by (cases vs) auto
      have rest: "Join (map ?q vs) '' '' = quote # (u @ [quote] @ (if us = [] then [] else '' '' @ Join (map ?q us) '' ''))"
        using vs by (auto simp: Join_Cons)
      have "Split (Join (map ?q (v # vs)) '' '') quote = [] # v # Split ('' '' @ Join (map ?q vs) '' '') quote"
        using False Cons(2) Split_append [of quote "[]"] Split_append [of quote v] by (simp add: Join_Cons)
      also have "Split ('' '' @ Join (map ?q vs) '' '') quote = '' '' # tl (Split (Join (map ?q vs) '' '') quote)"
        unfolding rest using Split_append [of quote "'' ''"] by simp
      finally have "odd_items (Split (Join (map ?q (v # vs)) '' '') quote) = v # odd_items (Split (Join (map ?q vs) '' '') quote)"
        unfolding rest using Split_append [of quote "[]"]
        by (auto simp: rest intro!: odd_items_hd)
      with Cons False show ?thesis by simp
    qed
  qed simp
  have "vs \<noteq> [] \<longrightarrow> hd ?s = quote \<and> last ?s = quote \<and> ?s \<noteq> []"
  proof (induction vs)
    case (Cons v vs)
    then show ?case by (cases "vs = []") (simp_all add: Join_Cons)
  qed simp
  with assms(2) have t: "TrimSpace ?s = ?s" "Contains ?s [quote]"
    by (auto simp: quote_not_space Contains_char intro!: TrimSpace_id) (metis hd_in_set)
  show ?thesis unfolding unquoteUCI_def t(1) Let_def using t(2) items [OF assms] by simp
qed

lemma Split_lines: "\<forall>l \<in> set ls. newline \<notin> set l \<Longrightarrow> Split (concat (map (\<lambda>l. l @ [newline]) ls)) newline = ls @ [[]]"
  by (induction ls) (simp_all add: Split_append)

definition plain_key :: "string \<Rightarrow> string \<Rightarrow> bool" where
  "plain_key config k \<longleftrightarrow> HasPrefix k (config @ ''.'') \<and> CHR ''='' \<notin> set k \<and> newline \<notin> set k \<and> \<not> is_space (hd k)"

definition plain_value :: "string \<Rightarrow> bool" where
  "plain_value v \<longleftrightarrow> quote \<notin> set v \<and> newline \<notin> set v"

definition plain_config :: "string \<Rightarrow> bool" where
  "plain_config c \<longleftrightarrow> c \<noteq> [] \<and> CHR ''.'' \<notin> set c"

lemma parseShowLine_printed:
  assumes "plain_config config" "plain_key config k" "plain_value v"
  shows "parseShowLine config (k @ ''='' @ [quote] @ v @ [quote]) = Some (k, v)"
proof -
  obtain r where k: "k = config @ CHR ''.'' # r" using assms(2) by (auto simp: plain_key_def HasPrefix_iff)
  have "TrimSpace (k @ ''='' @ [quote] @ v @ [quote]) = k @ ''='' @ [quote] @ v @ [quote]"
    using assms(1,2) k by (intro TrimSpace_id) (auto simp: plain_key_def plain_config_def quote_not_space)
  moreover have "Cut (k @ ''='' @ [quote] @ v @ [quote]) CHR ''='' = Some (k, [quote] @ v @ [quote])"
    unfolding Cut_Some using assms(2) by (simp add: plain_key_def)
  moreover have "Cut k CHR ''.'' = Some (config, r)"
    unfolding Cut_Some using assms(1) k by (simp add: plain_config_def)
  ultimately show ?thesis
    using unquote_quoted [of v] assms(3) k by (simp add: parseShowLine_def plain_value_def)
qed

lemma fold_update_map_of: "map_of (fold (\<lambda>(k, v) m. AList.update k v m) kvs m) = map_of m ++ map_of (rev kvs)"
  by (induction kvs arbitrary: m) (auto simp: update_conv' map_add_def fun_eq_iff split: option.splits)

text \<open>
  A configuration printed key by key reads back: for keys of one configuration file and values without quotes and
  line breaks, \<open>parseUCIShow\<close> of what \<open>showOf\<close> prints holds exactly the same values.
\<close>

lemma show_roundtrip:
  assumes "plain_config config" and "distinct (map fst values)"
    and "\<forall>(k, v) \<in> set values. plain_key config k \<and> plain_value v"
  shows "map_of (parseUCIShow config (showOf values)) = map_of values"
proof -
  let ?ks = "sort (map fst values)"
  let ?v = "\<lambda>k. the_default [] (map_of values k)"
  let ?line = "\<lambda>k. k @ ''='' @ [quote] @ ?v k @ [quote]"
  have kv: "plain_key config k \<and> plain_value (?v k) \<and> map_of values k = Some (?v k)" if "k \<in> set ?ks" for k
  proof -
    from that obtain v where "(k, v) \<in> set values" by auto
    then show ?thesis using assms(2,3) by (auto simp: the_default_def)
  qed
  have lines: "Split (showOf values) newline = map ?line ?ks @ [[]]"
  proof -
    have e: "showOf values = concat (map (\<lambda>l. l @ [newline]) (map ?line ?ks))" by (simp add: showOf_def comp_def)
    show ?thesis
      unfolding e using kv by (intro Split_lines) (auto simp: plain_key_def plain_value_def)
  qed
  have "List.map_filter (parseShowLine config) (map ?line ks) = map (\<lambda>k. (k, ?v k)) ks" if "set ks \<subseteq> set ?ks" for ks
    using that parseShowLine_printed [OF assms(1)] kv by (induction ks) (auto simp: map_filter_simps)
  moreover have "parseShowLine config [] = None"
    by (simp add: parseShowLine_def TrimSpace_def TrimLeft_def TrimRight_def)
  ultimately have "List.map_filter (parseShowLine config) (Split (showOf values) newline) = map (\<lambda>k. (k, ?v k)) ?ks"
    unfolding lines by (simp add: map_filter_def)
  then have "map_of (parseUCIShow config (showOf values)) = map_of (map (\<lambda>k. (k, ?v k)) (rev ?ks))"
    by (simp add: parseUCIShow_def fold_update_map_of rev_map)
  also have "\<dots> = map_of values"
  proof
    fix k
    show "map_of (map (\<lambda>k. (k, ?v k)) (rev ?ks)) k = map_of values k"
      using kv [of k] by (cases "k \<in> set ?ks") (auto simp: map_of_map_restrict restrict_map_def map_of_eq_None_iff [of "values", symmetric])
  qed
  finally show ?thesis .
qed

section \<open>Staging\<close>

text \<open>
  What the code relies on of \<^verbatim>\<open>uci\<close>: \<open>cur\<close> is the configuration with the draft applied, as \<open>get\<close> reads it, \<open>live\<close>
  the committed one. \<open>get\<close> changes nothing and fails for a key that is not there; \<open>set\<close> and \<open>delete\<close> change
  one key of the draft; \<open>revert\<close> drops the draft of a file; none of them commits.
\<close>

text \<open>
  What a successful batch leaves in a draft \<open>m\<close>: a setting is settled when it reads as asked; the rows are those of
  the settings that differ.
\<close>

definition beforeOf :: "(string \<Rightarrow> string option) \<Rightarrow> string \<Rightarrow> string" where
  "beforeOf m k = TrimSpace (the_default [] (m k))"

definition settled :: "setting \<Rightarrow> string option \<Rightarrow> bool" where
  "settled s v \<longleftrightarrow> (let b = TrimSpace (the_default [] v) in
     if s_remove s then b = [] \<or> b = s_sameAsAbsent s else b = s_value s)"

definition rowsOf :: "(string \<Rightarrow> string option) \<Rightarrow> string \<Rightarrow> string \<Rightarrow> setting list \<Rightarrow> config_change list" where
  "rowsOf m config section ss =
     map (\<lambda>s. changeRow config (stageKey config section (s_key s)) s (beforeOf m (stageKey config section (s_key s))))
       (filter (\<lambda>s. \<not> isNoop s (beforeOf m (stageKey config section (s_key s)))) ss)"

lemma rowsOf_Cons: "rowsOf m config section (s # ss) =
    (let b = beforeOf m (stageKey config section (s_key s)) in
     (if isNoop s b then [] else [changeRow config (stageKey config section (s_key s)) s b]) @ rowsOf m config section ss)"
  by (simp add: rowsOf_def Let_def)

locale uci_tool =
  fixes run :: "'w runner" and cur :: "'w \<Rightarrow> string \<Rightarrow> string option" and live :: "'w \<Rightarrow> string \<Rightarrow> string option"
  assumes get_frame: "run ''uci'' [''-q'', ''get'', k] w = (x, w') \<Longrightarrow> cur w' = cur w \<and> live w' = live w"
    and get_value: "run ''uci'' [''-q'', ''get'', k] w = (Inr out, w') \<Longrightarrow> \<exists>v. cur w k = Some v \<and> TrimSpace out = TrimSpace v"
    and get_absent: "run ''uci'' [''-q'', ''get'', k] w = (Inl e, w') \<Longrightarrow> cur w k = None"
    and set_ok: "CHR ''='' \<notin> set k \<Longrightarrow> run ''uci'' [''set'', k @ ''='' @ v] w = (Inr out, w') \<Longrightarrow> cur w' = (cur w)(k \<mapsto> v)"
    and set_live: "run ''uci'' [''set'', a] w = (x, w') \<Longrightarrow> live w' = live w"
    and delete_ok: "count_list k CHR ''.'' = 2 \<Longrightarrow> run ''uci'' [''delete'', k] w = (Inr out, w') \<Longrightarrow> cur w' = (cur w)(k := None)"
    and delete_live: "run ''uci'' [''delete'', k] w = (x, w') \<Longrightarrow> live w' = live w"
    and revert_ok: "run ''uci'' [''revert'', c] w = (Inr out, w') \<Longrightarrow>
      cur w' k = (if HasPrefix k (c @ ''.'') then live w k else cur w k)"
    and revert_live: "run ''uci'' [''revert'', c] w = (x, w') \<Longrightarrow> live w' = live w"
begin

abbreviation before :: "'w \<Rightarrow> string \<Rightarrow> string" where "before w \<equiv> beforeOf (cur w)"

lemma uciGet_before: "uciGet run k w = (v, w') \<Longrightarrow> v = before w k \<and> cur w' = cur w \<and> live w' = live w"
  by (auto simp: uciGet_def beforeOf_def the_default_def TrimSpace_def TrimLeft_def TrimRight_def
      dest: get_frame get_value get_absent split: prod.splits sum.splits)

lemma uciSet_effect: "uciSet run k v w = (e, w') \<Longrightarrow>
    live w' = live w \<and> (e = None \<longrightarrow> CHR ''='' \<notin> set k \<longrightarrow> cur w' = (cur w)(k \<mapsto> v))"
  using set_ok set_live by (auto simp: uciSet_def split: prod.splits sum.splits)

lemma uciDelete_effect: "uciDelete run k w = (e, w') \<Longrightarrow>
    live w' = live w \<and> (e = None \<longrightarrow> count_list k CHR ''.'' = 2 \<longrightarrow> cur w' = (cur w)(k := None))"
  using delete_ok delete_live by (auto simp: uciDelete_def split: prod.splits sum.splits)

lemma discardConfig_live: "discardConfig run c w = (e, w') \<Longrightarrow> live w' = live w"
  using revert_live by (auto simp: discardConfig_def split: if_splits prod.splits sum.splits)

text \<open>Nothing that stages or discards commits, whatever succeeds or fails on the way.\<close>

lemma writeSetting_effect:
  assumes "writeSetting run s k w = (e, w')"
  shows "live w' = live w"
    and "e = None \<Longrightarrow> CHR ''='' \<notin> set k \<Longrightarrow> count_list k CHR ''.'' = 2 \<Longrightarrow>
      cur w' = (cur w)(k := (if s_remove s then None else Some (s_value s)))"
  using assms uciDelete_effect [of k w e w'] uciSet_effect [of k "s_value s" w e w']
  by (auto simp: writeSetting_def split: if_splits)

lemma stageSets_live: "stageSets run config section ss ch w = (r, w') \<Longrightarrow> live w' = live w"
proof (induction ss arbitrary: ch w)
  case (Cons s ss)
  let ?k = "stageKey config section (s_key s)"
  obtain v w1 where g: "uciGet run ?k w = (v, w1)" by (cases "uciGet run ?k w")
  obtain e w2 where d: "writeSetting run s ?k w1 = (e, w2)" by (cases "writeSetting run s ?k w1")
  show ?case
    using Cons.prems Cons.IH g uciGet_before [OF g] d writeSetting_effect(1) [OF d]
      discardConfig_live [OF surjective_pairing, of config w2]
    by (cases e) (auto split: if_splits)
qed simp

lemma stage_live: "stage run config section sets w = (r, w') \<Longrightarrow> live w' = live w"
  using stageSets_live by (auto simp: stage_def split: if_splits)

lemma discardAll_live: "discardAll run cs w = (e, w') \<Longrightarrow> live w' = live w"
  by (induction cs arbitrary: w) (auto dest: discardConfig_live split: prod.splits option.splits)

lemma discardAll_keeps: "discardAll run cs w = (None, w') \<Longrightarrow> cur w k = live w k \<Longrightarrow> cur w' k = live w' k"
proof (induction cs arbitrary: w)
  case (Cons d cs)
  then obtain w1 out where "discardAll run cs w1 = (None, w')" and r: "run ''uci'' [''revert'', d] w = (Inr out, w1)"
    by (auto simp: discardConfig_def split: if_splits prod.splits sum.splits option.splits)
  then show ?case using Cons revert_ok [OF r, of k] revert_live [OF r] by auto
qed simp

lemma discardAll_cleans:
  "discardAll run cs w = (None, w') \<Longrightarrow> c \<in> set cs \<Longrightarrow> HasPrefix k (c @ ''.'') \<Longrightarrow> cur w' k = live w' k"
proof (induction cs arbitrary: w)
  case (Cons d cs)
  then obtain w1 out where w1: "discardAll run cs w1 = (None, w')" and r: "run ''uci'' [''revert'', d] w = (Inr out, w1)"
    by (auto simp: discardConfig_def split: if_splits prod.splits sum.splits option.splits)
  show ?case
    using Cons w1 discardAll_keeps [OF w1] revert_ok [OF r, of k] revert_live [OF r] by auto
qed simp

lemma stageKey_inj [simp]: "stageKey c sec k = stageKey c sec k' \<longleftrightarrow> k = k'"
  by (simp add: stageKey_def)

lemma stageSets_ok:
  assumes "stageSets run config section ss ch w = (Inr changes, w')" and "distinct (map s_key ss)"
    and "\<forall>s \<in> set ss. CHR ''='' \<notin> set (stageKey config section (s_key s)) \<and> count_list (stageKey config section (s_key s)) CHR ''.'' = 2"
    and "\<forall>s \<in> set ss. TrimSpace (s_value s) = s_value s"
  shows "(\<forall>s \<in> set ss. settled s (cur w' (stageKey config section (s_key s)))) \<and>
    (\<forall>k. k \<notin> (\<lambda>s. stageKey config section (s_key s)) ` set ss \<longrightarrow> cur w' k = cur w k) \<and>
    changes = ch @ rowsOf (cur w) config section ss"
  using assms
proof (induction ss arbitrary: ch w)
  case (Cons s ss)
  let ?k = "stageKey config section (s_key s)"
  have noteq: "?k \<noteq> stageKey config section (s_key t)" if "t \<in> set ss" for t
    using that Cons.prems(2) by auto
  have same: "rowsOf (cur w1) config section ss = rowsOf (cur w) config section ss" if "\<forall>k. k \<noteq> ?k \<longrightarrow> cur w1 k = cur w k" for w1
  proof -
    have "before w1 (stageKey config section (s_key t)) = before w (stageKey config section (s_key t))" if "t \<in> set ss" for t
      using \<open>\<forall>k. k \<noteq> ?k \<longrightarrow> cur w1 k = cur w k\<close> noteq [OF that] by (simp add: beforeOf_def)
    then show ?thesis unfolding rowsOf_def by (intro map_cong filter_cong) auto
  qed
  have k_out: "?k \<notin> (\<lambda>s. stageKey config section (s_key s)) ` set ss" using noteq by auto
  obtain v w1 where g: "uciGet run ?k w = (v, w1)" by (cases "uciGet run ?k w")
  note g1 = uciGet_before [OF g]
  show ?case
  proof (cases "isNoop s v")
    case True
    then have st: "settled s (cur w ?k)" using g1 by (auto simp: isNoop_def settled_def beforeOf_def Let_def)
    from True Cons.prems(1) g have "stageSets run config section ss ch w1 = (Inr changes, w')" by simp
    from Cons.IH [OF this] Cons.prems(2-4) have
      "\<forall>t \<in> set ss. settled t (cur w' (stageKey config section (s_key t)))"
      "\<forall>k. k \<notin> (\<lambda>s. stageKey config section (s_key s)) ` set ss \<longrightarrow> cur w' k = cur w1 k"
      "changes = ch @ rowsOf (cur w1) config section ss" by auto
    with st True g1 k_out show ?thesis by (simp add: rowsOf_Cons)
  next
    case False
    with Cons.prems(1) g obtain w2 where d: "writeSetting run s ?k w1 = (None, w2)"
      and r: "stageSets run config section ss (ch @ [changeRow config ?k s v]) w2 = (Inr changes, w')"
      by (auto split: prod.splits option.splits)
    have c2: "cur w2 = (cur w)(?k := (if s_remove s then None else Some (s_value s)))"
      using writeSetting_effect(2) [OF d] g1 Cons.prems(3) by simp
    then have st: "settled s (cur w2 ?k)"
      using Cons.prems(4) by (auto simp: settled_def the_default_def TrimSpace_def TrimLeft_def TrimRight_def Let_def)
    from Cons.IH [OF r] Cons.prems(2-4) have
      "\<forall>t \<in> set ss. settled t (cur w' (stageKey config section (s_key t)))"
      "\<forall>k. k \<notin> (\<lambda>s. stageKey config section (s_key s)) ` set ss \<longrightarrow> cur w' k = cur w2 k"
      "changes = (ch @ [changeRow config ?k s v]) @ rowsOf (cur w2) config section ss" by auto
    with st False g1 same [of w2] c2 k_out show ?thesis by (simp add: rowsOf_Cons)
  qed
qed (simp add: rowsOf_def)

end

lemma sectionName_chars: "sectionName s \<Longrightarrow> CHR ''='' \<notin> set s \<and> CHR ''.'' \<notin> set s"
  by (auto simp: sectionName_def word_char_def list_all_iff Let_def)

lemma anonSection_chars: "anonSection s \<Longrightarrow> CHR ''='' \<notin> set s \<and> CHR ''.'' \<notin> set s"
proof -
  assume "anonSection s"
  then obtain a b where s: "s = a @ CHR ''['' # b" and a: "take 1 a = ''@''" "sectionName (drop 1 a)"
    and b: "HasSuffix b '']''" "all_digits (butlast b)"
    by (auto simp: anonSection_def Cut_Some Let_def split: option.splits)
  have "set a = insert CHR ''@'' (set (drop 1 a))" using a(1) by (cases a) auto
  then have na: "CHR ''='' \<notin> set a" "CHR ''.'' \<notin> set a" using sectionName_chars [OF a(2)] by auto
  have digit: "\<not> is_digit CHR ''=''" "\<not> is_digit CHR ''.''" by (simp_all add: is_digit_def)
  have "CHR ''='' \<notin> set (butlast b)" "CHR ''.'' \<notin> set (butlast b)"
    using b(2) digit unfolding all_digits_def list_all_iff by metis+
  moreover obtain t where "b = t @ '']''" using b(1) by (auto simp: HasSuffix_iff)
  ultimately show ?thesis unfolding s using na by simp
qed

lemma stageKey_plain:
  assumes "sectionName config" "sectionName section \<or> anonSection section" "CHR ''='' \<notin> set k" "CHR ''.'' \<notin> set k"
  shows "CHR ''='' \<notin> set (stageKey config section k) \<and> count_list (stageKey config section k) CHR ''.'' = 2"
  using assms sectionName_chars anonSection_chars by (auto simp: stageKey_def)

text \<open>
  C18. A batch of settings is staged exactly. When staging succeeds, every setting of the batch reads as asked in the
  draft (removed, or the value), every other key of the draft is untouched, and the rows describe exactly the
  settings that differed before, in order, with the value each had; and whether it succeeds or fails, the
  committed configuration is what it was: staging never commits.
\<close>

theorem stage_exact:
  assumes "uci_tool run cur live" and "sectionName config" and "stage run config section sets w = (r, w')"
    and "distinct (map s_key sets)" and "\<forall>s \<in> set sets. CHR ''='' \<notin> set (s_key s) \<and> CHR ''.'' \<notin> set (s_key s) \<and> TrimSpace (s_value s) = s_value s"
  shows "live w' = live w \<and> (\<forall>changes. r = Inr changes \<longrightarrow>
    (\<forall>s \<in> set sets. settled s (cur w' (stageKey config section (s_key s)))) \<and>
    (\<forall>k. k \<notin> (\<lambda>s. stageKey config section (s_key s)) ` set sets \<longrightarrow> cur w' k = cur w k) \<and>
    changes = rowsOf (cur w) config section sets)"
proof -
  have "live w' = live w" using uci_tool.stage_live [OF assms(1,3)] .
  moreover have "(\<forall>s \<in> set sets. settled s (cur w' (stageKey config section (s_key s)))) \<and>
    (\<forall>k. k \<notin> (\<lambda>s. stageKey config section (s_key s)) ` set sets \<longrightarrow> cur w' k = cur w k) \<and>
    changes = rowsOf (cur w) config section sets" if "r = Inr changes" for changes
  proof -
    have sec: "sectionName section \<or> anonSection section" and
      ss: "stageSets run config section sets [] w = (Inr changes, w')"
      using assms(3) that by (auto simp: stage_def split: if_splits)
    from uci_tool.stageSets_ok [OF assms(1) ss assms(4)] stageKey_plain [OF assms(2) sec] assms(5) show ?thesis by simp
  qed
  ultimately show ?thesis by blast
qed

section \<open>A reference \<open>uci\<close>\<close>

record uci_world =
  uw_cur :: "string \<Rightarrow> string option"
  uw_live :: "string \<Rightarrow> string option"

definition ref_uci :: "'a uci_world_scheme runner" where
  "ref_uci name args w =
     (case args of
        [a, b, k] \<Rightarrow>
          (if a = ''-q'' \<and> b = ''get'' then
             (case uw_cur w k of None \<Rightarrow> (Inl (Failed ''uci''), w) | Some v \<Rightarrow> (Inr (v @ [newline]), w))
           else (Inl (Failed ''uci''), w))
      | [a, x] \<Rightarrow>
          (if a = ''set'' then (case Cut x CHR ''='' of None \<Rightarrow> (Inl (Failed ''uci''), w)
             | Some (k, v) \<Rightarrow> (Inr [], w\<lparr>uw_cur := (uw_cur w)(k \<mapsto> v)\<rparr>))
           else if a = ''delete'' then (Inr [], w\<lparr>uw_cur := (uw_cur w)(x := None)\<rparr>)
           else if a = ''revert'' then
             (Inr [], w\<lparr>uw_cur := (\<lambda>k. if HasPrefix k (x @ ''.'') then uw_live w k else uw_cur w k)\<rparr>)
           else (Inl (Failed ''uci''), w))
      | _ \<Rightarrow> (Inl (Failed ''uci''), w))"

interpretation ru: uci_tool ref_uci uw_cur uw_live
proof unfold_locales
  fix w w' :: "'a uci_world_scheme" and k v c a out x and e :: error
  have nl: "TrimSpace (v @ [newline]) = TrimSpace v" for v by (rule TrimSpace_snoc_space) (simp add: is_space_def)
  have cut: "Cut (k @ CHR ''='' # v) CHR ''='' = Some (k, v)" if "CHR ''='' \<notin> set k" for k v
    using that by (simp add: Cut_Some)
  show "ref_uci ''uci'' [''-q'', ''get'', k] w = (x, w') \<Longrightarrow> uw_cur w' = uw_cur w \<and> uw_live w' = uw_live w"
    and "ref_uci ''uci'' [''-q'', ''get'', k] w = (Inl e, w') \<Longrightarrow> uw_cur w k = None"
    by (auto simp: ref_uci_def split: option.splits)
  show "ref_uci ''uci'' [''-q'', ''get'', k] w = (Inr out, w') \<Longrightarrow> \<exists>v. uw_cur w k = Some v \<and> TrimSpace out = TrimSpace v"
    using nl by (auto simp: ref_uci_def split: option.splits)
  show "CHR ''='' \<notin> set k \<Longrightarrow> ref_uci ''uci'' [''set'', k @ ''='' @ v] w = (Inr out, w') \<Longrightarrow> uw_cur w' = (uw_cur w)(k \<mapsto> v)"
    by (auto simp: ref_uci_def cut)
  show "ref_uci ''uci'' [''set'', a] w = (x, w') \<Longrightarrow> uw_live w' = uw_live w"
    by (auto simp: ref_uci_def split: option.splits)
  show "ref_uci ''uci'' [''delete'', k] w = (Inr out, w') \<Longrightarrow> uw_cur w' = (uw_cur w)(k := None)"
    and "ref_uci ''uci'' [''delete'', k] w = (x, w') \<Longrightarrow> uw_live w' = uw_live w"
    and "ref_uci ''uci'' [''revert'', c] w = (Inr out, w') \<Longrightarrow>
      uw_cur w' k = (if HasPrefix k (c @ ''.'') then uw_live w k else uw_cur w k)"
    and "ref_uci ''uci'' [''revert'', c] w = (x, w') \<Longrightarrow> uw_live w' = uw_live w"
    by (auto simp: ref_uci_def)
qed

definition demo_uci :: uci_world where
  "demo_uci = \<lparr>uw_cur = [''network.wan.proto'' \<mapsto> ''dhcp''], uw_live = [''network.wan.proto'' \<mapsto> ''dhcp'']\<rparr>"

theorem stage_exact_witness:
  "\<exists>r w'. stage ref_uci ''network'' ''wan'' [uplinkSetting ''proto'' ''pppoe''] demo_uci = (r, w') \<and> uw_live w' = uw_live demo_uci"
proof -
  have n: "sectionName ''network''" by (simp add: sectionName_def word_char_def)
  have t: "TrimSpace ''pppoe'' = ''pppoe''" by (rule TrimSpace_id) (simp_all add: is_space_def)
  obtain r w' where e: "stage ref_uci ''network'' ''wan'' [uplinkSetting ''proto'' ''pppoe''] demo_uci = (r, w')"
    by (rule prod.exhaust)
  from stage_exact [OF ru.uci_tool_axioms n e] t e show ?thesis
    by (auto simp: uplinkSetting_def setting0_def)
qed

lemma stageSets_rows:
  "stageSets run config section ss ch w = (Inr changes, w') \<Longrightarrow> c \<in> set changes \<Longrightarrow>
    c \<in> set ch \<or> (\<exists>s \<in> set ss. \<exists>b. c = changeRow config (stageKey config section (s_key s)) s b)"
proof (induction ss arbitrary: ch w)
  case (Cons s ss)
  obtain b w1 where g: "uciGet run (stageKey config section (s_key s)) w = (b, w1)"
    by (rule prod.exhaust)
  show ?case
  proof (cases "isNoop s b")
    case True
    with Cons.prems g Cons.IH [of ch w1] show ?thesis by auto
  next
    case False
    with Cons.prems(1) g obtain w2 where
      "stageSets run config section ss (ch @ [changeRow config (stageKey config section (s_key s)) s b]) w2 = (Inr changes, w')"
      by (auto split: prod.splits option.splits)
    from Cons.IH [OF this Cons.prems(2)] show ?thesis by auto
  qed
qed simp

lemma wanSettings_password:
  assumes "wanSettings cfg = Inr sets" "s \<in> set sets" "s_key s = ''password''"
  shows "s_secret s \<and> s_shown s = [] \<and> s_shownBefore s = []"
proof -
  have dns: "s \<in> set out \<or> s = uplinkSetting ''dns'' v" if "appendDNS out ds = Inr sets" "v = Join ds '' ''" for out ds v
    using that assms(2) by (auto simp: appendDNS_def split: if_splits)
  show ?thesis
    using assms
    by (auto simp: wanSettings_def uplinkSetting_def setting0_def Let_def dest!: dns [OF _ refl] split: if_splits option.splits)
qed

lemma redact_safe: "redact True v \<in> {[], bullets}"
  by (simp add: redact_def)

lemma password_not_shown:
  assumes "StageWAN (Some run) uplink cfg w = (Inr changes, w')" and "c \<in> set changes"
    and "Detail c = stageKey ''network'' iface ''password''" and "(if wan_Interface cfg = [] then uplink else Inr (wan_Interface cfg)) = Inr iface"
  shows "From_value c \<in> {[], bullets} \<and> To_value c \<in> {[], bullets}"
proof -
  from assms(1,4) obtain sets where sets: "wanSettings cfg = Inr sets"
    and st: "stageSets run ''network'' iface sets [] w = (Inr changes, w')"
    by (auto simp: StageWAN_def stage_def split: if_splits sum.splits)
  from stageSets_rows [OF st assms(2)] obtain s b where s: "s \<in> set sets"
    and c: "c = changeRow ''network'' (stageKey ''network'' iface (s_key s)) s b" by auto
  have "s_key s = ''password''" using assms(3) c by (simp add: changeRow_def)
  from wanSettings_password [OF sets s this] c redact_safe show ?thesis by (auto simp: changeRow_def)
qed

text \<open>
  C20. Discarding throws the whole draft away and nothing else: when it succeeds, every key of the four configuration files a
  draft can touch reads as it is committed, and the committed configuration is unchanged.
\<close>

theorem discard_drops_whole_draft:
  assumes "uci_tool run cur live" and "DiscardStaged (Some run) w = (None, w')"
    and "c \<in> {''network'', ''dhcp'', ''firewall'', ''wireless''}" and "HasPrefix k (c @ ''.'')"
  shows "cur w' k = live w' k \<and> live w' = live w"
  using uci_tool.discardAll_cleans [OF assms(1), of draftConfigs w w' c k] uci_tool.discardAll_live [OF assms(1), of draftConfigs w]
    assms(2-4) by (auto simp: DiscardStaged_def draftConfigs_def)

theorem discard_drops_whole_draft_witness:
  "\<exists>w'. DiscardStaged (Some ref_uci) (demo_uci\<lparr>uw_cur := [''firewall.x'' \<mapsto> ''rule'']\<rparr>) = (None, w') \<and>
     uw_cur w' ''firewall.x'' = uw_live w' ''firewall.x''"
proof -
  have "sectionName c" if "c \<in> set draftConfigs" for c
    using that by (auto simp: draftConfigs_def sectionName_def word_char_def)
  then have "fst (discardAll ref_uci cs w) = None" if "set cs \<subseteq> set draftConfigs" for cs w
    using that by (induction cs arbitrary: w) (simp_all add: discardConfig_def ref_uci_def)
  then obtain w' where d: "DiscardStaged (Some ref_uci) (demo_uci\<lparr>uw_cur := [''firewall.x'' \<mapsto> ''rule'']\<rparr>) = (None, w')"
    unfolding DiscardStaged_def by (metis option.simps(5) order_refl prod.collapse)
  from discard_drops_whole_draft [OF ru.uci_tool_axioms d, of "''firewall''" "''firewall.x''"] d show ?thesis
    by (auto simp: HasPrefix_def)
qed

end
