(* ===== verification/Committed.thy ===== *)
theory Committed
  imports Uci
begin

text \<open>
  Reading the configuration as it is on disk, without the draft (\<^verbatim>\<open>withCommitted\<close> and \<^verbatim>\<open>committedValues\<close> of
  \<^verbatim>\<open>internal/adapters/openwrt/network_write.go\<close>): the file is linked into a fresh directory under another package name, for
  which \<^verbatim>\<open>uci\<close> has no draft. The operating system's part is the parameter \<open>link_fs\<close>.
\<close>

record 'w link_fs =
  MkdirTemp :: "string \<Rightarrow> ('w, string) step"
  Symlink :: "string \<Rightarrow> string \<Rightarrow> ('w, unit) step"
  RemoveAll :: "string \<Rightarrow> 'w \<Rightarrow> 'w"
  ConfigDir :: string

definition committedPrefix :: string where "committedPrefix = ''veilbridge_committed_''"

definition joinPath :: "string \<Rightarrow> string \<Rightarrow> string" where
  \<comment> \<open>\<^verbatim>\<open>filepath.Join\<close> of a clean directory and a plain name\<close>
  "joinPath d f = d @ ''/'' @ f"

definition withCommitted :: "'w link_fs \<Rightarrow> string \<Rightarrow> (string \<Rightarrow> string \<Rightarrow> ('w, 'a) step) \<Rightarrow> ('w, 'a) step" where
  "withCommitted fs config fn w =
     (if \<not> sectionName config then (Inl (Failed ''not a configuration name''), w)
      else let dir = (if ConfigDir fs = [] then ''/etc/config'' else ConfigDir fs) in
        case MkdirTemp fs ''veilbridge-committed-'' w of
          (Inl e, w1) \<Rightarrow> (Inl e, w1)
        | (Inr linkDir, w1) \<Rightarrow>
            let alias = committedPrefix @ config in
            (case bindR (Symlink fs (joinPath dir config) (joinPath linkDir alias)) (\<lambda>_. fn linkDir alias) w1 of
               (r, w2) \<Rightarrow> (r, RemoveAll fs linkDir w2)))"

fun fillCommitted :: "'w runner \<Rightarrow> string \<Rightarrow> string \<Rightarrow> string \<Rightarrow> string list \<Rightarrow> (string \<times> string) list \<Rightarrow> 'w \<Rightarrow> (string \<times> string) list \<times> 'w" where
  "fillCommitted run config linkDir alias [] values w = (values, w)"
| "fillCommitted run config linkDir alias (k # ks) values w =
     (if TrimPrefix k (config @ ''.'') = k then fillCommitted run config linkDir alias ks values w
      else case getOne run [''-q'', ''-c'', linkDir, ''get'', alias @ ''.'' @ TrimPrefix k (config @ ''.'')] w of
        (None, w') \<Rightarrow> fillCommitted run config linkDir alias ks values w'
      | (Some v, w') \<Rightarrow> fillCommitted run config linkDir alias ks (AList.update k v values) w')"

definition committedValues :: "'w runner \<Rightarrow> 'w link_fs \<Rightarrow> string \<Rightarrow> string list \<Rightarrow> ('w, (string \<times> string) list) step" where
  "committedValues run fs config want =
     bindR (checkR (sectionName config) (Failed ''not a configuration name'')) (\<lambda>_.
       wrapR (Failed ''read committed'') (withCommitted fs config (\<lambda>linkDir alias.
         bindR (run ''uci'' [''-q'', ''-c'', linkDir, ''show'', alias]) (\<lambda>out.
           let vals = parseUCIShow config out
           in pureR (fillCommitted run config linkDir alias (missingKeys vals want) vals)))))"

section \<open>The link directory does not stay\<close>

text \<open>
  What is relied on of the file system: making a directory adds one, removing takes it away with everything in it, linking adds none.
\<close>

locale link_dirs =
  fixes fs :: "'w link_fs" and dirs :: "'w \<Rightarrow> string set"
  assumes mkdir_ok: "MkdirTemp fs p w = (Inr d, w') \<Longrightarrow> d \<notin> dirs w \<and> dirs w' = insert d (dirs w)"
    and mkdir_refused: "MkdirTemp fs p w = (Inl e, w') \<Longrightarrow> dirs w' = dirs w"
    and symlink_dirs: "Symlink fs a b w = (r, w') \<Longrightarrow> dirs w' = dirs w"
    and remove_dirs: "dirs (RemoveAll fs d w) = dirs w - {d}"
begin

lemma withCommitted_cleans:
  assumes "\<And>d a w. dirs (snd (fn d a w)) = dirs w"
  shows "dirs (snd (withCommitted fs config fn w)) = dirs w"
proof (cases "sectionName config")
  case True
  obtain r w1 where m: "MkdirTemp fs ''veilbridge-committed-'' w = (r, w1)" by (rule prod.exhaust)
  show ?thesis
  proof (cases r)
    case (Inl e)
    then show ?thesis using True m mkdir_refused by (simp add: withCommitted_def)
  next
    case (Inr d)
    let ?m = "bindR (Symlink fs (joinPath (if ConfigDir fs = [] then ''/etc/config'' else ConfigDir fs) config)
      (joinPath d (committedPrefix @ config))) (\<lambda>_. fn d (committedPrefix @ config))"
    have "keepsR dirs ?m" by (rule keeps_bindR, rule keepsR_I, erule symlink_dirs) (simp add: keepsR_def assms)
    then have "dirs (snd (?m w1)) = dirs w1" by (simp add: keepsR_def)
    moreover have "snd (withCommitted fs config fn w) = RemoveAll fs d (snd (?m w1))"
      using True m Inr by (simp add: withCommitted_def Let_def split: prod.split)
    ultimately show ?thesis using mkdir_ok [of _ w d w1] m Inr remove_dirs by simp
  qed
qed (simp add: withCommitted_def)

lemma committedValues_cleans:
  assumes run_dirs: "\<And>n a w. dirs (snd (run n a w)) = dirs w"
  shows "dirs (snd (committedValues run fs config want w)) = dirs w"
proof -
  have get: "dirs (snd (getOne run a w)) = dirs w" for a w
  proof -
    obtain r w1 where r: "run ''uci'' a w = (r, w1)" by (rule prod.exhaust)
    with run_dirs [of "''uci''" a w] show ?thesis by (cases r) (simp_all add: getOne_def)
  qed
  have fill: "dirs (snd (fillCommitted run config d a ks vs w)) = dirs w" for d a ks vs w
  proof (induction ks arbitrary: vs w)
    case (Cons k ks)
    obtain r w1 where "getOne run [''-q'', ''-c'', d, ''get'', a @ ''.'' @ TrimPrefix k (config @ ''.'')] w = (r, w1)" by (rule prod.exhaust)
    then show ?case using Cons get [of "[''-q'', ''-c'', d, ''get'', a @ ''.'' @ TrimPrefix k (config @ ''.'')]" w] by (cases r) simp_all
  qed simp
  have "keepsR dirs (\<lambda>w. withCommitted fs config (\<lambda>d a. bindR (run ''uci'' [''-q'', ''-c'', d, ''show'', a]) (\<lambda>out.
      let vals = parseUCIShow config out in pureR (fillCommitted run config d a (missingKeys vals want) vals))) w)"
  proof (unfold keepsR_def, intro allI, rule withCommitted_cleans)
    fix d a w
    have "keepsR dirs (bindR (run ''uci'' [''-q'', ''-c'', d, ''show'', a]) (\<lambda>out.
      let vals = parseUCIShow config out in pureR (fillCommitted run config d a (missingKeys vals want) vals)))"
      using run_dirs fill unfolding Let_def by (intro keeps_bindR keeps_pureR) (auto simp: keepsR_def)
    then show "dirs (snd (bindR (run ''uci'' [''-q'', ''-c'', d, ''show'', a]) (\<lambda>out.
      let vals = parseUCIShow config out in pureR (fillCommitted run config d a (missingKeys vals want) vals)) w)) = dirs w"
      by (simp add: keepsR_def)
  qed
  then have "keepsR dirs (committedValues run fs config want)"
    unfolding committedValues_def by (intro keeps_bindR keeps_simple keeps_wrapR) (simp add: keepsR_def)
  then show ?thesis by (simp add: keepsR_def)
qed

end

text \<open>A file system of directories and links.\<close>

record link_world =
  lw_dirs :: "string list"
  lw_next :: nat

definition ref_link_fs :: "link_world link_fs" where
  "ref_link_fs = \<lparr>
     MkdirTemp = (\<lambda>p w. let d = ''/tmp/'' @ p @ nat_digits (lw_next w) in
        if d \<in> set (lw_dirs w) then (Inl (Failed ''mkdir''), w) else (Inr d, w\<lparr>lw_dirs := d # lw_dirs w, lw_next := lw_next w + 1\<rparr>)),
     Symlink = (\<lambda>a b w. (Inr (), w)),
     RemoveAll = (\<lambda>d w. w\<lparr>lw_dirs := filter (\<lambda>x. x \<noteq> d) (lw_dirs w)\<rparr>), ConfigDir = []\<rparr>"

interpretation lf: link_dirs ref_link_fs "\<lambda>w. set (lw_dirs w)"
  by unfold_locales (auto simp: ref_link_fs_def Let_def split: if_splits)

end
