(* ===== verification/Lan.thy ===== *)
theory Lan
  imports Uci Devices
begin

text \<open>
  The local network: \<^verbatim>\<open>internal/adapters/openwrt/lan.go\<close> (the handout, the leases, the reserved addresses as the panel reads
  them) and \<^verbatim>\<open>lan_write.go\<close> (staging the router's address, the handout and the reservations). The device stores the
  pool as an offset and a count, the panel speaks addresses; the conversions both ways and the
  durations are where the two have to agree. Parameters: the programs \<open>run\<close>, the connections \<open>ifaces\<close> the network daemon
  lists, the files \<open>files\<close> and the clock \<open>now\<close>.
\<close>

definition wrap64 :: "int \<Rightarrow> int" where
  \<comment> \<open>the value an \<open>int64\<close> keeps\<close>
  "wrap64 i = (i + 2 ^ 63) mod 2 ^ 64 - 2 ^ 63"

section \<open>Data\<close>

record network_interface =
  if_Name :: string
  if_Device :: string
  if_Up :: bool
  if_Proto :: string
  if_UptimeSec :: int
  if_IPv4 :: "string list"
  if_IPv6 :: "string list"
  if_Gateway :: string
  if_Gateway6 :: string
  if_DNS :: "string list"

record address_handout =
  h_Enabled :: bool
  h_First :: string
  h_Last :: string
  h_LeaseSeconds :: int

record address_lease =
  l_MAC :: string
  l_IP :: string
  l_Hostname :: string
  l_ExpiresSec :: int

record reserved_address =
  ra_MAC :: string
  ra_IP :: string
  ra_Name :: string
  ra_ID :: string

record lan_status =
  lan_Interface :: network_interface
  lan_Handout :: address_handout
  lan_Leases :: "address_lease list"
  lan_Reserved :: "reserved_address list"

record lan_config =
  lc_Address :: string
  lc_Netmask :: string

record handout_config =
  hc_Enabled :: bool
  hc_First :: string
  hc_Last :: string
  hc_LeaseSeconds :: int

record reservation_config =
  rc_MAC :: string
  rc_IP :: string
  rc_Name :: string

definition noHandout :: address_handout where
  "noHandout = \<lparr>h_Enabled = False, h_First = [], h_Last = [], h_LeaseSeconds = 0\<rparr>"

section \<open>Reading\<close>

definition lanNets :: "string list \<Rightarrow> ipnet list" where
  "lanNets lan4 = map snd (List.map_filter ParseCIDR lan4)"

definition lanLeases :: "address_lease list \<Rightarrow> string list \<Rightarrow> address_lease list" where
  "lanLeases all lan4 =
     (let nets = lanNets lan4 in
      if nets = [] then all
      else filter (\<lambda>l. case ParseIP (l_IP l) of None \<Rightarrow> False | Some ip \<Rightarrow> list_ex (\<lambda>n. net_Contains n ip) nets) all)"

definition addOffset :: "ip4 \<Rightarrow> int \<Rightarrow> ip4 option" where
  "addOffset base offset =
     (if offset < 0 then None
      else let sum = uint base + offset in if sum > 0xFFFFFFFF then None else Some (word_of_int sum))"

definition poolEnds :: "ipnet \<Rightarrow> ip4 \<Rightarrow> int \<Rightarrow> int \<Rightarrow> (string \<times> string) option" where
  \<comment> \<open>the pool in the first network with an IPv4 base\<close>
  "poolEnds network base start limit =
     (case (addOffset base start, addOffset base (wrap64 (wrap64 (start + limit) - 1))) of
        (Some f, Some l) \<Rightarrow>
          if \<not> net_Contains network (V4 f) \<or> \<not> net_Contains network (V4 l) then None
          else Some (ip4_string f, ip4_string l)
      | _ \<Rightarrow> None)"

fun poolRange :: "string list \<Rightarrow> int \<Rightarrow> int \<Rightarrow> (string \<times> string) option" where
  "poolRange [] start limit = None"
| "poolRange (cidr # rest) start limit =
     (case ParseCIDR cidr of None \<Rightarrow> poolRange rest start limit
      | Some (ip, network) \<Rightarrow>
          if To4 ip = None then poolRange rest start limit
          else (case net_To4 network of None \<Rightarrow> poolRange rest start limit
            | Some base \<Rightarrow> poolEnds network base start limit))"

definition leaseUnits :: "(char \<times> int) list" where
  "leaseUnits = [(CHR ''w'', 7 * 86400), (CHR ''d'', 86400), (CHR ''h'', 3600), (CHR ''m'', 60), (CHR ''s'', 1)]"

definition parseLeaseTime :: "string \<Rightarrow> int" where
  "parseLeaseTime v0 =
     (let v = TrimSpace v0 in
      if v = [] \<or> v = ''infinite'' then 0
      else let (unit, num) = (case map_of leaseUnits (last v) of None \<Rightarrow> (1, v) | Some u \<Rightarrow> (u, butlast v))
           in case Atoi (TrimSpace num) of None \<Rightarrow> 0
              | Some n \<Rightarrow> if n < 0 then 0 else wrap64 (n * unit))"

definition dhcpKey :: "string \<Rightarrow> string" where "dhcpKey k = ''dhcp.'' @ lanSection @ ''.'' @ k"

definition handout :: "'w runner \<Rightarrow> network_interface \<Rightarrow> 'w \<Rightarrow> address_handout \<times> 'w" where
  "handout run lan w =
     (let (ignore, w1) = uciGet run (dhcpKey ''ignore'') w in
      if ignore = ''1'' then (noHandout, w1)
      else let (start, w2) = uciGet run (dhcpKey ''start'') w1; (limit, w3) = uciGet run (dhcpKey ''limit'') w2
           in case (Atoi start, Atoi limit) of
                (Some s, Some l) \<Rightarrow>
                  if l \<le> 0 then (noHandout, w3)
                  else let (lease, w4) = uciGet run (dhcpKey ''leasetime'') w3;
                           h = noHandout\<lparr>h_Enabled := True, h_LeaseSeconds := parseLeaseTime lease\<rparr>
                       in ((case poolRange (if_IPv4 lan) s l of None \<Rightarrow> h | Some (a, b) \<Rightarrow> h\<lparr>h_First := a, h_Last := b\<rparr>), w4)
              | _ \<Rightarrow> (noHandout, w3))"

definition setReserved :: "string \<Rightarrow> string \<Rightarrow> reserved_address \<Rightarrow> reserved_address" where
  "setReserved nm value e =
     (if nm = ''mac'' then e\<lparr>ra_MAC := value\<rparr> else if nm = ''ip'' then e\<lparr>ra_IP := value\<rparr>
      else if nm = ''name'' then e\<lparr>ra_Name := value\<rparr> else e)"

definition reservedLine :: "string \<Rightarrow> reserved_address list \<Rightarrow> reserved_address list" where
  "reservedLine l entries =
     (case Cut (TrimSpace l) CHR ''='' of None \<Rightarrow> entries
      | Some (key, value) \<Rightarrow>
          (case Split key CHR ''.'' of
             [c, i] \<Rightarrow>
               if unquoteUCI value = ''host'' \<and> i \<notin> set (map ra_ID entries)
               then entries @ [\<lparr>ra_MAC = [], ra_IP = [], ra_Name = [], ra_ID = i\<rparr>] else entries
           | [c, i, nm] \<Rightarrow> map (\<lambda>e. if ra_ID e = i then setReserved nm (unquoteUCI value) e else e) entries
           | _ \<Rightarrow> entries))"

definition parseReserved :: "string \<Rightarrow> reserved_address list" where
  "parseReserved out = filter (\<lambda>e. ra_MAC e \<noteq> [] \<and> ra_IP e \<noteq> []) (fold reservedLine (Split out newline) [])"

definition reserved :: "'w runner \<Rightarrow> 'w \<Rightarrow> reserved_address list \<times> 'w" where
  "reserved run w = (case run ''uci'' [''-q'', ''show'', ''dhcp''] w of
     (Inl e, w') \<Rightarrow> ([], w') | (Inr out, w') \<Rightarrow> (parseReserved out, w'))"

definition leaseLine :: "int \<Rightarrow> string \<Rightarrow> address_lease option" where
  "leaseLine now line =
     (let fields = Fields line in
      if length fields < 4 then None
      else case Atoi (fields ! 0) of None \<Rightarrow> None
        | Some expiry \<Rightarrow>
            let left = wrap64 (expiry - now) in
            Some \<lparr>l_MAC = fields ! 1, l_IP = fields ! 2,
              l_Hostname = (if fields ! 3 \<noteq> ''*'' then fields ! 3 else []), l_ExpiresSec = (if left > 0 then left else 0)\<rparr>)"

definition parseLeases :: "string \<Rightarrow> int \<Rightarrow> address_lease list" where
  "parseLeases data now = List.map_filter (leaseLine now) (Split data newline)"

definition defaultLeaseFile :: string where "defaultLeaseFile = ''/tmp/dhcp.leases''"

definition leases :: "'w runner \<Rightarrow> (string \<Rightarrow> string result) \<Rightarrow> int \<Rightarrow> 'w \<Rightarrow> address_lease list \<times> 'w" where
  "leases run files now w =
     (let (p, w') = uciGet run ''dhcp.@dnsmasq[0].leasefile'' w; path = (if p = [] then defaultLeaseFile else p)
      in case files path of Inl e \<Rightarrow> ([], w') | Inr data \<Rightarrow> (parseLeases data now, w'))"

definition findLan :: "network_interface list \<Rightarrow> network_interface option" where
  "findLan is = List.find (\<lambda>i. if_Name i = lanSection) is"

definition LANInfo ::
  "'w runner option \<Rightarrow> network_interface list result \<Rightarrow> (string \<Rightarrow> string result) \<Rightarrow> int \<Rightarrow> ('w, lan_status) step" where
  "LANInfo mrun ifaces files now w =
     (case ifaces of Inl e \<Rightarrow> (Inl e, w)
      | Inr is \<Rightarrow> (case findLan is of None \<Rightarrow> (Inl (Failed ''no local network''), w)
        | Some lan \<Rightarrow>
            let out = \<lparr>lan_Interface = lan, lan_Handout = noHandout, lan_Leases = [], lan_Reserved = []\<rparr> in
            (case mrun of None \<Rightarrow> (Inr out, w)
             | Some run \<Rightarrow>
                 let (h, w1) = handout run lan w; (rs, w2) = reserved run w1; (ls, w3) = leases run files now w2
                 in (Inr (out\<lparr>lan_Handout := h, lan_Reserved := rs, lan_Leases := lanLeases ls (if_IPv4 lan)\<rparr>), w3))))"

definition findNetwork :: "string list \<Rightarrow> ipnet result" where
  "findNetwork addresses =
     (case List.find (\<lambda>n. net_To4 n \<noteq> None) (lanNets addresses) of
        None \<Rightarrow> Inl (Failed ''the local network has no IPv4 address to count from'') | Some n \<Rightarrow> Inr n)"

definition lanNetwork ::
  "'w runner \<Rightarrow> network_interface list result \<Rightarrow> (string \<Rightarrow> string result) \<Rightarrow> int \<Rightarrow> ('w, ipnet) step" where
  "lanNetwork run ifaces files now =
     bindR (LANInfo (Some run) ifaces files now) (\<lambda>lan. liftR (findNetwork (if_IPv4 (lan_Interface lan))))"

section \<open>Writing\<close>

definition alnum :: "char \<Rightarrow> bool" where
  "alnum c \<longleftrightarrow> is_digit c \<or> (97 \<le> (of_char c :: nat) \<and> (of_char c :: nat) \<le> 122) \<or> (65 \<le> (of_char c :: nat) \<and> (of_char c :: nat) \<le> 90)"

definition hostName :: "string \<Rightarrow> bool" where
  "hostName s \<longleftrightarrow> s \<noteq> [] \<and> length s \<le> 63 \<and> alnum (hd s) \<and> alnum (last s) \<and> list_all (\<lambda>c. alnum c \<or> c = CHR ''-'') s"

definition lanSetting :: "string \<Rightarrow> string \<Rightarrow> string \<Rightarrow> setting" where
  "lanSetting config key value = setting0\<lparr>s_key := key, s_value := value, s_label := describe config ''lan'' key\<rparr>"

definition poolFitsAddress :: "'w runner \<Rightarrow> string \<Rightarrow> string \<Rightarrow> 'w \<Rightarrow> error option \<times> 'w" where
  "poolFitsAddress run address netmask w =
     (let (start, w1) = uciGet run (dhcpKey ''start'') w; (limit, w2) = uciGet run (dhcpKey ''limit'') w1
      in case (Atoi start, Atoi limit) of
           (Some s, Some l) \<Rightarrow>
             if l \<le> 0 then (None, w2)
             else let ones = (case ParseIP4 netmask of None \<Rightarrow> 0 | Some m \<Rightarrow> fst (mask_Size m));
                      cidr = address @ ''/'' @ nat_digits ones
                  in (case poolRange [cidr] s l of
                        None \<Rightarrow> Some (Failed ''the addresses handed out would fall outside'') | Some _ \<Rightarrow> None, w2)
         | _ \<Rightarrow> (None, w2))"

definition StageLAN :: "'w runner option \<Rightarrow> lan_config \<Rightarrow> ('w, config_change list) step" where
  "StageLAN mrun cfg w =
     (case mrun of None \<Rightarrow> (Inl (Failed ''not implemented''), w)
      | Some run \<Rightarrow>
          if ParseIP4 (lc_Address cfg) = None then (Inl (Refused ''address'' ''not an IPv4 address''), w)
          else case validNetmask (lc_Netmask cfg) of Some e \<Rightarrow> (Inl (the (Refuse ''netmask'' (Some e))), w)
          | None \<Rightarrow> (case poolFitsAddress run (lc_Address cfg) (lc_Netmask cfg) w of
              (Some e, w') \<Rightarrow> (Inl (the (Refuse ''address'' (Some e))), w')
            | (None, w') \<Rightarrow> stage run ''network'' lanSection
                [lanSetting ''network'' ''proto'' ''static'', lanSetting ''network'' ''ipaddr'' (lc_Address cfg),
                 lanSetting ''network'' ''netmask'' (lc_Netmask cfg)] w'))"

definition poolOffsets :: "ipnet \<Rightarrow> string \<Rightarrow> string \<Rightarrow> (int \<times> int) result" where
  "poolOffsets network first' last' =
     (case ParseIP4 first' of None \<Rightarrow> Inl (Refused ''first'' ''not an IPv4 address'')
      | Some f \<Rightarrow> (case ParseIP4 last' of None \<Rightarrow> Inl (Refused ''last'' ''not an IPv4 address'')
        | Some l \<Rightarrow>
            if \<not> net_Contains network (V4 f) \<or> \<not> net_Contains network (V4 l) then
              Inl (Refused (if net_Contains network (V4 f) then ''last'' else ''first'') ''outside the local network'')
            else let base = the_default 0 (net_To4 network) in
              if l < f then Inl (Refused ''last'' ''comes before'')
              else let start = uint (f - base); count = uint (l - f) + 1 in
                if start = 0 then Inl (Refused ''first'' ''the address of the network itself'')
                else Inr (start, count)))"

definition offsetAsAddress :: "ipnet \<Rightarrow> string \<Rightarrow> string" where
  "offsetAsAddress network stored =
     (case Atoi (TrimSpace stored) of None \<Rightarrow> []
      | Some n \<Rightarrow> (case addOffset (the_default 0 (net_To4 network)) n of None \<Rightarrow> [] | Some ip \<Rightarrow> ip4_string ip))"

definition lastAsAddress :: "ipnet \<Rightarrow> string \<Rightarrow> string \<Rightarrow> string" where
  "lastAsAddress network storedStart storedLimit =
     (case (Atoi (TrimSpace storedStart), Atoi (TrimSpace storedLimit)) of
        (Some s, Some l) \<Rightarrow>
          if l \<le> 0 then []
          else (case addOffset (the_default 0 (net_To4 network)) (wrap64 (wrap64 (s + l) - 1)) of None \<Rightarrow> [] | Some ip \<Rightarrow> ip4_string ip)
      | _ \<Rightarrow> [])"

definition formatLeaseTime :: "int \<Rightarrow> string" where
  \<comment> \<open>asked only of a positive duration, where Go's \<open>%\<close> and \<open>/\<close> are \<open>mod\<close> and \<open>div\<close>\<close>
  "formatLeaseTime sec =
     (if sec mod 3600 = 0 then Itoa (sec div 3600) @ ''h''
      else if sec mod 60 = 0 then Itoa (sec div 60) @ ''m'' else Itoa sec)"

definition handoutSettings :: "handout_config \<Rightarrow> int \<Rightarrow> int \<Rightarrow> string \<Rightarrow> string \<Rightarrow> setting list" where
  "handoutSettings cfg start limit firstBefore lastBefore =
     [(lanSetting ''dhcp'' ''ignore'' [])\<lparr>s_remove := True\<rparr>,
      (lanSetting ''dhcp'' ''start'' (Itoa start))\<lparr>s_shown := hc_First cfg, s_shownBefore := firstBefore\<rparr>,
      (lanSetting ''dhcp'' ''limit'' (Itoa limit))\<lparr>s_shown := hc_Last cfg, s_shownBefore := lastBefore\<rparr>] @
     (if hc_LeaseSeconds cfg > 0 then [lanSetting ''dhcp'' ''leasetime'' (formatLeaseTime (hc_LeaseSeconds cfg))] else [])"

definition StageHandout ::
  "'w runner option \<Rightarrow> network_interface list result \<Rightarrow> (string \<Rightarrow> string result) \<Rightarrow> int \<Rightarrow> handout_config \<Rightarrow> ('w, config_change list) step" where
  "StageHandout mrun ifaces files now cfg =
     (case mrun of None \<Rightarrow> failR (Failed ''not implemented'')
      | Some run \<Rightarrow>
          if \<not> hc_Enabled cfg then stage run ''dhcp'' lanSection [lanSetting ''dhcp'' ''ignore'' ''1'']
          else
            bindR (lanNetwork run ifaces files now) (\<lambda>network.
            bindR (liftR (poolOffsets network (hc_First cfg) (hc_Last cfg))) (\<lambda>(start, limit).
            bindR (pureR (uciGet run (dhcpKey ''start''))) (\<lambda>s1.
            bindR (pureR (uciGet run (dhcpKey ''start''))) (\<lambda>s2.
            bindR (pureR (uciGet run (dhcpKey ''limit''))) (\<lambda>l1.
              stage run ''dhcp'' lanSection
                (handoutSettings cfg start limit (offsetAsAddress network s1) (lastAsAddress network s2 l1))))))))"

definition reservationWords :: "reserved_address \<Rightarrow> string" where
  "reservationWords r =
     (if ra_Name r \<noteq> [] then ra_Name r @ '' ('' @ ra_MAC r @ '') '' @ ra_IP r else ra_MAC r @ '' '' @ ra_IP r)"

definition wholeRow :: "string \<Rightarrow> phrase \<Rightarrow> string \<Rightarrow> string \<Rightarrow> string \<Rightarrow> config_change" where
  \<comment> \<open>the one row of a whole entry\<close>
  "wholeRow config said from' to' section =
     \<lparr>Label = ph_words said, LabelKey = ph_key said, From_value = from', To_value = to', Dangerous = dangerousConfig config,
      Detail = config @ ''.'' @ section, Subject = []\<rparr>"

definition addEntry :: "'w runner \<Rightarrow> string \<Rightarrow> string \<Rightarrow> ('w, string) step" where
  \<comment> \<open>\<^verbatim>\<open>uci add\<close>, and the name the device gives\<close>
  "addEntry run config kind w =
     (case run ''uci'' [''add'', config, kind] w of
        (Inl e, w1) \<Rightarrow> (Inl (Failed ''stage''), w1)
      | (Inr out, w1) \<Rightarrow>
          let section = TrimSpace out in
          if \<not> sectionName section then (Inl (Failed ''the device named the new entry''), snd (discardConfig run config w1))
          else (Inr section, w1))"

definition hostSetting :: "string \<Rightarrow> string \<Rightarrow> setting" where
  "hostSetting key value = setting0\<lparr>s_key := key, s_value := value, s_label := describe ''dhcp'' ''host'' key\<rparr>"

definition reservationSettings :: "string \<Rightarrow> string \<Rightarrow> string \<Rightarrow> setting list" where
  "reservationSettings mac ip name =
     [hostSetting ''mac'' mac, hostSetting ''ip'' ip] @ (if name \<noteq> [] then [hostSetting ''name'' name] else [])"

definition StageReservation ::
  "'w runner option \<Rightarrow> network_interface list result \<Rightarrow> (string \<Rightarrow> string result) \<Rightarrow> int \<Rightarrow> reservation_config \<Rightarrow> ('w, config_change list) step" where
  "StageReservation mrun ifaces files now cfg w =
     (case mrun of None \<Rightarrow> (Inl (Failed ''not implemented''), w)
      | Some run \<Rightarrow> (case ParseMAC (TrimSpace (rc_MAC cfg)) of None \<Rightarrow> (Inl (Refused ''mac'' ''not a MAC address''), w)
      | Some hw \<Rightarrow> (case ParseIP4 (TrimSpace (rc_IP cfg)) of None \<Rightarrow> (Inl (Refused ''ip'' ''not an IPv4 address''), w)
      | Some ip \<Rightarrow>
          if rc_Name cfg \<noteq> [] \<and> \<not> hostName (rc_Name cfg) then (Inl (Refused ''name'' ''not a device name''), w)
          else case lanNetwork run ifaces files now w of (network, w1) \<Rightarrow>
            if (case network of Inl e \<Rightarrow> False | Inr n \<Rightarrow> \<not> net_Contains n (V4 ip)) then (Inl (Refused ''ip'' ''outside the local network''), w1)
            else case reserved run w1 of (rs, w2) \<Rightarrow>
              let mac = macString hw; sets = reservationSettings mac (ip4_string ip) (rc_Name cfg);
                  edit = (\<lambda>r. case stage run ''dhcp'' (ra_ID r) sets w2 of
                     (Inl e, w3) \<Rightarrow> (Inl e, w3)
                   | (Inr ch, w3) \<Rightarrow> (Inr (withSubject ch (entrySubject (ra_Name r) (reservationWords r))), w3));
                  fresh = bindR (addEntry run ''dhcp'' ''host'') (\<lambda>section. bindR (stage run ''dhcp'' section sets) (\<lambda>_.
                     retR [wholeRow ''dhcp'' (describe ''dhcp'' ''host'' []) []
                       (reservationWords \<lparr>ra_MAC = mac, ra_IP = ip4_string ip, ra_Name = rc_Name cfg, ra_ID = []\<rparr>) section])) w2
              in case List.find (\<lambda>r. EqualFold (ra_MAC r) mac) rs of
                   None \<Rightarrow> fresh
                 | Some r \<Rightarrow> if ra_ID r = [] then fresh else edit r)))"

definition RemoveReservation :: "'w runner option \<Rightarrow> string \<Rightarrow> ('w, config_change list) step" where
  "RemoveReservation mrun i =
     (case mrun of None \<Rightarrow> failR (Failed ''not implemented'')
      | Some run \<Rightarrow>
          bindR (checkR (sectionName i \<or> anonSection i) (Failed ''not an entry on this device'')) (\<lambda>_.
          bindR (pureR (reserved run)) (\<lambda>rs.
            case List.find (\<lambda>r. ra_ID r = i) rs of None \<Rightarrow> failR (Failed ''no such reservation'')
            | Some r \<Rightarrow>
                bindR (wrapR (Failed ''stage removal'') (run ''uci'' [''delete'', ''dhcp.'' @ i])) (\<lambda>_.
                  retR [wholeRow ''dhcp'' (describe ''dhcp'' ''host'' []) (reservationWords r) [] i]))))"

section \<open>Offsets and addresses\<close>

lemma wrap64_id: "- (2 ^ 63) \<le> i \<Longrightarrow> i < 2 ^ 63 \<Longrightarrow> wrap64 i = i"
  by (simp add: wrap64_def)

lemma wrap64_over: "2 ^ 63 \<le> i \<Longrightarrow> i < 2 ^ 64 + 2 ^ 63 \<Longrightarrow> wrap64 i = i - 2 ^ 64"
  using mod_add_self2 [of "i - 2 ^ 63" "2 ^ 64 :: int"] by (simp add: wrap64_def add.commute)

lemma wrap64_under: "- (2 ^ 64) - 2 ^ 63 \<le> i \<Longrightarrow> i < - (2 ^ 63) \<Longrightarrow> wrap64 i = i + 2 ^ 64"
  using mod_add_self2 [of "i + 2 ^ 63" "2 ^ 64 :: int"] by (simp add: wrap64_def)

lemma ip4_range: "0 \<le> uint (a :: ip4)" "uint a \<le> 0xFFFFFFFF"
  using uint_lt2p [of a] by simp_all

lemma addOffset_Some: "addOffset base i = Some a \<longleftrightarrow> 0 \<le> i \<and> uint a = uint base + i"
proof
  assume a: "addOffset base i = Some a"
  then have i: "0 \<le> i" "uint base + i \<le> 0xFFFFFFFF" "a = word_of_int (uint base + i)"
    by (auto simp: addOffset_def Let_def split: if_splits)
  have "uint a = (uint base + i) mod 2 ^ 32" unfolding i(3) uint_word_of_int by simp
  with i(1,2) ip4_range [of base] show "0 \<le> i \<and> uint a = uint base + i" by simp
next
  assume a: "0 \<le> i \<and> uint a = uint base + i"
  then have "word_of_int (uint base + i) = a" by (metis word_of_int_uint)
  with a ip4_range [of a] show "addOffset base i = Some a" by (auto simp: addOffset_def Let_def)
qed

lemma network4_le: "network4 n a \<le> a"
  by (simp add: network4_def word_and_le2)

lemma network4_idem [simp]: "network4 n (network4 n a) = network4 n a"
  by (simp add: network4_def and.assoc)

lemma ParseCIDR_base:
  assumes "ParseCIDR cidr = Some (ip, N4 base n)"
  shows "To4 ip \<noteq> None \<and> network4 n base = base"
proof -
  from assms obtain m where "(case ip of V4 x \<Rightarrow> N4 (network4 m x) m
      | V6 x z \<Rightarrow> (case To4 ip of Some y \<Rightarrow> if m \<ge> 96 then N4 (network4 (m - 96) y) (m - 96) else N6 (network6 m x) m
          | None \<Rightarrow> N6 (network6 m x) m)) = N4 base n"
    by (auto simp: ParseCIDR_def Let_def split: option.splits if_splits)
  then show ?thesis by (cases ip) (auto split: option.splits if_splits)
qed

lemma in_network_ge: "network4 n base = base \<Longrightarrow> net_Contains (N4 base n) (V4 a) \<Longrightarrow> base \<le> a"
  using network4_le [of n a] by simp

text \<open>The pool ends and the pool offsets are the same pair of addresses.\<close>

lemma poolEnds_iff:
  assumes "0 < start" "0 < limit" "limit < 2 ^ 63"
  shows "poolEnds network base start limit = Some (ip4_string f, ip4_string l) \<longleftrightarrow>
    net_Contains network (V4 f) \<and> net_Contains network (V4 l) \<and> uint f = uint base + start \<and> uint l = uint f + limit - 1"
proof -
  have wrapped: "wrap64 (wrap64 (start + limit) - 1) = start + limit - 1" if "start \<le> 2 ^ 32" "start + limit < 2 ^ 63"
    using that assms by (simp add: wrap64_id)
  have big: "wrap64 (wrap64 (start + limit) - 1) < 0 \<or> wrap64 (wrap64 (start + limit) - 1) > 2 ^ 33" if "start \<le> 2 ^ 32" "\<not> start + limit < 2 ^ 63"
    using that assms wrap64_over [of "start + limit"] wrap64_under [of "- (2 ^ 63) - 1"] wrap64_id [of "start + limit - 2 ^ 64 - 1"]
    by (cases "start + limit = 2 ^ 63") simp_all
  show ?thesis
  proof
    assume "poolEnds network base start limit = Some (ip4_string f, ip4_string l)"
    then have c: "net_Contains network (V4 f)" "net_Contains network (V4 l)" and af: "addOffset base start = Some f"
      and al: "addOffset base (wrap64 (wrap64 (start + limit) - 1)) = Some l"
      by (auto simp: poolEnds_def dest!: ip4_string_inj split: option.splits if_splits)
    have f: "uint f = uint base + start" using af addOffset_Some by blast
    have "start \<le> 4294967295" using f ip4_range(2) [of f] ip4_range(1) [of base] by linarith
    then have s: "start \<le> 2 ^ 32" by simp
    have "start + limit < 2 ^ 63"
      using al addOffset_Some [of base _ l] big [OF s] ip4_range [of l] ip4_range [of base] by auto
    with al wrapped [OF s] have "uint l = uint base + (start + limit - 1)" using addOffset_Some by simp
    with c f show "net_Contains network (V4 f) \<and> net_Contains network (V4 l) \<and> uint f = uint base + start \<and> uint l = uint f + limit - 1" by simp
  next
    assume a: "net_Contains network (V4 f) \<and> net_Contains network (V4 l) \<and> uint f = uint base + start \<and> uint l = uint f + limit - 1"
    then have "start \<le> 4294967296 \<and> start + limit \<le> 4294967296"
      using ip4_range(2) [of f] ip4_range(2) [of l] ip4_range(1) [of base] by linarith
    then have s: "start \<le> 2 ^ 32" "start + limit < 2 ^ 63" by simp_all
    have "addOffset base start = Some f" using a assms by (simp add: addOffset_Some)
    moreover have "addOffset base (wrap64 (wrap64 (start + limit) - 1)) = Some l"
      unfolding wrapped [OF s] using a assms by (simp add: addOffset_Some)
    ultimately show "poolEnds network base start limit = Some (ip4_string f, ip4_string l)" using a by (simp add: poolEnds_def)
  qed
qed

lemma poolOffsets_iff:
  assumes "network4 n base = base" "ParseIP4 a = Some f" "ParseIP4 b = Some l"
  shows "poolOffsets (N4 base n) a b = Inr (start, limit) \<longleftrightarrow>
    net_Contains (N4 base n) (V4 f) \<and> net_Contains (N4 base n) (V4 l) \<and> uint f = uint base + start \<and> uint l = uint f + limit - 1 \<and>
    0 < start \<and> 0 < limit"
proof -
  have d: "y \<le> x \<Longrightarrow> uint (x - y) = uint x - uint y" for x y :: ip4 by (simp add: uint_minus_simple_alt)
  show ?thesis
  proof (cases "net_Contains (N4 base n) (V4 f) \<and> net_Contains (N4 base n) (V4 l)")
    case True
    then have bf: "base \<le> f" using in_network_ge [OF assms(1)] by blast
    show ?thesis
    proof (cases "l < f")
      case True
      then have "uint l < uint f" by (simp add: word_less_def)
      then show ?thesis using True assms by (auto simp: poolOffsets_def)
    next
      case False
      then have fl: "f \<le> l" by simp
      have "uint base \<le> uint f" "uint f \<le> uint l" using bf fl by (simp_all add: word_le_def)
      then show ?thesis
        using True False assms d [OF bf] d [OF fl] by (auto simp: poolOffsets_def Let_def the_default_def)
    qed
  qed (use assms in \<open>auto simp: poolOffsets_def\<close>)
qed

text \<open>
  C21. The pool in numbers and the pool in addresses are one thing. In a network the device shows as \<open>cidr\<close>, converting the
  addresses \<open>a\<close> to \<open>b\<close> gives an offset and a count exactly when that offset and count read back as those two addresses.
\<close>

theorem pool_roundtrip:
  assumes "ParseCIDR cidr = Some (ip, N4 base n)" and "ParseIP4 a = Some f" and "ParseIP4 b = Some l"
    and "0 < start" "0 < limit" "limit < 2 ^ 63"
  shows "poolOffsets (N4 base n) a b = Inr (start, limit) \<longleftrightarrow> poolRange [cidr] start limit = Some (ip4_string f, ip4_string l)"
proof -
  note b = ParseCIDR_base [OF assms(1)]
  have "poolRange [cidr] start limit = poolEnds (N4 base n) base start limit" using assms(1) b by auto
  then show ?thesis
    using poolOffsets_iff [OF _ assms(2,3), of n base start limit] poolEnds_iff [OF assms(4-6), of "N4 base n" base f l] b assms(4,5) by simp
qed

lemma demo_cidr: "ParseCIDR ''192.168.1.1/24'' = Some (V4 0xC0A80101, N4 0xC0A80100 24)"
  by code_simp

lemma demo_ends: "ParseIP4 ''192.168.1.100'' = Some 0xC0A80164" "ParseIP4 ''192.168.1.249'' = Some 0xC0A801F9"
  by code_simp+

lemma demo_offsets: "poolOffsets (N4 0xC0A80100 24) ''192.168.1.100'' ''192.168.1.249'' = Inr (100, 150)"
  by code_simp

theorem pool_roundtrip_witness:
  "poolRange [''192.168.1.1/24''] 100 150 = Some (ip4_string 0xC0A80164, ip4_string 0xC0A801F9)"
  using pool_roundtrip [OF demo_cidr demo_ends, of 100 150] demo_offsets by simp

section \<open>Durations\<close>

lemma last_nat_digits: "is_digit (last (nat_digits n))"
  using all_digits_nat_digits [of n] by (auto simp: all_digits_def list_all_iff)

lemma digit_not_space: "is_digit c \<Longrightarrow> \<not> is_space c"
  by (auto simp: is_digit_def is_space_def)

lemma TrimSpace_digits [simp]: "TrimSpace (nat_digits n) = nat_digits n"
  by (rule TrimSpace_id) (simp_all add: digit_not_space is_digit_hd_nat_digits last_nat_digits)

lemma TrimSpace_digits_unit: "\<not> is_space c \<Longrightarrow> TrimSpace (nat_digits n @ [c]) = nat_digits n @ [c]"
  by (rule TrimSpace_id) (simp_all add: hd_append digit_not_space is_digit_hd_nat_digits)

lemma unit_not_digit: "is_digit c \<Longrightarrow> map_of leaseUnits c = None"
  by (auto simp: leaseUnits_def is_digit_def)

lemma digits_not_infinite: "nat_digits n @ u \<noteq> ''infinite''"
proof
  assume "nat_digits n @ u = ''infinite''"
  then have "hd (nat_digits n @ u) = CHR ''i''" by simp
  then show False using is_digit_hd_nat_digits [of n] by (simp add: hd_append is_digit_def)
qed

lemma parseLeaseTime_digits: "int n < 2 ^ 63 \<Longrightarrow> parseLeaseTime (nat_digits n) = int n"
  using Atoi_Itoa [of "int n"] digits_not_infinite [of n "[]"] unit_not_digit [OF last_nat_digits, of n]
  by (simp add: parseLeaseTime_def Itoa_def Let_def wrap64_id)

lemma parseLeaseTime_unit:
  assumes "map_of leaseUnits c = Some u" "\<not> is_space c" "0 \<le> int n * u" "int n * u < 2 ^ 63" "int n < 2 ^ 63"
  shows "parseLeaseTime (nat_digits n @ [c]) = int n * u"
  using assms Atoi_Itoa [of "int n"] digits_not_infinite [of n "[c]"]
  by (auto simp add: parseLeaseTime_def Itoa_def Let_def wrap64_id TrimSpace_digits_unit)

lemma lease_seconds:
  assumes "0 < sec" "sec < 2 ^ 63"
  shows "parseLeaseTime (formatLeaseTime sec) = sec"
proof -
  have u: "map_of leaseUnits CHR ''h'' = Some 3600" "map_of leaseUnits CHR ''m'' = Some 60" by (simp_all add: leaseUnits_def)
  have i: "Itoa i = nat_digits (nat i)" if "0 \<le> i" for i using that by (simp add: Itoa_def)
  consider (h) "sec mod 3600 = 0" | (m) "sec mod 3600 \<noteq> 0" "sec mod 60 = 0" | (s) "sec mod 3600 \<noteq> 0" "sec mod 60 \<noteq> 0" by blast
  then show ?thesis
  proof cases
    case h
    then have "sec div 3600 * 3600 = sec" by auto
    with h assms i [of "sec div 3600"] parseLeaseTime_unit [OF u(1), of "nat (sec div 3600)"] show ?thesis
      by (simp add: formatLeaseTime_def is_space_def)
  next
    case m
    then have "sec div 60 * 60 = sec" by auto
    with m assms i [of "sec div 60"] parseLeaseTime_unit [OF u(2), of "nat (sec div 60)"] show ?thesis
      by (simp add: formatLeaseTime_def is_space_def)
  next
    case s
    then show ?thesis using assms i [of sec] parseLeaseTime_digits [of "nat sec"] by (simp add: formatLeaseTime_def)
  qed
qed

section \<open>The handout through the draft\<close>

lemma lanNets_Cons: "lanNets (c # cs) = (case ParseCIDR c of None \<Rightarrow> lanNets cs | Some (ip, n) \<Rightarrow> n # lanNets cs)"
  by (simp add: lanNets_def map_filter_simps split: option.splits prod.splits)

lemma findNetwork_pool:
  "findNetwork addrs = Inr n \<Longrightarrow>
    \<exists>base m. n = N4 base m \<and> network4 m base = base \<and> (\<forall>s l. poolRange addrs s l = poolEnds n base s l)"
proof (induction addrs)
  case (Cons c cs)
  show ?case
  proof (cases "ParseCIDR c")
    case None
    with Cons show ?thesis by (simp add: findNetwork_def lanNets_Cons)
  next
    case (Some x)
    then obtain ip k where c: "ParseCIDR c = Some (ip, k)" by (cases x) auto
    show ?thesis
    proof (cases k)
      case (N4 b m)
      with Cons.prems c have "n = N4 b m" by (simp add: findNetwork_def lanNets_Cons)
      with ParseCIDR_base [of c ip b m] c N4 show ?thesis by auto
    next
      case (N6 b m)
      with Cons c show ?thesis by (cases "To4 ip") (simp_all add: findNetwork_def lanNets_Cons)
    qed
  qed
qed (simp add: findNetwork_def lanNets_def)

lemma Itoa_trim: "0 \<le> i \<Longrightarrow> TrimSpace (Itoa i) = Itoa i"
  by (simp add: Itoa_def)

lemma formatLeaseTime_trim: "0 < sec \<Longrightarrow> TrimSpace (formatLeaseTime sec) = formatLeaseTime sec"
  by (auto simp: formatLeaseTime_def Itoa_def TrimSpace_digits_unit is_space_def)

lemma handoutSettings_plain:
  assumes "0 \<le> start" "0 \<le> limit"
  shows "distinct (map s_key (handoutSettings cfg start limit fb lb))"
    and "\<forall>s \<in> set (handoutSettings cfg start limit fb lb). CHR ''='' \<notin> set (s_key s) \<and> CHR ''.'' \<notin> set (s_key s) \<and> TrimSpace (s_value s) = s_value s"
proof -
  have e: "TrimSpace [] = []" by (simp add: TrimSpace_def TrimLeft_def TrimRight_def)
  show "distinct (map s_key (handoutSettings cfg start limit fb lb))"
    by (simp add: handoutSettings_def lanSetting_def setting0_def)
  show "\<forall>s \<in> set (handoutSettings cfg start limit fb lb). CHR ''='' \<notin> set (s_key s) \<and> CHR ''.'' \<notin> set (s_key s) \<and> TrimSpace (s_value s) = s_value s"
    using assms e by (auto simp: handoutSettings_def lanSetting_def setting0_def Itoa_trim formatLeaseTime_trim)
qed

lemma stageKey_lan: "stageKey ''dhcp'' lanSection k = dhcpKey k"
  by (simp add: stageKey_def dhcpKey_def)

lemma lan_names: "sectionName ''dhcp''" "sectionName ''network''" "sectionName lanSection"
  by (simp_all add: sectionName_def word_char_def lanSection_def)

context uci_tool
begin

lemma handout_after:
  assumes "stage run ''dhcp'' lanSection (handoutSettings cfg start limit fb lb) w = (Inr changes, w')"
    and "0 \<le> start" "start < 2 ^ 63" "0 < limit" "limit < 2 ^ 63" and "0 < hc_LeaseSeconds cfg" "hc_LeaseSeconds cfg < 2 ^ 63"
  shows "fst (handout run lan w') =
    (case poolRange (if_IPv4 lan) start limit of
       None \<Rightarrow> \<lparr>h_Enabled = True, h_First = [], h_Last = [], h_LeaseSeconds = parseLeaseTime (formatLeaseTime (hc_LeaseSeconds cfg))\<rparr>
     | Some (a, b) \<Rightarrow> \<lparr>h_Enabled = True, h_First = a, h_Last = b, h_LeaseSeconds = parseLeaseTime (formatLeaseTime (hc_LeaseSeconds cfg))\<rparr>)"
proof -
  note plain = handoutSettings_plain [of start limit cfg fb lb]
  have ss: "stageSets run ''dhcp'' lanSection (handoutSettings cfg start limit fb lb) [] w = (Inr changes, w')"
    using assms(1) by (simp add: stage_def lan_names)
  have settled: "settled s (cur w' (dhcpKey (s_key s)))" if "s \<in> set (handoutSettings cfg start limit fb lb)" for s
    using stageSets_ok [OF ss] plain stageKey_plain [OF lan_names(1) disjI1 [OF lan_names(3)]] assms that
    by (simp add: stageKey_lan)
  have read: "beforeOf (cur w') (dhcpKey (s_key s)) = (if s_remove s then [] else s_value s)"
    if "s \<in> set (handoutSettings cfg start limit fb lb)" "s_sameAsAbsent s = []" for s
    using settled [OF that(1)] that(2) by (auto simp: settled_def beforeOf_def Let_def split: if_splits)
  have v: "before w' (dhcpKey ''ignore'') = []" "before w' (dhcpKey ''start'') = Itoa start"
    "before w' (dhcpKey ''limit'') = Itoa limit" "before w' (dhcpKey ''leasetime'') = formatLeaseTime (hc_LeaseSeconds cfg)"
    using read [of "(lanSetting ''dhcp'' ''ignore'' [])\<lparr>s_remove := True\<rparr>"]
      read [of "(lanSetting ''dhcp'' ''start'' (Itoa start))\<lparr>s_shown := hc_First cfg, s_shownBefore := fb\<rparr>"]
      read [of "(lanSetting ''dhcp'' ''limit'' (Itoa limit))\<lparr>s_shown := hc_Last cfg, s_shownBefore := lb\<rparr>"]
      read [of "lanSetting ''dhcp'' ''leasetime'' (formatLeaseTime (hc_LeaseSeconds cfg))"] assms(6)
    by (simp_all add: handoutSettings_def lanSetting_def setting0_def)
  obtain i w1 where g1: "uciGet run (dhcpKey ''ignore'') w' = (i, w1)" by (rule prod.exhaust)
  obtain s w2 where g2: "uciGet run (dhcpKey ''start'') w1 = (s, w2)" by (rule prod.exhaust)
  obtain l w3 where g3: "uciGet run (dhcpKey ''limit'') w2 = (l, w3)" by (rule prod.exhaust)
  obtain t w4 where g4: "uciGet run (dhcpKey ''leasetime'') w3 = (t, w4)" by (rule prod.exhaust)
  note g = uciGet_before [OF g1] uciGet_before [OF g2] uciGet_before [OF g3] uciGet_before [OF g4]
  have "i = []" "s = Itoa start" "l = Itoa limit" "t = formatLeaseTime (hc_LeaseSeconds cfg)" using g v by auto
  then show ?thesis
    using g1 g2 g3 g4 assms Atoi_Itoa [of start] Atoi_Itoa [of limit]
    by (simp add: handout_def noHandout_def split: option.splits)
qed

end

text \<open>
  C23. The handout a person asks for is the handout the panel then shows: after staging first and last address and a
  lease time, reading the handout back from the draft gives it enabled, with those two addresses and that time,
  although the device stores an offset, a count and a text.
\<close>

theorem handout_roundtrip:
  assumes "uci_tool run cur live" and "StageHandout (Some run) (Inr is) files now cfg w = (Inr changes, w')"
    and "findLan is = Some lan" and "hc_Enabled cfg" and "0 < hc_LeaseSeconds cfg" "hc_LeaseSeconds cfg < 2 ^ 63"
  shows "\<exists>f l. ParseIP4 (hc_First cfg) = Some f \<and> ParseIP4 (hc_Last cfg) = Some l \<and>
    fst (handout run lan w') = \<lparr>h_Enabled = True, h_First = ip4_string f, h_Last = ip4_string l, h_LeaseSeconds = hc_LeaseSeconds cfg\<rparr>"
proof -
  from assms(2,3,4) obtain n start limit fb lb u where net: "findNetwork (if_IPv4 lan) = Inr n"
    and off: "poolOffsets n (hc_First cfg) (hc_Last cfg) = Inr (start, limit)"
    and st: "stage run ''dhcp'' lanSection (handoutSettings cfg start limit fb lb) u = (Inr changes, w')"
    by (auto simp: StageHandout_def bindR_Inr lanNetwork_def LANInfo_def Let_def split: prod.splits)
  from off obtain f l where p: "ParseIP4 (hc_First cfg) = Some f" "ParseIP4 (hc_Last cfg) = Some l"
    by (auto simp: poolOffsets_def split: option.splits)
  from findNetwork_pool [OF net] obtain base m where n: "n = N4 base m" "network4 m base = base"
    and r: "\<And>s l. poolRange (if_IPv4 lan) s l = poolEnds n base s l" by auto
  have o': "net_Contains n (V4 f)" "net_Contains n (V4 l)" "uint f = uint base + start" "uint l = uint f + limit - 1" "0 < start" "0 < limit"
    using poolOffsets_iff [OF n(2) p] off n(1) by auto
  have "start \<le> 4294967296 \<and> limit \<le> 4294967296"
    using o'(3-6) ip4_range(2) [of f] ip4_range(2) [of l] ip4_range(1) [of base] by linarith
  then have b: "start < 2 ^ 63 \<and> limit < 2 ^ 63" by simp
  have "poolRange (if_IPv4 lan) start limit = Some (ip4_string f, ip4_string l)"
    unfolding r using poolEnds_iff [OF o'(5,6), of n base f l] b o' by simp
  with uci_tool.handout_after [OF assms(1) st] b o'(5,6) assms(5,6) p lease_seconds [OF assms(5,6)] show ?thesis by simp
qed

definition demo_lan :: network_interface where
  "demo_lan = \<lparr>if_Name = ''lan'', if_Device = ''br-lan'', if_Up = True, if_Proto = ''static'', if_UptimeSec = 60,
     if_IPv4 = [''192.168.1.1/24''], if_IPv6 = [], if_Gateway = [], if_Gateway6 = [], if_DNS = []\<rparr>"

definition demo_handout :: handout_config where
  "demo_handout = \<lparr>hc_Enabled = True, hc_First = ''192.168.1.100'', hc_Last = ''192.168.1.249'', hc_LeaseSeconds = 43200\<rparr>"

definition no_files :: "string \<Rightarrow> string result" where "no_files path = Inl (Failed ''open'')"

lemma demo_handout_staged: "\<not> isl (fst (StageHandout (Some ref_uci) (Inr [demo_lan]) no_files 0 demo_handout demo_uci))"
  by code_simp

theorem handout_roundtrip_witness:
  "\<exists>changes w'. StageHandout (Some ref_uci) (Inr [demo_lan]) no_files 0 demo_handout demo_uci = (Inr changes, w') \<and>
     h_First (fst (handout ref_uci demo_lan w')) = ip4_string 0xC0A80164"
proof -
  obtain changes w' where s: "StageHandout (Some ref_uci) (Inr [demo_lan]) no_files 0 demo_handout demo_uci = (Inr changes, w')"
    using demo_handout_staged by (metis isl_def obj_sumE prod.collapse)
  have "findLan [demo_lan] = Some demo_lan" by (simp add: findLan_def demo_lan_def lanSection_def)
  from handout_roundtrip [OF ru.uci_tool_axioms s this] s demo_ends show ?thesis by (auto simp: demo_handout_def)
qed

text \<open>A network is an interval of addresses.\<close>

declare ip6_groups.simps [simp del]

lemma network4_as_blocks: "network4 n y = push_bit (32 - n) (drop_bit (32 - n) y)"
proof (rule bit_word_eqI)
  fix k assume k: "k < LENGTH(32)"
  show "bit (network4 n y) k = bit (push_bit (32 - n) (drop_bit (32 - n) y)) k"
  proof (cases "32 - n \<le> k")
    case True
    with k show ?thesis by (simp add: network4_def netmask4_def bit_and_iff bit_push_bit_iff bit_drop_bit_eq bit_minus_1_iff bit_mask_iff; arith)
  next
    case False
    with k show ?thesis by (simp add: network4_def netmask4_def bit_and_iff bit_push_bit_iff)
  qed
qed

lemma network4_between:
  assumes "network4 n a = network4 n b" "uint a \<le> uint x" "uint x \<le> uint b"
  shows "network4 n x = network4 n a"
proof -
  let ?k = "32 - n"
  note blocks = network4_as_blocks
  have blk: "drop_bit ?k (network4 n y) = drop_bit ?k y" for y
    by (rule bit_word_eqI) (simp add: blocks bit_drop_bit_eq bit_push_bit_iff, use bit_imp_le_length [of y] in auto)
  have "drop_bit ?k a = drop_bit ?k b"
    using assms(1) blk by metis
  moreover have "uint (drop_bit ?k y) = uint y div 2 ^ ?k" for y :: ip4
    unfolding unsigned_drop_bit_eq using take_bit_int_eq_self [of "uint y" 32] uint_bounded [of y] by (simp add: drop_bit_eq_div)
  then have "uint (drop_bit ?k a) \<le> uint (drop_bit ?k x)" "uint (drop_bit ?k x) \<le> uint (drop_bit ?k b)"
    using assms(2,3) by (simp_all add: zdiv_mono1)
  ultimately have "drop_bit ?k x = drop_bit ?k a" by (simp add: word_uint_eq_iff)
  then show ?thesis by (simp add: blocks)
qed

lemma poolEnds_inside:
  assumes p: "poolEnds (N4 base n) base s l = Some e" and r: "0 < l" "l < 2 ^ 63" "s < 2 ^ 63" and i: "s \<le> i" "i < s + l"
  shows "\<exists>x. uint x = uint base + i \<and> network4 n x = network4 n base"
proof -
  from p obtain f z where f: "addOffset base s = Some f" and z: "addOffset base (wrap64 (wrap64 (s + l) - 1)) = Some z"
    and c: "network4 n f = network4 n base" "network4 n z = network4 n base"
    by (auto simp: poolEnds_def split: option.splits if_splits)
  from f z have f': "0 \<le> s" "uint f = uint base + s" and z': "0 \<le> wrap64 (wrap64 (s + l) - 1)" "uint z = uint base + wrap64 (wrap64 (s + l) - 1)"
    by (simp_all add: addOffset_Some)
  have small: "s \<le> 4294967296" using f' ip4_range(2) [of f] ip4_range(1) [of base] by linarith
  have "s + l < 2 ^ 63"
  proof (rule ccontr)
    assume "\<not> s + l < 2 ^ 63"
    then have "wrap64 (s + l) = s + l - 2 ^ 64" using wrap64_over [of "s + l"] small r by simp
    then have "wrap64 (wrap64 (s + l) - 1) < 0 \<or> s + l = 2 ^ 63"
      using small r \<open>\<not> s + l < 2 ^ 63\<close> wrap64_id [of "s + l - 2 ^ 64 - 1"] by (cases "s + l = 2 ^ 63") simp_all
    moreover have "wrap64 (wrap64 (s + l) - 1) = 9223372036854775807" if "s + l = 2 ^ 63"
      using that wrap64_over [of "s + l"] wrap64_under [of "- (2 ^ 63) - 1"] by simp
    ultimately show False
      using z' ip4_range [of z] ip4_range [of base] by (auto dest: leD)
  qed
  then have w: "wrap64 (wrap64 (s + l) - 1) = s + l - 1" using f' r by (simp add: wrap64_id)
  have u: "uint base + i \<le> 0xFFFFFFFF" "0 \<le> uint base + i" using w z' i f' ip4_range [of z] ip4_range [of base] by simp_all
  then have x: "uint (word_of_int (uint base + i) :: ip4) = uint base + i" unfolding uint_word_of_int_eq by (intro take_bit_int_eq_self) simp_all
  have "network4 n (word_of_int (uint base + i)) = network4 n f"
    by (rule network4_between [where b = z]) (use c x f' z' w i in simp_all)
  with x c show ?thesis by metis
qed

lemma ip6_step:
  assumes "ip6_groups s gs ell = Some r"
  shows "s = [] \<or> (\<exists>a. parseIPv4 s = Some a) \<or> (\<forall>c \<in> set s. is_hex c) \<or>
    (\<exists>ds y gs' ell'. s = ds @ CHR '':'' # y \<and> (\<forall>c \<in> set ds. is_hex c) \<and>
      (y = [CHR '':''] \<or> ip6_groups y gs' ell' = Some r \<or> hd y = CHR '':'' \<and> y \<noteq> [] \<and> ip6_groups (tl y) gs' ell' = Some r))"
proof -
  define ds where "ds = takeWhile is_hex s"
  define q where "q = dropWhile is_hex s"
  have s: "s = ds @ q" by (simp add: ds_def q_def)
  have hex: "\<forall>c \<in> set ds. is_hex c" using set_takeWhileD by (metis ds_def)
  note u = assms [unfolded ip6_groups.simps [of s gs ell] Let_def, folded ds_def q_def]
  consider "length gs \<ge> 8" | "length gs < 8" "take 1 q = ''.''" | "length gs < 8" "take 1 q \<noteq> ''.''" by linarith
  then show ?thesis
  proof cases
    case 1 with u show ?thesis by (simp split: if_splits)
  next
    case 2 with u show ?thesis by (simp split: if_splits option.splits)
  next
    case 3
    have nd: "ds \<noteq> []" "length ds \<le> 4" using u 3 by (auto split: if_splits)
    show ?thesis
    proof (cases q)
      case Nil with s hex show ?thesis by simp
    next
      case (Cons x y)
      have xy: "x = CHR '':''" "y \<noteq> []" using u 3 nd unfolding Cons by (simp_all split: if_splits)
      have w: "(if hd y = CHR '':'' then if ell \<noteq> None then None
           else if tl y = [] then Some (gs @ [hex_val ds], Some (length gs + 1))
           else ip6_groups (tl y) (gs @ [hex_val ds]) (Some (length gs + 1))
        else ip6_groups y (gs @ [hex_val ds]) ell) = Some r"
        using u 3 nd xy unfolding Cons by (simp split del: if_split cong: if_cong)
      have "y = [CHR '':''] \<or> (\<exists>gs' ell'. ip6_groups y gs' ell' = Some r \<or> hd y = CHR '':'' \<and> y \<noteq> [] \<and> ip6_groups (tl y) gs' ell' = Some r)"
      proof (cases "hd y = CHR '':''")
        case True
        show ?thesis
        proof (cases "tl y = []")
          case True with \<open>hd y = CHR '':''\<close> xy(2) show ?thesis by (cases y) simp_all
        next
          case False with w True xy(2) show ?thesis by (auto split: if_splits)
        qed
      next
        case False with w show ?thesis by auto
      qed
      with s Cons xy(1) hex show ?thesis by blast
    qed
  qed
qed

lemma hex_not_space: "is_hex c \<Longrightarrow> \<not> is_space c"
  by (auto simp: is_hex_def hexVal_def is_space_def split: if_splits)

lemma colon_not_space: "\<not> is_space CHR '':''" by (simp add: is_space_def)

text \<open>An address has no white space, so it is read back from the draft as it was given.\<close>

lemma those_Some: "those xs = Some ys \<Longrightarrow> x \<in> set xs \<Longrightarrow> x \<noteq> None"
  by (induction xs arbitrary: ys) (auto split: option.splits)

lemma parseIPv4_chars: "parseIPv4 s = Some a \<Longrightarrow> c \<in> set s \<Longrightarrow> \<not> is_space c"
proof -
  assume p: "parseIPv4 s = Some a" and c: "c \<in> set s"
  have o4: "octet4 t = Some v \<Longrightarrow> d \<in> set t \<Longrightarrow> \<not> is_space d" for t v d
    using digit_not_space by (auto simp: octet4_def all_digits_def list_all_iff split: if_splits)
  from p have "\<forall>t \<in> set (Split s CHR ''.''). octet4 t \<noteq> None"
    using those_Some by (fastforce simp: parseIPv4_def split: option.splits)
  moreover have "c = CHR ''.'' \<or> (\<exists>t \<in> set (Split s CHR ''.''). c \<in> set t)" using c
    by (induction s) (auto split: if_splits list.splits)
  ultimately show ?thesis using o4 by (auto simp: is_space_def)
qed

lemma ip6_groups_chars: "ip6_groups s gs ell = Some r \<Longrightarrow> c \<in> set s \<Longrightarrow> \<not> is_space c"
proof (induction "length s" arbitrary: s gs ell rule: less_induct)
  case less
  from ip6_step [OF less.prems(1)] consider "s = []" | a where "parseIPv4 s = Some a" | "\<forall>c \<in> set s. is_hex c"
    | ds y gs' ell' where "s = ds @ CHR '':'' # y" "\<forall>c \<in> set ds. is_hex c"
      "y = [CHR '':''] \<or> ip6_groups y gs' ell' = Some r \<or> hd y = CHR '':'' \<and> y \<noteq> [] \<and> ip6_groups (tl y) gs' ell' = Some r"
    by blast
  then show ?case
  proof cases
    case 4
    have "\<not> is_space c" if c: "c \<in> set y"
      using 4(3)
    proof (elim disjE conjE)
      assume "hd y = CHR '':''" "y \<noteq> []" "ip6_groups (tl y) gs' ell' = Some r"
      with less.hyps [of "tl y" gs' ell'] 4(1) c colon_not_space show ?thesis by (cases y) auto
    qed (use less.hyps [of y gs' ell'] 4(1) c colon_not_space in auto)
    with 4(1,2) less.prems(2) show ?thesis using colon_not_space hex_not_space by auto
  qed (use less.prems(2) parseIPv4_chars hex_not_space in auto)
qed

lemma parseIPv6_zoneless:
  assumes "parseIPv6 s = Some b" "Zone b = []"
  shows "s = ''::'' \<or> (\<exists>t r e. (s = t \<or> s = ''::'' @ t) \<and> ip6_groups t [] e = Some r)"
proof (cases "Cut s CHR ''%''")
  case None
  with assms(1) have d: "HasPrefix s ''::'' \<and> length s = 2 \<or> (\<exists>r. (if HasPrefix s ''::'' then ip6_groups (drop 2 s) [] (Some 0) else ip6_groups s [] None) = Some r)"
    by (auto simp: parseIPv6_def Let_def split: if_split_asm option.splits)
  show ?thesis
  proof (cases "HasPrefix s ''::''")
    case True
    then have s: "s = ''::'' @ drop 2 s" by (auto simp: HasPrefix_iff)
    show ?thesis
    proof (cases "length s = 2")
      case True with s show ?thesis by simp
    next
      case False with d True s show ?thesis by (metis)
    qed
  next
    case False with d show ?thesis by auto
  qed
next
  case (Some xz)
  with assms(1) have "Zone b = snd xz \<and> snd xz \<noteq> []"
    by (cases xz) (auto simp: parseIPv6_def Let_def split: if_split_asm option.split_asm)
  with assms(2) show ?thesis by simp
qed

lemma ParseIP4_chars: "ParseIP4 s = Some a \<Longrightarrow> c \<in> set s \<Longrightarrow> \<not> is_space c"
proof -
  assume p: "ParseIP4 s = Some a" and c: "c \<in> set s"
  then obtain b where b: "ParseAddr s = Some b" "Zone b = []"
    by (auto simp: ParseIP4_def ParseIP_def bind_eq_Some_conv split: option.splits if_splits)
  then have "(\<exists>x. parseIPv4 s = Some x) \<or> parseIPv6 s = Some b" by (auto simp: ParseAddr_def split: option.splits if_splits)
  then show ?thesis
  proof
    assume "\<exists>x. parseIPv4 s = Some x" with parseIPv4_chars c show ?thesis by blast
  next
    assume "parseIPv6 s = Some b"
    from parseIPv6_zoneless [OF this b(2)] show ?thesis
    proof (elim disjE exE conjE)
      assume "s = ''::''" with c show ?thesis by (simp add: colon_not_space)
    qed (use c ip6_groups_chars colon_not_space in auto)
  qed
qed

lemma ParseIP4_trimmed: "ParseIP4 s = Some a \<Longrightarrow> TrimSpace s = s"
proof (cases "s = []")
  case False
  assume "ParseIP4 s = Some a"
  with False ParseIP4_chars show ?thesis by (intro TrimSpace_id) simp_all
qed (simp add: TrimSpace_def TrimLeft_def TrimRight_def)

lemma Atoi_range: "Atoi v = Some i \<Longrightarrow> i < 2 ^ 63"
  by (auto simp: Atoi_def Let_def split: if_splits)

lemma static_trimmed: "TrimSpace ''static'' = ''static''"
  by (rule TrimSpace_id) (simp_all add: is_space_def)

lemma mask_Size_bits: "mask_Size m = (n, b) \<Longrightarrow> b \<noteq> 0 \<Longrightarrow> b = 32 \<and> n \<le> 32"
proof -
  assume "mask_Size m = (n, b)" "b \<noteq> 0"
  then have f: "List.find (\<lambda>n. m = netmask4 n) [0..<33] = Some n" and "b = 32" by (auto simp: mask_Size_def simp del: upt_Suc split: option.splits)
  from find_in [OF f] have "n < 33" by (simp del: upt_Suc)
  with \<open>b = 32\<close> show ?thesis by simp
qed

lemma validNetmask_ok:
  assumes "validNetmask t = None"
  obtains m n where "ParseIP4 t = Some m" "mask_Size m = (n, 32)" "0 < n" "n \<le> 32"
proof (cases "ParseIP4 t")
  case (Some m)
  obtain n b where b: "mask_Size m = (n, b)" by (rule prod.exhaust)
  with assms Some have "b \<noteq> 0" "n \<noteq> 0" by (auto simp: validNetmask_def simp del: mask_Size_def split: if_split_asm)
  with mask_Size_bits [OF b] that [OF Some] b show ?thesis by simp
qed (use assms in \<open>simp add: validNetmask_def\<close>)

text \<open>The pool is looked for in the network of the address as it is given; an IPv4 address in the spelling of IPv6 has none there.\<close>

lemma Cut_slash: "CHR ''/'' \<notin> set a \<Longrightarrow> Cut (a @ CHR ''/'' # b) CHR ''/'' = Some (a, b)"
  by (simp add: Cut_Some)

lemma slash_no_digits: "\<not> all_digits (a @ CHR ''/'' # b)"
  by (simp add: all_digits_def list_all_iff is_digit_def)

lemma poolRange_address:
  assumes "ParseIP4 t = Some ip" "n \<le> 32" "poolRange [t @ ''/'' @ nat_digits n] s l = Some e"
  shows "poolEnds (N4 (network4 n ip) n) (network4 n ip) s l = Some e"
proof -
  have t: "CHR ''/'' \<notin> set t"
  proof
    assume "CHR ''/'' \<in> set t"
    then obtain a b where "t = a @ CHR ''/'' # b" "CHR ''/'' \<notin> set a" by (metis split_list_first)
    then have "Cut (t @ ''/'' @ nat_digits n) CHR ''/'' = Some (a, b @ CHR ''/'' # nat_digits n)" by (simp add: Cut_slash)
    with assms(3) show False by (auto simp: ParseCIDR_def slash_no_digits split: option.splits)
  qed
  from assms(1) obtain a where a: "ParseAddr t = Some a" "Zone a = []" "To4 a = Some ip"
    by (auto simp: ParseIP4_def ParseIP_def bind_eq_Some_conv split: option.splits if_splits)
  have c: "ParseCIDR (t @ ''/'' @ nat_digits n) = Some (a, case a of V4 x \<Rightarrow> N4 (network4 n x) n | V6 x z \<Rightarrow> N6 (network6 n x) n)"
    using a assms(2) Cut_slash [OF t, of "nat_digits n"] by (cases a) (simp_all add: ParseCIDR_def)
  then show ?thesis using a(3) assms(3) by (cases a) simp_all
qed

text \<open>
  C24. Renumbering the local network never strands its handout. When a new router address is staged and the device stores a pool,
  then in the draft every address that the pool hands out, the stored count of them from the stored offset in the network of the staged
  address, lies in that network; and the pool is what it was.
\<close>

theorem new_address_keeps_pool:
  assumes "uci_tool run cur live" and "StageLAN (Some run) cfg w = (Inr changes, w')"
    and "Atoi (beforeOf (cur w) (dhcpKey ''start'')) = Some s" and "Atoi (beforeOf (cur w) (dhcpKey ''limit'')) = Some l" and "0 < l"
  shows "\<exists>ip m n. ParseIP4 (beforeOf (cur w') (stageKey ''network'' lanSection ''ipaddr'')) = Some ip \<and>
    ParseIP4 (beforeOf (cur w') (stageKey ''network'' lanSection ''netmask'')) = Some m \<and> mask_Size m = (n, 32) \<and> 0 < n \<and>
    (\<forall>k. cur w' (dhcpKey k) = cur w (dhcpKey k)) \<and>
    (\<forall>i. s \<le> i \<and> i < s + l \<longrightarrow> (\<exists>x. uint x = uint (network4 n ip) + i \<and> network4 n x = network4 n ip))"
proof -
  obtain e w1 where p: "poolFitsAddress run (lc_Address cfg) (lc_Netmask cfg) w = (e, w1)" by (rule prod.exhaust)
  let ?sets = "[lanSetting ''network'' ''proto'' ''static'', lanSetting ''network'' ''ipaddr'' (lc_Address cfg), lanSetting ''network'' ''netmask'' (lc_Netmask cfg)]"
  from assms(2) p obtain ip where ip: "ParseIP4 (lc_Address cfg) = Some ip" and vm: "validNetmask (lc_Netmask cfg) = None" and e: "e = None"
    and st: "stage run ''network'' lanSection ?sets w1 = (Inr changes, w')"
    by (auto simp: StageLAN_def split: if_splits option.splits)
  from vm obtain m n where m: "ParseIP4 (lc_Netmask cfg) = Some m" "mask_Size m = (n, 32)" "0 < n" "n \<le> 32"
    by (rule validNetmask_ok)
  obtain s' u1 where g1: "uciGet run (dhcpKey ''start'') w = (s', u1)" by (rule prod.exhaust)
  obtain l' u2 where g2: "uciGet run (dhcpKey ''limit'') u1 = (l', u2)" by (rule prod.exhaust)
  note g = uci_tool.uciGet_before [OF assms(1) g1] uci_tool.uciGet_before [OF assms(1) g2]
  have n: "Atoi s' = Some s" "Atoi l' = Some l" using g assms(3,4) by simp_all
  have w1: "w1 = u2" using p g1 g2 n by (auto simp: poolFitsAddress_def Let_def split: if_splits)
  have "poolRange [lc_Address cfg @ ''/'' @ nat_digits n] s l \<noteq> None"
    using p e g1 g2 m n assms(5) by (auto simp: poolFitsAddress_def simp del: poolRange.simps split: option.splits)
  then obtain ends where "poolEnds (N4 (network4 n ip) n) (network4 n ip) s l = Some ends"
    using poolRange_address [OF ip m(4)] by blast
  note inside = poolEnds_inside [OF this assms(5) Atoi_range [OF n(2)] Atoi_range [OF n(1)]]
  have keys: "\<forall>x \<in> set ?sets. CHR ''='' \<notin> set (stageKey ''network'' lanSection (s_key x)) \<and> count_list (stageKey ''network'' lanSection (s_key x)) CHR ''.'' = 2"
    and trimmed: "\<forall>x \<in> set ?sets. TrimSpace (s_value x) = s_value x"
    using ParseIP4_trimmed [OF ip] ParseIP4_trimmed [OF m(1)] static_trimmed
    by (simp_all add: lanSetting_def setting0_def stageKey_def lanSection_def)
  from st have "stageSets run ''network'' lanSection ?sets [] w1 = (Inr changes, w')" by (auto simp: stage_def split: if_splits)
  from uci_tool.stageSets_ok [OF assms(1) this _ keys trimmed]
  have set: "settled (?sets ! 1) (cur w' (stageKey ''network'' lanSection ''ipaddr''))" "settled (?sets ! 2) (cur w' (stageKey ''network'' lanSection ''netmask''))"
    and frame: "cur w' (dhcpKey k) = cur w1 (dhcpKey k)" for k
    by (auto simp: lanSetting_def setting0_def stageKey_def dhcpKey_def)
  have "beforeOf (cur w') (stageKey ''network'' lanSection ''ipaddr'') = lc_Address cfg"
    "beforeOf (cur w') (stageKey ''network'' lanSection ''netmask'') = lc_Netmask cfg"
    using set by (simp_all add: settled_def beforeOf_def lanSetting_def setting0_def)
  with ip m frame w1 g inside show ?thesis by (intro exI [of _ ip] exI [of _ m] exI [of _ n]) simp
qed

definition demo_pool :: uci_world where
  "demo_pool = demo_uci\<lparr>uw_cur := (\<lambda>k. if k = dhcpKey ''start'' then Some ''100'' else if k = dhcpKey ''limit'' then Some ''150'' else None)\<rparr>"

definition demo_address :: lan_config where
  "demo_address = \<lparr>lc_Address = ''10.0.0.1'', lc_Netmask = ''255.255.255.0''\<rparr>"

lemma demo_address_staged: "\<not> isl (fst (StageLAN (Some ref_uci) demo_address demo_pool))"
  by code_simp

lemma demo_pool_numbers: "Atoi (beforeOf (uw_cur demo_pool) (dhcpKey ''start'')) = Some 100" "Atoi (beforeOf (uw_cur demo_pool) (dhcpKey ''limit'')) = Some 150"
  by code_simp+

theorem new_address_keeps_pool_witness:
  "\<exists>w' n ip. ParseIP4 (beforeOf (uw_cur w') (stageKey ''network'' lanSection ''ipaddr'')) = Some ip \<and> snd (StageLAN (Some ref_uci) demo_address demo_pool) = w' \<and>
     (\<exists>x. uint x = uint (network4 n ip) + 249 \<and> network4 n x = network4 n ip)"
proof -
  obtain changes w' where s: "StageLAN (Some ref_uci) demo_address demo_pool = (Inr changes, w')"
    using demo_address_staged by (metis isl_def obj_sumE prod.collapse)
  from new_address_keeps_pool [OF ru.uci_tool_axioms s demo_pool_numbers] obtain ip m n where
    "ParseIP4 (beforeOf (uw_cur w') (stageKey ''network'' lanSection ''ipaddr'')) = Some ip"
    "\<forall>i. 100 \<le> i \<and> i < 100 + 150 \<longrightarrow> (\<exists>x. uint x = uint (network4 n ip) + i \<and> network4 n x = network4 n ip)" by auto
  moreover from this(2) have "\<exists>x. uint x = uint (network4 n ip) + 249 \<and> network4 n x = network4 n ip" by (elim allE [of _ 249]) simp
  ultimately show ?thesis using s by (intro exI [of _ w'] exI [of _ n] exI [of _ ip]) simp
qed

end
