(* ===== verification/Firewall.thy ===== *)
theory Firewall
  imports Lan
begin

text \<open>
  The firewall: \<^verbatim>\<open>internal/core/firewall.go\<close> (its data), \<^verbatim>\<open>internal/adapters/openwrt/firewall.go\<close> (reading it),
  \<^verbatim>\<open>firewall_write.go\<close> (ports, protocols, the device's own check) and \<^verbatim>\<open>firewall_rules.go\<close> (the owner's rules: what a
  request means, when a rule could never act, adding, removing and moving a rule). The programs are the parameter
  \<open>run\<close>, the network daemon's list of connections the parameter \<open>ifaces\<close>. The error of a Go function is
  the \<open>Inl\<close> of its result; \<open>bindR\<close> is the early return on an error.
\<close>

section \<open>Data\<close>

record firewall_zone =
  z_Name :: string
  z_Role :: string
  z_Networks :: "string list"
  z_Live :: bool
  z_Input :: string
  z_Output :: string
  z_Forward :: string
  z_Masquerade :: bool

record zone_forwarding =
  zf_From :: string
  zf_To :: string

record port_forward =
  pf_ID :: string
  pf_Name :: string
  pf_Enabled :: bool
  pf_Protocols :: "string list"
  pf_From :: string
  pf_ExternalPort :: string
  pf_ToAddress :: string
  pf_ToPort :: string

record firewall_rule =
  r_ID :: string
  r_Name :: string
  r_Enabled :: bool
  r_System :: bool
  r_From :: string
  r_To :: string
  r_Protocols :: "string list"
  r_Ports :: string
  r_Action :: string
  r_Family :: string
  r_Unsupported :: "string list"

record firewall_status =
  fw_Zones :: "firewall_zone list"
  fw_Forwardings :: "zone_forwarding list"
  fw_PortForwards :: "port_forward list"
  fw_Rules :: "firewall_rule list"

record rule_config =
  c_ID :: string
  c_Name :: string
  c_Enabled :: bool
  c_From :: string
  c_To :: string
  c_Protocols :: "string list"
  c_Ports :: string
  c_Action :: string
  c_Family :: string
  c_Before :: string

definition ActionAccept :: string where "ActionAccept = ''accept''"
definition ActionOther :: string where "ActionOther = ''other''"
definition ZoneInternet :: string where "ZoneInternet = ''internet''"
definition ZoneLocal :: string where "ZoneLocal = ''local''"

definition oget :: "(string \<times> string) list \<Rightarrow> string \<Rightarrow> string" where
  \<comment> \<open>an option of a section; the empty string when it is not set\<close>
  "oget o' k = the_default [] (map_of o' k)"

section \<open>Reading\<close>

definition protocols :: "string \<Rightarrow> string list" where
  "protocols proto = (let f = Fields (ToLower proto) in if f = [] \<or> f = [''tcpudp''] then [''tcp'', ''udp''] else f)"

definition ruleOptionsShown :: "string list" where
  "ruleOptionsShown = [''name'', ''enabled'', ''src'', ''dest'', ''proto'', ''dest_port'', ''target'', ''family'']"

definition ruleConditions :: "(string \<times> string) list" where
  "ruleConditions = [(''src_ip'', ''sourceAddress''), (''src_mac'', ''sourceAddress''), (''src_port'', ''sourcePort''),
     (''dest_ip'', ''destinationAddress''), (''icmp_type'', ''icmpTypes''), (''start_date'', ''schedule''),
     (''stop_date'', ''schedule''), (''start_time'', ''schedule''), (''stop_time'', ''schedule''), (''weekdays'', ''schedule''),
     (''monthdays'', ''schedule''), (''utc_time'', ''schedule''), (''limit'', ''rateLimit''), (''limit_burst'', ''rateLimit''),
     (''log'', ''logging''), (''log_limit'', ''logging'')]"

definition conditionOf :: "string \<Rightarrow> string" where
  "conditionOf k = the_default ''other'' (map_of ruleConditions k)"

definition unsupportedConditions :: "(string \<times> string) list \<Rightarrow> string list" where
  "unsupportedConditions o' =
     sort (remdups (map conditionOf (filter (\<lambda>k. k \<notin> set ruleOptionsShown) (map fst o')) @
       (if ruleAction (oget o' ''target'') = ActionOther then [''other''] else [])))"

definition canonical :: "(string \<times> string) list \<Rightarrow> string" where
  "canonical o' = concat (map (\<lambda>k. k @ ''='' @ oget o' k @ [newline]) (sort (map fst o')))"

definition shown :: "string \<Rightarrow> string list \<Rightarrow> string" where
  \<comment> \<open>a line of \<open>uci show\<close> with quoted values\<close>
  "shown k vs = k @ ''='' @ Join (map (\<lambda>v. [quote] @ v @ [quote]) vs) '' '' @ [newline]"

definition stockFirewallRules :: string where
  "stockFirewallRules = concat [
     ''firewall.@rule[0]=rule'' @ [newline],
     shown ''firewall.@rule[0].name'' [''Allow-DHCP-Renew''],
     shown ''firewall.@rule[0].src'' [''wan''],
     shown ''firewall.@rule[0].proto'' [''udp''],
     shown ''firewall.@rule[0].dest_port'' [''68''],
     shown ''firewall.@rule[0].target'' [''ACCEPT''],
     shown ''firewall.@rule[0].family'' [''ipv4''],
     ''firewall.@rule[1]=rule'' @ [newline],
     shown ''firewall.@rule[1].name'' [''Allow-Ping''],
     shown ''firewall.@rule[1].src'' [''wan''],
     shown ''firewall.@rule[1].proto'' [''icmp''],
     shown ''firewall.@rule[1].icmp_type'' [''echo-request''],
     shown ''firewall.@rule[1].family'' [''ipv4''],
     shown ''firewall.@rule[1].target'' [''ACCEPT''],
     ''firewall.@rule[2]=rule'' @ [newline],
     shown ''firewall.@rule[2].name'' [''Allow-IGMP''],
     shown ''firewall.@rule[2].src'' [''wan''],
     shown ''firewall.@rule[2].proto'' [''igmp''],
     shown ''firewall.@rule[2].family'' [''ipv4''],
     shown ''firewall.@rule[2].target'' [''ACCEPT''],
     ''firewall.@rule[3]=rule'' @ [newline],
     shown ''firewall.@rule[3].name'' [''Allow-DHCPv6''],
     shown ''firewall.@rule[3].src'' [''wan''],
     shown ''firewall.@rule[3].proto'' [''udp''],
     shown ''firewall.@rule[3].dest_port'' [''546''],
     shown ''firewall.@rule[3].family'' [''ipv6''],
     shown ''firewall.@rule[3].target'' [''ACCEPT''],
     ''firewall.@rule[4]=rule'' @ [newline],
     shown ''firewall.@rule[4].name'' [''Allow-MLD''],
     shown ''firewall.@rule[4].src'' [''wan''],
     shown ''firewall.@rule[4].proto'' [''icmp''],
     shown ''firewall.@rule[4].src_ip'' [''fe80::/10''],
     shown ''firewall.@rule[4].icmp_type'' [''130/0'', ''131/0'', ''132/0'', ''143/0''],
     shown ''firewall.@rule[4].family'' [''ipv6''],
     shown ''firewall.@rule[4].target'' [''ACCEPT''],
     ''firewall.@rule[5]=rule'' @ [newline],
     shown ''firewall.@rule[5].name'' [''Allow-ICMPv6-Input''],
     shown ''firewall.@rule[5].src'' [''wan''],
     shown ''firewall.@rule[5].proto'' [''icmp''],
     shown ''firewall.@rule[5].icmp_type'' [''echo-request'', ''echo-reply'', ''destination-unreachable'', ''packet-too-big'', ''time-exceeded'', ''bad-header'', ''unknown-header-type'', ''router-solicitation'', ''neighbour-solicitation'', ''router-advertisement'', ''neighbour-advertisement''],
     shown ''firewall.@rule[5].limit'' [''1000/sec''],
     shown ''firewall.@rule[5].family'' [''ipv6''],
     shown ''firewall.@rule[5].target'' [''ACCEPT''],
     ''firewall.@rule[6]=rule'' @ [newline],
     shown ''firewall.@rule[6].name'' [''Allow-ICMPv6-Forward''],
     shown ''firewall.@rule[6].src'' [''wan''],
     shown ''firewall.@rule[6].dest'' [''*''],
     shown ''firewall.@rule[6].proto'' [''icmp''],
     shown ''firewall.@rule[6].icmp_type'' [''echo-request'', ''echo-reply'', ''destination-unreachable'', ''packet-too-big'', ''time-exceeded'', ''bad-header'', ''unknown-header-type''],
     shown ''firewall.@rule[6].limit'' [''1000/sec''],
     shown ''firewall.@rule[6].family'' [''ipv6''],
     shown ''firewall.@rule[6].target'' [''ACCEPT''],
     ''firewall.@rule[7]=rule'' @ [newline],
     shown ''firewall.@rule[7].name'' [''Allow-IPSec-ESP''],
     shown ''firewall.@rule[7].src'' [''wan''],
     shown ''firewall.@rule[7].dest'' [''lan''],
     shown ''firewall.@rule[7].proto'' [''esp''],
     shown ''firewall.@rule[7].target'' [''ACCEPT''],
     ''firewall.@rule[8]=rule'' @ [newline],
     shown ''firewall.@rule[8].name'' [''Allow-ISAKMP''],
     shown ''firewall.@rule[8].src'' [''wan''],
     shown ''firewall.@rule[8].dest'' [''lan''],
     shown ''firewall.@rule[8].dest_port'' [''500''],
     shown ''firewall.@rule[8].proto'' [''udp''],
     shown ''firewall.@rule[8].target'' [''ACCEPT'']]"

definition stockRules :: "string list" where
  "stockRules = map (\<lambda>s. canonical (sec_options s)) (parseUCISections stockFirewallRules)"

definition zoneOf :: "(string \<Rightarrow> bool) \<Rightarrow> (string \<times> string) list \<Rightarrow> firewall_zone" where
  "zoneOf up o' =
     (let nets = Fields (oget o' ''network''); masq = (oget o' ''masq'' = ''1'') in
      \<lparr>z_Name = oget o' ''name'',
       z_Role = (if masq then ZoneInternet else if lanSection \<in> set nets then ZoneLocal else []),
       z_Networks = nets, z_Live = list_ex up nets, z_Input = action (oget o' ''input''),
       z_Output = action (oget o' ''output''), z_Forward = action (oget o' ''forward''), z_Masquerade = masq\<rparr>)"

definition portForwardOf :: "string \<Rightarrow> (string \<times> string) list \<Rightarrow> port_forward" where
  "portForwardOf i o' =
     \<lparr>pf_ID = i, pf_Name = oget o' ''name'', pf_Enabled = (oget o' ''enabled'' \<noteq> ''0''), pf_Protocols = protocols (oget o' ''proto''),
      pf_From = oget o' ''src'', pf_ExternalPort = oget o' ''src_dport'', pf_ToAddress = oget o' ''dest_ip'',
      pf_ToPort = (if oget o' ''dest_port'' = [] then oget o' ''src_dport'' else oget o' ''dest_port'')\<rparr>"

definition ruleOf :: "string \<Rightarrow> (string \<times> string) list \<Rightarrow> firewall_rule" where
  "ruleOf i o' =
     \<lparr>r_ID = i, r_Name = oget o' ''name'', r_Enabled = (oget o' ''enabled'' \<noteq> ''0''), r_System = (canonical o' \<in> set stockRules),
      r_From = oget o' ''src'', r_To = oget o' ''dest'', r_Protocols = protocols (oget o' ''proto''), r_Ports = oget o' ''dest_port'',
      r_Action = ruleAction (oget o' ''target''), r_Family = oget o' ''family'', r_Unsupported = unsupportedConditions o'\<rparr>"

definition addSection :: "(string \<Rightarrow> bool) \<Rightarrow> uci_section \<Rightarrow> firewall_status \<Rightarrow> firewall_status" where
  "addSection up s st =
     (let o' = sec_options s in
      if sec_kind s = ''zone'' then st\<lparr>fw_Zones := fw_Zones st @ [zoneOf up o']\<rparr>
      else if sec_kind s = ''forwarding'' then
        st\<lparr>fw_Forwardings := fw_Forwardings st @ [\<lparr>zf_From = oget o' ''src'', zf_To = oget o' ''dest''\<rparr>]\<rparr>
      else if sec_kind s = ''redirect'' then
        (if oget o' ''target'' \<noteq> [] \<and> oget o' ''target'' \<noteq> ''DNAT'' then st
         else st\<lparr>fw_PortForwards := fw_PortForwards st @ [portForwardOf (sec_id s) o']\<rparr>)
      else if sec_kind s = ''rule'' then st\<lparr>fw_Rules := fw_Rules st @ [ruleOf (sec_id s) o']\<rparr>
      else st)"

definition parseFirewall :: "string \<Rightarrow> (string \<Rightarrow> bool) \<Rightarrow> firewall_status" where
  "parseFirewall text up = fold (addSection up) (parseUCISections text)
     \<lparr>fw_Zones = [], fw_Forwardings = [], fw_PortForwards = [], fw_Rules = []\<rparr>"

text \<open>\<open>ifaces\<close>: the connections and whether each is up, or an error, which reads as none up.\<close>

definition upMap :: "network_interface list result \<Rightarrow> string \<Rightarrow> bool" where
  "upMap ifaces n = (case ifaces of Inl e \<Rightarrow> False | Inr is \<Rightarrow> the_default False (map_of (rev (map (\<lambda>i. (if_Name i, if_Up i)) is)) n))"

definition FirewallInfo :: "'w runner \<Rightarrow> network_interface list result \<Rightarrow> ('w, firewall_status) step" where
  "FirewallInfo run ifaces =
     bindR (run ''uci'' [''-q'', ''show'', ''firewall'']) (\<lambda>out. retR (parseFirewall out (upMap ifaces)))"

section \<open>Ports and protocols\<close>

definition port5 :: "string \<Rightarrow> nat option" where
  "port5 s = (if all_digits s \<and> length s \<le> 5 then Some (digits_val s) else None)"

definition parsePorts :: "string \<Rightarrow> (nat \<times> nat) option" where
  "parsePorts v =
     (let s = TrimSpace v;
          fl = (case Cut s CHR ''-'' of
                  None \<Rightarrow> map_option (\<lambda>p. (p, p)) (port5 s)
                | Some (a, b) \<Rightarrow> (case port5 a of None \<Rightarrow> None | Some p \<Rightarrow> map_option (\<lambda>q. (p, q)) (port5 b)))
      in case fl of None \<Rightarrow> None
         | Some (p, q) \<Rightarrow> if p < 1 \<or> q > 65535 \<or> q < p then None else Some (p, q))"

definition port_sep :: "char \<Rightarrow> bool" where "port_sep c \<longleftrightarrow> c = CHR '' '' \<or> c = CHR '','' \<or> c = CHR 0x09"

definition parsePortList :: "string \<Rightarrow> (string \<times> (nat \<times> nat) list) option" where
  "parsePortList v =
     (let items = FieldsFunc port_sep v in
      if items = [] \<or> length items > 32 then None
      else case those (map parsePorts items) of None \<Rightarrow> None | Some ranges \<Rightarrow> Some (Join items '' '', ranges))"

definition forwardProtocols :: "string list \<Rightarrow> string list result" where
  "forwardProtocols inp =
     (let ps = map (\<lambda>p. ToLower (TrimSpace p)) inp in
      if list_ex (\<lambda>p. p \<noteq> ''tcp'' \<and> p \<noteq> ''udp'') ps then Inl (Failed ''not a protocol a port can be forwarded for'')
      else if ''tcp'' \<in> set ps \<and> ''udp'' \<in> set ps then Inr [''tcp'', ''udp'']
      else if ''tcp'' \<in> set ps then Inr [''tcp''] else if ''udp'' \<in> set ps then Inr [''udp'']
      else Inl (Failed ''choose TCP, UDP or both''))"

definition ruleProtocols :: "string list \<Rightarrow> string list result" where
  "ruleProtocols inp =
     (let ps = map (\<lambda>p. ToLower (TrimSpace p)) inp in
      if list_ex (\<lambda>p. p \<notin> {''tcp'', ''udp'', ''icmp'', ''all''}) ps then Inl (Failed ''not a protocol the panel can write a rule for'')
      else if ''all'' \<in> set ps then
        (if list_ex (\<lambda>p. p \<noteq> ''all'') ps then Inl (Failed ''all already includes every protocol'') else Inr [''all''])
      else let out = filter (\<lambda>p. p \<in> set ps) [''tcp'', ''udp'', ''icmp'']
           in if out = [] then Inl (Failed ''choose at least one protocol'') else Inr out)"

definition portsApply :: "string list \<Rightarrow> bool" where
  "portsApply protos \<longleftrightarrow> list_all (\<lambda>p. p = ''tcp'' \<or> p = ''udp'') protos \<and> length protos > 0"

section \<open>When a rule could never act\<close>

fun rangeLoop :: "nat \<Rightarrow> nat \<Rightarrow> (nat \<times> nat) list \<Rightarrow> bool" where
  \<comment> \<open>\<open>n\<close> ports from \<open>p\<close> on\<close>
  "rangeLoop 0 p ranges = True"
| "rangeLoop (Suc n) p ranges =
     (if list_ex (\<lambda>(a, b). p \<ge> a \<and> p \<le> b) ranges then rangeLoop n (p + 1) ranges else False)"

definition rangeCovered :: "nat \<times> nat \<Rightarrow> (nat \<times> nat) list \<Rightarrow> bool" where
  "rangeCovered n ranges = rangeLoop (snd n + 1 - fst n) (fst n) ranges"

definition covers :: "firewall_rule \<Rightarrow> rule_config \<Rightarrow> bool" where
  "covers r want =
     (if r_From r \<noteq> c_From want \<and> r_From r \<noteq> ''*'' then False
      else if r_To r \<noteq> c_To want \<and> (r_To r \<noteq> ''*'' \<or> c_To want = []) then False
      else if r_Family r \<noteq> [] \<and> r_Family r \<noteq> ''any'' \<and> r_Family r \<noteq> c_Family want then False
      else if ''all'' \<notin> set (r_Protocols r) \<and>
        (''all'' \<in> set (c_Protocols want) \<or> list_ex (\<lambda>p. p \<notin> set (r_Protocols r)) (c_Protocols want)) then False
      else if r_Ports r = [] then True
      else if c_Ports want = [] \<or> \<not> portsApply (c_Protocols want) then False
      else case parsePortList (r_Ports r) of None \<Rightarrow> False
        | Some (_, have') \<Rightarrow>
            list_all (\<lambda>n. rangeCovered n have') (case parsePortList (c_Ports want) of None \<Rightarrow> [] | Some (_, need) \<Rightarrow> need))"

definition shadows :: "firewall_rule \<Rightarrow> rule_config \<Rightarrow> bool" where
  "shadows r want \<longleftrightarrow> \<not> (\<not> r_Enabled r \<or> length (r_Unsupported r) > 0 \<or> r_Action r = ActionOther) \<and>
     \<not> ((r_Action r = ActionAccept) = (c_Action want = ActionAccept)) \<and> covers r want"

definition shadowedBy :: "firewall_rule list \<Rightarrow> rule_config \<Rightarrow> firewall_rule option" where
  "shadowedBy earlier want = (if \<not> c_Enabled want then None else List.find (\<lambda>r. shadows r want) earlier)"

section \<open>What a request means\<close>

definition ruleTargets :: "(string \<times> string) list" where
  "ruleTargets = [(''accept'', ''ACCEPT''), (''reject'', ''REJECT''), (''drop'', ''DROP'')]"

definition badName :: "string \<Rightarrow> bool" where
  "badName name = ContainsAny name [quote, CHR 0x22, newline, backslash]"

definition badZone :: "string \<Rightarrow> bool" where
  "badZone z \<longleftrightarrow> z \<noteq> [] \<and> z \<noteq> ''*'' \<and> \<not> sectionName z"

definition normalPorts :: "string \<Rightarrow> string list \<Rightarrow> string result" where
  "normalPorts ports protos =
     (if TrimSpace ports = [] then Inr []
      else if \<not> portsApply protos then Inl (Refused ''ports'' ''ports only mean something for TCP and UDP'')
      else case parsePortList ports of None \<Rightarrow> Inl (Refused ''ports'' ''not a port, a range, or a list of them'')
        | Some (p, _) \<Rightarrow> Inr p)"

text \<open>The source ranges over a Go map of the two zones: with both bad, either may be the one named; here it is \<open>from\<close>.\<close>

definition normalizeRule :: "rule_config \<Rightarrow> rule_config result" where
  "normalizeRule cfg =
     (let name = TrimSpace (c_Name cfg); from' = TrimSpace (c_From cfg); to' = TrimSpace (c_To cfg);
          action' = ToLower (TrimSpace (c_Action cfg)); family = ToLower (TrimSpace (c_Family cfg)) in
      if badName name then Inl (Refused ''name'' ''a name cannot contain quotes, backslashes or line breaks'')
      else if from' = [] then Inl (Refused ''from'' ''say which zone the traffic comes from'')
      else if badZone from' then Inl (Refused ''from'' ''not a zone name'')
      else if badZone to' then Inl (Refused ''to'' ''not a zone name'')
      else case ruleProtocols (c_Protocols cfg) of Inl e \<Rightarrow> Inl (the (Refuse ''protocols'' (Some e)))
      | Inr protos \<Rightarrow> (case normalPorts (c_Ports cfg) protos of Inl e \<Rightarrow> Inl e
        | Inr ports \<Rightarrow>
            if map_of ruleTargets action' = None then Inl (Refused ''action'' ''not an action'')
            else if family \<noteq> [] \<and> family \<noteq> ''ipv4'' \<and> family \<noteq> ''ipv6'' then Inl (Refused ''family'' ''not ipv4 or ipv6'')
            else Inr (cfg\<lparr>c_Name := name, c_From := from', c_To := to', c_Protocols := protos, c_Ports := ports,
                   c_Action := action', c_Family := family\<rparr>)))"

definition ruleAsConfig :: "firewall_rule \<Rightarrow> rule_config option" where
  "ruleAsConfig r =
     (if map_of ruleTargets (r_Action r) = None then None
      else case ruleProtocols (r_Protocols r) of Inl e \<Rightarrow> None
      | Inr protos \<Rightarrow>
          (case (if r_Ports r = [] then Some [] else map_option fst (parsePortList (r_Ports r))) of None \<Rightarrow> None
           | Some ports \<Rightarrow>
               Some \<lparr>c_ID = [], c_Name = r_Name r, c_Enabled = r_Enabled r, c_From = r_From r, c_To = r_To r, c_Protocols = protos,
                 c_Ports = ports, c_Action = r_Action r, c_Family = (if r_Family r = ''any'' then [] else r_Family r), c_Before = []\<rparr>))"

definition sameButEnabled :: "firewall_rule \<Rightarrow> rule_config \<Rightarrow> bool" where
  "sameButEnabled have' want =
     (case ruleProtocols (r_Protocols have') of Inl e \<Rightarrow> False
      | Inr haveProtos \<Rightarrow>
          let havePorts = (if r_Ports have' = [] then []
                else case parsePortList (r_Ports have') of None \<Rightarrow> r_Ports have' | Some (p, _) \<Rightarrow> p)
          in r_Name have' = c_Name want \<and> r_From have' = c_From want \<and> r_To have' = c_To want \<and>
             haveProtos = c_Protocols want \<and> havePorts = c_Ports want \<and> r_Action have' = c_Action want \<and>
             TrimPrefix (r_Family have') ''any'' = c_Family want)"

fun indexOf :: "('a \<Rightarrow> bool) \<Rightarrow> 'a list \<Rightarrow> nat option" where
  "indexOf P [] = None"
| "indexOf P (x # xs) = (if P x then Some 0 else map_option Suc (indexOf P xs))"

definition ruleIndex :: "firewall_status \<Rightarrow> string \<Rightarrow> nat option" where
  "ruleIndex fw i = indexOf (\<lambda>r. r_ID r = i) (fw_Rules fw)"

definition sectionPosition :: "'w runner \<Rightarrow> string \<Rightarrow> ('w, nat) step" where
  "sectionPosition run i =
     bindR (wrapR (Failed ''read the firewall'') (run ''uci'' [''-q'', ''show'', ''firewall''])) (\<lambda>out.
       case indexOf (\<lambda>s. sec_id s = i) (parseUCISections out) of
         None \<Rightarrow> failR (Refused ''before'' ''no rule on this device'') | Some n \<Rightarrow> retR n)"

definition errSystemRule :: string where "errSystemRule = ''ships with the firewall and is shown read-only''"

section \<open>Words\<close>

definition arrow :: string where "arrow = [CHR '' '', CHR 0xE2, CHR 0x86, CHR 0x92, CHR '' '']"
definition middot :: string where "middot = [CHR '' '', CHR 0xC2, CHR 0xB7, CHR '' '']"

definition portForwardWords :: "string \<Rightarrow> string \<Rightarrow> string \<Rightarrow> string \<Rightarrow> string" where
  "portForwardWords proto external address internal =
     Join (protocols proto) ''+'' @ '' '' @ external @ arrow @ address @ '':'' @ (if internal = [] then external else internal)"

definition ruleWords :: "string \<Rightarrow> string \<Rightarrow> string \<Rightarrow> string \<Rightarrow> string \<Rightarrow> string" where
  "ruleWords src dest proto ports family =
     Join ([if dest \<noteq> [] then src @ arrow @ dest else src] @
       (if protocols proto = [''all''] then []
        else [Join (protocols proto) ''+'' @ (if ports \<noteq> [] then '' '' @ Join (Fields ports) '', '' else [])]) @
       (if family = ''ipv4'' then [''IPv4''] else if family = ''ipv6'' then [''IPv6''] else [])) middot"

definition ruleWordsOf :: "firewall_rule \<Rightarrow> string" where
  "ruleWordsOf r = ruleWords (r_From r) (r_To r) (Join (r_Protocols r) '' '') (r_Ports r) (r_Family r)"

section \<open>The device's own check\<close>

definition fw4Program :: string where "fw4Program = ''/sbin/fw4''"

definition fw4Notes :: "string list" where
  "fw4Notes = [''is deprecated by fw4'', ''is not supported by fw4'', ''specifies unknown option'', ''uses unavailable ct helper'',
     ''skipping invalid wildcard pattern'', ''has invalid target specified, defaulting to'',
     ''must not use non-contiguous masks in '' @ [quote] @ ''dest_ip'' @ [quote], ''does not specify a destination, assuming'',
     ''must not use '' @ [quote] @ ''helper'' @ [quote] @ '' option for snat target'', ''cannot be determined, disabling reflection'',
     ''specifies multiple rewrite addresses, using only first one'', ''which has no effect for position'',
     ''is disabled, ignoring section'']"

definition fw4Drops :: "string \<Rightarrow> bool" where "fw4Drops line \<longleftrightarrow> \<not> list_ex (Contains line) fw4Notes"

definition warningLines :: "string \<Rightarrow> string list" where
  "warningLines out = remdups (filter (\<lambda>l. HasPrefix l ''[!]'') (map TrimSpace (Split out newline)))"

definition fw4Warnings :: "'w runner \<Rightarrow> ('w, string list) step" where
  "fw4Warnings run =
     bindR (wrapR (Failed ''the firewall of the router could not check this change'') (run fw4Program [''check''])) (\<lambda>out. retR (warningLines out))"

definition freshWarnings :: "string list \<Rightarrow> string list \<Rightarrow> string list" where
  "freshWarnings baseline now = filter (\<lambda>l. l \<notin> set baseline \<and> fw4Drops l) now"

definition fw4Accepts :: "'w runner \<Rightarrow> string list \<Rightarrow> ('w, unit) step" where
  "fw4Accepts run baseline =
     bindR (fw4Warnings run) (\<lambda>now.
       checkR (freshWarnings baseline now = []) (Failed (''the firewall would skip this entry: '' @ Join (sort (freshWarnings baseline now)) ''; '')))"

definition orDiscard :: "'w runner \<Rightarrow> ('w, 'a) step \<Rightarrow> ('w, 'a) step" where
  \<comment> \<open>on an error the draft of the firewall is dropped\<close>
  "orDiscard run m w = (case m w of (Inl e, w') \<Rightarrow> (Inl e, snd (discardConfig run ''firewall'' w')) | (Inr x, w') \<Rightarrow> (Inr x, w'))"

definition reorder :: "'w runner \<Rightarrow> string \<Rightarrow> int \<Rightarrow> ('w, string) step" where
  "reorder run section place = run ''uci'' [''reorder'', ''firewall.'' @ section @ ''='' @ Itoa place]"

section \<open>Rules\<close>

definition fwSetting :: "string \<Rightarrow> string \<Rightarrow> string \<Rightarrow> setting" where
  "fwSetting role key value = setting0\<lparr>s_key := key, s_value := value, s_label := describe ''firewall'' role key\<rparr>"

definition orRemove :: "string \<Rightarrow> string \<Rightarrow> string \<Rightarrow> setting" where
  \<comment> \<open>an empty value removes the option\<close>
  "orRemove role key value = (fwSetting role key value)\<lparr>s_remove := (value = [])\<rparr>"

definition enabledSetting :: "string \<Rightarrow> bool \<Rightarrow> setting" where
  "enabledSetting role on =
     (if on then (fwSetting role ''enabled'' [])\<lparr>s_remove := True, s_sameAsAbsent := ''1''\<rparr> else fwSetting role ''enabled'' ''0'')"

definition ruleSettings :: "rule_config \<Rightarrow> setting list" where
  "ruleSettings want =
     [fwSetting ''rule'' ''src'' (c_From want), orRemove ''rule'' ''dest'' (c_To want),
      fwSetting ''rule'' ''proto'' (Join (c_Protocols want) '' ''), orRemove ''rule'' ''dest_port'' (c_Ports want),
      fwSetting ''rule'' ''target'' (the_default [] (map_of ruleTargets (c_Action want))),
      (orRemove ''rule'' ''family'' (c_Family want))\<lparr>s_sameAsAbsent := ''any''\<rparr>, orRemove ''rule'' ''name'' (c_Name want)]"

text \<open>What an edit leaves out: defaults the entry already stores by their absence.\<close>

definition keepDefaults :: "rule_config \<Rightarrow> string \<Rightarrow> string \<Rightarrow> setting list \<Rightarrow> setting list" where
  "keepDefaults want rawProto rawTarget sets =
     (let s1 = (if Join (c_Protocols want) '' '' = ''tcp udp'' \<and> (rawProto = [] \<or> rawProto = ''tcpudp'')
                then filter (\<lambda>s. s_key s \<noteq> ''proto'') sets else sets)
      in if c_Action want = ActionAccept \<and> rawTarget = [] then filter (\<lambda>s. s_key s \<noteq> ''target'') s1 else s1)"

definition stageRuleInto :: "'w runner \<Rightarrow> rule_config \<Rightarrow> bool \<Rightarrow> nat option \<Rightarrow> string list \<Rightarrow> string \<Rightarrow> setting list \<Rightarrow> ('w, config_change list) step" where
  \<comment> \<open>the common end: the settings, the place, the device's verdict\<close>
  "stageRuleInto run want fresh position baseline section sets =
     bindR (stage run ''firewall'' section (sets @ [enabledSetting ''rule'' (c_Enabled want)])) (\<lambda>changes.
     bindR (case position of None \<Rightarrow> retR []
            | Some p \<Rightarrow> orDiscard run (wrapR (Failed ''place the new rule'') (reorder run section (int p)))) (\<lambda>_.
     bindR (orDiscard run (fw4Accepts run baseline)) (\<lambda>_. retR changes)))"

definition StageNewRule :: "'w runner \<Rightarrow> firewall_status \<Rightarrow> rule_config \<Rightarrow> rule_config \<Rightarrow> ('w, config_change list) step" where
  "StageNewRule run fw cfg want =
     (let before = TrimSpace (c_Before cfg) in
      bindR (if before = [] then retR (fw_Rules fw, None)
             else case ruleIndex fw before of None \<Rightarrow> failR (Refused ''before'' ''no rule on this device'')
               | Some at \<Rightarrow> bindR (sectionPosition run before) (\<lambda>p. retR (take at (fw_Rules fw), Some p))) (\<lambda>(earlier, position).
      bindR (checkR (shadowedBy earlier want = None) (Refused ''before'' ''this one would never act'')) (\<lambda>_.
      bindR (fw4Warnings run) (\<lambda>baseline.
      bindR (addEntry run ''firewall'' ''rule'') (\<lambda>section.
      bindR (stageRuleInto run want True position baseline section (ruleSettings want)) (\<lambda>_.
        retR [wholeRow ''firewall'' (rulePhrase (the_default [] (map_of ruleTargets (c_Action want))) (c_To want)) []
          (ruleWords (c_From want) (c_To want) (Join (c_Protocols want) '' '') (c_Ports want) (c_Family want)) section]))))))"

definition StageOldRule :: "'w runner \<Rightarrow> firewall_status \<Rightarrow> rule_config \<Rightarrow> rule_config \<Rightarrow> string \<Rightarrow> ('w, config_change list) step" where
  "StageOldRule run fw cfg want section =
     bindR (checkR (TrimSpace (c_Before cfg) = []) (Refused ''before'' ''an existing rule is moved on its own'')) (\<lambda>_.
     bindR (checkR (sectionName section \<or> anonSection section) (Refused ''id'' ''not an entry on this device'')) (\<lambda>_.
       case ruleIndex fw section of None \<Rightarrow> failR (Refused ''id'' ''no rule on this device'')
       | Some at \<Rightarrow>
           let have' = fw_Rules fw ! at; key = ''firewall.'' @ section @ ''.'' in
           bindR (checkR (\<not> r_System have') (Refused ''id'' errSystemRule)) (\<lambda>_.
           bindR (checkR (r_Unsupported have' = [] \<or> sameButEnabled have' want) (Refused ''id'' ''conditions the panel does not show yet'')) (\<lambda>_.
           bindR (fw4Warnings run) (\<lambda>baseline.
           bindR (pureR (uciGet run (key @ ''proto''))) (\<lambda>rawProto.
           bindR (pureR (uciGet run (key @ ''target''))) (\<lambda>rawTarget.
           bindR (stageRuleInto run want False None baseline section (keepDefaults want rawProto rawTarget (ruleSettings want))) (\<lambda>changes.
             retR (withSubject changes (entrySubject (r_Name have') (ruleWordsOf have')))))))))))"

definition StageRule :: "'w runner option \<Rightarrow> network_interface list result \<Rightarrow> rule_config \<Rightarrow> ('w, config_change list) step" where
  "StageRule mrun ifaces cfg =
     (case mrun of None \<Rightarrow> failR (Failed ''not implemented'')
      | Some run \<Rightarrow>
          bindR (liftR (normalizeRule cfg)) (\<lambda>want.
          bindR (FirewallInfo run ifaces) (\<lambda>fw.
            let zones = ''*'' # map z_Name (fw_Zones fw) in
            bindR (checkR (c_From want \<in> set zones) (Refused ''from'' ''there is no zone'')) (\<lambda>_.
            bindR (checkR (c_To want = [] \<or> c_To want \<in> set zones) (Refused ''to'' ''there is no zone'')) (\<lambda>_.
              if TrimSpace (c_ID cfg) = [] then StageNewRule run fw cfg want
              else StageOldRule run fw cfg want (TrimSpace (c_ID cfg)))))))"

definition RemoveRule :: "'w runner option \<Rightarrow> network_interface list result \<Rightarrow> string \<Rightarrow> ('w, config_change list) step" where
  "RemoveRule mrun ifaces i =
     (case mrun of None \<Rightarrow> failR (Failed ''not implemented'')
      | Some run \<Rightarrow>
          bindR (checkR (sectionName i \<or> anonSection i) (Failed ''not an entry on this device'')) (\<lambda>_.
          bindR (FirewallInfo run ifaces) (\<lambda>fw.
            case ruleIndex fw i of None \<Rightarrow> failR (Failed ''no rule on this device'')
            | Some at \<Rightarrow>
                let r = fw_Rules fw ! at in
                bindR (checkR (\<not> r_System r) (Failed errSystemRule)) (\<lambda>_.
                bindR (wrapR (Failed ''stage removal of a rule'') (run ''uci'' [''delete'', ''firewall.'' @ i])) (\<lambda>_.
                  retR [wholeRow ''firewall'' (rulePhrase (r_Action r) (r_To r)) (ruleWordsOf r) [] i])))))"

text \<open>Moving a rule: where it lands among the other rules, and the place in the file \<^verbatim>\<open>uci reorder\<close> is given.\<close>

definition landing :: "firewall_status \<Rightarrow> nat \<Rightarrow> string \<Rightarrow> string \<Rightarrow> nat result" where
  "landing fw at i before =
     (if before = [] then Inr (length (fw_Rules fw) - 1)
      else if before = i then Inl (Refused ''before'' ''a rule cannot be placed in front of itself'')
      else case ruleIndex fw before of None \<Rightarrow> Inl (Refused ''before'' ''no rule on this device'')
        | Some bt \<Rightarrow> Inr (if bt > at then bt - 1 else bt))"

definition movePlace :: "'w runner \<Rightarrow> string \<Rightarrow> nat \<Rightarrow> nat \<Rightarrow> ('w, int) step" where
  "movePlace run before at land =
     (if before = [] then retR (2 ^ 16)
      else bindR (sectionPosition run before) (\<lambda>place. retR (if land \<ge> at then int place - 1 else int place)))"

definition MoveRule :: "'w runner option \<Rightarrow> network_interface list result \<Rightarrow> string \<Rightarrow> string \<Rightarrow> ('w, config_change list) step" where
  "MoveRule mrun ifaces i before0 =
     (case mrun of None \<Rightarrow> failR (Failed ''not implemented'')
      | Some run \<Rightarrow>
          bindR (checkR (sectionName i \<or> anonSection i) (Failed ''not an entry on this device'')) (\<lambda>_.
          bindR (FirewallInfo run ifaces) (\<lambda>fw.
            case ruleIndex fw i of None \<Rightarrow> failR (Failed ''no rule on this device'')
            | Some at \<Rightarrow>
                let r = fw_Rules fw ! at; before = TrimSpace before0; rest = take at (fw_Rules fw) @ drop (at + 1) (fw_Rules fw) in
                bindR (checkR (\<not> r_System r) (Failed errSystemRule)) (\<lambda>_.
                bindR (liftR (landing fw at i before)) (\<lambda>land.
                  if land = at then retR []
                  else
                    bindR (checkR (case ruleAsConfig r of None \<Rightarrow> True | Some want \<Rightarrow> shadowedBy (take land rest) want = None)
                      (Refused ''before'' ''this one would never act there'')) (\<lambda>_.
                    bindR (movePlace run before at land) (\<lambda>place.
                    bindR (fw4Warnings run) (\<lambda>baseline.
                    bindR (orDiscard run (wrapR (Failed ''move the rule'') (reorder run i place))) (\<lambda>_.
                    bindR (orDiscard run (fw4Accepts run baseline)) (\<lambda>_.
                      retR [(wholeRow ''firewall'' (describe ''firewall'' ''rule'' ''position'') (nat_digits (at + 1)) (nat_digits (land + 1)) i)
                        \<lparr>Subject := entrySubject (r_Name r) (ruleWordsOf r)\<rparr>]))))))))))"

section \<open>Port forwards\<close>

record port_forward_config =
  pc_ID :: string
  pc_Name :: string
  pc_Enabled :: bool
  pc_Protocols :: "string list"
  pc_ExternalPort :: string
  pc_ToAddress :: string
  pc_ToPort :: string

definition hasPortForward :: "firewall_status \<Rightarrow> string \<Rightarrow> bool" where
  "hasPortForward fw i = list_ex (\<lambda>pf. pf_ID pf = i) (fw_PortForwards fw)"

definition lastWhere :: "('a \<Rightarrow> bool) \<Rightarrow> 'a list \<Rightarrow> 'a option" where
  \<comment> \<open>the loops that keep what they find last\<close>
  "lastWhere P xs = List.find P (rev xs)"

definition zoneWithRole :: "firewall_status \<Rightarrow> string \<Rightarrow> string" where
  "zoneWithRole fw role = (case lastWhere (\<lambda>z. z_Role z = role) (fw_Zones fw) of None \<Rightarrow> [] | Some z \<Rightarrow> z_Name z)"

record forward_request =
  fr_protos :: "string list"
  fr_toPort :: string
  fr_ip :: ip4
  fr_name :: string

definition checkForward :: "port_forward_config \<Rightarrow> forward_request result" where
  \<comment> \<open>what is checked before the device is asked\<close>
  "checkForward cfg =
     (case forwardProtocols (pc_Protocols cfg) of Inl e \<Rightarrow> Inl (the (Refuse ''protocols'' (Some e)))
      | Inr protos \<Rightarrow> (case parsePorts (pc_ExternalPort cfg) of
          None \<Rightarrow> Inl (Refused ''externalPort'' ''not a port or a range of ports'')
        | Some (extFirst, extLast) \<Rightarrow>
            let toPort = TrimSpace (pc_ToPort cfg); name = TrimSpace (pc_Name cfg) in
            (case (if toPort = [] then Inr ()
                   else case parsePorts toPort of None \<Rightarrow> Inl (Refused ''toPort'' ''not a port or a range of ports'')
                     | Some (p, q) \<Rightarrow> if q - p \<noteq> extLast - extFirst then Inl (Refused ''toPort'' ''not as many ports'') else Inr ()) of
               Inl e \<Rightarrow> Inl e
             | Inr _ \<Rightarrow> (case ParseIP4 (TrimSpace (pc_ToAddress cfg)) of None \<Rightarrow> Inl (Refused ''toAddress'' ''not an IPv4 address'')
               | Some ip \<Rightarrow>
                   if badName name then Inl (Refused ''name'' ''a name cannot contain quotes, backslashes or line breaks'')
                   else Inr \<lparr>fr_protos = protos, fr_toPort = toPort, fr_ip = ip, fr_name = name\<rparr>))))"

definition forwardSettings :: "string \<Rightarrow> string \<Rightarrow> port_forward_config \<Rightarrow> forward_request \<Rightarrow> setting list" where
  "forwardSettings from' into cfg q =
     [fwSetting ''redirect'' ''target'' ''DNAT'', fwSetting ''redirect'' ''src'' from', fwSetting ''redirect'' ''dest'' into,
      fwSetting ''redirect'' ''proto'' (Join (fr_protos q) '' ''), fwSetting ''redirect'' ''src_dport'' (TrimSpace (pc_ExternalPort cfg)),
      fwSetting ''redirect'' ''dest_ip'' (ip4_string (fr_ip q)), orRemove ''redirect'' ''dest_port'' (fr_toPort q)] @
     (if fr_name q \<noteq> [] then [fwSetting ''redirect'' ''name'' (fr_name q)] else []) @
     [enabledSetting ''redirect'' (pc_Enabled cfg)]"

definition forwardSubject :: "firewall_status \<Rightarrow> string \<Rightarrow> string" where
  "forwardSubject fw section =
     (case lastWhere (\<lambda>pf. pf_ID pf = section) (fw_PortForwards fw) of None \<Rightarrow> []
      | Some pf \<Rightarrow> entrySubject (pf_Name pf)
          (portForwardWords (Join (pf_Protocols pf) '' '') (pf_ExternalPort pf) (pf_ToAddress pf) (pf_ToPort pf)))"

definition stageForward :: "'w runner \<Rightarrow> network_interface list result \<Rightarrow> port_forward_config \<Rightarrow> forward_request \<Rightarrow> ('w, config_change list) step" where
  "stageForward run ifaces cfg q =
     bindR (FirewallInfo run ifaces) (\<lambda>fw.
       let from' = zoneWithRole fw ZoneInternet; into = zoneWithRole fw ZoneLocal;
           section0 = TrimSpace (pc_ID cfg); fresh = (section0 = []) in
       bindR (checkR (from' \<noteq> [] \<and> into \<noteq> []) (Failed ''no internet-side zone or no local zone'')) (\<lambda>_.
       bindR (checkR (fresh \<or> sectionName section0 \<or> anonSection section0) (Refused ''id'' ''not an entry on this device'')) (\<lambda>_.
       bindR (checkR (fresh \<or> hasPortForward fw section0) (Refused ''id'' ''no port forward on this device'')) (\<lambda>_.
       bindR (fw4Warnings run) (\<lambda>baseline.
       bindR (if fresh then addEntry run ''firewall'' ''redirect'' else retR section0) (\<lambda>section.
       bindR (stage run ''firewall'' section (forwardSettings from' into cfg q)) (\<lambda>changes.
       bindR (orDiscard run (fw4Accepts run baseline)) (\<lambda>_.
         retR (if fresh then [wholeRow ''firewall'' (describe ''firewall'' ''redirect'' []) []
                   (portForwardWords (Join (fr_protos q) '' '') (pc_ExternalPort cfg) (ip4_string (fr_ip q)) (fr_toPort q)) section]
               else withSubject changes (forwardSubject fw section0))))))))))"

definition StagePortForward ::
  "'w runner option \<Rightarrow> network_interface list result \<Rightarrow> (string \<Rightarrow> string result) \<Rightarrow> int \<Rightarrow> port_forward_config \<Rightarrow> ('w, config_change list) step" where
  "StagePortForward mrun ifaces files now cfg w =
     (case mrun of None \<Rightarrow> (Inl (Failed ''not implemented''), w)
      | Some run \<Rightarrow> (case checkForward cfg of Inl e \<Rightarrow> (Inl e, w)
      | Inr q \<Rightarrow> (case lanNetwork run ifaces files now w of (network, w1) \<Rightarrow>
          if (case network of Inl e \<Rightarrow> False | Inr n \<Rightarrow> \<not> net_Contains n (V4 (fr_ip q))) then (Inl (Refused ''toAddress'' ''outside the local network''), w1)
          else stageForward run ifaces cfg q w1)))"

definition RemovePortForward :: "'w runner option \<Rightarrow> network_interface list result \<Rightarrow> string \<Rightarrow> ('w, config_change list) step" where
  "RemovePortForward mrun ifaces i =
     (case mrun of None \<Rightarrow> failR (Failed ''not implemented'')
      | Some run \<Rightarrow>
          bindR (checkR (sectionName i \<or> anonSection i) (Failed ''not an entry on this device'')) (\<lambda>_.
          bindR (FirewallInfo run ifaces) (\<lambda>fw.
            case lastWhere (\<lambda>pf. pf_ID pf = i) (fw_PortForwards fw) of None \<Rightarrow> failR (Failed ''no port forward on this device'')
            | Some pf \<Rightarrow>
                bindR (wrapR (Failed ''stage removal of a port forward'') (run ''uci'' [''delete'', ''firewall.'' @ i])) (\<lambda>_.
                  retR [wholeRow ''firewall'' (describe ''firewall'' ''redirect'' [])
                    (portForwardWords (Join (pf_Protocols pf) '' '') (pf_ExternalPort pf) (pf_ToAddress pf) (pf_ToPort pf)) [] i]))))"

section \<open>Which rule decides\<close>

text \<open>
  What the rules mean, from the comments of \<^verbatim>\<open>core/firewall.go\<close>: the firewall acts on the first rule that matches; \<open>from\<close> is a zone
  or \<open>*\<close>, an empty \<open>to\<close> is the router itself and \<open>*\<close> any zone; ports are destination ports; no family is both. A rule with
  conditions the panel does not show matches less than its fields say: \<open>extra\<close> is the rest of its match.
\<close>

record packet =
  pk_from :: string
  pk_to :: "string option"
  pk_proto :: string
  pk_port :: nat
  pk_family :: string

definition portsMatch :: "string \<Rightarrow> nat \<Rightarrow> bool" where
  "portsMatch ports p \<longleftrightarrow> ports = [] \<or> (case parsePortList ports of None \<Rightarrow> False | Some (_, rs) \<Rightarrow> list_ex (\<lambda>(a, b). p \<ge> a \<and> p \<le> b) rs)"

definition fieldsMatch :: "string \<Rightarrow> string \<Rightarrow> string list \<Rightarrow> string \<Rightarrow> string \<Rightarrow> packet \<Rightarrow> bool" where
  "fieldsMatch from' to' protos ports family pk \<longleftrightarrow>
     (from' = ''*'' \<or> pk_from pk = from') \<and>
     (case pk_to pk of None \<Rightarrow> to' = [] | Some z \<Rightarrow> to' = ''*'' \<or> (to' = z \<and> z \<noteq> [])) \<and>
     (''all'' \<in> set protos \<or> pk_proto pk \<in> set protos) \<and>
     (family = [] \<or> family = ''any'' \<or> pk_family pk = family) \<and> portsMatch ports (pk_port pk)"

definition wantMatches :: "rule_config \<Rightarrow> packet \<Rightarrow> bool" where
  "wantMatches want = fieldsMatch (c_From want) (c_To want) (c_Protocols want) (c_Ports want) (c_Family want)"

definition ruleActs :: "(firewall_rule \<Rightarrow> packet \<Rightarrow> bool) \<Rightarrow> firewall_rule \<Rightarrow> packet \<Rightarrow> bool" where
  "ruleActs extra r pk \<longleftrightarrow> r_Enabled r \<and> r_Action r \<noteq> ActionOther \<and> (r_Unsupported r = [] \<or> extra r pk) \<and>
     fieldsMatch (r_From r) (r_To r) (r_Protocols r) (r_Ports r) (r_Family r) pk"

definition decider :: "(firewall_rule \<Rightarrow> packet \<Rightarrow> bool) \<Rightarrow> firewall_rule list \<Rightarrow> packet \<Rightarrow> firewall_rule option" where
  "decider extra rules pk = List.find (\<lambda>r. ruleActs extra r pk) rules"

text \<open>A list of rules of which the first match decides, and a test that an earlier rule covers a later one.\<close>

locale first_match =
  fixes acts :: "'r \<Rightarrow> 'p \<Rightarrow> bool" and matches :: "'x \<Rightarrow> 'p \<Rightarrow> bool" and over :: "'r \<Rightarrow> 'x \<Rightarrow> bool"
  assumes over_sound: "over r x \<Longrightarrow> matches x p \<Longrightarrow> acts r p"
begin

lemma covered_never_decides:
  assumes "List.find (\<lambda>r. over r x) earlier = Some r" and "\<And>p. acts y p \<Longrightarrow> matches x p"
  shows "List.find (\<lambda>r. acts r p) (earlier @ y # later) = List.find (\<lambda>r. acts r p) (earlier @ later)"
proof -
  from assms(1) have "r \<in> set earlier" "over r x" by (auto simp: find_Some_iff)
  then have "\<not> acts y p" if "List.find (\<lambda>r. acts r p) earlier = None"
    using that over_sound assms(2) by (auto simp: find_None_iff)
  then show ?thesis by (simp add: find_append split: option.split)
qed

end

lemma rangeLoop_iff: "rangeLoop n p ranges \<longleftrightarrow> (\<forall>q. p \<le> q \<and> q < p + n \<longrightarrow> list_ex (\<lambda>(a, b). q \<ge> a \<and> q \<le> b) ranges)"
proof (induction n arbitrary: p)
  case (Suc n)
  have "p \<le> q \<and> q < p + Suc n \<longleftrightarrow> q = p \<or> (p + 1 \<le> q \<and> q < p + 1 + n)" for q by auto
  then have "(\<forall>q. p \<le> q \<and> q < p + Suc n \<longrightarrow> P q) \<longleftrightarrow> P p \<and> (\<forall>q. p + 1 \<le> q \<and> q < p + 1 + n \<longrightarrow> P q)" for P
    by auto
  then show ?case using Suc.IH [of "p + 1"] by simp
qed auto

lemma rangeCovered_iff: "rangeCovered n ranges \<longleftrightarrow> (\<forall>q. fst n \<le> q \<and> q \<le> snd n \<longrightarrow> list_ex (\<lambda>(a, b). q \<ge> a \<and> q \<le> b) ranges)"
  unfolding rangeCovered_def rangeLoop_iff by (intro iff_allI) auto

lemma covers_sound:
  assumes "covers r want" "wantMatches want pk"
  shows "fieldsMatch (r_From r) (r_To r) (r_Protocols r) (r_Ports r) (r_Family r) pk"
proof -
  have 1: "r_From r = c_From want \<or> r_From r = ''*''" and 2: "r_To r = c_To want \<or> (r_To r = ''*'' \<and> c_To want \<noteq> [])"
    and 3: "r_Family r = [] \<or> r_Family r = ''any'' \<or> r_Family r = c_Family want"
    and 4: "''all'' \<in> set (r_Protocols r) \<or> (''all'' \<notin> set (c_Protocols want) \<and> set (c_Protocols want) \<subseteq> set (r_Protocols r))"
    using assms(1) by (auto simp: covers_def list_ex_iff split: if_splits)
  have 5: "portsMatch (r_Ports r) (pk_port pk)"
  proof (cases "r_Ports r = []")
    case False
    with assms(1) obtain s rs where r: "parsePortList (r_Ports r) = Some (s, rs)" and w: "c_Ports want \<noteq> []"
      and all: "list_all (\<lambda>n. rangeCovered n rs) (case parsePortList (c_Ports want) of None \<Rightarrow> [] | Some (_, need) \<Rightarrow> need)"
      by (auto simp: covers_def split: if_splits option.splits)
    from assms(2) w obtain t need where n: "parsePortList (c_Ports want) = Some (t, need)"
      and "list_ex (\<lambda>(a, b). pk_port pk \<ge> a \<and> pk_port pk \<le> b) need"
      by (auto simp: wantMatches_def fieldsMatch_def portsMatch_def split: option.splits)
    then obtain ab where "ab \<in> set need" "fst ab \<le> pk_port pk" "pk_port pk \<le> snd ab" by (auto simp: list_ex_iff)
    moreover have "rangeCovered ab rs" using all n \<open>ab \<in> set need\<close> by (simp add: list_all_iff)
    ultimately show ?thesis unfolding portsMatch_def r by (auto simp: rangeCovered_iff)
  qed (simp add: portsMatch_def)
  note w = assms(2) [unfolded wantMatches_def fieldsMatch_def]
  have "case pk_to pk of None \<Rightarrow> r_To r = [] | Some z \<Rightarrow> r_To r = ''*'' \<or> (r_To r = z \<and> z \<noteq> [])"
    using w 2 by (cases "pk_to pk") auto
  moreover have "r_From r = ''*'' \<or> pk_from pk = r_From r" using w 1 by metis
  moreover have "''all'' \<in> set (r_Protocols r) \<or> pk_proto pk \<in> set (r_Protocols r)" using w 4 by blast
  moreover have "r_Family r = [] \<or> r_Family r = ''any'' \<or> pk_family pk = r_Family r" using w 3 by metis
  ultimately show ?thesis using 5 unfolding fieldsMatch_def by blast
qed

interpretation fm: first_match "ruleActs extra" wantMatches shadows
proof unfold_locales
  fix r x p
  assume "shadows r x" "wantMatches x p"
  then show "ruleActs extra r p" using covers_sound [of r x p] by (auto simp: shadows_def ruleActs_def)
qed

text \<open>
  C25. A rule the panel refuses as shadowed could never have acted: put behind the same rules, a rule that matches at most
  what was asked leaves the rule that decides the same for every packet, whatever the hidden conditions of
  other rules are and whatever follows. Only certainty refuses.
\<close>

theorem shadowed_rule_never_acts:
  assumes "shadowedBy earlier want = Some cover" and "\<And>pk. ruleActs extra nw pk \<Longrightarrow> wantMatches want pk"
  shows "decider extra (earlier @ nw # later) pk = decider extra (earlier @ later) pk"
  using fm.covered_never_decides [of want earlier cover extra nw pk later] assms
  by (auto simp: decider_def shadowedBy_def split: if_splits)

definition demo_block :: rule_config where
  "demo_block = \<lparr>c_ID = [], c_Name = [], c_Enabled = True, c_From = ''wan'', c_To = [], c_Protocols = [''tcp''], c_Ports = ''8080'',
     c_Action = ''drop'', c_Family = [], c_Before = []\<rparr>"

definition demo_allow :: firewall_rule where
  "demo_allow = \<lparr>r_ID = ''cfg1'', r_Name = [], r_Enabled = True, r_System = False, r_From = ''wan'', r_To = [], r_Protocols = [''tcp''],
     r_Ports = ''22 8080'', r_Action = ''accept'', r_Family = [], r_Unsupported = []\<rparr>"

definition demo_blocker :: firewall_rule where
  "demo_blocker = demo_allow\<lparr>r_ID := ''cfg2'', r_Ports := ''8080'', r_Action := ''drop''\<rparr>"

lemma demo_ports: "parsePortList ''22 8080'' = Some (''22 8080'', [(22, 22), (8080, 8080)])" "parsePortList ''8080'' = Some (''8080'', [(8080, 8080)])"
proof -
  have t: "TrimSpace ''22'' = ''22''" "TrimSpace ''8080'' = ''8080''"
    by (simp_all add: TrimSpace_id is_space_def)
  have p: "port5 ''22'' = Some 22" "port5 ''8080'' = Some 8080"
    by (simp_all add: port5_def all_digits_def is_digit_def digits_val_def digit_val_def)
  have "parsePorts ''22'' = Some (22, 22)" "parsePorts ''8080'' = Some (8080, 8080)"
    by (simp_all add: parsePorts_def t p)
  then show "parsePortList ''22 8080'' = Some (''22 8080'', [(22, 22), (8080, 8080)])" "parsePortList ''8080'' = Some (''8080'', [(8080, 8080)])"
    by (simp_all add: parsePortList_def port_sep_def)
qed

lemma demo_shadow: "shadowedBy [demo_allow] demo_block = Some demo_allow"
  by (simp add: shadowedBy_def shadows_def covers_def demo_block_def demo_allow_def ActionAccept_def ActionOther_def demo_ports
      portsApply_def rangeCovered_def)

theorem shadowed_rule_never_acts_witness:
  "decider (\<lambda>_ _. True) [demo_allow, demo_blocker] \<lparr>pk_from = ''wan'', pk_to = None, pk_proto = ''tcp'', pk_port = 8080, pk_family = ''ipv4''\<rparr> =
   decider (\<lambda>_ _. True) [demo_allow] \<lparr>pk_from = ''wan'', pk_to = None, pk_proto = ''tcp'', pk_port = 8080, pk_family = ''ipv4''\<rparr>"
proof -
  have "ruleActs (\<lambda>_ _. True) demo_blocker pk \<Longrightarrow> wantMatches demo_block pk" for pk
    by (simp add: ruleActs_def wantMatches_def demo_blocker_def demo_allow_def demo_block_def)
  from shadowed_rule_never_acts [OF demo_shadow this, where later = "[]"] show ?thesis by simp
qed

section \<open>Requests in normal form\<close>

lemma lower_not_space: "is_space (lower_char c) \<longleftrightarrow> is_space c"
  by (auto simp: lower_char_def is_space_def)

lemma lower_idem: "lower_char (lower_char c) = lower_char c"
  by (auto simp: lower_char_def)

lemma dropWhile_lower: "dropWhile is_space (map lower_char s) = map lower_char (dropWhile is_space s)"
  by (simp add: dropWhile_map comp_def lower_not_space)

lemma TrimSpace_lower: "TrimSpace (ToLower s) = ToLower (TrimSpace s)"
  by (simp add: TrimSpace_def TrimLeft_def TrimRight_def ToLower_def dropWhile_lower rev_map)

lemma ToLower_idem [simp]: "ToLower (ToLower s) = ToLower s"
  by (simp add: ToLower_def lower_idem)

lemma parsePortList_items: "parsePortList v = Some (p, rs) \<Longrightarrow>
    \<exists>items. items \<noteq> [] \<and> length items \<le> 32 \<and> (\<forall>x \<in> set items. x \<noteq> [] \<and> (\<forall>c \<in> set x. \<not> port_sep c)) \<and>
      those (map parsePorts items) = Some rs \<and> p = Join items '' ''"
  using FieldsFunc_words [of _ port_sep v]
  by (intro exI [of _ "FieldsFunc port_sep v"]) (auto simp: parsePortList_def Let_def split: if_splits option.splits)

lemma parsePortList_idem: "parsePortList v = Some (p, rs) \<Longrightarrow> parsePortList p = Some (p, rs)"
proof -
  assume "parsePortList v = Some (p, rs)"
  then obtain items where i: "items \<noteq> []" "length items \<le> 32" "\<forall>x \<in> set items. x \<noteq> [] \<and> (\<forall>c \<in> set x. \<not> port_sep c)"
    "those (map parsePorts items) = Some rs" and p: "p = Join items '' ''" using parsePortList_items by blast
  have "FieldsFunc port_sep p = items" unfolding p using i(3) by (intro FieldsFunc_Join) (simp_all add: port_sep_def)
  with i p show ?thesis by (simp add: parsePortList_def)
qed

lemma parsePorts_not_blank: "parsePorts v \<noteq> None \<Longrightarrow> \<exists>c \<in> set v. \<not> is_space c"
proof (rule ccontr)
  assume s: "parsePorts v \<noteq> None" and "\<not> (\<exists>c \<in> set v. \<not> is_space c)"
  then have "TrimSpace v = []" by (simp add: TrimSpace_eq_Nil)
  with s show False by (simp add: parsePorts_def port5_def all_digits_def)
qed

lemma set_Join: "x \<in> set items \<Longrightarrow> set x \<subseteq> set (Join items sep)"
  by (induction items sep rule: Join.induct) auto

lemma normalPorts_idem: "normalPorts ports protos = Inr p \<Longrightarrow> normalPorts p protos = Inr p"
proof -
  assume n: "normalPorts ports protos = Inr p"
  show ?thesis
  proof (cases "TrimSpace ports = []")
    case False
    with n obtain rs where ap: "portsApply protos" and pl: "parsePortList ports = Some (p, rs)"
      by (auto simp: normalPorts_def split: if_splits option.splits)
    from parsePortList_items [OF pl] obtain items where i: "items \<noteq> []" "those (map parsePorts items) = Some rs" "p = Join items '' ''" by blast
    then obtain x xs where x: "items = x # xs" by (cases items) auto
    with i(2) have "parsePorts x \<noteq> None" by (auto split: option.splits)
    then obtain c where "c \<in> set x" "\<not> is_space c" using parsePorts_not_blank by blast
    then have "TrimSpace p \<noteq> []" using set_Join [of x items "'' ''"] x i(3) by (auto simp: TrimSpace_eq_Nil)
    with ap parsePortList_idem [OF pl] show ?thesis by (simp add: normalPorts_def)
  qed (use n in \<open>auto simp: normalPorts_def\<close>)
qed

lemma ruleProtocols_idem: "ruleProtocols ps = Inr qs \<Longrightarrow> ruleProtocols qs = Inr qs"
proof -
  assume a: "ruleProtocols ps = Inr qs"
  let ?n = "\<lambda>p. ToLower (TrimSpace p)"
  have n: "?n ''tcp'' = ''tcp''" "?n ''udp'' = ''udp''" "?n ''icmp'' = ''icmp''" "?n ''all'' = ''all''"
    by (simp_all add: TrimSpace_id is_space_def ToLower_def lower_char_def)
  from a consider "qs = [''all'']" | "qs \<noteq> []" "qs = filter (\<lambda>p. p \<in> set (map ?n ps)) [''tcp'', ''udp'', ''icmp'']"
    by (auto simp: ruleProtocols_def Let_def simp del: filter.simps split: if_splits)
  then show ?thesis
  proof cases
    case 1
    then show ?thesis by (simp add: ruleProtocols_def n)
  next
    case 2
    have "set qs \<subseteq> set [''tcp'', ''udp'', ''icmp'']" unfolding 2(2) by (rule filter_is_subset)
    then have mem: "\<forall>p \<in> set qs. p \<in> {''tcp'', ''udp'', ''icmp''}" by (simp only: list.set subset_iff) blast
    have m: "map ?n qs = qs"
    proof (rule map_idI)
      fix p
      assume "p \<in> set qs"
      then have "p = ''tcp'' \<or> p = ''udp'' \<or> p = ''icmp''" using mem by blast
      then show "?n p = p" using n by (elim disjE) (simp_all only:)
    qed
    have "filter (\<lambda>p. p \<in> set (filter Q xs)) xs = filter Q xs" for Q and xs :: "string list" by (rule filter_cong) auto
    then have f: "filter (\<lambda>p. p \<in> set qs) [''tcp'', ''udp'', ''icmp''] = qs" by (simp only: 2(2))
    have "''all'' \<notin> {''tcp'', ''udp'', ''icmp''}" by simp
    then have na: "''all'' \<notin> set qs" using bspec [OF mem] by metis
    have "p \<in> {''tcp'', ''udp'', ''icmp''} \<Longrightarrow> p \<in> {''tcp'', ''udp'', ''icmp'', ''all''}" for p by (elim insertE) simp_all
    then have ok: "list_ex (\<lambda>p. p \<notin> {''tcp'', ''udp'', ''icmp'', ''all''}) qs = False" unfolding list_ex_iff using mem by metis
    show ?thesis unfolding ruleProtocols_def Let_def m f ok using 2(1) na by (simp only: if_False)
  qed
qed

lemma normalizeRule_idempotent:
  assumes "normalizeRule cfg = Inr want"
  shows "normalizeRule want = Inr want"
proof -
  let ?n = "TrimSpace (c_Name cfg)" and ?f = "TrimSpace (c_From cfg)" and ?t = "TrimSpace (c_To cfg)"
  let ?a = "ToLower (TrimSpace (c_Action cfg))" and ?m = "ToLower (TrimSpace (c_Family cfg))"
  from assms obtain protos ports where g: "\<not> badName ?n" "?f \<noteq> []" "\<not> badZone ?f" "\<not> badZone ?t"
    and pr: "ruleProtocols (c_Protocols cfg) = Inr protos" and po: "normalPorts (c_Ports cfg) protos = Inr ports"
    and h: "map_of ruleTargets ?a \<noteq> None" "\<not> (?m \<noteq> [] \<and> ?m \<noteq> ''ipv4'' \<and> ?m \<noteq> ''ipv6'')"
    and w: "want = cfg\<lparr>c_Name := ?n, c_From := ?f, c_To := ?t, c_Protocols := protos, c_Ports := ports, c_Action := ?a, c_Family := ?m\<rparr>"
    unfolding normalizeRule_def Let_def by (auto split: if_splits sum.splits)
  have f: "c_Name want = ?n" "c_From want = ?f" "c_To want = ?t" "c_Protocols want = protos" "c_Ports want = ports"
    "c_Action want = ?a" "c_Family want = ?m" by (simp_all add: w)
  have t: "ToLower (TrimSpace ?a) = ?a" "ToLower (TrimSpace ?m) = ?m" by (simp_all add: TrimSpace_lower)
  show ?thesis
    unfolding normalizeRule_def Let_def f t TrimSpace_idem
    using g h ruleProtocols_idem [OF pr] normalPorts_idem [OF po] w by simp
qed

text \<open>
  A port item keeps the white space that is no separator: a line break after a port is accepted and stays in the value
  that is written.
\<close>

lemma parsePortList_keeps_line_break: "parsePortList (''80'' @ [newline]) = Some (''80'' @ [newline], [(80, 80)])"
proof -
  have t: "TrimSpace (''80'' @ [newline]) = ''80''" by (simp add: TrimSpace_def TrimLeft_def TrimRight_def is_space_def)
  have "parsePorts (''80'' @ [newline]) = Some (80, 80)"
    unfolding parsePorts_def t by (simp add: port5_def all_digits_def is_digit_def digits_val_def digit_val_def)
  then show ?thesis by (simp add: parsePortList_def port_sep_def)
qed

end
