(* ===== verification/Firewall_Draft.thy ===== *)
theory Firewall_Draft
  imports Firewall
begin

text \<open>
  What the firewall operations do to the draft: where a moved rule lands among the rules once \<^verbatim>\<open>uci reorder\<close> has run, and
  that a change which fails on the way leaves nothing staged behind, whichever of the five operations it was
  (\<^verbatim>\<open>firewall_rules.go\<close>, \<^verbatim>\<open>firewall_write.go\<close>).
\<close>

section \<open>Where a moved rule lands\<close>

text \<open>\<^verbatim>\<open>uci reorder\<close>: the section leaves its place, which closes up, and is put at the given one, or last.\<close>

definition uciMove :: "string \<Rightarrow> nat \<Rightarrow> uci_section list \<Rightarrow> uci_section list" where
  "uciMove i place secs =
     (let others = filter (\<lambda>s. sec_id s \<noteq> i) secs
      in take place others @ filter (\<lambda>s. sec_id s = i) secs @ drop place others)"

definition isRule :: "uci_section \<Rightarrow> bool" where "isRule s \<longleftrightarrow> sec_kind s = ''rule''"

definition ruleIDs :: "uci_section list \<Rightarrow> string list" where "ruleIDs secs = map sec_id (filter isRule secs)"

lemma onSection_ids: "(\<And>s. sec_id (f s) = sec_id s) \<Longrightarrow> map sec_id (onSection i f secs) = map sec_id secs"
  by (simp add: onSection_def)

lemma sectionLine_distinct: "distinct (map sec_id secs) \<Longrightarrow> distinct (map sec_id (sectionLine l secs))"
  by (auto simp: sectionLine_def onSection_ids hasSection_def list_ex_iff split: option.splits list.splits)

lemma parseUCISections_distinct: "distinct (map sec_id (parseUCISections out))"
proof -
  have "distinct (map sec_id (fold sectionLine ls secs))" if "distinct (map sec_id secs)" for ls secs
    using that by (induction ls arbitrary: secs) (auto simp: sectionLine_distinct)
  then show ?thesis unfolding parseUCISections_def by simp
qed

lemma addSection_rules: "fw_Rules (addSection up s st) = fw_Rules st @ (if isRule s then [ruleOf (sec_id s) (sec_options s)] else [])"
  by (auto simp: addSection_def isRule_def Let_def)

lemma parseFirewall_rules: "map r_ID (fw_Rules (parseFirewall out up)) = ruleIDs (parseUCISections out)"
proof -
  have "map r_ID (fw_Rules (fold (addSection up) secs st)) = map r_ID (fw_Rules st) @ ruleIDs secs" for secs st
    by (induction secs arbitrary: st) (simp_all add: addSection_rules ruleIDs_def ruleOf_def)
  then show ?thesis by (simp add: parseFirewall_def)
qed

lemma indexOf_Some: "indexOf P xs = Some n \<longleftrightarrow> n < length xs \<and> P (xs ! n) \<and> (\<forall>x \<in> set (take n xs). \<not> P x)"
proof (induction xs arbitrary: n)
  case (Cons x xs)
  then show ?case by (cases n) auto
qed simp

lemma indexOf_split: "indexOf P xs = Some n \<Longrightarrow> \<exists>a b. xs = take n xs @ xs ! n # b \<and> length (take n xs) = n \<and> P (xs ! n)"
  using id_take_nth_drop [of n xs] by (auto simp: indexOf_Some)

lemma indexOf_append: "\<forall>y \<in> set a. \<not> P y \<Longrightarrow> P x \<Longrightarrow> indexOf P (a @ x # b) = Some (length a)"
  by (induction a) auto

lemma indexOf_ids: "indexOf (\<lambda>r. f r = i) xs = indexOf (\<lambda>j. j = i) (map f xs)"
  by (induction xs) auto

lemma ruleIDs_simps [simp]: "ruleIDs [] = []" "ruleIDs (a @ b) = ruleIDs a @ ruleIDs b"
  "ruleIDs (s # b) = (if isRule s then sec_id s # ruleIDs b else ruleIDs b)"
  by (simp_all add: ruleIDs_def)

lemma ruleIDs_sub: "j \<notin> sec_id ` set secs \<Longrightarrow> j \<notin> set (ruleIDs secs)"
  by (auto simp: ruleIDs_def)

lemma filter_other:
  "i \<notin> sec_id ` set secs \<Longrightarrow> filter (\<lambda>s. sec_id s \<noteq> i) secs = secs"
  "i \<notin> sec_id ` set secs \<Longrightarrow> filter (\<lambda>s. sec_id s = i) secs = []"
  by (auto simp: filter_id_conv filter_empty_conv)

lemma rule_section: "j \<in> set (ruleIDs secs) \<Longrightarrow> \<exists>p s q. secs = p @ s # q \<and> sec_id s = j \<and> isRule s"
  by (auto simp: ruleIDs_def in_set_conv_decomp)

lemma index_in: "indexOf (\<lambda>j. j = i) xs = Some n \<Longrightarrow> i \<in> set xs"
  by (auto simp: indexOf_Some)

lemma index_at: "i \<notin> set a \<Longrightarrow> indexOf (\<lambda>j. j = i) (a @ i # b) = Some (length a)"
  by (rule indexOf_append) auto

lemmas indexOf_secs = indexOf_ids [where f = sec_id]

text \<open>The two ways of moving in front of another rule, with the file written out.\<close>

lemma move_down:
  assumes "secs = p1 @ s # p2 @ t # q" "distinct (map sec_id secs)" "isRule s" "isRule t"
    and "indexOf (\<lambda>j. j = sec_id s) (ruleIDs secs) = Some at" "indexOf (\<lambda>j. j = sec_id t) (ruleIDs secs) = Some bt"
  shows "at < bt" and "indexOf (\<lambda>j. j = sec_id t) (map sec_id secs) = Some (length p1 + length p2 + 1)"
    and "ruleIDs (uciMove (sec_id s) (length p1 + length p2) secs) =
      take (bt - 1) (take at (ruleIDs secs) @ drop (at + 1) (ruleIDs secs)) @ [sec_id s] @ drop (bt - 1) (take at (ruleIDs secs) @ drop (at + 1) (ruleIDs secs))"
proof -
  have n: "sec_id s \<notin> sec_id ` set p1" "sec_id s \<notin> sec_id ` set p2" "sec_id s \<notin> sec_id ` set q" "sec_id s \<noteq> sec_id t"
    "sec_id t \<notin> sec_id ` set p1" "sec_id t \<notin> sec_id ` set p2" using assms(1,2) by auto
  have r: "ruleIDs secs = ruleIDs p1 @ sec_id s # ruleIDs p2 @ sec_id t # ruleIDs q" using assms(1,3,4) by simp
  have a: "at = length (ruleIDs p1)" using assms(5) ruleIDs_sub [OF n(1)] unfolding r by (simp add: index_at)
  have "indexOf (\<lambda>j. j = sec_id t) ((ruleIDs p1 @ sec_id s # ruleIDs p2) @ sec_id t # ruleIDs q) = Some (length (ruleIDs p1 @ sec_id s # ruleIDs p2))"
    using ruleIDs_sub [OF n(5)] ruleIDs_sub [OF n(6)] n(4) by (intro index_at) auto
  then have b: "bt = length (ruleIDs p1) + 1 + length (ruleIDs p2)" using assms(6) unfolding r by simp
  show "at < bt" using a b by simp
  have "indexOf (\<lambda>j. j = sec_id t) ((map sec_id p1 @ sec_id s # map sec_id p2) @ sec_id t # map sec_id q) = Some (length (map sec_id p1 @ sec_id s # map sec_id p2))"
    using n by (intro index_at) auto
  then show "indexOf (\<lambda>j. j = sec_id t) (map sec_id secs) = Some (length p1 + length p2 + 1)" using assms(1) by simp
  have "filter (\<lambda>u. sec_id u \<noteq> sec_id s) secs = (p1 @ p2) @ t # q" "filter (\<lambda>u. sec_id u = sec_id s) secs = [s]"
    unfolding assms(1) using n by (simp_all add: filter_other)
  then have "uciMove (sec_id s) (length p1 + length p2) secs = p1 @ p2 @ s # t # q" by (simp add: uciMove_def)
  then show "ruleIDs (uciMove (sec_id s) (length p1 + length p2) secs) =
      take (bt - 1) (take at (ruleIDs secs) @ drop (at + 1) (ruleIDs secs)) @ [sec_id s] @ drop (bt - 1) (take at (ruleIDs secs) @ drop (at + 1) (ruleIDs secs))"
    unfolding r a b using assms(3,4) by simp
qed

lemma move_up:
  assumes "secs = p @ t # q1 @ s # q2" "distinct (map sec_id secs)" "isRule s" "isRule t"
    and "indexOf (\<lambda>j. j = sec_id s) (ruleIDs secs) = Some at" "indexOf (\<lambda>j. j = sec_id t) (ruleIDs secs) = Some bt"
  shows "bt < at" and "indexOf (\<lambda>j. j = sec_id t) (map sec_id secs) = Some (length p)"
    and "ruleIDs (uciMove (sec_id s) (length p) secs) =
      take bt (take at (ruleIDs secs) @ drop (at + 1) (ruleIDs secs)) @ [sec_id s] @ drop bt (take at (ruleIDs secs) @ drop (at + 1) (ruleIDs secs))"
proof -
  have n: "sec_id s \<notin> sec_id ` set p" "sec_id s \<notin> sec_id ` set q1" "sec_id s \<notin> sec_id ` set q2" "sec_id t \<noteq> sec_id s"
    "sec_id t \<notin> sec_id ` set p" using assms(1,2) by auto
  have r: "ruleIDs secs = ruleIDs p @ sec_id t # ruleIDs q1 @ sec_id s # ruleIDs q2" using assms(1,3,4) by simp
  have b: "bt = length (ruleIDs p)" using assms(6) ruleIDs_sub [OF n(5)] unfolding r by (simp add: index_at)
  have "indexOf (\<lambda>j. j = sec_id s) ((ruleIDs p @ sec_id t # ruleIDs q1) @ sec_id s # ruleIDs q2) = Some (length (ruleIDs p @ sec_id t # ruleIDs q1))"
    using ruleIDs_sub [OF n(1)] ruleIDs_sub [OF n(2)] n(4) by (intro index_at) auto
  then have a: "at = length (ruleIDs p) + 1 + length (ruleIDs q1)" using assms(5) unfolding r by simp
  show "bt < at" using a b by simp
  show "indexOf (\<lambda>j. j = sec_id t) (map sec_id secs) = Some (length p)"
    using assms(1) n(5) index_at [of "sec_id t" "map sec_id p"] by simp
  have "filter (\<lambda>u. sec_id u \<noteq> sec_id s) secs = p @ t # q1 @ q2" "filter (\<lambda>u. sec_id u = sec_id s) secs = [s]"
    unfolding assms(1) using n by (simp_all add: filter_other)
  then have "uciMove (sec_id s) (length p) secs = p @ s # t # q1 @ q2" by (simp add: uciMove_def)
  then show "ruleIDs (uciMove (sec_id s) (length p) secs) =
      take bt (take at (ruleIDs secs) @ drop (at + 1) (ruleIDs secs)) @ [sec_id s] @ drop bt (take at (ruleIDs secs) @ drop (at + 1) (ruleIDs secs))"
    unfolding r a b using assms(3,4) by simp
qed

lemma move_last:
  assumes "secs = p @ s # q" "distinct (map sec_id secs)" "isRule s" "length secs \<le> n"
    and "indexOf (\<lambda>j. j = sec_id s) (ruleIDs secs) = Some at"
  shows "ruleIDs (uciMove (sec_id s) n secs) = take at (ruleIDs secs) @ drop (at + 1) (ruleIDs secs) @ [sec_id s]"
proof -
  have n: "sec_id s \<notin> sec_id ` set p" "sec_id s \<notin> sec_id ` set q" using assms(1,2) by auto
  have r: "ruleIDs secs = ruleIDs p @ sec_id s # ruleIDs q" using assms(1,3) by simp
  have a: "at = length (ruleIDs p)" using assms(5) ruleIDs_sub [OF n(1)] unfolding r by (simp add: index_at)
  have "filter (\<lambda>u. sec_id u \<noteq> sec_id s) secs = p @ q" "filter (\<lambda>u. sec_id u = sec_id s) secs = [s]"
    unfolding assms(1) using n by (simp_all add: filter_other)
  then have "uciMove (sec_id s) n secs = p @ q @ [s]" using assms(1,4) by (simp add: uciMove_def)
  then show ?thesis unfolding r a using assms(3) by simp
qed

text \<open>
  C27. A moved rule lands where the panel says it does. The place given to \<^verbatim>\<open>uci reorder\<close> counts every section of the file; after
  the reorder, the rules are the others in their order with the moved one at its landing place among them: in front of
  the rule it was to precede, or last.
\<close>

theorem moved_rule_lands:
  assumes "run ''uci'' [''-q'', ''show'', ''firewall''] w = (Inr out, w1)" and "fw = parseFirewall out up"
    and "ruleIndex fw i = Some at" and "landing fw at i before = Inr land" and "movePlace run before at land w = (Inr place, w2)"
    and "length (parseUCISections out) \<le> 2 ^ 16" and "rest = map r_ID (take at (fw_Rules fw) @ drop (at + 1) (fw_Rules fw))"
  shows "0 \<le> place \<and> ruleIDs (uciMove i (nat place) (parseUCISections out)) = take land rest @ [i] @ drop land rest"
proof -
  let ?secs = "parseUCISections out"
  note d = parseUCISections_distinct [of out]
  have ids: "map r_ID (fw_Rules fw) = ruleIDs ?secs" using assms(2) parseFirewall_rules by simp
  have idx: "ruleIndex fw j = indexOf (\<lambda>k. k = j) (ruleIDs ?secs)" for j
    unfolding ruleIndex_def ids [symmetric] by (rule indexOf_ids)
  have rest: "rest = take at (ruleIDs ?secs) @ drop (at + 1) (ruleIDs ?secs)"
    unfolding assms(7) ids [symmetric] by (simp add: take_map drop_map)
  have a: "indexOf (\<lambda>k. k = i) (ruleIDs ?secs) = Some at" using assms(3) idx by simp
  from rule_section [OF index_in [OF a]] obtain p s q where s: "?secs = p @ s # q" "sec_id s = i" "isRule s" by blast
  show ?thesis
  proof (cases "before = []")
    case True
    have "at < length (ruleIDs ?secs)" using a by (simp add: indexOf_Some)
    moreover have "length (fw_Rules fw) = length (ruleIDs ?secs)" using ids by (metis length_map)
    ultimately have "land = length rest" "place = 2 ^ 16"
      using True assms(4,5) rest by (auto simp: landing_def movePlace_def)
    moreover have "ruleIDs (uciMove i (2 ^ 16) ?secs) = rest @ [i]"
      using move_last [OF s(1) d s(3) assms(6), unfolded s(2), OF a] rest by simp
    ultimately show ?thesis by simp
  next
    case False
    with assms(4) obtain bt where ne: "before \<noteq> i" and b: "indexOf (\<lambda>k. k = before) (ruleIDs ?secs) = Some bt"
      and land: "land = (if bt > at then bt - 1 else bt)"
      by (auto simp: landing_def idx split: if_splits option.splits)
    from False assms(1,5) obtain n where n: "indexOf (\<lambda>k. k = before) (map sec_id ?secs) = Some n"
      and place: "place = (if land \<ge> at then int n - 1 else int n)"
      by (auto simp: movePlace_def sectionPosition_def bindR_def wrapR_def retR_def failR_def indexOf_secs split: option.splits)
    from rule_section [OF index_in [OF b]] obtain p' t q' where t: "?secs = p' @ t # q'" "sec_id t = before" "isRule t" by blast
    have "s \<noteq> t" using ne s(2) t(2) by auto
    then consider (down) p1 p2 where "?secs = p1 @ s # p2 @ t # q'" | (up) q1 q2 where "?secs = p' @ t # q1 @ s # q2"
      using s(1) t(1) by (metis append.assoc append_Cons in_set_conv_decomp in_set_conv_decomp_first set_ConsD Un_iff set_append in_set_conv_decomp)
    then show ?thesis
    proof cases
      case down
      note m = move_down [OF down d s(3) t(3), unfolded s(2) t(2), OF a b]
      have "land = bt - 1" "place = int (length p1 + length p2)" using m(1,2) land n place by simp_all
      then have "land = bt - 1" "nat place = length p1 + length p2" "0 \<le> place" by (simp_all only: nat_int of_nat_0_le_iff)
      then show ?thesis unfolding rest using m(3) by (simp only: simp_thms)
    next
      case up
      note m = move_up [OF up d s(3) t(3), unfolded s(2) t(2), OF a b]
      have "land = bt" "nat place = length p'" "0 \<le> place" using m(1,2) land n place by simp_all
      then show ?thesis unfolding rest using m(3) by (simp only: simp_thms)
    qed
  qed
qed

lemma ruleIndex_ids: "ruleIndex (parseFirewall out up) i = indexOf (\<lambda>k. k = i) (ruleIDs (parseUCISections out))"
  unfolding ruleIndex_def parseFirewall_rules [of out up, symmetric] by (rule indexOf_ids)

definition demo_show :: string where
  "demo_show = ''firewall.a=rule'' @ [newline] @ ''firewall.z=zone'' @ [newline] @ ''firewall.b=rule'' @ [newline] @ ''firewall.c=rule'' @ [newline]"

definition demo_run :: "unit runner" where "demo_run name args w = (Inr demo_show, w)"

lemma demo_sections: "map (\<lambda>s. (sec_id s, sec_kind s)) (parseUCISections demo_show) = [(''a'', ''rule''), (''z'', ''zone''), (''b'', ''rule''), (''c'', ''rule'')]"
  by code_simp

lemma demo_ids: "ruleIDs (parseUCISections demo_show) = [''a'', ''b'', ''c'']" "map sec_id (parseUCISections demo_show) = [''a'', ''z'', ''b'', ''c'']"
  "length (parseUCISections demo_show) = 4"
  by code_simp+

theorem moved_rule_lands_witness:
  "ruleIDs (uciMove ''a'' 2 (parseUCISections demo_show)) = [''b'', ''a'', ''c'']"
proof -
  let ?fw = "parseFirewall demo_show (\<lambda>_. False)"
  have at: "ruleIndex ?fw ''a'' = Some 0" "ruleIndex ?fw ''c'' = Some 2" by (simp_all add: ruleIndex_ids demo_ids)
  have land: "landing ?fw 0 ''a'' ''c'' = Inr 1" by (simp add: landing_def at)
  have r: "demo_run ''uci'' [''-q'', ''show'', ''firewall''] () = (Inr demo_show, ())" by (simp add: demo_run_def)
  have place: "movePlace demo_run ''c'' 0 1 () = (Inr 2, ())"
    by (simp add: movePlace_def sectionPosition_def bindR_def wrapR_def demo_run_def indexOf_secs demo_ids retR_def)
  have len: "length (parseUCISections demo_show) \<le> 2 ^ 16" by (simp add: demo_ids)
  have "map r_ID (take 0 (fw_Rules ?fw) @ drop (0 + 1) (fw_Rules ?fw)) = [''b'', ''c'']"
    using parseFirewall_rules [of demo_show "\<lambda>_. False"] by (simp add: demo_ids drop_map [symmetric])
  with moved_rule_lands [OF r refl at(1) land place len refl] show ?thesis by simp
qed

section \<open>No draft is left behind\<close>

text \<open>
  The device as the firewall operations use it, beyond \<open>uci_tool\<close>: asking changes nothing, a refused \<open>add\<close> or \<open>delete\<close> changes
  nothing, and nothing here commits. A revert may fail, and the code passes over it; a program is watched for that.
\<close>

definition noDraft :: "('w \<Rightarrow> string \<Rightarrow> string option) \<Rightarrow> ('w \<Rightarrow> string \<Rightarrow> string option) \<Rightarrow> 'w \<Rightarrow> bool" where
  \<comment> \<open>nothing of the firewall is staged\<close>
  "noDraft cur live w \<longleftrightarrow> (\<forall>k. HasPrefix k ''firewall.'' \<longrightarrow> cur w k = live w k)"

datatype fw_request = ReqRule rule_config | ReqRemove string | ReqMove string string | ReqForward port_forward_config | ReqUnforward string

fun fwHandle :: "'w runner \<Rightarrow> network_interface list result \<Rightarrow> (string \<Rightarrow> string result) \<Rightarrow> int \<Rightarrow> fw_request \<Rightarrow> ('w, config_change list) step" where
  "fwHandle run ifaces files now (ReqRule cfg) = StageRule (Some run) ifaces cfg"
| "fwHandle run ifaces files now (ReqRemove i) = RemoveRule (Some run) ifaces i"
| "fwHandle run ifaces files now (ReqMove i b) = MoveRule (Some run) ifaces i b"
| "fwHandle run ifaces files now (ReqForward cfg) = StagePortForward (Some run) ifaces files now cfg"
| "fwHandle run ifaces files now (ReqUnforward i) = RemovePortForward (Some run) ifaces i"

locale firewall_device = uci_tool +
  assumes show_frame: "run ''uci'' [''-q'', ''show'', c] w = (x, w') \<Longrightarrow> cur w' = cur w \<and> live w' = live w"
    and check_frame: "run fw4Program [''check''] w = (x, w') \<Longrightarrow> cur w' = cur w \<and> live w' = live w"
    and add_refused: "run ''uci'' [''add'', c, k] w = (Inl e, w') \<Longrightarrow> cur w' = cur w"
    and add_live: "run ''uci'' [''add'', c, k] w = (x, w') \<Longrightarrow> live w' = live w"
    and delete_refused: "run ''uci'' [''delete'', key] w = (Inl e, w') \<Longrightarrow> cur w' = cur w"
    and reorder_live: "run ''uci'' [''reorder'', a] w = (x, w') \<Longrightarrow> live w' = live w"

text \<open>A world that remembers whether a revert was refused.\<close>

locale watched_device = firewall_device +
  fixes refused :: "'a \<Rightarrow> bool"
  assumes revert_refused: "run ''uci'' [''revert'', c] w = (Inl e, w') \<Longrightarrow> refused w'"
    and refused_stays: "run p a w = (x, w') \<Longrightarrow> refused w \<Longrightarrow> refused w'"
begin

definition clean :: "'a \<Rightarrow> bool" where "clean w \<longleftrightarrow> refused w \<or> noDraft cur live w"

definition unchanged :: "'a \<Rightarrow> 'a \<Rightarrow> bool" where
  "unchanged w w' \<longleftrightarrow> cur w' = cur w \<and> live w' = live w \<and> (refused w \<longrightarrow> refused w')"

lemma frame_clean: "unchanged w w' \<Longrightarrow> clean w \<Longrightarrow> clean w'"
  by (auto simp: clean_def unchanged_def noDraft_def)

lemma unchanged_trans: "unchanged w w' \<Longrightarrow> unchanged w' w'' \<Longrightarrow> unchanged w w''"
  by (simp add: unchanged_def)

lemma unchanged_refl [simp]: "unchanged w w"
  by (simp add: unchanged_def)

lemma show_unchanged: "run ''uci'' [''-q'', ''show'', c] w = (x, w') \<Longrightarrow> unchanged w w'"
  using show_frame refused_stays by (simp add: unchanged_def)

lemma check_unchanged: "run fw4Program [''check''] w = (x, w') \<Longrightarrow> unchanged w w'"
  using check_frame refused_stays by (simp add: unchanged_def)

lemma add_unchanged: "run ''uci'' [''add'', c, k] w = (Inl e, w') \<Longrightarrow> unchanged w w'"
  using add_refused add_live refused_stays by (simp add: unchanged_def)

lemma delete_unchanged: "run ''uci'' [''delete'', k] w = (Inl e, w') \<Longrightarrow> unchanged w w'"
  using delete_refused delete_live refused_stays by (simp add: unchanged_def)

lemma get_unchanged: "uciGet run k w = (v, w') \<Longrightarrow> unchanged w w'"
  using uciGet_before [of k w v w'] refused_stays by (auto simp: unchanged_def uciGet_def split: prod.splits sum.splits)

lemma discard_clean: "clean (snd (discardConfig run ''firewall'' w))"
proof -
  obtain x w' where r: "run ''uci'' [''revert'', ''firewall''] w = (x, w')" by (rule prod.exhaust)
  have "sectionName ''firewall''" by (simp add: sectionName_def word_char_def)
  with r have d: "snd (discardConfig run ''firewall'' w) = w'" by (simp add: discardConfig_def split: sum.split)
  show ?thesis
  proof (cases x)
    case (Inl e)
    with revert_refused r show ?thesis unfolding d clean_def by blast
  next
    case (Inr out)
    with revert_ok [of "''firewall''" w out w'] revert_live r show ?thesis unfolding d by (simp add: clean_def noDraft_def)
  qed
qed

lemma holds_orDiscard: "holdsR (\<lambda>_. True) (orDiscard run m) (\<lambda>_ _. True) clean"
  by (rule holdsR_I) (auto simp: orDiscard_def discard_clean split: prod.splits sum.splits)

lemma stageSets_error: "stageSets run ''firewall'' s sets ch w = (Inl e, w') \<Longrightarrow> clean w'"
proof (induction sets arbitrary: ch w)
  case (Cons t ts)
  then show ?case by (auto simp: discard_clean split: prod.splits if_splits option.splits)
qed simp

lemma holds_stage: "sectionName s \<or> anonSection s \<Longrightarrow> holdsR (\<lambda>_. True) (stage run ''firewall'' s sets) (\<lambda>_ _. True) clean"
  by (rule holdsR_I) (auto simp: stage_def intro: stageSets_error split: if_splits)

lemma holds_frame:
  "(\<And>w x w'. m w = (x, w') \<Longrightarrow> unchanged w w') \<Longrightarrow> holdsR clean m (\<lambda>_. clean) clean"
  by (rule holdsR_I) (blast intro: frame_clean)+

lemma holds_show: "holdsR clean (run ''uci'' [''-q'', ''show'', c]) (\<lambda>_. clean) clean"
  by (rule holds_frame) (rule show_unchanged)

lemma holds_get: "holdsR clean (pureR (uciGet run k)) (\<lambda>_. clean) clean"
  by (rule holds_frame) (auto simp: pureR_def intro: get_unchanged split: prod.splits)

lemma holds_info: "holdsR clean (FirewallInfo run ifaces) (\<lambda>_. clean) clean"
  unfolding FirewallInfo_def by (rule holds_bindR [OF holds_show]) (rule holds_retR)

lemma holds_warnings: "holdsR clean (fw4Warnings run) (\<lambda>_. clean) clean"
  unfolding fw4Warnings_def by (rule holds_bindR [OF holds_wrapR [OF holds_frame [OF check_unchanged]]]) (auto intro: holds_retR)

lemma holds_position: "holdsR clean (sectionPosition run i) (\<lambda>_. clean) clean"
  unfolding sectionPosition_def
  by (rule holds_bindR [OF holds_wrapR [OF holds_show]]) (auto intro: holds_retR holds_failR split: option.split)

lemma holds_place: "holdsR clean (movePlace run bef at land) (\<lambda>_. clean) clean"
  unfolding movePlace_def by (auto intro: holds_retR holds_bindR [OF holds_position])

lemma holds_add: "holdsR clean (addEntry run ''firewall'' k) (\<lambda>s _. sectionName s) clean"
  by (rule holdsR_I) (auto simp: addEntry_def Let_def discard_clean intro: frame_clean add_unchanged split: prod.splits sum.splits if_splits)

lemma holds_pure: "(b \<Longrightarrow> holdsR (\<lambda>_. True) m Q E) \<Longrightarrow> holdsR (\<lambda>_. b) m Q E"
  by (cases b) (auto simp: holdsR_def)

lemma holds_delete: "holdsR clean (run ''uci'' [''delete'', k]) (\<lambda>_ _. True) clean"
  by (rule holdsR_I) (auto intro: frame_clean delete_unchanged)

lemma holds_verdict: "holdsR (\<lambda>_. True) (bindR (orDiscard run (fw4Accepts run b)) (\<lambda>_. retR x)) (\<lambda>_ _. True) clean"
  by (rule holds_bindR [OF holds_orDiscard]) (rule holds_retR, simp)

lemma holds_into:
  assumes "sectionName s \<or> anonSection s"
  shows "holdsR (\<lambda>_. True) (stageRuleInto run want fresh pos b s sets) (\<lambda>_ _. True) clean"
proof -
  have "holdsR (\<lambda>_. True) (case pos of None \<Rightarrow> retR [] | Some p \<Rightarrow> orDiscard run (m p)) (\<lambda>_ _. True) clean" for m
    by (cases pos) (auto intro: holds_retR holds_orDiscard)
  note rest = holds_bindR [OF this holds_verdict]
  show ?thesis
    unfolding stageRuleInto_def by (rule holds_bindR [OF holds_stage [OF assms]]) (rule rest)
qed

lemma holds_newRule: "holdsR clean (StageNewRule run fw cfg want) (\<lambda>_ _. True) clean"
proof -
  have into: "holdsR (\<lambda>_. sectionName s) (bindR (stageRuleInto run want True pos b s sets) (\<lambda>_. retR x)) (\<lambda>_ _. True) clean" for pos b s sets and x :: "config_change list"
    by (rule holds_pure) (auto intro!: holds_bindR [OF holds_into] holds_retR)
  have place: "holdsR clean (if b = [] then retR y else case ruleIndex fw b of None \<Rightarrow> failR e
      | Some at \<Rightarrow> bindR (sectionPosition run b) (\<lambda>p. retR (f at p))) (\<lambda>_. clean) clean" for b y e f
    by (auto intro!: holds_retR holds_failR holds_bindR [OF holds_position] split: option.split)
  show ?thesis
    unfolding StageNewRule_def Let_def
    apply (rule holds_bindR [OF place], clarify)
    apply (rule holds_bindR [OF holds_weaken [OF holds_checkR]], assumption, assumption, erule conjunct1, assumption)
    apply (rule holds_bindR [OF holds_warnings])
    apply (rule holds_bindR [OF holds_add])
    apply (rule into)
    done
qed

lemma holds_check: "holdsR clean (checkR b e) (\<lambda>_ w. clean w \<and> b) clean"
  by (rule holds_checkR)

lemma holds_clean_and: "(b \<Longrightarrow> holdsR clean m Q E) \<Longrightarrow> holdsR (\<lambda>w. clean w \<and> b) m Q E"
  by (cases b) (auto simp: holdsR_def)

lemma holds_guard: "(b \<Longrightarrow> holdsR clean m Q clean) \<Longrightarrow> holdsR clean (bindR (checkR b e) (\<lambda>_. m)) Q clean"
  by (rule holds_bindR [OF holds_check]) (rule holds_clean_and)

lemma holds_oldRule: "holdsR clean (StageOldRule run fw cfg want s) (\<lambda>_ _. True) clean"
proof -
  have into: "holdsR clean (bindR (stageRuleInto run want False None b s sets) (\<lambda>c. retR (f c))) (\<lambda>_ _. True) clean"
    if "sectionName s \<or> anonSection s" for b sets and f :: "config_change list \<Rightarrow> config_change list"
    by (rule holds_bindR [OF holds_weaken [OF holds_into [OF that]]]) (auto intro: holds_retR)
  show ?thesis
    unfolding StageOldRule_def Let_def
    by (auto intro!: holds_guard holds_failR holds_bindR [OF holds_warnings] holds_bindR [OF holds_get] into split: option.split)
qed

lemma holds_rule: "holdsR clean (StageRule (Some run) ifaces cfg) (\<lambda>_ _. True) clean"
  unfolding StageRule_def Let_def
  by (auto intro!: holds_bindR [OF holds_liftR] holds_bindR [OF holds_info] holds_guard holds_newRule holds_oldRule)

lemma holds_remove: "holdsR clean (RemoveRule (Some run) ifaces i) (\<lambda>_ _. True) clean"
  unfolding RemoveRule_def Let_def
  by (auto intro!: holds_guard holds_bindR [OF holds_info] holds_failR holds_bindR [OF holds_wrapR [OF holds_delete]] holds_retR split: option.split)

lemma holds_move: "holdsR clean (MoveRule (Some run) ifaces i b) (\<lambda>_ _. True) clean"
proof -
  have any: "holdsR clean (bindR (orDiscard run m) (\<lambda>_. bindR (orDiscard run (fw4Accepts run l)) (\<lambda>_. retR x))) (\<lambda>_ _. True) clean"
    for m :: "('a, string) step" and l and x :: "config_change list"
    by (rule holds_weaken [OF holds_bindR [OF holds_orDiscard holds_verdict]]) auto
  show ?thesis
    unfolding MoveRule_def Let_def
    by (auto intro!: holds_guard holds_bindR [OF holds_info] holds_failR holds_bindR [OF holds_liftR] holds_retR
        holds_bindR [OF holds_place] holds_bindR [OF holds_warnings] any split: option.split)
qed

lemma lanNetwork_unchanged: "lanNetwork run ifaces files now w = (x, w') \<Longrightarrow> unchanged w w'"
proof -
  have h: "unchanged w w'" if "handout run lan w = (h, w')" for lan w h w'
    using that by (auto simp: handout_def Let_def dest!: get_unchanged intro: unchanged_trans split: prod.splits if_splits option.splits)
  have r: "unchanged w w'" if "reserved run w = (h, w')" for w h w'
    using that show_unchanged by (auto simp: reserved_def split: prod.splits sum.splits)
  have l: "unchanged w w'" if "leases run files now w = (h, w')" for w h w'
    using that by (auto simp: leases_def Let_def dest!: get_unchanged intro: unchanged_trans split: prod.splits sum.splits)
  show "lanNetwork run ifaces files now w = (x, w') \<Longrightarrow> unchanged w w'"
    by (auto simp: lanNetwork_def LANInfo_def bindR_def liftR_def Let_def dest!: h r l intro: unchanged_trans split: prod.splits sum.splits option.splits)
qed

lemma holds_forwardBody: "holdsR clean (stageForward run ifaces cfg q) (\<lambda>_ _. True) clean"
proof -
  have staged: "holdsR (\<lambda>_. sectionName s \<or> anonSection s)
      (bindR (stage run ''firewall'' s sets) (\<lambda>c. bindR (orDiscard run (fw4Accepts run b)) (\<lambda>_. retR (g c)))) (\<lambda>_ _. True) clean"
    for s sets b and g :: "config_change list \<Rightarrow> config_change list"
    by (rule holds_pure) (rule holds_bindR [OF holds_stage holds_verdict])
  have entry: "holdsR clean (if b then addEntry run ''firewall'' ''redirect'' else retR s) (\<lambda>t _. sectionName t \<or> anonSection t) clean"
    if "b \<or> sectionName s \<or> anonSection s" for b s
    using that by (auto intro: holds_weaken [OF holds_add] holds_retR)
  show ?thesis
    unfolding stageForward_def Let_def
    by (rule holds_bindR [OF holds_info], (rule holds_guard)+, rule holds_bindR [OF holds_warnings], rule holds_bindR [OF entry staged])
qed

lemma holds_forward: "holdsR clean (StagePortForward (Some run) ifaces files now cfg) (\<lambda>_ _. True) clean"
proof (rule holdsR_I)
  fix w e w'
  assume c: "clean w" and s: "StagePortForward (Some run) ifaces files now cfg w = (Inl e, w')"
  obtain network w1 where n: "lanNetwork run ifaces files now w = (network, w1)" by (rule prod.exhaust)
  have c1: "clean w1" using lanNetwork_unchanged [OF n] frame_clean c by blast
  show "clean w'"
    using s n c c1 holdsR_Inl [OF holds_forwardBody c1]
    unfolding StagePortForward_def by (auto split: sum.splits if_splits)
qed simp

lemma holds_unforward: "holdsR clean (RemovePortForward (Some run) ifaces i) (\<lambda>_ _. True) clean"
  unfolding RemovePortForward_def Let_def
  by (auto intro!: holds_guard holds_bindR [OF holds_info] holds_failR holds_bindR [OF holds_wrapR [OF holds_delete]] holds_retR split: option.split)

lemma holds_fwHandle: "holdsR clean (fwHandle run ifaces files now req) (\<lambda>_ _. True) clean"
  by (cases req) (simp_all add: holds_rule holds_remove holds_move holds_forward holds_unforward)

text \<open>No operation commits: the committed configuration is the same whatever happens.\<close>

lemma keeps_run:
  "keepsR live (run ''uci'' [''-q'', ''show'', c])" "keepsR live (run fw4Program [''check''])" "keepsR live (run ''uci'' [''delete'', k])"
  "keepsR live (reorder run t p)"
  using show_frame check_frame delete_live reorder_live by (auto simp: reorder_def intro!: keepsR_I)

lemma keeps_staging:
  "keepsR live (stage run c t sets)" "keepsR live (pureR (uciGet run k))" "keepsR live (addEntry run c k)"
  using stage_live uciGet_before discardConfig_live [OF surjective_pairing] add_live
  by (auto simp: addEntry_def pureR_def Let_def intro!: keepsR_I split: prod.splits sum.splits if_splits)

lemma keeps_orDiscard: "keepsR live m \<Longrightarrow> keepsR live (orDiscard run m)"
  by (rule keepsR_I) (auto simp: orDiscard_def discardConfig_live [OF surjective_pairing] dest: keepsR_D split: prod.splits sum.splits)

lemma keeps_check: "keepsR live (fw4Warnings run)" "keepsR live (fw4Accepts run b)" "keepsR live (FirewallInfo run ifaces)"
  "keepsR live (sectionPosition run i)"
  by (auto simp: fw4Accepts_def fw4Warnings_def FirewallInfo_def sectionPosition_def intro!: keeps_bindR keeps_wrapR keeps_run keeps_simple split: option.split)

lemmas keeps_all = keeps_bindR keeps_simple keeps_wrapR keeps_run keeps_staging keeps_orDiscard keeps_check

lemma keeps_rule: "keepsR live (StageRule (Some run) ifaces cfg)"
proof -
  have into: "keepsR live (stageRuleInto run want fresh pos b t sets)" for want fresh pos b t sets
    by (auto simp: stageRuleInto_def intro!: keeps_all split: option.split)
  show ?thesis
    by (auto simp: StageRule_def StageNewRule_def StageOldRule_def Let_def intro!: keeps_all into split: option.split)
qed

lemma keeps_others: "keepsR live (RemoveRule (Some run) ifaces i)" "keepsR live (MoveRule (Some run) ifaces i bf)"
  "keepsR live (RemovePortForward (Some run) ifaces i)" "keepsR live (stageForward run ifaces cfg q)"
  by (auto simp: RemoveRule_def MoveRule_def RemovePortForward_def stageForward_def movePlace_def Let_def intro!: keeps_all split: option.split)

lemma keeps_fwHandle: "keepsR live (fwHandle run ifaces files now req)"
proof (cases req)
  case (ReqForward cfg)
  have "live w' = live w" if "StagePortForward (Some run) ifaces files now cfg w = (r, w')" for w r w'
    using that lanNetwork_unchanged keepsR_D [OF keeps_others(4)] unfolding unchanged_def
    by (auto simp: StagePortForward_def split: sum.splits prod.splits if_splits)
  then show ?thesis using ReqForward by (simp add: keepsR_I)
qed (simp_all add: keeps_rule keeps_others)

end

text \<open>
  C28. A firewall change that fails leaves nothing staged behind, if the device can revert. Starting without a draft of the firewall, when
  adding, editing, removing or moving a rule, or adding or removing a port forward, ends in an error (a refusal, a program that failed, or the
  device's own check saying the entry would be skipped), then there is no draft of the firewall, or a revert was refused (\<open>refused\<close> says
  whether one has been so far): that error the code passes over (\<open>refused_revert_leaves_draft\<close>). And whether it fails or not, the committed configuration is untouched.
\<close>

theorem failed_change_leaves_no_draft:
  assumes "watched_device run cur live refused" and "noDraft cur live w" and "fwHandle run ifaces files now req w = (r, w')"
  shows "live w' = live w \<and> (\<forall>e. r = Inl e \<longrightarrow> noDraft cur live w' \<or> refused w')"
proof -
  have "watched_device.clean cur live refused w" using assms(2) by (simp add: watched_device.clean_def [OF assms(1)])
  note h = holdsR_Inl [OF watched_device.holds_fwHandle [OF assms(1)] this, of ifaces files now req]
  have "noDraft cur live w' \<or> refused w'" if "r = Inl e" for e
    using h [of e w'] assms(3) that by (auto simp: watched_device.clean_def [OF assms(1)])
  with keepsR_D [OF watched_device.keeps_fwHandle [OF assms(1)] assms(3)] show ?thesis by blast
qed

text \<open>Any program is watched by remembering its refused reverts next to its world.\<close>

definition watching :: "'w runner \<Rightarrow> ('w \<times> bool) runner" where
  "watching run p a s = (case run p a (fst s) of (r, w') \<Rightarrow> (r, w', snd s \<or> p = ''uci'' \<and> take 1 a = [''revert''] \<and> isl r))"

lemma watching_run: "watching run p a s = (r, s') \<Longrightarrow> run p a (fst s) = (r, fst s')"
  by (auto simp: watching_def split: prod.splits)

lemma watching_device:
  assumes "firewall_device run cur live"
  shows "watched_device (watching run) (\<lambda>s. cur (fst s)) (\<lambda>s. live (fst s)) snd"
proof -
  note u = firewall_device.axioms(1) [OF assms]
  have "uci_tool (watching run) (\<lambda>s. cur (fst s)) (\<lambda>s. live (fst s))"
    by (intro uci_tool.intro; drule watching_run)
      (blast dest: uci_tool.get_frame [OF u] uci_tool.get_value [OF u] uci_tool.get_absent [OF u] uci_tool.set_ok [OF u] uci_tool.set_live [OF u]
        uci_tool.delete_ok [OF u] uci_tool.delete_live [OF u] uci_tool.revert_ok [OF u] uci_tool.revert_live [OF u])+
  moreover have "firewall_device_axioms (watching run) (\<lambda>s. cur (fst s)) (\<lambda>s. live (fst s))"
    by (intro firewall_device_axioms.intro; drule watching_run)
      (blast dest: firewall_device.show_frame [OF assms] firewall_device.check_frame [OF assms] firewall_device.add_refused [OF assms]
        firewall_device.add_live [OF assms] firewall_device.delete_refused [OF assms] firewall_device.reorder_live [OF assms])+
  moreover have "watched_device_axioms (watching run) snd"
    by (intro watched_device_axioms.intro) (auto simp: watching_def split: prod.splits)
  ultimately show ?thesis by (intro watched_device.intro firewall_device.intro)
qed

section \<open>A reference router\<close>

record router = uci_world +
  rt_show :: string
  rt_check :: "(string \<Rightarrow> string option) \<Rightarrow> string"

definition ref_router :: "router runner" where
  "ref_router name args w =
     (if name = fw4Program then (Inr (rt_check w (uw_cur w)), w)
      else if take 2 args = [''-q'', ''show''] then (Inr (rt_show w), w)
      else if take 1 args = [''add''] then
        (Inr ''cfg0a1b2c'', w\<lparr>uw_cur := (uw_cur w)(hd (tl args) @ ''.cfg0a1b2c'' \<mapsto> last args)\<rparr>)
      else if take 1 args = [''reorder''] then (Inr [], w)
      else ref_uci name args w)"

lemma ref_router_uci:
  "ref_router ''uci'' [''-q'', ''get'', k] = ref_uci ''uci'' [''-q'', ''get'', k]" "ref_router ''uci'' [''set'', a] = ref_uci ''uci'' [''set'', a]"
  "ref_router ''uci'' [''delete'', a] = ref_uci ''uci'' [''delete'', a]" "ref_router ''uci'' [''revert'', a] = ref_uci ''uci'' [''revert'', a]"
  by (simp_all add: ref_router_def fun_eq_iff fw4Program_def)

interpretation rr: firewall_device ref_router uw_cur uw_live
proof unfold_locales
  fix w w' :: router and k v c a out x key and e :: error
  show "ref_router ''uci'' [''-q'', ''get'', k] w = (x, w') \<Longrightarrow> uw_cur w' = uw_cur w \<and> uw_live w' = uw_live w"
    "ref_router ''uci'' [''-q'', ''get'', k] w = (Inr out, w') \<Longrightarrow> \<exists>v. uw_cur w k = Some v \<and> TrimSpace out = TrimSpace v"
    "ref_router ''uci'' [''-q'', ''get'', k] w = (Inl e, w') \<Longrightarrow> uw_cur w k = None"
    "CHR ''='' \<notin> set k \<Longrightarrow> ref_router ''uci'' [''set'', k @ ''='' @ v] w = (Inr out, w') \<Longrightarrow> uw_cur w' = (uw_cur w)(k \<mapsto> v)"
    "ref_router ''uci'' [''set'', a] w = (x, w') \<Longrightarrow> uw_live w' = uw_live w"
    "count_list k CHR ''.'' = 2 \<Longrightarrow> ref_router ''uci'' [''delete'', k] w = (Inr out, w') \<Longrightarrow> uw_cur w' = (uw_cur w)(k := None)"
    "ref_router ''uci'' [''delete'', k] w = (x, w') \<Longrightarrow> uw_live w' = uw_live w"
    "ref_router ''uci'' [''revert'', c] w = (Inr out, w') \<Longrightarrow> uw_cur w' k = (if HasPrefix k (c @ ''.'') then uw_live w k else uw_cur w k)"
    "ref_router ''uci'' [''revert'', c] w = (x, w') \<Longrightarrow> uw_live w' = uw_live w"
    unfolding ref_router_uci by (fact ru.get_frame ru.get_value ru.get_absent ru.set_ok ru.set_live ru.delete_ok ru.delete_live ru.revert_ok ru.revert_live)+
  show "ref_router ''uci'' [''-q'', ''show'', c] w = (x, w') \<Longrightarrow> uw_cur w' = uw_cur w \<and> uw_live w' = uw_live w"
    "ref_router fw4Program [''check''] w = (x, w') \<Longrightarrow> uw_cur w' = uw_cur w \<and> uw_live w' = uw_live w"
    "ref_router ''uci'' [''add'', c, k] w = (Inl e, w') \<Longrightarrow> uw_cur w' = uw_cur w"
    "ref_router ''uci'' [''add'', c, k] w = (x, w') \<Longrightarrow> uw_live w' = uw_live w"
    "ref_router ''uci'' [''reorder'', a] w = (x, w') \<Longrightarrow> uw_live w' = uw_live w"
    by (auto simp: ref_router_def fw4Program_def)
  show "ref_router ''uci'' [''delete'', key] w = (Inl e, w') \<Longrightarrow> uw_cur w' = uw_cur w"
    unfolding ref_router_uci by (auto simp: ref_uci_def)
qed

interpretation wr: watched_device "watching ref_router" "\<lambda>s. uw_cur (fst s)" "\<lambda>s. uw_live (fst s)" snd
  by (rule watching_device [OF rr.firewall_device_axioms])

text \<open>A router whose firewall would skip every new entry that drops traffic: the draft of such a rule is thrown away.\<close>

definition demo_router :: router where
  "demo_router = \<lparr>uw_cur = (\<lambda>_. None), uw_live = (\<lambda>_. None),
     rt_show = ''firewall.w=zone'' @ [newline] @ ''firewall.w.name='' @ [quote] @ ''wan'' @ [quote] @ [newline],
     rt_check = (\<lambda>cur. if cur ''firewall.cfg0a1b2c.target'' = Some ''DROP'' then ''[!] Section cfg0a1b2c skipped'' else [])\<rparr>"

definition demo_drop :: rule_config where
  "demo_drop = demo_block\<lparr>c_Ports := []\<rparr>"

lemma demo_refused: "isl (fst (fwHandle (watching ref_router) (Inr []) no_files 0 (ReqRule demo_drop) (demo_router, False)))"
  "\<not> snd (snd (fwHandle (watching ref_router) (Inr []) no_files 0 (ReqRule demo_drop) (demo_router, False)))"
  by code_simp+

lemma demo_accepted: "\<not> isl (fst (fwHandle ref_router (Inr []) no_files 0 (ReqRule (demo_drop\<lparr>c_Action := ''reject''\<rparr>)) demo_router))"
  by code_simp

theorem failed_change_leaves_no_draft_witness:
  "noDraft uw_cur uw_live (fst (snd (fwHandle (watching ref_router) (Inr []) no_files 0 (ReqRule demo_drop) (demo_router, False))))"
proof -
  obtain e w' b where f: "fwHandle (watching ref_router) (Inr []) no_files 0 (ReqRule demo_drop) (demo_router, False) = (Inl e, w', b)"
    using demo_refused(1) by (metis isl_def prod.collapse)
  have "noDraft (\<lambda>s. uw_cur (fst s)) (\<lambda>s. uw_live (fst s)) (demo_router, False)" by (simp add: noDraft_def demo_router_def)
  from failed_change_leaves_no_draft [OF wr.watched_device_axioms this f] demo_refused(2) f show ?thesis by (simp add: noDraft_def)
qed

text \<open>A device that cannot revert: the refused change stays in the draft, for the next apply to commit.\<close>

definition stuck_router :: "router runner" where
  "stuck_router p a w = (if take 1 a = [''revert''] then (Inl (Failed ''uci''), w) else ref_router p a w)"

lemma refused_revert_leaves_draft:
  "isl (fst (fwHandle stuck_router (Inr []) no_files 0 (ReqRule demo_drop) demo_router))"
  "uw_cur (snd (fwHandle stuck_router (Inr []) no_files 0 (ReqRule demo_drop) demo_router)) ''firewall.cfg0a1b2c.target'' = Some ''DROP''"
  by code_simp+

end
