(* ===== verification/Uplink.thy ===== *)
theory Uplink
  imports Lan
begin

text \<open>
  The router's connections as its network daemon reports them, and which of them is the uplink:
  \<^verbatim>\<open>internal/adapters/openwrt/network.go\<close> and the part of \<^verbatim>\<open>internal/adapters/openwrt/ubus/ubus.go\<close> it reads. The answer of the daemon is the
  argument \<open>dump\<close>; \<^verbatim>\<open>sort.Slice\<close> by name leaves the order of equal names open, and connections have distinct names.
\<close>

section \<open>What the daemon reports\<close>

record ubus_address =
  ua_Address :: string
  ua_Mask :: int

record ubus_route =
  ur_Target :: string
  ur_Mask :: int
  ur_Nexthop :: string
  ur_Source :: string

record ubus_interface =
  ui_Name :: string
  ui_Up :: bool
  ui_Pending :: bool
  ui_Available :: bool
  ui_Autostart :: bool
  ui_Dynamic :: bool
  ui_Uptime :: int
  ui_Proto :: string
  ui_Device :: string
  ui_L3Device :: string
  ui_IPv4Address :: "ubus_address list"
  ui_IPv6Address :: "ubus_address list"
  ui_IPv6Prefix :: "ubus_address list"
  ui_Route :: "ubus_route list"
  ui_DNSServer :: "string list"

definition defaultVia :: "ubus_interface \<Rightarrow> string \<Rightarrow> string option" where
  "defaultVia i unspecified =
     map_option ur_Nexthop (List.find (\<lambda>r. ur_Target r = unspecified \<and> ur_Mask r = 0 \<and> ur_Nexthop r \<noteq> []) (ui_Route i))"

definition DefaultRoute :: "ubus_interface \<Rightarrow> string option" where "DefaultRoute i = defaultVia i ''0.0.0.0''"

definition DefaultRoute6 :: "ubus_interface \<Rightarrow> string option" where "DefaultRoute6 i = defaultVia i ''::''"

section \<open>The panel's view\<close>

definition cidr :: "ubus_address \<Rightarrow> string" where "cidr a = ua_Address a @ ''/'' @ Itoa (ua_Mask a)"

definition toCoreInterface :: "ubus_interface \<Rightarrow> network_interface" where
  "toCoreInterface i =
     \<lparr>if_Name = ui_Name i, if_Device = (if ui_L3Device i = [] then ui_Device i else ui_L3Device i), if_Up = ui_Up i, if_Proto = ui_Proto i,
      if_UptimeSec = ui_Uptime i, if_IPv4 = map cidr (ui_IPv4Address i), if_IPv6 = map cidr (ui_IPv6Address i),
      if_Gateway = the_default [] (DefaultRoute i), if_Gateway6 = the_default [] (DefaultRoute6 i), if_DNS = ui_DNSServer i\<rparr>"

definition Interfaces :: "ubus_interface list result \<Rightarrow> network_interface list result" where
  "Interfaces dump = (case dump of Inl e \<Rightarrow> Inl (Failed ''list interfaces'') | Inr raw \<Rightarrow> Inr (sort_key if_Name (map toCoreInterface raw)))"

definition HasDefaultRoute :: "network_interface \<Rightarrow> bool" where
  "HasDefaultRoute i \<longleftrightarrow> if_Gateway i \<noteq> [] \<or> if_Gateway6 i \<noteq> []"

definition loopbackNames :: "string list" where "loopbackNames = [''loopback'', ''lo'']"

datatype wan_error = WanList error | ErrNoWAN

record wan_status =
  ws_Interface :: network_interface
  ws_SelectedBy :: string
  ws_Candidates :: "string list"

definition pickByName :: "network_interface list \<Rightarrow> network_interface option" where
  "pickByName cs =
     (case List.find (\<lambda>c. EqualFold (if_Name c) ''wan'') cs of Some c \<Rightarrow> Some c
      | None \<Rightarrow> (case filter (\<lambda>c. Contains (ToLower (if_Name c)) ''wan'') cs of [c] \<Rightarrow> Some c | _ \<Rightarrow> None))"

definition wanCandidates :: "network_interface list \<Rightarrow> network_interface list" where
  "wanCandidates is = filter (\<lambda>i. \<not> (if_Name i \<in> set loopbackNames \<or> \<not> HasDefaultRoute i)) is"

definition WANInfo :: "ubus_interface list result \<Rightarrow> wan_error + wan_status" where
  "WANInfo dump =
     (case Interfaces dump of Inl e \<Rightarrow> Inl (WanList e)
      | Inr is \<Rightarrow>
          let cs = wanCandidates is; st = (\<lambda>i how. \<lparr>ws_Interface = i, ws_SelectedBy = how, ws_Candidates = map if_Name cs\<rparr>) in
          (case cs of [] \<Rightarrow> Inl ErrNoWAN
           | [c] \<Rightarrow> Inr (st c ''default-route'')
           | c # d # r \<Rightarrow> (case pickByName cs of Some i \<Rightarrow> Inr (st i ''name'') | None \<Rightarrow> Inr (st c ''first-candidate''))))"

section \<open>Laws\<close>

text \<open>An answer names a candidate: a connection of the router that is no loopback and has a default route, as one of those listed.\<close>

lemma pickByName_in: "pickByName cs = Some c \<Longrightarrow> c \<in> set cs"
  unfolding pickByName_def by (auto simp: find_Some_iff filter_eq_Cons_iff split: option.splits list.splits)

lemma WANInfo_candidate:
  assumes "WANInfo (Inr raw) = Inr st"
  shows "\<exists>i \<in> set raw. ws_Interface st = toCoreInterface i \<and> ui_Name i \<notin> set loopbackNames \<and> (DefaultRoute i \<noteq> None \<or> DefaultRoute6 i \<noteq> None) \<and>
    ui_Name i \<in> set (ws_Candidates st)"
proof -
  let ?cs = "wanCandidates (sort_key if_Name (map toCoreInterface raw))"
  from assms have c: "ws_Interface st \<in> set ?cs" "ws_Candidates st = map if_Name ?cs"
    by (auto simp: WANInfo_def Interfaces_def Let_def split: list.splits option.splits dest: pickByName_in)
  then obtain i where i: "i \<in> set raw" "ws_Interface st = toCoreInterface i" "ui_Name i \<notin> set loopbackNames" "HasDefaultRoute (toCoreInterface i)"
    by (auto simp: wanCandidates_def toCoreInterface_def)
  then have "DefaultRoute i \<noteq> None \<or> DefaultRoute6 i \<noteq> None"
    by (auto simp: HasDefaultRoute_def toCoreInterface_def the_default_def split: option.splits)
  moreover have "ui_Name i \<in> set (ws_Candidates st)" using c i(2) by (force simp: toCoreInterface_def)
  ultimately show ?thesis using i by blast
qed

end
