(* ===== verification/Routes.thy ===== *)
theory Routes
  imports Committed Firewall_Draft Uplink "HOL-Library.Code_Target_Nat"
begin

unbundle bit_operations_syntax

text \<open>
  Static routes: \<^verbatim>\<open>internal/adapters/openwrt/routes.go\<close> (what is configured, what the kernel holds, whether the two are the same
  route) and \<^verbatim>\<open>routes_write.go\<close> (staging a route, choosing its connection, refusing a route that would clash). The kernel's
  tables are files, the byte order of the machine is the parameter \<open>le\<close> (little endian). An invalid \<^verbatim>\<open>netip.Prefix\<close> or
  \<^verbatim>\<open>netip.Addr\<close> is \<open>None\<close>.
\<close>

section \<open>What the kernel holds\<close>

record kernel_route =
  k_prefix :: prefix
  k_gateway :: "addr option"
  k_metric :: int
  k_device :: string

definition ParseUintHex :: "nat \<Rightarrow> string \<Rightarrow> nat option" where
  \<comment> \<open>\<^verbatim>\<open>strconv.ParseUint(s, 16, bits)\<close>\<close>
  "ParseUintHex bits s = (if s \<noteq> [] \<and> list_all is_hex s \<and> hex_val s < 2 ^ bits then Some (hex_val s) else None)"

definition procAddr4In :: "string \<Rightarrow> bool \<Rightarrow> ip4 option" where
  "procAddr4In h le =
     (if length h \<noteq> 8 then None
      else case ParseUintHex 32 h of None \<Rightarrow> None
        | Some v \<Rightarrow> let bytes = octets4 (of_nat v) in Some (ip4_of (if le then rev bytes else bytes)))"

lemma top_bit: "(v :: ip4) AND 0x80000000 \<noteq> 0 \<longleftrightarrow> bit v 31"
  using and_exp_eq_0_iff_not_bit [of v 31] by simp

lemma top_bit_ge: "bit (v :: ip4) 31 \<Longrightarrow> 2 ^ 31 \<le> unat v"
proof -
  assume "bit v 31"
  then have "bit (unat v) 31" by (simp add: bit_unsigned_iff)
  then have "odd (unat v div 2 ^ 31)" by (simp add: bit_iff_odd)
  then show ?thesis by (metis div_less even_zero not_less)
qed

lemma shift_shrinks: "(v :: ip4) AND 0x80000000 \<noteq> 0 \<Longrightarrow> unat (push_bit 1 v) < unat v"
proof -
  assume "v AND 0x80000000 \<noteq> 0"
  then have ge: "2 ^ 31 \<le> unat v" using top_bit top_bit_ge by blast
  have lt: "unat v < 2 ^ 32" using unsigned_less [of v] by simp
  have "push_bit 1 v = 2 * v" by (simp add: push_bit_eq_mult)
  then have "unat (push_bit 1 v) = (2 * unat v) mod 2 ^ 32" using unat_word_ariths(2) [of 2 v] by (simp only:) simp
  also have "\<dots> = 2 * unat v - 2 ^ 32" using ge lt by (simp add: mod_if)
  finally show ?thesis using lt ge by simp
qed

text \<open>The loop shifts ones out at the top; it ends because the number gets smaller.\<close>

function maskLoop :: "ip4 \<Rightarrow> nat \<Rightarrow> nat \<times> ip4" where
  "maskLoop v n = (if v AND 0x80000000 \<noteq> 0 then maskLoop (push_bit 1 v) (n + 1) else (n, v))"
  by pat_completeness auto
termination
proof (relation "measure (\<lambda>(v, n). unat v)")
  show "v AND 0x80000000 \<noteq> 0 \<Longrightarrow> ((push_bit 1 v, n + 1), v, n) \<in> measure (\<lambda>(v, n). unat v)" for v :: ip4 and n :: nat
    using shift_shrinks by (simp only: in_measure case_prod_conv)
qed simp

declare maskLoop.simps [simp del]

definition maskBits :: "ip4 \<Rightarrow> nat option" where
  "maskBits msk = (case maskLoop msk 0 of (n, v) \<Rightarrow> if v \<noteq> 0 then None else Some n)"

definition prefixFrom :: "addr \<Rightarrow> nat \<Rightarrow> prefix" where
  \<comment> \<open>\<^verbatim>\<open>netip.PrefixFrom\<close> of a length in range; the zone is dropped\<close>
  "prefixFrom a n = \<lparr>pfx_addr = (case a of V4 x \<Rightarrow> V4 x | V6 x z \<Rightarrow> V6 x []), pfx_bits = n\<rparr>"

definition routeLine4 :: "bool \<Rightarrow> string \<Rightarrow> kernel_route option" where
  "routeLine4 le line =
     (let f = Fields line in
      if length f < 8 then None
      else case (procAddr4In (f ! 1) le, procAddr4In (f ! 2) le, procAddr4In (f ! 7) le, ParseUintHex 32 (f ! 3), Atoi (f ! 6)) of
        (Some dst, Some gw, Some msk, Some flags, Some metric) \<Rightarrow>
          if even flags then None
          else (case maskBits msk of None \<Rightarrow> None
            | Some n \<Rightarrow> Some \<lparr>k_prefix = Masked (prefixFrom (V4 dst) n),
                k_gateway = (if odd (flags div 2) then Some (V4 gw) else None), k_metric = metric, k_device = f ! 0\<rparr>)
      | _ \<Rightarrow> None)"

definition parseProcRoute :: "bool \<Rightarrow> string \<Rightarrow> kernel_route list" where
  "parseProcRoute le raw = List.map_filter (routeLine4 le) (tl (Split raw newline))"

definition procAddr6 :: "string \<Rightarrow> addr option" where
  "procAddr6 h = (if length h = 32 \<and> list_all is_hex h then Some (V6 (of_nat (hex_val h)) []) else None)"

definition routeLine6 :: "string \<Rightarrow> kernel_route option" where
  "routeLine6 line =
     (let f = Fields line in
      if length f < 10 then None
      else case (procAddr6 (f ! 0), procAddr6 (f ! 4), ParseUintHex 8 (f ! 1), ParseUintHex 32 (f ! 5), ParseUintHex 32 (f ! 8)) of
        (Some dst, Some gw, Some bits, Some metric, Some flags) \<Rightarrow>
          if bits > 128 \<or> even flags then None
          else Some \<lparr>k_prefix = Masked (prefixFrom dst bits), k_gateway = (if odd (flags div 2) then Some gw else None),
                 k_metric = int metric, k_device = f ! 9\<rparr>
      | _ \<Rightarrow> None)"

definition parseProcRoute6 :: "string \<Rightarrow> kernel_route list" where
  "parseProcRoute6 raw = List.map_filter routeLine6 (Split raw newline)"

definition kernelRoutes :: "bool \<Rightarrow> (string \<Rightarrow> string result) \<Rightarrow> kernel_route list" where
  "kernelRoutes le files =
     (case files ''/proc/net/route'' of Inl e \<Rightarrow> [] | Inr raw \<Rightarrow> parseProcRoute le raw) @
     (case files ''/proc/net/ipv6_route'' of Inl e \<Rightarrow> [] | Inr raw \<Rightarrow> parseProcRoute6 raw)"

section \<open>What is configured\<close>

record route_section =
  rs_id :: string
  rs_name :: string
  rs_disabled :: bool
  rs_family :: string
  rs_prefix :: "prefix option"
  rs_target :: string
  rs_gateway :: "addr option"
  rs_iface :: string
  rs_metric :: int
  rs_hasMetric :: bool
  rs_netmaskForm :: bool
  rs_unsupported :: "string list"

definition routeOptions :: "string list" where
  "routeOptions = [''interface'', ''target'', ''netmask'', ''gateway'', ''metric'', ''name'', ''disabled'']"

definition routeUnsupported :: "(string \<times> string) list" where
  "routeUnsupported = [(''table'', ''table''), (''source'', ''source''), (''type'', ''type''), (''onlink'', ''onlink''), (''mtu'', ''mtu'')]"

definition sortedKeys :: "string list \<Rightarrow> string list" where "sortedKeys ks = sort (remdups ks)"

definition routeTarget :: "string \<Rightarrow> string \<Rightarrow> string \<Rightarrow> prefix option \<times> bool" where
  "routeTarget target0 netmask family =
     (let target = TrimSpace target0 in
      if target = [] then (None, False)
      else case ParsePrefix target of Some p \<Rightarrow> (Some (Masked p), False)
      | None \<Rightarrow> (case ParseAddr target of None \<Rightarrow> (None, False)
        | Some a \<Rightarrow>
            if netmask \<noteq> [] \<and> Is4 a then
              (case ParseAddr netmask of Some (V4 m) \<Rightarrow>
                 (case maskBits m of None \<Rightarrow> (None, False) | Some n \<Rightarrow> (Some (Masked (prefixFrom a n)), True))
               | _ \<Rightarrow> (None, False))
            else (Some (prefixFrom a (BitLen a)), False)))"

definition routeUnsupportedOf :: "(string \<times> string) list \<Rightarrow> prefix option \<Rightarrow> string list" where
  "routeUnsupportedOf o' p =
     sortedKeys (map (\<lambda>k. the_default ''other'' (map_of routeUnsupported k)) (filter (\<lambda>k. k \<notin> set routeOptions) (map fst o')) @
       (if p = None then [''other''] else []))"

definition routeSectionOf :: "uci_section \<Rightarrow> route_section" where
  "routeSectionOf s =
     (let o' = sec_options s; family = (if sec_kind s = ''route6'' then ''ipv6'' else ''ipv4'');
          (p, form) = routeTarget (oget o' ''target'') (oget o' ''netmask'') family; m = Atoi (oget o' ''metric'') in
      \<lparr>rs_id = sec_id s, rs_name = oget o' ''name'', rs_disabled = (oget o' ''disabled'' = ''1''), rs_family = family,
       rs_prefix = p, rs_target = oget o' ''target'', rs_gateway = ParseAddr (oget o' ''gateway''), rs_iface = oget o' ''interface'',
       rs_metric = the_default 0 m, rs_hasMetric = (m \<noteq> None), rs_netmaskForm = form, rs_unsupported = routeUnsupportedOf o' p\<rparr>)"

definition ifaceMetrics :: "uci_section list \<Rightarrow> (string \<times> int) list" where
  \<comment> \<open>a map in the code: a later entry of the same name wins\<close>
  "ifaceMetrics secs = rev (List.map_filter (\<lambda>s. map_option (Pair (sec_id s)) (Atoi (oget (sec_options s) ''metric'')))
     (filter (\<lambda>s. sec_kind s = ''interface'') secs))"

definition parseRouteSections :: "string \<Rightarrow> route_section list \<times> (string \<times> int) list" where
  "parseRouteSections show =
     (map routeSectionOf (filter (\<lambda>s. sec_kind s = ''route'' \<or> sec_kind s = ''route6'') (parseUCISections show)),
      ifaceMetrics (parseUCISections show))"

definition metricOf :: "(string \<times> int) list \<Rightarrow> string \<Rightarrow> int" where
  "metricOf ms i = the_default 0 (map_of ms i)"

definition effectiveMetric :: "route_section \<Rightarrow> (string \<times> int) list \<Rightarrow> int" where
  "effectiveMetric r ms = (if rs_hasMetric r then rs_metric r else metricOf ms (rs_iface r))"

definition matches :: "route_section \<Rightarrow> kernel_route \<Rightarrow> string \<Rightarrow> (string \<times> int) list \<Rightarrow> bool" where
  "matches r k dev ms \<longleftrightarrow> rs_prefix r = Some (k_prefix k) \<and> k_device k = dev \<and> k_metric k = effectiveMetric r ms \<and> k_gateway k = rs_gateway r"

record route_interface =
  ri_Name :: string
  ri_Up :: bool
  ri_IPv4 :: "string list"
  ri_device :: string

definition routeInterfaces :: "network_interface list result \<Rightarrow> route_interface list" where
  "routeInterfaces ifaces = (case ifaces of Inl e \<Rightarrow> []
     | Inr is \<Rightarrow> map (\<lambda>i. \<lparr>ri_Name = if_Name i, ri_Up = if_Up i, ri_IPv4 = if_IPv4 i, ri_device = if_Device i\<rparr>)
         (filter (\<lambda>i. if_Name i \<notin> set loopbackNames) is))"

definition devicesOf :: "route_interface list \<Rightarrow> string \<Rightarrow> string" where
  "devicesOf is n = the_default [] (map_of (rev (map (\<lambda>i. (ri_Name i, ri_device i)) is)) n)"

record static_route =
  sr_ID :: string
  sr_Name :: string
  sr_Enabled :: bool
  sr_Family :: string
  sr_Target :: string
  sr_Gateway :: string
  sr_Interface :: string
  sr_Metric :: int
  sr_Active :: bool
  sr_Unsupported :: "string list"

definition addrString :: "addr option \<Rightarrow> string" where
  "addrString a = (case a of None \<Rightarrow> [] | Some x \<Rightarrow> addr_String x)"

definition prefixString :: "prefix option \<Rightarrow> string" where
  "prefixString p = (case p of None \<Rightarrow> ''invalid Prefix'' | Some x \<Rightarrow> prefix_String x)"

definition staticRoute :: "kernel_route list \<Rightarrow> (string \<Rightarrow> string) \<Rightarrow> (string \<times> int) list \<Rightarrow> route_section \<Rightarrow> static_route" where
  "staticRoute ks devices ms r =
     \<lparr>sr_ID = rs_id r, sr_Name = rs_name r, sr_Enabled = (\<not> rs_disabled r), sr_Family = rs_family r,
      sr_Target = (case rs_prefix r of None \<Rightarrow> rs_target r | Some p \<Rightarrow> prefix_String p), sr_Gateway = addrString (rs_gateway r),
      sr_Interface = rs_iface r, sr_Metric = rs_metric r,
      sr_Active = (\<not> rs_disabled r \<and> list_ex (\<lambda>k. matches r k (devices (rs_iface r)) ms) ks), sr_Unsupported = rs_unsupported r\<rparr>"

definition StaticRoutes ::
  "'w runner option \<Rightarrow> network_interface list result \<Rightarrow> bool \<Rightarrow> (string \<Rightarrow> string result) \<Rightarrow> ('w, static_route list \<times> route_interface list) step" where
  "StaticRoutes mrun ifaces le files =
     (case mrun of None \<Rightarrow> failR (Failed ''not implemented'')
      | Some run \<Rightarrow>
          bindR (run ''uci'' [''-q'', ''show'', ''network'']) (\<lambda>out.
            let (sections, ms) = parseRouteSections out; is = routeInterfaces ifaces
            in retR (map (staticRoute (kernelRoutes le files) (devicesOf is) ms) sections, is)))"

definition routeWords :: "string \<Rightarrow> string \<Rightarrow> string \<Rightarrow> string" where
  "routeWords target gateway iface =
     target @ (if gateway \<noteq> [] then arrow @ gateway else []) @ (if iface \<noteq> [] then '' ('' @ iface @ '')'' else [])"

section \<open>Staging a route\<close>

record route_config =
  sc_ID :: string
  sc_Name :: string
  sc_Enabled :: bool
  sc_Target :: string
  sc_Gateway :: string
  sc_Interface :: string
  sc_Metric :: int

definition parseRouteTarget :: "string \<Rightarrow> prefix option" where
  "parseRouteTarget v0 =
     (let v = TrimSpace v0 in
      case ParsePrefix v of
        Some p \<Rightarrow> if Is4 (pfx_addr p) then Some (Masked p) else None
      | None \<Rightarrow> (case ParseAddr v of Some (V4 a) \<Rightarrow> Some (prefixFrom (V4 a) 32) | _ \<Rightarrow> None))"

definition onNetwork :: "addr \<Rightarrow> string list \<Rightarrow> bool" where
  "onNetwork a cidrs = list_ex (\<lambda>c. case ParsePrefix c of None \<Rightarrow> False | Some p \<Rightarrow> pfx_bits p < 32 \<and> pfx_contains (Masked p) a) cidrs"

definition checkable :: "string list \<Rightarrow> bool" where
  "checkable cidrs = list_ex (\<lambda>c. case ParsePrefix c of None \<Rightarrow> False | Some p \<Rightarrow> Is4 (pfx_addr p) \<and> pfx_bits p < 32) cidrs"

definition ownAddress :: "addr \<Rightarrow> string list \<Rightarrow> bool" where
  "ownAddress a cidrs = list_ex (\<lambda>c. case ParsePrefix c of None \<Rightarrow> False | Some p \<Rightarrow> pfx_addr p = a) cidrs"

definition routeInterfaceFor :: "string \<Rightarrow> addr option \<Rightarrow> route_interface list \<Rightarrow> string result" where
  "routeInterfaceFor name gateway is =
     (if name = [] then
        (case gateway of None \<Rightarrow> Inl (Refused ''interface'' ''choose a connection, or give a gateway'')
         | Some g \<Rightarrow> (case List.find (\<lambda>i. onNetwork g (ri_IPv4 i)) is of
             None \<Rightarrow> Inl (Refused ''gateway'' ''not on the network of any connection'') | Some i \<Rightarrow> Inr (ri_Name i)))
      else if \<not> sectionName name then Inl (Refused ''interface'' ''not a connection on this device'')
      else case lastWhere (\<lambda>i. ri_Name i = name) is of None \<Rightarrow> Inl (Refused ''interface'' ''no connection on this device'')
        | Some found \<Rightarrow> (case gateway of None \<Rightarrow> Inr name
          | Some g \<Rightarrow>
              if ownAddress g (ri_IPv4 found) then Inl (Refused ''gateway'' ''the own address of this router'')
              else if checkable (ri_IPv4 found) \<and> \<not> onNetwork g (ri_IPv4 found) then Inl (Refused ''gateway'' ''not on the network'')
              else Inr name))"

definition committedRouteSections :: "'w runner \<Rightarrow> 'w link_fs \<Rightarrow> ('w, route_section list) step" where
  "committedRouteSections run fs =
     withCommitted fs ''network'' (\<lambda>d alias. bindR (run ''uci'' [''-q'', ''-c'', d, ''show'', alias]) (\<lambda>out. retR (fst (parseRouteSections out))))"

definition claimed :: "string \<Rightarrow> prefix \<Rightarrow> int \<Rightarrow> (string \<times> int) list \<Rightarrow> route_section \<Rightarrow> bool" where
  \<comment> \<open>another configured route has this network and metric\<close>
  "claimed section p metric ms r \<longleftrightarrow>
     \<not> (rs_id r = section \<or> rs_disabled r \<or> rs_family r \<noteq> ''ipv4'') \<and> rs_prefix r = Some p \<and> effectiveMetric r ms = metric"

definition taken :: "route_section list \<Rightarrow> (string \<Rightarrow> string) \<Rightarrow> prefix \<Rightarrow> int \<Rightarrow> (string \<times> int) list \<Rightarrow> kernel_route \<Rightarrow> bool" where
  \<comment> \<open>the kernel has it, and not for the route itself\<close>
  "taken own devices p metric ms k \<longleftrightarrow>
     k_prefix k = p \<and> k_metric k = metric \<and> \<not> list_ex (\<lambda>r. \<not> rs_disabled r \<and> matches r k (devices (rs_iface r)) ms) own"

definition ownSections :: "'w runner \<Rightarrow> 'w link_fs \<Rightarrow> string \<Rightarrow> 'w \<Rightarrow> route_section list \<times> 'w" where
  "ownSections run fs section w =
     (if section = [] then ([], w)
      else case committedRouteSections run fs w of
        (Inl e, w') \<Rightarrow> ([], w') | (Inr rs, w') \<Rightarrow> (filter (\<lambda>r. rs_id r = section) rs, w'))"

definition routeClash ::
  "'w runner \<Rightarrow> 'w link_fs \<Rightarrow> bool \<Rightarrow> (string \<Rightarrow> string result) \<Rightarrow> string \<Rightarrow> prefix \<Rightarrow> int \<Rightarrow> route_section list \<Rightarrow> (string \<times> int) list \<Rightarrow>
    route_interface list \<Rightarrow> ('w, unit) step" where
  "routeClash run fs le files section p metric sections ms is =
     bindR (checkR (\<not> list_ex (claimed section p metric ms) sections) (Refused ''target'' ''there is already a static route'')) (\<lambda>_.
     bindR (pureR (ownSections run fs section)) (\<lambda>own.
       checkR (\<not> list_ex (taken own (devicesOf is) p metric ms) (kernelRoutes le files)) (Refused ''target'' ''the router already routes'')))"

definition maskByte :: "nat \<Rightarrow> nat list \<Rightarrow> nat list" where
  "maskByte i m = m[i div 8 := m ! (i div 8) OR (0x80 div 2 ^ (i mod 8))]"

definition netmaskOf :: "nat \<Rightarrow> string" where
  "netmaskOf bits = ip4_string (ip4_of (fold maskByte [0..<bits] [0, 0, 0, 0]))"

definition routeSetting :: "string \<Rightarrow> string \<Rightarrow> setting" where
  "routeSetting key value = setting0\<lparr>s_key := key, s_value := value, s_label := describe ''network'' ''route'' key\<rparr>"

definition removeSetting :: "string \<Rightarrow> string \<Rightarrow> setting" where
  "removeSetting key absent = (routeSetting key [])\<lparr>s_remove := True, s_sameAsAbsent := absent\<rparr>"

definition routeSettings :: "route_config \<Rightarrow> string \<Rightarrow> prefix \<Rightarrow> addr option \<Rightarrow> string \<Rightarrow> bool \<Rightarrow> setting list" where
  "routeSettings cfg iface p gateway name netmaskForm =
     [routeSetting ''interface'' iface] @
     (if netmaskForm then [routeSetting ''target'' (addr_String (pfx_addr p)), routeSetting ''netmask'' (netmaskOf (pfx_bits p))]
      else [routeSetting ''target'' (prefix_String p), removeSetting ''netmask'' []]) @
     [case gateway of None \<Rightarrow> removeSetting ''gateway'' [] | Some g \<Rightarrow> routeSetting ''gateway'' (addr_String g),
      if sc_Metric cfg \<noteq> 0 then routeSetting ''metric'' (Itoa (sc_Metric cfg)) else removeSetting ''metric'' ''0'',
      if name \<noteq> [] then routeSetting ''name'' name else removeSetting ''name'' [],
      if sc_Enabled cfg then removeSetting ''disabled'' ''0'' else routeSetting ''disabled'' ''1'']"

definition sameRoute :: "route_section \<Rightarrow> prefix \<Rightarrow> addr option \<Rightarrow> string \<Rightarrow> int \<Rightarrow> string \<Rightarrow> bool" where
  "sameRoute r p gateway iface metric name \<longleftrightarrow>
     rs_prefix r = Some p \<and> rs_gateway r = gateway \<and> rs_iface r = iface \<and> rs_metric r = metric \<and> rs_name r = name"

definition parseGateway :: "string \<Rightarrow> addr option result" where
  "parseGateway s =
     (if TrimSpace s = [] then Inr None
      else case ParseAddr (TrimSpace s) of Some (V4 a) \<Rightarrow> Inr (Some (V4 a)) | _ \<Rightarrow> Inl (Refused ''gateway'' ''not an IPv4 address''))"

definition currentRoute :: "string \<Rightarrow> route_section list \<Rightarrow> route_section option result" where
  "currentRoute section sections =
     (if section = [] then Inr None
      else if \<not> sectionName section \<and> \<not> anonSection section then Inl (Refused ''id'' ''not an entry on this device'')
      else case lastWhere (\<lambda>r. rs_id r = section) sections of None \<Rightarrow> Inl (Refused ''id'' ''no static route on this device'')
        | Some r \<Rightarrow> if rs_family r \<noteq> ''ipv4'' then Inl (Refused ''id'' ''IPv6 routes can only be switched on and off or removed here'')
            else Inr (Some r))"

definition requestedMetric :: "route_config \<Rightarrow> (string \<times> int) list \<Rightarrow> string \<Rightarrow> int" where
  "requestedMetric cfg ms iface = (if sc_Metric cfg = 0 then metricOf ms iface else sc_Metric cfg)"

definition StageStaticRoute ::
  "'w runner option \<Rightarrow> 'w link_fs \<Rightarrow> network_interface list result \<Rightarrow> bool \<Rightarrow> (string \<Rightarrow> string result) \<Rightarrow> route_config \<Rightarrow>
    ('w, config_change list) step" where
  "StageStaticRoute mrun fs ifaces le files cfg =
     (case mrun of None \<Rightarrow> failR (Failed ''not implemented'')
      | Some run \<Rightarrow>
          let name = TrimSpace (sc_Name cfg); is = routeInterfaces ifaces; section0 = TrimSpace (sc_ID cfg) in
          bindR (checkR (\<not> badName name) (Refused ''name'' ''a name cannot contain quotes, backslashes or line breaks'')) (\<lambda>_.
          bindR (checkR (\<not> (sc_Metric cfg < 0 \<or> sc_Metric cfg > 65535)) (Refused ''metric'' ''a metric is a number from 0 to 65535'')) (\<lambda>_.
          bindR (liftR (case parseRouteTarget (sc_Target cfg) of None \<Rightarrow> Inl (Refused ''target'' ''not an IPv4 network or address'') | Some p \<Rightarrow> Inr p)) (\<lambda>p.
          bindR (liftR (parseGateway (sc_Gateway cfg))) (\<lambda>gateway.
          bindR (run ''uci'' [''-q'', ''show'', ''network'']) (\<lambda>out.
            let (sections, ms) = parseRouteSections out in
            bindR (liftR (currentRoute section0 sections)) (\<lambda>current.
            bindR (liftR (routeInterfaceFor (TrimSpace (sc_Interface cfg)) gateway is)) (\<lambda>iface.
            bindR (checkR (case current of None \<Rightarrow> True
                 | Some r \<Rightarrow> rs_unsupported r = [] \<or> sameRoute r p gateway iface (sc_Metric cfg) name) (Refused ''id'' ''settings the panel does not show'')) (\<lambda>_.
            bindR (if sc_Enabled cfg then routeClash run fs le files section0 p (requestedMetric cfg ms iface) sections ms is else retR ()) (\<lambda>_.
            bindR (if section0 = [] then addEntry run ''network'' ''route'' else retR section0) (\<lambda>section.
            bindR (stage run ''network'' section (routeSettings cfg iface p gateway name
                (case current of None \<Rightarrow> False | Some r \<Rightarrow> rs_netmaskForm r))) (\<lambda>changes.
              retR (case current of
                 None \<Rightarrow> [wholeRow ''network'' (describe ''network'' ''route'' []) [] (routeWords (prefix_String p) (addrString gateway) iface) section]
               | Some r \<Rightarrow> withSubject changes (entrySubject (rs_name r)
                   (routeWords (prefixString (rs_prefix r)) (addrString (rs_gateway r)) (rs_iface r))))))))))))))))"

definition RemoveStaticRoute :: "'w runner option \<Rightarrow> string \<Rightarrow> ('w, config_change list) step" where
  "RemoveStaticRoute mrun i =
     (case mrun of None \<Rightarrow> failR (Failed ''not implemented'')
      | Some run \<Rightarrow>
          bindR (checkR (sectionName i \<or> anonSection i) (Failed ''not an entry on this device'')) (\<lambda>_.
          bindR (run ''uci'' [''-q'', ''show'', ''network'']) (\<lambda>out.
            case lastWhere (\<lambda>r. rs_id r = i) (fst (parseRouteSections out)) of None \<Rightarrow> failR (Failed ''no static route on this device'')
            | Some r \<Rightarrow>
                bindR (wrapR (Failed ''stage removal of a static route'') (run ''uci'' [''delete'', ''network.'' @ i])) (\<lambda>_.
                  retR [wholeRow ''network'' (describe ''network'' ''route'' [])
                    (routeWords (case rs_prefix r of None \<Rightarrow> rs_target r | Some p \<Rightarrow> prefix_String p) (addrString (rs_gateway r)) (rs_iface r)) [] i]))))"

section \<open>Masks\<close>

lemma bit_netmask4: "n \<le> 32 \<Longrightarrow> bit (netmask4 n) i \<longleftrightarrow> 32 - n \<le> i \<and> i < 32"
  unfolding netmask4_def bit_push_bit_iff bit_drop_bit_eq comp_def by auto

lemma bit_shift1: "bit (push_bit 1 (v :: ip4)) j \<longleftrightarrow> 1 \<le> j \<and> j < 32 \<and> bit v (j - 1)"
  unfolding bit_push_bit_iff by auto

lemma maskLoop_back:
  assumes "maskLoop v k = (n, 0)"
  shows "k \<le> n \<and> n - k \<le> 32 \<and> v = netmask4 (n - k)"
  using assms
proof (induction v k rule: maskLoop.induct)
  case (1 v k)
  show ?case
  proof (cases "v AND 0x80000000 \<noteq> 0")
    case True
    with 1(2) have "maskLoop (push_bit 1 v) (k + 1) = (n, 0)" by (subst (asm) maskLoop.simps) simp
    from 1(1) [OF True this] have ih: "k + 1 \<le> n" "n - (k + 1) \<le> 32" "push_bit 1 v = netmask4 (n - (k + 1))" by auto
    let ?m = "n - (k + 1)"
    have "\<not> bit (push_bit 1 v) 0" unfolding bit_shift1 by simp
    with ih bit_netmask4 [of ?m 0] have m: "?m < 32" by auto
    have top: "bit v 31" using True top_bit by blast
    have "v = netmask4 (Suc ?m)"
    proof (rule bit_word_eqI)
      fix i
      assume i: "i < LENGTH(32)"
      show "bit v i \<longleftrightarrow> bit (netmask4 (Suc ?m)) i"
      proof (cases "i = 31")
        case False
        with i have "bit v i \<longleftrightarrow> bit (push_bit 1 v) (Suc i)" unfolding bit_shift1 by auto
        then show ?thesis using i False m ih bit_netmask4 [of ?m "Suc i"] bit_netmask4 [of "Suc ?m" i] by auto
      qed (use top m bit_netmask4 [of "Suc ?m" 31] in auto)
    qed
    moreover have "Suc ?m = n - k" using ih(1) by simp
    ultimately show ?thesis using ih m by simp
  next
    case False
    with 1(2) have "v = 0 \<and> n = k" by (subst (asm) maskLoop.simps) simp
    then show ?thesis by (simp add: netmask4_def)
  qed
qed

lemma maskLoop_netmask: "m \<le> 32 \<Longrightarrow> maskLoop (netmask4 m) k = (k + m, 0)"
proof (induction m arbitrary: k)
  case 0
  then show ?case by (subst maskLoop.simps) (simp add: netmask4_def)
next
  case (Suc m)
  have top: "netmask4 (Suc m) AND 0x80000000 \<noteq> 0" using top_bit bit_netmask4 [of "Suc m" 31] Suc.prems by auto
  have "push_bit 1 (netmask4 (Suc m)) = netmask4 m"
    by (rule bit_word_eqI) (use Suc.prems in \<open>auto simp only: bit_shift1 bit_netmask4 Suc_leD\<close>)
  then show ?case using Suc top by (subst maskLoop.simps) (simp only: if_True, simp)
qed

lemma maskBits_masks: "n \<le> 32 \<Longrightarrow> maskBits (netmask4 n) = Some n"
  by (simp add: maskBits_def maskLoop_netmask)

definition allMasks :: "nat list list" where
  "allMasks =
     [[0, 0, 0, 0], [128, 0, 0, 0], [192, 0, 0, 0], [224, 0, 0, 0], [240, 0, 0, 0], [248, 0, 0, 0], [252, 0, 0, 0], [254, 0,
     0, 0], [255, 0, 0, 0], [255, 128, 0, 0], [255, 192, 0, 0], [255, 224, 0, 0], [255, 240, 0, 0], [255, 248, 0, 0], [255,
     252, 0, 0], [255, 254, 0, 0], [255, 255, 0, 0], [255, 255, 128, 0], [255, 255, 192, 0], [255, 255, 224, 0], [255, 255,
     240, 0], [255, 255, 248, 0], [255, 255, 252, 0], [255, 255, 254, 0], [255, 255, 255, 0], [255, 255, 255, 128], [255,
     255, 255, 192], [255, 255, 255, 224], [255, 255, 255, 240], [255, 255, 255, 248], [255, 255, 255, 252], [255, 255, 255,
     254], [255, 255, 255, 255]]"

lemma maskBytes_all: "map (\<lambda>n. fold maskByte [0..<n] [0, 0, 0, 0]) [0..<33] = allMasks"
  by code_simp

lemma netmask4_all: "map ip4_of allMasks = map netmask4 [0..<33]"
  by (simp add: allMasks_def netmask4_def ip4_of_def upt_conv_Cons mask_eq_exp_minus_1 push_bit_eq_mult)

lemma netmaskOf_masks: "n \<le> 32 \<Longrightarrow> netmaskOf n = ip4_string (netmask4 n)"
proof -
  assume "n \<le> 32"
  then have "n \<in> set [0..<33]" by simp
  moreover have "map (\<lambda>n. ip4_of (fold maskByte [0..<n] [0, 0, 0, 0])) [0..<33] = map netmask4 [0..<33]"
    unfolding netmask4_all [symmetric] maskBytes_all [symmetric] map_map comp_def ..
  ultimately have "ip4_of (fold maskByte [0..<n] [0, 0, 0, 0]) = netmask4 n" by (meson map_eq_conv)
  then show ?thesis by (simp add: netmaskOf_def)
qed

lemma mask_Size_netmask: "n \<le> 32 \<Longrightarrow> mask_Size (netmask4 n) = (n, 32)"
proof -
  assume n: "n \<le> 32"
  have inj: "netmask4 n = netmask4 j \<Longrightarrow> j \<le> 32 \<Longrightarrow> j = n" for j
    using n by (metis maskBits_masks option.inject)
  have "List.find (\<lambda>j. netmask4 n = netmask4 j) [0..<33] = Some n"
    unfolding find_Some_iff
  proof (intro exI [of _ n] conjI allI impI)
    fix j
    assume "j < n"
    then show "netmask4 n \<noteq> netmask4 ([0..<33] ! j)" using inj [of j] n by (auto simp del: upt_Suc)
  qed (use n in \<open>simp_all del: upt_Suc\<close>)
  then show ?thesis by (simp add: mask_Size_def del: upt_Suc)
qed

text \<open>
  The mask loop agrees with the library on every mask: it ends with a length exactly for the contiguous masks, and with the
  same length \<^verbatim>\<open>IPMask.Size\<close> gives.
\<close>

lemma maskBits_is_mask_size:
  "maskBits m = Some n \<longleftrightarrow> mask_Size m = (n, 32)"
proof
  assume "maskBits m = Some n"
  then have "maskLoop m 0 = (n, 0)" by (auto simp: maskBits_def split: prod.splits if_splits)
  from maskLoop_back [OF this] show "mask_Size m = (n, 32)" using mask_Size_netmask by auto
next
  assume "mask_Size m = (n, 32)"
  then have "List.find (\<lambda>n. m = netmask4 n) [0..<33] = Some n" by (auto simp: mask_Size_def simp del: upt_Suc split: option.splits)
  then have "m = netmask4 n \<and> n \<in> set [0..<33]" unfolding find_Some_iff by (metis nth_mem)
  then have "m = netmask4 n" "n \<le> 32" by auto
  then show "maskBits m = Some n" using maskBits_masks by metis
qed

section \<open>Targets\<close>

lemma Masked_idem: "Is4 (pfx_addr p) \<Longrightarrow> Masked (Masked p) = Masked p"
  by (cases "pfx_addr p") (simp_all add: Masked_def)

lemma digits_no_slash: "CHR ''/'' \<notin> set (ip4_string a)"
  by (simp add: ip4_string_def octets4_def dot_not_digit)

lemma ip4_string_ends: "\<not> is_space (hd (ip4_string a))" "\<not> is_space (last (ip4_string a))" "ip4_string a \<noteq> []"
  by (simp_all add: ip4_string_def octets4_def hd_append last_append digit_not_space is_digit_hd_nat_digits last_nat_digits)

lemma TrimSpace_ip4 [simp]: "TrimSpace (ip4_string a) = ip4_string a"
  by (rule TrimSpace_id) (simp_all add: ip4_string_ends)

lemma lastCut_slash: "CHR ''/'' \<notin> set b \<Longrightarrow> lastCut (a @ ''/'' @ b) CHR ''/'' = Some (a, b)"
proof -
  assume "CHR ''/'' \<notin> set b"
  then have "Cut (rev b @ CHR ''/'' # rev a) CHR ''/'' = Some (rev b, rev a)" by (simp add: Cut_Some)
  then show ?thesis by (simp add: lastCut_def)
qed

lemma leading_zero: "length (nat_digits n) > 1 \<Longrightarrow> is_digit (hd (nat_digits n)) \<and> hd (nat_digits n) \<noteq> CHR ''0''"
proof -
  assume l: "length (nat_digits n) > 1"
  have "n \<noteq> 0" using l by (cases n) (simp_all add: nat_digits.simps [of 0])
  then show ?thesis using is_digit_hd_nat_digits hd_nat_digits by simp
qed

lemma ParsePrefix_string4: "n \<le> 32 \<Longrightarrow> ParsePrefix (ip4_string a @ ''/'' @ nat_digits n) = Some \<lparr>pfx_addr = V4 a, pfx_bits = n\<rparr>"
  using lastCut_slash [OF dot_not_digit(2) [of n], of "ip4_string a"] leading_zero [of n] Atoi_Itoa [of "int n"]
  by (simp add: ParsePrefix_def ParseAddr_ip4 Itoa_def)

lemma ParsePrefix_plain: "CHR ''/'' \<notin> set s \<Longrightarrow> ParsePrefix s = None"
proof -
  assume "CHR ''/'' \<notin> set s"
  then have "Cut (rev s) CHR ''/'' = None" by (simp add: Cut_None)
  then show ?thesis by (simp add: ParsePrefix_def lastCut_def)
qed

lemma parseRouteTarget_form: "parseRouteTarget t = Some p \<Longrightarrow> \<exists>a n. p = \<lparr>pfx_addr = V4 (network4 n a), pfx_bits = n\<rparr> \<and> n \<le> 32"
proof -
  assume t: "parseRouteTarget t = Some p"
  have b: "pfx_bits q \<le> BitLen (pfx_addr q)" if "ParsePrefix s = Some q" for s q
    using that by (auto simp: ParsePrefix_def split: option.splits prod.splits if_splits)
  have f: "Masked q = \<lparr>pfx_addr = V4 (network4 (pfx_bits q) a), pfx_bits = pfx_bits q\<rparr>" if "pfx_addr q = V4 a" for q a
    using that by (simp add: Masked_def)
  have h: "network4 32 a = a" for a by (simp add: network4_def netmask4_def)
  show ?thesis
  proof (cases "ParsePrefix (TrimSpace t)")
    case None
    with t obtain a where "p = \<lparr>pfx_addr = V4 a, pfx_bits = 32\<rparr>"
      by (auto simp: parseRouteTarget_def prefixFrom_def split: option.splits addr.splits)
    with h show ?thesis by (metis order_refl)
  next
    case (Some q)
    with t have m: "Is4 (pfx_addr q)" "p = Masked q" by (auto simp: parseRouteTarget_def split: if_splits)
    then obtain a where a: "pfx_addr q = V4 a" by (cases "pfx_addr q") auto
    then show ?thesis using f [OF a] m(2) b [OF Some] by auto
  qed
qed

text \<open>
  The network a person gives is the network that is read back, in both spellings the device knows: written with a length, and
  written as an address with a mask.
\<close>

lemma staged_target_reads_back:
  assumes "parseRouteTarget t = Some p"
  shows "routeTarget (prefix_String p) [] family = (Some p, False) \<and>
    routeTarget (addr_String (pfx_addr p)) (netmaskOf (pfx_bits p)) family = (Some p, True)"
proof -
  from parseRouteTarget_form [OF assms] obtain a n where p: "p = \<lparr>pfx_addr = V4 (network4 n a), pfx_bits = n\<rparr>" and n: "n \<le> 32" by blast
  let ?a = "network4 n a"
  have d: "\<not> is_space (last (ip4_string ?a @ ''/'' @ nat_digits n))" "\<not> is_space (hd (ip4_string ?a @ ''/'' @ nat_digits n))"
    using ip4_string_ends(1,3) [of ?a] by (simp_all add: hd_append digit_not_space last_nat_digits)
  have t: "TrimSpace (ip4_string ?a @ ''/'' @ nat_digits n) = ip4_string ?a @ ''/'' @ nat_digits n"
    using d by (intro TrimSpace_id) simp_all
  have m: "Masked p = p" using p by (simp add: Masked_def)
  have "routeTarget (prefix_String p) [] family = (Some p, False)"
    using ParsePrefix_string4 [OF n, of ?a] t m ip4_string_ends(3) [of ?a] unfolding routeTarget_def prefix_String_def p by simp
  moreover have "routeTarget (addr_String (pfx_addr p)) (netmaskOf (pfx_bits p)) family = (Some p, True)"
    using ParsePrefix_plain [OF digits_no_slash] ip4_string_ends(3) maskBits_masks [OF n] m
    unfolding routeTarget_def p by (simp add: netmaskOf_masks [OF n] ParseAddr_ip4 prefixFrom_def)
  ultimately show ?thesis by blast
qed

section \<open>The kernel's words\<close>

text \<open>The kernel prints the word it holds with \<^verbatim>\<open>%08X\<close>; on a little-endian machine that is the address with its bytes reversed.\<close>

fun print_hex :: "nat \<Rightarrow> nat \<Rightarrow> string" where
  "print_hex 0 v = []"
| "print_hex (Suc k) v = print_hex k (v div 16) @ [upper_char (hexDigit (v mod 16))]"

definition kernelPrint :: "bool \<Rightarrow> ip4 \<Rightarrow> string" where
  "kernelPrint le a = print_hex 8 (unat (if le then ip4_of (rev (octets4 a)) else a))"

lemma hexVal_upper: "d < 16 \<Longrightarrow> hexVal (upper_char (hexDigit d)) = Some d"
  by (cases "d < 10") (simp_all add: upper_char_def hexDigit_def hexVal_def Let_def)

lemma print_hex_value: "hex_val (print_hex k v) = v mod 16 ^ k \<and> list_all is_hex (print_hex k v) \<and> length (print_hex k v) = k"
proof (induction k arbitrary: v)
  case (Suc k)
  have snoc: "hex_val (s @ [c]) = 16 * hex_val s + the_default 0 (hexVal c)" for s c by (simp add: hex_val_def)
  have "16 * (v div 16 mod 16 ^ k) + v mod 16 = v mod (16 * 16 ^ k)" by (simp add: mod_mult2_eq)
  with Suc [of "v div 16"] show ?case by (simp add: snoc hexVal_upper the_default_def is_hex_def)
qed (simp add: hex_val_def)

lemma octets4_unat: "octets4 a = [unat a div 2 ^ 24, unat a div 2 ^ 16 mod 256, unat a div 2 ^ 8 mod 256, unat a mod 256]"
  unfolding octets4_def unsigned_take_bit_eq unat_drop_bit_eq by (simp add: drop_bit_eq_div take_bit_eq_mod)

lemma octets4_ip4_of:
  assumes "a < 256" "b < 256" "c < 256" "d < 256"
  shows "octets4 (ip4_of [a, b, c, d]) = [a, b, c, d]"
proof -
  let ?n = "((a * 256 + b) * 256 + c) * 256 + d"
  have "ip4_of [a, b, c, d] = of_nat ?n" by (simp add: ip4_of_def)
  moreover have "?n < 2 ^ 32" using assms by simp
  ultimately have u: "unat (ip4_of [a, b, c, d]) = ?n" by (simp only: unat_of_nat) simp
  have dm: "(m * 256 + x) div 256 = m \<and> (m * 256 + x) mod 256 = x" if "x < 256" for m x :: nat using that by simp
  have "?n div 2 ^ 24 = ?n div 256 div 256 div 256" "?n div 2 ^ 16 = ?n div 256 div 256" "?n div 2 ^ 8 = ?n div 256"
    by (simp_all only: div_mult2_eq [symmetric]) simp_all
  then have "?n div 2 ^ 24 = a" "?n div 2 ^ 16 mod 256 = b" "?n div 2 ^ 8 mod 256 = c" "?n mod 256 = d"
    using dm [OF assms(4), of "(a * 256 + b) * 256 + c"] dm [OF assms(3), of "a * 256 + b"] dm [OF assms(2), of a] by simp_all
  then show ?thesis unfolding octets4_unat u by simp
qed

lemma octets4_rev: "octets4 (ip4_of (rev (octets4 a))) = rev (octets4 a)"
proof -
  obtain b c d e where o': "octets4 a = [b, c, d, e]" by (simp add: octets4_def)
  have "\<forall>n \<in> set (octets4 a). n < 256" using octets4_range by blast
  with o' octets4_ip4_of [of e d c b] show ?thesis by simp
qed

text \<open>
  An address the kernel prints is read back as that address, on a little-endian machine and on a big-endian one.
\<close>

lemma kernel_address_read_back:
  "procAddr4In (kernelPrint le a) le = Some a"
proof -
  let ?w = "if le then ip4_of (rev (octets4 a)) else a"
  have "unat ?w < 16 ^ 8" using unsigned_less [of ?w] by simp
  then have "ParseUintHex 32 (kernelPrint le a) = Some (unat ?w)" "length (kernelPrint le a) = 8"
    using print_hex_value [of 8 "unat ?w"] by (auto simp: kernelPrint_def ParseUintHex_def simp del: print_hex.simps)
  then show ?thesis using octets4_rev [of a] ip4_of_octets4 [of a] by (simp add: procAddr4In_def Let_def)
qed

section \<open>Rivals and gateways\<close>

lemma routeClash_ok:
  assumes "routeClash run fs le files section p metric sections ms is w = (Inr x, w')"
  shows "\<forall>r \<in> set sections. \<not> claimed section p metric ms r"
  using assms by (auto simp: routeClash_def bindR_Inr list_ex_iff)

text \<open>
  Two places where the checks do not cover what they say. A gateway that is the router's own address is refused when the
  connection is named, and accepted when it is left to be picked by the gateway. And a route stored with metric 0 keeps that
  0 when metric 0 is asked again, but the clash is looked for at the metric of its connection.
\<close>

definition demo_ifaces :: "route_interface list" where
  "demo_ifaces = [\<lparr>ri_Name = ''lan'', ri_Up = True, ri_IPv4 = [''192.168.1.1/24''], ri_device = ''br-lan''\<rparr>]"

lemma own_gateway_accepted:
  "routeInterfaceFor [] (ParseAddr ''192.168.1.1'') demo_ifaces = Inr ''lan''"
  "isl (routeInterfaceFor ''lan'' (ParseAddr ''192.168.1.1'') demo_ifaces)"
  by code_simp+

lemma stored_zero_metric_unchecked:
  assumes "rs_hasMetric r" "rs_metric r = 0" "sc_Metric cfg = 0" "metricOf ms (rs_iface r) \<noteq> 0"
  shows "isNoop (removeSetting ''metric'' ''0'') ''0'' \<and> effectiveMetric r ms = 0 \<and> requestedMetric cfg ms (rs_iface r) \<noteq> 0"
  using assms by (simp add: isNoop_def removeSetting_def effectiveMetric_def requestedMetric_def)

definition demo_route :: route_config where
  "demo_route = \<lparr>sc_ID = [], sc_Name = [], sc_Enabled = True, sc_Target = ''10.9.0.0/16'', sc_Gateway = ''192.168.1.2'', sc_Interface = [], sc_Metric = 0\<rparr>"

end
