(* ===== verification/Tunnel.thy ===== *)
theory Tunnel
  imports Routes
begin

text \<open>
  The kernel's routing for the active connection: \<^verbatim>\<open>internal/adapters/openwrt/tunnel_route.go\<close>. Five rules decide who uses the
  connection's table, and a table that refuses stands right behind it, so marked traffic never leaves by the uplink. The
  program \<^verbatim>\<open>ip\<close> is the runner; whether the kernel has IPv6 is the parameter \<open>v6\<close>. \<^verbatim>\<open>errors.Join\<close> of a list is the list itself, nil the
  empty one.
\<close>

section \<open>The commands\<close>

definition ipProgram :: string where "ipProgram = ''/sbin/ip''"
definition tunnelTable :: string where "tunnelTable = ''147''"
definition refuseTable :: string where "refuseTable = ''148''"
definition prioHold :: string where "prioHold = ''30089''"
definition prioBypass :: string where "prioBypass = ''30090''"
definition prioMarked :: string where "prioMarked = ''30100''"
definition prioRefuse :: string where "prioRefuse = ''30101''"
definition prioLocal :: string where "prioLocal = ''30102''"
definition prioNets :: string where "prioNets = ''30103''"

definition TunnelMark :: string where "TunnelMark = ''0x40000000''"

definition markedPair :: string where "markedPair = TunnelMark @ ''/'' @ TunnelMark"
definition bypassPair :: string where "bypassPair = ''0x20000000/0x20000000''"

definition families :: "bool \<Rightarrow> string list" where
  "families v6 = (if v6 then [''-4'', ''-6''] else [''-4''])"

definition ip :: "'w runner \<Rightarrow> string list \<Rightarrow> ('w, string) step" where "ip run args = run ipProgram args"

definition wantRules :: "(string \<times> string list) list" where
  "wantRules =
     [(prioBypass, [''fwmark'', bypassPair, ''lookup'', ''main'']),
      (prioMarked, [''fwmark'', markedPair, ''lookup'', tunnelTable]),
      (prioRefuse, [''fwmark'', markedPair, ''lookup'', refuseTable]),
      (prioLocal, [''lookup'', ''main'', ''suppress_prefixlength'', ''0'']),
      (prioNets, [''lookup'', tunnelTable, ''suppress_prefixlength'', ''0''])]"

definition ruleLine :: "string \<Rightarrow> string" where
  \<comment> \<open>blanks squeezed: BusyBox prints a tab after the priority and a blank at the end\<close>
  "ruleLine line = Join (Fields line) '' ''"

definition linesOn :: "string list \<Rightarrow> string \<Rightarrow> string list" where
  "linesOn prios out = filter (\<lambda>l. case Cut l CHR '':'' of None \<Rightarrow> False | Some (p, r) \<Rightarrow> p \<in> set prios) (map ruleLine (Split out newline))"

definition wantLine :: "string \<times> string list \<Rightarrow> string" where
  "wantLine w = fst w @ '': from all '' @ Join (snd w) '' ''"

definition inPlace :: "'w runner \<Rightarrow> string \<Rightarrow> (string \<times> string list) list \<Rightarrow> 'w \<Rightarrow> bool \<times> 'w" where
  "inPlace run f want w =
     (case ip run [f, ''rule'', ''show''] w of
        (Inl e, w1) \<Rightarrow> (False, w1)
      | (Inr out, w1) \<Rightarrow>
          if linesOn (map fst want) out \<noteq> map wantLine want then (False, w1)
          else case ip run [f, ''route'', ''show'', ''table'', refuseTable] w1 of
            (Inl e, w2) \<Rightarrow> (False, w2)
          | (Inr routes, w2) \<Rightarrow> (Contains routes ''unreachable default'', w2))"

fun deleteTimes :: "nat \<Rightarrow> 'w runner \<Rightarrow> string \<Rightarrow> string \<Rightarrow> 'w \<Rightarrow> 'w" where
  "deleteTimes 0 run f prio w = w"
| "deleteTimes (Suc n) run f prio w =
     (case ip run [f, ''rule'', ''del'', ''priority'', prio] w of (Inl e, w1) \<Rightarrow> w1 | (Inr out, w1) \<Rightarrow> deleteTimes n run f prio w1)"

definition deleteAll :: "'w runner \<Rightarrow> string \<Rightarrow> string \<Rightarrow> 'w \<Rightarrow> 'w" where
  "deleteAll run f prio = deleteTimes 8 run f prio"

definition holdsPriority :: "string \<Rightarrow> string \<Rightarrow> bool" where
  "holdsPriority out prio \<longleftrightarrow>
     list_ex (\<lambda>l. case Cut (TrimSpace l) CHR '':'' of None \<Rightarrow> False | Some (p, r) \<Rightarrow> p = prio) (Split out newline)"

definition hasRule :: "'w runner \<Rightarrow> string \<Rightarrow> string \<Rightarrow> string \<Rightarrow> 'w \<Rightarrow> bool \<times> 'w" where
  "hasRule run f prio rule w =
     (case ip run [f, ''rule'', ''show''] w of
        (Inl e, w1) \<Rightarrow> (False, w1)
      | (Inr out, w1) \<Rightarrow> (linesOn [prio] out = [prio @ '': from all '' @ rule], w1))"

definition release :: "'w runner \<Rightarrow> string \<Rightarrow> ('w, unit) step" where
  "release run f =
     bindR (ip run [f, ''rule'', ''show'']) (\<lambda>out.
       if \<not> holdsPriority out prioHold then retR ()
       else bindR (pureR (\<lambda>w. ((), deleteAll run f prioHold w))) (\<lambda>_.
         bindR (ip run [f, ''rule'', ''show'']) (\<lambda>out2.
           checkR (\<not> holdsPriority out2 prioHold) (Failed ''the temporary hold could not be removed''))))"

fun addRules :: "'w runner \<Rightarrow> string \<Rightarrow> (string \<times> string list) list \<Rightarrow> 'w \<Rightarrow> error list \<times> 'w" where
  "addRules run f [] w = ([], w)"
| "addRules run f (r # rs) w =
     (case ip run ([f, ''rule'', ''add''] @ snd r @ [''priority'', fst r]) w of (x, w1) \<Rightarrow>
        (case addRules run f rs w1 of (errs, w2) \<Rightarrow> ((case x of Inl e \<Rightarrow> [e] | Inr out \<Rightarrow> []) @ errs, w2)))"

definition putHold :: "'w runner \<Rightarrow> string \<Rightarrow> ('w, unit) step" where
  "putHold run f =
     bindR (ip run [f, ''route'', ''replace'', ''unreachable'', ''default'', ''table'', refuseTable]) (\<lambda>_.
     bindR (pureR (hasRule run f prioHold (''fwmark '' @ markedPair @ '' lookup '' @ refuseTable))) (\<lambda>has.
       if has then retR ()
       else wrapR (Failed ''hold marked traffic before rebuilding the rules'')
         (bindR (ip run [f, ''rule'', ''add'', ''fwmark'', markedPair, ''lookup'', refuseTable, ''priority'', prioHold]) (\<lambda>_. retR ()))))"

definition rebuild :: "'w runner \<Rightarrow> string \<Rightarrow> (string \<times> string list) list \<Rightarrow> 'w \<Rightarrow> error list \<times> 'w" where
  "rebuild run f want w =
     (case putHold run f w of
        (Inl e, w1) \<Rightarrow> ([e], w1)
      | (Inr _, w1) \<Rightarrow>
          let w2 = fold (deleteAll run f) (map fst want) w1; (errs, w3) = addRules run f want w2; (ok, w4) = inPlace run f want w3 in
          if \<not> ok then (errs @ [Failed ''the rules did not verify; marked traffic stays refused''], w4)
          else case release run f w4 of (Inl e, w5) \<Rightarrow> (errs @ [e], w5) | (Inr _, w5) \<Rightarrow> (errs, w5))"

definition ensureFamily :: "'w runner \<Rightarrow> string \<Rightarrow> 'w \<Rightarrow> error list \<times> 'w" where
  "ensureFamily run f w =
     (case inPlace run f wantRules w of (ok, w1) \<Rightarrow>
        if ok then (case release run f w1 of (Inl e, w2) \<Rightarrow> ([e], w2) | (Inr _, w2) \<Rightarrow> ([], w2))
        else rebuild run f wantRules w1)"

fun ensureEach :: "'w runner \<Rightarrow> string list \<Rightarrow> 'w \<Rightarrow> error list \<times> 'w" where
  "ensureEach run [] w = ([], w)"
| "ensureEach run (f # fs) w =
     (case ensureFamily run f w of (errs, w1) \<Rightarrow> (case ensureEach run fs w1 of (errs', w2) \<Rightarrow> (errs @ errs', w2)))"

definition Ensure :: "'w runner \<Rightarrow> bool \<Rightarrow> 'w \<Rightarrow> error list \<times> 'w" where
  "Ensure run v6 = ensureEach run (families v6)"

section \<open>The connection's table\<close>

definition pfx :: "string \<Rightarrow> prefix" where
  \<comment> \<open>\<^verbatim>\<open>netip.MustParsePrefix\<close> of a constant\<close>
  "pfx s = the (ParsePrefix s)"

definition halves :: "(prefix \<times> prefix \<times> prefix) list" where
  "halves = [(pfx ''0.0.0.0/1'', pfx ''128.0.0.0/1'', pfx ''0.0.0.0/0''), (pfx ''::/1'', pfx ''8000::/1'', pfx ''::/0'')]"

definition wholeOf :: "prefix set \<Rightarrow> prefix \<times> prefix \<times> prefix \<Rightarrow> prefix list \<Rightarrow> prefix list" where
  "wholeOf seen h out = (case h of (lo, hi, all') \<Rightarrow>
     if lo \<notin> seen \<or> hi \<notin> seen then out
     else filter (\<lambda>p. p \<noteq> lo \<and> p \<noteq> hi) out @ (if all' \<in> seen then [] else [all']))"

definition allowedPrefixes :: "string list \<Rightarrow> prefix list" where
  "allowedPrefixes allowed = List.map_filter (\<lambda>a. map_option Masked (ParsePrefix (TrimSpace a))) allowed"

definition tunnelPrefixes :: "string list \<Rightarrow> prefix list \<times> error list" where
  "tunnelPrefixes allowed =
     (let out = allowedPrefixes allowed in
      (fold (wholeOf (set out)) halves out,
       map (\<lambda>a. Failed ''tunnel route'') (filter (\<lambda>a. ParsePrefix (TrimSpace a) = None) allowed)))"

fun flushEach :: "'w runner \<Rightarrow> string list \<Rightarrow> 'w \<Rightarrow> 'w" where
  "flushEach run [] w = w"
| "flushEach run (f # fs) w = flushEach run fs (snd (ip run [f, ''route'', ''flush'', ''table'', tunnelTable] w))"

fun routeEach :: "'w runner \<Rightarrow> bool \<Rightarrow> string \<Rightarrow> prefix list \<Rightarrow> 'w \<Rightarrow> error list \<times> 'w" where
  "routeEach run v6 dev [] w = ([], w)"
| "routeEach run v6 dev (p # ps) w =
     (if \<not> Is4 (pfx_addr p) \<and> \<not> v6 then routeEach run v6 dev ps w
      else case ip run [if Is4 (pfx_addr p) then ''-4'' else ''-6'', ''route'', ''replace'',
              if pfx_bits p = 0 then ''default'' else prefix_String p, ''dev'', dev, ''table'', tunnelTable] w of (x, w1) \<Rightarrow>
        (case routeEach run v6 dev ps w1 of (errs, w2) \<Rightarrow> ((case x of Inl e \<Rightarrow> [e] | Inr out \<Rightarrow> []) @ errs, w2)))"

definition Up :: "'w runner \<Rightarrow> bool \<Rightarrow> string \<Rightarrow> string list \<Rightarrow> 'w \<Rightarrow> error list \<times> 'w" where
  "Up run v6 dev allowed w =
     (case Ensure run v6 w of (errs, w1) \<Rightarrow>
        if errs \<noteq> [] then (errs, w1)
        else let w2 = flushEach run (families v6) w1;
                 (prefixes, bad) = tunnelPrefixes (if allowed = [] then [''0.0.0.0/0'', ''::/0''] else allowed);
                 (errs', w3) = routeEach run v6 dev prefixes w2
             in (bad @ errs', w3))"

definition Down :: "'w runner \<Rightarrow> bool \<Rightarrow> 'w \<Rightarrow> error list \<times> 'w" where
  "Down run v6 w = ([], flushEach run (families v6) w)"

section \<open>Whose traffic may be marked\<close>

definition lanZones :: "uci_section list \<Rightarrow> uci_section list" where
  "lanZones secs = filter (\<lambda>s. sec_kind s = ''zone'' \<and> oget (sec_options s) ''name'' = ''lan'') secs"

definition zoneDevices :: "string list \<Rightarrow> network_interface list \<Rightarrow> string list" where
  "zoneDevices networks ifaces =
     concat (map (\<lambda>n. map if_Device (filter (\<lambda>i. if_Name i = n \<and> if_Device i \<noteq> []) ifaces)) networks)"

definition lanDevices :: "'w runner option \<Rightarrow> 'w link_fs \<Rightarrow> network_interface list result \<Rightarrow> ('w, string list) step" where
  "lanDevices mrun fs ifaces =
     (case mrun of None \<Rightarrow> failR (Failed ''cannot read the firewall on this build'')
      | Some run \<Rightarrow>
          bindR (withCommitted fs ''firewall'' (\<lambda>d alias. run ''uci'' [''-q'', ''-c'', d, ''show'', alias])) (\<lambda>out.
            let zones = lanZones (parseUCISections out);
                networks = concat (map (\<lambda>s. Fields (oget (sec_options s) ''network'')) zones);
                devices = concat (map (\<lambda>s. Fields (oget (sec_options s) ''device'')) zones) in
            bindR (if networks = [] then retR [] else liftR (map_sum id (zoneDevices networks) ifaces)) (\<lambda>more.
              let all' = remdups_adj (sort (devices @ more)) in
              if all' = [] then failR (Failed ''no lan zone with an interface'') else retR all')))"

section \<open>The kernel's rules\<close>

text \<open>
  A rule is its priority and its words after it. The kernel walks the rules in the order of their priorities; what becomes
  of marked traffic depends on whether the connection's table has a route for it (\<open>tun\<close>). Rules of other programs on other
  priorities are not this program's business.
\<close>

type_synonym ip_rule = "nat \<times> string list"

datatype fate = Tunnelled | Refused_here | Leaks

definition refusalWords :: "string list" where "refusalWords = [''from'', ''all'', ''fwmark'', markedPair, ''lookup'', refuseTable]"
definition markedWords :: "string list" where "markedWords = [''from'', ''all'', ''fwmark'', markedPair, ''lookup'', tunnelTable]"
definition bypassWords :: "string list" where "bypassWords = [''from'', ''all'', ''fwmark'', bypassPair, ''lookup'', ''main'']"

definition ourPrios :: "nat list" where "ourPrios = [30090, 30100, 30101, 30102, 30103]"

fun markedFate :: "bool \<Rightarrow> ip_rule list \<Rightarrow> fate" where
  "markedFate tun [] = Leaks"
| "markedFate tun ((p, ws) # rs) =
     (if ws = refusalWords then Refused_here
      else if ws = markedWords then (if tun then Tunnelled else markedFate tun rs)
      else if p \<in> set ourPrios \<and> ws \<noteq> bypassWords then Leaks
      else markedFate tun rs)"

lemma guarded_never_leaks: "markedFate False rs = Refused_here \<Longrightarrow> markedFate tun rs \<noteq> Leaks"
  by (induction tun rs rule: markedFate.induct) (auto split: if_splits)

definition insertRule :: "nat \<Rightarrow> string list \<Rightarrow> ip_rule list \<Rightarrow> ip_rule list" where
  "insertRule p ws rs = takeWhile (\<lambda>r. fst r \<le> p) rs @ (p, ws) # dropWhile (\<lambda>r. fst r \<le> p) rs"

fun removeRule :: "nat \<Rightarrow> ip_rule list \<Rightarrow> ip_rule list" where
  "removeRule p [] = []"
| "removeRule p (r # rs) = (if fst r = p then rs else r # removeRule p rs)"

lemma insertRule_set: "set (insertRule p ws rs) = insert (p, ws) (set rs)"
  unfolding insertRule_def by (metis (no_types) Un_insert_right list.simps(15) set_append takeWhile_dropWhile_id)

lemma removeRule_keeps: "r \<in> set rs \<Longrightarrow> fst r \<noteq> p \<Longrightarrow> r \<in> set (removeRule p rs)"
  by (induction rs) auto

lemma removeRule_filter: "\<not> Q p \<Longrightarrow> filter (\<lambda>r. Q (fst r)) (removeRule p rs) = filter (\<lambda>r. Q (fst r)) rs"
  by (induction rs) auto

lemma removeRule_sorted: "sorted (map fst rs) \<Longrightarrow> sorted (map fst (removeRule p rs))"
proof (induction rs)
  case (Cons r rs)
  have "set (removeRule p rs) \<subseteq> set rs" by (induction rs) auto
  with Cons show ?case by auto
qed simp

lemma insertRule_sorted: "sorted (map fst rs) \<Longrightarrow> sorted (map fst (insertRule p ws rs))"
proof -
  assume s: "sorted (map fst rs)"
  have "sorted (map fst (takeWhile (\<lambda>r. fst r \<le> p) rs) @ map fst (dropWhile (\<lambda>r. fst r \<le> p) rs))"
    using s by (metis map_append takeWhile_dropWhile_id)
  moreover have "\<forall>r \<in> set (takeWhile (\<lambda>r. fst r \<le> p) rs). fst r \<le> p" by (meson set_takeWhileD)
  moreover have "\<forall>r \<in> set (dropWhile (\<lambda>r. fst r \<le> p) rs). p \<le> fst r"
  proof (cases "dropWhile (\<lambda>r. fst r \<le> p) rs")
    case (Cons r q)
    have "\<not> fst r \<le> p" using hd_dropWhile [of "\<lambda>r. fst r \<le> p" rs] Cons by simp
    moreover have "sorted (map fst (r # q))" using \<open>sorted (_ @ _)\<close> Cons by (simp add: sorted_append)
    ultimately show ?thesis using Cons by auto
  next
    case Nil
    show ?thesis unfolding Nil by simp
  qed
  ultimately show ?thesis by (fastforce simp: insertRule_def sorted_append)
qed

text \<open>Two states in which marked traffic is refused: the hold is there, or the five rules are exactly in place.\<close>

definition wantedRules :: "ip_rule list" where
  "wantedRules = map (\<lambda>(p, ws). (nat (the (Atoi p)), [''from'', ''all''] @ ws)) wantRules"

definition onOurs :: "ip_rule list \<Rightarrow> ip_rule list" where "onOurs rs = filter (\<lambda>r. fst r \<in> set ourPrios) rs"

lemma wantedRules_eq:
  "wantedRules = [(30090, bypassWords), (30100, markedWords), (30101, refusalWords),
     (30102, [''from'', ''all'', ''lookup'', ''main'', ''suppress_prefixlength'', ''0'']),
     (30103, [''from'', ''all'', ''lookup'', tunnelTable, ''suppress_prefixlength'', ''0''])]"
  by code_simp

lemma words_distinct: "markedWords \<noteq> refusalWords" "bypassWords \<noteq> refusalWords" "bypassWords \<noteq> markedWords"
  by code_simp+

lemma held_refuses: "sorted (map fst rs) \<Longrightarrow> (30089, refusalWords) \<in> set rs \<Longrightarrow> markedFate False rs = Refused_here"
proof (induction rs)
  case (Cons r rs)
  obtain p ws where r: "r = (p, ws)" by (rule prod.exhaust)
  show ?case
  proof (cases "ws = refusalWords")
    case False
    with Cons r have "(30089, refusalWords) \<in> set rs" "p \<le> 30089" by auto
    then show ?thesis using Cons r False by (auto simp: ourPrios_def)
  qed (simp add: r)
qed simp

lemma others_skipped:
  "\<forall>r \<in> set rs. fst r \<notin> set ourPrios \<Longrightarrow> markedFate False qs = Refused_here \<Longrightarrow> markedFate False (rs @ qs) = Refused_here"
  by (induction rs) (auto split: if_splits)

lemma inPlace_refuses:
  assumes "onOurs rs = wantedRules"
  shows "markedFate False rs = Refused_here"
proof -
  have step: "\<exists>pre post. xs = pre @ y # post \<and> (\<forall>r \<in> set pre. fst r \<notin> set ourPrios) \<and> onOurs post = ys"
    if "onOurs xs = y # ys" for xs y ys
    using that unfolding onOurs_def filter_eq_Cons_iff by blast
  from step [OF assms [unfolded wantedRules_eq]] obtain p1 r1 where 1: "rs = p1 @ (30090, bypassWords) # r1"
    "\<forall>r \<in> set p1. fst r \<notin> set ourPrios" and o1: "onOurs r1 = tl wantedRules" unfolding wantedRules_eq by auto
  from step [OF o1 [unfolded wantedRules_eq list.sel]] obtain p2 r2 where 2: "r1 = p2 @ (30100, markedWords) # r2"
    "\<forall>r \<in> set p2. fst r \<notin> set ourPrios" and o2: "onOurs r2 = tl (tl wantedRules)" unfolding wantedRules_eq by auto
  from step [OF o2 [unfolded wantedRules_eq list.sel]] obtain p3 r3 where 3: "r2 = p3 @ (30101, refusalWords) # r3"
    "\<forall>r \<in> set p3. fst r \<notin> set ourPrios" by auto
  have "markedFate False (p3 @ (30101, refusalWords) # r3) = Refused_here" using 3 by (simp add: others_skipped)
  then have "markedFate False ((30100, markedWords) # r2) = Refused_here" using 3 words_distinct by simp
  then have "markedFate False (p2 @ (30100, markedWords) # r2) = Refused_here" using 2 by (simp add: others_skipped)
  then have "markedFate False ((30090, bypassWords) # r1) = Refused_here" using 2 words_distinct by simp
  then show ?thesis using 1 by (simp add: others_skipped)
qed

section \<open>What is relied on of the program\<close>

text \<open>
  What \<^verbatim>\<open>ip\<close> is documented to do with the commands used here: it prints the rules in order, one a line; adding puts a rule behind
  those of its priority, deleting takes the first of a priority; a failed command changes nothing, and a command about one address
  family nothing of the other.
\<close>

definition ruleWords :: "string \<Rightarrow> string list list" where
  "ruleWords out = filter (\<lambda>ws. ws \<noteq> []) (map Fields (Split out newline))"

definition printedRule :: "ip_rule \<Rightarrow> string list" where "printedRule r = (nat_digits (fst r) @ '':'') # snd r"

locale ip_tool =
  fixes run :: "'w runner" and rules :: "string \<Rightarrow> 'w \<Rightarrow> ip_rule list" and refuses :: "string \<Rightarrow> 'w \<Rightarrow> bool"
  assumes in_order: "sorted (map fst (rules f w))"
    and other_family: "run ipProgram (g # a) w = (x, w') \<Longrightarrow> g \<noteq> f \<Longrightarrow> rules f w' = rules f w \<and> refuses f w' = refuses f w"
    and failed: "run ipProgram (f # a) w = (Inl e, w') \<Longrightarrow> rules f w' = rules f w \<and> refuses f w' = refuses f w"
    and rule_show: "run ipProgram [f, ''rule'', ''show''] w = (Inr out, w') \<Longrightarrow>
      rules f w' = rules f w \<and> refuses f w' = refuses f w \<and> ruleWords out = map printedRule (rules f w)"
    and route_show: "run ipProgram [f, ''route'', ''show'', ''table'', refuseTable] w = (Inr out, w') \<Longrightarrow>
      rules f w' = rules f w \<and> refuses f w' = refuses f w \<and> (Contains out ''unreachable default'' \<longrightarrow> refuses f w)"
    and route_refuse: "run ipProgram [f, ''route'', ''replace'', ''unreachable'', ''default'', ''table'', refuseTable] w = (Inr out, w') \<Longrightarrow>
      rules f w' = rules f w \<and> refuses f w'"
    and rule_add: "ws \<in> set (map snd wantRules) \<Longrightarrow>
      run ipProgram ([f, ''rule'', ''add''] @ ws @ [''priority'', nat_digits p]) w = (Inr out, w') \<Longrightarrow>
      rules f w' = insertRule p ([''from'', ''all''] @ ws) (rules f w) \<and> refuses f w' = refuses f w"
    and rule_del: "run ipProgram [f, ''rule'', ''del'', ''priority'', nat_digits p] w = (Inr out, w') \<Longrightarrow>
      rules f w' = removeRule p (rules f w) \<and> refuses f w' = refuses f w"
    and table_flush: "run ipProgram [f, ''route'', ''flush'', ''table'', tunnelTable] w = (x, w') \<Longrightarrow>
      rules f w' = rules f w \<and> refuses f w' = refuses f w"
    and table_route: "run ipProgram [f, ''route'', ''replace'', d, ''dev'', dev, ''table'', tunnelTable] w = (x, w') \<Longrightarrow>
      rules f w' = rules f w \<and> refuses f w' = refuses f w"

text \<open>A watched run remembers whether a command ever took marked traffic from refused to not refused.\<close>

definition watch :: "('w \<Rightarrow> bool) \<Rightarrow> 'w runner \<Rightarrow> ('w \<times> bool) runner" where
  "watch good run n a s = (case run n a (fst s) of (x, w') \<Rightarrow> (x, (w', snd s \<and> (good (fst s) \<longrightarrow> good w'))))"

locale watched_ip = ip_tool +
  fixes fam :: string and ok :: "'a \<Rightarrow> bool"
  assumes watches: "run ipProgram a w = (x, w') \<Longrightarrow>
    (refuses fam w \<and> markedFate False (rules fam w) = Refused_here \<longrightarrow> refuses fam w' \<and> markedFate False (rules fam w') = Refused_here) \<Longrightarrow>
    ok w' = ok w"

section \<open>Reading the rules\<close>

lemma nat_digits_inj: "nat_digits m = nat_digits n \<Longrightarrow> m = n"
  by (metis digits_val_nat_digits)

lemma printedRule_inj: "printedRule r = printedRule q \<Longrightarrow> r = q"
  by (auto simp: printedRule_def prod_eq_iff dest: nat_digits_inj)

lemma Cut_printed: "Cut (nat_digits n @ CHR '':'' # r) CHR '':'' = Some (nat_digits n, r)"
  by (simp add: Cut_Some dot_not_digit)

lemma Join_printed: "Join (printedRule (p, ws)) '' '' = nat_digits p @ CHR '':'' # (if ws = [] then [] else CHR '' '' # Join ws '' '')"
  by (cases ws) (simp_all add: printedRule_def)

lemma linesOn_rules:
  assumes "ruleWords out = map printedRule rs"
  shows "map Fields (linesOn prios out) = map printedRule (filter (\<lambda>r. nat_digits (fst r) \<in> set prios) rs)"
proof -
  let ?P = "\<lambda>l. case Cut l CHR '':'' of None \<Rightarrow> False | Some (p, r) \<Rightarrow> p \<in> set prios"
  have words: "Fields (Join (Fields l) '' '') = Fields l" for l
    unfolding Fields_def by (rule FieldsFunc_Join [where p = is_space, OF _ blank_space]) (use FieldsFunc_words in blast)
  have "map Fields (filter ?P (map ruleLine ls)) = filter (\<lambda>ws. ?P (Join ws '' '')) (filter (\<lambda>ws. ws \<noteq> []) (map Fields ls))" for ls
    by (induction ls) (simp_all add: ruleLine_def words)
  then have "map Fields (linesOn prios out) = filter (\<lambda>ws. ?P (Join ws '' '')) (map printedRule rs)"
    by (simp only: linesOn_def assms [unfolded ruleWords_def, symmetric])
  also have "\<dots> = map printedRule (filter (\<lambda>r. ?P (Join (printedRule r) '' '')) rs)" by (simp add: filter_map comp_def)
  also have "\<dots> = map printedRule (filter (\<lambda>r. nat_digits (fst r) \<in> set prios) rs)"
    by (rule arg_cong [where f = "map printedRule"], rule filter_cong) (auto simp: Join_printed Cut_printed)
  finally show ?thesis .
qed

lemma map_printed_inj: "map printedRule rs = map printedRule qs \<Longrightarrow> rs = qs"
  using inj_map_eq_map [of printedRule rs qs] printedRule_inj by (auto simp: inj_def)

lemma wanted_lines: "map Fields (map wantLine wantRules) = map printedRule wantedRules" "map fst wantRules = map nat_digits ourPrios"
  by code_simp+

lemma inPlace_lines:
  assumes "ruleWords out = map printedRule rs" and "linesOn (map fst wantRules) out = map wantLine wantRules"
  shows "onOurs rs = wantedRules"
proof -
  have "map printedRule (filter (\<lambda>r. nat_digits (fst r) \<in> set (map fst wantRules)) rs) = map printedRule wantedRules"
    using linesOn_rules [OF assms(1), of "map fst wantRules"] assms(2) wanted_lines(1) by metis
  moreover have "nat_digits n \<in> set (map fst wantRules) \<longleftrightarrow> n \<in> set ourPrios" for n
    unfolding wanted_lines by (auto dest: nat_digits_inj)
  ultimately show ?thesis unfolding onOurs_def by (simp only: map_printed_inj)
qed

lemma hasRule_lines:
  assumes "ruleWords out = map printedRule rs"
    and "linesOn [prioHold] out = [prioHold @ '': from all '' @ ''fwmark '' @ markedPair @ '' lookup '' @ refuseTable]"
  shows "(30089, refusalWords) \<in> set rs"
proof -
  have f: "Fields (prioHold @ '': from all '' @ ''fwmark '' @ markedPair @ '' lookup '' @ refuseTable) = printedRule (30089, refusalWords)"
    by code_simp
  have "map printedRule (filter (\<lambda>r. nat_digits (fst r) \<in> set [prioHold]) rs) = map printedRule [(30089, refusalWords)]"
    using linesOn_rules [OF assms(1), of "[prioHold]"] f unfolding assms(2) by simp
  then have "filter (\<lambda>r. nat_digits (fst r) \<in> set [prioHold]) rs = [(30089, refusalWords)]" by (rule map_printed_inj)
  then have "(30089, refusalWords) \<in> set (filter (\<lambda>r. nat_digits (fst r) \<in> set [prioHold]) rs)" by simp
  then show ?thesis by simp
qed

text \<open>The first word of a line starts the trimmed line.\<close>

lemma FieldsFunc_first: "\<not> p c \<Longrightarrow> \<exists>xs. FieldsFunc p (c # s) = takeWhile (\<lambda>x. \<not> p x) (c # s) # xs"
proof (induction s arbitrary: c)
  case (Cons d s)
  show ?case
  proof (cases "p d")
    case False
    from Cons.IH [OF this] obtain xs where "FieldsFunc p (d # s) = takeWhile (\<lambda>x. \<not> p x) (d # s) # xs" ..
    then show ?thesis using Cons.prems False by simp
  qed (use Cons.prems in simp)
qed simp

lemma Fields_first: "Fields l = x # xs \<Longrightarrow> \<exists>r. TrimSpace l = x @ r"
proof -
  assume f: "Fields l = x # xs"
  let ?d = "dropWhile is_space l"
  have drop: "FieldsFunc is_space l = FieldsFunc is_space (dropWhile is_space l)" for l by (induction l) auto
  have "\<exists>r. ?d = x @ r"
  proof (cases ?d)
    case Nil
    with f drop [of l] show ?thesis by (simp add: Fields_def)
  next
    case (Cons c s)
    then have "\<not> is_space c" using hd_dropWhile [of is_space l] by simp
    from FieldsFunc_first [of is_space, OF this, of s] f drop [of l] Cons
    have "x = takeWhile (\<lambda>x. \<not> is_space x) (c # s)" by (simp add: Fields_def)
    then show ?thesis unfolding Cons by (metis takeWhile_dropWhile_id)
  qed
  then obtain r where r: "?d = x @ r" ..
  have x: "x \<noteq> []" "\<not> is_space (last x)" using FieldsFunc_words [of x is_space l] f unfolding Fields_def by auto
  have "rev (dropWhile is_space (rev r @ rev x)) = x @ rev (dropWhile is_space (rev r))"
  proof (cases "\<forall>c \<in> set r. is_space c")
    case True
    have "dropWhile is_space (rev x) = rev x" using x by (simp add: dropWhile_eq_self_iff hd_rev)
    moreover have "dropWhile is_space (rev r @ rev x) = dropWhile is_space (rev x)" "dropWhile is_space (rev r) = []"
      using True by (simp_all add: dropWhile_append)
    ultimately show ?thesis by (simp only:) simp
  next
    case False
    then have "dropWhile is_space (rev r @ rev x) = dropWhile is_space (rev r) @ rev x" by (auto simp: dropWhile_append)
    then show ?thesis by simp
  qed
  then show "\<exists>r. TrimSpace l = x @ r" unfolding TrimSpace_def TrimLeft_def TrimRight_def r rev_append by blast
qed

lemma holdsPriority_rules:
  assumes "ruleWords out = map printedRule rs" and "\<not> holdsPriority out (nat_digits p)"
  shows "p \<notin> fst ` set rs"
proof
  assume "p \<in> fst ` set rs"
  then obtain ws where "(p, ws) \<in> set rs" by auto
  then have "printedRule (p, ws) \<in> set (ruleWords out)" using assms(1) by auto
  then obtain l where l: "l \<in> set (Split out newline)" "Fields l = printedRule (p, ws)" by (auto simp: ruleWords_def)
  then obtain r where "TrimSpace l = nat_digits p @ CHR '':'' # r" using Fields_first [of l] by (auto simp: printedRule_def)
  then have "Cut (TrimSpace l) CHR '':'' = Some (nat_digits p, r)" using Cut_printed by simp
  with assms(2) l(1) show False by (force simp: holdsPriority_def list_ex_iff)
qed

section \<open>No command opens a gap\<close>

context watched_ip
begin

abbreviation view :: "'a \<Rightarrow> ip_rule list \<times> bool \<times> bool" where "view w \<equiv> (rules fam w, refuses fam w, ok w)"

lemma same_view: "run ipProgram a w = (x, w') \<Longrightarrow> rules fam w' = rules fam w \<Longrightarrow> refuses fam w' = refuses fam w \<Longrightarrow> view w' = view w"
  using watches by auto

lemma other_view: "g \<noteq> fam \<Longrightarrow> run ipProgram (g # a) w = (x, w') \<Longrightarrow> view w' = view w"
  using other_family same_view by blast

lemma failed_view: "run ipProgram (fam # a) w = (Inl e, w') \<Longrightarrow> view w' = view w"
  using failed same_view by blast

lemma show_view: "run ipProgram [fam, ''rule'', ''show''] w = (x, w') \<Longrightarrow>
    view w' = view w \<and> (\<forall>out. x = Inr out \<longrightarrow> ruleWords out = map printedRule (rules fam w))"
  using failed_view rule_show same_view by (cases x) blast+

lemma inPlace_view: "inPlace run fam wantRules w = (b, w') \<Longrightarrow>
    view w' = view w \<and> (b \<longrightarrow> onOurs (rules fam w) = wantedRules \<and> refuses fam w)"
proof -
  assume a: "inPlace run fam wantRules w = (b, w')"
  obtain x w1 where s: "run ipProgram [fam, ''rule'', ''show''] w = (x, w1)" by (rule prod.exhaust)
  note v1 = show_view [OF s]
  show ?thesis
  proof (cases x)
    case (Inr out)
    show ?thesis
    proof (cases "linesOn (map fst wantRules) out = map wantLine wantRules")
      case True
      obtain y w2 where r: "run ipProgram [fam, ''route'', ''show'', ''table'', refuseTable] w1 = (y, w2)" by (rule prod.exhaust)
      have o: "onOurs (rules fam w) = wantedRules" using inPlace_lines True v1 Inr by blast
      have v2: "view w2 = view w1 \<and> (\<forall>out. y = Inr out \<longrightarrow> Contains out ''unreachable default'' \<longrightarrow> refuses fam w1)"
        using failed_view route_show same_view r by (cases y) blast+
      from a s r Inr True have "w' = w2" "b \<longleftrightarrow> (case y of Inl e \<Rightarrow> False | Inr routes \<Rightarrow> Contains routes ''unreachable default'')"
        by (auto simp: inPlace_def ip_def split: sum.splits)
      with v1 v2 o show ?thesis by (auto split: sum.splits)
    qed (use a s v1 Inr in \<open>simp add: inPlace_def ip_def\<close>)
  qed (use a s v1 in \<open>simp add: inPlace_def ip_def\<close>)
qed

text \<open>An invariant of the rules that refuses marked traffic and that a command keeps, is kept, and no gap is opened.\<close>

definition closed :: "(ip_rule list \<Rightarrow> bool) \<Rightarrow> 'a \<Rightarrow> bool" where
  "closed I w \<longleftrightarrow> I (rules fam w) \<and> refuses fam w \<and> ok w"

lemma closed_step:
  assumes "\<And>rs. sorted (map fst rs) \<Longrightarrow> I rs \<Longrightarrow> markedFate False rs = Refused_here"
    and "closed I w" and "run ipProgram a w = (x, w')" and "I (rules fam w')" and "refuses fam w'"
  shows "closed I w'"
  using assms in_order watches unfolding closed_def by blast

lemma closed_view: "view w' = view w \<Longrightarrow> closed I w \<Longrightarrow> closed I w'"
  by (simp add: closed_def)

lemma closed_delete:
  assumes I: "\<And>rs. sorted (map fst rs) \<Longrightarrow> I rs \<Longrightarrow> markedFate False rs = Refused_here"
    and keep: "\<And>rs. I rs \<Longrightarrow> I (removeRule p rs)"
  shows "closed I w \<Longrightarrow> closed I (deleteTimes n run fam (nat_digits p) w)"
proof (induction n arbitrary: w)
  case (Suc n)
  obtain x w1 where r: "run ipProgram [fam, ''rule'', ''del'', ''priority'', nat_digits p] w = (x, w1)" by (rule prod.exhaust)
  show ?case
  proof (cases x)
    case (Inl e)
    then have "view w1 = view w" using failed_view [OF r [unfolded Inl]] by simp
    then have "closed I w1" using Suc.prems by (rule closed_view)
    then show ?thesis using r Inl by (simp add: ip_def)
  next
    case (Inr out)
    with r rule_del have "rules fam w1 = removeRule p (rules fam w) \<and> refuses fam w1 = refuses fam w" by blast
    then have "closed I w1" using closed_step [OF I Suc.prems r] keep Suc.prems by (simp add: closed_def)
    then show ?thesis using Suc.IH r Inr by (simp add: ip_def)
  qed
qed simp

definition held :: "ip_rule list \<Rightarrow> bool" where "held rs \<longleftrightarrow> (30089, refusalWords) \<in> set rs"

lemma held_delete:
  assumes "closed held w" and "p \<noteq> 30089"
  shows "closed held (deleteAll run fam (nat_digits p) w)"
  unfolding deleteAll_def
  by (rule closed_delete) (use assms held_refuses removeRule_keeps in \<open>auto simp: held_def\<close>)

lemma held_deletes: "closed held w \<Longrightarrow> \<forall>p \<in> set ps. p \<noteq> 30089 \<Longrightarrow> closed held (fold (deleteAll run fam) (map nat_digits ps) w)"
  by (induction ps arbitrary: w) (simp_all add: held_delete)

lemma held_add:
  assumes "closed held w" and "ws \<in> set (map snd wantRules)"
    and r: "run ipProgram ([fam, ''rule'', ''add''] @ ws @ [''priority'', nat_digits p]) w = (x, w')"
  shows "closed held w'"
proof (cases x)
  case (Inl e)
  have "view w' = view w" by (rule failed_view [of "[''rule'', ''add''] @ ws @ [''priority'', nat_digits p]"]) (use r Inl in simp)
  then show ?thesis using assms(1) by (rule closed_view)
next
  case (Inr out)
  with r rule_add assms(2) have e: "rules fam w' = insertRule p ([''from'', ''all''] @ ws) (rules fam w) \<and> refuses fam w' = refuses fam w"
    by blast
  show ?thesis
    by (rule closed_step [OF _ assms(1) r]) (use assms(1) e held_refuses in \<open>auto simp: closed_def held_def insertRule_set\<close>)
qed

lemma held_adds: "closed held w \<Longrightarrow> set rs \<subseteq> set wantRules \<Longrightarrow> addRules run fam rs w = (errs, w') \<Longrightarrow> closed held w'"
proof (induction rs arbitrary: w w' errs)
  case (Cons r rs)
  obtain x w1 where s: "run ipProgram ([fam, ''rule'', ''add''] @ snd r @ [''priority'', fst r]) w = (x, w1)" by (rule prod.exhaust)
  obtain errs' w2 where a: "addRules run fam rs w1 = (errs', w2)" by (rule prod.exhaust)
  have "fst r \<in> set (map nat_digits ourPrios)" using Cons.prems(2) wanted_lines(2) by (metis image_eqI list.set_map list.set_intros(1) subsetD)
  then obtain p where p: "fst r = nat_digits p" by auto
  have "closed held w1" by (rule held_add [OF Cons.prems(1) _ s [unfolded p]]) (use Cons.prems(2) in auto)
  then have "closed held w2" using Cons.IH a Cons.prems(2) by simp
  then show ?case using Cons.prems(3) s a by (simp add: ip_def)
qed simp

lemma hasRule_view: "hasRule run fam prioHold (''fwmark '' @ markedPair @ '' lookup '' @ refuseTable) w = (b, w') \<Longrightarrow>
    view w' = view w \<and> (b \<longrightarrow> held (rules fam w))"
proof -
  assume h: "hasRule run fam prioHold (''fwmark '' @ markedPair @ '' lookup '' @ refuseTable) w = (b, w')"
  obtain x w1 where r: "run ipProgram [fam, ''rule'', ''show''] w = (x, w1)" by (rule prod.exhaust)
  note v = show_view [OF r]
  show ?thesis
  proof (cases x)
    case (Inr out)
    with v have "ruleWords out = map printedRule (rules fam w)" by blast
    from hasRule_lines [OF this] show ?thesis using h r v Inr by (simp add: hasRule_def ip_def held_def)
  qed (use h r v in \<open>simp add: hasRule_def ip_def\<close>)
qed

lemma putHold_closes:
  assumes o: "ok w" and p: "putHold run fam w = (r, w')"
  shows "ok w' \<and> (isl r \<or> closed held w')"
proof -
  obtain x w1 where s: "run ipProgram [fam, ''route'', ''replace'', ''unreachable'', ''default'', ''table'', refuseTable] w = (x, w1)"
    by (rule prod.exhaust)
  show ?thesis
  proof (cases x)
    case (Inl e)
    then show ?thesis using p s failed_view [OF s [unfolded Inl]] o by (auto simp: putHold_def bindR_def ip_def)
  next
    case (Inr out)
    from route_refuse [OF s [unfolded Inr]] have 1: "rules fam w1 = rules fam w" "refuses fam w1" by simp_all
    then have o1: "ok w1" using watches [OF s] o by simp
    obtain has w2 where h: "hasRule run fam prioHold (''fwmark '' @ markedPair @ '' lookup '' @ refuseTable) w1 = (has, w2)" by (rule prod.exhaust)
    note v2 = hasRule_view [OF h]
    have 2: "refuses fam w2" "ok w2" "has \<longrightarrow> held (rules fam w2)" using v2 1 o1 by auto
    show ?thesis
    proof (cases has)
      case True
      then show ?thesis using p s Inr h 2 by (simp add: putHold_def bindR_def pureR_def retR_def ip_def closed_def)
    next
      case False
      obtain y w3 where a: "run ipProgram ([fam, ''rule'', ''add''] @ [''fwmark'', markedPair, ''lookup'', refuseTable] @ [''priority'', nat_digits 30089]) w2 = (y, w3)"
        by (rule prod.exhaust)
      have n: "nat_digits 30089 = prioHold" by code_simp
      have w: "[''fwmark'', markedPair, ''lookup'', refuseTable] \<in> set (map snd wantRules)" by (simp add: wantRules_def)
      from a n have a': "run ipProgram [fam, ''rule'', ''add'', ''fwmark'', markedPair, ''lookup'', refuseTable, ''priority'', prioHold] w2 = (y, w3)"
        by simp
      show ?thesis
      proof (cases y)
        case (Inl e)
        from failed_view [OF a' [unfolded Inl]] have "ok w3" using 2 by simp
        then show ?thesis using p s Inr h False a' Inl
          by (auto simp: putHold_def bindR_def pureR_def wrapR_def retR_def ip_def)
      next
        case (Inr out2)
        from rule_add [OF w a [unfolded Inr]] have 3: "held (rules fam w3)" "refuses fam w3"
          using 2 by (simp_all add: held_def insertRule_set refusalWords_def)
        then have "markedFate False (rules fam w3) = Refused_here" using held_refuses in_order by (simp add: held_def)
        then have "ok w3" using watches [OF a'] 2 3 by simp
        then have "closed held w3" using 3 by (simp add: closed_def)
        then show ?thesis using p s \<open>x = Inr out\<close> h False a' Inr \<open>ok w3\<close>
          by (auto simp: putHold_def bindR_def pureR_def wrapR_def retR_def ip_def)
      qed
    qed
  qed
qed

abbreviation inForce :: "ip_rule list \<Rightarrow> bool" where "inForce rs \<equiv> onOurs rs = wantedRules"

lemma onOurs_remove: "onOurs (removeRule 30089 rs) = onOurs rs"
  unfolding onOurs_def by (rule removeRule_filter) (simp add: ourPrios_def)

lemma release_closes:
  assumes c: "closed inForce w" and r: "release run fam w = (x, w')"
  shows "closed inForce w' \<and> (isl x \<or> 30089 \<notin> fst ` set (rules fam w'))"
proof -
  have n: "prioHold = nat_digits 30089" by code_simp
  obtain y w1 where s: "run ipProgram [fam, ''rule'', ''show''] w = (y, w1)" by (rule prod.exhaust)
  note v1 = show_view [OF s]
  have c1: "closed inForce w1" using v1 c closed_view by blast
  show ?thesis
  proof (cases y)
    case (Inl e)
    then show ?thesis using r s c1 by (auto simp: release_def bindR_def ip_def)
  next
    case (Inr out)
    then have out: "ruleWords out = map printedRule (rules fam w1)" using v1 by auto
    let ?w2 = "deleteAll run fam prioHold w1"
    have c2: "closed inForce ?w2"
      unfolding deleteAll_def n by (rule closed_delete) (use c1 inPlace_refuses onOurs_remove in auto)
    obtain z w3 where s3: "run ipProgram [fam, ''rule'', ''show''] ?w2 = (z, w3)" by (rule prod.exhaust)
    note v3 = show_view [OF s3]
    have c3: "closed inForce w3" using v3 c2 closed_view by blast
    show ?thesis
    proof (cases "holdsPriority out prioHold")
      case False
      with r s Inr have "w' = w1" by (simp add: release_def bindR_def ip_def retR_def)
      then show ?thesis using c1 holdsPriority_rules [OF out] False n by simp
    next
      case True
      show ?thesis
      proof (cases z)
        case (Inl e)
        then show ?thesis using r s Inr True s3 c3 by (auto simp: release_def bindR_def ip_def pureR_def)
      next
        case (Inr out2)
        then have "ruleWords out2 = map printedRule (rules fam w3)" using v3 by auto
        from holdsPriority_rules [OF this, of 30089] show ?thesis
          using r s \<open>y = Inr out\<close> True s3 Inr c3 n
          by (auto simp: release_def bindR_def ip_def pureR_def checkR_def retR_def failR_def split: if_splits)
      qed
    qed
  qed
qed

lemma rebuild_closes:
  assumes o: "ok w" and r: "rebuild run fam wantRules w = (errs, w')"
  shows "ok w' \<and> (errs = [] \<longrightarrow> closed inForce w' \<and> 30089 \<notin> fst ` set (rules fam w'))"
proof -
  obtain x w1 where p: "putHold run fam w = (x, w1)" by (rule prod.exhaust)
  note h = putHold_closes [OF o p]
  show ?thesis
  proof (cases x)
    case (Inl e)
    then show ?thesis using r p h by (auto simp: rebuild_def)
  next
    case (Inr u)
    with h have c1: "closed held w1" by simp
    let ?w2 = "fold (deleteAll run fam) (map fst wantRules) w1"
    have c2: "closed held ?w2" unfolding wanted_lines(2) by (rule held_deletes [OF c1]) (simp add: ourPrios_def)
    obtain errs3 w3 where a: "addRules run fam wantRules ?w2 = (errs3, w3)" by (rule prod.exhaust)
    have c3: "closed held w3" by (rule held_adds [OF c2 _ a]) simp
    obtain b w4 where i: "inPlace run fam wantRules w3 = (b, w4)" by (rule prod.exhaust)
    note v4 = inPlace_view [OF i]
    have c4: "closed held w4" using v4 c3 closed_view by blast
    show ?thesis
    proof (cases b)
      case False
      then show ?thesis using r p Inr a i c4 by (auto simp: rebuild_def Let_def closed_def)
    next
      case True
      then have f4: "closed inForce w4" using v4 c4 by (auto simp: closed_def)
      obtain y w5 where rl: "release run fam w4 = (y, w5)" by (rule prod.exhaust)
      show ?thesis using release_closes [OF f4 rl] r p Inr a i True rl
        by (cases y) (auto simp: rebuild_def Let_def closed_def)
    qed
  qed
qed

lemma ensureFamily_closes:
  assumes o: "ok w" and e: "ensureFamily run fam w = (errs, w')"
  shows "ok w' \<and> (errs = [] \<longrightarrow> closed inForce w' \<and> 30089 \<notin> fst ` set (rules fam w'))"
proof -
  obtain b w1 where i: "inPlace run fam wantRules w = (b, w1)" by (rule prod.exhaust)
  note v1 = inPlace_view [OF i]
  have o1: "ok w1" using v1 o by simp
  show ?thesis
  proof (cases b)
    case False
    then show ?thesis using rebuild_closes [OF o1] e i by (simp add: ensureFamily_def)
  next
    case True
    then have f1: "closed inForce w1" using v1 o1 by (auto simp: closed_def)
    obtain y w2 where rl: "release run fam w1 = (y, w2)" by (rule prod.exhaust)
    show ?thesis using release_closes [OF f1 rl] e i True rl by (cases y) (auto simp: ensureFamily_def closed_def)
  qed
qed

text \<open>The other address family is not touched.\<close>

lemma other_ip: "g \<noteq> fam \<Longrightarrow> keepsR view (ip run (g # a))"
  by (rule keepsR_I) (use other_view in \<open>auto simp: ip_def\<close>)

lemma other_delete: "g \<noteq> fam \<Longrightarrow> view (deleteTimes n run g p w) = view w"
proof (induction n arbitrary: w)
  case (Suc n)
  obtain x w1 where "ip run [g, ''rule'', ''del'', ''priority'', p] w = (x, w1)" by (rule prod.exhaust)
  with Suc keepsR_D [OF other_ip [OF Suc.prems] this] show ?case by (cases x) auto
qed simp

lemma other_deletes: "g \<noteq> fam \<Longrightarrow> view (fold (deleteAll run g) ps w) = view w"
proof (induction ps arbitrary: w)
  case (Cons p ps)
  have "view (fold (deleteAll run g) ps (deleteAll run g p w)) = view (deleteAll run g p w)" using Cons by blast
  also have "\<dots> = view w" unfolding deleteAll_def by (rule other_delete [OF Cons.prems])
  finally show ?case by simp
qed simp

lemma other_adds: "g \<noteq> fam \<Longrightarrow> addRules run g rs w = (errs, w') \<Longrightarrow> view w' = view w"
proof (induction rs arbitrary: w w' errs)
  case (Cons r rs)
  obtain x w1 where s: "ip run ([g, ''rule'', ''add''] @ snd r @ [''priority'', fst r]) w = (x, w1)" by (rule prod.exhaust)
  obtain errs' w2 where a: "addRules run g rs w1 = (errs', w2)" by (rule prod.exhaust)
  have "view w1 = view w"
    by (rule keepsR_D [OF other_ip [OF Cons.prems(1), of "[''rule'', ''add''] @ snd r @ [''priority'', fst r]"]]) (use s in simp)
  moreover have "view w2 = view w1" using Cons.IH [OF Cons.prems(1) a] .
  ultimately show ?case using Cons.prems(2) s a by simp
qed simp

lemma other_inPlace: "g \<noteq> fam \<Longrightarrow> inPlace run g want w = (b, w') \<Longrightarrow> view w' = view w"
  using keepsR_D [OF other_ip, of g] unfolding inPlace_def by (fastforce split: prod.splits sum.splits if_splits)

lemma other_hasRule: "g \<noteq> fam \<Longrightarrow> view (snd (hasRule run g p r w)) = view w"
  using keepsR_D [OF other_ip, of g] unfolding hasRule_def by (fastforce split: prod.splits sum.splits)

lemma other_release: "g \<noteq> fam \<Longrightarrow> keepsR view (release run g)"
proof -
  assume g: "g \<noteq> fam"
  have d: "keepsR view (pureR (\<lambda>w. ((), deleteAll run g prioHold w)))"
    by (rule keeps_pureR) (simp only: snd_conv deleteAll_def other_delete [OF g])
  show ?thesis
    unfolding release_def by (intro keeps_bindR other_ip g) (simp, intro conjI impI keeps_bindR keeps_simple other_ip g d)
qed

lemma other_putHold: "g \<noteq> fam \<Longrightarrow> keepsR view (putHold run g)"
  unfolding putHold_def
  by (intro keeps_bindR keeps_pureR other_hasRule other_ip) (auto intro!: keeps_bindR keeps_wrapR other_ip)

lemma other_ensure: "g \<noteq> fam \<Longrightarrow> ensureFamily run g w = (errs, w') \<Longrightarrow> view w' = view w"
proof -
  assume g: "g \<noteq> fam" and e: "ensureFamily run g w = (errs, w')"
  obtain b w1 where i: "inPlace run g wantRules w = (b, w1)" by (rule prod.exhaust)
  note v1 = other_inPlace [OF g i]
  have rel: "release run g u = (y, u') \<Longrightarrow> view u' = view u" for y u u' by (rule keepsR_D [OF other_release [OF g]])
  show ?thesis
  proof (cases b)
    case True
    then show ?thesis using e i v1 rel by (auto simp: ensureFamily_def split: prod.splits sum.splits)
  next
    case False
    obtain x w2 where p: "putHold run g w1 = (x, w2)" by (rule prod.exhaust)
    note v2 = keepsR_D [OF other_putHold [OF g] p]
    obtain errs3 w3 where a: "addRules run g wantRules (fold (deleteAll run g) (map fst wantRules) w2) = (errs3, w3)" by (rule prod.exhaust)
    have v3: "view w3 = view w2" using other_adds [OF g a] other_deletes [OF g] by simp
    obtain b' w4 where i4: "inPlace run g wantRules w3 = (b', w4)" by (rule prod.exhaust)
    note v4 = other_inPlace [OF g i4]
    show ?thesis using e i False p a i4 v1 v2 v3 v4 rel
      by (cases x) (auto simp: ensureFamily_def rebuild_def Let_def split: prod.splits sum.splits if_splits)
  qed
qed

lemma ensureEach_closes:
  "ok w \<Longrightarrow> ensureEach run fs w = (errs, w') \<Longrightarrow> ok w' \<and> (distinct fs \<longrightarrow> fam \<in> set fs \<longrightarrow> errs = [] \<longrightarrow>
     closed inForce w' \<and> 30089 \<notin> fst ` set (rules fam w'))"
proof (induction fs arbitrary: w w' errs)
  case (Cons f fs)
  obtain errs1 w1 where e: "ensureFamily run f w = (errs1, w1)" by (rule prod.exhaust)
  obtain errs2 w2 where r: "ensureEach run fs w1 = (errs2, w2)" by (rule prod.exhaust)
  have w': "w' = w2" "errs = errs1 @ errs2" using Cons.prems(2) e r by simp_all
  have others: "view v' = view v" if "fam \<notin> set gs" "ensureEach run gs v = (x, v')" for gs v v' x
    using that
  proof (induction gs arbitrary: v v' x)
    case (Cons g gs)
    obtain a u where u: "ensureFamily run g v = (a, u)" by (rule prod.exhaust)
    obtain b u' where u': "ensureEach run gs u = (b, u')" by (rule prod.exhaust)
    have "view u = view v" using other_ensure [OF _ u] Cons.prems(1) by auto
    with Cons.IH [OF _ u'] Cons.prems u u' show ?case by simp
  qed simp
  show ?case
  proof (cases "f = fam")
    case True
    note c = ensureFamily_closes [OF Cons.prems(1) e [unfolded True]]
    have "ok w2" using Cons.IH [OF _ r] c by blast
    moreover have "closed inForce w2 \<and> 30089 \<notin> fst ` set (rules fam w2)" if "distinct (f # fs)" "errs1 = []"
    proof -
      have "view w2 = view w1" using others [OF _ r] that(1) True by auto
      with c that(2) show ?thesis using closed_view [of w2 w1 inForce] by auto
    qed
    ultimately show ?thesis using w' by simp
  next
    case False
    then have "ok w1" using other_ensure [OF False e] Cons.prems(1) by simp
    then show ?thesis using Cons.IH [OF _ r] w' False by auto
  qed
qed simp

text \<open>Filling the connection's table touches none of it.\<close>

lemma flush_view: "view (flushEach run fs w) = view w"
proof (induction fs arbitrary: w)
  case (Cons f fs)
  obtain x w1 where r: "run ipProgram [f, ''route'', ''flush'', ''table'', tunnelTable] w = (x, w1)" by (rule prod.exhaust)
  have "view w1 = view w" using other_view [OF _ r] same_view [OF r] table_flush [of fam] r by (cases "f = fam") blast+
  moreover have "view (flushEach run fs w1) = view w1" by (rule Cons.IH)
  ultimately show ?case using r by (simp add: ip_def)
qed simp

lemma routes_view: "routeEach run v6 dev ps w = (errs, w') \<Longrightarrow> view w' = view w"
proof (induction ps arbitrary: w w' errs)
  case (Cons p ps)
  let ?f = "if Is4 (pfx_addr p) then ''-4'' else ''-6''" and ?d = "if pfx_bits p = 0 then ''default'' else prefix_String p"
  obtain x w1 where r: "run ipProgram [?f, ''route'', ''replace'', ?d, ''dev'', dev, ''table'', tunnelTable] w = (x, w1)" by (rule prod.exhaust)
  have "view w1 = view w" using other_view [OF _ r] same_view [OF r] table_route [of fam] r by (cases "?f = fam") blast+
  then show ?case using Cons r by (fastforce simp: ip_def split: if_splits prod.splits)
qed simp

lemma Up_ok: "ok w \<Longrightarrow> Up run v6 dev allowed w = (errs, w') \<Longrightarrow> ok w'"
proof -
  assume o: "ok w" and u: "Up run v6 dev allowed w = (errs, w')"
  obtain e w1 where e: "Ensure run v6 w = (e, w1)" by (rule prod.exhaust)
  have o1: "ok w1" using ensureEach_closes [OF o e [unfolded Ensure_def]] by blast
  show ?thesis
  proof (cases "e = []")
    case True
    obtain ps bad where t: "tunnelPrefixes (if allowed = [] then [''0.0.0.0/0'', ''::/0''] else allowed) = (ps, bad)" by (rule prod.exhaust)
    obtain e2 w3 where r: "routeEach run v6 dev ps (flushEach run (families v6) w1) = (e2, w3)" by (rule prod.exhaust)
    have "ok w3" using routes_view [OF r] flush_view o1 by simp
    then show ?thesis using u e True t r by (simp add: Up_def Let_def)
  qed (use u e o1 in \<open>simp add: Up_def\<close>)
qed

lemma Down_ok: "ok w \<Longrightarrow> ok (snd (Down run v6 w))"
  using flush_view by (simp add: Down_def)

end

text \<open>A watched run of such a program is a watched program.\<close>

lemma watched_run:
  assumes "ip_tool run rules refuses"
  shows "watched_ip (watch (\<lambda>w. refuses fam w \<and> markedFate False (rules fam w) = Refused_here) run)
    (\<lambda>f s. rules f (fst s)) (\<lambda>f s. refuses f (fst s)) fam snd"
proof -
  let ?run = "watch (\<lambda>w. refuses fam w \<and> markedFate False (rules fam w) = Refused_here) run"
  have run: "run n a (fst s) = (x, fst s')" if "?run n a s = (x, s')" for n a s x s'
    using that by (auto simp: watch_def split: prod.splits)
  have flag: "snd s' \<longleftrightarrow> snd s \<and> (refuses fam (fst s) \<and> markedFate False (rules fam (fst s)) = Refused_here \<longrightarrow>
      refuses fam (fst s') \<and> markedFate False (rules fam (fst s')) = Refused_here)" if "?run n a s = (x, s')" for n a s x s'
    using that by (auto simp: watch_def split: prod.splits)
  note law = ip_tool.in_order [OF assms] ip_tool.other_family [OF assms] ip_tool.failed [OF assms] ip_tool.rule_show [OF assms]
    ip_tool.route_show [OF assms] ip_tool.route_refuse [OF assms] ip_tool.rule_add [OF assms] ip_tool.rule_del [OF assms]
    ip_tool.table_flush [OF assms] ip_tool.table_route [OF assms]
  show ?thesis
  proof (unfold_locales, goal_cases)
    case 1 show ?case by (rule law(1))
  next case 2 from law(2) [OF run [OF 2(1)] 2(2)] show ?case .
  next case 3 from law(3) [OF run [OF 3]] show ?case .
  next case 4 from law(4) [OF run [OF 4]] show ?case .
  next case 5 from law(5) [OF run [OF 5]] show ?case .
  next case 6 from law(6) [OF run [OF 6]] show ?case .
  next case 7 from law(7) [OF 7(1) run [OF 7(2)]] show ?case .
  next case 8 from law(8) [OF run [OF 8]] show ?case .
  next case 9 from law(9) [OF run [OF 9]] show ?case .
  next case 10 from law(10) [OF run [OF 10]] show ?case .
  next case 11 from flag [OF 11(1)] 11(2) show ?case by blast
  qed
qed

section \<open>A kernel to run it on\<close>

record kern =
  kr_rules :: "string \<Rightarrow> ip_rule list"
  kr_refuses :: "string \<Rightarrow> bool"

definition normalWords :: "string list \<Rightarrow> string list" where "normalWords ws = concat (map Fields ws)"

definition normalRules :: "ip_rule list \<Rightarrow> ip_rule list" where
  "normalRules rs = sort_key fst (map (\<lambda>(p, ws). (p, normalWords ws)) rs)"

definition kernRules :: "string \<Rightarrow> kern \<Rightarrow> ip_rule list" where "kernRules f w = normalRules (kr_rules w f)"

definition kernRefuses :: "string \<Rightarrow> kern \<Rightarrow> bool" where "kernRefuses f w = kr_refuses w f"

definition printRules :: "ip_rule list \<Rightarrow> string" where
  "printRules rs = concat (map (\<lambda>r. Join (printedRule r) '' '' @ [newline]) rs)"

definition setRules :: "string \<Rightarrow> ip_rule list \<Rightarrow> kern \<Rightarrow> kern" where
  "setRules f rs w = w\<lparr>kr_rules := (kr_rules w)(f := rs)\<rparr>"

definition ref_ip :: "kern runner" where
  "ref_ip n args w =
     (let f = hd args; rest = tl args; rs = kernRules f w; prio = digits_val (last rest) in
      if n \<noteq> ipProgram \<or> args = [] then (Inl (Failed ''not a command''), w)
      else if rest = [''rule'', ''show''] then (Inr (printRules rs), w)
      else if take 2 rest = [''rule'', ''add''] then
        (Inr [], setRules f (insertRule prio ([''from'', ''all''] @ take (length rest - 4) (drop 2 rest)) rs) w)
      else if take 2 rest = [''rule'', ''del''] then
        (if prio \<in> fst ` set rs then (Inr [], setRules f (removeRule prio rs) w) else (Inl (Failed ''no rule''), w))
      else if rest = [''route'', ''show'', ''table'', refuseTable] then
        (Inr (if kr_refuses w f then ''unreachable default'' else []), w)
      else if rest = [''route'', ''replace'', ''unreachable'', ''default'', ''table'', refuseTable] then
        (Inr [], w\<lparr>kr_refuses := (kr_refuses w)(f := True)\<rparr>)
      else (Inr [], w))"

definition wordy :: "ip_rule list \<Rightarrow> bool" where
  "wordy rs \<longleftrightarrow> (\<forall>r \<in> set rs. \<forall>x \<in> set (snd r). x \<noteq> [] \<and> (\<forall>c \<in> set x. \<not> is_space c))"

lemma normalWords_words: "x \<in> set (normalWords ws) \<Longrightarrow> x \<noteq> [] \<and> (\<forall>c \<in> set x. \<not> is_space c)"
  using FieldsFunc_words unfolding normalWords_def Fields_def by fastforce

lemma normalWords_id: "\<forall>x \<in> set ws. x \<noteq> [] \<and> (\<forall>c \<in> set x. \<not> is_space c) \<Longrightarrow> normalWords ws = ws"
  by (induction ws) (simp_all add: normalWords_def Fields_def FieldsFunc_word)

lemma sort_key_sorted: "sorted (map f xs) \<Longrightarrow> sort_key f xs = xs"
  by (induction xs) (simp_all add: insort_is_Cons)

lemma normalRules_normal: "sorted (map fst (normalRules rs)) \<and> wordy (normalRules rs)"
  using normalWords_words by (fastforce simp: normalRules_def wordy_def)

lemma normalRules_id: "sorted (map fst rs) \<Longrightarrow> wordy rs \<Longrightarrow> normalRules rs = rs"
proof -
  assume s: "sorted (map fst rs)" and w: "wordy rs"
  have "map (\<lambda>(p, ws). (p, normalWords ws)) rs = rs"
    using w by (induction rs) (auto simp: wordy_def normalWords_id)
  then show ?thesis using s by (simp add: normalRules_def sort_key_sorted)
qed

lemma kernRules_set: "kernRules g (setRules f rs w) = (if g = f then normalRules rs else kernRules g w)"
  by (simp add: kernRules_def setRules_def)

lemma kernRefuses_set [simp]: "kernRefuses g (setRules f rs w) = kernRefuses g w"
  by (simp add: kernRefuses_def setRules_def)

lemma removeRule_subset: "set (removeRule p rs) \<subseteq> set rs"
  by (induction rs) auto

lemma normal_removed: "normalRules (removeRule p (normalRules rs)) = removeRule p (normalRules rs)"
proof (rule normalRules_id)
  show "wordy (removeRule p (normalRules rs))"
    using normalRules_normal [of rs] removeRule_subset [of p "normalRules rs"] unfolding wordy_def by blast
qed (simp add: removeRule_sorted normalRules_normal)

lemma wanted_words: "ws \<in> set (map snd wantRules) \<Longrightarrow> \<forall>x \<in> set ([''from'', ''all''] @ ws). x \<noteq> [] \<and> (\<forall>c \<in> set x. \<not> is_space c)"
proof -
  have "list_all (\<lambda>ws. list_all (\<lambda>x. x \<noteq> [] \<and> list_all (\<lambda>c. \<not> is_space c) x) ([''from'', ''all''] @ ws)) (map snd wantRules)"
    by code_simp
  then show "ws \<in> set (map snd wantRules) \<Longrightarrow> \<forall>x \<in> set ([''from'', ''all''] @ ws). x \<noteq> [] \<and> (\<forall>c \<in> set x. \<not> is_space c)"
    unfolding list_all_iff by blast
qed

lemma normal_added:
  assumes "ws \<in> set (map snd wantRules)"
  shows "normalRules (insertRule p ([''from'', ''all''] @ ws) (normalRules rs)) = insertRule p ([''from'', ''all''] @ ws) (normalRules rs)"
  using normalRules_normal [of rs] wanted_words [OF assms]
  by (intro normalRules_id insertRule_sorted) (simp_all only: wordy_def insertRule_set, auto)

lemma ruleWords_print: "wordy rs \<Longrightarrow> ruleWords (printRules rs) = map printedRule rs"
proof (induction rs)
  case (Cons r rs)
  have nl: "is_space newline" by (simp add: is_space_def)
  have words: "\<forall>x \<in> set (printedRule r). x \<noteq> [] \<and> (\<forall>c \<in> set x. \<not> is_space c)"
  proof -
    have "\<forall>c \<in> set (nat_digits n). \<not> is_space c" for n
      using all_digits_nat_digits [of n] digit_not_space by (auto simp: all_digits_def list_all_iff)
    moreover have "\<not> is_space CHR '':''" by (simp add: is_space_def)
    ultimately show ?thesis using Cons.prems by (auto simp: printedRule_def wordy_def)
  qed
  have line: "Fields (Join (printedRule r) '' '') = printedRule r"
    unfolding Fields_def by (rule FieldsFunc_Join [where p = is_space, OF words blank_space])
  have "set (Join xs '' '') \<subseteq> insert CHR '' '' (\<Union> (set ` set xs))" for xs :: "string list"
    by (induction xs "'' ''" rule: Join.induct) auto
  then have "newline \<notin> set (Join (printedRule r) '' '')" using words nl by fastforce
  from Split_append [OF this] show ?case
    using Cons line by (simp add: printRules_def ruleWords_def wordy_def printedRule_def)
qed (simp add: ruleWords_def printRules_def Fields_def)

lemmas ref_ip_unfold = ref_ip_def Let_def list.sel

interpretation ik: ip_tool ref_ip kernRules kernRefuses
proof (unfold_locales, goal_cases)
  case (1 f w)
  show ?case unfolding kernRules_def by (rule normalRules_normal [THEN conjunct1])
next
  case (2 g a w x w' f)
  then show ?case unfolding ref_ip_unfold
    by (auto simp: kernRules_set split: if_splits) (simp_all add: kernRules_def kernRefuses_def)
next
  case (3 f a w e w')
  then show ?case unfolding ref_ip_unfold by (auto split: if_splits)
next
  case (4 f w out w')
  then show ?case unfolding ref_ip_unfold by (auto simp: kernRules_def normalRules_normal ruleWords_print)
next
  case (5 f w out w')
  then show ?case unfolding ref_ip_unfold by (auto simp: kernRefuses_def split: if_splits)
next
  case (6 f w out w')
  then show ?case unfolding ref_ip_unfold by (auto simp: kernRules_def kernRefuses_def)
next
  case (7 ws f p w out w')
  from 7(2) have "w' = setRules f (insertRule p ([''from'', ''all''] @ ws) (kernRules f w)) w"
    unfolding ref_ip_unfold by (simp split: if_splits)
  moreover from this have "kernRules f w' = insertRule p ([''from'', ''all''] @ ws) (kernRules f w)"
    using normal_added [OF 7(1), of p "kr_rules w f", folded kernRules_def] by (simp only: kernRules_set simp_thms if_True)
  ultimately show ?case by simp
next
  case (8 f p w out w')
  then have "w' = setRules f (removeRule p (kernRules f w)) w"
    unfolding ref_ip_unfold by (simp split: if_splits)
  moreover from this have "kernRules f w' = removeRule p (kernRules f w)"
    using normal_removed [of p "kr_rules w f", folded kernRules_def] by (simp only: kernRules_set simp_thms if_True)
  ultimately show ?case by simp
next
  case (9 f w x w')
  then show ?case unfolding ref_ip_unfold by (auto simp: tunnelTable_def refuseTable_def)
next
  case (10 f d dev w x w')
  then show ?case unfolding ref_ip_unfold by (auto simp: tunnelTable_def refuseTable_def)
qed

text \<open>Watching the kernel for a family gives the second interface.\<close>

interpretation iw: watched_ip "watch (\<lambda>w. kernRefuses fam w \<and> markedFate False (kernRules fam w) = Refused_here) ref_ip"
  "\<lambda>f s. kernRules f (fst s)" "\<lambda>f s. kernRefuses f (fst s)" fam snd for fam
  by (rule watched_run [OF ik.ip_tool_axioms])

section \<open>What the tunnel's routing promises\<close>

lemma families_distinct: "distinct (families v6)"
  by (simp add: families_def)

text \<open>
  C33. The tunnel never leaks. Bringing the connection up, whatever the program answers and whichever command fails, never takes
  marked traffic from refused to not refused, not even between two commands: the five rules are rebuilt under a hold, and
  the hold goes only when the refusal behind them is verified.
\<close>

theorem tunnel_never_leaks:
  assumes "ip_tool run rules refuses"
  shows "snd (snd (Up (watch (\<lambda>w. refuses f w \<and> markedFate False (rules f w) = Refused_here) run) v6 dev allowed (w, True)))"
proof -
  let ?run = "watch (\<lambda>w. refuses f w \<and> markedFate False (rules f w) = Refused_here) run"
  obtain errs s where u: "Up ?run v6 dev allowed (w, True) = (errs, s)" by (rule prod.exhaust)
  show ?thesis using watched_ip.Up_ok [OF watched_run [OF assms] _ u] u by simp
qed

text \<open>
  C34. When the rules are reported in place, they are. After \<open>Ensure\<close> without an error every family has exactly the five rules on
  the panel's priorities, the refusing route behind them and no hold left over, so marked traffic goes by the
  connection or is refused.
\<close>

theorem ensured_rules_in_force:
  assumes "ip_tool run rules refuses" and "Ensure run v6 w = ([], w')" and "f \<in> set (families v6)"
  shows "onOurs (rules f w') = wantedRules \<and> refuses f w' \<and> 30089 \<notin> fst ` set (rules f w') \<and> markedFate tun (rules f w') \<noteq> Leaks"
proof -
  have w: "watched_ip run rules refuses f (\<lambda>_. True)"
    using assms(1) by (intro watched_ip.intro watched_ip_axioms.intro) simp_all
  have "watched_ip.closed rules refuses f (\<lambda>_. True) (\<lambda>rs. onOurs rs = wantedRules) w' \<and> 30089 \<notin> fst ` set (rules f w')"
    using watched_ip.ensureEach_closes [OF w _ assms(2) [unfolded Ensure_def]] assms(3) families_distinct by blast
  then show ?thesis
    using inPlace_refuses guarded_never_leaks by (auto simp: watched_ip.closed_def [OF w])
qed

definition demo_kern :: kern where
  "demo_kern = \<lparr>kr_rules = (\<lambda>f. [(30090, [''from'', ''all'', ''lookup'', ''main'']), (30101, refusalWords), (32766, [''from'', ''all'', ''lookup'', ''main''])]),
     kr_refuses = (\<lambda>f. False)\<rparr>"

theorem tunnel_never_leaks_witness:
  "snd (snd (Up (watch (\<lambda>w. kernRefuses ''-6'' w \<and> markedFate False (kernRules ''-6'' w) = Refused_here) ref_ip) True ''awg0'' [] (demo_kern, True)))"
  by (rule tunnel_never_leaks) (rule ik.ip_tool_axioms)

definition held_kern :: kern where
  "held_kern = \<lparr>kr_rules = (\<lambda>f. (30089, refusalWords) # wantedRules), kr_refuses = (\<lambda>f. True)\<rparr>"

lemma demo_ensure: "fst (Ensure ref_ip False held_kern) = []"
  by code_simp

theorem ensured_rules_in_force_witness:
  "\<exists>w'. Ensure ref_ip False held_kern = ([], w') \<and> onOurs (kernRules ''-4'' w') = wantedRules \<and> kernRefuses ''-4'' w' \<and>
    markedFate False (kernRules ''-4'' w') \<noteq> Leaks"
proof -
  obtain w' where e: "Ensure ref_ip False held_kern = ([], w')" using demo_ensure by (metis prod.collapse)
  have "''-4'' \<in> set (families False)" by (simp add: families_def)
  from ensured_rules_in_force [OF ik.ip_tool_axioms e this, of False] e show ?thesis by blast
qed

section \<open>The networks of a connection\<close>

lemma half_values:
  "halves = [(\<lparr>pfx_addr = V4 0, pfx_bits = 1\<rparr>, \<lparr>pfx_addr = V4 0x80000000, pfx_bits = 1\<rparr>, \<lparr>pfx_addr = V4 0, pfx_bits = 0\<rparr>),
     (\<lparr>pfx_addr = V6 0 [], pfx_bits = 1\<rparr>, \<lparr>pfx_addr = V6 0x80000000000000000000000000000000 [], pfx_bits = 1\<rparr>, \<lparr>pfx_addr = V6 0 [], pfx_bits = 0\<rparr>)]"
  by code_simp

lemma top_bit_only: "(x :: 'a :: len word) AND push_bit n 1 = (if bit x n then push_bit n 1 else 0)"
  by (rule bit_eqI) (auto simp: bit_simps)

lemma half4: "network4 1 x = (if bit x 31 then 0x80000000 else 0)" "network4 0 x = 0"
proof -
  have "netmask4 1 = push_bit 31 1" by (simp add: netmask4_def push_bit_eq_mult drop_bit_eq_div)
  then show "network4 1 x = (if bit x 31 then 0x80000000 else 0)" unfolding network4_def by (simp only: top_bit_only) simp
  show "network4 0 x = 0" by (simp add: network4_def netmask4_def)
qed

lemma half6: "network6 1 x = (if bit x 127 then 0x80000000000000000000000000000000 else 0)" "network6 0 x = 0"
proof -
  have "push_bit (128 - 1) (drop_bit (128 - 1) (-1)) = (push_bit 127 1 :: ip6)" by (simp add: push_bit_eq_mult drop_bit_eq_div)
  then show "network6 1 x = (if bit x 127 then 0x80000000000000000000000000000000 else 0)"
    unfolding network6_def by (simp only: top_bit_only) simp
  show "network6 0 x = 0" by (simp add: network6_def)
qed

lemma top_values: "(0x80000000 :: ip4) = push_bit 31 1" "(0x80000000000000000000000000000000 :: ip6) = push_bit 127 1"
  by (simp_all add: push_bit_eq_mult)

lemma halves_cover: "(lo, hi, al) \<in> set halves \<Longrightarrow> pfx_contains al a \<longleftrightarrow> pfx_contains lo a \<or> pfx_contains hi a"
proof -
  assume h: "(lo, hi, al) \<in> set halves"
  have b: "bit (0x80000000 :: ip4) 31" "bit (0x80000000000000000000000000000000 :: ip6) 127"
    by (simp_all only: top_values bit_push_bit_iff) simp_all
  have n: "network4 1 0 = 0" "network4 1 0x80000000 = 0x80000000" "network6 1 0 = 0"
    "network6 1 0x80000000000000000000000000000000 = 0x80000000000000000000000000000000"
    using b by (simp_all only: half4 half6 bit_0_eq bot_apply bot_bool_def if_True if_False)
  show ?thesis
  proof (cases a)
    case (V4 x)
    have "network4 1 x = 0 \<or> network4 1 x = 0x80000000" using half4(1) [of x] by argo
    with V4 h show ?thesis unfolding half_values by (auto simp only: list.set insert_iff empty_iff prod.inject pfx_contains.simps
      prefix.select_convs addr.case half4(2) n)
  next
    case (V6 x z)
    have "network6 1 x = 0 \<or> network6 1 x = 0x80000000000000000000000000000000" using half6(1) [of x] by argo
    with V6 h show ?thesis unfolding half_values by (auto simp only: list.set insert_iff empty_iff prod.inject pfx_contains.simps
      prefix.select_convs addr.case half6(2) n)
  qed
qed

lemma wholeOf_set:
  "set (wholeOf seen (lo, hi, al) out) =
     (if lo \<in> seen \<and> hi \<in> seen then (set out - {lo, hi}) \<union> (if al \<in> seen then {} else {al}) else set out)"
  by (auto simp: wholeOf_def)

lemma wholeOf_cover:
  assumes "(lo, hi, al) \<in> set halves" and "lo \<noteq> al" "hi \<noteq> al"
    and "\<forall>q \<in> {lo, hi, al}. q \<in> seen \<longrightarrow> q \<in> set out"
  shows "(\<exists>p \<in> set (wholeOf seen (lo, hi, al) out). pfx_contains p a) \<longleftrightarrow> (\<exists>p \<in> set out. pfx_contains p a)"
proof (cases "lo \<in> seen \<and> hi \<in> seen")
  case True
  then have i: "lo \<in> set out" "hi \<in> set out" using assms(4) by auto
  have s: "set (wholeOf seen (lo, hi, al) out) = (set out - {lo, hi}) \<union> (if al \<in> seen then {} else {al})"
    unfolding wholeOf_set using True by simp
  have al: "al \<in> set (wholeOf seen (lo, hi, al) out)" using assms(2-4) unfolding s by auto
  show ?thesis
  proof
    assume "\<exists>p \<in> set (wholeOf seen (lo, hi, al) out). pfx_contains p a"
    then show "\<exists>p \<in> set out. pfx_contains p a" using i halves_cover [OF assms(1)] unfolding s by (auto split: if_splits)
  next
    assume "\<exists>p \<in> set out. pfx_contains p a"
    then obtain p where p: "p \<in> set out" "pfx_contains p a" by blast
    show "\<exists>p \<in> set (wholeOf seen (lo, hi, al) out). pfx_contains p a"
    proof (cases "p = lo \<or> p = hi")
      case True
      then have "pfx_contains al a" using p halves_cover [OF assms(1)] by blast
      with al show ?thesis by blast
    next
      case False
      with p have "p \<in> set (wholeOf seen (lo, hi, al) out)" unfolding s by auto
      with p(2) show ?thesis by blast
    qed
  qed
qed (simp only: wholeOf_set if_False)

text \<open>
  C35. Writing everything as two halves changes nothing about which addresses are routed. The networks put into the
  connection's table cover exactly the addresses the connection lists, and never both halves of an address family: those have become the
  default route, which only marked traffic follows.
\<close>

theorem tunnel_networks_same:
  "list_ex (\<lambda>p. pfx_contains p a) (fst (tunnelPrefixes allowed)) = list_ex (\<lambda>p. pfx_contains p a) (allowedPrefixes allowed) \<and>
   \<not> list_ex (\<lambda>(lo, hi, al). lo \<in> set (fst (tunnelPrefixes allowed)) \<and> hi \<in> set (fst (tunnelPrefixes allowed))) halves"
proof -
  let ?P = "allowedPrefixes allowed"
  obtain l4 h4 a4 l6 h6 a6 where h: "halves = [(l4, h4, a4), (l6, h6, a6)]" and d: "distinct [l4, h4, a4, l6, h6, a6]"
    using half_values by (auto intro: that)
  let ?o = "wholeOf (set ?P) (l4, h4, a4) ?P"
  have out: "fst (tunnelPrefixes allowed) = wholeOf (set ?P) (l6, h6, a6) ?o" by (simp add: tunnelPrefixes_def h Let_def)
  have m: "(l4, h4, a4) \<in> set halves" "(l6, h6, a6) \<in> set halves" unfolding h by simp_all
  have 1: "(\<exists>p \<in> set ?o. pfx_contains p a) \<longleftrightarrow> (\<exists>p \<in> set ?P. pfx_contains p a)"
    by (rule wholeOf_cover [OF m(1)]) (use d in auto)
  have "(\<exists>p \<in> set (wholeOf (set ?P) (l6, h6, a6) ?o). pfx_contains p a) \<longleftrightarrow> (\<exists>p \<in> set ?o. pfx_contains p a)"
    by (rule wholeOf_cover [OF m(2)]) (use d in \<open>auto simp: wholeOf_set\<close>)
  moreover have "\<not> (l4 \<in> set (fst (tunnelPrefixes allowed)) \<and> h4 \<in> set (fst (tunnelPrefixes allowed)))"
    "\<not> (l6 \<in> set (fst (tunnelPrefixes allowed)) \<and> h6 \<in> set (fst (tunnelPrefixes allowed)))"
    unfolding out using d by (auto simp: wholeOf_set split: if_splits)
  ultimately show ?thesis using 1 by (simp add: out h list_ex_iff)
qed

end
