(* ===== verification/Selective_Routing.thy ===== *)
theory Selective_Routing
  imports Store Tunnel "HOL-Library.Multiset"
begin

text \<open>
  Which traffic goes into the tunnel: \<^verbatim>\<open>internal/routing/routing.go\<close> (the script for \<^verbatim>\<open>nft\<close>), \<^verbatim>\<open>internal/routing/apply.go\<close>,
  \<^verbatim>\<open>internal/adapters/openwrt/routing.go\<close> (rules kept in the document, applied to the router) and the numbering of new rules in
  \<^verbatim>\<open>internal/api/server.go\<close>. \<^verbatim>\<open>sort.Slice\<close> leaves the order of equal domains open: the sort of the domains is the parameter \<open>srt\<close>.
\<close>

section \<open>The script\<close>

definition TableName :: string where "TableName = ''veilbridge''"

record classified =
  cl_t4 :: "string list"
  cl_t6 :: "string list"
  cl_d4 :: "string list"
  cl_d6 :: "string list"
  cl_domains :: "(string \<times> string) list"

definition classifyOne :: "route_rule \<Rightarrow> classified \<Rightarrow> classified result" where
  "classifyOne r c =
     (if rr_Kind r = ''subnet'' then
        (case ParsePrefix (TrimSpace (rr_Value r)) of None \<Rightarrow> Inl (Failed ''bad subnet'')
         | Some p \<Rightarrow>
             let tunnel = (rr_Target r = ''tunnel''); s = prefix_String p in
             Inr (if Is4 (pfx_addr p) \<and> tunnel then c\<lparr>cl_t4 := cl_t4 c @ [s]\<rparr>
                  else if Is4 (pfx_addr p) then c\<lparr>cl_d4 := cl_d4 c @ [s]\<rparr>
                  else if tunnel then c\<lparr>cl_t6 := cl_t6 c @ [s]\<rparr>
                  else c\<lparr>cl_d6 := cl_d6 c @ [s]\<rparr>))
      else if rr_Kind r = ''domain'' then
        (if TrimSpace (rr_Value r) = [] then Inl (Failed ''empty domain value'')
         else Inr (c\<lparr>cl_domains := cl_domains c @ [(rr_Value r, rr_Target r)]\<rparr>))
      else Inl (Failed ''unknown rule kind''))"

fun classifyAll :: "route_rule list \<Rightarrow> classified \<Rightarrow> classified result" where
  "classifyAll [] c = Inr c"
| "classifyAll (r # rs) c = (case classifyOne r c of Inl e \<Rightarrow> Inl e | Inr c' \<Rightarrow> classifyAll rs c')"

type_synonym domain_sort = "(string \<times> string) list \<Rightarrow> (string \<times> string) list"

definition sortedClasses :: "domain_sort \<Rightarrow> classified \<Rightarrow> classified" where
  "sortedClasses srt c =
     \<lparr>cl_t4 = sort (cl_t4 c), cl_t6 = sort (cl_t6 c), cl_d4 = sort (cl_d4 c), cl_d6 = sort (cl_d6 c), cl_domains = srt (cl_domains c)\<rparr>"

definition classify :: "domain_sort \<Rightarrow> route_rule list \<Rightarrow> classified result" where
  "classify srt rules =
     (case classifyAll rules \<lparr>cl_t4 = [], cl_t6 = [], cl_d4 = [], cl_d6 = [], cl_domains = []\<rparr> of
        Inl e \<Rightarrow> Inl e | Inr c \<Rightarrow> Inr (sortedClasses srt c))"

definition line :: "string \<Rightarrow> string" where "line s = s @ [newline]"

definition writeSet :: "string \<Rightarrow> string \<Rightarrow> string list \<Rightarrow> string" where
  "writeSet name typ elems =
     ''  set '' @ name @ '' { type '' @ typ @ ''; flags interval;'' @
     (if elems \<noteq> [] then '' elements = { '' @ Join elems '', '' @ '' };'' else []) @ line '' }''"

definition quoteIfaces :: "string list \<Rightarrow> string result" where
  "quoteIfaces names =
     (if names = [] then Inl (Failed ''the interfaces of the local network are unknown'')
      else if list_ex (\<lambda>n. n = [] \<or> length n > 15 \<or>
          ContainsAny n ([CHR 0x22, backslash] @ '' '' @ [CHR 0x09, newline] @ '';{}'')) names then Inl (Failed ''bad interface name'')
      else Inr (Join (map (\<lambda>n. [CHR 0x22] @ n @ [CHR 0x22]) names) '', ''))"

definition emDash :: string where "emDash = [CHR 0xE2, CHR 0x80, CHR 0x94]"

definition scriptHead :: "classified \<Rightarrow> string \<Rightarrow> string" where
  "scriptHead c ingress =
     line ''#!/usr/sbin/nft -f'' @
     line (''# Generated by VeilBridge routing '' @ emDash @ '' do not edit by hand.'') @
     line (''add table inet '' @ TableName) @
     line (''delete table inet '' @ TableName) @
     line (''table inet '' @ TableName @ '' {'') @
     writeSet ''tunnel4'' ''ipv4_addr'' (cl_t4 c) @ writeSet ''tunnel6'' ''ipv6_addr'' (cl_t6 c) @
     writeSet ''direct4'' ''ipv4_addr'' (cl_d4 c) @ writeSet ''direct6'' ''ipv6_addr'' (cl_d6 c) @
     line ''  chain prerouting {'' @
     line ''    type filter hook prerouting priority mangle; policy accept;'' @
     line (''    iifname != { '' @ ingress @ '' } return'') @
     line ''    ct direction reply return'' @
     (if cl_d4 c \<noteq> [] then line ''    ip daddr @direct4 return'' else []) @
     (if cl_d6 c \<noteq> [] then line ''    ip6 daddr @direct6 return'' else []) @
     (if cl_t4 c \<noteq> [] then line (''    ip daddr @tunnel4 meta mark set meta mark | '' @ TunnelMark) else []) @
     (if cl_t6 c \<noteq> [] then line (''    ip6 daddr @tunnel6 meta mark set meta mark | '' @ TunnelMark) else []) @
     line ''  }'' @
     line ''}''"

definition domainLines :: "(string \<times> string) list \<Rightarrow> string" where
  "domainLines ds =
     (if ds = [] then []
      else line (''# domain rules (not yet enforced '' @ emDash @ '' needs FakeIP, roadmap M6):'') @
        concat (map (\<lambda>(v, t). line (''#   '' @ v @ '' -> '' @ t)) ds))"

definition Render :: "domain_sort \<Rightarrow> string list \<Rightarrow> route_rule list \<Rightarrow> string result" where
  "Render srt Ingress rules =
     (case classify srt rules of Inl e \<Rightarrow> Inl e
      | Inr c \<Rightarrow> (case quoteIfaces Ingress of Inl e \<Rightarrow> Inl e
        | Inr ingress \<Rightarrow> Inr (scriptHead c ingress @ domainLines (cl_domains c))))"

section \<open>Rules kept and applied\<close>

definition ListRules :: "'w store_fs \<Rightarrow> codec \<Rightarrow> string \<Rightarrow> 'w \<Rightarrow> route_rule list result" where
  "ListRules fs js path w = map_sum id doc_Routes (Load fs js path w)"

definition rulesDoc :: "'w store_fs \<Rightarrow> codec \<Rightarrow> string \<Rightarrow> domain_sort \<Rightarrow> route_rule list \<Rightarrow> 'w \<Rightarrow> document result" where
  \<comment> \<open>the first half of \<^verbatim>\<open>SetRules\<close>: the rules are rendered to check them, the document is read\<close>
  "rulesDoc fs js path srt rules w =
     (case Render srt [''lan''] rules of Inl e \<Rightarrow> Inl e
      | Inr script \<Rightarrow> map_sum id (\<lambda>d. d\<lparr>doc_Routes := rules\<rparr>) (Load fs js path w))"

definition SetRules :: "'w store_fs \<Rightarrow> codec \<Rightarrow> string \<Rightarrow> domain_sort \<Rightarrow> route_rule list \<Rightarrow> ('w, unit) step" where
  "SetRules fs js path srt rules w =
     (case rulesDoc fs js path srt rules w of Inl e \<Rightarrow> (Inl e, w) | Inr d \<Rightarrow> Save fs js path (Some d) w)"

text \<open>\<open>lan\<close> is \<open>None\<close> in builds without interfaces, \<open>ensure\<close> where there is no tunnel interface; \<open>nft\<close> runs the program on a script.\<close>

definition routing_Apply ::
  "'w store_fs \<Rightarrow> codec \<Rightarrow> string \<Rightarrow> domain_sort \<Rightarrow> ('w, string list) step option \<Rightarrow> ('w, unit) step option \<Rightarrow>
    (string \<Rightarrow> ('w, unit) step) \<Rightarrow> ('w, unit) step" where
  "routing_Apply fs js path srt lan ensure nft w =
     (case Load fs js path w of Inl e \<Rightarrow> (Inl e, w)
      | Inr d \<Rightarrow>
          bindR (case ensure of None \<Rightarrow> retR ()
             | Some m \<Rightarrow> wrapR (Failed ''the routing rules of the tunnel are not in place, so nothing is marked'') m) (\<lambda>_.
          bindR (case lan of None \<Rightarrow> retR [''lan''] | Some m \<Rightarrow> m) (\<lambda>ingress.
          bindR (liftR (Render srt ingress (doc_Routes d))) (\<lambda>script.
            wrapR (Failed ''nft apply failed'') (nft script)))) w)"

text \<open>The loop of \<^verbatim>\<open>newRuleID\<close> ends because only finitely many numbers are used.\<close>

definition ruleName :: "nat \<Rightarrow> string" where "ruleName i = ''rule-'' @ nat_digits i"

partial_function (option) ruleIDFrom :: "string set \<Rightarrow> nat \<Rightarrow> string option" where
  "ruleIDFrom used i = (if ruleName i \<notin> used then Some (ruleName i) else ruleIDFrom used (i + 1))"

definition newRuleID :: "route_rule list \<Rightarrow> string option" where
  "newRuleID existing = ruleIDFrom (set (map rr_ID existing)) 1"

definition addRule :: "'w store_fs \<Rightarrow> codec \<Rightarrow> string \<Rightarrow> domain_sort \<Rightarrow> (string \<Rightarrow> route_rule) \<Rightarrow> ('w, route_rule) step" where
  \<comment> \<open>\<^verbatim>\<open>addRoute\<close>; \<open>body i\<close> is \<^verbatim>\<open>in.Body.toRule(i)\<close>. A loop that does not end would be no answer: see \<open>newRuleID_ends\<close>\<close>
  "addRule fs js path srt body w =
     (case ListRules fs js path w of Inl e \<Rightarrow> (Inl (Failed ''list routes''), w)
      | Inr rules \<Rightarrow>
          let rule = body (the (newRuleID rules)) in
          bindR (wrapR (Failed ''add route'') (SetRules fs js path srt (rules @ [rule]))) (\<lambda>_. retR rule) w)"

definition updateRule :: "'w store_fs \<Rightarrow> codec \<Rightarrow> string \<Rightarrow> domain_sort \<Rightarrow> string \<Rightarrow> route_rule \<Rightarrow> ('w, route_rule) step" where
  "updateRule fs js path srt i updated w =
     (case ListRules fs js path w of Inl e \<Rightarrow> (Inl (Failed ''list routes''), w)
      | Inr rules \<Rightarrow>
          (case List.find (\<lambda>n. rr_ID (rules ! n) = i) [0..<length rules] of None \<Rightarrow> (Inl (Failed ''rule not found''), w)
           | Some n \<Rightarrow> bindR (wrapR (Failed ''update route'') (SetRules fs js path srt (rules[n := updated]))) (\<lambda>_. retR updated) w))"

definition deleteRule :: "'w store_fs \<Rightarrow> codec \<Rightarrow> string \<Rightarrow> domain_sort \<Rightarrow> string \<Rightarrow> ('w, unit) step" where
  "deleteRule fs js path srt i w =
     (case ListRules fs js path w of Inl e \<Rightarrow> (Inl (Failed ''list routes''), w)
      | Inr rules \<Rightarrow>
          if \<not> list_ex (\<lambda>r. rr_ID r = i) rules then (Inl (Failed ''rule not found''), w)
          else wrapR (Failed ''delete route'') (SetRules fs js path srt (filter (\<lambda>r. rr_ID r \<noteq> i) rules)) w)"

section \<open>New rules\<close>

lemma ruleName_inj: "ruleName i = ruleName j \<Longrightarrow> i = j"
  by (auto simp: ruleName_def dest: nat_digits_inj)

lemma ruleIDFrom_ends: "finite used \<Longrightarrow> \<exists>k. ruleIDFrom used i = Some (ruleName k) \<and> i \<le> k \<and> ruleName k \<notin> used \<and>
    k - i \<le> card {j. i \<le> j \<and> ruleName j \<in> used}"
proof -
  assume fin: "finite used"
  let ?left = "\<lambda>i. {j. i \<le> j \<and> ruleName j \<in> used}"
  have f: "finite (?left i)" for i
  proof (rule finite_subset)
    show "?left i \<subseteq> ruleName -` used" by auto
    show "finite (ruleName -` used)" using fin ruleName_inj by (intro finite_vimageI) (auto simp: inj_def)
  qed
  show ?thesis
  proof (induction "card (?left i)" arbitrary: i rule: less_induct)
    case less
    show ?case
    proof (cases "ruleName i \<in> used")
      case False
      then show ?thesis by (subst ruleIDFrom.simps) auto
    next
      case True
      have l: "?left (i + 1) = ?left i - {i}" by auto
      have "i \<in> ?left i" using True by simp
      from card_Suc_Diff1 [OF f this] have c: "card (?left i) = Suc (card (?left (i + 1)))" unfolding l by (rule sym)
      then obtain k where k: "ruleIDFrom used (i + 1) = Some (ruleName k)" "i + 1 \<le> k" "ruleName k \<notin> used"
        "k - (i + 1) \<le> card (?left (i + 1))" using less [of "i + 1"] by auto
      then have "ruleIDFrom used i = Some (ruleName k)" using True by (subst ruleIDFrom.simps) simp
      moreover have "k - i \<le> card (?left i)" using k(2,4) unfolding c by simp
      ultimately show ?thesis using k by (intro exI [of _ k]) simp
    qed
  qed
qed

text \<open>
  C37. A new rule always gets a number, and nobody else's. The search for a free number ends after at most one step more than
  there are rules, with a number no rule has.
\<close>

theorem newRuleID_ends:
  "\<exists>k. newRuleID rules = Some (ruleName k) \<and> 1 \<le> k \<and> k \<le> length rules + 1 \<and> ruleName k \<notin> set (map rr_ID rules)"
proof -
  let ?used = "set (map rr_ID rules)" and ?left = "{j. 1 \<le> j \<and> ruleName j \<in> set (map rr_ID rules)}"
  from ruleIDFrom_ends [of ?used 1] obtain k where k: "ruleIDFrom ?used 1 = Some (ruleName k)" "1 \<le> k" "ruleName k \<notin> ?used"
    "k - 1 \<le> card ?left" by auto
  have "ruleName ` ?left \<subseteq> ?used" by auto
  then have "card (ruleName ` ?left) \<le> card ?used" by (intro card_mono) simp_all
  moreover have "card (ruleName ` ?left) = card ?left" using ruleName_inj by (intro card_image) (auto simp: inj_on_def)
  moreover have "card ?used \<le> length rules" by (metis card_length length_map)
  ultimately show ?thesis using k by (auto simp: newRuleID_def)
qed

section \<open>What is enforced\<close>

text \<open>The lines \<^verbatim>\<open>nft\<close> acts on: all that are no comment.\<close>

definition isComment :: "string \<Rightarrow> bool" where "isComment l \<longleftrightarrow> HasPrefix l ''#''"

definition enforced :: "string \<Rightarrow> string list" where
  "enforced script = filter (\<lambda>l. \<not> isComment l \<and> l \<noteq> []) (Split script newline)"

definition plainText :: "string \<Rightarrow> bool" where "plainText s \<longleftrightarrow> newline \<notin> set s"

lemma enforced_line: "plainText l \<Longrightarrow> enforced (line l @ s) = (if isComment l \<or> l = [] then [] else [l]) @ enforced s"
  by (simp add: enforced_def line_def plainText_def Split_append)

lemma enforced_domains:
  "\<forall>(v, t) \<in> set ds. plainText v \<and> plainText t \<Longrightarrow> enforced (domainLines ds) = []"
proof -
  assume p: "\<forall>(v, t) \<in> set ds. plainText v \<and> plainText t"
  have "enforced (concat (map (\<lambda>(v, t). line (''#   '' @ v @ '' -> '' @ t)) ds)) = []"
    using p
  proof (induction ds)
    case (Cons d ds)
    obtain v t where d: "d = (v, t)" by (rule prod.exhaust)
    then have "plainText (''#   '' @ v @ '' -> '' @ t)" using Cons.prems by (auto simp: plainText_def)
    moreover have "isComment (''#   '' @ v @ '' -> '' @ t)" by (simp add: isComment_def HasPrefix_def)
    ultimately show ?case using Cons d enforced_line by (simp del: append_Cons)
  qed (simp add: enforced_def)
  moreover have "plainText (''# domain rules (not yet enforced '' @ emDash @ '' needs FakeIP, roadmap M6):'')"
    "isComment (''# domain rules (not yet enforced '' @ emDash @ '' needs FakeIP, roadmap M6):'')"
    by code_simp+
  ultimately show ?thesis using enforced_line by (simp add: domainLines_def enforced_def del: append_Cons)
qed

lemma enforced_append: "enforced (line a @ b) = enforced (line a) @ enforced b"
proof -
  have "Split (s @ newline # t) newline = Split s newline @ Split t newline" for s t
  proof (induction s)
    case (Cons c s)
    then show ?case by (cases "Split s newline") auto
  qed simp
  from this [of a b] this [of a "[]"] show ?thesis by (simp add: enforced_def line_def)
qed

lemma enforced_after: "(s :: string) \<noteq> [] \<Longrightarrow> last s = newline \<Longrightarrow> enforced (s @ t) = enforced s @ enforced t"
proof -
  assume "s \<noteq> []" "last s = newline"
  then have "s = line (butlast s)" unfolding line_def by (metis append_butlast_last_id)
  then show ?thesis using enforced_append [of "butlast s" t] by simp
qed

lemma scriptHead_ends: "scriptHead c i \<noteq> [] \<and> last (scriptHead c i) = newline"
  by (simp add: scriptHead_def line_def)

text \<open>Classifying only looks at each rule: the four sets hold the subnets of their kind, in the order given.\<close>

definition subnetsOf :: "(prefix \<Rightarrow> bool) \<Rightarrow> bool \<Rightarrow> route_rule list \<Rightarrow> string list" where
  "subnetsOf fam tunnel rules = List.map_filter (\<lambda>r.
     if rr_Kind r = ''subnet'' \<and> (rr_Target r = ''tunnel'') = tunnel then
       (case ParsePrefix (TrimSpace (rr_Value r)) of None \<Rightarrow> None | Some p \<Rightarrow> if fam p then Some (prefix_String p) else None)
     else None) rules"

definition domainsOf :: "route_rule list \<Rightarrow> (string \<times> string) list" where
  "domainsOf rules = map (\<lambda>r. (rr_Value r, rr_Target r)) (filter (\<lambda>r. rr_Kind r = ''domain'') rules)"

lemma subnetsOf_append: "subnetsOf fam t (rs @ qs) = subnetsOf fam t rs @ subnetsOf fam t qs"
  by (simp add: subnetsOf_def List.map_filter_def)

lemma domainsOf_append: "domainsOf (rs @ qs) = domainsOf rs @ domainsOf qs"
  by (simp add: domainsOf_def)

definition sameClasses :: "classified \<Rightarrow> classified \<Rightarrow> route_rule list \<Rightarrow> bool" where
  \<comment> \<open>the second is the first with the classes of the rules added\<close>
  "sameClasses c c' rules \<longleftrightarrow>
     cl_t4 c' = cl_t4 c @ subnetsOf (\<lambda>p. Is4 (pfx_addr p)) True rules \<and> cl_d4 c' = cl_d4 c @ subnetsOf (\<lambda>p. Is4 (pfx_addr p)) False rules \<and>
     cl_t6 c' = cl_t6 c @ subnetsOf (\<lambda>p. \<not> Is4 (pfx_addr p)) True rules \<and> cl_d6 c' = cl_d6 c @ subnetsOf (\<lambda>p. \<not> Is4 (pfx_addr p)) False rules \<and>
     cl_domains c' = cl_domains c @ domainsOf rules"

lemma classifyOne_class: "classifyOne r c = Inr c' \<Longrightarrow> sameClasses c c' [r]"
proof -
  assume c: "classifyOne r c = Inr c'"
  have one: "subnetsOf fam t [r] = (if rr_Kind r = ''subnet'' \<and> (rr_Target r = ''tunnel'') = t then
      (case ParsePrefix (TrimSpace (rr_Value r)) of None \<Rightarrow> [] | Some p \<Rightarrow> if fam p then [prefix_String p] else []) else [])" for fam t
    by (simp add: subnetsOf_def List.map_filter_def split: option.splits)
  show ?thesis
  proof (cases "rr_Kind r = ''subnet''")
    case True
    with c obtain p where p: "ParsePrefix (TrimSpace (rr_Value r)) = Some p" by (auto simp: classifyOne_def split: option.splits)
    show ?thesis using c True p
      by (cases "Is4 (pfx_addr p)"; cases "rr_Target r = ''tunnel''") (auto simp: classifyOne_def sameClasses_def one domainsOf_def Let_def)
  next
    case False
    with c have "rr_Kind r = ''domain''" "c' = c\<lparr>cl_domains := cl_domains c @ [(rr_Value r, rr_Target r)]\<rparr>"
      by (simp_all add: classifyOne_def split: if_splits)
    then show ?thesis by (simp add: sameClasses_def one domainsOf_def)
  qed
qed

lemma classifyAll_classes: "classifyAll rules c = Inr c' \<Longrightarrow> sameClasses c c' rules"
proof (induction rules arbitrary: c)
  case (Cons r rs)
  from Cons.prems obtain c1 where c1: "classifyOne r c = Inr c1" "classifyAll rs c1 = Inr c'" by (auto split: sum.splits)
  from Cons.IH [OF c1(2)] classifyOne_class [OF c1(1)] show ?case
    using subnetsOf_append [of _ _ "[r]" rs] domainsOf_append [of "[r]" rs] by (simp add: sameClasses_def)
qed (simp add: sameClasses_def subnetsOf_def domainsOf_def List.map_filter_def)

text \<open>
  C38. What is enforced depends on the subnets alone, where every value and target is one line. Two accepted rule sets with the same subnets, in
  whatever order, then give the same commands: order does not matter, and a domain rule adds nothing but a comment. A domain with a line break in
  it is accepted too and does add commands (\<open>domain_rule_runs_commands\<close>).
\<close>

theorem enforced_by_subnets:
  assumes "Render srt ifaces rules = Inr s" and "Render srt ifaces rules' = Inr s'"
    and "\<And>ds. set (srt ds) = set ds"
    and "\<forall>r \<in> set rules \<union> set rules'. plainText (rr_Value r) \<and> plainText (rr_Target r)"
    and "\<And>fam t. mset (subnetsOf fam t rules) = mset (subnetsOf fam t rules')"
  shows "enforced s = enforced s'"
proof -
  have step: "\<exists>ingress. quoteIfaces ifaces = Inr ingress \<and> enforced q = enforced (scriptHead
      \<lparr>cl_t4 = sort (subnetsOf (\<lambda>p. Is4 (pfx_addr p)) True rs), cl_t6 = sort (subnetsOf (\<lambda>p. \<not> Is4 (pfx_addr p)) True rs),
       cl_d4 = sort (subnetsOf (\<lambda>p. Is4 (pfx_addr p)) False rs), cl_d6 = sort (subnetsOf (\<lambda>p. \<not> Is4 (pfx_addr p)) False rs), cl_domains = []\<rparr> ingress)"
    if "Render srt ifaces rs = Inr q" "\<forall>r \<in> set rs. plainText (rr_Value r) \<and> plainText (rr_Target r)" for rs q
  proof -
    from that(1) obtain c ingress where c: "classifyAll rs \<lparr>cl_t4 = [], cl_t6 = [], cl_d4 = [], cl_d6 = [], cl_domains = []\<rparr> = Inr c"
      and i: "quoteIfaces ifaces = Inr ingress" and q: "q = scriptHead (sortedClasses srt c) ingress @ domainLines (srt (cl_domains c))"
      by (auto simp: Render_def classify_def sortedClasses_def split: sum.splits)
    note k = classifyAll_classes [OF c, unfolded sameClasses_def]
    have "\<forall>(v, t) \<in> set (srt (cl_domains c)). plainText v \<and> plainText t" using k that(2) assms(3) by (auto simp: domainsOf_def)
    from enforced_domains [OF this] have "enforced q = enforced (scriptHead (sortedClasses srt c) ingress)"
      unfolding q using enforced_after scriptHead_ends by (metis append_Nil2)
    moreover have "scriptHead (sortedClasses srt c) ingress = scriptHead
      \<lparr>cl_t4 = sort (subnetsOf (\<lambda>p. Is4 (pfx_addr p)) True rs), cl_t6 = sort (subnetsOf (\<lambda>p. \<not> Is4 (pfx_addr p)) True rs),
       cl_d4 = sort (subnetsOf (\<lambda>p. Is4 (pfx_addr p)) False rs), cl_d6 = sort (subnetsOf (\<lambda>p. \<not> Is4 (pfx_addr p)) False rs), cl_domains = []\<rparr> ingress"
      using k by (simp add: scriptHead_def sortedClasses_def)
    ultimately show ?thesis using i by auto
  qed
  have "sort (subnetsOf fam t rules) = sort (subnetsOf fam t rules')" for fam t
    by (rule properties_for_sort) (simp_all add: assms(5))
  then show ?thesis using step [OF assms(1)] step [OF assms(2)] assms(4) by auto
qed

definition demo_subnet :: "string \<Rightarrow> string \<Rightarrow> route_rule" where
  "demo_subnet v t = \<lparr>rr_ID = ''rule-1'', rr_Kind = ''subnet'', rr_Value = v, rr_Target = t, rr_Note = []\<rparr>"

definition demo_domain :: "string \<Rightarrow> route_rule" where
  "demo_domain v = \<lparr>rr_ID = ''rule-2'', rr_Kind = ''domain'', rr_Value = v, rr_Target = ''tunnel'', rr_Note = []\<rparr>"

definition demo_rules :: "route_rule list" where "demo_rules = [demo_subnet ''10.0.0.0/8'' ''tunnel'', demo_domain ''a.org'']"

definition demo_rules' :: "route_rule list" where "demo_rules' = [demo_subnet ''10.0.0.0/8'' ''tunnel'']"

lemma demo_rendered: "\<not> isl (Render id [''br-lan''] demo_rules)" "\<not> isl (Render id [''br-lan''] demo_rules')"
  by code_simp+

lemma demo_subnets: "subnetsOf fam t demo_rules = subnetsOf fam t demo_rules'"
  by (simp add: subnetsOf_def demo_rules_def demo_rules'_def demo_domain_def List.map_filter_def)

theorem enforced_by_subnets_witness:
  "\<exists>s s'. Render id [''br-lan''] demo_rules = Inr s \<and> Render id [''br-lan''] demo_rules' = Inr s' \<and> enforced s = enforced s'"
proof -
  obtain s s' where r: "Render id [''br-lan''] demo_rules = Inr s" "Render id [''br-lan''] demo_rules' = Inr s'"
    using demo_rendered by (metis isl_def obj_sumE)
  have "\<forall>r \<in> set demo_rules \<union> set demo_rules'. plainText (rr_Value r) \<and> plainText (rr_Target r)"
    by (simp add: demo_rules_def demo_rules'_def demo_subnet_def demo_domain_def plainText_def)
  with enforced_by_subnets [OF r] demo_subnets r show ?thesis by auto
qed

text \<open>
  The value of a domain rule is only checked not to be blank. One with a line break ends the comment it is written into, and what follows is
  a command of the script, which runs as root.
\<close>

lemma domain_rule_runs_commands:
  "\<exists>s. Render id [''br-lan''] [demo_domain (''a.org'' @ [newline] @ ''flush ruleset #'')] = Inr s \<and> ''flush ruleset # -> tunnel'' \<in> set (enforced s)"
proof -
  have "case Render id [''br-lan''] [demo_domain (''a.org'' @ [newline] @ ''flush ruleset #'')] of Inl e \<Rightarrow> False
      | Inr s \<Rightarrow> ''flush ruleset # -> tunnel'' \<in> set (enforced s)"
    by code_simp
  then show ?thesis by (auto split: sum.splits)
qed

text \<open>
  \<open>SetRules\<close> reads the document and saves it later, outside the lock \<open>Update\<close> holds: a device named in between loses its name.
\<close>

lemma setRules_loses_update:
  assumes "file_store fs now kept path"
    and "rulesDoc fs js path srt rules w = Inr d" and "Update fs js path (\<lambda>d. case SetDeviceName mac name (doc_Devices d) of
      (e, ds) \<Rightarrow> (map_option (\<lambda>_. Failed ''too many devices'') e, d\<lparr>doc_Devices := ds\<rparr>)) w = (Inr u, w1)"
    and "Save fs js path (Some d) w1 = (Inr v, w2)"
    and "Marshal js (withVersion d) = Inr b" "Unmarshal js b = Inr (withVersion d)" "TrimSpace b \<noteq> []"
  shows "\<exists>d0 d2. Load fs js path w = Inr d0 \<and> Load fs js path w2 = Inr d2 \<and> doc_Devices d2 = doc_Devices d0"
proof -
  from assms(2) obtain d0 where "Load fs js path w = Inr d0" "d = d0\<lparr>doc_Routes := rules\<rparr>"
    by (auto simp: rulesDoc_def map_sum_def split: sum.splits)
  with file_store.saved_is_loaded [OF assms(1,5,6,7,4)] show ?thesis by (auto simp: withVersion_def)
qed

end
