(* ===== verification/Wifi.thy ===== *)
theory Wifi
  imports Firewall "HOL-Library.Multiset"
begin

text \<open>
  Wi-Fi: \<^verbatim>\<open>internal/core/wifi.go\<close> (its data, what may be a name or a password), \<^verbatim>\<open>internal/adapters/openwrt/wifi.go\<close> (radios,
  networks, staging their settings) and the access points of \<^verbatim>\<open>devices.go\<close>. The programs are the parameter \<open>run\<close>; what the
  daemons on the bus answer, decoded, is a value of \<open>wifi_bus\<close>, \<open>None\<close> for the adapter without a bus. A Go map the bus decodes
  into is an association list, in the order Go's range happens to take; \<open>unmarshal\<close> is \<^verbatim>\<open>encoding/json\<close> on the body of
  \<^verbatim>\<open>get_clients\<close>.
\<close>

section \<open>Data\<close>

record wifi_channel =
  ch_Channel :: int
  ch_Radar :: bool

record wifi_radio =
  wr_ID :: string
  wr_Band :: string
  wr_Enabled :: bool
  wr_Auto :: bool
  wr_Channel :: int
  wr_ChannelNow :: int
  wr_Width :: int
  wr_Widths :: "int list"
  wr_Channels :: "wifi_channel list"
  wr_Devices :: int
  wr_State :: string

record wifi_network =
  wn_ID :: string
  wn_Kind :: string
  wn_Enabled :: bool
  wn_SSID :: string
  wn_Security :: string
  wn_Radios :: "string list"
  wn_Devices :: int
  wn_HasPassword :: bool

record wifi_here =
  wh_Kind :: string
  wh_Radio :: string
  wh_Band :: string

record radio_config =
  rd_Enabled :: bool
  rd_Channel :: string
  rd_Width :: int

record access_config =
  ac_SSID :: string
  ac_Password :: string
  ac_Security :: string

definition ErrNoWiFi :: error where "ErrNoWiFi = Failed ''this device has no Wi-Fi''"

definition WiFiWPA2 :: string where "WiFiWPA2 = ''wpa2''"
definition WiFiWPA2WPA3 :: string where "WiFiWPA2WPA3 = ''wpa2-wpa3''"
definition WiFiWPA3 :: string where "WiFiWPA3 = ''wpa3''"
definition WiFiOpen :: string where "WiFiOpen = ''open''"
definition WiFiOther :: string where "WiFiOther = ''other''"
definition RadioUp :: string where "RadioUp = ''up''"
definition RadioStarting :: string where "RadioStarting = ''starting''"
definition RadioRadar :: string where "RadioRadar = ''checking-radar''"
definition RadioDown :: string where "RadioDown = ''down''"

section \<open>Names and passwords\<close>

text \<open>\<^verbatim>\<open>utf8.ValidString\<close>: well-formed UTF-8, without surrogates and overlong forms, up to U+10FFFF.\<close>

abbreviation trail :: "nat \<Rightarrow> bool" where "trail b \<equiv> 128 \<le> b \<and> b \<le> 191"

fun validUTF8 :: "nat list \<Rightarrow> bool" where
  "validUTF8 [] = True"
| "validUTF8 (a # s) =
     (if a < 128 then validUTF8 s
      else if 194 \<le> a \<and> a \<le> 223 then (case s of b # t \<Rightarrow> trail b \<and> validUTF8 t | _ \<Rightarrow> False)
      else if 224 \<le> a \<and> a \<le> 239 then
        (case s of b # c # t \<Rightarrow> trail b \<and> trail c \<and> (a = 224 \<longrightarrow> 160 \<le> b) \<and> (a = 237 \<longrightarrow> b \<le> 159) \<and> validUTF8 t | _ \<Rightarrow> False)
      else if 240 \<le> a \<and> a \<le> 244 then
        (case s of b # c # d # t \<Rightarrow> trail b \<and> trail c \<and> trail d \<and> (a = 240 \<longrightarrow> 144 \<le> b) \<and> (a = 244 \<longrightarrow> b \<le> 143) \<and> validUTF8 t | _ \<Rightarrow> False)
      else False)"

definition ValidString :: "string \<Rightarrow> bool" where "ValidString s = validUTF8 (map of_char s)"

definition ValidSSID :: "string \<Rightarrow> error option" where
  \<comment> \<open>a rune below \<open>0x80\<close> of a valid string is a byte below \<open>0x80\<close>\<close>
  "ValidSSID ssid =
     (if length ssid = 0 then Some (Refused ''ssid'' ''the network needs a name'')
      else if length ssid > 32 then Some (Refused ''ssid'' ''at most 32 bytes fit'')
      else if \<not> ValidString ssid then Some (Refused ''ssid'' ''not valid text'')
      else if list_ex (\<lambda>r. (of_char r :: nat) < 0x20 \<or> (of_char r :: nat) = 0x7f) ssid then Some (Refused ''ssid'' ''a control character'')
      else None)"

definition ValidWiFiPassword :: "string \<Rightarrow> error option" where
  "ValidWiFiPassword p =
     (if length p = 64 \<and> list_all (\<lambda>c. c \<in> set ''0123456789abcdef'') (ToLower p) then None
      else if length p < 8 \<or> length p > 63 then Some (Refused ''password'' ''has to be 8 to 63 characters'')
      else if list_ex (\<lambda>c. (of_char c :: nat) < 0x20 \<or> (of_char c :: nat) > 0x7e) p then Some (Refused ''password'' ''only printable ASCII'')
      else None)"

fun WiFiHereFrom :: "device list \<Rightarrow> wifi_radio list \<Rightarrow> wifi_here" where
  "WiFiHereFrom [] radios = \<lparr>wh_Kind = ''other'', wh_Radio = [], wh_Band = []\<rparr>"
| "WiFiHereFrom (d # ds) radios =
     (if \<not> d_Here d then WiFiHereFrom ds radios
      else if Kind (d_Link d) = ''cable'' then \<lparr>wh_Kind = ''cable'', wh_Radio = [], wh_Band = []\<rparr>
      else if Kind (d_Link d) = ''wifi'' then
        \<lparr>wh_Kind = ''wifi'', wh_Radio = (case List.find (\<lambda>r. wr_Band r = Band (d_Link d)) radios of Some r \<Rightarrow> wr_ID r | None \<Rightarrow> []),
         wh_Band = Band (d_Link d)\<rparr>
      else \<lparr>wh_Kind = ''other'', wh_Radio = [], wh_Band = []\<rparr>)"

section \<open>The bus\<close>

record wifi_bus =
  wb_phyname :: "string \<Rightarrow> string option"
  wb_info :: "string \<Rightarrow> (string \<times> string list) option"
  wb_freqlist :: "string \<Rightarrow> (int \<times> int \<times> bool) list option"
  wb_wireless :: "(string \<times> (string \<times> string) list) list option"
  wb_status :: "string \<Rightarrow> (string \<times> int) option"
  wb_clients :: "string \<Rightarrow> string option"

record client_entry =
  ce_Assoc :: "bool option"
  ce_Authorized :: "bool option"
  ce_Signal :: int

type_synonym unmarshal_clients = "string \<Rightarrow> (int \<times> (string \<times> client_entry) list) option"

definition bandOf :: "int \<Rightarrow> string" where
  "bandOf freqMHz = (if freqMHz \<le> 0 then [] else if freqMHz < 3000 then ''2.4'' else if freqMHz < 5925 then ''5'' else ''6'')"

record access_point =
  ap_iface :: string
  ap_band :: string
  ap_clients :: "(string \<times> int) list"

definition letIn :: "client_entry \<Rightarrow> bool" where
  "letIn c \<longleftrightarrow> \<not> (ce_Assoc c = Some False \<or> ce_Authorized c = Some False)"

definition parseClients :: "unmarshal_clients \<Rightarrow> string \<Rightarrow> access_point option" where
  "parseClients unmarshal body =
     (case unmarshal body of None \<Rightarrow> None
      | Some (freq, cs) \<Rightarrow>
          Some \<lparr>ap_iface = [], ap_band = bandOf freq, ap_clients = map (\<lambda>(mac, c). (mac, ce_Signal c)) (filter (\<lambda>(mac, c). letIn c) cs)\<rparr>)"

section \<open>Reading the configuration\<close>

record wifi_sections =
  wc_radios :: "uci_section list"
  wc_ifaces :: "uci_section list"
  wc_all :: "uci_section list"

definition wifiConfigOf :: "string \<Rightarrow> wifi_sections" where
  "wifiConfigOf out =
     (let secs = parseUCISections out in
      \<lparr>wc_radios = filter (\<lambda>s. sec_kind s = ''wifi-device'') secs,
       wc_ifaces = filter (\<lambda>s. sec_kind s = ''wifi-iface'' \<and> oget (sec_options s) ''mode'' = ''ap'') secs, wc_all = secs\<rparr>)"

definition readConfig :: "'w runner option \<Rightarrow> ('w, wifi_sections) step" where
  "readConfig mrun =
     (case mrun of None \<Rightarrow> failR (Failed ''not implemented'')
      | Some run \<Rightarrow>
          bindR (wrapR ErrNoWiFi (run ''uci'' [''-q'', ''show'', ''wireless''])) (\<lambda>out.
            let c = wifiConfigOf out in if wc_radios c = [] then failR ErrNoWiFi else retR c))"

definition radio :: "wifi_sections \<Rightarrow> string \<Rightarrow> uci_section option" where
  "radio c i = List.find (\<lambda>r. sec_id r = i) (wc_radios c)"

definition bandWord :: "string \<Rightarrow> string" where
  "bandWord b = (if b = ''2g'' then ''2.4'' else if b = ''5g'' then ''5'' else if b = ''6g'' then ''6'' else if b = ''60g'' then ''60'' else b)"

text \<open>The value \<^verbatim>\<open>strconv.Atoi\<close> returns beside an error: \<open>0\<close>, or the nearest \<open>int64\<close> when the number is out of range.\<close>

definition AtoiValue :: "string \<Rightarrow> int" where
  "AtoiValue s =
     (let ds = (if take 1 s = ''-'' \<or> take 1 s = ''+'' then drop 1 s else s) in
      if \<not> all_digits ds then 0
      else if take 1 s = ''-'' then max (- (2 ^ 63)) (- int (digits_val ds)) else min (2 ^ 63 - 1) (int (digits_val ds)))"

definition widthOf :: "string \<Rightarrow> int" where
  "widthOf htmode = AtoiValue (rev (takeWhile is_digit (rev htmode)))"

record radio_facts =
  rf_phy :: string
  rf_htmodes :: "string list"
  rf_widths :: "int list"
  rf_channels :: "wifi_channel list"
  rf_country :: string

definition noFacts :: radio_facts where
  "noFacts = \<lparr>rf_phy = [], rf_htmodes = [], rf_widths = [], rf_channels = [], rf_country = []\<rparr>"

definition isRadar :: "int \<Rightarrow> bool" where "isRadar mhz \<longleftrightarrow> mhz \<ge> 5250 \<and> mhz \<le> 5730"

definition allowedChannels :: "string \<Rightarrow> (int \<times> int \<times> bool) list \<Rightarrow> wifi_channel list" where
  "allowedChannels country results =
     map (\<lambda>(ch, mhz, r). \<lparr>ch_Channel = ch, ch_Radar = isRadar mhz\<rparr>)
       (filter (\<lambda>(ch, mhz, r). \<not> r \<and> \<not> (isRadar mhz \<and> (country = [] \<or> country = ''00''))) results)"

definition facts :: "wifi_bus option \<Rightarrow> string \<Rightarrow> radio_facts" where
  "facts mbus i =
     (case mbus of None \<Rightarrow> noFacts
      | Some bus \<Rightarrow> (case wb_phyname bus i of None \<Rightarrow> noFacts
        | Some phy \<Rightarrow>
            if phy = [] then noFacts
            else let f0 = noFacts\<lparr>rf_phy := phy\<rparr>;
                     f1 = (case wb_info bus phy of None \<Rightarrow> f0
                       | Some (country, hts) \<Rightarrow>
                           f0\<lparr>rf_htmodes := hts, rf_country := country, rf_widths := sort (remdups (filter (\<lambda>w. w > 0) (map widthOf hts)))\<rparr>)
                 in (case wb_freqlist bus phy of None \<Rightarrow> f1
                   | Some results \<Rightarrow> f1\<lparr>rf_channels := allowedChannels (rf_country f1) results\<rparr>)))"

definition running :: "wifi_bus option \<Rightarrow> (string \<times> string) list" where
  "running mbus =
     (case mbus of None \<Rightarrow> []
      | Some bus \<Rightarrow> (case wb_wireless bus of None \<Rightarrow> []
        | Some st \<Rightarrow> fold (\<lambda>(sec, ifname) m. if ifname \<noteq> [] then AList.update sec ifname m else m) (concat (map snd st)) []))"

definition apState :: "wifi_bus option \<Rightarrow> string \<Rightarrow> string \<times> int" where
  "apState mbus ifname =
     (case (case mbus of None \<Rightarrow> None | Some bus \<Rightarrow> wb_status bus ifname) of
        None \<Rightarrow> (RadioDown, 0)
      | Some (status, channel) \<Rightarrow>
          if status = ''ENABLED'' then (RadioUp, channel)
          else if status = ''DFS'' then (RadioRadar, 0)
          else if status = ''DISABLED'' then (RadioDown, 0) else (RadioStarting, 0))"

definition connected :: "unmarshal_clients \<Rightarrow> wifi_bus option \<Rightarrow> string \<Rightarrow> nat" where
  "connected unmarshal mbus ifname =
     (case (case mbus of None \<Rightarrow> None | Some bus \<Rightarrow> wb_clients bus ifname) of None \<Rightarrow> 0
      | Some body \<Rightarrow> (case parseClients unmarshal body of None \<Rightarrow> 0 | Some ap \<Rightarrow> length (ap_clients ap)))"

definition securityOf :: "string \<Rightarrow> string" where
  "securityOf encryption =
     (let base = (case Cut encryption CHR ''+'' of Some (a, b) \<Rightarrow> a | None \<Rightarrow> encryption) in
      if base = ''psk2'' then WiFiWPA2
      else if base = ''sae-mixed'' then WiFiWPA2WPA3
      else if base = ''sae'' then WiFiWPA3
      else if base = [] \<or> base = ''none'' then WiFiOpen else WiFiOther)"

definition encryptionFor :: "string \<Rightarrow> string" where
  "encryptionFor security = (if security = WiFiWPA2 then ''psk2'' else if security = WiFiWPA2WPA3 then ''sae-mixed'' else [])"

definition onLAN :: "uci_section \<Rightarrow> bool" where
  "onLAN s \<longleftrightarrow> lanSection \<in> set (Fields (oget (sec_options s) ''network''))"

section \<open>Networks\<close>

text \<open>A network is its access points, never none of them: the first names it.\<close>

type_synonym wifi_net = "uci_section list"

definition netKey :: "uci_section \<Rightarrow> string" where
  "netKey x = (let g = oget (sec_options x); nul = [CHR 0x00] in
     g ''ssid'' @ nul @ g ''key'' @ nul @ g ''encryption'' @ nul @ g ''network'')"

fun placeIn :: "uci_section \<Rightarrow> wifi_net list \<Rightarrow> wifi_net list" where
  "placeIn s [] = [[s]]"
| "placeIn s (n # ns) = (if netKey (hd n) = netKey s then (n @ [s]) # ns else n # placeIn s ns)"

definition groupNetworks :: "uci_section list \<Rightarrow> wifi_net list" where
  "groupNetworks ifaces = fold placeIn ifaces []"

definition network :: "wifi_sections \<Rightarrow> string \<Rightarrow> wifi_net option" where
  "network c i = List.find (list_ex (\<lambda>s. sec_id s = i)) (groupNetworks (wc_ifaces c))"

definition anyEnabled :: "uci_section list \<Rightarrow> bool" where
  "anyEnabled sections = list_ex (\<lambda>s. oget (sec_options s) ''disabled'' \<noteq> ''1'') sections"

definition WiFiPassword :: "'w runner option \<Rightarrow> string \<Rightarrow> ('w, string) step" where
  "WiFiPassword mrun i =
     bindR (readConfig mrun) (\<lambda>c. case network c i of None \<Rightarrow> failR (Failed ''no such Wi-Fi network'')
       | Some n \<Rightarrow> retR (oget (sec_options (hd n)) ''key''))"

section \<open>Staging\<close>

definition radioSubject :: "uci_section \<Rightarrow> string" where
  "radioSubject r = ''Wi-Fi '' @ bandWord (oget (sec_options r) ''band'') @ '' GHz''"

definition htmodeFor :: "string \<Rightarrow> string list \<Rightarrow> int \<Rightarrow> string option" where
  "htmodeFor current htmodes width =
     (let prefix = TrimRight is_digit current in
      if prefix \<noteq> [] \<and> prefix @ Itoa width \<in> set htmodes then Some (prefix @ Itoa width)
      else map_option (\<lambda>p. p @ Itoa width) (List.find (\<lambda>p. p @ Itoa width \<in> set htmodes) [''EHT'', ''HE'', ''VHT'', ''HT'']))"

definition widthWords :: "string \<Rightarrow> string" where
  "widthWords htmode = (let w = widthOf htmode in if w > 0 then Itoa w else [])"

definition wirelessSetting :: "string \<Rightarrow> string \<Rightarrow> string \<Rightarrow> setting" where
  "wirelessSetting role key value = setting0\<lparr>s_key := key, s_value := value, s_label := describe ''wireless'' role key\<rparr>"

definition enabledSettings :: "bool \<Rightarrow> setting list" where
  "enabledSettings on =
     (if on then [(wirelessSetting ''radio'' ''disabled'' [])\<lparr>s_remove := True, s_sameAsAbsent := ''0''\<rparr>]
      else [wirelessSetting ''radio'' ''disabled'' ''1''])"

definition channelSettings :: "wifi_channel list \<Rightarrow> string \<Rightarrow> setting list result" where
  "channelSettings channels channel =
     (let ch = TrimSpace channel in
      if ch = [] then Inr []
      else if ch = ''auto'' then Inr [wirelessSetting ''radio'' ''channel'' ch]
      else case Atoi ch of
          Some n \<Rightarrow> if list_ex (\<lambda>a. ch_Channel a = n) channels then Inr [wirelessSetting ''radio'' ''channel'' (Itoa n)]
            else Inl (Refused ''channel'' ''not allowed for this radio in its country'')
        | None \<Rightarrow> Inl (Refused ''channel'' ''not allowed for this radio in its country''))"

definition widthSettings :: "string \<Rightarrow> string list \<Rightarrow> int \<Rightarrow> setting list result" where
  "widthSettings current htmodes width =
     (if width > 0 then
        (case htmodeFor current htmodes width of None \<Rightarrow> Inl (Refused ''width'' ''this radio cannot use it'')
         | Some hm \<Rightarrow> Inr [(wirelessSetting ''radio'' ''htmode'' hm)\<lparr>s_shown := Itoa width, s_shownBefore := widthWords current\<rparr>])
      else Inr [])"

definition StageRadio :: "'w runner option \<Rightarrow> wifi_bus option \<Rightarrow> string \<Rightarrow> radio_config \<Rightarrow> ('w, config_change list) step" where
  "StageRadio mrun mbus i cfg =
     bindR (readConfig mrun) (\<lambda>c. case radio c i of None \<Rightarrow> failR (Failed ''no such radio'')
       | Some r \<Rightarrow> (let f = facts mbus i in
           bindR (liftR (channelSettings (rf_channels f) (rd_Channel cfg))) (\<lambda>chan.
           bindR (liftR (widthSettings (oget (sec_options r) ''htmode'') (rf_htmodes f) (rd_Width cfg))) (\<lambda>wide.
           bindR (stage (the mrun) ''wireless'' i (enabledSettings (rd_Enabled cfg) @ chan @ wide)) (\<lambda>changes.
             retR (withSubject changes (radioSubject r)))))))"

definition countryCode :: "string \<Rightarrow> bool" where
  "countryCode s \<longleftrightarrow> length s = 2 \<and> list_all (\<lambda>c. 65 \<le> (of_char c :: nat) \<and> (of_char c :: nat) \<le> 90) s"

fun stageCountryOn :: "'w runner \<Rightarrow> string \<Rightarrow> uci_section list \<Rightarrow> ('w, config_change list list) step" where
  "stageCountryOn run code [] = retR []"
| "stageCountryOn run code (r # rs) =
     bindR (stage run ''wireless'' (sec_id r) [wirelessSetting ''radio'' ''country'' code]) (\<lambda>ch.
     bindR (stageCountryOn run code rs) (\<lambda>rest. retR (ch # rest)))"

definition StageCountry :: "'w runner option \<Rightarrow> string \<Rightarrow> ('w, config_change list) step" where
  "StageCountry mrun code0 =
     (let code = ToUpper (TrimSpace code0) in
      bindR (checkR (countryCode code \<and> code \<noteq> ''00'') (Refused ''country'' ''not a country code'')) (\<lambda>_.
      bindR (readConfig mrun) (\<lambda>c.
      bindR (stageCountryOn (the mrun) code (wc_radios c)) (\<lambda>rows. retR (hd rows)))))"

definition accessFields :: "access_config \<Rightarrow> string \<Rightarrow> (string \<times> string) list \<Rightarrow> (string \<times> string) list" where
  "accessFields cfg enc first' =
     (if ac_SSID cfg \<noteq> oget first' ''ssid'' then [(''ssid'', ac_SSID cfg)] else []) @
     (if ac_Password cfg \<noteq> [] \<and> ac_Password cfg \<noteq> oget first' ''key'' then [(''key'', ac_Password cfg)] else []) @
     (if enc \<noteq> [] \<and> enc \<noteq> oget first' ''encryption'' then [(''encryption'', enc)] else [])"

fun setOnAll :: "'w runner \<Rightarrow> string \<Rightarrow> string \<Rightarrow> uci_section list \<Rightarrow> ('w, unit) step" where
  "setOnAll run key value [] w = (Inr (), w)"
| "setOnAll run key value (s # ss) w =
     (case uciSet run (stageKey ''wireless'' (sec_id s) key) value w of
        (Some e, w') \<Rightarrow> (Inl e, snd (discardConfig run ''wireless'' w'))
      | (None, w') \<Rightarrow> setOnAll run key value ss w')"

definition accessRow :: "uci_section \<Rightarrow> string \<Rightarrow> string \<Rightarrow> config_change" where
  "accessRow first' key value =
     (let said = describe ''wireless'' ''wifiNet'' key; old = oget (sec_options first') key;
          shows = (\<lambda>v. redact (secretOption key) (if key = ''encryption'' then securityOf v else v))
      in \<lparr>Label = ph_words said, LabelKey = ph_key said, From_value = shows old, To_value = shows value, Dangerous = False,
          Detail = stageKey ''wireless'' (sec_id first') key, Subject = oget (sec_options first') ''ssid''\<rparr>)"

fun stageFields :: "'w runner \<Rightarrow> wifi_net \<Rightarrow> (string \<times> string) list \<Rightarrow> ('w, config_change list) step" where
  "stageFields run n [] = retR []"
| "stageFields run n ((key, value) # fs) =
     bindR (setOnAll run key value n) (\<lambda>_. bindR (stageFields run n fs) (\<lambda>rows. retR (accessRow (hd n) key value # rows)))"

definition accessEncryption :: "string \<Rightarrow> string result" where
  "accessEncryption security =
     (if security = [] then Inr [] else if encryptionFor security = [] then Inl (Refused ''security'' ''not offered'') else Inr (encryptionFor security))"

definition errR :: "error option \<Rightarrow> ('w, unit) step" where
  "errR e = (case e of None \<Rightarrow> retR () | Some x \<Rightarrow> failR x)"

definition StageAccess :: "'w runner option \<Rightarrow> string \<Rightarrow> access_config \<Rightarrow> ('w, config_change list) step" where
  "StageAccess mrun i cfg =
     bindR (errR (ValidSSID (ac_SSID cfg))) (\<lambda>_.
     bindR (if ac_Password cfg = [] then retR () else errR (ValidWiFiPassword (ac_Password cfg))) (\<lambda>_.
     bindR (liftR (accessEncryption (ac_Security cfg))) (\<lambda>enc.
     bindR (readConfig mrun) (\<lambda>c. case network c i of None \<Rightarrow> failR (Failed ''no such Wi-Fi network'')
       | Some n \<Rightarrow> (let first' = sec_options (hd n) in
           bindR (checkR (\<not> (oget first' ''key'' = [] \<and> ac_Password cfg = [] \<and> enc \<noteq> [])) (Refused ''password'' ''a protected network needs a password'')) (\<lambda>_.
             stageFields (the mrun) n (accessFields cfg enc first')))))))"

section \<open>Laws\<close>

text \<open>The networks are the access points, each in exactly one network, together exactly when they share name, password, security and connection.\<close>

lemma placeIn_mset: "mset (concat (placeIn s ns)) = add_mset s (mset (concat ns))"
  by (induction ns) auto

lemma placeIn_keys: "[] \<notin> set ns \<Longrightarrow> map (netKey \<circ> hd) (placeIn s ns) =
    (if netKey s \<in> (netKey \<circ> hd) ` set ns then map (netKey \<circ> hd) ns else map (netKey \<circ> hd) ns @ [netKey s])"
  by (induction ns) auto

definition oneKey :: "wifi_net \<Rightarrow> bool" where
  "oneKey n \<longleftrightarrow> n \<noteq> [] \<and> (\<forall>x \<in> set n. netKey x = netKey (hd n))"

lemma oneKey_single: "oneKey [s]"
  by (simp add: oneKey_def)

lemma oneKey_snoc: "oneKey n \<Longrightarrow> netKey (hd n) = netKey s \<Longrightarrow> oneKey (n @ [s])"
  unfolding oneKey_def by (metis Un_iff append_is_Nil_conv empty_iff hd_append2 list.set(1) set_ConsD set_append)

lemma placeIn_same: "n \<in> set (placeIn s ns) \<Longrightarrow> \<forall>n \<in> set ns. oneKey n \<Longrightarrow> oneKey n"
  by (induction ns) (auto simp: oneKey_single oneKey_snoc split: if_splits)

definition grouped :: "wifi_net list \<Rightarrow> bool" where
  "grouped ns \<longleftrightarrow> distinct (map (netKey \<circ> hd) ns) \<and> (\<forall>n \<in> set ns. oneKey n)"

lemma placeIn_grouped:
  assumes "grouped ns"
  shows "grouped (placeIn s ns)"
proof -
  have "[] \<notin> set ns" using assms by (auto simp: grouped_def oneKey_def)
  from placeIn_keys [OF this, of s] have "distinct (map (netKey \<circ> hd) (placeIn s ns))"
    using assms by (auto simp: grouped_def)
  with assms placeIn_same [of _ s ns] show ?thesis unfolding grouped_def by blast
qed

lemma groupNetworks_partition: "mset (concat (groupNetworks ifaces)) = mset ifaces \<and> grouped (groupNetworks ifaces)"
proof -
  have "mset (concat (fold placeIn ifaces ns)) = mset ifaces + mset (concat ns) \<and> (grouped ns \<longrightarrow> grouped (fold placeIn ifaces ns))" for ns
    by (induction ifaces arbitrary: ns) (auto simp: placeIn_mset placeIn_grouped)
  from this [of "[]"] show ?thesis by (simp add: groupNetworks_def grouped_def)
qed

text \<open>A width is staged as a mode the radio offers, and reads back as that width.\<close>

lemma digits_end: "\<forall>c \<in> set ds. is_digit c \<Longrightarrow> p = [] \<or> \<not> is_digit (last p) \<Longrightarrow> rev (takeWhile is_digit (rev (p @ ds))) = ds"
proof -
  assume d: "\<forall>c \<in> set ds. is_digit c" and p: "p = [] \<or> \<not> is_digit (last p)"
  then have "takeWhile is_digit (rev p) = []" by (cases p rule: rev_cases) auto
  with d show ?thesis using takeWhile_append2 [of "rev ds" is_digit "rev p"] by simp
qed

lemma AtoiValue_digits: "int n < 2 ^ 63 \<Longrightarrow> AtoiValue (nat_digits n) = int n"
  using take1_nat_digits [of n] by (simp add: AtoiValue_def Let_def)

lemma widthOf_mode:
  assumes "p = [] \<or> \<not> is_digit (last p)" "0 < w" "w < 2 ^ 63"
  shows "widthOf (p @ Itoa w) = w"
proof -
  have d: "\<forall>c \<in> set (nat_digits (nat w)). is_digit c" using all_digits_nat_digits [of "nat w"] by (simp add: all_digits_def list_all_iff)
  show ?thesis
    using digits_end [OF d assms(1)] AtoiValue_digits [of "nat w"] assms(2,3) by (simp add: widthOf_def Itoa_def)
qed

lemma TrimRight_last: "TrimRight P s = [] \<or> \<not> P (last (TrimRight P s))"
proof (cases "dropWhile P (rev s)")
  case (Cons c cs)
  then have "\<not> P c" using hd_dropWhile [of P "rev s"] by simp
  with Cons show ?thesis by (simp add: TrimRight_def)
qed (simp add: TrimRight_def)

lemma htmodeFor_width:
  assumes "htmodeFor current htmodes w = Some h" "0 < w" "w < 2 ^ 63"
  shows "h \<in> set htmodes \<and> widthOf h = w"
proof -
  have "\<exists>p. h = p @ Itoa w \<and> h \<in> set htmodes \<and> (p = [] \<or> \<not> is_digit (last p))"
    using assms(1) TrimRight_last [of is_digit current]
    by (auto simp: htmodeFor_def Let_def is_digit_def split: if_splits)
  with widthOf_mode assms(2,3) show ?thesis by auto
qed

text \<open>Without a country no channel that needs radar detection is offered, and a channel that is staged is one that is offered.\<close>

lemma no_radar_without_country: "rf_country (facts mbus i) \<in> {[], ''00''} \<Longrightarrow> a \<in> set (rf_channels (facts mbus i)) \<Longrightarrow> \<not> ch_Radar a"
  by (auto simp: facts_def noFacts_def allowedChannels_def Let_def split: option.splits if_splits prod.splits)

lemma channelSettings_offered:
  "channelSettings channels channel = Inr sets \<Longrightarrow> s \<in> set sets \<Longrightarrow>
    s_value s = ''auto'' \<or> (\<exists>a \<in> set channels. s_value s = Itoa (ch_Channel a))"
  by (auto simp: channelSettings_def wirelessSetting_def setting0_def Let_def list_ex_iff split: if_splits option.splits)

text \<open>What WPA takes.\<close>

lemma ValidSSID_bounds: "ValidSSID s = None \<Longrightarrow> 1 \<le> length s \<and> length s \<le> 32"
  by (cases s) (auto simp: ValidSSID_def split: if_splits)

lemma ValidWiFiPassword_bounds: "ValidWiFiPassword p = None \<Longrightarrow> 8 \<le> length p \<and> length p \<le> 64"
  by (auto simp: ValidWiFiPassword_def split: if_splits)

text \<open>The password is never shown in a row, and never in the list of networks.\<close>

lemma accessRow_key: "From_value (accessRow s ''key'' v) \<in> {[], bullets} \<and> To_value (accessRow s ''key'' v) \<in> {[], bullets}"
  using redact_safe by (simp add: accessRow_def secretOption_def Let_def)

text \<open>
  A password given to an open network with its security left as it is (the empty \<open>Security\<close>) is staged, and the network stays open:
  only the key is written.
\<close>

lemma open_network_keeps_open:
  "oget sec ''encryption'' = ''none'' \<Longrightarrow> oget sec ''key'' = [] \<Longrightarrow> pw \<noteq> [] \<Longrightarrow> oget sec ''ssid'' = n \<Longrightarrow>
    accessEncryption [] = Inr [] \<and>
    accessFields \<lparr>ac_SSID = n, ac_Password = pw, ac_Security = []\<rparr> [] sec = [(''key'', pw)]"
  by (simp add: accessEncryption_def accessFields_def)

text \<open>The row of a country edit is the first radio's: when that one is set already, what is staged on the others has no row.\<close>

definition demo_radios :: "uci_section list" where
  "demo_radios = [\<lparr>sec_id = ''radio0'', sec_kind = ''wifi-device'', sec_options = []\<rparr>, \<lparr>sec_id = ''radio1'', sec_kind = ''wifi-device'', sec_options = []\<rparr>]"

definition demo_wireless :: uci_world where
  "demo_wireless = \<lparr>uw_cur = [''wireless.radio0.country'' \<mapsto> ''DE''], uw_live = [''wireless.radio0.country'' \<mapsto> ''DE'']\<rparr>"

lemma country_row_lost:
  "\<exists>row w'. stageCountryOn ref_uci ''DE'' demo_radios demo_wireless = (Inr [[], [row]], w') \<and> uw_cur w' ''wireless.radio1.country'' = Some ''DE''"
proof -
  have t: "TrimSpace (''DE'' @ [newline]) = ''DE''" by (simp add: TrimSpace_def TrimLeft_def TrimRight_def is_space_def)
  have n: "sectionName ''radio0''" "sectionName ''radio1''" by (simp_all add: sectionName_def word_char_def)
  show ?thesis
    using t by (simp add: demo_radios_def demo_wireless_def bindR_def stage_def n uciGet_def ref_uci_def stageKey_def wirelessSetting_def
        setting0_def isNoop_def writeSetting_def uciSet_def retR_def)
qed

end
