(* ===== verification/Guest.thy ===== *)
theory Guest
  imports Wifi Routes
begin

text \<open>
  The guest network as the router has it: \<^verbatim>\<open>internal/adapters/openwrt/wifi_guest.go\<close>, the part that reads and judges. Which sections make
  the panel's own guest network, whether guests could be kept from the home network, which protection of an existing one no longer
  holds, the private network a new one gets, and the words the panel shows. Everything here is a function of the sections of the four
  configuration files and of what the network daemon reports. Where Go ranges over a map to name the first offender, the model takes the order of
  the file. \<open>Guest_Draft\<close> holds the operations.
\<close>

section \<open>Data\<close>

definition guestSection :: string where "guestSection = ''guest''"
definition guestDevSection :: string where "guestDevSection = ''guest_dev''"
definition guestBridge :: string where "guestBridge = ''br-guest''"
definition guestPrefix :: string where "guestPrefix = ''guest_''"
definition guestZone :: string where "guestZone = ''guest''"
definition guestAssign :: int where "guestAssign = 64"

definition guestRules :: "string list" where
  "guestRules = [''guest_wan'', ''guest_dhcp'', ''guest_dns'', ''guest_icmpv6'', ''guest_dhcpv6'', ''guest_no_private4'', ''guest_no_private6'']"

definition privateV4 :: "string list" where
  "privateV4 = [''10.0.0.0/8'', ''172.16.0.0/12'', ''192.168.0.0/16'', ''100.64.0.0/10'', ''169.254.0.0/16'']"

definition privateV6 :: "string list" where "privateV6 = [''fc00::/7'']"

record guest_rule_spec =
  gr_id :: string
  gr_name :: string
  gr_opts :: "(string \<times> string) list"
  gr_lists :: "(string \<times> string list) list"

abbreviation spec :: "string \<Rightarrow> string \<Rightarrow> (string \<times> string) list \<Rightarrow> (string \<times> string list) list \<Rightarrow> guest_rule_spec" where
  "spec i n os ls \<equiv> \<lparr>gr_id = i, gr_name = n, gr_opts = os, gr_lists = ls\<rparr>"

definition guestRuleSpecs :: "string \<Rightarrow> guest_rule_spec list" where
  "guestRuleSpecs wan =
     (let src = (''src'', guestZone) in
      [spec ''guest_dhcp'' ''Guest DHCP'' [src, (''proto'', ''udp''), (''dest_port'', ''67-68''), (''target'', ''ACCEPT'')] [],
       spec ''guest_dns'' ''Guest DNS'' [src, (''proto'', ''tcp udp''), (''dest_port'', ''53''), (''target'', ''ACCEPT'')] [],
       spec ''guest_icmpv6'' ''Guest ICMPv6'' [src, (''proto'', ''icmp''), (''family'', ''ipv6''), (''target'', ''ACCEPT'')]
         [(''icmp_type'', [''router-solicitation'', ''neighbour-solicitation'', ''neighbour-advertisement''])],
       spec ''guest_dhcpv6'' ''Guest DHCPv6'' [src, (''proto'', ''udp''), (''family'', ''ipv6''), (''dest_port'', ''547''), (''target'', ''ACCEPT'')] [],
       spec ''guest_no_private4'' ''Guest no private IPv4'' [src, (''dest'', wan), (''family'', ''ipv4''), (''proto'', ''all''), (''target'', ''REJECT'')]
         [(''dest_ip'', privateV4)],
       spec ''guest_no_private6'' ''Guest no private IPv6'' [src, (''dest'', wan), (''family'', ''ipv6''), (''proto'', ''all''), (''target'', ''REJECT'')]
         [(''dest_ip'', privateV6)]])"

definition wantedOptions :: "guest_rule_spec \<Rightarrow> (string \<times> string) list" where
  "wantedOptions r =
     fold (\<lambda>(k, vs) m. AList.update k (Join vs '' '') m) (gr_lists r) (fold (\<lambda>(k, v) m. AList.update k v m) (gr_opts r) [])"

definition readsAs :: "guest_rule_spec \<Rightarrow> uci_section \<Rightarrow> bool" where
  "readsAs r s \<longleftrightarrow> sec_kind s = ''rule'' \<and>
     (let want = wantedOptions r; got = filter (\<lambda>(k, v). \<not> (k = ''name'' \<or> k = ''enabled'' \<and> v = ''1'')) (sec_options s)
      in list_all (\<lambda>(k, v). map_of want k = Some v) got \<and> length got = length want)"

definition isGuestSection :: "string \<Rightarrow> string \<Rightarrow> bool" where
  "isGuestSection config section \<longleftrightarrow>
     config \<in> {''network'', ''wireless'', ''dhcp'', ''firewall''} \<and> (section = guestSection \<or> HasPrefix section guestPrefix)"

section \<open>Whose guest network it is\<close>

abbreviation sopt :: "uci_section \<Rightarrow> string \<Rightarrow> string" where "sopt s \<equiv> oget (sec_options s)"

definition noSection :: uci_section where "noSection = \<lparr>sec_id = [], sec_kind = [], sec_options = []\<rparr>"

definition byID :: "uci_section list \<Rightarrow> string \<Rightarrow> uci_section option" where
  "byID secs i = List.find (\<lambda>s. sec_id s = i) (rev secs)"

record guest_shape =
  gs_ours :: bool
  gs_foreign :: bool
  gs_ifaces :: "uci_section list"
  gs_owned :: "uci_section list"
  gs_stray :: "uci_section list"

definition onGuest :: "uci_section \<Rightarrow> bool" where
  "onGuest s \<longleftrightarrow> guestSection \<in> set (Fields (sopt s ''network''))"

definition otherOnGuestBridge :: "uci_section \<Rightarrow> bool" where
  "otherOnGuestBridge s \<longleftrightarrow>
     (if sec_kind s \<noteq> ''interface'' \<or> sec_id s = guestSection then False
      else sopt s ''device'' = guestBridge \<or> guestBridge \<in> set (Fields (sopt s ''ifname'')))"

definition guestWireless :: "uci_section \<Rightarrow> bool" where "guestWireless s \<longleftrightarrow> HasPrefix (sec_id s) guestPrefix"

definition attached :: "uci_section \<Rightarrow> bool" where "attached s \<longleftrightarrow> sopt s ''network'' = guestSection"

definition guestFirewall :: "uci_section \<Rightarrow> bool" where
  "guestFirewall s \<longleftrightarrow> sec_id s = guestSection \<or> sec_id s \<in> set guestRules"

definition zoneNamed :: "string \<Rightarrow> uci_section \<Rightarrow> bool" where
  "zoneNamed n s \<longleftrightarrow> sec_kind s = ''zone'' \<and> sopt s ''name'' = n"

definition orphansOnly :: "uci_section list \<Rightarrow> uci_section list \<Rightarrow> uci_section list \<Rightarrow> bool" where
  "orphansOnly firewall wireless dhcp \<longleftrightarrow>
     list_ex (\<lambda>s. guestWireless s \<and> sec_kind s = ''wifi-iface'' \<and> attached s) wireless \<and>
     \<not> list_ex (\<lambda>s. guestWireless s \<and> \<not> (sec_kind s = ''wifi-iface'' \<and> attached s)) wireless \<and>
     \<not> list_ex (\<lambda>s. guestFirewall s \<or> zoneNamed guestZone s) firewall \<and>
     \<not> list_ex (\<lambda>s. sec_id s = guestSection) dhcp"

definition oursBySections :: "uci_section \<Rightarrow> uci_section \<Rightarrow> bool" where
  "oursBySections dev iface \<longleftrightarrow> sec_kind dev = ''device'' \<and> sopt dev ''name'' = guestBridge \<and>
     sec_kind iface = ''interface'' \<and> sopt iface ''device'' = guestBridge"

definition readGuestShape :: "uci_section list \<Rightarrow> uci_section list \<Rightarrow> uci_section list \<Rightarrow> uci_section list \<Rightarrow> guest_shape" where
  "readGuestShape net firewall wireless dhcp =
     (let dev = the_default noSection (byID net guestDevSection); iface = the_default noSection (byID net guestSection);
          ours = oursBySections dev iface \<or> (sec_kind dev = [] \<and> sec_kind iface = [] \<and> orphansOnly firewall wireless dhcp);
          points = filter (\<lambda>s. sec_kind s = ''wifi-iface'') wireless
      in if ours then
           \<lparr>gs_ours = True, gs_foreign = False, gs_ifaces = filter (\<lambda>s. guestWireless s \<and> attached s) points,
            gs_owned = filter guestWireless points, gs_stray = filter (\<lambda>s. \<not> guestWireless s \<and> onGuest s) points\<rparr>
         else
           \<lparr>gs_ours = False,
            gs_foreign = (sec_kind iface \<noteq> [] \<or> sec_kind dev \<noteq> [] \<or> list_ex guestFirewall firewall \<or>
              list_ex (\<lambda>s. sec_id s = guestSection) dhcp \<or>
              list_ex (\<lambda>s. guestWireless s \<or> (sec_kind s = ''wifi-iface'' \<and> onGuest s)) wireless \<or>
              list_ex (\<lambda>s. (sec_kind s = ''device'' \<and> sopt s ''name'' = guestBridge) \<or> otherOnGuestBridge s) net \<or>
              list_ex (zoneNamed guestZone) firewall),
            gs_ifaces = [], gs_owned = [], gs_stray = []\<rparr>)"

definition enabled :: "guest_shape \<Rightarrow> bool" where
  "enabled g = list_ex (\<lambda>s. sopt s ''disabled'' \<noteq> ''1'') (gs_ifaces g)"

section \<open>Words\<close>

text \<open>
  A band's place in the order: the millionths of its number as \<^verbatim>\<open>strconv.ParseFloat\<close> reads a plain decimal, \<open>0\<close> for any other text (signs,
  exponents and names like \<^verbatim>\<open>inf\<close> are not modelled; the bands of a radio are \<^verbatim>\<open>2.4\<close>, \<^verbatim>\<open>5\<close>, \<^verbatim>\<open>6\<close>, \<^verbatim>\<open>60\<close>).
\<close>

definition bandRank :: "string \<Rightarrow> nat" where
  "bandRank b =
     (case Cut b CHR ''.'' of None \<Rightarrow> if all_digits b then digits_val b * 10 ^ 6 else 0
      | Some (w, f) \<Rightarrow> if all_digits w \<and> all_digits f then digits_val w * 10 ^ 6 + digits_val (take 6 (f @ ''000000'')) else 0)"

definition bandsOf :: "uci_section list \<Rightarrow> uci_section list \<Rightarrow> string list" where
  "bandsOf radios ifaces =
     (let band = fold (\<lambda>r m. AList.update (sec_id r) (bandWord (sopt r ''band'')) m) radios []
      in fold addKey (map (\<lambda>s. oget band (sopt s ''device'')) ifaces) [])"

definition guestWords :: "guest_shape \<Rightarrow> uci_section list \<Rightarrow> string" where
  "guestWords g radios =
     (if \<not> gs_ours g then []
      else if gs_ifaces g = [] then ''off||'' @ (if gs_owned g = [] then [] else sopt (hd (gs_owned g)) ''ssid'')
      else (if enabled g then ''on'' else ''off'') @ ''|'' @ Join (sort_key bandRank (bandsOf radios (gs_ifaces g))) '','' @ ''|'' @
        sopt (hd (gs_ifaces g)) ''ssid'')"

definition guestRow :: "string \<Rightarrow> string \<Rightarrow> config_change" where
  "guestRow fromW toW =
     (let said = describe ''wireless'' ''guest'' [] in
      \<lparr>Label = ph_words said, LabelKey = ph_key said, From_value = fromW, To_value = toW, Dangerous = True,
       Detail = ''network.'' @ guestSection, Subject = []\<rparr>)"

definition lanAssignRow :: "string \<Rightarrow> string \<Rightarrow> config_change" where
  "lanAssignRow fromW toW =
     (let said = describe ''network'' ''lan'' ''ip6assign'' in
      \<lparr>Label = ph_words said, LabelKey = ph_key said, From_value = fromW, To_value = toW, Dangerous = dangerousConfig ''network'',
       Detail = ''network.'' @ lanSection @ ''.ip6assign'', Subject = []\<rparr>)"

section \<open>Addresses\<close>

definition capacity :: "int \<Rightarrow> int" where
  "capacity m = (if m \<le> 0 \<or> m > guestAssign then 0 else 2 ^ nat (guestAssign - max m (guestAssign - 16)))"

definition lanAssign :: "uci_section list \<Rightarrow> int" where
  "lanAssign net = fold (\<lambda>s a. if sec_id s = lanSection then AtoiValue (sopt s ''ip6assign'') else a) net 0"

definition ulaPrefix :: "uci_section list \<Rightarrow> string" where
  "ulaPrefix net = fold (\<lambda>s u. if sec_kind s = ''globals'' then sopt s ''ula_prefix'' else u) net []"

definition othersTake :: "uci_section list \<Rightarrow> int" where
  "othersTake net =
     sum_list (map (\<lambda>s. case Atoi (sopt s ''ip6assign'') of Some a \<Rightarrow> if a > 0 \<and> a \<le> guestAssign then capacity a else 0 | None \<Rightarrow> 0)
       (filter (\<lambda>s. \<not> (sec_kind s \<noteq> ''interface'' \<or> sec_id s = lanSection \<or> sec_id s = guestSection)) net))"

definition ulaMask :: "string \<Rightarrow> int list" where
  \<comment> \<open>the length of the prefix as \<^verbatim>\<open>net.ParseCIDR\<close> reads it\<close>
  "ulaMask ula = (case (ParseCIDR ula, Cut ula CHR ''/'') of (Some _, Some (a, n)) \<Rightarrow> [int (digits_val n)] | _ \<Rightarrow> [])"

definition guestIPv6 :: "uci_section list \<Rightarrow> ubus_address list \<Rightarrow> bool \<times> bool" where
  "guestIPv6 net prefixes =
     (let assign = lanAssign net; masks = map ua_Mask prefixes; others = othersTake net;
          home = (if assign > 0 \<and> assign \<le> guestAssign then capacity assign else 0);
          renumber = (assign > 0 \<and> assign < guestAssign \<and> \<not> list_ex (\<lambda>m. capacity m > home + others) masks);
          taken = (if renumber then 1 else home) + others
      in if list_ex (\<lambda>m. capacity m > taken) (masks @ ulaMask (ulaPrefix net)) then (True, renumber) else (False, False))"

definition delegatedPrefixes :: "ubus_interface list \<Rightarrow> ubus_address list" where
  "delegatedPrefixes ifaces = concat (map ui_IPv6Prefix ifaces)"

definition minLocalBits :: nat where "minLocalBits = 8"

definition kernelNets :: "prefix list \<Rightarrow> ipnet list" where
  "kernelNets ps =
     concat (map (\<lambda>p. case pfx_addr p of V4 a \<Rightarrow> if pfx_bits p \<ge> minLocalBits then [N4 (network4 (pfx_bits p) a) (pfx_bits p)] else []
       | V6 a z \<Rightarrow> []) ps)"

definition addNet :: "string \<Rightarrow> int \<Rightarrow> ipnet list" where
  "addNet address m =
     (case ParseCIDR (address @ ''/'' @ Itoa m) of None \<Rightarrow> [] | Some (ip, n) \<Rightarrow> if net_To4 n \<noteq> None then [n] else [])"

definition ifaceNets :: "ubus_interface list \<Rightarrow> ipnet list" where
  "ifaceNets ifaces =
     concat (map (\<lambda>i. concat (map (\<lambda>a. addNet (ua_Address a) (ua_Mask a)) (ui_IPv4Address i)) @
       concat (map (\<lambda>r. if ur_Mask r \<ge> int minLocalBits then addNet (ur_Target r) (ur_Mask r) else []) (ui_Route i))) ifaces)"

definition takenNets :: "ubus_interface list \<Rightarrow> prefix list \<Rightarrow> ipnet list" where
  "takenNets ifaces ps = kernelNets ps @ ifaceNets ifaces"

definition meets :: "ipnet \<Rightarrow> ipnet \<Rightarrow> bool" where
  \<comment> \<open>one contains the other's own address\<close>
  "meets t c \<longleftrightarrow> (case (net_To4 c, net_To4 t) of (Some a, Some b) \<Rightarrow> net_Contains t (V4 a) \<or> net_Contains c (V4 b) | _ \<Rightarrow> False)"

definition freeNet :: "ipnet list \<Rightarrow> string \<Rightarrow> bool" where
  "freeNet nets c = (case ParseCIDR c of None \<Rightarrow> False | Some (ip, n) \<Rightarrow> \<not> list_ex (\<lambda>t. meets t n) nets)"

definition guestNet :: "string \<Rightarrow> string \<Rightarrow> nat \<Rightarrow> string" where "guestNet start stop i = start @ nat_digits i @ stop"

definition guestNets :: "string list" where
  "guestNets = map (guestNet ''192.168.'' ''.0/24'') [3..<255] @ map (guestNet ''10.'' ''.0.0/24'') [3..<255]"

definition freeGuestSubnet :: "ubus_interface list \<Rightarrow> prefix list \<Rightarrow> string result" where
  "freeGuestSubnet ifaces ps =
     (case List.find (freeNet (takenNets ifaces ps)) guestNets of
        Some c \<Rightarrow> Inr c | None \<Rightarrow> Inl (Failed ''no free private network for guests''))"

section \<open>What stands in the way\<close>

record guest_state =
  st_cfg :: wifi_sections
  st_network :: "uci_section list"
  st_firewall :: "uci_section list"
  st_dhcp :: "uci_section list"
  st_shape :: guest_shape
  st_ifaces :: "ubus_interface list"
  st_ifacesErr :: "error option"

definition titleOf :: "uci_section \<Rightarrow> string" where
  "titleOf s = firstNonEmpty [sopt s ''name'', sec_id s]"

definition zoneBindsDevice :: "uci_section \<Rightarrow> string \<Rightarrow> bool" where
  "zoneBindsDevice zone dev =
     list_ex (\<lambda>d0. let d = TrimPrefix d0 ''!''; pat = TrimSuffix (TrimSuffix d ''*'') ''+'' in d = dev \<or> (pat \<noteq> d \<and> HasPrefix dev pat))
       (Fields (sopt zone ''device''))"

definition zoneTakingGuests :: "uci_section list \<Rightarrow> string" where
  "zoneTakingGuests firewall =
     (case List.find (\<lambda>s. sec_kind s = ''zone'' \<and> sec_id s \<noteq> guestSection \<and> (onGuest s \<or> zoneBindsDevice s guestBridge)) firewall of
        Some s \<Rightarrow> titleOf s | None \<Rightarrow> [])"

definition zoneHas :: "string \<Rightarrow> uci_section \<Rightarrow> bool" where
  "zoneHas n s \<longleftrightarrow> sec_kind s = ''zone'' \<and> n \<in> set (Fields (sopt s ''network''))"

definition ipv6UplinkName :: "uci_section list \<Rightarrow> ubus_interface list \<Rightarrow> string" where
  "ipv6UplinkName net ifaces =
     (let n = (case List.find (\<lambda>i. DefaultRoute6 i \<noteq> None) ifaces of Some i \<Rightarrow> ui_Name i | None \<Rightarrow> []) in
      if n \<noteq> [] then n
      else case List.find (\<lambda>s. sec_kind s = ''interface'' \<and> sopt s ''proto'' = ''dhcpv6'') net of Some s \<Rightarrow> sec_id s | None \<Rightarrow> [])"

definition ipv6UplinkZone :: "guest_state \<Rightarrow> string" where
  "ipv6UplinkZone st =
     (let n = ipv6UplinkName (st_network st) (st_ifaces st) in
      if n = [] then []
      else case List.find (zoneHas n) (st_firewall st) of Some s \<Rightarrow> sopt s ''name'' | None \<Rightarrow> [])"

definition guestOpt4 :: "uci_section list \<Rightarrow> string \<Rightarrow> string" where
  "guestOpt4 net key = (case List.find (\<lambda>s. sec_id s = guestSection) net of Some s \<Rightarrow> sopt s key | None \<Rightarrow> [])"

definition lanDeviceOf :: "uci_section list \<Rightarrow> string" where
  "lanDeviceOf net = fold (\<lambda>s d. if sec_id s = lanSection \<and> sopt s ''device'' \<noteq> [] then sopt s ''device'' else d) net ''br-lan''"

definition zoneHoldsHome :: "uci_section list \<Rightarrow> uci_section list \<Rightarrow> string \<Rightarrow> bool" where
  "zoneHoldsHome firewall net zone =
     list_ex (\<lambda>s. zoneNamed zone s \<and> (lanSection \<in> set (Fields (sopt s ''network'')) \<or> zoneBindsDevice s (lanDeviceOf net))) firewall"

definition accepting :: "uci_section \<Rightarrow> bool" where
  "accepting s \<longleftrightarrow> sopt s ''target'' = [] \<or> EqualFold (sopt s ''target'') ''ACCEPT''"

definition opensFromGuests :: "string \<Rightarrow> string list \<Rightarrow> uci_section \<Rightarrow> bool" where
  "opensFromGuests wan skip s \<longleftrightarrow>
     \<not> (sec_id s \<in> set skip \<or> sopt s ''src'' \<noteq> guestZone \<or> sopt s ''enabled'' = ''0'') \<and>
     ((sec_kind s = ''rule'' \<and> accepting s) \<or> sec_kind s = ''redirect'' \<or> (sec_kind s = ''forwarding'' \<and> sopt s ''dest'' \<noteq> wan))"

definition forwardsIntoGuests :: "uci_section \<Rightarrow> bool" where
  "forwardsIntoGuests s \<longleftrightarrow> \<not> (sec_kind s \<noteq> ''redirect'' \<or> sopt s ''enabled'' = ''0'') \<and>
     ((sopt s ''reflection'' \<noteq> ''0'' \<and> guestZone \<in> set (Fields (sopt s ''reflection_zone''))) \<or> sopt s ''dest'' = guestZone)"

definition guestOpenings :: "uci_section list \<Rightarrow> string \<Rightarrow> string list \<Rightarrow> string" where
  "guestOpenings firewall wan skip =
     (case List.find (opensFromGuests wan skip) firewall of Some s \<Rightarrow> titleOf s
      | None \<Rightarrow> (case List.find forwardsIntoGuests firewall of Some s \<Rightarrow> titleOf s | None \<Rightarrow> []))"

definition prefixOrAddr :: "string \<Rightarrow> prefix option" where
  \<comment> \<open>\<^verbatim>\<open>ParsePrefix\<close>, or \<^verbatim>\<open>PrefixFrom(a, a.BitLen())\<close> of an address, which drops a zone\<close>
  "prefixOrAddr v =
     (case ParsePrefix v of Some p \<Rightarrow> Some p
      | None \<Rightarrow> (case ParseAddr v of None \<Rightarrow> None
        | Some a \<Rightarrow> Some \<lparr>pfx_addr = (case a of V4 x \<Rightarrow> V4 x | V6 x z \<Rightarrow> V6 x []), pfx_bits = BitLen a\<rparr>))"

definition hazard :: "string \<Rightarrow> bool" where
  "hazard v \<longleftrightarrow> HasPrefix v ''!'' \<or>
     (case prefixOrAddr (TrimPrefix v ''!'') of None \<Rightarrow> True | Some p \<Rightarrow> \<not> Is4 (pfx_addr p) \<or> pfx_bits p < minLocalBits)"

definition otherZone :: "uci_section \<Rightarrow> bool" where "otherZone s \<longleftrightarrow> sec_kind s = ''zone'' \<and> sec_id s \<noteq> guestSection"

definition subnetHazard :: "uci_section list \<Rightarrow> string" where
  "subnetHazard firewall =
     (case List.find (\<lambda>s. otherZone s \<and> list_ex hazard (Fields (sopt s ''subnet''))) firewall of
        Some s \<Rightarrow> titleOf s | None \<Rightarrow> [])"

definition configuredPrefix :: "string \<Rightarrow> string \<Rightarrow> prefix list" where
  "configuredPrefix address m =
     (case ParsePrefix address of Some p \<Rightarrow> [Masked p]
      | None \<Rightarrow> (case ParseAddr address of
          Some (V4 a) \<Rightarrow> [Masked \<lparr>pfx_addr = V4 a, pfx_bits = (case ParseIP4 m of Some m4 \<Rightarrow> fst (mask_Size m4) | None \<Rightarrow> 32)\<rparr>]
        | _ \<Rightarrow> []))"

definition configuredPrefixes :: "uci_section list \<Rightarrow> prefix list" where
  "configuredPrefixes net =
     concat (map (\<lambda>s.
       if sec_kind s = ''interface'' then concat (map (\<lambda>a. configuredPrefix a (sopt s ''netmask'')) (Fields (sopt s ''ipaddr'')))
       else if sec_kind s = ''route'' then configuredPrefix (sopt s ''target'') (sopt s ''netmask'') else []) net)"

definition zoneSubnets :: "uci_section list \<Rightarrow> (string \<times> prefix) list" where
  "zoneSubnets firewall =
     concat (map (\<lambda>s. List.map_filter (\<lambda>v. if HasPrefix v ''!'' then None else map_option (\<lambda>p. (titleOf s, Masked p)) (prefixOrAddr v))
       (Fields (sopt s ''subnet''))) (filter otherZone firewall))"

definition pfx_Overlaps :: "prefix \<Rightarrow> prefix \<Rightarrow> bool" where
  "pfx_Overlaps p q \<longleftrightarrow>
     (let n = min (pfx_bits p) (pfx_bits q) in
      case (pfx_addr p, pfx_addr q) of
        (V4 a, V4 b) \<Rightarrow> network4 n a = network4 n b
      | (V6 a y, V6 b z) \<Rightarrow> network6 n a = network6 n b
      | _ \<Rightarrow> False)"

section \<open>The uplink's zone\<close>

definition uplinkCandidates :: "ubus_interface list \<Rightarrow> network_interface list" where
  "uplinkCandidates ifaces =
     map (\<lambda>i. \<lparr>if_Name = ui_Name i, if_Device = [], if_Up = False, if_Proto = [], if_UptimeSec = 0, if_IPv4 = [], if_IPv6 = [],
         if_Gateway = [], if_Gateway6 = [], if_DNS = []\<rparr>)
       (filter (\<lambda>i. \<not> (ui_Name i \<in> set loopbackNames \<or> \<not> (DefaultRoute i \<noteq> None \<or> DefaultRoute6 i \<noteq> None))) ifaces)"

definition pickUplink :: "ubus_interface list \<Rightarrow> string" where
  "pickUplink ifaces =
     (case uplinkCandidates ifaces of [] \<Rightarrow> []
      | [c] \<Rightarrow> if_Name c
      | c # cs \<Rightarrow> (case pickByName (c # cs) of Some d \<Rightarrow> if_Name d | None \<Rightarrow> if_Name c))"

definition uplinkZone :: "uci_section list \<Rightarrow> ubus_interface list \<Rightarrow> string \<times> string list" where
  "uplinkZone firewall ifaces =
     (let uplink = pickUplink ifaces in
      if uplink \<noteq> [] then
        (case List.find (zoneHas uplink) firewall of Some s \<Rightarrow> (sopt s ''name'', Fields (sopt s ''network'')) | None \<Rightarrow> ([], []))
      else (case List.find (zoneNamed ''wan'') firewall of Some s \<Rightarrow> (''wan'', Fields (sopt s ''network'')) | None \<Rightarrow> ([], [])))"

definition skipsGuests :: "uci_section \<Rightarrow> string option" where
  "skipsGuests s =
     (let only = Fields (sopt s ''interface''); skip = Fields (sopt s ''notinterface'') in
      if only \<noteq> [] \<and> guestSection \<notin> set only \<and> guestBridge \<notin> set only then Some (sopt s ''interface'')
      else if guestSection \<in> set skip \<or> guestBridge \<in> set skip then Some (sopt s ''notinterface'') else None)"

definition dhcpSkipsGuests :: "uci_section list \<Rightarrow> string" where
  "dhcpSkipsGuests dhcp =
     (case List.map_filter skipsGuests (filter (\<lambda>s. sec_kind s = ''dnsmasq'') dhcp) of [] \<Rightarrow> [] | l # ls \<Rightarrow> l)"

section \<open>Which protection no longer holds\<close>

definition closedPolicy :: "string \<Rightarrow> bool" where
  "closedPolicy v \<longleftrightarrow> EqualFold v ''REJECT'' \<or> EqualFold v ''DROP''"

text \<open>Each check names the offender, the empty string when it holds; the first that does not hold is the answer.\<close>

definition firstOf :: "string list \<Rightarrow> string" where "firstOf = firstNonEmpty"

definition fw :: "string \<Rightarrow> string" where "fw s = ''firewall.'' @ s"

definition zoneWeakened :: "uci_section list \<Rightarrow> string" where
  "zoneWeakened firewall =
     (case byID firewall guestSection of None \<Rightarrow> fw guestSection
      | Some z \<Rightarrow>
          if sec_kind z \<noteq> ''zone'' then fw guestSection
          else if \<not> closedPolicy (sopt z ''input'') then fw (guestSection @ ''.input'')
          else if \<not> closedPolicy (sopt z ''forward'') then fw (guestSection @ ''.forward'')
          else if sopt z ''name'' \<noteq> guestZone \<or> sopt z ''network'' \<noteq> guestSection then fw (guestSection @ ''.network'')
          else (case List.find (\<lambda>k. k \<notin> {''name'', ''network'', ''input'', ''output'', ''forward''}) (map fst (sec_options z)) of
              Some k \<Rightarrow> fw (guestSection @ ''.'' @ k) | None \<Rightarrow> []))"

definition bridgeOptions :: "(string \<times> string) list" where
  "bridgeOptions = [(''name'', guestBridge), (''type'', ''bridge''), (''bridge_empty'', ''1'')]"

definition bridgeWeakened :: "uci_section list \<Rightarrow> string" where
  "bridgeWeakened net =
     (case List.find (\<lambda>(k, v). map_of bridgeOptions k \<noteq> Some v) (concat (map sec_options (filter (\<lambda>s. sec_id s = guestDevSection) net))) of
        Some (k, v) \<Rightarrow> ''network.'' @ guestDevSection @ ''.'' @ k | None \<Rightarrow> [])"

definition boundWeakened :: "uci_section list \<Rightarrow> string" where
  "boundWeakened firewall =
     (case byID firewall guestSection of Some z \<Rightarrow> if sopt z ''device'' \<noteq> [] \<or> sopt z ''subnet'' \<noteq> [] then fw (guestSection @ ''.device'') else []
      | None \<Rightarrow> [])"

definition neighbourWeakened :: "uci_section list \<Rightarrow> string" where
  "neighbourWeakened net = (case List.find otherOnGuestBridge net of Some s \<Rightarrow> ''network.'' @ sec_id s | None \<Rightarrow> [])"

definition hazardWeakened :: "uci_section list \<Rightarrow> string" where
  "hazardWeakened firewall = (let n = subnetHazard firewall in if n \<noteq> [] then fw (n @ ''.subnet'') else [])"

definition guestSubnetOf :: "uci_section list \<Rightarrow> prefix list" where
  "guestSubnetOf net =
     concat (map (\<lambda>a. configuredPrefix a (firstNonEmpty [guestOpt4 net ''netmask'', ''255.255.255.0''])) (Fields (guestOpt4 net ''ipaddr'')))"

definition coveredWeakened :: "uci_section list \<Rightarrow> uci_section list \<Rightarrow> string" where
  "coveredWeakened firewall net =
     (case guestSubnetOf net of
        [g] \<Rightarrow> (case List.find (\<lambda>(n, p). pfx_Overlaps p g) (zoneSubnets firewall) of Some (n, p) \<Rightarrow> fw (n @ ''.subnet'') | None \<Rightarrow> [])
      | _ \<Rightarrow> [])"

definition forwardingWeakened :: "uci_section list \<Rightarrow> ubus_interface list \<Rightarrow> string" where
  "forwardingWeakened firewall ifaces =
     (case byID firewall ''guest_wan'' of None \<Rightarrow> fw ''guest_wan''
      | Some f \<Rightarrow>
          if sec_kind f \<noteq> ''forwarding'' \<or> sopt f ''src'' \<noteq> guestZone \<or> sopt f ''enabled'' = ''0'' then fw ''guest_wan''
          else if sopt f ''dest'' \<noteq> fst (uplinkZone firewall ifaces) then fw ''guest_wan.dest'' else [])"

definition takenWeakened :: "uci_section list \<Rightarrow> string" where
  "takenWeakened firewall = (let n = zoneTakingGuests firewall in if n \<noteq> [] then fw n else [])"

definition rulesWeakened :: "uci_section list \<Rightarrow> string \<Rightarrow> string" where
  "rulesWeakened firewall wan =
     (case List.find (\<lambda>r. case byID firewall (gr_id r) of None \<Rightarrow> True | Some s \<Rightarrow> \<not> readsAs r s) (guestRuleSpecs wan) of
        Some r \<Rightarrow> fw (gr_id r) | None \<Rightarrow> [])"

definition openingsWeakened :: "uci_section list \<Rightarrow> string \<Rightarrow> string" where
  "openingsWeakened firewall wan =
     (let n = guestOpenings firewall wan (map gr_id (guestRuleSpecs wan)) in if n \<noteq> [] then fw n else [])"

definition pointsWeakened :: "guest_shape \<Rightarrow> string" where
  "pointsWeakened g =
     (case List.find (\<lambda>s. \<not> attached s) (gs_owned g) of Some s \<Rightarrow> ''wireless.'' @ sec_id s @ ''.network''
      | None \<Rightarrow>
          if gs_stray g \<noteq> [] then ''wireless.'' @ firstNonEmpty [sopt (hd (gs_stray g)) ''ssid'', sec_id (hd (gs_stray g))]
          else (case List.find (\<lambda>s. sopt s ''isolate'' \<noteq> ''1'' \<or> sopt s ''bridge_isolate'' \<noteq> ''1'') (gs_ifaces g) of
              Some s \<Rightarrow> ''wireless.'' @ sec_id s @ (if sopt s ''isolate'' \<noteq> ''1'' then ''.isolate'' else ''.bridge_isolate'') | None \<Rightarrow> []))"

definition guestWeakened :: "guest_state \<Rightarrow> string" where
  "guestWeakened st =
     (let firewall = st_firewall st; net = st_network st; wan = fst (uplinkZone firewall (st_ifaces st)) in
      firstOf [zoneWeakened firewall, bridgeWeakened net, boundWeakened firewall, neighbourWeakened net, hazardWeakened firewall,
        coveredWeakened firewall net, forwardingWeakened firewall (st_ifaces st), takenWeakened firewall, rulesWeakened firewall wan,
        openingsWeakened firewall wan, pointsWeakened (st_shape st)])"

definition noNAT :: "string \<Rightarrow> uci_section \<Rightarrow> bool" where
  "noNAT zone s \<longleftrightarrow> zoneNamed zone s \<and> (sopt s ''masq'' \<noteq> ''1'' \<or> sopt s ''masq_src'' \<noteq> [] \<or> sopt s ''masq_dest'' \<noteq> [])"

definition fromEverywhere :: "uci_section \<Rightarrow> bool" where
  "fromEverywhere s \<longleftrightarrow> \<not> (sopt s ''src'' \<noteq> ''*'' \<or> sopt s ''enabled'' = ''0'') \<and>
     ((sec_kind s = ''rule'' \<and> accepting s) \<or> sec_kind s = ''forwarding'' \<or> sec_kind s = ''redirect'')"

definition beforeGuests :: "guest_state \<Rightarrow> string \<Rightarrow> string" where
  \<comment> \<open>what an earlier guest network left, while there is none\<close>
  "beforeGuests st zone = firstOf [guestOpenings (st_firewall st) zone [], zoneTakingGuests (st_firewall st), subnetHazard (st_firewall st)]"

definition guestBlocker :: "guest_state \<Rightarrow> string \<times> string" where
  "guestBlocker st =
     (let (zone, nets) = uplinkZone (st_firewall st) (st_ifaces st); z6 = ipv6UplinkZone st; skips = dhcpSkipsGuests (st_dhcp st) in
      if zone = [] then (''no-uplink'', [])
      else if lanSection \<in> set nets \<or> zoneHoldsHome (st_firewall st) (st_network st) zone then (''shared-zone'', zone)
      else if list_ex (noNAT zone) (st_firewall st) then (''no-nat'', zone)
      else if z6 \<noteq> [] \<and> z6 \<noteq> zone then (''split-uplink'', z6)
      else (case List.find fromEverywhere (st_firewall st) of Some s \<Rightarrow> (''open-rule'', titleOf s)
        | None \<Rightarrow>
            if skips \<noteq> [] then (''no-dhcp'', skips)
            else if gs_ours (st_shape st) then (let what = guestWeakened st in if what \<noteq> [] then (''weakened'', what) else ([], []))
            else (let n = beforeGuests st zone in if n \<noteq> [] then (''guest-rule'', n) else ([], []))))"

section \<open>A free network\<close>

lemma network4_nested: "m \<le> n \<Longrightarrow> n \<le> 32 \<Longrightarrow> network4 m (network4 n a) = network4 m a"
  by (rule bit_eqI) (auto simp: network4_def bit_and_iff bit_netmask4)

lemma network4_wide: "32 \<le> n \<Longrightarrow> network4 n a = a"
  by (simp add: network4_def netmask4_def)

lemma network4_coarser: "m \<le> n \<Longrightarrow> network4 n a = network4 n b \<Longrightarrow> network4 m a = network4 m b"
proof (cases "n \<le> 32")
  case True
  assume "m \<le> n" "network4 n a = network4 n b"
  with network4_nested [OF _ True] show ?thesis by metis
qed (simp add: network4_wide)

text \<open>Two networks share an address exactly when one holds the other's own address.\<close>

lemma meets_share:
  assumes "net_Contains (N4 b n) (V4 x)" "net_Contains (N4 a m) (V4 x)"
  shows "meets (N4 b n) (N4 a m)"
proof (cases "n \<le> m")
  case True
  with assms network4_coarser [OF True, of x a] show ?thesis by (simp add: meets_def)
next
  case False
  then have "m \<le> n" by simp
  from assms network4_coarser [OF this, of x b] show ?thesis by (simp add: meets_def)
qed

lemma takenNets_N4: "t \<in> set (takenNets ifaces ps) \<Longrightarrow> \<exists>b n. t = N4 b n"
proof -
  have "\<exists>b n. t = N4 b n" if "net_To4 t \<noteq> None" for t using that by (cases t) auto
  then show "t \<in> set (takenNets ifaces ps) \<Longrightarrow> \<exists>b n. t = N4 b n"
    by (auto simp: takenNets_def kernelNets_def ifaceNets_def addNet_def split: addr.splits option.splits if_splits)
qed

lemma Cut_first: "sep \<notin> set a \<Longrightarrow> Cut (a @ sep # b) sep = Some (a, b)"
  by (simp add: Cut_Some)

lemma ParseCIDR_string4: "n \<le> 32 \<Longrightarrow> ParseCIDR (ip4_string a @ ''/'' @ nat_digits n) = Some (V4 a, N4 (network4 n a) n)"
  by (simp add: ParseCIDR_def Cut_first [OF digits_no_slash] ParseAddr_ip4)

lemma network4_24: "network4 24 (push_bit 8 x) = push_bit 8 x"
  by (rule bit_eqI) (auto simp: network4_def bit_and_iff bit_netmask4 bit_push_bit_iff)

lemma guestBase_base: "network4 24 (ip4_of [a, b, c, 0]) = ip4_of [a, b, c, 0]"
proof -
  have "ip4_of [a, b, c, 0] = push_bit 8 ((of_nat a * 256 + of_nat b) * 256 + of_nat c)"
    by (simp add: ip4_of_def push_bit_eq_mult)
  then show ?thesis by (simp add: network4_24)
qed

lemma some_digits: "nat_digits 192 = ''192''" "nat_digits 168 = ''168''" "nat_digits 10 = ''10''" "nat_digits 0 = ''0''" "nat_digits 24 = ''24''"
  by code_simp+

lemma guestNet_string:
  assumes "i < 256"
  shows "guestNet ''192.168.'' ''.0/24'' i = ip4_string (ip4_of [192, 168, i, 0]) @ ''/'' @ nat_digits 24"
    and "guestNet ''10.'' ''.0.0/24'' i = ip4_string (ip4_of [10, i, 0, 0]) @ ''/'' @ nat_digits 24"
  using assms by (simp_all add: guestNet_def ip4_string_def octets4_ip4_of some_digits)

definition guestRange :: "ip4 \<Rightarrow> bool" where
  "guestRange b \<longleftrightarrow> (\<exists>i. 3 \<le> i \<and> i < 255 \<and> (b = ip4_of [192, 168, i, 0] \<or> b = ip4_of [10, i, 0, 0]))"

lemma guestNets_in: "c \<in> set guestNets \<longleftrightarrow> (\<exists>i. 3 \<le> i \<and> i < 255 \<and> (c = guestNet ''192.168.'' ''.0/24'' i \<or> c = guestNet ''10.'' ''.0.0/24'' i))"
  unfolding guestNets_def set_append set_map set_upt by auto

lemma guestNets_parse:
  assumes "c \<in> set guestNets"
  shows "\<exists>b. guestRange b \<and> c = ip4_string b @ ''/'' @ nat_digits 24 \<and> network4 24 b = b \<and> ParseCIDR c = Some (V4 b, N4 b 24)"
proof -
  from assms obtain i where i: "3 \<le> i" "i < 255" "c = guestNet ''192.168.'' ''.0/24'' i \<or> c = guestNet ''10.'' ''.0.0/24'' i"
    unfolding guestNets_in by blast
  then have "i < 256" by simp
  note g = guestNet_string [OF this]
  obtain b where b: "b = ip4_of [192, 168, i, 0] \<or> b = ip4_of [10, i, 0, 0]" "c = ip4_string b @ ''/'' @ nat_digits 24"
    using i(3) unfolding g by blast
  have n: "network4 24 b = b" using b(1) guestBase_base by (elim disjE) (simp_all only:)
  have "ParseCIDR c = Some (V4 b, N4 (network4 24 b) 24)" unfolding b(2) by (rule ParseCIDR_string4) simp
  then have "ParseCIDR c = Some (V4 b, N4 b 24)" by (simp only: n)
  moreover have "guestRange b" unfolding guestRange_def using i(1,2) b(1) by blast
  ultimately show ?thesis using n b(2) by blast
qed

lemma freeNet_apart:
  assumes "freeNet (takenNets ifaces ps) c" "ParseCIDR c = Some (ip, N4 b n)" "t \<in> set (takenNets ifaces ps)"
  shows "\<not> (net_Contains t (V4 x) \<and> net_Contains (N4 b n) (V4 x))"
proof -
  obtain d m where t: "t = N4 d m" using takenNets_N4 [OF assms(3)] by blast
  from assms have "\<not> meets t (N4 b n)" by (auto simp: freeNet_def list_ex_iff)
  with meets_share t show ?thesis by blast
qed

text \<open>
  C39. The network a guest network gets is free and private: a /24 from 192.168.3.0 to 192.168.254.0 or from 10.3.0.0 to 10.254.0.0,
  and no address of it belongs to any network the router has - an address of a connection, a route, a route of the kernel or a range
  a zone is bound to.
\<close>

theorem guest_subnet_is_free:
  assumes "freeGuestSubnet ifaces ps = Inr c"
  shows "\<exists>b. guestRange b \<and> ParseCIDR c = Some (V4 b, N4 b 24) \<and>
    (\<forall>t \<in> set (takenNets ifaces ps). \<forall>x. \<not> (net_Contains t (V4 x) \<and> net_Contains (N4 b 24) (V4 x)))"
proof -
  from assms have c: "c \<in> set guestNets" "freeNet (takenNets ifaces ps) c"
    by (auto simp: freeGuestSubnet_def find_Some_iff split: option.splits)
  from guestNets_parse [OF c(1)] obtain b where b: "guestRange b" "ParseCIDR c = Some (V4 b, N4 b 24)" by blast
  with freeNet_apart [OF c(2) b(2)] show ?thesis by blast
qed

definition demo_upstream :: ubus_interface where
  "demo_upstream = \<lparr>ui_Name = ''wan'', ui_Up = True, ui_Pending = False, ui_Available = True, ui_Autostart = True, ui_Dynamic = False,
     ui_Uptime = 60, ui_Proto = ''dhcp'', ui_Device = ''eth1'', ui_L3Device = ''eth1'', ui_IPv4Address = [\<lparr>ua_Address = ''192.168.3.7'', ua_Mask = 24\<rparr>],
     ui_IPv6Address = [], ui_IPv6Prefix = [], ui_Route = [\<lparr>ur_Target = ''0.0.0.0'', ur_Mask = 0, ur_Nexthop = ''192.168.3.1'', ur_Source = []\<rparr>],
     ui_DNSServer = []\<rparr>"

lemma demo_taken: "takenNets [demo_upstream] [] = [N4 0xC0A80300 24]"
  by code_simp

lemma demo_free: "freeGuestSubnet [demo_upstream] [] = Inr ''192.168.4.0/24''"
proof -
  have n: "guestNets = guestNet ''192.168.'' ''.0/24'' 3 # guestNet ''192.168.'' ''.0/24'' 4 # drop 2 guestNets"
  proof -
    have "[3..<255] = 3 # 4 # [5..<255 :: nat]" by (simp only: upt_conv_Cons [of 3] upt_conv_Cons [of 4]) simp
    then show ?thesis unfolding guestNets_def by (simp only: list.map append_Cons drop_Suc_Cons numeral_2_eq_2 drop0)
  qed
  have "\<not> freeNet [N4 0xC0A80300 24] (guestNet ''192.168.'' ''.0/24'' 3)" "freeNet [N4 0xC0A80300 24] (guestNet ''192.168.'' ''.0/24'' 4)"
    "guestNet ''192.168.'' ''.0/24'' 4 = ''192.168.4.0/24''"
    by code_simp+
  then show ?thesis unfolding freeGuestSubnet_def demo_taken by (subst n) simp
qed

theorem guest_subnet_is_free_witness:
  "\<exists>b. guestRange b \<and> ParseCIDR ''192.168.4.0/24'' = Some (V4 b, N4 b 24) \<and>
    (\<forall>x. \<not> (net_Contains (N4 0xC0A80300 24) (V4 x) \<and> net_Contains (N4 b 24) (V4 x)))"
  using guest_subnet_is_free [OF demo_free] unfolding demo_taken by simp

end
