(* ===== verification/Guest_Draft.thy ===== *)
theory Guest_Draft
  imports Guest Committed
begin

text \<open>
  The operations of \<^verbatim>\<open>internal/adapters/openwrt/wifi_guest.go\<close>: reading the guest network's state, staging a new one, turning it off and on,
  removing it, folding its lines of a draft into one row; and the whole Wi-Fi screen (\<^verbatim>\<open>Status\<close> of \<^verbatim>\<open>wifi.go\<close>). Parameters: the programs \<open>run\<close>, the
  bus \<open>mbus\<close>, the network daemon's list of connections \<open>dump\<close> (\<open>None\<close> without a bus), the files \<open>files\<close>, the link directories \<open>fs\<close>. The kernel's routes are
  a list of prefixes. When a step fails, \<^verbatim>\<open>errors.Join\<close> returns the cause and the errors of the reverts; the cause is what the model keeps.
\<close>

section \<open>Reading\<close>

abbreviation showConfig :: "'w runner \<Rightarrow> string \<Rightarrow> ('w, string) step" where
  "showConfig run c \<equiv> run ''uci'' [''-q'', ''show'', c]"

definition guestStateOf ::
  "wifi_sections \<Rightarrow> uci_section list \<Rightarrow> uci_section list \<Rightarrow> uci_section list \<Rightarrow> ubus_interface list result option \<Rightarrow> guest_state" where
  "guestStateOf cfg net firewall dhcp dump =
     \<lparr>st_cfg = cfg, st_network = net, st_firewall = firewall, st_dhcp = dhcp,
      st_shape = readGuestShape net firewall (wc_all cfg) dhcp,
      st_ifaces = (case dump of Some (Inr is) \<Rightarrow> is | _ \<Rightarrow> []),
      st_ifacesErr = (case dump of None \<Rightarrow> Some (Failed ''not implemented'') | Some (Inl e) \<Rightarrow> Some e | Some (Inr is) \<Rightarrow> None)\<rparr>"

definition guestStateFor :: "'w runner \<Rightarrow> ubus_interface list result option \<Rightarrow> wifi_sections \<Rightarrow> ('w, guest_state) step" where
  "guestStateFor run dump cfg =
     bindR (wrapR (Failed ''read network'') (showConfig run ''network'')) (\<lambda>nw.
     bindR (wrapR (Failed ''read firewall'') (showConfig run ''firewall'')) (\<lambda>fwall.
     bindR (wrapR (Failed ''read dhcp'') (showConfig run ''dhcp'')) (\<lambda>dh.
       retR (guestStateOf cfg (parseUCISections nw) (parseUCISections fwall) (parseUCISections dh) dump))))"

definition readGuestState :: "'w runner option \<Rightarrow> ubus_interface list result option \<Rightarrow> ('w, guest_state) step" where
  "readGuestState mrun dump = bindR (readConfig mrun) (guestStateFor (the mrun) dump)"

definition readCommitted :: "'w runner \<Rightarrow> 'w link_fs \<Rightarrow> string \<Rightarrow> ('w, uci_section list) step" where
  "readCommitted run fs c =
     bindR (withCommitted fs c (\<lambda>dir alias. run ''uci'' [''-q'', ''-c'', dir, ''show'', alias])) (\<lambda>out. retR (parseUCISections out))"

definition wifiSectionsOf :: "uci_section list \<Rightarrow> wifi_sections" where
  "wifiSectionsOf secs =
     \<lparr>wc_radios = filter (\<lambda>s. sec_kind s = ''wifi-device'') secs,
      wc_ifaces = filter (\<lambda>s. sec_kind s = ''wifi-iface'' \<and> sopt s ''mode'' = ''ap'') secs, wc_all = secs\<rparr>"

definition guestStateCommitted :: "'w runner \<Rightarrow> 'w link_fs \<Rightarrow> ubus_interface list \<Rightarrow> ('w, guest_state) step" where
  \<comment> \<open>Go ranges over a map of the last three files: their order is open\<close>
  "guestStateCommitted run fs ifaces =
     bindR (readCommitted run fs ''wireless'') (\<lambda>wl.
     bindR (readCommitted run fs ''network'') (\<lambda>nw.
     bindR (readCommitted run fs ''firewall'') (\<lambda>fwall.
     bindR (readCommitted run fs ''dhcp'') (\<lambda>dh.
     bindR (checkR (fwall \<noteq> []) (Failed ''no committed firewall configuration read'')) (\<lambda>_.
       retR (guestStateOf (wifiSectionsOf wl) nw fwall dh (Some (Inr ifaces))))))))"

definition netifdWirelessScript :: string where "netifdWirelessScript = ''/lib/netifd/netifd-wireless.sh''"

definition guestSupported :: "(string \<Rightarrow> string result) \<Rightarrow> wifi_sections \<Rightarrow> bool" where
  "guestSupported files cfg \<longleftrightarrow> wc_radios cfg \<noteq> [] \<and>
     (case files netifdWirelessScript of Inl e \<Rightarrow> False | Inr b \<Rightarrow> Contains b ''bridge_isolate'')"

section \<open>The card\<close>

record wifi_guest =
  g_State :: string
  g_Network :: string
  g_OnAir :: bool
  g_IPv6 :: bool
  g_RenumbersHome :: bool
  g_Blocked :: string
  g_BlockedBy :: string

definition onAir :: "wifi_bus option \<Rightarrow> string \<Rightarrow> bool" where
  "onAir mbus ifname \<longleftrightarrow> fst (apState mbus ifname) = RadioUp"

definition guestStatus :: "wifi_bus option \<Rightarrow> (string \<Rightarrow> string result) \<Rightarrow> guest_state \<Rightarrow> (string \<times> string) list \<Rightarrow> wifi_guest option" where
  "guestStatus mbus files st ifnames =
     (if \<not> guestSupported files (st_cfg st) then None
      else let (ipv6, renumber) = guestIPv6 (st_network st) (delegatedPrefixes (st_ifaces st)); (kind, by) = guestBlocker st; g = st_shape st;
               base = \<lparr>g_State = ''none'', g_Network = [], g_OnAir = False, g_IPv6 = ipv6, g_RenumbersHome = renumber, g_Blocked = kind, g_BlockedBy = by\<rparr>
        in Some (
          if gs_ours g \<and> gs_owned g \<noteq> [] then
            (let points = (if gs_ifaces g = [] then gs_owned g else gs_ifaces g)
             in base\<lparr>g_State := (if enabled (g\<lparr>gs_ifaces := points\<rparr>) then ''on'' else ''off''), g_RenumbersHome := False,
                  g_OnAir := list_ex (\<lambda>s. case map_of ifnames (sec_id s) of Some i \<Rightarrow> onAir mbus i | None \<Rightarrow> False) points,
                  g_Network := sec_id (hd points)\<rparr>)
          else if gs_ours g then base\<lparr>g_State := ''off'', g_RenumbersHome := False\<rparr>
          else if gs_foreign g then base\<lparr>g_State := ''foreign'', g_RenumbersHome := False\<rparr>
          else base\<lparr>g_OnAir := list_ex (\<lambda>(sec, i). HasPrefix sec guestPrefix \<and> onAir mbus i) ifnames\<rparr>))"

section \<open>Taking a failed edit back\<close>

definition firstOnly :: "string list \<Rightarrow> string list" where
  "firstOnly ks = rev (remdups (rev ks))"

fun revertKeys :: "'w runner \<Rightarrow> string list \<Rightarrow> 'w \<Rightarrow> 'w" where
  "revertKeys run [] w = w"
| "revertKeys run (k # ks) w = revertKeys run ks (snd (revertKey run k w))"

definition discard :: "'w runner \<Rightarrow> string list \<Rightarrow> 'w \<Rightarrow> 'w" where
  "discard run keys w = revertKeys run (firstOnly keys) w"

definition sectionOf :: "string \<Rightarrow> string" where
  "sectionOf key = (case SplitN 3 key CHR ''.'' of a # b # r \<Rightarrow> a @ ''.'' @ b | _ \<Rightarrow> key)"

fun setKeys :: "'w runner \<Rightarrow> string list \<Rightarrow> (string \<times> string) list \<Rightarrow> ('w, unit) step" where
  "setKeys run touched [] w = (Inr (), w)"
| "setKeys run touched ((k, v) # kvs) w =
     (case uciSet run k v w of (Some e, w') \<Rightarrow> (Inl e, discard run touched w') | (None, w') \<Rightarrow> setKeys run touched kvs w')"

fun addLists :: "'w runner \<Rightarrow> string list \<Rightarrow> (string \<times> string) list \<Rightarrow> ('w, unit) step" where
  "addLists run touched [] w = (Inr (), w)"
| "addLists run touched ((k, v) # kvs) w =
     (case run ''uci'' [''add_list'', k @ ''='' @ v] w of
        (Inl e, w') \<Rightarrow> (Inl (Failed ''stage''), discard run touched w') | (Inr out, w') \<Rightarrow> addLists run touched kvs w')"

section \<open>Making one\<close>

record guest_config =
  gc_SSID :: string
  gc_Password :: string
  gc_Security :: string
  gc_Radios :: "string list"

definition requestedRadios :: "wifi_sections \<Rightarrow> string list \<Rightarrow> string list" where
  "requestedRadios cfg asked =
     (let radios = firstOnly asked in
      if radios = [] then map sec_id (filter (\<lambda>r. bandWord (sopt r ''band'') \<noteq> ''6'') (wc_radios cfg)) else radios)"

definition radioProblem :: "wifi_sections \<Rightarrow> string \<Rightarrow> error option" where
  "radioProblem cfg i =
     (case radio cfg i of None \<Rightarrow> Some (Refused ''radios'' ''no such radio'')
      | Some r \<Rightarrow> if bandWord (sopt r ''band'') = ''6'' then Some (Refused ''radios'' ''6 GHz allows WPA3 only'')
          else if \<not> sectionName i then Some (Refused ''radios'' ''the radio has no name'') else None)"

definition radiosProblem :: "wifi_sections \<Rightarrow> string list \<Rightarrow> error option" where
  "radiosProblem cfg radios =
     (if radios = [] then Some (Refused ''radios'' ''no radio a guest network can use'')
      else case List.map_filter (radioProblem cfg) radios of e # es \<Rightarrow> Some e | [] \<Rightarrow> None)"

definition guestSecurity :: "string \<Rightarrow> string result" where
  "guestSecurity security =
     (let enc = encryptionFor (if security = [] then WiFiWPA2WPA3 else security)
      in if enc = [] then Inl (Refused ''security'' ''not offered'') else Inr enc)"

definition firstHost :: "string \<Rightarrow> string" where
  "firstHost subnet = (case ParseCIDR subnet of Some (V4 a, n) \<Rightarrow> ip4_string (and a (not 0xFF) + 1) | _ \<Rightarrow> [])"

definition networkSets :: "string \<Rightarrow> bool \<Rightarrow> (string \<times> string) list" where
  "networkSets address renumber =
     (let n = ''network.''; dev = n @ guestDevSection; g = n @ guestSection in
      [(dev, ''device''), (dev @ ''.name'', guestBridge), (dev @ ''.type'', ''bridge''), (dev @ ''.bridge_empty'', ''1''),
       (g, ''interface''), (g @ ''.device'', guestBridge), (g @ ''.proto'', ''static''), (g @ ''.ipaddr'', address),
       (g @ ''.netmask'', ''255.255.255.0''), (g @ ''.ip6assign'', Itoa guestAssign)] @
      (if renumber then [(n @ lanSection @ ''.ip6assign'', Itoa guestAssign)] else []))"

definition pointSets :: "guest_config \<Rightarrow> string \<Rightarrow> string \<Rightarrow> (string \<times> string) list" where
  "pointSets cfg enc i =
     (let w = ''wireless.'' @ guestPrefix @ i in
      [(w, ''wifi-iface''), (w @ ''.device'', i), (w @ ''.mode'', ''ap''), (w @ ''.network'', guestSection), (w @ ''.ssid'', gc_SSID cfg),
       (w @ ''.encryption'', enc), (w @ ''.key'', gc_Password cfg), (w @ ''.isolate'', ''1''), (w @ ''.bridge_isolate'', ''1'')])"

definition dhcpSets :: "(string \<times> string) list" where
  "dhcpSets =
     (let d = ''dhcp.'' @ guestSection in
      [(d, ''dhcp''), (d @ ''.interface'', guestSection), (d @ ''.start'', ''100''), (d @ ''.limit'', ''150''), (d @ ''.leasetime'', ''2h''),
       (d @ ''.dhcpv4'', ''server''), (d @ ''.dhcpv6'', ''server''), (d @ ''.ra'', ''server''), (d @ ''.ra_slaac'', ''1'')])"

definition ruleSets :: "guest_rule_spec \<Rightarrow> (string \<times> string) list" where
  "ruleSets r = [(fw (gr_id r), ''rule''), (fw (gr_id r @ ''.name''), gr_name r)] @ map (\<lambda>(k, v). (fw (gr_id r @ ''.'' @ k), v)) (gr_opts r)"

definition firewallSets :: "string \<Rightarrow> (string \<times> string) list" where
  "firewallSets wan =
     (let z = fw guestSection; f = fw ''guest_wan'' in
      [(z, ''zone''), (z @ ''.name'', guestZone), (z @ ''.network'', guestSection), (z @ ''.input'', ''REJECT''), (z @ ''.output'', ''ACCEPT''),
       (z @ ''.forward'', ''REJECT''), (f, ''forwarding''), (f @ ''.src'', guestZone), (f @ ''.dest'', wan)]) @
     concat (map ruleSets (guestRuleSpecs wan))"

definition guestLists :: "string \<Rightarrow> (string \<times> string) list" where
  "guestLists wan = concat (map (\<lambda>r. concat (map (\<lambda>(k, vs). map (\<lambda>v. (fw (gr_id r @ ''.'' @ k), v)) vs) (gr_lists r))) (guestRuleSpecs wan))"

definition guestSets :: "guest_config \<Rightarrow> string \<Rightarrow> string \<Rightarrow> bool \<Rightarrow> string list \<Rightarrow> string \<Rightarrow> (string \<times> string) list" where
  "guestSets cfg enc address renumber radios wan =
     networkSets address renumber @ concat (map (pointSets cfg enc) radios) @ dhcpSets @ firewallSets wan"

definition touchedKey :: "string \<Rightarrow> string" where
  "touchedKey k = (if k = ''network.'' @ lanSection @ ''.ip6assign'' then k else sectionOf k)"

definition madeShape :: "guest_config \<Rightarrow> string list \<Rightarrow> guest_shape" where
  "madeShape cfg radios =
     \<lparr>gs_ours = True, gs_foreign = False,
      gs_ifaces = map (\<lambda>i. \<lparr>sec_id = guestPrefix @ i, sec_kind = ''wifi-iface'',
        sec_options = [(''device'', i), (''network'', guestSection), (''ssid'', gc_SSID cfg)]\<rparr>) radios,
      gs_owned = [], gs_stray = []\<rparr>"

definition lanAssignText :: "uci_section list \<Rightarrow> string" where
  "lanAssignText net = fold (\<lambda>s a. if sec_id s = lanSection then sopt s ''ip6assign'' else a) net []"

definition guestTaken :: "guest_state \<Rightarrow> prefix list \<Rightarrow> prefix list" where
  "guestTaken st routes = routes @ map snd (zoneSubnets (st_firewall st)) @ configuredPrefixes (st_network st)"

definition StageGuest ::
  "'w runner option \<Rightarrow> ubus_interface list result option \<Rightarrow> (string \<Rightarrow> string result) \<Rightarrow> kernel_route list \<Rightarrow> guest_config \<Rightarrow>
    ('w, config_change list) step" where
  "StageGuest mrun dump files routes cfg =
     bindR (errR (ValidSSID (gc_SSID cfg))) (\<lambda>_.
     bindR (errR (ValidWiFiPassword (gc_Password cfg))) (\<lambda>_.
     bindR (liftR (guestSecurity (gc_Security cfg))) (\<lambda>enc.
     bindR (readGuestState mrun dump) (\<lambda>st.
     bindR (checkR (guestSupported files (st_cfg st)) (Failed ''not implemented'')) (\<lambda>_.
     bindR (checkR (\<not> (gs_ours (st_shape st) \<or> gs_foreign (st_shape st))) (Failed ''there is a guest network already'')) (\<lambda>_.
     let radios = requestedRadios (st_cfg st) (gc_Radios cfg) in
     bindR (errR (radiosProblem (st_cfg st) radios)) (\<lambda>_.
     bindR (checkR (st_ifacesErr st = None) (Failed ''the networks could not be read'')) (\<lambda>_.
     bindR (checkR (fst (guestBlocker st) = []) (Failed ''guests could not be kept from the home network here'')) (\<lambda>_.
     let wan = fst (uplinkZone (st_firewall st) (st_ifaces st)) in
     bindR (liftR (freeGuestSubnet (st_ifaces st) (guestTaken st (map k_prefix routes)))) (\<lambda>subnet.
     let renumber = snd (guestIPv6 (st_network st) (delegatedPrefixes (st_ifaces st)));
         sets = guestSets cfg enc (firstHost subnet) renumber radios wan;
         touched = map (touchedKey \<circ> fst) sets in
     bindR (setKeys (the mrun) touched sets) (\<lambda>_.
     bindR (addLists (the mrun) touched (guestLists wan)) (\<lambda>_.
       retR (guestRow [] (guestWords (madeShape cfg radios) (wc_radios (st_cfg st))) #
         (if renumber then [lanAssignRow (lanAssignText (st_network st)) (Itoa guestAssign)] else []))))))))))))))"

section \<open>Turning it off and on\<close>

record point_flip =
  fl_key :: string
  fl_from :: string
  fl_to :: string

fun flipPoints :: "'w runner \<Rightarrow> bool \<Rightarrow> string list \<Rightarrow> uci_section list \<Rightarrow> ('w, point_flip list) step" where
  "flipPoints run on touched [] w = (Inr [], w)"
| "flipPoints run on touched (s # ss) w =
     (let key = ''wireless.'' @ sec_id s @ ''.disabled''; was = sopt s ''disabled'' in
      if on \<and> was = ''1'' \<and> attached s then
        (case uciDelete run key w of (Some e, w') \<Rightarrow> (Inl e, discard run (touched @ [key]) w')
         | (None, w') \<Rightarrow> bindR (flipPoints run on (touched @ [key]) ss) (\<lambda>fs. retR (\<lparr>fl_key = key, fl_from = was, fl_to = []\<rparr> # fs)) w')
      else if \<not> on \<and> was \<noteq> ''1'' then
        (case uciSet run key ''1'' w of (Some e, w') \<Rightarrow> (Inl e, discard run (touched @ [key]) w')
         | (None, w') \<Rightarrow> bindR (flipPoints run on (touched @ [key]) ss) (\<lambda>fs. retR (\<lparr>fl_key = key, fl_from = was, fl_to = ''1''\<rparr> # fs)) w')
      else flipPoints run on touched ss w)"

definition flipped :: "bool \<Rightarrow> uci_section \<Rightarrow> uci_section" where
  "flipped on s = s\<lparr>sec_options := (if on then AList.delete ''disabled'' (sec_options s) else AList.update ''disabled'' ''1'' (sec_options s))\<rparr>"

definition flipRow :: "point_flip \<Rightarrow> config_change" where
  "flipRow f =
     (let said = describe ''wireless'' ''wifiNet'' ''disabled'' in
      \<lparr>Label = ph_words said, LabelKey = ph_key said, From_value = fl_from f, To_value = fl_to f, Dangerous = dangerousConfig ''wireless'',
       Detail = fl_key f, Subject = []\<rparr>)"

definition StageGuestEnabled :: "'w runner option \<Rightarrow> ubus_interface list result option \<Rightarrow> bool \<Rightarrow> ('w, config_change list) step" where
  "StageGuestEnabled mrun dump on =
     bindR (readGuestState mrun dump) (\<lambda>st. let g = st_shape st; radios = wc_radios (st_cfg st) in
     bindR (checkR (gs_ours g \<and> gs_owned g \<noteq> []) (Failed ''there is no guest network'')) (\<lambda>_.
     bindR (flipPoints (the mrun) on [] (gs_owned g)) (\<lambda>flips.
       let was = guestWords g radios; will = guestWords (g\<lparr>gs_ifaces := map (flipped on) (filter attached (gs_owned g))\<rparr>) radios in
       retR (if will \<noteq> was then [guestRow was will] else map flipRow flips))))"

section \<open>Removing it\<close>

fun deleteKeys :: "'w runner \<Rightarrow> string list \<Rightarrow> string list \<Rightarrow> ('w, unit) step" where
  "deleteKeys run gone [] w = (Inr (), w)"
| "deleteKeys run gone (k # ks) w =
     (case uciDelete run k w of (Some e, w') \<Rightarrow> (Inl e, discard run (gone @ [k]) w') | (None, w') \<Rightarrow> deleteKeys run (gone @ [k]) ks w')"

definition removedKeys :: "guest_state \<Rightarrow> string list" where
  "removedKeys st =
     (let has = (\<lambda>secs i. i \<in> sec_id ` set secs) in
      map (\<lambda>s. ''wireless.'' @ sec_id s) (gs_owned (st_shape st)) @
      map (\<lambda>i. ''network.'' @ i) (filter (has (st_network st)) [guestSection, guestDevSection]) @
      map (\<lambda>s. ''dhcp.'' @ guestSection) (filter (\<lambda>s. sec_id s = guestSection) (st_dhcp st)) @
      map fw (filter (has (st_firewall st)) (guestSection # guestRules)))"

definition StageGuestRemove :: "'w runner option \<Rightarrow> ubus_interface list result option \<Rightarrow> ('w, config_change list) step" where
  "StageGuestRemove mrun dump =
     bindR (readGuestState mrun dump) (\<lambda>st.
     bindR (checkR (gs_ours (st_shape st)) (Failed ''there is no guest network'')) (\<lambda>_.
     bindR (deleteKeys (the mrun) [] (removedKeys st)) (\<lambda>_.
       retR [guestRow (guestWords (st_shape st) (wc_radios (st_cfg st))) []])))"

section \<open>The draft of it\<close>

record guest_draft =
  gd_ours :: bool
  gd_was :: string
  gd_will :: string
  gd_before :: "string list"
  gd_after :: "string list"

definition folds :: "guest_draft \<Rightarrow> staged_edit \<Rightarrow> bool" where
  "folds g e =
     (if gd_was g = gd_will g then False
      else let sec = e_config e @ ''.'' @ e_section e in
        if (gd_was g = [] \<or> gd_will g = []) \<and> (sec \<in> set (gd_before g)) \<noteq> (sec \<in> set (gd_after g)) then True
        else e_config e = ''wireless'' \<and> HasPrefix (e_section e) guestPrefix \<and> e_option e = ''disabled'')"

text \<open>One file as it is shown, and whether it could not be read: a router without radios has no wireless file at all.\<close>

definition showOne :: "'w runner \<Rightarrow> 'w link_fs \<Rightarrow> bool \<Rightarrow> bool \<Rightarrow> string \<Rightarrow> 'w \<Rightarrow> (uci_section list \<times> bool) \<times> 'w" where
  "showOne run fs noWireless committed c w =
     (case (if committed then withCommitted fs c (\<lambda>dir alias. run ''uci'' [''-q'', ''-c'', dir, ''show'', alias]) else showConfig run c) w of
        (Inr out, w') \<Rightarrow> ((parseUCISections out, False), w')
      | (Inl e, w') \<Rightarrow> (([], \<not> (c = ''wireless'' \<and> noWireless)), w'))"

definition guestNamed :: "string \<Rightarrow> uci_section list \<Rightarrow> string list" where
  "guestNamed c secs = map (\<lambda>s. c @ ''.'' @ sec_id s) (filter (\<lambda>s. isGuestSection c (sec_id s)) secs)"

definition readGuest ::
  "'w runner \<Rightarrow> 'w link_fs \<Rightarrow> bool \<Rightarrow> bool \<Rightarrow> 'w \<Rightarrow> (guest_shape \<times> uci_section list \<times> string list \<times> bool) \<times> 'w" where
  "readGuest run fs noWireless committed w =
     (let ((nw, e1), w1) = showOne run fs noWireless committed ''network'' w;
          ((fwall, e2), w2) = showOne run fs noWireless committed ''firewall'' w1;
          ((wl, e3), w3) = showOne run fs noWireless committed ''wireless'' w2;
          ((dh, e4), w4) = showOne run fs noWireless committed ''dhcp'' w3
      in ((readGuestShape nw fwall wl dh, filter (\<lambda>s. sec_kind s = ''wifi-device'') wl,
           guestNamed ''network'' nw @ guestNamed ''firewall'' fwall @ guestNamed ''wireless'' wl @ guestNamed ''dhcp'' dh,
           e1 \<or> e2 \<or> e3 \<or> e4), w4))"

definition guestDraft :: "'w runner \<Rightarrow> 'w link_fs \<Rightarrow> bool \<Rightarrow> ('w, guest_draft) step" where
  "guestDraft run fs noWireless w =
     (let ((g, rs, secs, e), w1) = readGuest run fs noWireless True w;
          ((g', rs', secs', e'), w2) = readGuest run fs noWireless False w1
      in if e \<or> e' then (Inl (Failed ''read for the guest network''), w2)
         else (Inr \<lparr>gd_ours = (gs_ours g \<or> gs_ours g'), gd_was = guestWords g rs, gd_will = guestWords g' rs', gd_before = secs, gd_after = secs'\<rparr>, w2))"

section \<open>The Wi-Fi screen\<close>

record wifi_status =
  ws_Country :: string
  ws_Radios :: "wifi_radio list"
  ws_Networks :: "wifi_network list"
  ws_Guest :: "wifi_guest option"

definition countAt :: "(string \<times> nat) list \<Rightarrow> string \<Rightarrow> int" where
  "countAt counts i = (case map_of counts i of None \<Rightarrow> 0 | Some n \<Rightarrow> int n)"

definition radioPoint :: "wifi_bus option \<Rightarrow> (string \<times> string) list \<Rightarrow> (string \<times> nat) list \<Rightarrow> uci_section \<Rightarrow> wifi_radio \<Rightarrow> wifi_radio" where
  "radioPoint mbus ifnames counts i r0 =
     (let r = r0\<lparr>wr_Devices := wr_Devices r0 + countAt counts (sec_id i)\<rparr> in
      case map_of ifnames (sec_id i) of None \<Rightarrow> r
      | Some ifname \<Rightarrow>
          if wr_Enabled r \<and> wr_ChannelNow r = 0 \<and> wr_State r \<noteq> RadioUp then
            (let (s, ch) = apState mbus ifname in r\<lparr>wr_State := s, wr_ChannelNow := ch\<rparr>)
          else r)"

definition radioNow ::
  "wifi_bus option \<Rightarrow> (string \<times> string) list \<Rightarrow> (string \<times> nat) list \<Rightarrow> uci_section list \<Rightarrow> uci_section \<Rightarrow> wifi_radio" where
  "radioNow mbus ifnames counts points s =
     (let f = facts mbus (sec_id s); ch = sopt s ''channel'';
          r = \<lparr>wr_ID = sec_id s, wr_Band = bandWord (sopt s ''band''), wr_Enabled = (sopt s ''disabled'' \<noteq> ''1''), wr_Auto = (ch = [] \<or> ch = ''auto''),
            wr_Channel = (if ch = [] \<or> ch = ''auto'' then 0 else AtoiValue ch), wr_ChannelNow = 0, wr_Width = widthOf (sopt s ''htmode''),
            wr_Widths = rf_widths f, wr_Channels = rf_channels f, wr_Devices = 0, wr_State = RadioDown\<rparr>;
          r' = fold (radioPoint mbus ifnames counts) (filter (\<lambda>i. sopt i ''device'' = sec_id s) points) r
      in if wr_Enabled r' then r' else r'\<lparr>wr_State := RadioDown\<rparr>)"

definition countryOf :: "uci_section list \<Rightarrow> string" where
  "countryOf radios =
     (case List.find (\<lambda>r. sopt r ''country'' \<noteq> [] \<and> sopt r ''country'' \<noteq> ''00'') radios of Some r \<Rightarrow> sopt r ''country'' | None \<Rightarrow> [])"

definition networkOf :: "string list \<Rightarrow> (string \<times> nat) list \<Rightarrow> wifi_net \<Rightarrow> wifi_network" where
  "networkOf guests counts n =
     (let first' = hd n in
      \<lparr>wn_ID = sec_id first',
       wn_Kind = (if onLAN first' then ''main'' else if list_ex (\<lambda>s. sec_id s \<in> set guests) n then ''guest'' else ''other''),
       wn_Enabled = anyEnabled n, wn_SSID = sopt first' ''ssid'', wn_Security = securityOf (sopt first' ''encryption''),
       wn_Radios = map (\<lambda>s. sopt s ''device'') n, wn_Devices = sum_list (map (\<lambda>s. countAt counts (sec_id s)) n),
       wn_HasPassword = (sopt first' ''key'' \<noteq> [])\<rparr>)"

definition pointAtGroup :: "string list \<Rightarrow> wifi_net list \<Rightarrow> string \<Rightarrow> string" where
  \<comment> \<open>the guest object names the group, not one of its sections\<close>
  "pointAtGroup guests nets cur =
     fold (\<lambda>n. fold (\<lambda>s c. if sec_id s \<in> set guests \<and> c = sec_id s then sec_id (hd n) else c) n) nets cur"

definition liveWarning :: "guest_state result \<Rightarrow> wifi_guest \<Rightarrow> wifi_guest" where
  "liveWarning live g =
     (case live of
        Inl e \<Rightarrow> if g_State g \<noteq> ''foreign'' then g\<lparr>g_Blocked := ''unchecked'', g_BlockedBy := []\<rparr> else g
      | Inr st \<Rightarrow> (let (kind, by) = guestBlocker st in if kind \<noteq> [] then g\<lparr>g_Blocked := kind, g_BlockedBy := by\<rparr> else g))"

definition guestCard ::
  "'w runner \<Rightarrow> wifi_bus option \<Rightarrow> (string \<Rightarrow> string result) \<Rightarrow> 'w link_fs \<Rightarrow> guest_state result \<Rightarrow> (string \<times> string) list \<Rightarrow> 'w \<Rightarrow>
    (wifi_guest option \<times> string list) \<times> 'w" where
  "guestCard run mbus files fs gst ifnames w =
     (case gst of Inl e \<Rightarrow> ((None, []), w)
      | Inr st \<Rightarrow> (let guests = map sec_id (gs_ifaces (st_shape st)) in
          case guestStatus mbus files st ifnames of None \<Rightarrow> ((None, guests), w)
          | Some g \<Rightarrow> (let (live, w') = guestStateCommitted run fs (st_ifaces st) w in ((Some (liveWarning live g), guests), w'))))"

definition Status ::
  "'w runner option \<Rightarrow> unmarshal_clients \<Rightarrow> wifi_bus option \<Rightarrow> ubus_interface list result option \<Rightarrow> (string \<Rightarrow> string result) \<Rightarrow> 'w link_fs \<Rightarrow>
    ('w, wifi_status) step" where
  "Status mrun unmarshal mbus dump files fs =
     bindR (readConfig mrun) (\<lambda>c.
     let ifnames = running mbus; counts = map (\<lambda>(sec, i). (sec, connected unmarshal mbus i)) ifnames in
     bindR (pureR (guestStateFor (the mrun) dump c)) (\<lambda>gst.
     bindR (pureR (guestCard (the mrun) mbus files fs gst ifnames)) (\<lambda>(card, guests).
     let nets = groupNetworks (wc_ifaces c) in
     retR \<lparr>ws_Country = countryOf (wc_radios c), ws_Radios = map (radioNow mbus ifnames counts (wc_ifaces c)) (wc_radios c),
       ws_Networks = map (networkOf guests counts) nets,
       ws_Guest = map_option (\<lambda>g. g\<lparr>g_Network := pointAtGroup guests nets (g_Network g)\<rparr>) card\<rparr>)))"

end
