(* ===== verification/Sections.thy ===== *)
theory Sections
  imports Firewall_Draft
begin

text \<open>
  The draft of a file as a list of sections: an interface to the program \<open>uci\<close> as a store of sections, what a batch of its \<open>set\<close> lines makes,
  and a reference store that prints its sections and reads them back.
\<close>

section \<open>The draft, section by section\<close>

definition typed :: "uci_section list \<Rightarrow> bool" where
  "typed secs \<longleftrightarrow> (\<forall>s \<in> set secs. sec_id s \<noteq> [] \<and> sec_kind s \<noteq> [])"

lemma oget_simps [simp]: "oget [] k = []" "oget ((j, v) # os) k = (if j = k then v else oget os k)"
  by (auto simp: oget_def the_default_def)

text \<open>Settings written one after the other; on the first error \<open>undo\<close> runs.\<close>

fun setEach :: "'w runner \<Rightarrow> ('w \<Rightarrow> 'w) \<Rightarrow> (string \<times> string) list \<Rightarrow> ('w, unit) step" where
  "setEach run undo [] w = (Inr (), w)"
| "setEach run undo ((k, v) # kvs) w =
     (case uciSet run k v w of (Some e, w') \<Rightarrow> (Inl e, undo w') | (None, w') \<Rightarrow> setEach run undo kvs w')"

definition putSection :: "string \<Rightarrow> string \<Rightarrow> uci_section list \<Rightarrow> uci_section list" where
  "putSection i t secs = onSection i (\<lambda>s. s\<lparr>sec_kind := t\<rparr>)
     (if hasSection i secs then secs else secs @ [\<lparr>sec_id = i, sec_kind = [], sec_options = []\<rparr>])"

definition putOption :: "string \<Rightarrow> string \<Rightarrow> string \<Rightarrow> uci_section list \<Rightarrow> uci_section list" where
  "putOption i k v secs = onSection i (\<lambda>s. s\<lparr>sec_options := AList.update k v (sec_options s)\<rparr>) secs"

definition addItem :: "string \<Rightarrow> string \<Rightarrow> string \<Rightarrow> uci_section list \<Rightarrow> uci_section list" where
  "addItem i k v secs = onSection i (\<lambda>s. s\<lparr>sec_options := AList.update k
     (case map_of (sec_options s) k of None \<Rightarrow> v | Some u \<Rightarrow> u @ '' '' @ v) (sec_options s)\<rparr>) secs"

definition plainName :: "string \<Rightarrow> bool" where "plainName s \<longleftrightarrow> s \<noteq> [] \<and> list_all word_char s"

definition plainWord :: "string \<Rightarrow> bool" where "plainWord s \<longleftrightarrow> s \<noteq> [] \<and> list_all (\<lambda>c. \<not> is_space c \<and> c \<noteq> quote) s"

text \<open>
  What is relied on of \<^verbatim>\<open>uci\<close> here: \<open>show\<close> prints the sections of a file with the draft applied, each with a name and a type; \<open>set\<close> makes a section or
  sets one option of it, \<open>add_list\<close> adds an item to one; nothing else of the draft changes. A value with a quote in it may be read back as another one.
\<close>

locale uci_sections =
  fixes run :: "'w runner" and secs :: "'w \<Rightarrow> string \<Rightarrow> uci_section list"
  assumes show_value: "run ''uci'' [''-q'', ''show'', c] w = (Inr out, w') \<Longrightarrow> parseUCISections out = secs w c \<and> typed (secs w c)"
    and show_frame: "run ''uci'' [''-q'', ''show'', c] w = (x, w') \<Longrightarrow> secs w' = secs w"
    and set_section: "plainName c \<Longrightarrow> plainName i \<Longrightarrow> plainWord t \<Longrightarrow> run ''uci'' [''set'', (c @ ''.'' @ i) @ ''='' @ t] w = (Inr out, w') \<Longrightarrow>
      secs w' = (secs w)(c := putSection i t (secs w c))"
    and set_option: "plainName c \<Longrightarrow> plainName i \<Longrightarrow> plainName k \<Longrightarrow> newline \<notin> set v \<Longrightarrow>
      run ''uci'' [''set'', (c @ ''.'' @ i @ ''.'' @ k) @ ''='' @ v] w = (Inr out, w') \<Longrightarrow>
      \<exists>v'. (quote \<notin> set v \<longrightarrow> v' = v) \<and> secs w' = (secs w)(c := putOption i k v' (secs w c))"
    and add_item: "plainName c \<Longrightarrow> plainName i \<Longrightarrow> plainName k \<Longrightarrow> newline \<notin> set v \<Longrightarrow> quote \<notin> set v \<Longrightarrow>
      run ''uci'' [''add_list'', (c @ ''.'' @ i @ ''.'' @ k) @ ''='' @ v] w = (Inr out, w') \<Longrightarrow>
      secs w' = (secs w)(c := addItem i k v (secs w c))"

text \<open>
  And of its other verbs: \<open>get\<close> of a section says whether it is there, \<open>delete\<close> takes it away; other programs leave the draft alone.
\<close>

locale uci_edits = uci_sections +
  assumes get_frame: "run ''uci'' [''-q'', ''get'', k] w = (x, w') \<Longrightarrow> secs w' = secs w"
    and get_there: "plainName c \<Longrightarrow> plainName i \<Longrightarrow> run ''uci'' [''-q'', ''get'', c @ ''.'' @ i] w = (Inr out, w') \<Longrightarrow>
      i \<in> sec_id ` set (secs w c) \<and> TrimSpace out \<noteq> []"
    and get_missing: "plainName c \<Longrightarrow> plainName i \<Longrightarrow> run ''uci'' [''-q'', ''get'', c @ ''.'' @ i] w = (Inl e, w') \<Longrightarrow> i \<notin> sec_id ` set (secs w c)"
    and delete_section: "plainName c \<Longrightarrow> plainName i \<Longrightarrow> run ''uci'' [''delete'', c @ ''.'' @ i] w = (Inr out, w') \<Longrightarrow>
      secs w' = (secs w)(c := filter (\<lambda>s. sec_id s \<noteq> i) (secs w c))"
    and others: "p \<noteq> ''uci'' \<Longrightarrow> run p a w = (x, w') \<Longrightarrow> secs w' = secs w"

text \<open>A section to be written: its file, name, type and options; and what may be read of it.\<close>

type_synonym new_section = "string \<times> string \<times> string \<times> (string \<times> string) list"

fun groupSets :: "new_section \<Rightarrow> (string \<times> string) list" where
  "groupSets (c, i, t, os) = (c @ ''.'' @ i, t) # map (\<lambda>(k, v). (c @ ''.'' @ i @ ''.'' @ k, v)) os"

fun groupPlain :: "new_section \<Rightarrow> bool" where
  "groupPlain (c, i, t, os) \<longleftrightarrow> plainName c \<and> plainName i \<and> plainWord t \<and> distinct (map fst os) \<and>
     (\<forall>(k, v) \<in> set os. plainName k \<and> newline \<notin> set v)"

definition reads :: "string \<times> string \<Rightarrow> string \<times> string \<Rightarrow> bool" where
  "reads a b \<longleftrightarrow> fst b = fst a \<and> (quote \<notin> set (snd a) \<longrightarrow> snd b = snd a)"

fun madeFrom :: "new_section \<Rightarrow> string \<times> uci_section \<Rightarrow> bool" where
  "madeFrom (c, i, t, os) (c', s) \<longleftrightarrow> c' = c \<and> sec_id s = i \<and> sec_kind s = t \<and> list_all2 reads os (sec_options s)"

lemma onSection_append: "onSection i f (a @ b) = onSection i f a @ onSection i f b"
  by (simp add: onSection_def)

lemma onSection_other: "i \<notin> sec_id ` set secs \<Longrightarrow> onSection i f secs = secs"
  unfolding onSection_def by (rule map_idI) auto

lemma onSection_one: "sec_id s = i \<Longrightarrow> onSection i f [s] = [f s]"
  by (simp add: onSection_def)

lemma putSection_new: "i \<notin> sec_id ` set secs \<Longrightarrow> putSection i t secs = secs @ [\<lparr>sec_id = i, sec_kind = t, sec_options = []\<rparr>]"
  by (auto simp: putSection_def hasSection_def list_ex_iff onSection_append onSection_other onSection_one)

lemma putOption_last:
  assumes "i \<notin> sec_id ` set secs" "k \<notin> fst ` set os"
  shows "putOption i k v (secs @ [\<lparr>sec_id = i, sec_kind = t, sec_options = os\<rparr>]) = secs @ [\<lparr>sec_id = i, sec_kind = t, sec_options = os @ [(k, v)]\<rparr>]"
proof -
  have "AList.update k v os = os @ [(k, v)]" using assms(2) by (induction os) auto
  then show ?thesis using assms(1) by (simp add: putOption_def onSection_append onSection_other onSection_one)
qed

lemma list_all2_reads_keys: "list_all2 reads os ps \<Longrightarrow> map fst ps = map fst os"
  by (induction rule: list_all2_induct) (auto simp: reads_def)

lemma list_all2_reads_plain: "list_all2 reads os ps \<Longrightarrow> \<forall>(k, v) \<in> set os. quote \<notin> set v \<Longrightarrow> ps = os"
  by (induction rule: list_all2_induct) (auto simp: reads_def prod_eq_iff)

context uci_sections
begin

lemma set_options:
  assumes "setEach run undo (map (\<lambda>(k, v). (c @ ''.'' @ i @ ''.'' @ k, v)) os @ rest) w = (Inr (), w')"
    and "plainName c" "plainName i" "\<forall>(k, v) \<in> set os. plainName k \<and> newline \<notin> set v" "distinct (map fst os)"
    and "secs w c = base @ [\<lparr>sec_id = i, sec_kind = t, sec_options = ps\<rparr>]" "i \<notin> sec_id ` set base" "fst ` set os \<inter> fst ` set ps = {}"
  shows "\<exists>w1 qs. setEach run undo rest w1 = (Inr (), w') \<and> list_all2 reads os qs \<and>
    secs w1 = (secs w)(c := base @ [\<lparr>sec_id = i, sec_kind = t, sec_options = ps @ qs\<rparr>])"
  using assms(1,4-8)
proof (induction os arbitrary: w ps)
  case Nil
  from Nil.prems(4) have "secs w = (secs w)(c := base @ [\<lparr>sec_id = i, sec_kind = t, sec_options = ps\<rparr>])" by (metis fun_upd_triv)
  with Nil.prems(1) show ?case by (intro exI [of _ w] exI [of _ "[]"]) simp
next
  case (Cons kv os)
  obtain k v where kv: "kv = (k, v)" by (cases kv)
  from Cons.prems(1) kv obtain out w1 where r: "run ''uci'' [''set'', (c @ ''.'' @ i @ ''.'' @ k) @ ''='' @ v] w = (Inr out, w1)"
    and rest: "setEach run undo (map (\<lambda>(k, v). (c @ ''.'' @ i @ ''.'' @ k, v)) os @ rest) w1 = (Inr (), w')"
    by (auto simp: uciSet_def split: prod.splits sum.splits option.splits)
  from Cons.prems(2) kv have "plainName k" "newline \<notin> set v" by auto
  from set_option [OF assms(2,3) this r] obtain v' where v': "quote \<notin> set v \<longrightarrow> v' = v" "secs w1 = (secs w)(c := putOption i k v' (secs w c))" by blast
  have "k \<notin> fst ` set ps" using Cons.prems(6) kv by auto
  then have w1: "secs w1 c = base @ [\<lparr>sec_id = i, sec_kind = t, sec_options = ps @ [(k, v')]\<rparr>]"
    using v'(2) Cons.prems(4,5) by (simp add: putOption_last)
  have "fst ` set os \<inter> fst ` set (ps @ [(k, v')]) = {}" using Cons.prems(3,6) kv by auto
  moreover have "\<forall>(k, v) \<in> set os. plainName k \<and> newline \<notin> set v" "distinct (map fst os)" using Cons.prems(2,3) by auto
  ultimately obtain w2 qs where q: "setEach run undo rest w2 = (Inr (), w')" "list_all2 reads os qs"
    "secs w2 = (secs w1)(c := base @ [\<lparr>sec_id = i, sec_kind = t, sec_options = (ps @ [(k, v')]) @ qs\<rparr>])"
    using Cons.IH [OF rest _ _ w1 Cons.prems(5)] by blast
  have "secs w2 = (secs w)(c := base @ [\<lparr>sec_id = i, sec_kind = t, sec_options = ps @ (k, v') # qs\<rparr>])" using q(3) v'(2) by simp
  moreover have "reads (k, v) (k, v')" using v'(1) by (simp add: reads_def)
  ultimately show ?case using q(1,2) kv by (intro exI [of _ w2] exI [of _ "(k, v') # qs"]) simp
qed

lemma set_group:
  assumes "setEach run undo (groupSets (c, i, t, os) @ rest) w = (Inr (), w')" "groupPlain (c, i, t, os)" "i \<notin> sec_id ` set (secs w c)"
  shows "\<exists>w1 s. setEach run undo rest w1 = (Inr (), w') \<and> madeFrom (c, i, t, os) (c, s) \<and> secs w1 = (secs w)(c := secs w c @ [s])"
proof -
  from assms(1) obtain out w1 where r: "run ''uci'' [''set'', (c @ ''.'' @ i) @ ''='' @ t] w = (Inr out, w1)"
    and rest: "setEach run undo (map (\<lambda>(k, v). (c @ ''.'' @ i @ ''.'' @ k, v)) os @ rest) w1 = (Inr (), w')"
    by (auto simp: uciSet_def split: prod.splits sum.splits option.splits)
  have p: "plainName c" "plainName i" "plainWord t" "\<forall>(k, v) \<in> set os. plainName k \<and> newline \<notin> set v" "distinct (map fst os)"
    using assms(2) by auto
  have w1: "secs w1 = (secs w)(c := secs w c @ [\<lparr>sec_id = i, sec_kind = t, sec_options = []\<rparr>])"
    using set_section [OF p(1-3) r] assms(3) by (simp add: putSection_new)
  then have at: "secs w1 c = secs w c @ [\<lparr>sec_id = i, sec_kind = t, sec_options = []\<rparr>]" by simp
  from set_options [OF rest p(1,2,4,5) at assms(3)] obtain w2 qs where
    "setEach run undo rest w2 = (Inr (), w')" "list_all2 reads os qs" "secs w2 = (secs w1)(c := secs w c @ [\<lparr>sec_id = i, sec_kind = t, sec_options = qs\<rparr>])"
    by auto
  with w1 show ?thesis by (intro exI [of _ w2] exI [of _ "\<lparr>sec_id = i, sec_kind = t, sec_options = qs\<rparr>"]) simp
qed

lemma set_groups:
  assumes "setEach run undo (concat (map groupSets gs) @ rest) w = (Inr (), w')" "\<forall>g \<in> set gs. groupPlain g"
    and "\<forall>(c, i, t, os) \<in> set gs. i \<notin> sec_id ` set (secs w c)" "distinct (map (\<lambda>(c, i, t, os). (c, i)) gs)"
  shows "\<exists>w1 ms. setEach run undo rest w1 = (Inr (), w') \<and> list_all2 madeFrom gs ms \<and>
    (\<forall>c. secs w1 c = secs w c @ map snd (filter (\<lambda>m. fst m = c) ms))"
  using assms
proof (induction gs arbitrary: w)
  case Nil
  then show ?case by (intro exI [of _ w] exI [of _ "[]"]) simp
next
  case (Cons g gs)
  obtain c i t os where g: "g = (c, i, t, os)" by (cases g) auto
  have "setEach run undo (groupSets (c, i, t, os) @ concat (map groupSets gs) @ rest) w = (Inr (), w')" using Cons.prems(1) g by simp
  from set_group [OF this] Cons.prems(2,3) g obtain w1 s where
    r: "setEach run undo (concat (map groupSets gs) @ rest) w1 = (Inr (), w')" "madeFrom g (c, s)" "secs w1 = (secs w)(c := secs w c @ [s])"
    by (auto simp del: groupSets.simps groupPlain.simps)
  have "\<forall>(c, i, t, os) \<in> set gs. i \<notin> sec_id ` set (secs w1 c)" using Cons.prems(3,4) g r(2,3) by (auto split: if_splits) force+
  from Cons.IH [OF r(1) _ this] Cons.prems(2,4) obtain w2 ms where
    m: "setEach run undo rest w2 = (Inr (), w')" "list_all2 madeFrom gs ms" "\<forall>c. secs w2 c = secs w1 c @ map snd (filter (\<lambda>m. fst m = c) ms)"
    by auto
  then show ?case using r by (intro exI [of _ w2] exI [of _ "(c, s) # ms"]) auto
qed

end

text \<open>A value read out of a configuration has neither quotes nor line ends.\<close>

definition bare :: "string \<Rightarrow> bool" where "bare v \<longleftrightarrow> quote \<notin> set v \<and> newline \<notin> set v"

lemma bare_simps [simp]: "bare []" "bare (a @ b) \<longleftrightarrow> bare a \<and> bare b"
  by (auto simp: bare_def)

lemma odd_items_subset: "set (odd_items ps) \<subseteq> set ps"
  by (induction ps rule: odd_items.induct) auto

lemma Join_chars: "set (Join vs sep) \<subseteq> (\<Union>v \<in> set vs. set v) \<union> set sep"
  by (induction vs sep rule: Join.induct) auto

lemma Split_chars: "v \<in> set (Split s q) \<Longrightarrow> set v \<subseteq> set s"
proof -
  have "\<Union> (set ` set (Split s q)) \<subseteq> set s" by (induction s) (fastforce split: list.splits if_splits)+
  then show "v \<in> set (Split s q) \<Longrightarrow> set v \<subseteq> set s" by blast
qed

lemma TrimSpace_chars: "set (TrimSpace s) \<subseteq> set s"
  by (auto simp: TrimSpace_def TrimRight_def TrimLeft_def dest!: set_dropWhileD)

lemma unquote_clean: "newline \<notin> set s \<Longrightarrow> bare (unquoteUCI s)"
proof -
  assume s: "newline \<notin> set s"
  let ?v = "TrimSpace s" and ?ps = "filter (\<lambda>i. i \<noteq> []) (odd_items (Split (TrimSpace s) quote))"
  have v: "newline \<notin> set ?v" using s TrimSpace_chars by blast
  have "bare v" if "v \<in> set (Split ?v quote)" for v
    using set_Split [OF that] Split_chars [OF that] v by (auto simp: bare_def)
  then have "\<forall>v \<in> set ?ps. bare v" using odd_items_subset by fastforce
  then have "bare (Join ?ps '' '')" using Join_chars [of ?ps "'' ''"] by (force simp: bare_def)
  then show ?thesis using v by (auto simp: unquoteUCI_def Let_def Contains_char bare_def)
qed

definition cleanSections :: "uci_section list \<Rightarrow> bool" where
  "cleanSections secs \<longleftrightarrow> (\<forall>s \<in> set secs. \<forall>(k, v) \<in> set (sec_options s). bare v)"

lemma set_update: "set (AList.update k v al) \<subseteq> insert (k, v) (set al)"
  by (induction al) auto

lemma sectionLine_clean:
  assumes "newline \<notin> set l" "cleanSections secs"
  shows "cleanSections (sectionLine l secs)"
proof -
  have "bare (unquoteUCI v)" if "Cut (TrimSpace l) CHR ''='' = Some (k, v)" for k v
    by (rule unquote_clean) (use that TrimSpace_chars [of l] assms(1) in \<open>auto simp: Cut_Some\<close>)
  then show ?thesis using assms(2) set_update
    by (fastforce simp: sectionLine_def cleanSections_def onSection_def split: option.splits list.splits)
qed

lemma parseUCISections_clean: "cleanSections (parseUCISections out)"
proof -
  have "cleanSections (fold sectionLine ls secs)" if "cleanSections secs" "\<forall>l \<in> set ls. newline \<notin> set l" for ls secs
    using that by (induction ls arbitrary: secs) (auto simp: sectionLine_clean)
  from this [of "[]" "Split out newline"] show ?thesis unfolding parseUCISections_def by (simp add: cleanSections_def set_Split)
qed

lemma sopt_clean: "cleanSections secs \<Longrightarrow> s \<in> set secs \<Longrightarrow> bare (oget (sec_options s) k)"
  by (force simp: cleanSections_def oget_def the_default_def dest: map_of_SomeD split: option.split)

lemma madeFrom_exact: "madeFrom (c, i, t, os) m \<Longrightarrow> \<forall>(k, v) \<in> set os. quote \<notin> set v \<Longrightarrow>
    m = (c, \<lparr>sec_id = i, sec_kind = t, sec_options = os\<rparr>)"
  using list_all2_reads_plain by (cases m) (auto intro: uci_section.equality)

lemma madeFrom_files: "list_all2 madeFrom gs ms \<Longrightarrow> map fst ms = map fst gs"
  by (induction rule: list_all2_induct) (auto split: prod.splits)

definition groupSection :: "new_section \<Rightarrow> uci_section" where
  "groupSection = (\<lambda>(c, i, t, os). \<lparr>sec_id = i, sec_kind = t, sec_options = os\<rparr>)"

lemma madeFrom_all:
  assumes "list_all2 madeFrom gs ms" "\<forall>(c, i, t, os) \<in> set gs. \<forall>(k, v) \<in> set os. quote \<notin> set v"
  shows "ms = map (\<lambda>g. (fst g, groupSection g)) gs"
  using assms unfolding groupSection_def by (induction rule: list_all2_induct) (auto dest!: madeFrom_exact simp del: madeFrom.simps)

lemma filter_file: "map fst ms = replicate n c \<Longrightarrow> filter (\<lambda>m. fst m = d) ms = (if c = d then ms else [])"
  by (induction ms arbitrary: n) (auto simp: Cons_replicate_eq)

section \<open>A reference draft\<close>

text \<open>The sections of every file; the names and values it takes are those that can be read back.\<close>

definition sectionLines :: "string \<Rightarrow> uci_section \<Rightarrow> string list" where
  "sectionLines c s = (c @ ''.'' @ sec_id s @ ''='' @ sec_kind s) #
     map (\<lambda>(k, v). c @ ''.'' @ sec_id s @ ''.'' @ k @ ''='' @ [quote] @ v @ [quote]) (sec_options s)"

definition printSections :: "string \<Rightarrow> uci_section list \<Rightarrow> string" where
  "printSections c secs = concat (map (\<lambda>l. l @ [newline]) (concat (map (sectionLines c) secs)))"

definition printable :: "uci_section \<Rightarrow> bool" where
  "printable s \<longleftrightarrow> plainName (sec_id s) \<and> plainWord (sec_kind s) \<and> distinct (map fst (sec_options s)) \<and>
     list_all (\<lambda>(k, v). plainName k \<and> bare v) (sec_options s)"

definition wellFormed :: "uci_section list \<Rightarrow> bool" where
  "wellFormed secs \<longleftrightarrow> distinct (map sec_id secs) \<and> list_all printable secs"

type_synonym draft_world = "string \<Rightarrow> uci_section list"

definition ref_set :: "bool \<Rightarrow> string \<Rightarrow> draft_world \<Rightarrow> draft_world option" where
  "ref_set add x w =
     (case Cut x CHR ''='' of None \<Rightarrow> None
      | Some (key, v) \<Rightarrow> (case SplitN 3 key CHR ''.'' of
          [c, i] \<Rightarrow> if \<not> add \<and> plainName c \<and> plainName i \<and> plainWord v then Some (w(c := putSection i v (w c))) else None
        | [c, i, k] \<Rightarrow>
            if \<not> (plainName c \<and> plainName i \<and> plainName k \<and> newline \<notin> set v) then None
            else let v' = filter (\<lambda>a. a \<noteq> quote) v in Some (w(c := if add then addItem i k v' (w c) else putOption i k v' (w c)))
        | _ \<Rightarrow> None))"

definition ref_get :: "string \<Rightarrow> draft_world \<Rightarrow> string option" where
  "ref_get key w =
     (case SplitN 3 key CHR ''.'' of
        [c, i] \<Rightarrow> (case List.find (\<lambda>s. sec_id s = i) (w c) of None \<Rightarrow> None
          | Some s \<Rightarrow> Some (if TrimSpace (sec_kind s) = [] then ''unknown'' else sec_kind s))
      | [c, i, k] \<Rightarrow> (case List.find (\<lambda>s. sec_id s = i) (w c) of None \<Rightarrow> None | Some s \<Rightarrow> map_of (sec_options s) k)
      | _ \<Rightarrow> None)"

definition ref_delete :: "string \<Rightarrow> draft_world \<Rightarrow> draft_world option" where
  "ref_delete key w =
     (case SplitN 3 key CHR ''.'' of
        [c, i] \<Rightarrow> if hasSection i (w c) then Some (w(c := filter (\<lambda>s. sec_id s \<noteq> i) (w c))) else None
      | _ \<Rightarrow> None)"

definition ref_draft :: "draft_world runner" where
  "ref_draft name args w =
     (if name \<noteq> ''uci'' then (Inr [], w)
      else case args of
        [q, verb, c] \<Rightarrow>
          (if q = ''-q'' \<and> verb = ''show'' \<and> plainName c \<and> wellFormed (w c) then (Inr (printSections c (w c)), w)
           else if q = ''-q'' \<and> verb = ''get'' then (case ref_get c w of None \<Rightarrow> (Inl (Failed ''uci''), w) | Some v \<Rightarrow> (Inr (v @ [newline]), w))
           else (Inl (Failed ''uci''), w))
      | [verb, x] \<Rightarrow>
          (if verb = ''set'' \<or> verb = ''add_list'' then
             (case ref_set (verb = ''add_list'') x w of None \<Rightarrow> (Inl (Failed ''uci''), w) | Some w' \<Rightarrow> (Inr [], w'))
           else if verb = ''delete'' then (case ref_delete x w of None \<Rightarrow> (Inl (Failed ''uci''), w) | Some w' \<Rightarrow> (Inr [], w'))
           else (Inl (Failed ''uci''), w))
      | _ \<Rightarrow> (Inl (Failed ''uci''), w))"

lemma plainName_chars: "plainName s \<Longrightarrow> CHR ''='' \<notin> set s \<and> CHR ''.'' \<notin> set s \<and> newline \<notin> set s \<and> \<not> is_space (hd s)"
proof -
  have w: "\<not> word_char CHR ''=''" "\<not> word_char CHR ''.''" "\<not> word_char newline" by (simp_all add: word_char_def)
  have "\<not> is_space a" if "word_char a" for a using that by (auto simp: word_char_def is_space_def Let_def)
  with w show "plainName s \<Longrightarrow> ?thesis" unfolding plainName_def list_all_iff by (metis hd_in_set)
qed

lemma cut_dot: "plainName a \<Longrightarrow> Cut (a @ CHR ''.'' # b) CHR ''.'' = Some (a, b)" "plainName a \<Longrightarrow> Cut a CHR ''.'' = None"
  using plainName_chars [of a] by (simp_all add: Cut_Some Cut_None)

lemma key2_cut: "plainName c \<Longrightarrow> plainName i \<Longrightarrow> Cut (c @ ''.'' @ i @ ''='' @ v) CHR ''='' = Some (c @ ''.'' @ i, v)"
  using plainName_chars [of c] plainName_chars [of i] by (simp add: Cut_Some)

lemma key2_parts: "plainName c \<Longrightarrow> plainName i \<Longrightarrow> SplitN 3 (c @ ''.'' @ i) CHR ''.'' = [c, i]"
  using cut_dot(1) [of c i] cut_dot(2) [of i] by (simp add: numeral_3_eq_3)

lemma key3_cut: "plainName c \<Longrightarrow> plainName i \<Longrightarrow> plainName k \<Longrightarrow>
    Cut (c @ ''.'' @ i @ ''.'' @ k @ ''='' @ v) CHR ''='' = Some (c @ ''.'' @ i @ ''.'' @ k, v)"
  using plainName_chars [of c] plainName_chars [of i] plainName_chars [of k] by (simp add: Cut_Some)

lemma key3_parts: "plainName c \<Longrightarrow> plainName i \<Longrightarrow> SplitN 3 (c @ ''.'' @ i @ ''.'' @ k) CHR ''.'' = [c, i, k]"
  using cut_dot(1) [of c "i @ ''.'' @ k"] cut_dot(1) [of i k] by (simp add: numeral_3_eq_3)

lemma ref_set_section: "plainName c \<Longrightarrow> plainName i \<Longrightarrow> plainWord t \<Longrightarrow>
    ref_set False ((c @ ''.'' @ i) @ ''='' @ t) w = Some (w(c := putSection i t (w c)))"
  using key2_cut [of c i t] key2_parts [of c i] by (simp add: ref_set_def)

lemma ref_set_option: "plainName c \<Longrightarrow> plainName i \<Longrightarrow> plainName k \<Longrightarrow> newline \<notin> set v \<Longrightarrow>
    ref_set add ((c @ ''.'' @ i @ ''.'' @ k) @ ''='' @ v) w =
      Some (w(c := let v' = filter (\<lambda>a. a \<noteq> quote) v in if add then addItem i k v' (w c) else putOption i k v' (w c)))"
  using key3_cut [of c i k v] key3_parts [of c i k] by (simp add: ref_set_def Let_def)

lemma unquote_word: "plainWord t \<Longrightarrow> unquoteUCI t = t"
proof -
  assume t: "plainWord t"
  then have "TrimSpace t = t" by (intro TrimSpace_id) (auto simp: plainWord_def list_all_iff)
  moreover have "quote \<notin> set t" using t by (auto simp: plainWord_def list_all_iff)
  ultimately show ?thesis by (simp add: unquoteUCI_def Contains_char)
qed

lemma line_section: "plainName c \<Longrightarrow> plainName i \<Longrightarrow> plainWord t \<Longrightarrow> sectionLine (c @ ''.'' @ i @ ''='' @ t) = putSection i t"
proof (rule ext)
  fix secs
  assume n: "plainName c" "plainName i" "plainWord t"
  have "TrimSpace (c @ ''.'' @ i @ ''='' @ t) = c @ ''.'' @ i @ ''='' @ t"
    using n plainName_chars [OF n(1)] by (intro TrimSpace_id) (auto simp: plainName_def plainWord_def list_all_iff hd_append)
  then show "sectionLine (c @ ''.'' @ i @ ''='' @ t) secs = putSection i t secs"
    using key2_cut [OF n(1,2), of t] key2_parts [OF n(1,2)] unquote_word [OF n(3)] by (simp add: sectionLine_def putSection_def)
qed

lemma line_option: "plainName c \<Longrightarrow> plainName i \<Longrightarrow> plainName k \<Longrightarrow> bare v \<Longrightarrow>
    sectionLine (c @ ''.'' @ i @ ''.'' @ k @ ''='' @ [quote] @ v @ [quote]) = putOption i k v"
proof (rule ext)
  fix secs
  assume n: "plainName c" "plainName i" "plainName k" "bare v"
  have "TrimSpace (c @ ''.'' @ i @ ''.'' @ k @ ''='' @ [quote] @ v @ [quote]) = c @ ''.'' @ i @ ''.'' @ k @ ''='' @ [quote] @ v @ [quote]"
    using n plainName_chars [OF n(1)] by (intro TrimSpace_id) (auto simp: plainName_def hd_append is_space_def)
  moreover have "unquoteUCI ([quote] @ v @ [quote]) = v" using unquote_quoted n(4) by (simp add: bare_def)
  ultimately show "sectionLine (c @ ''.'' @ i @ ''.'' @ k @ ''='' @ [quote] @ v @ [quote]) secs = putOption i k v secs"
    using key3_cut [OF n(1,2,3), of "[quote] @ v @ [quote]"] key3_parts [OF n(1,2), of k] by (simp add: sectionLine_def putOption_def)
qed

lemma printed_options:
  assumes "plainName c" "plainName i" "distinct (map fst os)" "list_all (\<lambda>(k, v). plainName k \<and> bare v) os" "i \<notin> sec_id ` set secs" "fst ` set ps \<inter> fst ` set os = {}"
  shows "fold sectionLine (map (\<lambda>(k, v). c @ ''.'' @ i @ ''.'' @ k @ ''='' @ [quote] @ v @ [quote]) os) (secs @ [\<lparr>sec_id = i, sec_kind = t, sec_options = ps\<rparr>]) =
    secs @ [\<lparr>sec_id = i, sec_kind = t, sec_options = ps @ os\<rparr>]"
  using assms(3,4,6)
proof (induction os arbitrary: ps)
  case (Cons kv os)
  obtain k v where kv: "kv = (k, v)" by (cases kv)
  have p: "plainName k" "bare v" "k \<notin> fst ` set ps" "fst ` set (ps @ [(k, v)]) \<inter> fst ` set os = {}" using Cons.prems kv by auto
  from Cons.IH [OF _ _ p(4)] Cons.prems(1,2) kv line_option [OF assms(1,2) p(1,2)] putOption_last [OF assms(5) p(3)] show ?case by simp
qed simp

lemma printed_section:
  assumes "plainName c" "printable s" "sec_id s \<notin> sec_id ` set secs"
  shows "fold sectionLine (sectionLines c s) secs = secs @ [s]"
  using assms printed_options [of c "sec_id s" "sec_options s" secs "[]" "sec_kind s"] line_section [of c "sec_id s" "sec_kind s"]
    putSection_new [of "sec_id s" secs "sec_kind s"]
  by (simp add: sectionLines_def printable_def)

lemma printed_lines:
  assumes "plainName c" "wellFormed secs"
  shows "\<forall>l \<in> set (concat (map (sectionLines c) secs)). newline \<notin> set l"
proof -
  have c: "newline \<notin> set c" using plainName_chars [OF assms(1)] by blast
  have "newline \<notin> set l" if "printable s" "l \<in> set (sectionLines c s)" for s l
  proof -
    have i: "newline \<notin> set (sec_id s)" using that(1) plainName_chars by (simp add: printable_def)
    have "is_space newline" by (simp add: is_space_def)
    then have t: "newline \<notin> set (sec_kind s)" using that(1) by (auto simp: printable_def plainWord_def list_all_iff)
    have "newline \<notin> set k \<and> newline \<notin> set v" if "(k, v) \<in> set (sec_options s)" for k v
      using that \<open>printable s\<close> plainName_chars [of k] by (auto simp: printable_def list_all_iff bare_def)
    with c i t that(2) show ?thesis by (auto simp: sectionLines_def)
  qed
  then show ?thesis using assms(2) by (auto simp: wellFormed_def list_all_iff)
qed

lemma printed_back: "plainName c \<Longrightarrow> wellFormed secs \<Longrightarrow> parseUCISections (printSections c secs) = secs"
proof -
  assume n: "plainName c" "wellFormed secs"
  have "fold sectionLine (concat (map (sectionLines c) rest)) done = done @ rest"
    if "distinct (map sec_id (done @ rest))" "list_all printable rest" for rest "done"
    using that by (induction rest arbitrary: "done") (simp_all add: printed_section [OF n(1)] image_iff)
  from this [of "[]" secs] n(2) have "fold sectionLine (concat (map (sectionLines c) secs)) [] = secs" by (simp add: wellFormed_def)
  then show ?thesis using Split_lines [OF printed_lines [OF n]] by (simp add: parseUCISections_def printSections_def sectionLine_def Cut_None)
qed

lemma wellFormed_typed: "wellFormed secs \<Longrightarrow> typed secs"
  by (simp add: wellFormed_def list_all_iff printable_def plainName_def plainWord_def typed_def)

lemma unquoted: "quote \<notin> set v \<Longrightarrow> filter (\<lambda>a. a \<noteq> quote) v = v"
  by (rule filter_True) auto

lemma find_id: "List.find (\<lambda>s. sec_id s = i) secs = None \<longleftrightarrow> i \<notin> sec_id ` set secs"
  by (auto simp: find_None_iff)

interpretation rd: uci_edits ref_draft "\<lambda>w. w"
proof unfold_locales
  fix c i t k v out x p a and e :: error and w w' :: draft_world
  have nl: "TrimSpace (v @ [newline]) = TrimSpace v" for v by (rule TrimSpace_snoc_space) (simp add: is_space_def)
  have u: "TrimSpace (''unknown'' @ [newline]) \<noteq> []" by code_simp
  show "ref_draft ''uci'' [''-q'', ''get'', k] w = (x, w') \<Longrightarrow> w' = w" by (auto simp: ref_draft_def split: if_splits option.splits)
  show "plainName c \<Longrightarrow> plainName i \<Longrightarrow> ref_draft ''uci'' [''-q'', ''get'', c @ ''.'' @ i] w = (Inr out, w') \<Longrightarrow> i \<in> sec_id ` set (w c) \<and> TrimSpace out \<noteq> []"
    using key2_parts [of c i] nl u [simplified] find_id [of i "w c"] by (auto simp: ref_draft_def ref_get_def split: option.splits if_splits)
  show "plainName c \<Longrightarrow> plainName i \<Longrightarrow> ref_draft ''uci'' [''-q'', ''get'', c @ ''.'' @ i] w = (Inl e, w') \<Longrightarrow> i \<notin> sec_id ` set (w c)"
    using key2_parts [of c i] find_id [of i "w c"] by (auto simp: ref_draft_def ref_get_def split: option.splits)
  show "plainName c \<Longrightarrow> plainName i \<Longrightarrow> ref_draft ''uci'' [''delete'', c @ ''.'' @ i] w = (Inr out, w') \<Longrightarrow>
      w' = w(c := filter (\<lambda>s. sec_id s \<noteq> i) (w c))"
    using key2_parts [of c i] by (auto simp: ref_draft_def ref_delete_def split: if_splits)
  show "p \<noteq> ''uci'' \<Longrightarrow> ref_draft p a w = (x, w') \<Longrightarrow> w' = w" by (simp add: ref_draft_def)
  show "ref_draft ''uci'' [''-q'', ''show'', c] w = (Inr out, w') \<Longrightarrow> parseUCISections out = w c \<and> typed (w c)"
    using printed_back [of c "w c"] wellFormed_typed [of "w c"] by (auto simp: ref_draft_def split: if_splits)
  show "ref_draft ''uci'' [''-q'', ''show'', c] w = (x, w') \<Longrightarrow> w' = w" by (auto simp: ref_draft_def split: if_splits)
  show "plainName c \<Longrightarrow> plainName i \<Longrightarrow> plainWord t \<Longrightarrow> ref_draft ''uci'' [''set'', (c @ ''.'' @ i) @ ''='' @ t] w = (Inr out, w') \<Longrightarrow>
      w' = w(c := putSection i t (w c))"
    using ref_set_section [of c i t w] by (simp add: ref_draft_def)
  show "plainName c \<Longrightarrow> plainName i \<Longrightarrow> plainName k \<Longrightarrow> newline \<notin> set v \<Longrightarrow>
      ref_draft ''uci'' [''set'', (c @ ''.'' @ i @ ''.'' @ k) @ ''='' @ v] w = (Inr out, w') \<Longrightarrow>
      \<exists>v'. (quote \<notin> set v \<longrightarrow> v' = v) \<and> w' = w(c := putOption i k v' (w c))"
    using ref_set_option [of c i k v False w] unquoted [of v] by (intro exI [of _ "filter (\<lambda>a. a \<noteq> quote) v"]) (simp add: ref_draft_def Let_def)
  show "plainName c \<Longrightarrow> plainName i \<Longrightarrow> plainName k \<Longrightarrow> newline \<notin> set v \<Longrightarrow> quote \<notin> set v \<Longrightarrow>
      ref_draft ''uci'' [''add_list'', (c @ ''.'' @ i @ ''.'' @ k) @ ''='' @ v] w = (Inr out, w') \<Longrightarrow>
      w' = w(c := addItem i k v (w c))"
    using ref_set_option [of c i k v True w] unquoted [of v] by (simp add: ref_draft_def Let_def)
qed

text \<open>Every file of it can always be read back.\<close>

definition readable :: "draft_world \<Rightarrow> bool" where "readable w \<longleftrightarrow> (\<forall>c. wellFormed (w c))"

lemma onSection_wellFormed:
  assumes "wellFormed secs" "\<And>s. printable s \<Longrightarrow> printable (f s) \<and> sec_id (f s) = sec_id s"
  shows "wellFormed (onSection i f secs)"
proof -
  have "map sec_id (onSection i f secs) = map sec_id secs" using assms by (auto simp: onSection_def wellFormed_def list_all_iff)
  moreover have "list_all printable (onSection i f secs)" using assms by (auto simp: onSection_def wellFormed_def list_all_iff)
  ultimately show ?thesis using assms(1) unfolding wellFormed_def by metis
qed

lemma update_plain: "list_all (\<lambda>(k, v). plainName k \<and> bare v) os \<Longrightarrow> plainName k \<Longrightarrow> bare v \<Longrightarrow>
    list_all (\<lambda>(k, v). plainName k \<and> bare v) (AList.update k v os)"
  by (induction os) auto

lemma ref_set_readable:
  assumes "ref_set add x w = Some w'" "readable w"
  shows "readable w'"
proof -
  have sec: "wellFormed (putSection i t secs)" if "wellFormed secs" "plainName i" "plainWord t" for i t secs
  proof (cases "hasSection i secs")
    case True
    with that show ?thesis by (auto simp: putSection_def printable_def intro!: onSection_wellFormed)
  next
    case False
    then have "i \<notin> sec_id ` set secs" by (auto simp: hasSection_def list_ex_iff)
    with that show ?thesis by (auto simp: putSection_new wellFormed_def printable_def)
  qed
  have opt: "wellFormed (putOption i k v secs)" if "wellFormed secs" "plainName k" "bare v" for i k v secs
    unfolding putOption_def by (rule onSection_wellFormed [OF that(1)]) (use that(2,3) update_plain in \<open>auto simp: printable_def distinct_update\<close>)
  have item: "wellFormed (addItem i k v secs)" if "wellFormed secs" "plainName k" "bare v" for i k v secs
  proof -
    have u: "bare u" if "printable s" "map_of (sec_options s) k = Some u" for s u
      using that by (auto simp: printable_def list_all_iff dest: map_of_SomeD)
    have "bare (CHR '' '' # v)" if "bare v" for v using that by (simp add: bare_def)
    then show ?thesis unfolding addItem_def
      by (intro onSection_wellFormed [OF that(1)]) (use that(2,3) u in \<open>auto simp: printable_def distinct_update intro!: update_plain split: option.split\<close>)
  qed
  have "bare (filter (\<lambda>a. a \<noteq> quote) v)" if "newline \<notin> set v" for v using that by (auto simp: bare_def)
  then show ?thesis using assms sec opt item
    by (auto simp: ref_set_def readable_def Let_def split: option.splits list.splits if_splits)
qed

text \<open>And a plain section is always taken.\<close>

definition settable :: "bool \<Rightarrow> string \<times> string \<Rightarrow> bool" where
  "settable add kv \<longleftrightarrow> (\<forall>w. ref_set add (fst kv @ ''='' @ snd kv) w \<noteq> None)"

lemma groupSets_taken: "groupPlain g \<Longrightarrow> \<forall>kv \<in> set (groupSets g). settable False kv"
proof -
  obtain c i t os where g: "g = (c, i, t, os)" by (cases g) auto
  assume "groupPlain g"
  with g show ?thesis using ref_set_section [of c i t] ref_set_option [of c i _ _ False] by (fastforce simp: settable_def)
qed

lemma setEach_taken: "\<forall>kv \<in> set kvs. settable False kv \<Longrightarrow> readable w \<Longrightarrow> \<exists>w'. setEach ref_draft undo kvs w = (Inr (), w') \<and> readable w'"
proof (induction kvs arbitrary: w)
  case (Cons kv kvs)
  obtain k v where kv: "kv = (k, v)" by (cases kv)
  from Cons.prems(1) kv have "ref_set False (k @ ''='' @ v) w \<noteq> None" by (simp add: settable_def)
  then obtain w1 where w1: "ref_set False (k @ ''='' @ v) w = Some w1" by blast
  then have "uciSet ref_draft k v w = (None, w1)" by (simp add: uciSet_def ref_draft_def)
  with Cons.IH [OF _ ref_set_readable [OF w1 Cons.prems(2)]] Cons.prems(1) kv show ?case by simp
qed simp

end
