(* ===== verification/Guest_Made.thy ===== *)
theory Guest_Made
  imports Guest_Draft Sections
begin

text \<open>
  A guest network the panel has just staged is its own and nothing stands in its way: what \<open>StageGuest\<close> writes and what \<open>guestBlocker\<close> and
  \<open>guestWeakened\<close> demand agree, option by option, whatever else the router's files hold.
\<close>

section \<open>What it writes, as sections\<close>

definition devSection :: uci_section where
  "devSection = \<lparr>sec_id = guestDevSection, sec_kind = ''device'', sec_options = bridgeOptions\<rparr>"

definition ifaceSection :: "string \<Rightarrow> uci_section" where
  "ifaceSection address = \<lparr>sec_id = guestSection, sec_kind = ''interface'',
     sec_options = [(''device'', guestBridge), (''proto'', ''static''), (''ipaddr'', address), (''netmask'', ''255.255.255.0''), (''ip6assign'', Itoa guestAssign)]\<rparr>"

definition zoneSection :: uci_section where
  "zoneSection = \<lparr>sec_id = guestSection, sec_kind = ''zone'',
     sec_options = [(''name'', guestZone), (''network'', guestSection), (''input'', ''REJECT''), (''output'', ''ACCEPT''), (''forward'', ''REJECT'')]\<rparr>"

definition wanSection :: "string \<Rightarrow> uci_section" where
  "wanSection wan = \<lparr>sec_id = ''guest_wan'', sec_kind = ''forwarding'', sec_options = [(''src'', guestZone), (''dest'', wan)]\<rparr>"

definition ruleSection :: "guest_rule_spec \<Rightarrow> uci_section" where
  "ruleSection r = \<lparr>sec_id = gr_id r, sec_kind = ''rule'',
     sec_options = (''name'', gr_name r) # gr_opts r @ map (\<lambda>(k, vs). (k, Join vs '' '')) (gr_lists r)\<rparr>"

definition madeFirewall :: "string \<Rightarrow> uci_section list" where
  "madeFirewall wan = zoneSection # wanSection wan # map ruleSection (guestRuleSpecs wan)"

definition madePoint :: "uci_section \<Rightarrow> bool" where
  "madePoint s \<longleftrightarrow> sec_kind s = ''wifi-iface'' \<and> guestWireless s \<and> attached s \<and> sopt s ''isolate'' = ''1'' \<and> sopt s ''bridge_isolate'' = ''1''"

text \<open>The home network keeps everything but its IPv6 assignment.\<close>

definition sameBut :: "string \<Rightarrow> uci_section \<Rightarrow> uci_section \<Rightarrow> bool" where
  "sameBut k s t \<longleftrightarrow> sec_id t = sec_id s \<and> sec_kind t = sec_kind s \<and> (\<forall>j. j \<noteq> k \<longrightarrow> sopt t j = sopt s j)"

section \<open>It is the panel's own\<close>

lemmas guest_names = guestSection_def guestDevSection_def guestBridge_def guestPrefix_def guestZone_def guestRules_def

lemma byID_last: "byID (secs @ [s]) i = (if sec_id s = i then Some s else byID secs i)"
  by (simp add: byID_def)

lemma byID_append: "byID (a @ b) i = (case byID b i of None \<Rightarrow> byID a i | Some s \<Rightarrow> Some s)"
  by (simp add: byID_def find_append split: option.split)

lemma byID_None: "i \<notin> sec_id ` set secs \<Longrightarrow> byID secs i = None"
  by (auto simp: byID_def find_None_iff)

lemma made_ours:
  "oursBySections (the_default noSection (byID (net @ [devSection, ifaceSection a]) guestDevSection))
     (the_default noSection (byID (net @ [devSection, ifaceSection a]) guestSection))"
  by (simp add: oursBySections_def byID_def devSection_def ifaceSection_def the_default_def guest_names bridgeOptions_def)

lemma made_shape:
  assumes "\<forall>s \<in> set wl. \<not> guestWireless s \<and> \<not> (sec_kind s = ''wifi-iface'' \<and> onGuest s)" "\<forall>s \<in> set ps. madePoint s"
  shows "readGuestShape (net @ [devSection, ifaceSection a]) fwall (wl @ ps) dh =
    \<lparr>gs_ours = True, gs_foreign = False, gs_ifaces = ps, gs_owned = ps, gs_stray = []\<rparr>"
proof -
  have p: "filter (\<lambda>s. sec_kind s = ''wifi-iface'') ps = ps" "filter guestWireless ps = ps" "filter (\<lambda>s. guestWireless s \<and> attached s) ps = ps"
    "filter (\<lambda>s. \<not> guestWireless s \<and> onGuest s) ps = []"
    using assms(2) by (auto simp: madePoint_def filter_id_conv filter_empty_conv)
  have w: "filter (\<lambda>s. (guestWireless s \<and> attached s) \<and> sec_kind s = ''wifi-iface'') wl = []"
    "filter (\<lambda>s. guestWireless s \<and> sec_kind s = ''wifi-iface'') wl = []"
    "filter (\<lambda>s. (\<not> guestWireless s \<and> onGuest s) \<and> sec_kind s = ''wifi-iface'') wl = []"
    using assms(1) by (auto simp: filter_empty_conv)
  show ?thesis
    using made_ours [of net a] p w by (simp add: readGuestShape_def Let_def conj_commute)
qed

text \<open>What it means that nothing is there yet, in sections that all have a name and a type.\<close>

lemma typed_byID: "typed secs \<Longrightarrow> sec_kind (the_default noSection (byID secs i)) = [] \<Longrightarrow> i \<notin> sec_id ` set secs"
  by (auto simp: typed_def byID_def the_default_def find_None_iff find_Some_iff split: option.splits) (metis length_rev nth_mem set_rev)

lemma nothing_there:
  assumes "\<not> gs_ours (readGuestShape net fwall wl dh)" "\<not> gs_foreign (readGuestShape net fwall wl dh)" "typed net"
  shows "guestSection \<notin> sec_id ` set net" "guestDevSection \<notin> sec_id ` set net"
    and "\<forall>s \<in> set fwall. \<not> guestFirewall s \<and> \<not> zoneNamed guestZone s"
    and "\<forall>s \<in> set dh. sec_id s \<noteq> guestSection"
    and "\<forall>s \<in> set wl. \<not> guestWireless s \<and> \<not> (sec_kind s = ''wifi-iface'' \<and> onGuest s)"
    and "\<forall>s \<in> set net. \<not> otherOnGuestBridge s"
  using assms typed_byID [OF assms(3)]
  by (auto simp: readGuestShape_def Let_def list_ex_iff split: if_splits)

section \<open>Nothing stands in its way\<close>

text \<open>The new sections of the firewall, one look at each.\<close>

lemma specs_ids: "map gr_id (guestRuleSpecs wan) = [''guest_dhcp'', ''guest_dns'', ''guest_icmpv6'', ''guest_dhcpv6'', ''guest_no_private4'', ''guest_no_private6'']"
  by (simp add: guestRuleSpecs_def Let_def)

lemma madeFirewall_list:
  "madeFirewall wan = [zoneSection, wanSection wan] @ map ruleSection (guestRuleSpecs wan)"
  by (simp add: madeFirewall_def)

lemma specs_all: "(\<forall>r \<in> set (guestRuleSpecs wan). P r) \<longleftrightarrow> list_all P (guestRuleSpecs wan)"
  by (simp add: list_all_iff)

lemma ruleSection_src: "r \<in> set (guestRuleSpecs wan) \<Longrightarrow> sopt (ruleSection r) ''src'' = guestZone"
  by (auto simp: guestRuleSpecs_def Let_def ruleSection_def)

lemma ruleSection_kind [simp]: "sec_kind (ruleSection r) = ''rule''" "sec_id (ruleSection r) = gr_id r"
  by (simp_all add: ruleSection_def)

lemma made_kinds: "s \<in> set (madeFirewall wan) \<Longrightarrow> sec_kind s \<in> {''rule'', ''forwarding''} \<or> s = zoneSection"
  by (auto simp: madeFirewall_list wanSection_def)

lemma made_src: "s \<in> set (madeFirewall wan) \<Longrightarrow> s = zoneSection \<or> sopt s ''src'' = guestZone"
  using ruleSection_src by (auto simp: madeFirewall_list wanSection_def)

lemma zoneSection_simps [simp]: "sec_kind zoneSection = ''zone''" "sec_id zoneSection = guestSection" "sopt zoneSection ''name'' = guestZone"
  "sopt zoneSection ''network'' = guestSection" "sopt zoneSection ''src'' = []" "sopt zoneSection ''enabled'' = []"
  by (simp_all add: zoneSection_def)

lemma find_none: "List.find P xs = None \<longleftrightarrow> (\<forall>x \<in> set xs. \<not> P x)"
  by (auto simp: find_None_iff)

lemma find_more: "\<forall>s \<in> set b. \<not> P s \<Longrightarrow> List.find P (a @ b) = List.find P a"
  using find_none [of P b] by (simp add: find_append split: option.split)

lemma find_sure: "List.find P a = Some s \<Longrightarrow> List.find P (a @ b) = Some s"
  by (simp add: find_append)

lemma titled: "sec_id s \<noteq> [] \<Longrightarrow> titleOf s \<noteq> []"
  by (simp add: titleOf_def firstNonEmpty_def)

lemma firstNonEmpty_Nil: "firstNonEmpty vs = [] \<longleftrightarrow> (\<forall>v \<in> set vs. v = [])"
  by (auto simp: firstNonEmpty_def find_none dest: find_in split: option.split)

lemma found_name: "typed secs \<Longrightarrow> (case List.find P secs of Some s \<Rightarrow> titleOf s | None \<Rightarrow> []) = [] \<longleftrightarrow> (\<forall>s \<in> set secs. \<not> P s)"
proof (cases "List.find P secs")
  case (Some s)
  assume "typed secs"
  moreover have "s \<in> set secs" "P s" using Some by (auto simp: find_Some_iff)
  ultimately show ?thesis using Some titled by (auto simp: typed_def)
next
  case None
  then show ?thesis using find_none [of P secs] by simp
qed

lemma uplinkZone_more:
  assumes "fst (uplinkZone fwall ifaces) \<noteq> []"
  shows "uplinkZone (fwall @ extra) ifaces = uplinkZone fwall ifaces"
  using assms unfolding uplinkZone_def Let_def
  by (cases "List.find (zoneHas (pickUplink ifaces)) fwall"; cases "List.find (zoneNamed ''wan'') fwall") (auto simp: find_append split: if_splits)

lemma uplinkZone_found: "uplinkZone fwall ifaces = (z, nets) \<Longrightarrow> z \<noteq> [] \<Longrightarrow> \<exists>s \<in> set fwall. zoneNamed z s"
  by (auto simp: uplinkZone_def Let_def zoneNamed_def zoneHas_def dest!: find_in split: if_splits option.splits)

text \<open>What a firewall without guests says stays what it says with the panel's sections behind it.\<close>

definition quietFirewall :: "uci_section list \<Rightarrow> string \<Rightarrow> bool" where
  "quietFirewall fwall wan \<longleftrightarrow> typed fwall \<and> (\<forall>s \<in> set fwall. \<not> guestFirewall s \<and> \<not> zoneNamed guestZone s \<and> \<not> fromEverywhere s \<and>
     \<not> noNAT wan s \<and> \<not> opensFromGuests wan [] s \<and> \<not> forwardsIntoGuests s \<and>
     \<not> (otherZone s \<and> (onGuest s \<or> zoneBindsDevice s guestBridge \<or> list_ex hazard (Fields (sopt s ''subnet'')))))"

lemma made_not_everywhere: "s \<in> set (madeFirewall wan) \<Longrightarrow> \<not> fromEverywhere s"
  using made_src [of s wan] by (auto simp: fromEverywhere_def guest_names)

lemma made_not_named: "s \<in> set (madeFirewall wan) \<Longrightarrow> z \<noteq> guestZone \<Longrightarrow> \<not> zoneNamed z s"
  using made_kinds [of s wan] by (auto simp: zoneNamed_def)

lemma made_not_otherZone: "s \<in> set (madeFirewall wan) \<Longrightarrow> \<not> otherZone s"
  using made_kinds [of s wan] by (auto simp: otherZone_def)

lemma made_not_open: "s \<in> set (madeFirewall wan) \<Longrightarrow> \<not> opensFromGuests wan (map gr_id (guestRuleSpecs wan)) s \<and> \<not> forwardsIntoGuests s"
  using made_kinds [of s wan] by (auto simp: opensFromGuests_def forwardsIntoGuests_def madeFirewall_list wanSection_def guest_names)

lemma quiet_found:
  assumes "quietFirewall fwall wan" "wan \<noteq> guestZone"
  shows "List.find fromEverywhere (fwall @ madeFirewall wan) = None" "\<not> list_ex (noNAT wan) (fwall @ madeFirewall wan)"
    and "zoneTakingGuests (fwall @ madeFirewall wan) = []" "subnetHazard (fwall @ madeFirewall wan) = []"
    and "guestOpenings (fwall @ madeFirewall wan) wan (map gr_id (guestRuleSpecs wan)) = []"
proof -
  note q = assms(1) [unfolded quietFirewall_def]
  have z: "\<not> (sec_kind s = ''zone'' \<and> sec_id s \<noteq> guestSection \<and> (onGuest s \<or> zoneBindsDevice s guestBridge))" if "s \<in> set (fwall @ madeFirewall wan)" for s
    using that q made_not_otherZone [of s wan] by (auto simp: otherZone_def)
  have h: "\<not> (otherZone s \<and> list_ex hazard (Fields (sopt s ''subnet'')))" if "s \<in> set (fwall @ madeFirewall wan)" for s
    using that q made_not_otherZone [of s wan] by auto
  have o: "\<not> opensFromGuests wan (map gr_id (guestRuleSpecs wan)) s" if "s \<in> set (fwall @ madeFirewall wan)" for s
  proof (cases "s \<in> set fwall")
    case True
    with q have "\<not> opensFromGuests wan [] s" by blast
    then show ?thesis by (auto simp: opensFromGuests_def)
  qed (use that made_not_open in auto)
  have f: "\<not> forwardsIntoGuests s" if "s \<in> set (fwall @ madeFirewall wan)" for s
    using that q made_not_open by auto
  show "List.find fromEverywhere (fwall @ madeFirewall wan) = None"
    unfolding find_none using q made_not_everywhere by auto
  show "\<not> list_ex (noNAT wan) (fwall @ madeFirewall wan)"
    using q made_not_named [OF _ assms(2)] by (auto simp: list_ex_iff noNAT_def)
  show "zoneTakingGuests (fwall @ madeFirewall wan) = []"
  proof -
    have "List.find (\<lambda>s. sec_kind s = ''zone'' \<and> sec_id s \<noteq> guestSection \<and> (onGuest s \<or> zoneBindsDevice s guestBridge)) (fwall @ madeFirewall wan) = None"
      unfolding find_none using z by blast
    then show ?thesis by (simp add: zoneTakingGuests_def)
  qed
  show "subnetHazard (fwall @ madeFirewall wan) = []"
  proof -
    have "List.find (\<lambda>s. otherZone s \<and> list_ex hazard (Fields (sopt s ''subnet''))) (fwall @ madeFirewall wan) = None"
      unfolding find_none using h by blast
    then show ?thesis by (simp add: subnetHazard_def)
  qed
  show "guestOpenings (fwall @ madeFirewall wan) wan (map gr_id (guestRuleSpecs wan)) = []"
  proof -
    have "List.find (opensFromGuests wan (map gr_id (guestRuleSpecs wan))) (fwall @ madeFirewall wan) = None" unfolding find_none using o by blast
    moreover have "List.find forwardsIntoGuests (fwall @ madeFirewall wan) = None" unfolding find_none using f by blast
    ultimately show ?thesis by (simp add: guestOpenings_def)
  qed
qed

lemma guestOpenings_Nil: "typed fwall \<Longrightarrow> guestOpenings fwall wan skip = [] \<longleftrightarrow>
    (\<forall>s \<in> set fwall. \<not> opensFromGuests wan skip s \<and> \<not> forwardsIntoGuests s)"
proof -
  assume t: "typed fwall"
  show ?thesis
  proof (cases "List.find (opensFromGuests wan skip) fwall")
    case None
    then have "guestOpenings fwall wan skip = (case List.find forwardsIntoGuests fwall of Some s \<Rightarrow> titleOf s | None \<Rightarrow> [])"
      by (simp add: guestOpenings_def)
    moreover have "\<forall>s \<in> set fwall. \<not> opensFromGuests wan skip s" using None unfolding find_none .
    ultimately show ?thesis using found_name [OF t, of forwardsIntoGuests] by metis
  next
    case (Some s)
    with found_name [OF t, of "opensFromGuests wan skip"] find_in [OF Some] show ?thesis by (auto simp: guestOpenings_def)
  qed
qed

lemma blocker_open:
  assumes "fst (guestBlocker st) = []" "\<not> gs_ours (st_shape st)" "typed (st_firewall st)"
    and "\<forall>s \<in> set (st_firewall st). \<not> guestFirewall s \<and> \<not> zoneNamed guestZone s"
    and "uplinkZone (st_firewall st) (st_ifaces st) = (wan, nets)"
  shows "wan \<noteq> []" "wan \<noteq> guestZone" "lanSection \<notin> set nets" "\<not> zoneHoldsHome (st_firewall st) (st_network st) wan"
    and "ipv6UplinkZone st = [] \<or> ipv6UplinkZone st = wan" "dhcpSkipsGuests (st_dhcp st) = []" "quietFirewall (st_firewall st) wan"
proof -
  let ?f = "st_firewall st"
  note b = assms(1) [unfolded guestBlocker_def assms(5) Let_def]
  show w: "wan \<noteq> []" and "lanSection \<notin> set nets" and "\<not> zoneHoldsHome ?f (st_network st) wan"
    and "ipv6UplinkZone st = [] \<or> ipv6UplinkZone st = wan" and "dhcpSkipsGuests (st_dhcp st) = []"
    using b assms(2) by (auto split: if_splits option.splits)
  show "wan \<noteq> guestZone" using uplinkZone_found [OF assms(5) w] assms(4) by auto
  have n: "\<not> list_ex (noNAT wan) ?f" "List.find fromEverywhere ?f = None" "beforeGuests st wan = []"
    using b assms(2) by (auto split: if_splits option.splits)
  then have o: "guestOpenings ?f wan [] = []" "zoneTakingGuests ?f = []" "subnetHazard ?f = []"
    by (simp_all add: beforeGuests_def firstOf_def firstNonEmpty_Nil)
  have "\<forall>s \<in> set ?f. \<not> opensFromGuests wan [] s \<and> \<not> forwardsIntoGuests s" using o(1) guestOpenings_Nil [OF assms(3)] by blast
  moreover have "\<forall>s \<in> set ?f. \<not> (otherZone s \<and> (onGuest s \<or> zoneBindsDevice s guestBridge))"
    using o(2) unfolding zoneTakingGuests_def found_name [OF assms(3)] otherZone_def by blast
  moreover have "\<forall>s \<in> set ?f. \<not> (otherZone s \<and> list_ex hazard (Fields (sopt s ''subnet'')))"
    using o(3) unfolding subnetHazard_def found_name [OF assms(3)] .
  moreover have "\<forall>s \<in> set ?f. \<not> noNAT wan s \<and> \<not> fromEverywhere s" using n(1,2) unfolding find_none list_ex_iff by blast
  ultimately show "quietFirewall ?f wan" using assms(3,4) unfolding quietFirewall_def by blast
qed

text \<open>The home network and the daemon's connections: nothing the checks read of them changes.\<close>

definition sameHome :: "uci_section list \<Rightarrow> uci_section list \<Rightarrow> bool" where
  "sameHome net net' \<longleftrightarrow> list_all2 (sameBut ''ip6assign'') net net'"

lemma sameHome_refl [simp]: "sameHome net net"
  by (simp add: sameHome_def list_all2_same sameBut_def)

lemma lanDeviceOf_made: "sameHome net net' \<Longrightarrow> lanDeviceOf (net' @ [devSection, ifaceSection a]) = lanDeviceOf net"
proof -
  let ?f = "\<lambda>s d. if sec_id s = lanSection \<and> sopt s ''device'' \<noteq> [] then sopt s ''device'' else d"
  assume "sameHome net net'"
  then have "fold ?f net' d = fold ?f net d" for d
    unfolding sameHome_def by (induction arbitrary: d rule: list_all2_induct) (auto simp: sameBut_def)
  then show ?thesis by (simp add: lanDeviceOf_def devSection_def ifaceSection_def lanSection_def guest_names)
qed

lemma find_same:
  assumes "sameHome net net'" "\<And>s t. sameBut ''ip6assign'' s t \<Longrightarrow> P t = P s"
  shows "map_option sec_id (List.find P net') = map_option sec_id (List.find P net)"
  using assms(1) unfolding sameHome_def
  by (induction rule: list_all2_induct) (use assms(2) in \<open>auto simp: sameBut_def\<close>)

lemma ipv6UplinkName_made:
  assumes "sameHome net net'"
  shows "ipv6UplinkName (net' @ [devSection, ifaceSection a]) ifaces = ipv6UplinkName net ifaces"
proof -
  let ?P = "\<lambda>s. sec_kind s = ''interface'' \<and> sopt s ''proto'' = ''dhcpv6''"
  have m: "List.find ?P (net' @ [devSection, ifaceSection a]) = List.find ?P net'"
    by (rule find_more) (simp add: devSection_def ifaceSection_def)
  have "map_option sec_id (List.find ?P net') = map_option sec_id (List.find ?P net)"
    by (rule find_same [OF assms]) (simp add: sameBut_def)
  then show ?thesis unfolding ipv6UplinkName_def m Let_def by (auto split: option.splits)
qed

lemma ipv6UplinkName_from: "ipv6UplinkName net ifaces = n \<Longrightarrow> n = [] \<or> (\<exists>i \<in> set ifaces. ui_Name i = n) \<or> (\<exists>s \<in> set net. sec_id s = n)"
  by (auto simp: ipv6UplinkName_def Let_def dest!: find_in split: if_splits option.splits)

section \<open>No protection is missing\<close>

lemma made_byID:
  "byID (fwall @ madeFirewall wan) guestSection = Some zoneSection"
  "byID (fwall @ madeFirewall wan) ''guest_wan'' = Some (wanSection wan)"
  "r \<in> set (guestRuleSpecs wan) \<Longrightarrow> byID (fwall @ madeFirewall wan) (gr_id r) = Some (ruleSection r)"
proof -
  have "byID (madeFirewall wan) guestSection = Some zoneSection" "byID (madeFirewall wan) ''guest_wan'' = Some (wanSection wan)"
    by (simp_all add: byID_def madeFirewall_def guestRuleSpecs_def Let_def wanSection_def guestSection_def)
  then show "byID (fwall @ madeFirewall wan) guestSection = Some zoneSection" "byID (fwall @ madeFirewall wan) ''guest_wan'' = Some (wanSection wan)"
    by (simp_all add: byID_append)
  have "\<forall>r \<in> set (guestRuleSpecs wan). byID (madeFirewall wan) (gr_id r) = Some (ruleSection r)"
    by (simp add: byID_def madeFirewall_def guestRuleSpecs_def Let_def)
  then show "r \<in> set (guestRuleSpecs wan) \<Longrightarrow> byID (fwall @ madeFirewall wan) (gr_id r) = Some (ruleSection r)"
    by (simp add: byID_append)
qed

lemma made_reads: "r \<in> set (guestRuleSpecs wan) \<Longrightarrow> readsAs r (ruleSection r)"
proof -
  have "\<forall>r \<in> set (guestRuleSpecs wan). readsAs r (ruleSection r)"
    by (simp add: guestRuleSpecs_def Let_def readsAs_def ruleSection_def wantedOptions_def)
  then show "r \<in> set (guestRuleSpecs wan) \<Longrightarrow> readsAs r (ruleSection r)" by blast
qed

lemma made_firewall_whole:
  assumes "quietFirewall fwall wan" "wan \<noteq> guestZone" "fst (uplinkZone fwall ifaces) = wan" "wan \<noteq> []"
  shows "zoneWeakened (fwall @ madeFirewall wan) = []" "boundWeakened (fwall @ madeFirewall wan) = []"
    and "hazardWeakened (fwall @ madeFirewall wan) = []" "takenWeakened (fwall @ madeFirewall wan) = []"
    and "forwardingWeakened (fwall @ madeFirewall wan) ifaces = []" "rulesWeakened (fwall @ madeFirewall wan) wan = []"
    and "openingsWeakened (fwall @ madeFirewall wan) wan = []"
proof -
  note q = quiet_found [OF assms(1,2)]
  show "zoneWeakened (fwall @ madeFirewall wan) = []" "boundWeakened (fwall @ madeFirewall wan) = []"
    unfolding zoneWeakened_def boundWeakened_def made_byID by (simp_all add: zoneSection_def closedPolicy_def EqualFold_def)
  show "hazardWeakened (fwall @ madeFirewall wan) = []" "takenWeakened (fwall @ madeFirewall wan) = []" "openingsWeakened (fwall @ madeFirewall wan) wan = []"
    using q by (simp_all add: hazardWeakened_def takenWeakened_def openingsWeakened_def)
  show "forwardingWeakened (fwall @ madeFirewall wan) ifaces = []"
    using uplinkZone_more [of fwall ifaces "madeFirewall wan"] assms(3,4)
    unfolding forwardingWeakened_def made_byID by (simp add: wanSection_def)
  have "List.find (\<lambda>r. case byID (fwall @ madeFirewall wan) (gr_id r) of None \<Rightarrow> True | Some s \<Rightarrow> \<not> readsAs r s) (guestRuleSpecs wan) = None"
    unfolding find_none using made_byID(3) made_reads by fastforce
  then show "rulesWeakened (fwall @ madeFirewall wan) wan = []" by (simp add: rulesWeakened_def)
qed

lemma made_bridge:
  assumes "guestDevSection \<notin> sec_id ` set net"
  shows "bridgeWeakened (net @ [devSection, ifaceSection a]) = []"
proof -
  have "filter (\<lambda>s. sec_id s = guestDevSection) (net @ [devSection, ifaceSection a]) = [devSection]"
    using assms by (auto simp: filter_empty_conv image_iff devSection_def ifaceSection_def guest_names)
  then show ?thesis by (simp add: bridgeWeakened_def devSection_def bridgeOptions_def)
qed

lemma made_neighbours:
  assumes "\<forall>s \<in> set net. \<not> otherOnGuestBridge s"
  shows "neighbourWeakened (net @ [devSection, ifaceSection a]) = []"
proof -
  have "List.find otherOnGuestBridge (net @ [devSection, ifaceSection a]) = None"
    unfolding find_none using assms by (auto simp: otherOnGuestBridge_def devSection_def ifaceSection_def)
  then show ?thesis by (simp add: neighbourWeakened_def)
qed

lemma made_points: "\<forall>s \<in> set ps. madePoint s \<Longrightarrow>
    pointsWeakened \<lparr>gs_ours = True, gs_foreign = False, gs_ifaces = ps, gs_owned = ps, gs_stray = []\<rparr> = []"
proof -
  assume p: "\<forall>s \<in> set ps. madePoint s"
  then have "List.find (\<lambda>s. \<not> attached s) ps = None" "List.find (\<lambda>s. sopt s ''isolate'' \<noteq> ''1'' \<or> sopt s ''bridge_isolate'' \<noteq> ''1'') ps = None"
    unfolding find_none by (auto simp: madePoint_def)
  then show ?thesis by (simp add: pointsWeakened_def)
qed

text \<open>The guests' own range, read back from the interface, is the one that was chosen, and no zone is bound to part of it.\<close>

lemma netmask_value: "netmask4 24 = 0xFFFFFF00"
  by code_simp

lemma mask_text: "ParseIP4 ''255.255.255.0'' = Some 0xFFFFFF00"
  by code_simp

lemma mask_24: "ParseIP4 ''255.255.255.0'' = Some (netmask4 24)" "fst (mask_Size (netmask4 24)) = 24"
  by (simp_all only: netmask_value mask_text) (simp_all add: netmask_value [symmetric] mask_Size_netmask)

lemma guestOpt4_made: "guestSection \<notin> sec_id ` set net \<Longrightarrow> guestOpt4 (net @ [devSection, ifaceSection a]) k = sopt (ifaceSection a) k"
proof -
  assume "guestSection \<notin> sec_id ` set net"
  then have "List.find (\<lambda>s. sec_id s = guestSection) net = None" unfolding find_none by (auto simp: image_iff)
  then show ?thesis by (simp add: guestOpt4_def find_append devSection_def ifaceSection_def guest_names)
qed

lemma Fields_address: "Fields (ip4_string a) = [ip4_string a]"
proof -
  have "\<not> is_space c" if "c \<in> set (ip4_string a)" for c
  proof -
    from that have "c = CHR ''.'' \<or> (\<exists>n. c \<in> set (nat_digits n))" by (auto simp: ip4_string_def octets4_def)
    then show ?thesis
    proof
      assume "\<exists>n. c \<in> set (nat_digits n)"
      then obtain n where "c \<in> set (nat_digits n)" ..
      then have "is_digit c" using all_digits_nat_digits [of n] by (simp add: all_digits_def list_all_iff)
      then show ?thesis by (auto simp: is_digit_def is_space_def)
    qed (simp add: is_space_def)
  qed
  then show ?thesis unfolding Fields_def by (intro FieldsFunc_word) (auto simp: ip4_string_ends(3))
qed

lemma netmask_24: "netmask4 24 = not 0xFF" "and (netmask4 24) 1 = 0" "and 1 (netmask4 24) = 0"
  by code_simp+

lemma network4_firstHost: "network4 24 b = b \<Longrightarrow> network4 24 (and b (not 0xFF) + 1) = b"
proof -
  assume b: "network4 24 b = b"
  then have m: "and b (netmask4 24) = b" by (simp add: network4_def)
  have "and b 1 = and b (and (netmask4 24) 1)" using m by (metis and.assoc)
  then have "and b 1 = 0" by (simp add: netmask_24)
  then have o': "b + 1 = or b 1" using word_plus_and_or [of b 1] by simp
  have "and b (not 0xFF) = b" using m by (simp only: netmask_24(1))
  then have "network4 24 (and b (not 0xFF) + 1) = network4 24 (or b 1)" by (simp only: o')
  also have "\<dots> = b" using m by (simp add: network4_def bit.conj_disj_distrib2 netmask_24(3))
  finally show ?thesis .
qed

lemma ranges_taken:
  assumes "quietFirewall fwall wan" "(n, p) \<in> set (zoneSubnets fwall)"
  shows "\<exists>a k. p = \<lparr>pfx_addr = V4 a, pfx_bits = k\<rparr> \<and> N4 (network4 k a) k \<in> set (kernelNets (map snd (zoneSubnets fwall)))"
proof -
  from assms(2) obtain s v p0 where s: "s \<in> set fwall" "otherZone s" "v \<in> set (Fields (sopt s ''subnet''))"
    and v: "\<not> HasPrefix v ''!''" "prefixOrAddr v = Some p0" "p = Masked p0"
    by (auto simp: zoneSubnets_def map_filter_def split: if_splits)
  have "\<not> hazard v" using assms(1) s by (auto simp: quietFirewall_def list_ex_iff)
  then have h: "Is4 (pfx_addr p0)" "minLocalBits \<le> pfx_bits p0" using v by (auto simp: hazard_def TrimPrefix_def)
  then obtain a0 where "pfx_addr p0 = V4 a0" by (cases "pfx_addr p0") auto
  with v(3) have p: "p = \<lparr>pfx_addr = V4 (network4 (pfx_bits p0) a0), pfx_bits = pfx_bits p0\<rparr>" by (cases p0) (simp add: Masked_def)
  have "p \<in> set (map snd (zoneSubnets fwall))" using assms(2) by force
  then show ?thesis using p h(2) by (force simp: kernelNets_def)
qed

lemma overlap_shares:
  assumes "pfx_Overlaps \<lparr>pfx_addr = V4 a, pfx_bits = k\<rparr> \<lparr>pfx_addr = V4 b, pfx_bits = 24\<rparr>"
  shows "\<exists>x. net_Contains (N4 (network4 k a) k) (V4 x) \<and> net_Contains (N4 b 24) (V4 x)"
proof (cases "k \<le> 24")
  case True
  with assms have "network4 k b = network4 k a" by (simp add: pfx_Overlaps_def min_def)
  then show ?thesis by (intro exI [of _ b]) simp
next
  case False
  with assms have "network4 24 a = network4 24 b" by (simp add: pfx_Overlaps_def min_def)
  then show ?thesis by (intro exI [of _ a]) simp
qed

lemma zoneSubnets_made: "zoneSubnets (fwall @ madeFirewall wan) = zoneSubnets fwall"
proof -
  have "filter otherZone (madeFirewall wan) = []" using made_not_otherZone by (simp add: filter_empty_conv)
  then show ?thesis by (simp add: zoneSubnets_def)
qed

lemma made_apart:
  assumes "quietFirewall fwall wan" "guestSection \<notin> sec_id ` set net" "network4 24 b = b"
    and "\<And>t x. t \<in> set (kernelNets (map snd (zoneSubnets fwall))) \<Longrightarrow> \<not> (net_Contains t (V4 x) \<and> net_Contains (N4 b 24) (V4 x))"
  shows "coveredWeakened (fwall @ madeFirewall wan) (net @ [devSection, ifaceSection (ip4_string (and b (not 0xFF) + 1))]) = []"
proof -
  let ?h = "and b (not 0xFF) + 1"
  have "configuredPrefix (ip4_string ?h) ''255.255.255.0'' = [\<lparr>pfx_addr = V4 b, pfx_bits = 24\<rparr>]"
    using network4_firstHost [OF assms(3)]
    by (simp add: configuredPrefix_def ParsePrefix_plain digits_no_slash ParseAddr_ip4 mask_24 Masked_def)
  then have g: "guestSubnetOf (net @ [devSection, ifaceSection (ip4_string ?h)]) = [\<lparr>pfx_addr = V4 b, pfx_bits = 24\<rparr>]"
    unfolding guestSubnetOf_def guestOpt4_made [OF assms(2)] by (simp add: ifaceSection_def Fields_address firstNonEmpty_def)
  have "List.find (\<lambda>(n, p). pfx_Overlaps p \<lparr>pfx_addr = V4 b, pfx_bits = 24\<rparr>) (zoneSubnets fwall) = None"
    unfolding find_none using ranges_taken [OF assms(1)] overlap_shares assms(4) by fastforce
  then show ?thesis unfolding coveredWeakened_def g zoneSubnets_made by simp
qed

section \<open>Altogether\<close>

lemma skips_made:
  assumes "sec_kind s \<noteq> ''dnsmasq''"
  shows "dhcpSkipsGuests (dh @ [s]) = dhcpSkipsGuests dh"
  using assms by (simp add: dhcpSkipsGuests_def)

lemma zoneHoldsHome_made:
  assumes "sameHome net net'" "wan \<noteq> guestZone" "\<not> zoneHoldsHome fwall net wan"
  shows "\<not> zoneHoldsHome (fwall @ madeFirewall wan) (net' @ [devSection, ifaceSection a]) wan"
  using assms(3) made_not_named [OF _ assms(2)] unfolding zoneHoldsHome_def list_ex_append lanDeviceOf_made [OF assms(1)]
  by (auto simp: list_ex_iff)

lemma sameHome_facts:
  assumes "sameHome net net'"
  shows "sec_id ` set net' = sec_id ` set net" "(\<forall>s \<in> set net. \<not> otherOnGuestBridge s) \<Longrightarrow> \<forall>s \<in> set net'. \<not> otherOnGuestBridge s"
  using assms unfolding sameHome_def
  by (induction rule: list_all2_induct) (auto simp: sameBut_def otherOnGuestBridge_def)

text \<open>The state after: the daemon still lists no connection of the guests' name, and every file holds the panel's sections behind its own.\<close>

lemma made_state_open:
  assumes before: "\<not> gs_ours (st_shape st)" "\<not> gs_foreign (st_shape st)" "fst (guestBlocker st) = []"
    "st_shape st = readGuestShape (st_network st) (st_firewall st) wl (st_dhcp st)" "typed (st_network st)" "typed (st_firewall st)"
    and named: "\<forall>i \<in> set (st_ifaces st). ui_Name i \<noteq> guestSection"
    and wan: "wan = fst (uplinkZone (st_firewall st) (st_ifaces st))"
    and free: "freeGuestSubnet (st_ifaces st) (guestTaken st routes) = Inr c"
    and after: "sameHome (st_network st) net'" "st_network st' = net' @ [devSection, ifaceSection (firstHost c)]"
      "st_firewall st' = st_firewall st @ madeFirewall wan" "st_dhcp st' = st_dhcp st @ [d]" "sec_kind d \<noteq> ''dnsmasq''" "st_ifaces st' = st_ifaces st"
      "st_shape st' = readGuestShape (st_network st') (st_firewall st') (wl @ ps) (st_dhcp st')" "\<forall>s \<in> set ps. madePoint s"
  shows "gs_ours (st_shape st') \<and> gs_ifaces (st_shape st') = ps \<and> guestBlocker st' = ([], [])"
proof -
  let ?f = "st_firewall st" and ?n = "st_network st"
  note there = nothing_there [OF before(1,2) [unfolded before(4)] before(5)]
  obtain nets where up: "uplinkZone ?f (st_ifaces st) = (wan, nets)" using wan by (metis prod.collapse)
  note opn = blocker_open [OF before(3,1,6) there(3) up]
  have up': "uplinkZone (st_firewall st') (st_ifaces st') = (wan, nets)"
    using uplinkZone_more [of ?f "st_ifaces st" "madeFirewall wan"] up opn(1) after by simp
  note names = sameHome_facts [OF after(1)]
  from free have cfree: "c \<in> set guestNets" "freeNet (takenNets (st_ifaces st) (guestTaken st routes)) c"
    by (auto simp: freeGuestSubnet_def dest: find_in split: option.splits)
  from guestNets_parse [OF cfree(1)] obtain b where b: "network4 24 b = b" "ParseCIDR c = Some (V4 b, N4 b 24)" by blast
  have host: "firstHost c = ip4_string (and b (not 0xFF) + 1)" by (simp add: firstHost_def b)
  have "\<not> (net_Contains t (V4 x) \<and> net_Contains (N4 b 24) (V4 x))" if "t \<in> set (kernelNets (map snd (zoneSubnets ?f)))" for t x
    using freeNet_apart [OF cfree(2) b(2), of t x] that by (auto simp: takenNets_def guestTaken_def kernelNets_def)
  note covered = made_apart [OF opn(7) _ b(1) this]
  have shape: "st_shape st' = \<lparr>gs_ours = True, gs_foreign = False, gs_ifaces = ps, gs_owned = ps, gs_stray = []\<rparr>"
    unfolding after(7) after(2) by (rule made_shape [OF there(5) after(8)])
  have firstWan: "fst (uplinkZone ?f (st_ifaces st)) = wan" using up by simp
  note whole = made_firewall_whole [OF opn(7,2) firstWan opn(1)]
  have weak: "guestWeakened st' = []"
    using whole made_bridge [of net' "firstHost c"] made_neighbours [of net' "firstHost c"] made_points [OF after(8)] covered [of net'] names there(1,2,6) up' shape
    unfolding guestWeakened_def Let_def firstOf_def firstNonEmpty_Nil up' fst_conv after(2,3,6) shape host by simp
  have z6: "ipv6UplinkZone st' = ipv6UplinkZone st"
  proof -
    have n: "ipv6UplinkName (st_network st') (st_ifaces st') = ipv6UplinkName ?n (st_ifaces st)"
      unfolding after(2,6) by (rule ipv6UplinkName_made [OF after(1)])
    let ?i = "ipv6UplinkName ?n (st_ifaces st)"
    have "?i \<noteq> guestSection" if "?i \<noteq> []" using ipv6UplinkName_from [of ?n "st_ifaces st" ?i] that named there(1) by force
    then have "\<forall>s \<in> set (madeFirewall wan). \<not> zoneHas ?i s" if "?i \<noteq> []"
      using that made_kinds [of _ wan] FieldsFunc_word [of guestSection is_space] by (fastforce simp: zoneHas_def Fields_def guestSection_def is_space_def)
    then show ?thesis unfolding ipv6UplinkZone_def n Let_def after(3) using find_more [of "madeFirewall wan" "zoneHas ?i" ?f] by simp
  qed
  have home: "\<not> zoneHoldsHome (st_firewall st') (st_network st') wan"
    unfolding after(2,3) by (rule zoneHoldsHome_made [OF after(1) opn(2,4)])
  have skips: "dhcpSkipsGuests (st_dhcp st') = []" unfolding after(4) using skips_made [OF after(5)] opn(6) by simp
  have "guestBlocker st' = ([], [])"
    using quiet_found(1,2) [OF opn(7,2)] opn(1,3,5) home skips weak shape z6 up'
    unfolding after(3) by (simp add: guestBlocker_def after(3) Let_def)
  with shape show ?thesis by simp
qed

end
