(* ===== verification/Guest_Staged.thy ===== *)
theory Guest_Staged
  imports Guest_Made
begin

text \<open>
  What \<^verbatim>\<open>StageGuest\<close> leaves in the draft, step by step: the sections of the guest network as groups of the lines it sets, and the property that a
  staged guest network is whole.
\<close>

section \<open>The lines it writes\<close>

lemma setKeys_each: "setKeys run touched kvs w = setEach run (discard run touched) kvs w"
  by (induction kvs arbitrary: w) (auto split: prod.splits option.splits)

context uci_sections
begin

lemma add_items:
  assumes "addLists run touched (map (\<lambda>(c, i, k, v). (c @ ''.'' @ i @ ''.'' @ k, v)) its) w = (Inr (), w')"
    and "\<forall>(c, i, k, v) \<in> set its. plainName c \<and> plainName i \<and> plainName k \<and> newline \<notin> set v \<and> quote \<notin> set v"
  shows "secs w' = fold (\<lambda>(c, i, k, v) f. f(c := addItem i k v (f c))) its (secs w)"
  using assms
proof (induction its arbitrary: w)
  case (Cons it its)
  obtain c i k v where it: "it = (c, i, k, v)" by (cases it) auto
  from Cons.prems(1) it obtain out w1 where r: "run ''uci'' [''add_list'', (c @ ''.'' @ i @ ''.'' @ k) @ ''='' @ v] w = (Inr out, w1)"
    and rest: "addLists run touched (map (\<lambda>(c, i, k, v). (c @ ''.'' @ i @ ''.'' @ k, v)) its) w1 = (Inr (), w')"
    by (auto split: prod.splits sum.splits)
  have "secs w1 = (secs w)(c := addItem i k v (secs w c))" using add_item [OF _ _ _ _ _ r] Cons.prems(2) it by auto
  with Cons.IH [OF rest] Cons.prems(2) it show ?case by simp
qed simp

end

section \<open>The sections StageGuest asks for\<close>

lemma uplink_clean: "cleanSections fwall \<Longrightarrow> bare (fst (uplinkZone fwall ifaces))"
proof -
  have w: "bare ''wan''" by (simp add: bare_def)
  show "cleanSections fwall \<Longrightarrow> ?thesis" using sopt_clean [of fwall _ "''name''"] w
    by (auto simp: uplinkZone_def Let_def dest!: find_in split: option.split)
qed

type_synonym new_sections = "new_section list"

definition netGroups :: "string \<Rightarrow> new_sections" where
  "netGroups address =
     [(''network'', guestDevSection, ''device'', bridgeOptions), (''network'', guestSection, ''interface'', sec_options (ifaceSection address))]"

definition pointGroup :: "guest_config \<Rightarrow> string \<Rightarrow> string \<Rightarrow> new_section" where
  "pointGroup cfg enc i = (''wireless'', guestPrefix @ i, ''wifi-iface'',
     [(''device'', i), (''mode'', ''ap''), (''network'', guestSection), (''ssid'', gc_SSID cfg), (''encryption'', enc), (''key'', gc_Password cfg),
      (''isolate'', ''1''), (''bridge_isolate'', ''1'')])"

definition dhcpGroup :: new_section where
  "dhcpGroup = (''dhcp'', guestSection, ''dhcp'',
     [(''interface'', guestSection), (''start'', ''100''), (''limit'', ''150''), (''leasetime'', ''2h''), (''dhcpv4'', ''server''), (''dhcpv6'', ''server''),
      (''ra'', ''server''), (''ra_slaac'', ''1'')])"

definition ruleGroup :: "guest_rule_spec \<Rightarrow> new_section" where
  "ruleGroup r = (''firewall'', gr_id r, ''rule'', (''name'', gr_name r) # gr_opts r)"

definition firewallGroups :: "string \<Rightarrow> new_sections" where
  "firewallGroups wan =
     (''firewall'', guestSection, ''zone'', sec_options zoneSection) # (''firewall'', ''guest_wan'', ''forwarding'', sec_options (wanSection wan)) #
     map ruleGroup (guestRuleSpecs wan)"

lemma pointSets_group: "pointSets cfg enc = groupSets \<circ> pointGroup cfg enc"
  by (rule ext) (simp add: pointSets_def pointGroup_def Let_def)

lemma dhcpSets_group: "dhcpSets = groupSets dhcpGroup"
  by (simp add: dhcpSets_def dhcpGroup_def Let_def)

lemma ruleSets_group: "ruleSets = groupSets \<circ> ruleGroup"
  by (rule ext) (simp add: ruleSets_def ruleGroup_def fw_def)

lemma networkSets_groups: "networkSets address renumber = concat (map groupSets (netGroups address)) @
    (if renumber then [(''network'' @ ''.'' @ lanSection @ ''.'' @ ''ip6assign'', Itoa guestAssign)] else [])"
  by (simp add: networkSets_def netGroups_def Let_def ifaceSection_def bridgeOptions_def lanSection_def)

lemma firewallSets_groups: "firewallSets wan = concat (map groupSets (firewallGroups wan))"
  by (simp add: firewallSets_def firewallGroups_def Let_def fw_def zoneSection_def wanSection_def comp_def ruleSets_group)

lemma guestSets_groups: "guestSets cfg enc address renumber radios wan = concat (map groupSets (netGroups address)) @
    (if renumber then [(''network'' @ ''.'' @ lanSection @ ''.'' @ ''ip6assign'', Itoa guestAssign)] else []) @
    concat (map groupSets (map (pointGroup cfg enc) radios @ [dhcpGroup] @ firewallGroups wan))"
  unfolding guestSets_def networkSets_groups firewallSets_groups dhcpSets_group by (simp add: pointSets_group comp_def)

lemma plain_names: "list_all plainName [''network'', ''wireless'', ''dhcp'', ''firewall'', guestSection, guestDevSection, ''guest_wan'', ''guest_dhcp'', ''guest_dns'',
    ''guest_icmpv6'', ''guest_dhcpv6'', ''guest_no_private4'', ''guest_no_private6'', lanSection]"
  by code_simp

lemma plain_options: "list_all plainName [''name'', ''type'', ''bridge_empty'', ''device'', ''proto'', ''ipaddr'', ''netmask'', ''ip6assign'', ''mode'', ''network'',
    ''ssid'', ''encryption'', ''key'', ''isolate'', ''bridge_isolate'', ''interface'', ''start'', ''limit'', ''leasetime'', ''dhcpv4'', ''dhcpv6'', ''ra'', ''ra_slaac'',
    ''input'', ''output'', ''forward'', ''src'', ''dest'', ''dest_port'', ''target'', ''family'', ''icmp_type'', ''dest_ip'']"
  by code_simp

lemma plain_kinds: "list_all plainWord [''device'', ''interface'', ''wifi-iface'', ''dhcp'', ''zone'', ''forwarding'', ''rule'']"
  by code_simp

lemma sectionName_plain: "sectionName i \<Longrightarrow> plainName (guestPrefix @ i)"
proof -
  have "list_all word_char guestPrefix" by code_simp
  then show "sectionName i \<Longrightarrow> plainName (guestPrefix @ i)" by (simp add: sectionName_def plainName_def guestPrefix_def)
qed

lemma assign_text: "Itoa guestAssign = ''64''"
  by code_simp

lemma netGroups_plain: "newline \<notin> set address \<Longrightarrow> \<forall>g \<in> set (netGroups address). groupPlain g"
  using plain_names plain_options plain_kinds by (simp add: netGroups_def bridgeOptions_def ifaceSection_def assign_text guestBridge_def)

lemma pointGroup_plain:
  assumes "sectionName i" "newline \<notin> set (gc_SSID cfg)" "newline \<notin> set (gc_Password cfg)" "newline \<notin> set enc"
  shows "groupPlain (pointGroup cfg enc i)"
proof -
  have "newline \<notin> set i" using assms(1) by (auto simp: sectionName_def word_char_def list_all_iff Let_def)
  then show ?thesis using plain_names plain_options plain_kinds sectionName_plain assms by (simp add: pointGroup_def guestSection_def)
qed

lemma dhcpGroup_plain: "groupPlain dhcpGroup"
  using plain_names plain_options plain_kinds by (simp add: dhcpGroup_def guestSection_def)

lemma firewallGroups_plain: "newline \<notin> set wan \<Longrightarrow> \<forall>g \<in> set (firewallGroups wan). groupPlain g"
  using plain_names plain_options plain_kinds
  by (simp add: firewallGroups_def zoneSection_def wanSection_def guestRuleSpecs_def ruleGroup_def guestZone_def guestSection_def Let_def)

text \<open>The lists of the rules, item by item.\<close>

definition guestItems :: "(string \<times> string \<times> string \<times> string) list" where
  "guestItems = map (\<lambda>v. (''firewall'', ''guest_icmpv6'', ''icmp_type'', v)) [''router-solicitation'', ''neighbour-solicitation'', ''neighbour-advertisement''] @
     map (\<lambda>v. (''firewall'', ''guest_no_private4'', ''dest_ip'', v)) privateV4 @ map (\<lambda>v. (''firewall'', ''guest_no_private6'', ''dest_ip'', v)) privateV6"

lemma guestLists_items: "guestLists wan = map (\<lambda>(c, i, k, v). (c @ ''.'' @ i @ ''.'' @ k, v)) guestItems"
  by (simp add: guestLists_def guestItems_def guestRuleSpecs_def Let_def fw_def)

lemma guestItems_plain: "\<forall>(c, i, k, v) \<in> set guestItems. plainName c \<and> plainName i \<and> plainName k \<and> newline \<notin> set v \<and> quote \<notin> set v"
  using plain_names plain_options by (simp add: guestItems_def privateV4_def privateV6_def)

lemma addItem_append: "addItem i k v (a @ b) = addItem i k v a @ addItem i k v b"
  by (simp add: addItem_def onSection_append)

lemma addItem_other: "i \<notin> sec_id ` set secs \<Longrightarrow> addItem i k v secs = secs"
  by (simp add: addItem_def onSection_other)

lemma addItem_Cons: "addItem i k v (s # ss) = (if sec_id s = i then s\<lparr>sec_options := AList.update k
     (case map_of (sec_options s) k of None \<Rightarrow> v | Some u \<Rightarrow> u @ '' '' @ v) (sec_options s)\<rparr> else s) # addItem i k v ss"
  by (simp add: addItem_def onSection_def)

lemma addItem_Nil: "addItem i k v [] = []"
  by (simp add: addItem_def onSection_def)

lemma items_made:
  assumes "\<forall>s \<in> set fwall. \<not> guestFirewall s"
  shows "fold (\<lambda>(c, i, k, v). addItem i k v) guestItems (fwall @ map groupSection (firewallGroups wan)) = fwall @ madeFirewall wan"
proof -
  have f1: "fold (\<lambda>(c, i, k, v). addItem i k v) its (fwall @ b) = fwall @ fold (\<lambda>(c, i, k, v). addItem i k v) its b"
    if "\<forall>(c, i, k, v) \<in> set its. i \<notin> sec_id ` set fwall" for its b
    using that by (induction its arbitrary: b) (auto simp: addItem_append addItem_other)
  have f2: "\<forall>(c, i, k, v) \<in> set guestItems. i \<notin> sec_id ` set fwall"
    using assms by (auto simp: guestItems_def guestFirewall_def guestRules_def)
  have f3: "fold (\<lambda>(c, i, k, v). addItem i k v) guestItems (map groupSection (firewallGroups wan)) = madeFirewall wan"
    by (simp add: guestItems_def firewallGroups_def groupSection_def madeFirewall_def ruleGroup_def ruleSection_def guestRuleSpecs_def Let_def
      addItem_Cons addItem_Nil zoneSection_def wanSection_def guestSection_def privateV4_def privateV6_def)
  show ?thesis using f1 [OF f2] f3 by simp
qed

lemma items_file: "fold (\<lambda>(c, i, k, v) f. f(c := addItem i k v (f c))) guestItems secs =
    secs(''firewall'' := fold (\<lambda>(c, i, k, v). addItem i k v) guestItems (secs ''firewall''))"
proof -
  have "fold (\<lambda>(c, i, k, v) f. f(c := addItem i k v (f c))) its secs = secs(''firewall'' := fold (\<lambda>(c, i, k, v). addItem i k v) its (secs ''firewall''))"
    if "\<forall>(c, i, k, v) \<in> set its. c = ''firewall''" for its secs
    using that by (induction its arbitrary: secs) auto
  then show ?thesis by (simp add: guestItems_def)
qed

lemma pointGroup_made:
  assumes "madeFrom (pointGroup cfg enc i) m"
  shows "fst m = ''wireless'' \<and> madePoint (snd m)"
proof -
  obtain c s where m: "m = (c, s)" by (cases m)
  with assms show ?thesis
    by (auto simp: pointGroup_def reads_def list_all2_Cons1 madePoint_def guestWireless_def attached_def HasPrefix_iff guestSection_def)
qed

lemma points_made: "list_all2 madeFrom (map (pointGroup cfg enc) radios) ms \<Longrightarrow> \<forall>m \<in> set ms. fst m = ''wireless'' \<and> madePoint (snd m)"
proof (induction radios arbitrary: ms)
  case (Cons i radios)
  then obtain m ms' where m: "ms = m # ms'" "madeFrom (pointGroup cfg enc i) m" "list_all2 madeFrom (map (pointGroup cfg enc) radios) ms'"
    by (auto simp: list_all2_Cons1 simp del: madeFrom.simps)
  with Cons.IH [OF m(3)] pointGroup_made [OF m(2)] show ?case by simp
qed simp

lemma putOption_home: "sameHome secs (putOption i ''ip6assign'' v secs)"
proof -
  have "oget (AList.update k v os) j = oget os j" if "j \<noteq> k" for k v j and os :: "(string \<times> string) list"
    using that by (simp add: oget_def update_conv')
  then show ?thesis
    by (simp add: sameHome_def putOption_def onSection_def list_all2_conv_all_nth sameBut_def)
qed

context uci_sections
begin

lemma networks_written:
  assumes "setKeys run touched (guestSets cfg enc address renumber radios wan) w = (Inr (), w')" "bare address"
    and "guestSection \<notin> sec_id ` set (secs w ''network'')" "guestDevSection \<notin> sec_id ` set (secs w ''network'')"
  shows "\<exists>w1 net'. setKeys run touched (concat (map groupSets (map (pointGroup cfg enc) radios @ [dhcpGroup] @ firewallGroups wan)) @ []) w1 = (Inr (), w') \<and>
    sameHome (secs w ''network'') net' \<and> secs w1 = (secs w)(''network'' := net' @ [devSection, ifaceSection address])"
proof -
  let ?lan = "if renumber then [(''network'' @ ''.'' @ lanSection @ ''.'' @ ''ip6assign'', Itoa guestAssign)] else []"
  let ?rest = "concat (map groupSets (map (pointGroup cfg enc) radios @ [dhcpGroup] @ firewallGroups wan))"
  have a: "newline \<notin> set address" "quote \<notin> set address" using assms(2) by (simp_all add: bare_def)
  have "\<forall>(c, i, t, os) \<in> set (netGroups address). i \<notin> sec_id ` set (secs w c)" "distinct (map (\<lambda>(c, i, t, os). (c, i)) (netGroups address))"
    using assms(3,4) by (simp_all add: netGroups_def guestSection_def guestDevSection_def)
  from set_groups [OF assms(1) [unfolded guestSets_groups setKeys_each] netGroups_plain [OF a(1)] this, folded setKeys_each] obtain w1 ms where
    w1: "setKeys run touched (?lan @ ?rest) w1 = (Inr (), w')" and ms: "list_all2 madeFrom (netGroups address) ms"
    and at: "\<forall>c. secs w1 c = secs w c @ map snd (filter (\<lambda>m. fst m = c) ms)" by blast
  have "ms = [(''network'', devSection), (''network'', ifaceSection address)]"
    using madeFrom_all [OF ms] a(2) by (simp add: netGroups_def devSection_def ifaceSection_def bridgeOptions_def guestBridge_def assign_text groupSection_def)
  then have s1: "secs w1 = (secs w)(''network'' := secs w ''network'' @ [devSection, ifaceSection address])" using at by (auto simp: fun_eq_iff)
  show ?thesis
  proof (cases renumber)
    case False
    with w1 s1 show ?thesis by (intro exI [of _ w1] exI [of _ "secs w ''network''"]) simp
  next
    case True
    with w1 obtain out w2 where r: "run ''uci'' [''set'', (''network'' @ ''.'' @ lanSection @ ''.'' @ ''ip6assign'') @ ''='' @ Itoa guestAssign] w1 = (Inr out, w2)"
      and rest: "setKeys run touched (?rest @ []) w2 = (Inr (), w')"
      by (auto simp: uciSet_def split: prod.splits sum.splits option.splits)
    have "plainName ''network''" "plainName lanSection" "plainName ''ip6assign''" "newline \<notin> set (Itoa guestAssign)"
      using plain_names plain_options by (simp_all add: assign_text)
    from set_option [OF this r] obtain v' where s2: "secs w2 = (secs w1)(''network'' := putOption lanSection ''ip6assign'' v' (secs w1 ''network''))" by blast
    have "putOption lanSection ''ip6assign'' v' (n @ [devSection, ifaceSection address]) = putOption lanSection ''ip6assign'' v' n @ [devSection, ifaceSection address]" for n
      by (simp add: putOption_def onSection_def devSection_def ifaceSection_def lanSection_def guest_names)
    with s1 s2 rest putOption_home show ?thesis by (intro exI [of _ w2] exI [of _ "putOption lanSection ''ip6assign'' v' (secs w ''network'')"]) simp
  qed
qed

lemma others_written:
  assumes "setKeys run touched (concat (map groupSets (map (pointGroup cfg enc) radios @ [dhcpGroup] @ firewallGroups wan)) @ []) w = (Inr (), w')"
    and "bare wan" "newline \<notin> set (gc_SSID cfg)" "newline \<notin> set (gc_Password cfg)" "newline \<notin> set enc" "\<forall>i \<in> set radios. sectionName i" "distinct radios"
    and fresh: "\<forall>s \<in> set (secs w ''wireless''). \<not> guestWireless s" "\<forall>s \<in> set (secs w ''dhcp''). sec_id s \<noteq> guestSection"
      "\<forall>s \<in> set (secs w ''firewall''). \<not> guestFirewall s"
  shows "\<exists>ps d. (\<forall>s \<in> set ps. madePoint s) \<and> sec_kind d = ''dhcp'' \<and> secs w' = (secs w)(''wireless'' := secs w ''wireless'' @ ps,
    ''dhcp'' := secs w ''dhcp'' @ [d], ''firewall'' := secs w ''firewall'' @ map groupSection (firewallGroups wan))"
proof -
  let ?gs = "map (pointGroup cfg enc) radios @ [dhcpGroup] @ firewallGroups wan"
  have b: "newline \<notin> set wan" "quote \<notin> set wan" using assms(2) by (simp_all add: bare_def)
  have plain: "\<forall>g \<in> set ?gs. groupPlain g"
    using pointGroup_plain [OF _ assms(3-5)] assms(6) dhcpGroup_plain firewallGroups_plain [OF b(1)] by (auto simp del: groupPlain.simps)
  have ids: "map (\<lambda>(c, i, t, os). (c, i)) (firewallGroups wan) = map (Pair ''firewall'') (guestSection # guestRules)"
    by (simp add: firewallGroups_def guestRules_def ruleGroup_def guestRuleSpecs_def Let_def)
  have dist: "distinct (map (\<lambda>(c, i, t, os). (c, i)) ?gs)"
    using assms(7) by (simp add: ids pointGroup_def dhcpGroup_def comp_def distinct_map inj_on_def guestRules_def guestSection_def image_iff)
  have "\<forall>(c, i, t, os) \<in> set (firewallGroups wan). c = ''firewall'' \<and> i \<in> set (guestSection # guestRules)"
    by (simp add: firewallGroups_def guestRules_def ruleGroup_def guestRuleSpecs_def Let_def)
  then have "\<forall>(c, i, t, os) \<in> set ?gs. i \<notin> sec_id ` set (secs w c)"
    using fresh by (fastforce simp: pointGroup_def dhcpGroup_def guestWireless_def HasPrefix_iff guestFirewall_def)
  from set_groups [OF assms(1) [unfolded setKeys_each] plain this dist, folded setKeys_each] obtain ms where
    ms: "list_all2 madeFrom ?gs ms" and at: "\<forall>c. secs w' c = secs w c @ map snd (filter (\<lambda>m. fst m = c) ms)" by auto
  from ms obtain as d bs where split: "ms = as @ d # bs" and p: "list_all2 madeFrom (map (pointGroup cfg enc) radios) as" "madeFrom dhcpGroup d"
    "list_all2 madeFrom (firewallGroups wan) bs"
    by (auto simp: list_all2_append1 list_all2_Cons1)
  have f: "bs = map (\<lambda>g. (''firewall'', groupSection g)) (firewallGroups wan)"
    using madeFrom_all [OF p(3)] b(2)
    by (simp add: firewallGroups_def zoneSection_def wanSection_def guestRuleSpecs_def ruleGroup_def guestZone_def guestSection_def Let_def groupSection_def)
  obtain d' where d': "d = (''dhcp'', d')" "sec_kind d' = ''dhcp''" using p(2) by (cases d) (simp add: dhcpGroup_def)
  have w: "\<forall>m \<in> set as. fst m = ''wireless'' \<and> madePoint (snd m)"
    using points_made [OF p(1)] .
  then have "filter (\<lambda>m. fst m = c) as = (if c = ''wireless'' then as else [])" for c by (auto simp: filter_id_conv filter_empty_conv)
  moreover have "filter (\<lambda>m. fst m = c) bs = (if c = ''firewall'' then bs else [])" for c by (auto simp: f filter_id_conv filter_empty_conv)
  ultimately have "secs w' = (secs w)(''wireless'' := secs w ''wireless'' @ map snd as, ''dhcp'' := secs w ''dhcp'' @ [d'],
      ''firewall'' := secs w ''firewall'' @ map groupSection (firewallGroups wan))"
    using at by (auto simp: fun_eq_iff split f d'(1) comp_def)
  with w d'(2) show ?thesis by (intro exI [of _ "map snd as"] exI [of _ d']) auto
qed

lemma guest_written:
  assumes sets: "setKeys run touched (guestSets cfg enc address renumber radios wan) w = (Inr (), w1)"
    and lists: "addLists run touched' (guestLists wan) w1 = (Inr (), w')"
    and plain: "bare address" "bare wan" "newline \<notin> set (gc_SSID cfg)" "newline \<notin> set (gc_Password cfg)" "newline \<notin> set enc"
      "\<forall>i \<in> set radios. sectionName i" "distinct radios"
    and fresh: "guestSection \<notin> sec_id ` set (secs w ''network'')" "guestDevSection \<notin> sec_id ` set (secs w ''network'')"
      "\<forall>s \<in> set (secs w ''firewall''). \<not> guestFirewall s" "\<forall>s \<in> set (secs w ''dhcp''). sec_id s \<noteq> guestSection"
      "\<forall>s \<in> set (secs w ''wireless''). \<not> guestWireless s"
  shows "\<exists>net' ps d. sameHome (secs w ''network'') net' \<and> (\<forall>s \<in> set ps. madePoint s) \<and> sec_kind d = ''dhcp'' \<and>
    secs w' = (secs w)(''network'' := net' @ [devSection, ifaceSection address], ''wireless'' := secs w ''wireless'' @ ps,
      ''dhcp'' := secs w ''dhcp'' @ [d], ''firewall'' := secs w ''firewall'' @ madeFirewall wan)"
proof -
  from networks_written [OF sets plain(1) fresh(1,2)] obtain wn net' where
    rest: "setKeys run touched (concat (map groupSets (map (pointGroup cfg enc) radios @ [dhcpGroup] @ firewallGroups wan)) @ []) wn = (Inr (), w1)"
    and n: "sameHome (secs w ''network'') net'" "secs wn = (secs w)(''network'' := net' @ [devSection, ifaceSection address])" by blast
  have "\<forall>s \<in> set (secs wn ''wireless''). \<not> guestWireless s" "\<forall>s \<in> set (secs wn ''dhcp''). sec_id s \<noteq> guestSection"
    "\<forall>s \<in> set (secs wn ''firewall''). \<not> guestFirewall s" using fresh(3-5) n(2) by simp_all
  from others_written [OF rest plain(2-7) this] obtain ps d where
    o: "\<forall>s \<in> set ps. madePoint s" "sec_kind d = ''dhcp''" "secs w1 = (secs wn)(''wireless'' := secs wn ''wireless'' @ ps, ''dhcp'' := secs wn ''dhcp'' @ [d],
      ''firewall'' := secs wn ''firewall'' @ map groupSection (firewallGroups wan))" by blast
  have "secs w' = (secs w1)(''firewall'' := fold (\<lambda>(c, i, k, v). addItem i k v) guestItems (secs w1 ''firewall''))"
    using add_items [OF lists [unfolded guestLists_items] guestItems_plain] items_file by simp
  then have "secs w' = (secs w)(''network'' := net' @ [devSection, ifaceSection address], ''wireless'' := secs w ''wireless'' @ ps,
      ''dhcp'' := secs w ''dhcp'' @ [d], ''firewall'' := secs w ''firewall'' @ madeFirewall wan)"
    using o(3) n(2) items_made [OF fresh(3), of wan] by (auto simp: fun_eq_iff)
  with n(1) o(1,2) show ?thesis by blast
qed

lemma show_read: "wrapR e (showConfig run c) w = (Inr out, w') \<Longrightarrow> parseUCISections out = secs w c \<and> typed (secs w c) \<and> secs w' = secs w"
  using show_value show_frame by (auto simp: wrapR_def split: prod.splits sum.splits)

lemma state_read:
  assumes "readGuestState (Some run) dump w = (Inr st, w')"
  shows "secs w' = secs w" "st_network st = secs w ''network''" "st_firewall st = secs w ''firewall''" "st_dhcp st = secs w ''dhcp''"
    "typed (st_network st)" "typed (st_firewall st)" "st_shape st = readGuestShape (secs w ''network'') (secs w ''firewall'') (secs w ''wireless'') (secs w ''dhcp'')"
    "st_ifaces st = (case dump of Some (Inr is) \<Rightarrow> is | _ \<Rightarrow> [])" "wc_radios (st_cfg st) = filter (\<lambda>s. sec_kind s = ''wifi-device'') (secs w ''wireless'')"
    "cleanSections (st_firewall st)" "distinct (map sec_id (secs w ''wireless''))"
proof -
  from assms obtain wl nw fwall dh w1 w2 w3 where r: "wrapR ErrNoWiFi (showConfig run ''wireless'') w = (Inr wl, w1)"
    "wrapR (Failed ''read network'') (showConfig run ''network'') w1 = (Inr nw, w2)"
    "wrapR (Failed ''read firewall'') (showConfig run ''firewall'') w2 = (Inr fwall, w3)"
    "wrapR (Failed ''read dhcp'') (showConfig run ''dhcp'') w3 = (Inr dh, w')"
    and st: "st = guestStateOf (wifiConfigOf wl) (parseUCISections nw) (parseUCISections fwall) (parseUCISections dh) dump"
    by (auto simp: readGuestState_def readConfig_def guestStateFor_def bindR_Inr Let_def split: if_splits)
  note f = show_read [OF r(1)] show_read [OF r(2)] show_read [OF r(3)] show_read [OF r(4)]
  then show "secs w' = secs w" "st_network st = secs w ''network''" "st_firewall st = secs w ''firewall''" "st_dhcp st = secs w ''dhcp''"
    "typed (st_network st)" "typed (st_firewall st)" "st_shape st = readGuestShape (secs w ''network'') (secs w ''firewall'') (secs w ''wireless'') (secs w ''dhcp'')"
    "st_ifaces st = (case dump of Some (Inr is) \<Rightarrow> is | _ \<Rightarrow> [])" "wc_radios (st_cfg st) = filter (\<lambda>s. sec_kind s = ''wifi-device'') (secs w ''wireless'')"
    by (simp_all add: st guestStateOf_def wifiConfigOf_def Let_def)
  show "cleanSections (st_firewall st)" by (simp add: st guestStateOf_def parseUCISections_clean)
  show "distinct (map sec_id (secs w ''wireless''))" using f parseUCISections_distinct by metis
qed

end

lemma ValidSSID_line: "ValidSSID s = None \<Longrightarrow> newline \<notin> set s"
  by (auto simp: ValidSSID_def list_ex_iff split: if_splits)

lemma ValidWiFiPassword_line: "ValidWiFiPassword p = None \<Longrightarrow> newline \<notin> set p"
proof (rule ccontr)
  have n: "lower_char newline \<notin> set ''0123456789abcdef''" by code_simp
  assume "ValidWiFiPassword p = None" "\<not> newline \<notin> set p"
  with n show False by (auto simp: ValidWiFiPassword_def list_ex_iff list_all_iff ToLower_def split: if_splits)
qed

lemma guestSecurity_line: "guestSecurity k = Inr enc \<Longrightarrow> newline \<notin> set enc"
  by (auto simp: guestSecurity_def encryptionFor_def Let_def split: if_splits)

lemma firstHost_bare: "c \<in> set guestNets \<Longrightarrow> bare (firstHost c)"
proof -
  assume "c \<in> set guestNets"
  from guestNets_parse [OF this] obtain b where "ParseCIDR c = Some (V4 b, N4 b 24)" by blast
  then have h: "firstHost c = ip4_string (and b (not 0xFF) + 1)" by (simp add: firstHost_def)
  have "\<not> is_digit quote" "\<not> is_digit newline" by (simp_all add: is_digit_def)
  then have "\<forall>n. bare (nat_digits n)" using all_digits_nat_digits by (auto simp: bare_def all_digits_def list_all_iff)
  moreover have "bare ''.''" by (simp add: bare_def)
  ultimately show ?thesis unfolding h by (auto simp: ip4_string_def octets4_def bare_def)
qed

lemma radios_fine:
  assumes "radiosProblem cfg (requestedRadios cfg asked) = None" "distinct (map sec_id (wc_radios cfg))"
  shows "\<forall>i \<in> set (requestedRadios cfg asked). sectionName i" "distinct (requestedRadios cfg asked)"
proof -
  have "List.map_filter (radioProblem cfg) (requestedRadios cfg asked) = []"
    using assms(1) by (auto simp: radiosProblem_def split: if_splits list.splits)
  then have "\<forall>i \<in> set (requestedRadios cfg asked). radioProblem cfg i = None" by (auto simp: map_filter_def filter_empty_conv)
  then show "\<forall>i \<in> set (requestedRadios cfg asked). sectionName i" by (auto simp: radioProblem_def split: option.splits if_splits)
  show "distinct (requestedRadios cfg asked)"
    using assms(2) by (simp add: requestedRadios_def Let_def firstOnly_def distinct_map_filter)
qed

lemma ref_state:
  assumes "readable w" "filter (\<lambda>s. sec_kind s = ''wifi-device'') (w ''wireless'') \<noteq> []"
  shows "readGuestState (Some ref_draft) dump w =
    (Inr (guestStateOf (wifiSectionsOf (w ''wireless'')) (w ''network'') (w ''firewall'') (w ''dhcp'') dump), w)"
proof -
  have n: "plainName ''wireless''" "plainName ''network''" "plainName ''firewall''" "plainName ''dhcp''" using plain_names by simp_all
  have r: "showConfig ref_draft c w = (Inr (printSections c (w c)), w)" "parseUCISections (printSections c (w c)) = w c" if "plainName c" for c
    using that assms(1) printed_back by (simp_all add: ref_draft_def readable_def)
  show ?thesis using r n assms(2)
    by (simp add: readGuestState_def readConfig_def guestStateFor_def wifiConfigOf_def wifiSectionsOf_def bindR_def wrapR_def retR_def Let_def)
qed

definition demo_wireless :: uci_section where
  "demo_wireless = \<lparr>sec_id = ''radio0'', sec_kind = ''wifi-device'', sec_options = [(''band'', ''5g'')]\<rparr>"

definition demo_wan :: uci_section where
  "demo_wan = \<lparr>sec_id = ''wan'', sec_kind = ''interface'', sec_options = [(''device'', ''eth1''), (''proto'', ''dhcp'')]\<rparr>"

definition demo_zone :: uci_section where
  "demo_zone = \<lparr>sec_id = ''z'', sec_kind = ''zone'', sec_options = [(''name'', ''wan''), (''network'', ''wan''), (''masq'', ''1'')]\<rparr>"

definition demo_draft :: draft_world where
  "demo_draft c = (if c = ''wireless'' then [demo_wireless] else if c = ''network'' then [demo_wan] else if c = ''firewall'' then [demo_zone] else [])"

definition demo_script :: "string \<Rightarrow> string result" where "demo_script p = Inr ''bridge_isolate''"

definition demo_guest :: guest_config where
  "demo_guest = \<lparr>gc_SSID = ''Guests'', gc_Password = ''long enough'', gc_Security = ''wpa2'', gc_Radios = []\<rparr>"

definition demo_state :: guest_state where
  "demo_state = guestStateOf (wifiSectionsOf [demo_wireless]) [demo_wan] [demo_zone] [] (Some (Inr [demo_upstream]))"

lemma demo_readable: "readable demo_draft"
proof -
  have "wellFormed [demo_wireless]" "wellFormed [demo_wan]" "wellFormed [demo_zone]" "wellFormed []" by code_simp+
  then show ?thesis by (simp add: readable_def demo_draft_def)
qed

lemma demo_checks:
  "ValidSSID (gc_SSID demo_guest) = None" "ValidWiFiPassword (gc_Password demo_guest) = None" "guestSecurity (gc_Security demo_guest) = Inr ''psk2''"
  "guestSupported demo_script (st_cfg demo_state)" "\<not> (gs_ours (st_shape demo_state) \<or> gs_foreign (st_shape demo_state))"
  "requestedRadios (st_cfg demo_state) (gc_Radios demo_guest) = [''radio0'']" "radiosProblem (st_cfg demo_state) [''radio0''] = None"
  "st_ifacesErr demo_state = None" "fst (guestBlocker demo_state) = []" "fst (uplinkZone (st_firewall demo_state) (st_ifaces demo_state)) = ''wan''"
  "st_ifaces demo_state = [demo_upstream]" "guestTaken demo_state [] = []"
  by code_simp+

lemma sets_taken:
  assumes "newline \<notin> set wan" "newline \<notin> set address" "\<forall>i \<in> set radios. groupPlain (pointGroup cfg enc i)"
  shows "\<forall>kv \<in> set (guestSets cfg enc address renumber radios wan). settable False kv"
proof -
  have lan: "settable False (''network'' @ ''.'' @ lanSection @ ''.'' @ ''ip6assign'', Itoa guestAssign)"
    using ref_set_option [of "''network''" lanSection "''ip6assign''" "Itoa guestAssign" False] plain_names plain_options
    by (simp add: settable_def assign_text)
  have "\<forall>g \<in> set (netGroups address @ map (pointGroup cfg enc) radios @ [dhcpGroup] @ firewallGroups wan). groupPlain g"
    using netGroups_plain [OF assms(2)] dhcpGroup_plain firewallGroups_plain [OF assms(1)] assms(3) by (auto simp del: groupPlain.simps)
  then have "\<forall>g \<in> set (netGroups address @ map (pointGroup cfg enc) radios @ [dhcpGroup] @ firewallGroups wan). \<forall>kv \<in> set (groupSets g). settable False kv"
    using groupSets_taken by blast
  with lan show ?thesis unfolding guestSets_groups by auto
qed

lemma addLists_taken: "\<forall>kv \<in> set kvs. settable True kv \<Longrightarrow> readable w \<Longrightarrow> \<exists>w'. addLists ref_draft touched kvs w = (Inr (), w') \<and> readable w'"
proof (induction kvs arbitrary: w)
  case (Cons kv kvs)
  obtain k v where kv: "kv = (k, v)" by (cases kv)
  from Cons.prems(1) kv have "ref_set True (k @ ''='' @ v) w \<noteq> None" by (simp add: settable_def)
  then obtain w1 where w1: "ref_set True (k @ ''='' @ v) w = Some w1" by blast
  then have "ref_draft ''uci'' [''add_list'', k @ ''='' @ v] w = (Inr [], w1)" by (simp add: ref_draft_def)
  with Cons.IH [OF _ ref_set_readable [OF w1 Cons.prems(2)]] Cons.prems(1) kv show ?case by simp
qed simp

lemma lists_taken: "\<forall>kv \<in> set (guestLists wan). settable True kv"
  using guestItems_plain ref_set_option [of _ _ _ _ True] unfolding guestLists_items by (fastforce simp: settable_def)

section \<open>The property\<close>

lemma errR_Inr [simp]: "errR e w = (Inr x, w') \<longleftrightarrow> e = None \<and> w' = w"
  by (auto simp: errR_def split: option.splits)

lemma liftR_Inr [simp]: "liftR r w = (Inr x, w') \<longleftrightarrow> r = Inr x \<and> w' = w"
  by (auto simp: liftR_def)

lemma stage_guest_steps:
  assumes "StageGuest (Some run) dump files routes cfg w = (Inr rows, w')"
  shows "\<exists>enc st w0 c w1 touched renumber. ValidSSID (gc_SSID cfg) = None \<and> ValidWiFiPassword (gc_Password cfg) = None \<and>
    guestSecurity (gc_Security cfg) = Inr enc \<and> readGuestState (Some run) dump w = (Inr st, w0) \<and>
    \<not> gs_ours (st_shape st) \<and> \<not> gs_foreign (st_shape st) \<and> fst (guestBlocker st) = [] \<and>
    radiosProblem (st_cfg st) (requestedRadios (st_cfg st) (gc_Radios cfg)) = None \<and>
    freeGuestSubnet (st_ifaces st) (guestTaken st (map k_prefix routes)) = Inr c \<and>
    setKeys run touched (guestSets cfg enc (firstHost c) renumber (requestedRadios (st_cfg st) (gc_Radios cfg))
      (fst (uplinkZone (st_firewall st) (st_ifaces st)))) w0 = (Inr (), w1) \<and>
    addLists run touched (guestLists (fst (uplinkZone (st_firewall st) (st_ifaces st)))) w1 = (Inr (), w')"
  using assms by (simp add: StageGuest_def bindR_Inr Let_def) blast

text \<open>
  C40. A guest network the panel has staged is the panel's own and keeps every protection. When \<open>StageGuest\<close> succeeds, and the network daemon lists no
  connection by the guests' name, the draft read back is recognised as ours, its access points are the sections written and nothing blocks it:
  the zone, the rules, the bridge, the isolation and the rest are what \<open>guestBlocker\<close> and \<open>guestWeakened\<close> look for, whatever else the files hold.
\<close>

theorem staged_guest_is_protected:
  assumes "uci_sections run secs" "StageGuest (Some run) (Some (Inr ifaces)) files routes cfg w = (Inr rows, w')"
    and "\<forall>i \<in> set ifaces. ui_Name i \<noteq> guestSection" "readGuestState (Some run) (Some (Inr ifaces)) w' = (Inr st', w'')"
  shows "gs_ours (st_shape st') \<and> \<not> gs_foreign (st_shape st') \<and> guestBlocker st' = ([], [])"
proof -
  note read = uci_sections.state_read [OF assms(1)]
  from stage_guest_steps [OF assms(2)] obtain enc st w0 c w1 touched renumber where
    valid: "ValidSSID (gc_SSID cfg) = None" "ValidWiFiPassword (gc_Password cfg) = None" "guestSecurity (gc_Security cfg) = Inr enc"
    and st: "readGuestState (Some run) (Some (Inr ifaces)) w = (Inr st, w0)"
    and was: "\<not> gs_ours (st_shape st)" "\<not> gs_foreign (st_shape st)" "fst (guestBlocker st) = []"
    and radios: "radiosProblem (st_cfg st) (requestedRadios (st_cfg st) (gc_Radios cfg)) = None"
    and free: "freeGuestSubnet (st_ifaces st) (guestTaken st (map k_prefix routes)) = Inr c"
    and sets: "setKeys run touched (guestSets cfg enc (firstHost c) renumber (requestedRadios (st_cfg st) (gc_Radios cfg))
      (fst (uplinkZone (st_firewall st) (st_ifaces st)))) w0 = (Inr (), w1)"
    and l: "addLists run touched (guestLists (fst (uplinkZone (st_firewall st) (st_ifaces st)))) w1 = (Inr (), w')"
    by blast
  note now = read [OF st]
  let ?wan = "fst (uplinkZone (st_firewall st) (st_ifaces st))"
  note there = nothing_there [OF was(1,2) [unfolded now(7)] now(5) [unfolded now(2)]]
  have cin: "c \<in> set guestNets" using free by (auto simp: freeGuestSubnet_def dest: find_in split: option.splits)
  from radios_fine [OF radios] have rad: "\<forall>i \<in> set (requestedRadios (st_cfg st) (gc_Radios cfg)). sectionName i" "distinct (requestedRadios (st_cfg st) (gc_Radios cfg))"
    using now(9,11) by (simp_all add: distinct_map_filter)
  have fresh: "\<forall>s \<in> set (secs w0 ''firewall''). \<not> guestFirewall s" "\<forall>s \<in> set (secs w0 ''dhcp''). sec_id s \<noteq> guestSection"
    "\<forall>s \<in> set (secs w0 ''wireless''). \<not> guestWireless s" using there now(1) by auto
  note written = uci_sections.guest_written [OF assms(1)]
  from written [OF sets l firstHost_bare [OF cin] uplink_clean [OF now(10)] ValidSSID_line [OF valid(1)]
      ValidWiFiPassword_line [OF valid(2)] guestSecurity_line [OF valid(3)] rad _ _ fresh] there(1,2) now(1)
  obtain net' ps d where w: "sameHome (secs w ''network'') net'" "\<forall>s \<in> set ps. madePoint s" "sec_kind d = ''dhcp''"
    "secs w' = (secs w)(''network'' := net' @ [devSection, ifaceSection (firstHost c)], ''wireless'' := secs w ''wireless'' @ ps,
      ''dhcp'' := secs w ''dhcp'' @ [d], ''firewall'' := secs w ''firewall'' @ madeFirewall ?wan)" by auto
  note new = read [OF assms(4)]
  have same: "st_ifaces st' = st_ifaces st" "st_ifaces st = ifaces" using now(8) new(8) by simp_all
  show ?thesis
    using made_state_open [OF was now(7) [folded now(2-4)] now(5,6) _ refl free, of net' st' d ps] assms(3) same new w now(2-4)
      made_shape [OF there(5) w(2)] by simp
qed

lemma demo_staged: "\<exists>rows w'. StageGuest (Some ref_draft) (Some (Inr [demo_upstream])) demo_script [] demo_guest demo_draft = (Inr rows, w') \<and> readable w' \<and>
    filter (\<lambda>s. sec_kind s = ''wifi-device'') (w' ''wireless'') \<noteq> []"
proof -
  let ?renumber = "snd (guestIPv6 (st_network demo_state) (delegatedPrefixes [demo_upstream]))"
  let ?sets = "guestSets demo_guest ''psk2'' (firstHost ''192.168.4.0/24'') ?renumber [''radio0''] ''wan''"
  let ?touched = "map (touchedKey \<circ> fst) ?sets"
  have st: "readGuestState (Some ref_draft) (Some (Inr [demo_upstream])) demo_draft = (Inr demo_state, demo_draft)"
    using ref_state [OF demo_readable] by (simp add: demo_state_def demo_draft_def demo_wireless_def)
  have f: "freeGuestSubnet [demo_upstream] (guestTaken demo_state (map k_prefix [])) = Inr ''192.168.4.0/24''"
    using demo_free demo_checks(12) by simp
  have "newline \<notin> set ''wan''" "newline \<notin> set (firstHost ''192.168.4.0/24'')" by code_simp+
  moreover have "groupPlain (pointGroup demo_guest ''psk2'' ''radio0'')" by code_simp
  ultimately have "\<forall>kv \<in> set ?sets. settable False kv" by (intro sets_taken) auto
  from setEach_taken [OF this demo_readable, of "discard ref_draft ?touched", folded setKeys_each] obtain w1 where w1: "setKeys ref_draft ?touched ?sets demo_draft = (Inr (), w1)" "readable w1" by blast
  from addLists_taken [OF lists_taken w1(2)] obtain w2 where w2: "addLists ref_draft ?touched (guestLists ''wan'') w1 = (Inr (), w2)" "readable w2" by blast
  have run: "\<exists>rows. StageGuest (Some ref_draft) (Some (Inr [demo_upstream])) demo_script [] demo_guest demo_draft = (Inr rows, w2)"
    using st f w1(1) w2(1) demo_checks by (simp add: StageGuest_def bindR_def errR_def liftR_def checkR_def retR_def Let_def)
  have "bare (firstHost ''192.168.4.0/24'')" "bare ''wan''" "newline \<notin> set (gc_SSID demo_guest)" "newline \<notin> set (gc_Password demo_guest)"
    "newline \<notin> set ''psk2''" "sectionName ''radio0''" by code_simp+
  then obtain net' ps d where "w2 = demo_draft(''network'' := net' @ [devSection, ifaceSection (firstHost ''192.168.4.0/24'')],
      ''wireless'' := demo_draft ''wireless'' @ ps, ''dhcp'' := demo_draft ''dhcp'' @ [d], ''firewall'' := demo_draft ''firewall'' @ madeFirewall ''wan'')"
    using rd.guest_written [OF w1(1) w2(1)]
    by (auto simp: demo_draft_def demo_wireless_def demo_wan_def demo_zone_def guest_names guestWireless_def guestFirewall_def HasPrefix_def)
  then have "filter (\<lambda>s. sec_kind s = ''wifi-device'') (w2 ''wireless'') \<noteq> []" by (simp add: demo_draft_def demo_wireless_def)
  with run w2(2) show ?thesis by blast
qed

theorem staged_guest_is_protected_witness:
  "\<exists>rows w' st' w''. StageGuest (Some ref_draft) (Some (Inr [demo_upstream])) demo_script [] demo_guest demo_draft = (Inr rows, w') \<and>
    readGuestState (Some ref_draft) (Some (Inr [demo_upstream])) w' = (Inr st', w'') \<and> gs_ours (st_shape st') \<and> guestBlocker st' = ([], [])"
proof -
  from demo_staged obtain rows w' where w: "StageGuest (Some ref_draft) (Some (Inr [demo_upstream])) demo_script [] demo_guest demo_draft = (Inr rows, w')"
    "readable w'" "filter (\<lambda>s. sec_kind s = ''wifi-device'') (w' ''wireless'') \<noteq> []" by blast
  obtain st' w'' where r: "readGuestState (Some ref_draft) (Some (Inr [demo_upstream])) w' = (Inr st', w'')" using ref_state [OF w(2,3)] by blast
  have "\<forall>i \<in> set [demo_upstream]. ui_Name i \<noteq> guestSection" by code_simp
  from staged_guest_is_protected [OF rd.uci_sections_axioms w(1) this r] w(1) r show ?thesis by blast
qed

end
