(* ===== verification/Device_Control.thy ===== *)
theory Device_Control
  imports Devices Sections Guest
begin

text \<open>
  Turning a device's internet off, now (\<^verbatim>\<open>devices_internet.go\<close>) or by a schedule (\<^verbatim>\<open>devices_schedule.go\<close>), and what both ask first: who is on the
  guest network (\<^verbatim>\<open>devices.go\<close>: the access points' clients, the bridge's forwarding table, the leases). The kernel's view of the bridge is the
  parameter \<open>sys_reader\<close>, the bus \<open>mbus\<close>, the connections \<open>ifaces\<close>.
\<close>

section \<open>Blocks\<close>

definition noInternetPrefix :: string where "noInternetPrefix = ''vb_noinet_''"

definition noInternetSection :: "string \<Rightarrow> string" where
  "noInternetSection mac = noInternetPrefix @ RemoveChar CHR '':'' mac"

definition macOf :: "string \<Rightarrow> string option" where
  "macOf raw = (case NormalizeMAC raw of Inl e \<Rightarrow> None | Inr mac \<Rightarrow> Some mac)"

definition blocks :: "uci_section \<Rightarrow> bool" where
  "blocks s \<longleftrightarrow> sec_kind s = ''rule'' \<and> isNoInternetSection (sec_id s) \<and> sopt s ''enabled'' \<noteq> ''0''"

definition blockedBy :: "uci_section list \<Rightarrow> string list" where
  "blockedBy secs = concat (map (\<lambda>s. List.map_filter macOf (Fields (sopt s ''src_mac''))) (filter blocks secs))"

definition blockedDevices :: "string \<Rightarrow> string list" where
  "blockedDevices out = blockedBy (parseUCISections out)"

definition blocked :: "'w runner option \<Rightarrow> 'w \<Rightarrow> string list \<times> 'w" where
  "blocked mrun w =
     (case mrun of None \<Rightarrow> ([], w)
      | Some run \<Rightarrow> (case run ''uci'' [''-q'', ''show'', ''firewall''] w of (Inl e, w') \<Rightarrow> ([], w') | (Inr out, w') \<Rightarrow> (blockedDevices out, w')))"

section \<open>Schedules\<close>

definition scheduleRule :: "uci_section \<Rightarrow> bool" where
  "scheduleRule s \<longleftrightarrow> \<not> (sec_kind s \<noteq> ''rule'' \<or> \<not> isScheduleSection (sec_id s) \<or> sopt s ''enabled'' = ''0'')"

text \<open>The evenings, or the mornings, by device: a later section of the same device replaces an earlier one.\<close>

definition partOf :: "bool \<Rightarrow> uci_section list \<Rightarrow> (string \<times> options) list" where
  "partOf morning secs =
     fold (\<lambda>s m. case scheduleMAC (sec_id s) of None \<Rightarrow> m
       | Some mac \<Rightarrow> if HasSuffix (sec_id s) morningSuffix = morning then AList.update mac (map_of (sec_options s)) m else m)
       (filter scheduleRule secs) []"

definition schedulesIn :: "uci_section list \<Rightarrow> (string \<times> internet_schedule) list" where
  "schedulesIn secs =
     List.map_filter (\<lambda>(mac, e). map_option (Pair mac) (scheduleFrom e (map_of (partOf True secs) mac))) (partOf False secs)"

definition schedules :: "string \<Rightarrow> (string \<times> internet_schedule) list" where
  "schedules out = schedulesIn (parseUCISections out)"

definition schedulesNow :: "'w runner option \<Rightarrow> 'w \<Rightarrow> (string \<times> internet_schedule) list \<times> 'w" where
  "schedulesNow mrun w =
     (case mrun of None \<Rightarrow> ([], w)
      | Some run \<Rightarrow> (case run ''uci'' [''-q'', ''show'', ''firewall''] w of (Inl e, w') \<Rightarrow> ([], w') | (Inr out, w') \<Rightarrow> (schedules out, w')))"

section \<open>The bridge\<close>

record sys_reader =
  sr_ReadFile :: "string \<Rightarrow> 8 word list result"
  sr_ReadDir :: "string \<Rightarrow> string list result"
  sr_Exists :: "string \<Rightarrow> bool"

definition sysNet :: string where "sysNet = ''/sys/class/net/''"

definition isRadioPort :: "sys_reader \<Rightarrow> string \<Rightarrow> bool" where
  "isRadioPort sys port = sr_Exists sys (sysNet @ port @ ''/phy80211'')"

definition accessPoints :: "unmarshal_clients \<Rightarrow> wifi_bus option \<Rightarrow> sys_reader \<Rightarrow> access_point list" where
  "accessPoints unmarshal mbus sys =
     (case mbus of None \<Rightarrow> []
      | Some bus \<Rightarrow> (case sr_ReadDir sys ''/sys/class/net'' of Inl e \<Rightarrow> []
        | Inr names \<Rightarrow> List.map_filter (\<lambda>iface.
            if \<not> isRadioPort sys iface then None
            else case wb_clients bus iface of None \<Rightarrow> None
              | Some body \<Rightarrow> map_option (\<lambda>ap. ap\<lparr>ap_iface := iface\<rparr>) (parseClients unmarshal body)) names))"

text \<open>
  \<^verbatim>\<open>strconv.ParseInt\<close> with base 0 and 32 bits: a sign, a base prefix or a leading zero for octal, underscores between digits where a base prefix
  allows them.
\<close>

definition digitValue :: "char \<Rightarrow> nat option" where
  "digitValue c =
     (let d = lower_char c; n = (of_char d :: nat) in
      if is_digit c then Some (n - 48) else if 97 \<le> n \<and> n \<le> 122 then Some (n - 87) else None)"

fun underscoresFrom :: "bool \<Rightarrow> char \<Rightarrow> string \<Rightarrow> bool" where
  \<comment> \<open>\<open>i\<close> is what came before: a digit \<open>0\<close>, an underscore, the start \<open>^\<close> or anything else \<open>!\<close>\<close>
  "underscoresFrom hex i [] \<longleftrightarrow> i \<noteq> CHR ''_''"
| "underscoresFrom hex i (c # s) \<longleftrightarrow>
     (if is_digit c \<or> hex \<and> lower_char c \<in> set ''abcdef'' then underscoresFrom hex CHR ''0'' s
      else if c = CHR ''_'' then i = CHR ''0'' \<and> underscoresFrom hex CHR ''_'' s
      else i \<noteq> CHR ''_'' \<and> underscoresFrom hex CHR ''!'' s)"

definition basePrefix :: "string \<Rightarrow> (nat \<times> string) option" where
  "basePrefix s =
     (case s of z # b # r \<Rightarrow>
        if z \<noteq> CHR ''0'' then None
        else if lower_char b = CHR ''b'' then Some (2, r) else if lower_char b = CHR ''o'' then Some (8, r)
        else if lower_char b = CHR ''x'' then Some (16, r) else None
      | _ \<Rightarrow> None)"

definition underscoreOK :: "string \<Rightarrow> bool" where
  "underscoreOK s =
     (let t = (if take 1 s = ''-'' \<or> take 1 s = ''+'' then drop 1 s else s) in
      case basePrefix t of Some (b, r) \<Rightarrow> underscoresFrom (b = 16) CHR ''0'' r | None \<Rightarrow> underscoresFrom False CHR ''^'' t)"

fun digitsIn :: "nat \<Rightarrow> nat \<Rightarrow> string \<Rightarrow> nat option" where
  "digitsIn base n [] = Some n"
| "digitsIn base n (c # s) =
     (if c = CHR ''_'' then digitsIn base n s
      else case digitValue c of None \<Rightarrow> None | Some d \<Rightarrow> if d \<ge> base then None else digitsIn base (n * base + d) s)"

definition parseUint0 :: "string \<Rightarrow> nat option" where
  "parseUint0 s =
     (if s = [] then None
      else let (base, body) = (if hd s \<noteq> CHR ''0'' then (10, s)
                else case basePrefix s of Some (b, r) \<Rightarrow> if length s \<ge> 3 then (b, r) else (8, tl s) | None \<Rightarrow> (8, tl s))
        in case digitsIn base 0 body of None \<Rightarrow> None
           | Some n \<Rightarrow> if CHR ''_'' \<in> set body \<and> \<not> underscoreOK s then None else if n \<ge> 2 ^ 32 then None else Some n)"

definition parseInt0 :: "string \<Rightarrow> int option" where
  "parseInt0 s =
     (let neg = (take 1 s = ''-''); t = (if neg \<or> take 1 s = ''+'' then drop 1 s else s) in
      case parseUint0 t of None \<Rightarrow> None
      | Some n \<Rightarrow> if neg then (if n > 2 ^ 31 then None else Some (- int n)) else if n \<ge> 2 ^ 31 then None else Some (int n))"

record fdb_entry =
  fe_mac :: string
  fe_local :: bool
  fe_age :: int
  fe_wifi :: bool
  fe_band :: string

definition fdbEntrySize :: nat where "fdbEntrySize = 16"

definition nativeValue :: "bool \<Rightarrow> 8 word list \<Rightarrow> nat" where
  "nativeValue le bs = foldr (\<lambda>b n. unat b + 256 * n) (if le then bs else rev bs) 0"

function records :: "8 word list \<Rightarrow> 8 word list list" where
  "records raw = (if fdbEntrySize \<le> length raw then take fdbEntrySize raw # records (drop fdbEntrySize raw) else [])"
  by pat_completeness auto
termination by (relation "measure length") (simp_all add: fdbEntrySize_def)

declare records.simps [simp del]

definition fdbEntryOf :: "bool \<Rightarrow> (int \<times> string) list \<Rightarrow> (string \<Rightarrow> bool) \<Rightarrow> (string \<Rightarrow> string) \<Rightarrow> 8 word list \<Rightarrow> fdb_entry" where
  \<comment> \<open>the age is in nanoseconds; the answers of \<open>isRadio\<close> and \<open>band\<close> are remembered per port\<close>
  "fdbEntryOf le ports isRadio band rec' =
     (let isLocal = (rec' ! 7 \<noteq> 0); port = the_default [] (map_of ports (int (unat (rec' ! 12)) * 256 + int (unat (rec' ! 6))));
          wifi = (port \<noteq> [] \<and> \<not> isLocal \<and> isRadio port)
      in \<lparr>fe_mac = macString (map unat (take 6 rec')), fe_local = isLocal, fe_age = int (nativeValue le (take 4 (drop 8 rec'))) * 10000000,
          fe_wifi = wifi, fe_band = (if wifi then band port else [])\<rparr>)"

definition parseForwarding :: "bool \<Rightarrow> 8 word list \<Rightarrow> (int \<times> string) list \<Rightarrow> (string \<Rightarrow> bool) \<Rightarrow> (string \<Rightarrow> string) \<Rightarrow> fdb_entry list" where
  "parseForwarding le raw ports isRadio band = map (fdbEntryOf le ports isRadio band) (records raw)"

definition bytesText :: "8 word list \<Rightarrow> string" where "bytesText bs = map (\<lambda>b. char_of (unat b)) bs"

definition portNumbers :: "sys_reader \<Rightarrow> string \<Rightarrow> (int \<times> string) list" where
  "portNumbers sys base =
     (case sr_ReadDir sys (base @ ''/brif'') of Inl e \<Rightarrow> []
      | Inr names \<Rightarrow> fold (\<lambda>p m. case sr_ReadFile sys (base @ ''/brif/'' @ p @ ''/port_no'') of Inl e \<Rightarrow> m
          | Inr b \<Rightarrow> (case parseInt0 (TrimSpace (bytesText b)) of None \<Rightarrow> m | Some n \<Rightarrow> AList.update n p m)) names [])"

definition forwarding :: "bool \<Rightarrow> sys_reader \<Rightarrow> string \<Rightarrow> (string \<times> string) list \<Rightarrow> fdb_entry list" where
  "forwarding le sys bridge bands =
     (let base = sysNet @ bridge in
      case sr_ReadFile sys (base @ ''/brforward'') of Inl e \<Rightarrow> []
      | Inr raw \<Rightarrow> parseForwarding le raw (portNumbers sys base) (isRadioPort sys) (\<lambda>p. the_default [] (map_of bands p)))"

definition lanDevice :: "network_interface list result \<Rightarrow> string result" where
  "lanDevice ifaces =
     (case ifaces of Inl e \<Rightarrow> Inl e
      | Inr is \<Rightarrow> (case findLan is of None \<Rightarrow> Inl (Failed ''no local network'')
        | Some i \<Rightarrow> if if_Device i = [] then Inl (Failed ''the local network has no device'') else Inr (if_Device i)))"

section \<open>Guests\<close>

record device_env =
  de_ifaces :: "network_interface list result"
  de_bus :: "wifi_bus option"
  de_unmarshal :: unmarshal_clients
  de_sys :: sys_reader
  de_le :: bool
  de_files :: "string \<Rightarrow> string result"
  de_now :: int

definition onGuestBridge :: "sys_reader \<Rightarrow> access_point \<Rightarrow> bool" where
  "onGuestBridge sys ap = sr_Exists sys (sysNet @ guestBridge @ ''/brif/'' @ ap_iface ap)"

definition clientMACs :: "access_point list \<Rightarrow> string list" where
  "clientMACs aps = concat (map (\<lambda>ap. List.map_filter (\<lambda>(mac, s). macOf mac) (ap_clients ap)) aps)"

definition inSubnet :: "ip4 \<Rightarrow> ip4 option \<Rightarrow> string \<Rightarrow> bool" where
  \<comment> \<open>\<^verbatim>\<open>net.IPNet.Contains\<close>; without a mask of four bytes nothing is inside\<close>
  "inSubnet ip m4 s = (case (m4, ParseIP4 s) of (Some m, Some x) \<Rightarrow> and x m = and (and ip m) m | _ \<Rightarrow> False)"

definition guestClients :: "'w runner \<Rightarrow> device_env \<Rightarrow> access_point list \<Rightarrow> string list \<Rightarrow> 'w \<Rightarrow> string list \<times> 'w" where
  "guestClients run env aps wired w =
     (let out = clientMACs (filter (onGuestBridge (de_sys env)) aps); home = clientMACs (filter (\<lambda>ap. \<not> onGuestBridge (de_sys env) ap) aps);
          (addr, w1) = uciGet run (''network.'' @ guestSection @ ''.ipaddr'') w;
          (m', w2) = uciGet run (''network.'' @ guestSection @ ''.netmask'') w1
      in case ParseIP4 addr of None \<Rightarrow> (out, w2)
         | Some ip \<Rightarrow> let (ls, w3) = leases run (de_files env) (de_now env) w2 in
             (out @ List.map_filter (\<lambda>l. if inSubnet ip (ParseIP4 (firstNonEmpty [m', ''255.255.255.0''])) (l_IP l)
                then (case macOf (l_MAC l) of None \<Rightarrow> None | Some n \<Rightarrow> if n \<in> set home \<or> n \<in> set wired then None else Some n)
                else None) ls, w3))"

definition wiredNow :: "device_env \<Rightarrow> string list" where
  "wiredNow env =
     (case lanDevice (de_ifaces env) of Inl e \<Rightarrow> []
      | Inr dev \<Rightarrow> List.map_filter (\<lambda>e. if \<not> fe_local e \<and> \<not> fe_wifi e then macOf (fe_mac e) else None) (forwarding (de_le env) (de_sys env) dev []))"

definition refuseGuest :: "'w runner \<Rightarrow> device_env \<Rightarrow> string \<Rightarrow> ('w, unit) step" where
  "refuseGuest run env mac =
     bindR (pureR (guestClients run env (accessPoints (de_unmarshal env) (de_bus env) (de_sys env)) (wiredNow env))) (\<lambda>guests.
       checkR (mac \<notin> set guests) (Refused ''mac'' ''this device is on the guest network''))"

section \<open>Staging a block\<close>

definition revertRaw :: "'w runner \<Rightarrow> string list \<Rightarrow> 'w \<Rightarrow> 'w" where
  "revertRaw run keys w = fold (\<lambda>k w. snd (run ''uci'' [''revert'', k] w)) keys w"

definition orUndo :: "('w \<Rightarrow> 'w) \<Rightarrow> ('w, 'a) step \<Rightarrow> ('w, 'a) step" where
  "orUndo undo m w = (case m w of (Inl e, w') \<Rightarrow> (Inl e, undo w') | (Inr x, w') \<Rightarrow> (Inr x, w'))"

definition deleteR :: "'w runner \<Rightarrow> string \<Rightarrow> ('w, unit) step" where
  "deleteR run key w = (case uciDelete run key w of (Some e, w') \<Rightarrow> (Inl e, w') | (None, w') \<Rightarrow> (Inr (), w'))"

definition deviceMAC :: "string \<Rightarrow> string result" where
  "deviceMAC mac = (case NormalizeMAC mac of Inl e \<Rightarrow> Inl (Refused ''mac'' ''not a hardware address of a device'') | Inr m \<Rightarrow> Inr m)"

definition localZone :: "firewall_status \<Rightarrow> string" where
  "localZone f = fold (\<lambda>z l. if z_Role z = ZoneLocal then z_Name z else l) (fw_Zones f) []"

definition blockRow :: "string \<Rightarrow> config_change" where
  "blockRow key =
     (let said = describe ''firewall'' ''noInternet'' [] in
      \<lparr>Label = ph_words said, LabelKey = ph_key said, From_value = [], To_value = [], Dangerous = dangerousConfig ''firewall'', Detail = key, Subject = []\<rparr>)"

definition blockSets :: "string \<Rightarrow> string \<Rightarrow> string \<Rightarrow> (string \<times> string) list" where
  "blockSets key local mac =
     [(key, ''rule''), (key @ ''.name'', ''VeilBridge: no internet for '' @ mac), (key @ ''.src'', local), (key @ ''.dest'', ''*''),
      (key @ ''.src_mac'', mac), (key @ ''.proto'', ''all''), (key @ ''.target'', ''REJECT'')]"

definition stageBlock :: "'w runner \<Rightarrow> device_env \<Rightarrow> string \<Rightarrow> ('w, config_change list) step" where
  "stageBlock run env mac =
     (let key = fw (noInternetSection mac); undo = revertRaw run [key] in
      bindR (FirewallInfo run (de_ifaces env)) (\<lambda>f.
      bindR (checkR (localZone f \<noteq> []) (Failed ''the local network is in no firewall zone'')) (\<lambda>_.
      bindR (fw4Warnings run) (\<lambda>baseline.
      bindR (setEach run undo (blockSets key (localZone f) mac)) (\<lambda>_.
      bindR (orUndo undo (fw4Accepts run baseline)) (\<lambda>_.
        retR [(blockRow key)\<lparr>To_value := mac\<rparr>]))))))"

definition StageDeviceInternet :: "'w runner option \<Rightarrow> device_env \<Rightarrow> string \<Rightarrow> bool \<Rightarrow> ('w, config_change list) step" where
  "StageDeviceInternet mrun env raw allowed =
     (case mrun of None \<Rightarrow> failR (Failed ''not implemented'')
      | Some run \<Rightarrow>
          bindR (liftR (deviceMAC raw)) (\<lambda>mac. let key = fw (noInternetSection mac) in
          bindR (pureR (uciGet run key)) (\<lambda>got.
          bindR (if allowed then retR () else refuseGuest run env mac) (\<lambda>_.
            if allowed then
              (if got = [] then retR [] else bindR (deleteR run key) (\<lambda>_. retR [(blockRow key)\<lparr>From_value := mac\<rparr>]))
            else if got \<noteq> [] then
              bindR (pureR (uciGet run (key @ ''.enabled''))) (\<lambda>on.
                if on = ''0'' then failR (Refused ''mac'' ''this device's block is switched off in the firewall settings'') else retR [])
            else stageBlock run env mac))))"

section \<open>Staging a schedule\<close>

definition scheduleRow :: "string \<Rightarrow> string \<Rightarrow> string \<Rightarrow> config_change" where
  "scheduleRow mac from' to' =
     (let said = describe ''firewall'' ''schedule'' [] in
      \<lparr>Label = ph_words said, LabelKey = ph_key said, From_value = from', To_value = to', Dangerous = dangerousConfig ''firewall'',
       Detail = fw (scheduleSection mac), Subject = mac\<rparr>)"

definition scheduleKeys :: "string list" where
  \<comment> \<open>the names \<open>scheduleOptions\<close> uses, sorted\<close>
  "scheduleKeys = [''dest'', ''name'', ''proto'', ''src'', ''src_mac'', ''start_time'', ''stop_time'', ''target'', ''weekdays'']"

definition partSets :: "string \<Rightarrow> options \<Rightarrow> (string \<times> string) list" where
  "partSets key opts = (key, ''rule'') # List.map_filter (\<lambda>k. map_option (\<lambda>v. (key @ ''.'' @ k, v)) (opts k)) scheduleKeys"

fun switchedOff :: "'w runner \<Rightarrow> string list \<Rightarrow> ('w, unit) step" where
  "switchedOff run [] = retR ()"
| "switchedOff run (key # keys) =
     bindR (pureR (uciGet run key)) (\<lambda>there.
     bindR (if there = [] then retR [] else pureR (uciGet run (key @ ''.enabled''))) (\<lambda>on.
       if there \<noteq> [] \<and> on = ''0'' then failR (Refused ''mac'' ''this device's schedule is switched off in the firewall settings'')
       else switchedOff run keys))"

fun deleteParts :: "'w runner \<Rightarrow> ('w \<Rightarrow> 'w) \<Rightarrow> string list \<Rightarrow> ('w, unit) step" where
  "deleteParts run undo [] = retR ()"
| "deleteParts run undo (key # keys) =
     bindR (pureR (uciGet run key)) (\<lambda>there.
     bindR (if there = [] then retR () else orUndo undo (deleteR run key)) (\<lambda>_. deleteParts run undo keys))"

definition partsOf :: "string \<Rightarrow> string \<Rightarrow> internet_schedule option \<Rightarrow> string \<Rightarrow> (string \<times> string) list" where
  \<comment> \<open>a clean schedule has options (\<open>scheduleOptions\<close> is not \<open>None\<close>)\<close>
  "partsOf mac local want key =
     (case want of None \<Rightarrow> []
      | Some s \<Rightarrow> (case scheduleOptions mac local s of None \<Rightarrow> []
        | Some (e, mo) \<Rightarrow> partSets key e @ (case mo of None \<Rightarrow> [] | Some m \<Rightarrow> partSets (key @ morningSuffix) m)))"

definition sameSchedule :: "internet_schedule option \<Rightarrow> internet_schedule option \<Rightarrow> bool" where
  "sameSchedule want have =
     (case want of None \<Rightarrow> have = None | Some s \<Rightarrow> (case have of None \<Rightarrow> False | Some h \<Rightarrow> Words h = Words s))"

definition cleanWant :: "internet_schedule option \<Rightarrow> internet_schedule option result" where
  "cleanWant want = (case want of None \<Rightarrow> Inr None | Some s \<Rightarrow> (case CleanSchedule s of Inl e \<Rightarrow> Inl e | Inr c \<Rightarrow> Inr (Some c)))"

definition scheduleZone :: "'w runner \<Rightarrow> device_env \<Rightarrow> bool \<Rightarrow> ('w, string) step" where
  "scheduleZone run env wanted =
     (if \<not> wanted then retR []
      else bindR (FirewallInfo run (de_ifaces env)) (\<lambda>f.
        bindR (checkR (localZone f \<noteq> []) (Failed ''the local network is in no firewall zone'')) (\<lambda>_. retR (localZone f))))"

definition StageDeviceSchedule :: "'w runner option \<Rightarrow> device_env \<Rightarrow> string \<Rightarrow> internet_schedule option \<Rightarrow> ('w, config_change list) step" where
  "StageDeviceSchedule mrun env raw asked =
     (case mrun of None \<Rightarrow> failR (Failed ''not implemented'')
      | Some run \<Rightarrow>
          bindR (liftR (deviceMAC raw)) (\<lambda>mac.
          bindR (liftR (cleanWant asked)) (\<lambda>want.
          bindR (if want = None then retR () else refuseGuest run env mac) (\<lambda>_.
          let evening = fw (scheduleSection mac); keys = [evening, evening @ morningSuffix]; undo = revertRaw run keys in
          bindR (switchedOff run keys) (\<lambda>_.
          bindR (pureR (schedulesNow (Some run))) (\<lambda>now. let have = map_of now mac in
          if sameSchedule want have then retR []
          else
            bindR (scheduleZone run env (want \<noteq> None)) (\<lambda>local.
            bindR (fw4Warnings run) (\<lambda>baseline.
            bindR (deleteParts run undo keys) (\<lambda>_.
            bindR (setEach run undo (partsOf mac local want evening)) (\<lambda>_.
            bindR (orUndo undo (fw4Accepts run baseline)) (\<lambda>_.
              retR [scheduleRow mac (case have of None \<Rightarrow> [] | Some s \<Rightarrow> Words s) (case want of None \<Rightarrow> [] | Some s \<Rightarrow> Words s)])))))))))))"

end
