(* ===== verification/Device_Switch.thy ===== *)
theory Device_Switch
  imports Device_Control
begin

text \<open>
  What staging a block or a schedule of a device leaves in the draft, and what is then read: the switch acts on its device alone. The interface is
  \<open>uci_edits\<close> (theory Sections).
\<close>

section \<open>Names\<close>

definition deviceAddress :: "string \<Rightarrow> bool" where
  \<comment> \<open>an address as \<open>NormalizeMAC\<close> spells it\<close>
  "deviceAddress m \<longleftrightarrow> macOf m = Some m"

lemma macOf_address: "macOf s = Some m \<Longrightarrow> deviceAddress m"
  using NormalizeMAC_result [of s m] NormalizeMAC_macString by (auto simp: macOf_def deviceAddress_def split: sum.splits)

lemma NormalizeMAC_address: "NormalizeMAC s = Inr m \<Longrightarrow> deviceAddress m"
  using macOf_address [of s m] by (simp add: macOf_def)

lemma address_hex: "deviceAddress m \<Longrightarrow> \<exists>hw. device_mac hw \<and> m = macString hw \<and> RemoveChar CHR '':'' m = concat (map hex2 hw)"
proof -
  assume "deviceAddress m"
  then have "NormalizeMAC m = Inr m" by (auto simp: deviceAddress_def macOf_def split: sum.splits)
  from NormalizeMAC_result [OF this] obtain hw where "device_mac hw" "m = macString hw" by blast
  then show ?thesis using RemoveChar_mac [of hw] by (auto simp: device_mac_def)
qed

lemma address_section_inj:
  assumes "deviceAddress a" "deviceAddress b" "RemoveChar CHR '':'' a = RemoveChar CHR '':'' b"
  shows "a = b"
proof -
  have n: "NormalizeMAC a = Inr a" "NormalizeMAC b = Inr b" using assms(1,2) by (auto simp: deviceAddress_def macOf_def split: sum.splits)
  have "scheduleSection a = scheduleSection b" using assms(3) by (simp add: scheduleSection_def)
  then show ?thesis using schedule_section_names_device [OF n(1)] schedule_section_names_device [OF n(2)] by (metis option.inject)
qed

lemma hex_chars: "device_mac hw \<Longrightarrow> \<forall>c \<in> set (concat (map hex2 hw)). \<exists>d < 16. c = hexDigit d"
proof -
  assume "device_mac hw"
  then have d: "n div 16 < 16" if "n \<in> set hw" for n using that by (auto simp: device_mac_def)
  have m: "(n :: nat) mod 16 < 16" for n by simp
  show ?thesis
  proof
    fix c
    assume "c \<in> set (concat (map hex2 hw))"
    then obtain n where "n \<in> set hw" "c = hexDigit (n div 16) \<or> c = hexDigit (n mod 16)" by (auto simp: hex2_def)
    with d m show "\<exists>d < 16. c = hexDigit d" by blast
  qed
qed

lemma hexDigit_word: "d < 16 \<Longrightarrow> word_char (hexDigit d) \<and> \<not> is_space (hexDigit d) \<and> hexDigit d \<noteq> quote \<and> hexDigit d \<noteq> newline"
proof -
  have "list_all (\<lambda>d. word_char (hexDigit d) \<and> \<not> is_space (hexDigit d) \<and> hexDigit d \<noteq> quote \<and> hexDigit d \<noteq> newline) [0..<16]" by code_simp
  then show "d < 16 \<Longrightarrow> ?thesis" unfolding list_all_iff by simp
qed

lemma address_names:
  assumes "deviceAddress m"
  shows "plainName (noInternetSection m)" "plainName (scheduleSection m)" "plainName (scheduleSection m @ morningSuffix)"
    "m \<noteq> []" "\<forall>c \<in> set m. \<not> is_space c" "bare m"
proof -
  obtain hw where hw: "device_mac hw" "m = macString hw" "RemoveChar CHR '':'' m = concat (map hex2 hw)" using address_hex [OF assms] by blast
  have w: "list_all word_char (concat (map hex2 hw))" unfolding list_all_iff using hex_chars [OF hw(1)] hexDigit_word by fastforce
  have "list_all word_char noInternetPrefix" "list_all word_char schedulePrefix" "list_all word_char morningSuffix" by code_simp+
  with w show "plainName (noInternetSection m)" "plainName (scheduleSection m)" "plainName (scheduleSection m @ morningSuffix)"
    by (simp_all add: plainName_def noInternetSection_def scheduleSection_def hw(3) noInternetPrefix_def schedulePrefix_def morningSuffix_def)
  have c: "c = CHR '':'' \<or> (\<exists>d < 16. c = hexDigit d)" if "c \<in> set m" for c
    using mac_chars [of hw c] hw that by (simp add: device_mac_def)
  show s: "\<forall>c \<in> set m. \<not> is_space c" using c hexDigit_word by (fastforce simp: is_space_def)
  show "bare m" using c hexDigit_word unfolding bare_def by fastforce
  show "m \<noteq> []"
  proof
    assume "m = []"
    with hw(3) have "concat (map hex2 hw) = []" by (simp add: RemoveChar_def)
    with hw(1) show False by (cases hw) (auto simp: device_mac_def hex2_def)
  qed
qed

lemma Fields_word: "m \<noteq> [] \<Longrightarrow> \<forall>c \<in> set m. \<not> is_space c \<Longrightarrow> Fields m = [m]"
  unfolding Fields_def by (intro FieldsFunc_word) auto

section \<open>Frames\<close>

context uci_edits
begin

lemma get_keeps: "uciGet run k w = (v, w') \<Longrightarrow> secs w' = secs w"
  using get_frame by (auto simp: uciGet_def split: prod.splits sum.splits)

lemma get_tells: "plainName c \<Longrightarrow> plainName i \<Longrightarrow> uciGet run (c @ ''.'' @ i) w = (v, w') \<Longrightarrow> v = [] \<longleftrightarrow> i \<notin> sec_id ` set (secs w c)"
  using get_there get_missing by (auto simp: uciGet_def split: prod.splits sum.splits)

lemma leases_keeps: "leases run files now w = (l, w') \<Longrightarrow> secs w' = secs w"
  using get_keeps by (auto simp: leases_def Let_def split: prod.splits sum.splits)

lemma guests_keeps: "guestClients run env aps wired w = (g, w') \<Longrightarrow> secs w' = secs w"
  by (auto simp: guestClients_def Let_def split: prod.splits option.splits dest!: get_keeps leases_keeps)

lemma refuse_keeps: "refuseGuest run env mac w = (Inr u, w') \<Longrightarrow> secs w' = secs w"
  by (auto simp: refuseGuest_def bindR_Inr pureR_def split: prod.splits dest!: guests_keeps)

lemma warnings_keeps: "fw4Warnings run w = (Inr x, w') \<Longrightarrow> secs w' = secs w"
proof -
  have "fw4Program \<noteq> ''uci''" by (simp add: fw4Program_def)
  then show "fw4Warnings run w = (Inr x, w') \<Longrightarrow> secs w' = secs w"
    using others by (auto simp: fw4Warnings_def bindR_Inr wrapR_def split: prod.splits sum.splits)
qed

lemma accepts_keeps: "orUndo u (fw4Accepts run b) w = (Inr x, w') \<Longrightarrow> secs w' = secs w"
  by (auto simp: orUndo_def fw4Accepts_def bindR_Inr split: prod.splits sum.splits dest!: warnings_keeps)

lemma local_bare: "FirewallInfo run ifaces w = (Inr f, w') \<Longrightarrow> secs w' = secs w \<and> bare (localZone f)"
proof -
  assume "FirewallInfo run ifaces w = (Inr f, w')"
  then obtain out where r: "run ''uci'' [''-q'', ''show'', ''firewall''] w = (Inr out, w')" and f: "f = parseFirewall out (upMap ifaces)"
    by (auto simp: FirewallInfo_def bindR_Inr)
  have "\<forall>z \<in> set (fw_Zones (fold (addSection up) ss st)). bare (z_Name z)"
    if "\<forall>z \<in> set (fw_Zones st). bare (z_Name z)" "cleanSections ss" for ss st up
    using that
  proof (induction ss arbitrary: st)
    case (Cons s ss)
    have "bare (oget (sec_options s) ''name'')" using sopt_clean [OF Cons.prems(2)] by simp
    then have "\<forall>z \<in> set (fw_Zones (addSection up s st)). bare (z_Name z)" using Cons.prems(1) by (auto simp: addSection_def zoneOf_def Let_def)
    with Cons.IH Cons.prems(2) show ?case by (simp add: cleanSections_def)
  qed simp
  from this [of "\<lparr>fw_Zones = [], fw_Forwardings = [], fw_PortForwards = [], fw_Rules = []\<rparr>" "parseUCISections out" "upMap ifaces"]
  have z: "\<forall>z \<in> set (fw_Zones f). bare (z_Name z)" using parseUCISections_clean f by (simp add: parseFirewall_def)
  have "bare (fold (\<lambda>z l. if z_Role z = ZoneLocal then z_Name z else l) zs l)" if "\<forall>z \<in> set zs. bare (z_Name z)" "bare l" for zs l
    using that by (induction zs arbitrary: l) auto
  from this [OF z] show ?thesis using show_frame [OF r] by (simp add: localZone_def)
qed

lemma delete_keeps: "plainName c \<Longrightarrow> plainName i \<Longrightarrow> deleteR run (c @ ''.'' @ i) w = (Inr u, w') \<Longrightarrow>
    secs w' = (secs w)(c := filter (\<lambda>s. sec_id s \<noteq> i) (secs w c))"
  using delete_section by (auto simp: deleteR_def uciDelete_def split: prod.splits sum.splits option.splits)

text \<open>One new section, its values without quotes.\<close>

lemma section_made:
  assumes "setEach run undo (groupSets (c, i, t, os)) w = (Inr (), w')" "groupPlain (c, i, t, os)" "i \<notin> sec_id ` set (secs w c)"
    "\<forall>(k, v) \<in> set os. quote \<notin> set v"
  shows "secs w' = (secs w)(c := secs w c @ [\<lparr>sec_id = i, sec_kind = t, sec_options = os\<rparr>])"
proof -
  from set_group [of undo c i t os "[]"] assms(1-3) obtain s where "madeFrom (c, i, t, os) (c, s)" "secs w' = (secs w)(c := secs w c @ [s])" by auto
  with madeFrom_exact [OF this(1) assms(4)] show ?thesis by simp
qed

end

section \<open>Blocks\<close>

text \<open>Every block of the draft is the panel's: its name tells its one device.\<close>

definition ownBlocks :: "uci_section list \<Rightarrow> bool" where
  "ownBlocks secs \<longleftrightarrow> (\<forall>s \<in> set secs. blocks s \<longrightarrow>
     (\<exists>m. List.map_filter macOf (Fields (sopt s ''src_mac'')) = [m] \<and> sec_id s = noInternetSection m))"

lemma blocks_device: "ownBlocks secs \<Longrightarrow> m \<in> set (blockedBy secs) \<longleftrightarrow> deviceAddress m \<and> (\<exists>s \<in> set secs. blocks s \<and> sec_id s = noInternetSection m)"
proof -
  assume own: "ownBlocks secs"
  have one: "\<exists>m'. List.map_filter macOf (Fields (sopt s ''src_mac'')) = [m'] \<and> sec_id s = noInternetSection m' \<and> deviceAddress m'"
    if s: "s \<in> set secs" "blocks s" for s
  proof -
    from own s obtain m' where m: "List.map_filter macOf (Fields (sopt s ''src_mac'')) = [m']" "sec_id s = noInternetSection m'" unfolding ownBlocks_def by blast
    then have "m' \<in> set (List.map_filter macOf (Fields (sopt s ''src_mac'')))" by simp
    then obtain r where "macOf r = Some m'" by (auto simp: map_filter_def)
    with m macOf_address show ?thesis by blast
  qed
  show ?thesis
  proof
    assume "m \<in> set (blockedBy secs)"
    then obtain s where "s \<in> set secs" "blocks s" "m \<in> set (List.map_filter macOf (Fields (sopt s ''src_mac'')))" by (auto simp: blockedBy_def)
    with one show "deviceAddress m \<and> (\<exists>s \<in> set secs. blocks s \<and> sec_id s = noInternetSection m)" by fastforce
  next
    assume "deviceAddress m \<and> (\<exists>s \<in> set secs. blocks s \<and> sec_id s = noInternetSection m)"
    then obtain s where s: "deviceAddress m" "s \<in> set secs" "blocks s" "sec_id s = noInternetSection m" by blast
    from one [OF s(2,3)] obtain m' where "List.map_filter macOf (Fields (sopt s ''src_mac'')) = [m']" "noInternetSection m = noInternetSection m'" "deviceAddress m'"
      using s(4) by auto
    moreover from this have "m' = m" using address_section_inj [OF s(1)] by (simp add: noInternetSection_def)
    ultimately have "m \<in> set (List.map_filter macOf (Fields (sopt s ''src_mac'')))" by simp
    with s show "m \<in> set (blockedBy secs)" by (auto simp: blockedBy_def)
  qed
qed

definition blockSection :: "string \<Rightarrow> string \<Rightarrow> uci_section" where
  "blockSection local mac = \<lparr>sec_id = noInternetSection mac, sec_kind = ''rule'',
     sec_options = [(''name'', ''VeilBridge: no internet for '' @ mac), (''src'', local), (''dest'', ''*''), (''src_mac'', mac), (''proto'', ''all''), (''target'', ''REJECT'')]\<rparr>"

lemma blockSection_blocks: "deviceAddress m \<Longrightarrow> blocks (blockSection local m) \<and> List.map_filter macOf (Fields (sopt (blockSection local m) ''src_mac'')) = [m]"
proof -
  assume m: "deviceAddress m"
  have "Fields m = [m]" using address_names [OF m] Fields_word by blast
  then show ?thesis using m
    by (simp add: blocks_def blockSection_def isNoInternetSection_def noInternetSection_def noInternetPrefix_def HasPrefix_iff map_filter_def deviceAddress_def)
qed

lemma blockSets_group: "blockSets (fw (noInternetSection mac)) local mac =
    groupSets (''firewall'', noInternetSection mac, ''rule'', sec_options (blockSection local mac))"
  by (simp add: blockSets_def blockSection_def fw_def)

lemma block_plain: "deviceAddress m \<Longrightarrow> bare local \<Longrightarrow> groupPlain (''firewall'', noInternetSection m, ''rule'', sec_options (blockSection local m)) \<and>
    (\<forall>(k, v) \<in> set (sec_options (blockSection local m)). quote \<notin> set v)"
proof -
  assume m: "deviceAddress m" "bare local"
  have "list_all plainName [''firewall'', ''name'', ''src'', ''dest'', ''src_mac'', ''proto'', ''target'']" "plainWord ''rule''" by code_simp+
  then show ?thesis using address_names(1,6) [OF m(1)] m(2) by (simp add: blockSection_def bare_def)
qed

text \<open>The draft after the switch.\<close>

definition switched :: "bool \<Rightarrow> string \<Rightarrow> string \<Rightarrow> uci_section list \<Rightarrow> uci_section list" where
  "switched allowed local m secs =
     (if allowed then filter (\<lambda>s. sec_id s \<noteq> noInternetSection m) secs
      else if noInternetSection m \<in> sec_id ` set secs then secs else secs @ [blockSection local m])"

lemma switched_own:
  assumes "ownBlocks secs" "deviceAddress m" "allowed \<or> noInternetSection m \<notin> sec_id ` set secs"
  shows "ownBlocks (switched allowed local m secs)"
    "set (blockedBy (switched allowed local m secs)) = (if allowed then set (blockedBy secs) - {m} else insert m (set (blockedBy secs)))"
proof -
  show own: "ownBlocks (switched allowed local m secs)"
    using assms blockSection_blocks [OF assms(2), of local] by (auto simp: ownBlocks_def switched_def blockSection_def)
  have n: "noInternetSection x = noInternetSection m \<longleftrightarrow> x = m" if "deviceAddress x" for x
    using address_section_inj [OF that assms(2)] by (auto simp: noInternetSection_def)
  have i: "sec_id (blockSection local m) = noInternetSection m" by (simp add: blockSection_def)
  show "set (blockedBy (switched allowed local m secs)) = (if allowed then set (blockedBy secs) - {m} else insert m (set (blockedBy secs)))"
  proof (rule set_eqI)
    fix x
    show "x \<in> set (blockedBy (switched allowed local m secs)) \<longleftrightarrow>
        x \<in> (if allowed then set (blockedBy secs) - {m} else insert m (set (blockedBy secs)))"
      unfolding blocks_device [OF own] using assms(2,3) blockSection_blocks [OF assms(2), of local] n [of x] i
      by (cases allowed) (auto simp: switched_def blocks_device [OF assms(1)])
  qed
qed

context uci_edits
begin

lemma block_switched:
  assumes "StageDeviceInternet (Some run) env raw allowed w = (Inr rows, w')"
  shows "\<exists>mac local. NormalizeMAC raw = Inr mac \<and>
    (rows = [] \<longrightarrow> secs w' = secs w \<and> (allowed \<longrightarrow> noInternetSection mac \<notin> sec_id ` set (secs w ''firewall''))) \<and>
    (rows \<noteq> [] \<longrightarrow> (allowed \<or> noInternetSection mac \<notin> sec_id ` set (secs w ''firewall'')) \<and>
      secs w' = (secs w)(''firewall'' := switched allowed local mac (secs w ''firewall'')))"
proof -
  have pf: "plainName ''firewall''" by code_simp
  from assms obtain mac got w1 w2 where mac: "NormalizeMAC raw = Inr mac" and g: "uciGet run (fw (noInternetSection mac)) w = (got, w1)"
    and guest: "(if allowed then retR () else refuseGuest run env mac) w1 = (Inr (), w2)"
    and rest: "(if allowed then
        (if got = [] then retR [] else bindR (deleteR run (fw (noInternetSection mac))) (\<lambda>_. retR [(blockRow (fw (noInternetSection mac)))\<lparr>From_value := mac\<rparr>]))
      else if got \<noteq> [] then
        bindR (pureR (uciGet run (fw (noInternetSection mac) @ ''.enabled''))) (\<lambda>on.
          if on = ''0'' then failR (Refused ''mac'' ''this device's block is switched off in the firewall settings'') else retR [])
      else stageBlock run env mac) w2 = (Inr rows, w')"
    by (auto simp: StageDeviceInternet_def bindR_Inr liftR_def deviceMAC_def pureR_def Let_def split: sum.splits prod.splits)
  have a: "deviceAddress mac" by (rule NormalizeMAC_address [OF mac])
  note names = address_names [OF a]
  have s1: "secs w1 = secs w" by (rule get_keeps [OF g])
  have s2: "secs w2 = secs w" using guest s1 refuse_keeps by (auto split: if_splits)
  have there: "got = [] \<longleftrightarrow> noInternetSection mac \<notin> sec_id ` set (secs w ''firewall'')"
    using get_tells [OF pf names(1)] g by (simp add: fw_def)
  consider "allowed" "got = []" | "allowed" "got \<noteq> []" | "\<not> allowed" "got \<noteq> []" | "\<not> allowed" "got = []" by blast
  then show ?thesis
  proof cases
    case 1
    then have n: "noInternetSection mac \<notin> sec_id ` set (secs w ''firewall'')" using there by blast
    have "rows = []" "secs w' = secs w" using 1 rest s2 by simp_all
    with n mac show ?thesis by blast
  next
    case 2
    with rest have "deleteR run (''firewall'' @ ''.'' @ noInternetSection mac) w2 = (Inr (), w')" "rows \<noteq> []" by (auto simp: bindR_Inr fw_def)
    from delete_keeps [OF pf names(1) this(1)] this(2) s2 2 mac show ?thesis by (auto simp: switched_def)
  next
    case 3
    with rest have "rows = []" "secs w' = secs w2" using get_keeps by (auto simp: bindR_Inr pureR_def split: prod.splits if_splits)
    with mac s2 3(1) show ?thesis by auto
  next
    case 4
    with rest obtain f w3 base w4 w5 where f: "FirewallInfo run (de_ifaces env) w2 = (Inr f, w3)" and base: "fw4Warnings run w3 = (Inr base, w4)"
      and sets: "setEach run (revertRaw run [fw (noInternetSection mac)]) (blockSets (fw (noInternetSection mac)) (localZone f) mac) w4 = (Inr (), w5)"
      and fin: "orUndo (revertRaw run [fw (noInternetSection mac)]) (fw4Accepts run base) w5 = (Inr (), w')" and rows: "rows \<noteq> []"
      by (auto simp: stageBlock_def bindR_Inr Let_def)
    have s4: "secs w4 = secs w" using local_bare [OF f] warnings_keeps [OF base] s2 by simp
    have new: "noInternetSection mac \<notin> sec_id ` set (secs w4 ''firewall'')" using there 4 s4 by simp
    have "bare (localZone f)" using local_bare [OF f] by blast
    note plain = block_plain [OF a this]
    have "secs w5 = (secs w)(''firewall'' := secs w ''firewall'' @ [blockSection (localZone f) mac])"
      using section_made [OF sets [unfolded blockSets_group] plain [THEN conjunct1] new plain [THEN conjunct2]] s4 by (simp add: blockSection_def)
    then have "secs w' = (secs w)(''firewall'' := switched allowed (localZone f) mac (secs w ''firewall''))"
      using accepts_keeps [OF fin] there 4 by (simp add: switched_def)
    with mac rows there 4 show ?thesis by blast
  qed
qed

end

text \<open>
  C13. Turning a device's internet off or on acts on that device alone. When staging succeeds, the firewall read back afterwards blocks the
  devices it blocked before, without the device when its internet was allowed, and with it when a row says it was turned off; nothing but the
  firewall's draft changed, and every block is still the panel's own, named after its one device.
\<close>

theorem device_block_switches:
  assumes "uci_edits run secs" and "StageDeviceInternet (Some run) env raw allowed w = (Inr rows, w')"
    and "run ''uci'' [''-q'', ''show'', ''firewall''] w = (Inr out, u)" "run ''uci'' [''-q'', ''show'', ''firewall''] w' = (Inr out', u')"
    and "ownBlocks (parseUCISections out)"
  shows "\<exists>mac. NormalizeMAC raw = Inr mac \<and> (\<forall>c. c \<noteq> ''firewall'' \<longrightarrow> secs w' c = secs w c) \<and> ownBlocks (parseUCISections out') \<and>
    set (blockedDevices out') = (if allowed then set (blockedDevices out) - {mac} else if rows = [] then set (blockedDevices out)
      else insert mac (set (blockedDevices out)))"
proof -
  note show_value = uci_sections.show_value [OF uci_edits.axioms(1) [OF assms(1)]]
  from uci_edits.block_switched [OF assms(1,2)] obtain mac local where mac: "NormalizeMAC raw = Inr mac"
    and idle: "rows = [] \<Longrightarrow> secs w' = secs w" "rows = [] \<Longrightarrow> allowed \<Longrightarrow> noInternetSection mac \<notin> sec_id ` set (secs w ''firewall'')"
    and done': "rows \<noteq> [] \<Longrightarrow> allowed \<or> noInternetSection mac \<notin> sec_id ` set (secs w ''firewall'')"
      "rows \<noteq> [] \<Longrightarrow> secs w' = (secs w)(''firewall'' := switched allowed local mac (secs w ''firewall''))" by blast
  note a = NormalizeMAC_address [OF mac]
  have o': "parseUCISections out = secs w ''firewall''" "parseUCISections out' = secs w' ''firewall''" using show_value assms(3,4) by blast+
  show ?thesis
  proof (cases "rows = []")
    case True
    have "allowed \<Longrightarrow> mac \<notin> set (blockedBy (secs w ''firewall''))"
      using idle(2) [OF True] blocks_device [OF assms(5)] o'(1) by (auto simp: image_iff)
    with True idle(1) o' assms(5) mac show ?thesis by (auto simp: blockedDevices_def)
  next
    case False
    from switched_own [OF assms(5) [unfolded o'(1)] a done'(1) [OF False], of local] done'(2) [OF False] o' mac False
    show ?thesis by (simp add: blockedDevices_def)
  qed
qed

section \<open>Schedules\<close>

lemmas schedule_names = schedule_section_names_device [of m m for m]

lemma address_normal: "deviceAddress m \<Longrightarrow> NormalizeMAC m = Inr m"
  by (auto simp: deviceAddress_def macOf_def split: sum.splits)

lemma part_names:
  assumes "deviceAddress m"
  shows "scheduleMAC (scheduleSection m) = Some m" "scheduleMAC (scheduleSection m @ morningSuffix) = Some m"
    "\<not> HasSuffix (scheduleSection m) morningSuffix" "HasSuffix (scheduleSection m @ morningSuffix) morningSuffix"
proof -
  show "scheduleMAC (scheduleSection m) = Some m" "scheduleMAC (scheduleSection m @ morningSuffix) = Some m"
    using schedule_section_names_device [OF address_normal [OF assms]] by blast+
  show "HasSuffix (scheduleSection m @ morningSuffix) morningSuffix" by (simp add: HasSuffix_iff)
  obtain hw where hw: "device_mac hw" "RemoveChar CHR '':'' m = concat (map hex2 hw)" using address_hex [OF assms] by blast
  show "\<not> HasSuffix (scheduleSection m) morningSuffix"
  proof
    assume "HasSuffix (scheduleSection m) morningSuffix"
    then obtain t where t: "schedulePrefix @ concat (map hex2 hw) = t @ ''_m''" by (auto simp: HasSuffix_iff scheduleSection_def hw(2) morningSuffix_def)
    have "length (concat (map hex2 hw)) = 12" using hw(1) by (simp only: length_concat_hex2 device_mac_def)
    then have "\<not> (\<exists>us. us @ concat (map hex2 hw) = ''_m'')" by (auto dest: arg_cong [of _ _ length] simp del: length_concat)
    with t have "\<exists>us. concat (map hex2 hw) = us @ ''_m''" unfolding append_eq_append_conv2 by blast
    with hex_no_suffix [OF hw(1)] show False by (auto simp: HasSuffix_iff morningSuffix_def)
  qed
qed

text \<open>Every schedule of the draft is the panel's: an evening's or a morning's section named after its device.\<close>

definition partName :: "bool \<Rightarrow> string \<Rightarrow> string" where
  "partName morning m = (if morning then scheduleSection m @ morningSuffix else scheduleSection m)"

definition ownSchedules :: "uci_section list \<Rightarrow> bool" where
  "ownSchedules secs \<longleftrightarrow> (\<forall>s \<in> set secs. scheduleRule s \<longrightarrow> (\<exists>m b. deviceAddress m \<and> sec_id s = partName b m))"

lemma partName_inj: "deviceAddress a \<Longrightarrow> deviceAddress b \<Longrightarrow> partName x a = partName y b \<longleftrightarrow> a = b \<and> x = y"
  using part_names [of a] part_names [of b] by (metis partName_def option.inject)

lemma partName_facts: "deviceAddress m \<Longrightarrow> scheduleMAC (partName b m) = Some m \<and> HasSuffix (partName b m) morningSuffix = b"
  using part_names [of m] by (simp add: partName_def)

definition partAt :: "uci_section list \<Rightarrow> string \<Rightarrow> options option" where
  "partAt secs i = map_option (map_of \<circ> sec_options) (List.find (\<lambda>s. scheduleRule s \<and> sec_id s = i) secs)"

lemma partOf_snoc: "partOf b (secs @ [s]) =
    (if scheduleRule s then (case scheduleMAC (sec_id s) of None \<Rightarrow> partOf b secs
      | Some mac \<Rightarrow> if HasSuffix (sec_id s) morningSuffix = b then AList.update mac (map_of (sec_options s)) (partOf b secs) else partOf b secs)
     else partOf b secs)"
  unfolding partOf_def by (simp split: option.split)

lemma find_snoc: "List.find P (xs @ [x]) = (case List.find P xs of None \<Rightarrow> if P x then Some x else None | Some y \<Rightarrow> Some y)"
  by (simp add: find_append split: option.split)

lemma partOf_at:
  assumes "distinct (map sec_id secs)" "ownSchedules secs" "deviceAddress m"
  shows "map_of (partOf b secs) m = partAt secs (partName b m)"
  using assms(1,2)
proof (induction secs rule: rev_induct)
  case (snoc s secs)
  have ih: "map_of (partOf b secs) m = partAt secs (partName b m)" using snoc by (simp add: ownSchedules_def)
  show ?case
  proof (cases "scheduleRule s")
    case True
    then obtain m' b' where m': "deviceAddress m'" "sec_id s = partName b' m'" using snoc.prems(2) by (auto simp: ownSchedules_def)
    note f = partName_facts [OF m'(1), of b']
    have "List.find (\<lambda>t. scheduleRule t \<and> sec_id t = sec_id s) secs = None" using snoc.prems(1) by (auto simp: find_None_iff image_iff)
    then show ?thesis using True ih f m' partName_inj [OF m'(1) assms(3), of b' b]
      by (auto simp: partOf_snoc partAt_def find_snoc update_conv' split: option.split)
  next
    case False
    with ih show ?thesis by (simp add: partOf_snoc partAt_def find_snoc split: option.split)
  qed
qed (simp add: partOf_def partAt_def)

lemma partOf_keys: "distinct (map fst (partOf b secs)) \<and> (\<forall>m \<in> fst ` set (partOf b secs). deviceAddress m)"
proof (induction secs rule: rev_induct)
  case (snoc s secs)
  have "deviceAddress mac" if "scheduleMAC (sec_id s) = Some mac" for mac
    using that NormalizeMAC_address by (auto simp: scheduleMAC_def Let_def split: if_splits sum.splits)
  with snoc show ?case by (auto simp: partOf_snoc distinct_update split: option.split dest!: set_update [THEN subsetD])
qed (simp add: partOf_def)

lemma map_of_map_filter:
  "distinct (map fst xs) \<Longrightarrow> map_of (List.map_filter (\<lambda>(k, x). map_option (Pair k) (f k x)) xs) m = Option.bind (map_of xs m) (f m)"
proof (induction xs)
  case (Cons kx xs)
  obtain k x where kx: "kx = (k, x)" by (cases kx)
  have "m \<notin> fst ` set xs \<Longrightarrow> map_of (List.map_filter (\<lambda>(k, x). map_option (Pair k) (f k x)) xs) m = None"
    by (auto simp: map_of_eq_None_iff map_filter_def image_iff)
  with Cons kx show ?case by (auto simp: map_filter_simps split: option.split)
qed (simp add: map_filter_simps)

lemma schedules_at:
  assumes "distinct (map sec_id secs)" "ownSchedules secs"
  shows "map_of (schedulesIn secs) m = (if deviceAddress m then
    Option.bind (partAt secs (partName False m)) (\<lambda>e. scheduleFrom e (partAt secs (partName True m))) else None)"
proof -
  have "map_of (schedulesIn secs) m = Option.bind (map_of (partOf False secs) m) (\<lambda>e. scheduleFrom e (map_of (partOf True secs) m))"
    using map_of_map_filter [of "partOf False secs" "\<lambda>mac e. scheduleFrom e (map_of (partOf True secs) mac)" m] partOf_keys [of False secs]
    by (simp add: schedulesIn_def)
  moreover have "\<not> deviceAddress m \<Longrightarrow> map_of (partOf False secs) m = None" using partOf_keys [of False secs] by (auto simp: map_of_eq_None_iff)
  ultimately show ?thesis using partOf_at [OF assms] by auto
qed

text \<open>The sections of a schedule, as they are written.\<close>

definition partOptions :: "options \<Rightarrow> (string \<times> string) list" where
  "partOptions opts = List.map_filter (\<lambda>k. map_option (Pair k) (opts k)) scheduleKeys"

definition partGroups :: "string \<Rightarrow> options \<Rightarrow> options option \<Rightarrow> new_section list" where
  "partGroups mac e mo = (''firewall'', partName False mac, ''rule'', partOptions e) #
     (case mo of None \<Rightarrow> [] | Some m \<Rightarrow> [(''firewall'', partName True mac, ''rule'', partOptions m)])"

lemma partSets_group: "partSets (fw i) opts = groupSets (''firewall'', i, ''rule'', partOptions opts)"
proof -
  have "List.map_filter (\<lambda>k. map_option (\<lambda>v. (key @ ''.'' @ k, v)) (opts k)) ks =
      map (\<lambda>(k, v). (key @ ''.'' @ k, v)) (List.map_filter (\<lambda>k. map_option (Pair k) (opts k)) ks)" for key ks
    by (induction ks) (auto simp: map_filter_simps split: option.split)
  from this [of "fw i" scheduleKeys] show ?thesis by (simp add: partSets_def partOptions_def fw_def)
qed

lemma partsOf_groups: "scheduleOptions mac local s = Some (e, mo) \<Longrightarrow>
    partsOf mac local (Some s) (fw (scheduleSection mac)) = concat (map groupSets (partGroups mac e mo))"
proof -
  have "fw (scheduleSection mac) @ morningSuffix = fw (scheduleSection mac @ morningSuffix)" by (simp add: fw_def)
  then show "scheduleOptions mac local s = Some (e, mo) \<Longrightarrow> ?thesis"
    by (simp add: partsOf_def partSets_group partGroups_def partName_def del: groupSets.simps split: option.split)
qed

definition plainOptions :: "options \<Rightarrow> bool" where
  "plainOptions o' \<longleftrightarrow> dom o' \<subseteq> set scheduleKeys \<and> (\<forall>v \<in> ran o'. bare v)"

lemma partOptions_map: "plainOptions o' \<Longrightarrow> map_of (partOptions o') = o'"
proof
  fix k
  assume p: "plainOptions o'"
  have "map_of (List.map_filter (\<lambda>k. map_option (Pair k) (o' k)) ks) k = (if k \<in> set ks then o' k else None)" for ks
    by (induction ks) (auto simp: map_filter_simps split: option.split)
  then have "map_of (partOptions o') k = (if k \<in> set scheduleKeys then o' k else None)" by (simp add: partOptions_def)
  then show "map_of (partOptions o') k = o' k" using p by (cases "o' k") (auto simp: plainOptions_def dom_def)
qed

lemma partOptions_plain:
  assumes "plainOptions o'" "plainName i"
  shows "groupPlain (''firewall'', i, ''rule'', partOptions o')" "\<forall>(k, v) \<in> set (partOptions o'). quote \<notin> set v"
proof -
  have n: "plainName ''firewall''" "plainWord ''rule''" "\<forall>k \<in> set scheduleKeys. plainName k" by code_simp+
  have k: "map fst (List.map_filter (\<lambda>k. map_option (Pair k) (o' k)) ks) = filter (\<lambda>k. o' k \<noteq> None) ks" for ks
    by (induction ks) (auto simp: map_filter_simps split: option.split)
  have "distinct scheduleKeys" by code_simp
  then have d: "distinct (map fst (partOptions o'))" unfolding partOptions_def k by simp
  have m: "k \<in> set scheduleKeys \<and> bare v" if "(k, v) \<in> set (partOptions o')" for k v
    using that assms(1) by (auto simp: partOptions_def map_filter_def plainOptions_def intro: ranI)
  show "groupPlain (''firewall'', i, ''rule'', partOptions o')" using n assms(2) d m by (auto simp: bare_def)
  show "\<forall>(k, v) \<in> set (partOptions o'). quote \<notin> set v" using m by (auto simp: bare_def)
qed

lemma hhmm_bare: "bare (hhmm n)"
proof -
  have "\<not> is_digit quote" "\<not> is_digit newline" by (simp_all add: is_digit_def)
  then have d: "bare (nat_digits n)" for n using all_digits_nat_digits [of n] by (auto simp: bare_def all_digits_def list_all_iff)
  have "bare (Itoa i)" for i using d by (auto simp: Itoa_def) (auto simp: bare_def)
  then show ?thesis using d by (auto simp: hhmm_def pad2_def) (auto simp: bare_def)
qed

lemma plainOptions_upd: "plainOptions o' \<Longrightarrow> k \<in> set scheduleKeys \<Longrightarrow> bare v \<Longrightarrow> plainOptions (o'(k \<mapsto> v))"
  by (auto simp: plainOptions_def ran_def split: if_splits)

lemma scheduleOptions_plain:
  assumes "clean s" "bare mac" "bare local" "scheduleOptions mac local s = Some (e, mo)"
  shows "plainOptions e \<and> (\<forall>m. mo = Some m \<longrightarrow> plainOptions m)"
proof -
  have keys: "''name'' \<in> set scheduleKeys" "''src'' \<in> set scheduleKeys" "''dest'' \<in> set scheduleKeys" "''src_mac'' \<in> set scheduleKeys"
    "''proto'' \<in> set scheduleKeys" "''target'' \<in> set scheduleKeys" "''weekdays'' \<in> set scheduleKeys" "''start_time'' \<in> set scheduleKeys"
    "''stop_time'' \<in> set scheduleKeys"
    by (simp_all add: scheduleKeys_def)
  have lit: "bare ''*''" "bare ''all''" "bare ''REJECT''" "bare '':00''" "bare ''00:00:00''" "bare eveningEnd" "bare ''VeilBridge: internet schedule for ''"
    "bare '' (after midnight)''" by code_simp+
  have name: "bare (''VeilBridge: internet schedule for '' @ mac)" "bare (''VeilBridge: internet schedule for '' @ mac @ '' (after midnight)'')"
    using lit(7,8) assms(2) bare_simps(2) by blast+
  have base: "plainOptions (baseOptions mac local n)" if "bare n" for n
    unfolding baseOptions_def by (intro plainOptions_upd keys lit(1-3) that assms(2,3)) (simp add: plainOptions_def)
  have times: "bare (From s @ '':00'')" "bare (To s @ '':00'')"
    using hhmm_bare lit(4) assms(1) unfolding clean_def by (metis bare_simps(2))+
  have days: "\<forall>i < 7. bare (fwDays ! i)" by code_simp
  have join: "bare (Join vs '' '')" if "\<forall>v \<in> set vs. bare v" for vs
    using that Join_chars [of vs "'' ''"] by (force simp: bare_def)
  have "nat (dayIndex d) < 7" "nat ((dayIndex d + 1) mod 7) < 7" for d using weekday_facts(3) [of d] by auto
  then have wd: "bare (Join (map (\<lambda>d. fwDays ! nat (dayIndex d)) ds) '' '')" "bare (Join (map (\<lambda>d. fwDays ! nat ((dayIndex d + 1) mod 7)) ds) '' '')" for ds
    using days by (auto intro!: join)
  note steps = plainOptions_upd [OF _ keys(7)] plainOptions_upd [OF _ keys(8)] plainOptions_upd [OF _ keys(9)] base name times wd lit
  show ?thesis using assms(4) unfolding scheduleOptions_def Let_def
    by (auto split: if_splits intro!: steps simp del: append.simps append_assoc)
qed

text \<open>The draft after staging: the device's sections taken out, the new ones behind the rest.\<close>

definition withSchedule :: "string \<Rightarrow> new_section list \<Rightarrow> uci_section list \<Rightarrow> uci_section list" where
  "withSchedule mac gs secs = filter (\<lambda>s. sec_id s \<notin> {partName False mac, partName True mac}) secs @ map groupSection gs"

definition groupsFor :: "string \<Rightarrow> string \<Rightarrow> internet_schedule option \<Rightarrow> new_section list" where
  "groupsFor mac local want = (case want of None \<Rightarrow> []
     | Some s \<Rightarrow> (case scheduleOptions mac local s of None \<Rightarrow> [] | Some (e, mo) \<Rightarrow> partGroups mac e mo))"

context uci_edits
begin

lemma deleteParts_deletes:
  assumes "deleteParts run undo (map fw is) w = (Inr (), w')" "\<forall>i \<in> set is. plainName i"
  shows "secs w' = (secs w)(''firewall'' := filter (\<lambda>s. sec_id s \<notin> set is) (secs w ''firewall''))"
  using assms
proof (induction "is" arbitrary: w)
  case Nil
  then show ?case by simp
next
  case (Cons i "is")
  have pf: "plainName ''firewall''" by code_simp
  from Cons.prems obtain got w1 w2 where g: "uciGet run (fw i) w = (got, w1)"
    and d: "(if got = [] then retR () else orUndo undo (deleteR run (fw i))) w1 = (Inr (), w2)"
    and rest: "deleteParts run undo (map fw is) w2 = (Inr (), w')" by (auto simp: bindR_Inr pureR_def split: prod.splits)
  have i: "plainName i" using Cons.prems by simp
  have there: "got = [] \<longleftrightarrow> i \<notin> sec_id ` set (secs w ''firewall'')" using get_tells [OF pf i] g by (simp add: fw_def)
  have "secs w2 = (secs w)(''firewall'' := filter (\<lambda>s. sec_id s \<noteq> i) (secs w ''firewall''))"
  proof (cases "got = []")
    case True
    then have "filter (\<lambda>s. sec_id s \<noteq> i) (secs w ''firewall'') = secs w ''firewall''" using there by (auto simp: filter_id_conv)
    with True d get_keeps [OF g] show ?thesis by auto
  next
    case False
    with d have "deleteR run (''firewall'' @ ''.'' @ i) w1 = (Inr (), w2)" by (auto simp: orUndo_def fw_def split: prod.splits sum.splits)
    from delete_keeps [OF pf i this] get_keeps [OF g] show ?thesis by simp
  qed
  with Cons.IH [OF rest] Cons.prems(2) show ?case by (simp add: conj_commute fun_eq_iff)
qed

lemma switchedOff_keeps: "switchedOff run keys w = (Inr (), w') \<Longrightarrow> secs w' = secs w"
proof (induction keys arbitrary: w)
  case (Cons k keys)
  then show ?case by (auto simp: bindR_Inr pureR_def split: prod.splits if_splits dest!: get_keeps)
qed simp

lemma zone_bare: "scheduleZone run env wanted w = (Inr local, w') \<Longrightarrow> secs w' = secs w \<and> bare local"
  using local_bare by (auto simp: scheduleZone_def bindR_Inr split: if_splits)

lemma schedule_read: "schedulesNow (Some run) w = (now, w') \<Longrightarrow> secs w' = secs w"
  using show_frame by (auto simp: schedulesNow_def split: prod.splits sum.splits)

lemma parts_written:
  assumes "setEach run undo (partsOf mac local want (fw (scheduleSection mac))) w = (Inr (), w')" "deviceAddress mac" "bare local"
    and "\<forall>s. want = Some s \<longrightarrow> clean s" "\<forall>s \<in> set (secs w ''firewall''). sec_id s \<notin> {partName False mac, partName True mac}"
  shows "secs w' = (secs w)(''firewall'' := secs w ''firewall'' @ map groupSection (groupsFor mac local want))"
proof (cases want)
  case None
  with assms(1) show ?thesis by (simp add: partsOf_def groupsFor_def)
next
  case (Some s)
  with assms(4) have "clean s" by simp
  then obtain e mo where o': "scheduleOptions mac local s = Some (e, mo)" using scheduleOptions_total by blast
  note names = address_names [OF assms(2)]
  have p: "plainOptions e" "\<forall>m. mo = Some m \<longrightarrow> plainOptions m" using scheduleOptions_plain [OF \<open>clean s\<close> names(6) assms(3) o'] by blast+
  have n: "plainName (partName b mac)" for b using names(2,3) by (simp add: partName_def)
  have plain: "\<forall>g \<in> set (partGroups mac e mo). groupPlain g" "\<forall>(c, i, t, os) \<in> set (partGroups mac e mo). \<forall>(k, v) \<in> set os. quote \<notin> set v"
    using partOptions_plain [OF _ n] p by (auto simp: partGroups_def simp del: groupPlain.simps split: option.splits) fastforce
  have "partName False mac \<noteq> partName True mac" using partName_inj [OF assms(2,2)] by simp
  then have dist: "distinct (map (\<lambda>(c, i, t, os). (c, i)) (partGroups mac e mo))" by (simp add: partGroups_def split: option.split)
  have fresh: "\<forall>(c, i, t, os) \<in> set (partGroups mac e mo). i \<notin> sec_id ` set (secs w c)"
    using assms(5) by (auto simp: partGroups_def split: option.splits)
  have "setEach run undo (concat (map groupSets (partGroups mac e mo)) @ []) w = (Inr (), w')" using assms(1) Some partsOf_groups [OF o'] by simp
  from set_groups [OF this plain(1) fresh dist] obtain ms where
    ms: "list_all2 madeFrom (partGroups mac e mo) ms" "\<forall>c. secs w' c = secs w c @ map snd (filter (\<lambda>m. fst m = c) ms)" by auto
  have "ms = map (\<lambda>g. (''firewall'', groupSection g)) (partGroups mac e mo)"
    using madeFrom_all [OF ms(1) plain(2)] by (auto simp: partGroups_def split: option.splits)
  then have "secs w' c = (if c = ''firewall'' then secs w c @ map groupSection (partGroups mac e mo) else secs w c)" for c
    using ms(2) by (auto simp: filter_map comp_def)
  then show ?thesis using Some o' by (auto simp: groupsFor_def fun_eq_iff)
qed

lemma schedule_staged:
  assumes "StageDeviceSchedule (Some run) env raw asked w = (Inr rows, w')"
  shows "\<exists>mac want local. NormalizeMAC raw = Inr mac \<and> cleanWant asked = Inr want \<and> bare local \<and> (rows = [] \<longrightarrow> secs w' = secs w) \<and>
    (rows \<noteq> [] \<longrightarrow> secs w' = (secs w)(''firewall'' := withSchedule mac (groupsFor mac local want) (secs w ''firewall'')))"
proof -
  from assms obtain mac want w1 w2 now w3 where mac: "NormalizeMAC raw = Inr mac" and want: "cleanWant asked = Inr want"
    and guest: "(if want = None then retR () else refuseGuest run env mac) w = (Inr (), w1)"
    and off: "switchedOff run [fw (scheduleSection mac), fw (scheduleSection mac) @ morningSuffix] w1 = (Inr (), w2)"
    and now: "schedulesNow (Some run) w2 = (now, w3)"
    and rest: "(let evening = fw (scheduleSection mac); keys = [evening, evening @ morningSuffix]; undo = revertRaw run keys; have' = map_of now mac in
      if sameSchedule want have' then retR []
      else bindR (scheduleZone run env (want \<noteq> None)) (\<lambda>local.
        bindR (fw4Warnings run) (\<lambda>baseline.
        bindR (deleteParts run undo keys) (\<lambda>_.
        bindR (setEach run undo (partsOf mac local want evening)) (\<lambda>_.
        bindR (orUndo undo (fw4Accepts run baseline)) (\<lambda>_.
          retR [scheduleRow mac (case have' of None \<Rightarrow> [] | Some s \<Rightarrow> Words s) (case want of None \<Rightarrow> [] | Some s \<Rightarrow> Words s)])))))) w3 = (Inr rows, w')"
    by (auto simp: StageDeviceSchedule_def bindR_Inr liftR_def deviceMAC_def Let_def simp del: switchedOff.simps split: sum.splits)
  have a: "deviceAddress mac" by (rule NormalizeMAC_address [OF mac])
  note names = address_names [OF a]
  have s3: "secs w3 = secs w" using guest refuse_keeps switchedOff_keeps [OF off] schedule_read [OF now] by (auto split: if_splits)
  show ?thesis
  proof (cases "sameSchedule want (map_of now mac)")
    case True
    with rest s3 have "rows = []" "secs w' = secs w" by (simp_all add: Let_def)
    moreover have "bare []" by simp
    ultimately show ?thesis using mac want by blast
  next
    case False
    have keys: "[fw (scheduleSection mac), fw (scheduleSection mac) @ morningSuffix] = map fw [partName False mac, partName True mac]"
      by (simp add: partName_def fw_def)
    let ?undo = "revertRaw run [fw (scheduleSection mac), fw (scheduleSection mac) @ morningSuffix]"
    from rest False obtain local w4 base w5 w6 w7 where z: "scheduleZone run env (want \<noteq> None) w3 = (Inr local, w4)" and b: "fw4Warnings run w4 = (Inr base, w5)"
      and d: "deleteParts run ?undo [fw (scheduleSection mac), fw (scheduleSection mac) @ morningSuffix] w5 = (Inr (), w6)"
      and sets: "setEach run ?undo (partsOf mac local want (fw (scheduleSection mac))) w6 = (Inr (), w7)"
      and fin: "orUndo ?undo (fw4Accepts run base) w7 = (Inr (), w')" and rows: "rows \<noteq> []"
      by (auto simp: bindR_Inr Let_def simp del: deleteParts.simps)
    have s5: "secs w5 = secs w" using zone_bare [OF z] warnings_keeps [OF b] s3 by simp
    have n: "\<forall>i \<in> set [partName False mac, partName True mac]. plainName i" using names(2,3) by (simp add: partName_def)
    have s6: "secs w6 = (secs w)(''firewall'' := filter (\<lambda>s. sec_id s \<notin> {partName False mac, partName True mac}) (secs w ''firewall''))"
      using deleteParts_deletes [OF d [unfolded keys] n] s5 by simp
    have clean: "\<forall>s. want = Some s \<longrightarrow> clean s" using want CleanSchedule_cleans(1) by (auto simp: cleanWant_def split: option.splits sum.splits)
    have "\<forall>s \<in> set (secs w6 ''firewall''). sec_id s \<notin> {partName False mac, partName True mac}" using s6 by simp
    from parts_written [OF sets a _ clean this] zone_bare [OF z] s6
    have "secs w7 = (secs w)(''firewall'' := withSchedule mac (groupsFor mac local want) (secs w ''firewall''))" by (simp add: withSchedule_def)
    with accepts_keeps [OF fin] mac want zone_bare [OF z] rows show ?thesis by auto
  qed
qed

end

lemma find_filter: "\<forall>s. P s \<longrightarrow> Q s \<Longrightarrow> List.find P (filter Q xs) = List.find P xs"
  by (induction xs) auto

lemma partAt_append: "partAt (a @ b) i = (case partAt a i of None \<Rightarrow> partAt b i | Some o' \<Rightarrow> Some o')"
  by (simp add: partAt_def find_append split: option.split)

lemma partAt_none: "i \<notin> sec_id ` set secs \<Longrightarrow> partAt secs i = None"
  by (auto simp: partAt_def find_None_iff image_iff)

lemma new_rule: "plainOptions o' \<Longrightarrow> deviceAddress m \<Longrightarrow> scheduleRule (groupSection (c, partName b m, ''rule'', partOptions o'))"
proof -
  assume p: "plainOptions o'" "deviceAddress m"
  have "o' ''enabled'' = None" using p(1) by (auto simp: plainOptions_def scheduleKeys_def)
  then have "oget (partOptions o') ''enabled'' = []" using partOptions_map [OF p(1)] by (simp add: oget_def the_default_def)
  moreover have "isScheduleSection (partName b m)"
    by (auto simp: isScheduleSection_def partName_def scheduleSection_def HasPrefix_iff)
  ultimately show ?thesis by (simp add: scheduleRule_def groupSection_def)
qed

lemma withSchedule_parts:
  assumes "ownSchedules secs" "deviceAddress mac" "bare local" "\<forall>s. want = Some s \<longrightarrow> clean s"
  shows "ownSchedules (withSchedule mac (groupsFor mac local want) secs)"
    and "deviceAddress m \<Longrightarrow> m \<noteq> mac \<Longrightarrow> partAt (withSchedule mac (groupsFor mac local want) secs) (partName b m) = partAt secs (partName b m)"
    and "want = None \<Longrightarrow> partAt (withSchedule mac (groupsFor mac local want) secs) (partName b mac) = None"
    and "want = Some s \<Longrightarrow> scheduleOptions mac local s = Some (e, mo) \<Longrightarrow>
      partAt (withSchedule mac (groupsFor mac local want) secs) (partName b mac) = (if b then mo else Some e)"
proof -
  let ?base = "filter (\<lambda>s. sec_id s \<notin> {partName False mac, partName True mac}) secs" and ?new = "map groupSection (groupsFor mac local want)"
  have ids: "\<forall>s \<in> set ?new. \<exists>b. sec_id s = partName b mac"
    by (auto simp: groupsFor_def partGroups_def groupSection_def split: option.splits)
  then show "ownSchedules (withSchedule mac (groupsFor mac local want) secs)"
    using assms(1,2) unfolding ownSchedules_def withSchedule_def by auto
  show "partAt (withSchedule mac (groupsFor mac local want) secs) (partName b m) = partAt secs (partName b m)" if "deviceAddress m" "m \<noteq> mac"
  proof -
    have n: "partName b m \<noteq> partName x mac" for x using partName_inj [OF that(1) assms(2)] that(2) by simp
    have "partAt ?base (partName b m) = partAt secs (partName b m)" unfolding partAt_def using n by (subst find_filter) auto
    moreover have "partAt ?new (partName b m) = None" using ids n by (intro partAt_none) fastforce
    ultimately show ?thesis by (simp add: withSchedule_def partAt_append split: option.split)
  qed
  have base: "partAt ?base (partName b mac) = None" by (intro partAt_none) (cases b; auto)
  show "want = None \<Longrightarrow> partAt (withSchedule mac (groupsFor mac local want) secs) (partName b mac) = None"
    using base by (simp add: withSchedule_def partAt_append groupsFor_def)
  show "partAt (withSchedule mac (groupsFor mac local want) secs) (partName b mac) = (if b then mo else Some e)"
    if "want = Some s" "scheduleOptions mac local s = Some (e, mo)"
  proof -
    have "clean s" using assms(4) that(1) by simp
    from scheduleOptions_plain [OF this _ assms(3) that(2)] address_names(6) [OF assms(2)]
    have p: "plainOptions e" "\<forall>m. mo = Some m \<longrightarrow> plainOptions m" by blast+
    have d: "partName True mac \<noteq> partName False mac" "partName False mac \<noteq> partName True mac" using partName_inj [OF assms(2,2)] by simp_all
    have i: "sec_id (groupSection (c, i, t, os)) = i" "sec_options (groupSection (c, i, t, os)) = os" for c i t os by (simp_all add: groupSection_def)
    have "partAt ?new (partName b mac) = (if b then mo else Some e)"
      using that p d new_rule [OF _ assms(2)] partOptions_map
      by (cases mo; cases b) (simp_all add: groupsFor_def partGroups_def partAt_def i)
    with base show ?thesis by (simp add: withSchedule_def partAt_append)
  qed
qed

text \<open>
  C9. A schedule that has been staged is the schedule that is read. When staging succeeds with a row, the firewall read back afterwards has for
  the device exactly the schedule that was asked, in its clean spelling, or none when it was removed, and for every other device the schedule it had;
  nothing but the firewall's draft changed, and every schedule is still the panel's own, named after its device.
\<close>

theorem device_schedule_switches:
  assumes "uci_edits run secs" and "StageDeviceSchedule (Some run) env raw asked w = (Inr rows, w')"
    and "run ''uci'' [''-q'', ''show'', ''firewall''] w = (Inr out, u)" "run ''uci'' [''-q'', ''show'', ''firewall''] w' = (Inr out', u')"
    and "ownSchedules (parseUCISections out)"
  shows "\<exists>mac want. NormalizeMAC raw = Inr mac \<and> cleanWant asked = Inr want \<and> (\<forall>c. c \<noteq> ''firewall'' \<longrightarrow> secs w' c = secs w c) \<and>
    ownSchedules (parseUCISections out') \<and>
    map_of (schedules out') = (if rows = [] then map_of (schedules out) else (map_of (schedules out))(mac := want))"
proof -
  note show_value = uci_sections.show_value [OF uci_edits.axioms(1) [OF assms(1)]]
  from uci_edits.schedule_staged [OF assms(1,2)] obtain mac want local where mac: "NormalizeMAC raw = Inr mac" and want: "cleanWant asked = Inr want"
    and l: "bare local" and idle: "rows = [] \<Longrightarrow> secs w' = secs w"
    and done': "rows \<noteq> [] \<Longrightarrow> secs w' = (secs w)(''firewall'' := withSchedule mac (groupsFor mac local want) (secs w ''firewall''))" by blast
  have o': "parseUCISections out = secs w ''firewall''" "parseUCISections out' = secs w' ''firewall''" using show_value assms(3,4) by blast+
  show ?thesis
  proof (cases "rows = []")
    case True
    with idle o' assms(5) mac want show ?thesis by (auto simp: schedules_def)
  next
    case False
    note a = NormalizeMAC_address [OF mac]
    have clean: "\<forall>s. want = Some s \<longrightarrow> clean s" using want CleanSchedule_cleans(1) by (auto simp: cleanWant_def split: option.splits sum.splits)
    note parts = withSchedule_parts [OF assms(5) [unfolded o'(1)] a l clean]
    have now: "secs w' ''firewall'' = withSchedule mac (groupsFor mac local want) (secs w ''firewall'')" using done' [OF False] by simp
    note before' = schedules_at [OF parseUCISections_distinct assms(5), unfolded o'(1)]
    have own: "ownSchedules (secs w' ''firewall'')" using parts(1) now by simp
    note after = schedules_at [OF parseUCISections_distinct [of out', unfolded o'(2)] own, unfolded now]
    have "map_of (schedulesIn (secs w' ''firewall'')) m = ((map_of (schedulesIn (secs w ''firewall'')))(mac := want)) m" for m
    proof (cases "m = mac")
      case True
      show ?thesis
      proof (cases want)
        case None
        then show ?thesis unfolding now after using True a parts(3) by simp
      next
        case (Some s)
        then have "clean s" using clean by simp
        from schedule_roundtrip [OF this] obtain e mo where r: "scheduleOptions mac local s = Some (e, mo)" "scheduleFrom e mo = Some s" by blast
        then show ?thesis unfolding now after using True a Some parts(4) [OF Some r(1)] by simp
      qed
    next
      case False
      then show ?thesis unfolding now after using parts(2) by (auto simp: before')
    qed
    then show ?thesis using mac want own o' done' [OF False] False by (auto simp: schedules_def)
  qed
qed

section \<open>At home\<close>

definition demo_lan :: network_interface where
  "demo_lan = \<lparr>if_Name = ''lan'', if_Device = ''br-lan'', if_Up = True, if_Proto = ''static'', if_UptimeSec = 60, if_IPv4 = [''192.168.1.1/24''], if_IPv6 = [],
     if_Gateway = [], if_Gateway6 = [], if_DNS = []\<rparr>"

definition demo_env :: device_env where
  "demo_env = \<lparr>de_ifaces = Inr [demo_lan], de_bus = None, de_unmarshal = (\<lambda>b. None),
     de_sys = \<lparr>sr_ReadFile = (\<lambda>p. Inl (Failed ''open'')), sr_ReadDir = (\<lambda>p. Inl (Failed ''open'')), sr_Exists = (\<lambda>p. False)\<rparr>,
     de_le = True, de_files = (\<lambda>p. Inl (Failed ''open'')), de_now = 0\<rparr>"

definition demo_home :: draft_world where
  "demo_home c = (if c = ''firewall'' then [\<lparr>sec_id = ''z'', sec_kind = ''zone'', sec_options = [(''name'', ''lan''), (''network'', ''lan'')]\<rparr>] else [])"

lemma show_readable: "readable w \<Longrightarrow> plainName c \<Longrightarrow> ref_draft ''uci'' [''-q'', ''show'', c] w = (Inr (printSections c (w c)), w)"
  by (simp add: ref_draft_def readable_def)

lemma demo_home_readable: "readable demo_home"
proof -
  have "wellFormed [\<lparr>sec_id = ''z'', sec_kind = ''zone'', sec_options = [(''name'', ''lan''), (''network'', ''lan'')]\<rparr>]" "wellFormed []" by code_simp+
  then show ?thesis by (simp add: readable_def demo_home_def)
qed

lemma demo_show: "ref_draft ''uci'' [''-q'', ''show'', ''firewall''] demo_home = (Inr (printSections ''firewall'' (demo_home ''firewall'')), demo_home)"
proof -
  have "plainName ''firewall''" by code_simp
  then show ?thesis by (rule show_readable [OF demo_home_readable])
qed

lemma demo_none: "ownBlocks (parseUCISections (printSections ''firewall'' (demo_home ''firewall'')))"
  "ownSchedules (parseUCISections (printSections ''firewall'' (demo_home ''firewall'')))"
  "blockedDevices (printSections ''firewall'' (demo_home ''firewall'')) = []" "schedules (printSections ''firewall'' (demo_home ''firewall'')) = []"
proof -
  have p: "parseUCISections (printSections ''firewall'' (demo_home ''firewall'')) = demo_home ''firewall''"
    using rd.show_value [OF demo_show] by simp
  show "ownBlocks (parseUCISections (printSections ''firewall'' (demo_home ''firewall'')))" "ownSchedules (parseUCISections (printSections ''firewall'' (demo_home ''firewall'')))"
    unfolding p by (simp_all add: ownBlocks_def ownSchedules_def demo_home_def blocks_def scheduleRule_def)
  show "blockedDevices (printSections ''firewall'' (demo_home ''firewall'')) = []" "schedules (printSections ''firewall'' (demo_home ''firewall'')) = []"
    unfolding blockedDevices_def schedules_def p
    by (simp_all add: demo_home_def blockedBy_def blocks_def schedulesIn_def partOf_def scheduleRule_def map_filter_simps)
qed

definition demo_block :: "config_change list result \<times> draft_world" where
  "demo_block = StageDeviceInternet (Some ref_draft) demo_env ''02:00:5E:10:00:0A'' False demo_home"

lemma demo_block_row: "fst demo_block = Inr [(blockRow ''firewall.vb_noinet_02005e10000a'')\<lparr>To_value := ''02:00:5e:10:00:0a''\<rparr>]"
  "\<not> isl (fst (ref_draft ''uci'' [''-q'', ''show'', ''firewall''] (snd demo_block)))"
  by code_simp+

theorem device_block_switches_witness:
  "\<exists>out' u'. ref_draft ''uci'' [''-q'', ''show'', ''firewall''] (snd demo_block) = (Inr out', u') \<and> set (blockedDevices out') = {''02:00:5e:10:00:0a''}"
proof -
  let ?rows = "[(blockRow ''firewall.vb_noinet_02005e10000a'')\<lparr>To_value := ''02:00:5e:10:00:0a''\<rparr>]"
  have s: "StageDeviceInternet (Some ref_draft) demo_env ''02:00:5E:10:00:0A'' False demo_home = (Inr ?rows, snd demo_block)"
    using demo_block_row(1) unfolding demo_block_def by (metis prod.collapse)
  obtain out' u' where o': "ref_draft ''uci'' [''-q'', ''show'', ''firewall''] (snd demo_block) = (Inr out', u')"
    using demo_block_row(2) by (metis prod.collapse sum.collapse(2))
  have "NormalizeMAC ''02:00:5E:10:00:0A'' = Inr ''02:00:5e:10:00:0a''" by code_simp
  with device_block_switches [OF rd.uci_edits_axioms s demo_show o' demo_none(1)] demo_none(3) o' show ?thesis by auto
qed

lemma unit_result: "isl (fst p) = False \<Longrightarrow> \<exists>w. p = (Inr (), w)"
  by (cases p; cases "fst p") auto

lemma demo_schedule: "\<exists>rows w'. StageDeviceSchedule (Some ref_draft) demo_env ''02:00:5E:10:00:0A'' (Some weekend_night) demo_home = (Inr rows, w') \<and>
    rows \<noteq> [] \<and> readable w'"
proof -
  let ?mac = "''02:00:5e:10:00:0a''"
  let ?evening = "fw (scheduleSection ?mac)"
  let ?undo = "revertRaw ref_draft [?evening, ?evening @ morningSuffix]"
  have pre: "deviceMAC ''02:00:5E:10:00:0A'' = Inr ?mac" "isl (fst (refuseGuest ref_draft demo_env ?mac demo_home)) = False"
    "isl (fst (switchedOff ref_draft [?evening, ?evening @ morningSuffix] demo_home)) = False"
    "fst (scheduleZone ref_draft demo_env True demo_home) = Inr ''lan''" "isl (fst (deleteParts ref_draft ?undo [?evening, ?evening @ morningSuffix] demo_home)) = False"
    by code_simp+
  have a: "deviceAddress ?mac" by code_simp
  obtain e mo where o': "scheduleOptions ?mac ''lan'' weekend_night = Some (e, mo)" using scheduleOptions_total [OF weekend_night_clean] by blast
  note names = address_names [OF a]
  have "bare ''lan''" by code_simp
  from scheduleOptions_plain [OF weekend_night_clean names(6) this o'] have p: "plainOptions e" "\<forall>m. mo = Some m \<longrightarrow> plainOptions m" by blast+
  have n: "plainName (partName b ?mac)" for b using names(2,3) by (simp add: partName_def)
  have "\<forall>g \<in> set (partGroups ?mac e mo). groupPlain g"
    using partOptions_plain(1) [OF _ n] p by (auto simp: partGroups_def simp del: groupPlain.simps split: option.splits)
  then have "\<forall>g \<in> set (partGroups ?mac e mo). \<forall>kv \<in> set (groupSets g). settable False kv" using groupSets_taken by blast
  then have taken: "\<forall>kv \<in> set (partsOf ?mac ''lan'' (Some weekend_night) ?evening). settable False kv"
    unfolding partsOf_groups [OF o'] by (auto simp del: groupSets.simps)
  from setEach_taken [OF this demo_home_readable] obtain w1 where
    w1: "setEach ref_draft ?undo (partsOf ?mac ''lan'' (Some weekend_night) ?evening) demo_home = (Inr (), w1)" "readable w1" by blast
  have fw4: "fw4Warnings ref_draft w = (Inr (warningLines []), w)" for w
    by (simp add: fw4Warnings_def bindR_def wrapR_def retR_def ref_draft_def fw4Program_def)
  then have ok: "orUndo ?undo (fw4Accepts ref_draft (warningLines [])) w1 = (Inr (), w1)"
    by (simp add: orUndo_def fw4Accepts_def bindR_def checkR_def retR_def freshWarnings_def)
  have parts: "map fw [partName False ?mac, partName True ?mac] = [?evening, ?evening @ morningSuffix]" by (simp add: partName_def fw_def)
  have bare_home: "filter (\<lambda>s. sec_id s \<notin> set [partName False ?mac, partName True ?mac]) (demo_home ''firewall'') = demo_home ''firewall''"
    by (simp add: demo_home_def partName_def scheduleSection_def schedulePrefix_def)
  obtain v1 v2 v3 v4 where v: "refuseGuest ref_draft demo_env ?mac demo_home = (Inr (), v1)"
    "switchedOff ref_draft [?evening, ?evening @ morningSuffix] demo_home = (Inr (), v2)"
    "scheduleZone ref_draft demo_env True demo_home = (Inr ''lan'', v3)"
    "deleteParts ref_draft ?undo [?evening, ?evening @ morningSuffix] demo_home = (Inr (), v4)"
    using unit_result [OF pre(2)] unit_result [OF pre(3)] unit_result [OF pre(5)] pre(4) by (metis prod.collapse)
  have "v1 = demo_home" "v2 = demo_home" "v3 = demo_home"
    using rd.refuse_keeps [OF v(1)] rd.switchedOff_keeps [OF v(2)] rd.zone_bare [OF v(3)] by simp_all
  moreover have "v4 = demo_home"
    using rd.deleteParts_deletes [OF v(4) [folded parts]] n bare_home by simp
  ultimately have steps: "refuseGuest ref_draft demo_env ?mac demo_home = (Inr (), demo_home)"
    "switchedOff ref_draft [?evening, ?evening @ morningSuffix] demo_home = (Inr (), demo_home)"
    "scheduleZone ref_draft demo_env True demo_home = (Inr ''lan'', demo_home)"
    "deleteParts ref_draft ?undo [?evening, ?evening @ morningSuffix] demo_home = (Inr (), demo_home)"
    using v by blast+
  have now: "schedulesNow (Some ref_draft) demo_home = ([], demo_home)" using demo_show demo_none(4) by (simp add: schedulesNow_def)
  have want: "cleanWant (Some weekend_night) = Inr (Some weekend_night)" using CleanSchedule_clean_same [OF weekend_night_clean] by (simp add: cleanWant_def)
  show ?thesis using pre(1) want steps now fw4 w1 ok
    by (simp add: StageDeviceSchedule_def bindR_def liftR_def pureR_def retR_def Let_def sameSchedule_def del: switchedOff.simps deleteParts.simps)
qed

theorem device_schedule_switches_witness:
  "\<exists>rows w' out'. StageDeviceSchedule (Some ref_draft) demo_env ''02:00:5E:10:00:0A'' (Some weekend_night) demo_home = (Inr rows, w') \<and>
    ref_draft ''uci'' [''-q'', ''show'', ''firewall''] w' = (Inr out', w') \<and> map_of (schedules out') ''02:00:5e:10:00:0a'' = Some weekend_night"
proof -
  from demo_schedule obtain rows w' where s: "StageDeviceSchedule (Some ref_draft) demo_env ''02:00:5E:10:00:0A'' (Some weekend_night) demo_home = (Inr rows, w')"
    "rows \<noteq> []" "readable w'" by blast
  have "plainName ''firewall''" by code_simp
  note o' = show_readable [OF s(3) this]
  have "NormalizeMAC ''02:00:5E:10:00:0A'' = Inr ''02:00:5e:10:00:0a''" by code_simp
  moreover have "cleanWant (Some weekend_night) = Inr (Some weekend_night)"
    using CleanSchedule_clean_same [OF weekend_night_clean] by (simp add: cleanWant_def)
  ultimately have "map_of (schedules (printSections ''firewall'' (w' ''firewall''))) ''02:00:5e:10:00:0a'' = Some weekend_night"
    using device_schedule_switches [OF rd.uci_edits_axioms s(1) demo_show o' demo_none(2)] s(2) by auto
  with s(1) o' show ?thesis by blast
qed

end
