(* ===== verification/Staged_Draft.thy ===== *)
theory Staged_Draft
  imports Device_Switch Guest_Draft Routes
begin

text \<open>
  The draft as the apply bar lists it, read back from the router (\<^verbatim>\<open>StagedChanges\<close> of
  \<^verbatim>\<open>internal/adapters/openwrt/network_write.go\<close>): one row per key of \<^verbatim>\<open>uci changes\<close>, its value on disk and in the draft; whole entries, a
  device's schedule and the guest network are one row each.
\<close>

section \<open>The two columns\<close>

type_synonym columns = "(string \<times> string) list \<times> (string \<times> string) list"

definition addValues :: "(string \<times> string) list result \<Rightarrow> (string \<times> string) list \<Rightarrow> (string \<times> string) list" where
  \<comment> \<open>a column that cannot be read is left as it is\<close>
  "addValues r m = (case r of Inl e \<Rightarrow> m | Inr vs \<Rightarrow> fold (\<lambda>(k, v). AList.update k v) vs m)"

fun columnsOf :: "'w runner \<Rightarrow> 'w link_fs \<Rightarrow> staged_edit list \<Rightarrow> string list \<Rightarrow> columns \<Rightarrow> 'w \<Rightarrow> columns \<times> 'w" where
  "columnsOf run fs edits [] cols w = (cols, w)"
| "columnsOf run fs edits (config # configs) cols w =
     (let want = keysOf edits config;
          (was, w1) = committedValues run fs config want w;
          (will, w2) = stagedValues run config want w1
      in columnsOf run fs edits configs (addValues was (fst cols), addValues will (snd cols)) w2)"

definition draftColumns :: "'w runner \<Rightarrow> 'w link_fs \<Rightarrow> staged_edit list \<Rightarrow> 'w \<Rightarrow> columns \<times> 'w" where
  "draftColumns run fs edits = columnsOf run fs edits (configsOf edits) ([], [])"

section \<open>Words\<close>

definition sectionKey :: "staged_edit \<Rightarrow> string" where "sectionKey e = e_config e @ ''.'' @ e_section e"

definition sectionEdit :: "staged_edit \<Rightarrow> staged_edit" where
  "sectionEdit e = \<lparr>e_key = sectionKey e, e_config = e_config e, e_section = e_section e, e_option = [], e_reorder = False\<rparr>"

definition entryWords :: "staged_edit \<Rightarrow> (string \<times> string) list \<Rightarrow> string" where
  "entryWords e values =
     (let at = (\<lambda>o'. oget values (e_key e @ ''.'' @ o')); kind = oget values (e_key e) in
      if e_config e = ''firewall'' \<and> kind = ''rule'' \<and> isNoInternetSection (e_section e) then at ''src_mac''
      else if e_config e = ''firewall'' \<and> kind = ''rule'' then
        ruleWords (at ''src'') (at ''dest'') (at ''proto'') (at ''dest_port'') (at ''family'')
      else if e_config e = ''network'' \<and> (kind = ''route'' \<or> kind = ''route6'') then
        (let target = (case fst (routeTarget (at ''target'') (at ''netmask'') []) of None \<Rightarrow> at ''target'' | Some p \<Rightarrow> prefix_String p)
         in routeWords target (at ''gateway'') (at ''interface''))
      else if e_config e = ''firewall'' \<and> at ''src_dport'' \<noteq> [] then
        portForwardWords (at ''proto'') (at ''src_dport'') (at ''dest_ip'') (at ''dest_port'')
      else if e_config e \<noteq> ''dhcp'' \<or> at ''mac'' = [] then []
      else reservationWords \<lparr>ra_MAC = at ''mac'', ra_IP = at ''ip'', ra_Name = at ''name'', ra_ID = []\<rparr>)"

record draft_view =
  dv_before :: "(string \<times> string) list"
  dv_after :: "(string \<times> string) list"
  dv_uplink :: string
  dv_whole :: "string list"

text \<open>Entries the draft mentions by their own line: their fields are part of that line's row.\<close>

definition wholeEntries :: "staged_edit list \<Rightarrow> columns \<Rightarrow> string \<Rightarrow> string list" where
  "wholeEntries edits cols uplink =
     map e_key (filter (\<lambda>e. e_option e = [] \<and>
       map_of entryRoles (roleOf (e_config e) (e_section e) (firstNonEmpty [oget (snd cols) (e_key e), oget (fst cols) (e_key e)]) uplink) \<noteq> None) edits)"

definition draftView :: "staged_edit list \<Rightarrow> columns \<Rightarrow> string \<Rightarrow> draft_view" where
  "draftView edits cols uplink =
     \<lparr>dv_before = fst cols, dv_after = snd cols, dv_uplink = uplink, dv_whole = wholeEntries edits cols uplink\<rparr>"

section \<open>Rows\<close>

definition inWords :: "staged_edit \<Rightarrow> (string \<times> string) list \<Rightarrow> string \<Rightarrow> string" where
  \<comment> \<open>a section's own line holds its type, which is not shown where there are words for the entry\<close>
  "inWords e values v = (if e_option e = [] \<and> entryWords e values \<noteq> [] \<and> v \<noteq> [] then entryWords e values else v)"

definition rowRole :: "draft_view \<Rightarrow> staged_edit \<Rightarrow> string" where
  "rowRole v e = roleOf (e_config e) (e_section e) (firstNonEmpty [oget (dv_after v) (sectionKey e), oget (dv_before v) (sectionKey e)]) (dv_uplink v)"

definition rowPhrase :: "draft_view \<Rightarrow> staged_edit \<Rightarrow> string \<Rightarrow> phrase" where
  "rowPhrase v e to' =
     (if rowRole v e = ''rule'' \<and> e_option e = [] then
        (let values = (if to' = [] then dv_before v else dv_after v) in
         rulePhrase (oget values (e_key e @ ''.target'')) (oget values (e_key e @ ''.dest'')))
      else describe (e_config e) (rowRole v e) (e_option e))"

definition rowSubject :: "draft_view \<Rightarrow> staged_edit \<Rightarrow> string" where
  "rowSubject v e =
     (let sec = sectionKey e in
      if rowRole v e = ''radio'' then
        ''Wi-Fi '' @ bandWord (firstNonEmpty [oget (dv_before v) (sec @ ''.band''), oget (dv_after v) (sec @ ''.band'')]) @ '' GHz''
      else if map_of entryRoles (rowRole v e) \<noteq> None \<and> e_option e \<noteq> [] then
        (let values = (if oget (dv_before v) sec = [] then dv_after v else dv_before v) in
         entrySubject (oget values (sec @ ''.name'')) (entryWords (sectionEdit e) values))
      else [])"

definition shownValue :: "draft_view \<Rightarrow> staged_edit \<Rightarrow> string \<Rightarrow> string" where
  "shownValue v e x =
     (let y = (if rowRole v e = ''radio'' \<and> e_option e = ''htmode'' then widthWords x else x);
          z = (if rowRole v e = ''wifiNet'' \<and> e_option e = ''encryption'' then securityOf y else y)
      in redact (secretOption (e_option e)) z)"

definition fieldRow :: "draft_view \<Rightarrow> staged_edit \<Rightarrow> config_change option" where
  "fieldRow v e =
     (let to' = inWords e (dv_after v) (oget (dv_after v) (e_key e));
          from' = inWords e (dv_before v) (oget (dv_before v) (e_key e));
          said = rowPhrase v e to'
      in if from' = to' then None
         else Some \<lparr>Label = ph_words said, LabelKey = ph_key said, From_value = shownValue v e from', To_value = shownValue v e to',
           Dangerous = dangerousConfig (e_config e), Detail = e_key e, Subject = rowSubject v e\<rparr>)"

text \<open>A rule moved in the list: its number before and after.\<close>

definition placesIn :: "uci_section list \<Rightarrow> (string \<times> nat) list" where
  "placesIn secs = fst (fold (\<lambda>s (m, n). if sec_kind s = ''rule'' then (AList.update (sec_id s) (n + 1) m, n + 1) else (m, n)) secs ([], 0))"

definition rulePlaces :: "'w runner \<Rightarrow> 'w link_fs \<Rightarrow> bool \<Rightarrow> 'w \<Rightarrow> (string \<times> nat) list \<times> 'w" where
  "rulePlaces run fs committed w =
     (case (if committed then withCommitted fs ''firewall'' (\<lambda>dir alias. run ''uci'' [''-q'', ''-c'', dir, ''-X'', ''show'', alias])
            else run ''uci'' [''-q'', ''-X'', ''show'', ''firewall'']) w of
        (Inl e, w') \<Rightarrow> ([], w') | (Inr out, w') \<Rightarrow> (placesIn (parseUCISections out), w'))"

definition moveRow :: "'w runner \<Rightarrow> 'w link_fs \<Rightarrow> draft_view \<Rightarrow> staged_edit \<Rightarrow> 'w \<Rightarrow> config_change option \<times> 'w" where
  "moveRow run fs v e w =
     (if e_config e \<noteq> ''firewall'' \<or> oget (dv_before v) (sectionKey e) \<noteq> ''rule'' then (None, w)
      else let (was, w1) = rulePlaces run fs True w; (now, w2) = rulePlaces run fs False w1;
               from' = the_default 0 (map_of was (e_section e)); to' = the_default 0 (map_of now (e_section e));
               said = describe ''firewall'' ''rule'' ''position''
        in if from' = 0 \<or> to' = 0 \<or> from' = to' then (None, w2)
           else (Some \<lparr>Label = ph_words said, LabelKey = ph_key said, From_value = Itoa (int from'), To_value = Itoa (int to'),
             Dangerous = dangerousConfig ''firewall'', Detail = sectionKey e,
             Subject = entrySubject (oget (dv_before v) (sectionKey e @ ''.name'')) (entryWords (sectionEdit e) (dv_before v))\<rparr>, w2))"

section \<open>The list\<close>

record row_state =
  rs_seen :: "string list"
  rs_schedules :: "string list"
  rs_guest :: "guest_draft option"
  rs_shown :: bool

definition scheduleText :: "(string \<times> string) list \<Rightarrow> string \<Rightarrow> string" where
  "scheduleText values mac = (case map_of (schedules (showOf values)) mac of None \<Rightarrow> [] | Some s \<Rightarrow> Words s)"

definition scheduleChange :: "draft_view \<Rightarrow> string \<Rightarrow> config_change list" where
  "scheduleChange v mac =
     (let was = scheduleText (dv_before v) mac; will = scheduleText (dv_after v) mac
      in if was \<noteq> will then [scheduleRow mac was will] else [])"

text \<open>The guest network is read once, when the draft first touches it; \<open>True\<close>: the line is part of its one row.\<close>

definition guestLine ::
  "'w runner \<Rightarrow> 'w link_fs \<Rightarrow> bool \<Rightarrow> row_state \<Rightarrow> staged_edit \<Rightarrow> ('w, bool \<times> config_change list \<times> row_state) step" where
  "guestLine run fs noWireless st e =
     (if \<not> isGuestSection (e_config e) (e_section e) then retR (False, [], st)
      else bindR (case rs_guest st of None \<Rightarrow> guestDraft run fs noWireless | Some g \<Rightarrow> retR g) (\<lambda>g.
        let st' = st\<lparr>rs_guest := Some g\<rparr> in
        if gd_ours g \<and> folds g e
        then retR (True, if rs_shown st then [] else [guestRow (gd_was g) (gd_will g)], st'\<lparr>rs_shown := True\<rparr>)
        else retR (False, [], st')))"

definition editRow ::
  "'w runner \<Rightarrow> 'w link_fs \<Rightarrow> draft_view \<Rightarrow> row_state \<Rightarrow> staged_edit \<Rightarrow> ('w, config_change list \<times> row_state) step" where
  "editRow run fs v st e =
     (if e_config e = ''firewall'' \<and> isScheduleSection (e_section e) then
        (case scheduleMAC (e_section e) of None \<Rightarrow> retR ([], st)
         | Some mac \<Rightarrow> if mac \<in> set (rs_schedules st) then retR ([], st)
             else retR (scheduleChange v mac, st\<lparr>rs_schedules := mac # rs_schedules st\<rparr>))
      else if e_reorder e then bindR (pureR (moveRow run fs v e)) (\<lambda>r. retR ((case r of None \<Rightarrow> [] | Some row \<Rightarrow> [row]), st))
      else if sectionKey e \<in> set (dv_whole v) \<and> e_option e \<noteq> [] then retR ([], st)
      else retR ((case fieldRow v e of None \<Rightarrow> [] | Some row \<Rightarrow> [row]), st))"

fun draftRows ::
  "'w runner \<Rightarrow> 'w link_fs \<Rightarrow> bool \<Rightarrow> draft_view \<Rightarrow> row_state \<Rightarrow> staged_edit list \<Rightarrow> ('w, config_change list) step" where
  "draftRows run fs noWireless v st [] = retR []"
| "draftRows run fs noWireless v st (e # es) =
     (if e_key e \<in> set (rs_seen st) then draftRows run fs noWireless v st es
      else bindR (guestLine run fs noWireless (st\<lparr>rs_seen := e_key e # rs_seen st\<rparr>) e) (\<lambda>(folded, rows, st1).
        bindR (if folded then retR (rows, st1) else editRow run fs v st1 e) (\<lambda>(rows', st2).
        bindR (draftRows run fs noWireless v st2 es) (\<lambda>rest. retR (rows' @ rest)))))"

definition noRows :: row_state where "noRows = \<lparr>rs_seen = [], rs_schedules = [], rs_guest = None, rs_shown = False\<rparr>"

definition uplinkName :: "ubus_interface list result \<Rightarrow> string" where
  "uplinkName dump = (case WANInfo dump of Inl e \<Rightarrow> [] | Inr s \<Rightarrow> if_Name (ws_Interface s))"

definition StagedChanges ::
  "'w runner option \<Rightarrow> 'w link_fs \<Rightarrow> bool \<Rightarrow> ubus_interface list result \<Rightarrow> ('w, config_change list) step" where
  "StagedChanges mrun fs noWireless dump =
     (case mrun of None \<Rightarrow> failR (Failed ''not implemented'')
      | Some run \<Rightarrow>
          bindR (wrapR (Failed ''read staged changes'') (run ''uci'' [''changes''])) (\<lambda>out.
          let edits = parseStagedEdits out in
          if edits = [] then retR []
          else bindR (pureR (draftColumns run fs edits)) (\<lambda>cols.
            draftRows run fs noWireless (draftView edits cols (uplinkName dump)) noRows edits)))"

end
