(* ===== verification/Draft_Shown.thy ===== *)
theory Draft_Shown
  imports Staged_Draft
begin

text \<open>
  What the apply bar shows of a draft read back from the router: every changed value has its row, and no row shows a secret. And where a change has
  none: a rule that was moved, and an entry that was removed and made again under its name.
\<close>

section \<open>Lines of the draft\<close>

definition parsedEdit :: "staged_edit \<Rightarrow> bool" where
  "parsedEdit e \<longleftrightarrow>
     (let parts = Split (e_key e) CHR ''.'' in
      2 \<le> length parts \<and> e_config e = parts ! 0 \<and> e_section e = parts ! 1 \<and> e_option e = (if length parts \<ge> 3 then last parts else []) \<and>
      (e_reorder e \<longrightarrow> e_option e = []))"

lemma parseStagedLine_parsed: "parseStagedLine l = Some e \<Longrightarrow> parsedEdit e"
  by (auto simp: parseStagedLine_def parsedEdit_def Let_def split: if_splits option.splits prod.splits)

lemma parseStagedEdits_parsed: "e \<in> set (parseStagedEdits out) \<Longrightarrow> parsedEdit e"
  using parseStagedLine_parsed by (auto simp: parseStagedEdits_def map_filter_def)

lemma Split_sectionKey: "parsedEdit e \<Longrightarrow> Split (sectionKey e) CHR ''.'' = [e_config e, e_section e]"
proof -
  assume "parsedEdit e"
  then have "e_config e \<in> set (Split (e_key e) CHR ''.'')" "e_section e \<in> set (Split (e_key e) CHR ''.'')"
    by (auto simp: parsedEdit_def Let_def intro: nth_mem)
  then have "CHR ''.'' \<notin> set (e_config e)" "CHR ''.'' \<notin> set (e_section e)" using set_Split by blast+
  then show ?thesis by (simp add: sectionKey_def Split_append Split_no_sep)
qed

lemma same_key: "parsedEdit a \<Longrightarrow> parsedEdit b \<Longrightarrow> e_key a = e_key b \<Longrightarrow>
    e_config a = e_config b \<and> e_section a = e_section b \<and> e_option a = e_option b \<and> sectionKey a = sectionKey b"
  by (simp add: parsedEdit_def sectionKey_def Let_def)

lemma section_line: "parsedEdit a \<Longrightarrow> parsedEdit e \<Longrightarrow> e_key a = sectionKey e \<Longrightarrow>
    e_config a = e_config e \<and> e_section a = e_section e \<and> e_option a = [] \<and> sectionKey a = sectionKey e"
  using Split_sectionKey [of e] by (auto simp: parsedEdit_def sectionKey_def Let_def)

lemma option_key: "parsedEdit e \<Longrightarrow> e_option e \<noteq> [] \<Longrightarrow> length (Split (e_key e) CHR ''.'') \<noteq> 2"
  by (auto simp: parsedEdit_def Let_def)

lemma fieldRow_same: "e_key a = e_key b \<Longrightarrow> e_config a = e_config b \<Longrightarrow> e_section a = e_section b \<Longrightarrow> e_option a = e_option b \<Longrightarrow>
    fieldRow v a = fieldRow v b"
proof -
  assume a: "e_key a = e_key b" "e_config a = e_config b" "e_section a = e_section b" "e_option a = e_option b"
  then have "sectionKey a = sectionKey b" "sectionEdit a = sectionEdit b" by (simp_all add: sectionKey_def sectionEdit_def)
  moreover have "entryWords a = entryWords b" by (rule ext) (simp only: entryWords_def a)
  ultimately show ?thesis using a
    by (simp add: fieldRow_def inWords_def rowPhrase_def rowRole_def rowSubject_def shownValue_def Let_def)
qed

section \<open>One step of the list\<close>

text \<open>The guest network's one row is in the list.\<close>

definition guestTold :: "config_change list \<Rightarrow> bool" where
  "guestTold rows \<longleftrightarrow> (\<exists>was will. was \<noteq> will \<and> guestRow was will \<in> set rows)"

lemma guestTold_append [simp]: "guestTold (a @ b) \<longleftrightarrow> guestTold a \<or> guestTold b"
  by (auto simp: guestTold_def)

lemma guestTold_row: "was \<noteq> will \<Longrightarrow> guestTold [guestRow was will]"
  by (auto simp: guestTold_def)

lemma guestLine_Inr:
  assumes "guestLine run fs noWireless st e w = (Inr (folded, rows, st1), w1)"
  shows "rs_seen st1 = rs_seen st"
    "folded \<Longrightarrow> isGuestSection (e_config e) (e_section e) \<and> rs_shown st1 \<and>
       (rs_shown st \<or> guestTold rows)"
    "\<not> folded \<Longrightarrow> rs_shown st1 = rs_shown st \<and> rows = []"
  using assms unfolding guestLine_def by (auto simp: bindR_Inr Let_def folds_def guestTold_row split: if_splits)

lemma editRow_Inr:
  assumes "editRow run fs v st e w = (Inr (rows, st1), w1)"
  shows "rs_seen st1 = rs_seen st" "rs_shown st1 = rs_shown st"
    "\<lbrakk>\<not> (e_config e = ''firewall'' \<and> isScheduleSection (e_section e)); \<not> e_reorder e; sectionKey e \<notin> set (dv_whole v) \<or> e_option e = [];
      fieldRow v e = Some r\<rbrakk> \<Longrightarrow> r \<in> set rows"
  using assms unfolding editRow_def by (auto simp: bindR_Inr split: if_splits option.splits)

lemma draftRows_tells:
  assumes "draftRows run fs noWireless v st es w = (Inr rows, w')" "\<forall>e' \<in> set es. parsedEdit e'"
    and "e \<in> set es" "e_key e \<notin> set (rs_seen st)" "fieldRow v e = Some r"
    and "\<not> (e_config e = ''firewall'' \<and> isScheduleSection (e_section e))" "sectionKey e \<notin> set (dv_whole v) \<or> e_option e = []"
    and "\<forall>e' \<in> set es. e_key e' = e_key e \<longrightarrow> \<not> e_reorder e'"
  shows "r \<in> set rows \<or> isGuestSection (e_config e) (e_section e) \<and> (rs_shown st \<or> guestTold rows)"
  using assms
proof (induction es arbitrary: st w rows)
  case Nil
  then show ?case by simp
next
  case (Cons a es)
  show ?case
  proof (cases "e_key a \<in> set (rs_seen st)")
    case True
    with Cons.prems have "e \<in> set es" "draftRows run fs noWireless v st es w = (Inr rows, w')" by auto
    with Cons show ?thesis by simp
  next
    case False
    let ?st = "st\<lparr>rs_seen := e_key a # rs_seen st\<rparr>"
    from Cons.prems(1) False obtain folded rs1 st1 w1 rs2 st2 w2 rest where
      g: "guestLine run fs noWireless ?st a w = (Inr (folded, rs1, st1), w1)"
      and d: "(if folded then retR (rs1, st1) else editRow run fs v st1 a) w1 = (Inr (rs2, st2), w2)"
      and more': "draftRows run fs noWireless v st2 es w2 = (Inr rest, w')" and rows: "rows = rs2 @ rest"
      by (auto simp: bindR_Inr)
    note gl = guestLine_Inr [OF g]
    have seen: "rs_seen st2 = e_key a # rs_seen st" using d gl(1) by (cases folded) (auto dest: editRow_Inr(1))
    show ?thesis
    proof (cases "e_key a = e_key e")
      case True
      have pa: "parsedEdit a" "parsedEdit e" using Cons.prems(2,3) by auto
      note same = same_key [OF this True]
      have ar: "fieldRow v a = Some r" using fieldRow_same [of a e v] same True Cons.prems(5) by simp
      show ?thesis
      proof (cases folded)
        case True
        with gl(2) d same rows show ?thesis by auto
      next
        case False
        with d have "editRow run fs v st1 a w1 = (Inr (rs2, st2), w2)" by simp
        from editRow_Inr(3) [OF this _ _ _ ar] same True Cons.prems(6-8) rows show ?thesis by auto
      qed
    next
      case False
      with Cons.prems seen have "e \<in> set es" "e_key e \<notin> set (rs_seen st2)" by auto
      with Cons.IH [OF more'] Cons.prems
      have ih: "r \<in> set rest \<or> isGuestSection (e_config e) (e_section e) \<and> (rs_shown st2 \<or> guestTold rest)"
        by auto
      have "rs_shown st2 \<Longrightarrow> rs_shown st \<or> guestTold rs2"
        using gl(2,3) d by (cases folded) (auto dest: editRow_Inr(2) split: if_splits)
      with ih rows show ?thesis by auto
    qed
  qed
qed

section \<open>No change unseen\<close>

lemma inWords_nonempty: "inWords e values x = [] \<longleftrightarrow> x = []"
  by (simp add: inWords_def)

lemma secret_empty: "\<not> secretOption []" by (simp add: secretOption_def)

text \<open>What the row of a key says: the values themselves, except a secret's, a channel width and a network's encryption, which are put in words.\<close>

definition plainOption :: "string \<Rightarrow> bool" where
  "plainOption o' \<longleftrightarrow> o' \<noteq> [] \<and> o' \<noteq> ''htmode'' \<and> o' \<noteq> ''encryption'' \<and> \<not> secretOption o'"

lemma fieldRow_parts:
  assumes "fieldRow v e = Some r"
  shows "Detail r = e_key e" "From_value r = shownValue v e (inWords e (dv_before v) (oget (dv_before v) (e_key e)))"
    "To_value r = shownValue v e (inWords e (dv_after v) (oget (dv_after v) (e_key e)))"
  using assms by (auto simp: fieldRow_def Let_def split: if_splits)

lemma shownValue_cases:
  "plainOption (e_option e) \<Longrightarrow> shownValue v e x = x" "e_option e = [] \<Longrightarrow> shownValue v e x = x"
  "secretOption (e_option e) \<Longrightarrow> shownValue v e x \<in> {[], bullets}"
  using secret_empty by (simp_all add: shownValue_def plainOption_def redact_def Let_def)

lemma fieldRow_values:
  assumes "fieldRow v e = Some r"
  shows "plainOption (e_option e) \<Longrightarrow> From_value r = oget (dv_before v) (e_key e) \<and> To_value r = oget (dv_after v) (e_key e)"
    "e_option e = [] \<Longrightarrow> (From_value r = [] \<longleftrightarrow> oget (dv_before v) (e_key e) = []) \<and> (To_value r = [] \<longleftrightarrow> oget (dv_after v) (e_key e) = [])"
    "secretOption (e_option e) \<Longrightarrow> From_value r \<in> {[], bullets} \<and> To_value r \<in> {[], bullets}"
proof -
  note p = fieldRow_parts(2,3) [OF assms]
  show "plainOption (e_option e) \<Longrightarrow> From_value r = oget (dv_before v) (e_key e) \<and> To_value r = oget (dv_after v) (e_key e)"
    unfolding p by (simp add: shownValue_cases(1) inWords_def plainOption_def)
  show "e_option e = [] \<Longrightarrow> (From_value r = [] \<longleftrightarrow> oget (dv_before v) (e_key e) = []) \<and> (To_value r = [] \<longleftrightarrow> oget (dv_after v) (e_key e) = [])"
    unfolding p by (simp add: shownValue_cases(2) inWords_nonempty)
  show "secretOption (e_option e) \<Longrightarrow> From_value r \<in> {[], bullets} \<and> To_value r \<in> {[], bullets}"
    unfolding p using shownValue_cases(3) by blast
qed

lemma fieldRow_there:
  assumes "oget (dv_before v) (e_key e) \<noteq> oget (dv_after v) (e_key e)"
    and "e_option e = [] \<Longrightarrow> (oget (dv_before v) (e_key e) = []) \<noteq> (oget (dv_after v) (e_key e) = [])"
  shows "\<exists>r. fieldRow v e = Some r"
proof -
  have "inWords e (dv_before v) (oget (dv_before v) (e_key e)) \<noteq> inWords e (dv_after v) (oget (dv_after v) (e_key e))"
  proof (cases "e_option e = []")
    case True
    with assms(2) inWords_nonempty show ?thesis by metis
  next
    case False
    with assms(1) show ?thesis by (simp add: inWords_def)
  qed
  then show ?thesis by (simp add: fieldRow_def Let_def)
qed

text \<open>
  C29. A change of the draft has its row, in sections not moved or made again. Where the list is read without an error and a key of the draft holds another value than on disk,
  there is a row for it: one of the key itself, which says both values unless they are a secret or put in words; or, where the key belongs to an entry
  that appears or goes away, one of the whole entry with one side empty; or, inside the guest network, the guest network's row. Two kinds of sections
  are left out, because there it fails: those the draft moves in the list (\<open>moved_rule_hides_edit\<close>), and those it removes and makes again under the same
  name, or makes where there was one, so that the line of a whole entry stands for no entry that appears or goes away (\<open>remade_rule_unseen\<close>). A device's
  schedule has its own row (\<open>schedule_change_seen\<close>).
\<close>

theorem no_change_unseen:
  assumes "StagedChanges (Some run) fs noWireless dump w = (Inr rows, w')" "run ''uci'' [''changes''] w = (Inr out, w1)"
    and "draftColumns run fs (parseStagedEdits out) w1 = ((was, will), w2)"
    and "e \<in> set (parseStagedEdits out)" "oget was (e_key e) \<noteq> oget will (e_key e)"
    and "\<not> (e_config e = ''firewall'' \<and> isScheduleSection (e_section e))"
    and "\<forall>l \<in> set (parseStagedEdits out). sectionKey l = sectionKey e \<and> e_option l = [] \<longrightarrow>
      \<not> e_reorder l \<and> (oget was (e_key l) = []) \<noteq> (oget will (e_key l) = [])"
  shows "(\<exists>r \<in> set rows. Detail r = e_key e \<and>
      (plainOption (e_option e) \<longrightarrow> From_value r = oget was (e_key e) \<and> To_value r = oget will (e_key e))) \<or>
    (\<exists>r \<in> set rows. Detail r = sectionKey e \<and> (From_value r = []) \<noteq> (To_value r = [])) \<or>
    isGuestSection (e_config e) (e_section e) \<and> guestTold rows"
proof -
  let ?es = "parseStagedEdits out" and ?v = "draftView (parseStagedEdits out) (was, will) (uplinkName dump)"
  have "?es \<noteq> []" using assms(4) by auto
  with assms(1-3) have rows: "draftRows run fs noWireless ?v noRows ?es w2 = (Inr rows, w')"
    by (auto simp: StagedChanges_def bindR_Inr wrapR_def pureR_def Let_def)
  have ok: "\<forall>e \<in> set ?es. parsedEdit e" using parseStagedEdits_parsed by blast
  have shown: "r \<in> set rows \<or> isGuestSection (e_config l) (e_section l) \<and> guestTold rows"
    if "l \<in> set ?es" "fieldRow ?v l = Some r" "e_config l = e_config e" "e_section l = e_section e" "sectionKey l \<notin> set (dv_whole ?v) \<or> e_option l = []" for l r
  proof -
    have "\<not> e_reorder l'" if "l' \<in> set ?es" "e_key l' = e_key l" for l'
    proof (cases "e_option l' = []")
      case True
      moreover have "sectionKey l' = sectionKey e" using same_key [of l' l] ok that \<open>l \<in> set ?es\<close> \<open>e_config l = _\<close> \<open>e_section l = _\<close> by (simp add: sectionKey_def)
      ultimately show ?thesis using assms(7) that(1) by blast
    next
      case False
      then show ?thesis using ok that(1) by (auto simp: parsedEdit_def Let_def)
    qed
    with draftRows_tells [OF rows ok that(1) _ that(2) _ that(5)] assms(6) that(3,4) show ?thesis by (simp add: noRows_def)
  qed
  show ?thesis
  proof (cases "sectionKey e \<notin> set (dv_whole ?v) \<or> e_option e = []")
    case True
    have "e_option e = [] \<Longrightarrow> (oget was (e_key e) = []) \<noteq> (oget will (e_key e) = [])" using assms(4,7) by blast
    with fieldRow_there [of ?v e] assms(5) obtain r where r: "fieldRow ?v e = Some r" by (auto simp: draftView_def)
    from shown [OF assms(4) r _ _ True] fieldRow_parts(1) [OF r] fieldRow_values(1) [OF r] show ?thesis by (auto simp: draftView_def)
  next
    case False
    then obtain l where l: "l \<in> set ?es" "e_option l = []" "e_key l = sectionKey e" by (auto simp: draftView_def wholeEntries_def)
    have sl: "e_config l = e_config e" "e_section l = e_section e" "sectionKey l = sectionKey e" using section_line [of l e] ok l assms(4) by auto
    have gone: "(oget was (e_key l) = []) \<noteq> (oget will (e_key l) = [])" using assms(7) l sl(3) by blast
    then have "oget was (e_key l) \<noteq> oget will (e_key l)" by auto
    with fieldRow_there [of ?v l] gone obtain r where r: "fieldRow ?v l = Some r" by (auto simp: draftView_def)
    from shown [OF l(1) r sl(1,2)] l(2) have "r \<in> set rows \<or> isGuestSection (e_config l) (e_section l) \<and> guestTold rows" by simp
    moreover have "Detail r = sectionKey e" using fieldRow_parts(1) [OF r] l(3) by simp
    moreover have "(From_value r = []) \<noteq> (To_value r = [])" using fieldRow_values(2) [OF r l(2)] gone by (simp add: draftView_def)
    ultimately show ?thesis using sl by auto
  qed
qed

section \<open>Schedules\<close>

lemma schedule_not_guest: "isScheduleSection s \<Longrightarrow> \<not> isGuestSection c s"
  by (auto simp: isScheduleSection_def isGuestSection_def schedulePrefix_def guestPrefix_def guestSection_def HasPrefix_iff)

lemma editRow_schedule:
  assumes "editRow run fs v st e w = (Inr (rows, st1), w1)" "mac \<notin> set (rs_schedules st)"
  shows "e_config e = ''firewall'' \<Longrightarrow> isScheduleSection (e_section e) \<Longrightarrow> scheduleMAC (e_section e) = Some mac \<Longrightarrow> rows = scheduleChange v mac"
    "\<not> (e_config e = ''firewall'' \<and> isScheduleSection (e_section e) \<and> scheduleMAC (e_section e) = Some mac) \<Longrightarrow> mac \<notin> set (rs_schedules st1)"
  using assms unfolding editRow_def by (auto simp: bindR_Inr split: if_splits option.splits)

lemma guestLine_schedule: "guestLine run fs noWireless st e w = (Inr (folded, rows, st1), w1) \<Longrightarrow> rs_schedules st1 = rs_schedules st"
  unfolding guestLine_def by (auto simp: bindR_Inr Let_def split: if_splits)

lemma schedule_change_seen:
  assumes "draftRows run fs noWireless v st es w = (Inr rows, w')" "\<forall>e' \<in> set es. parsedEdit e'" "e \<in> set es" "e_key e \<notin> set (rs_seen st)"
    and "e_config e = ''firewall''" "isScheduleSection (e_section e)" "scheduleMAC (e_section e) = Some mac" "mac \<notin> set (rs_schedules st)"
  shows "set (scheduleChange v mac) \<subseteq> set rows"
  using assms
proof (induction es arbitrary: st w rows)
  case Nil
  then show ?case by simp
next
  case (Cons a es)
  show ?case
  proof (cases "e_key a \<in> set (rs_seen st)")
    case True
    with Cons.prems have "e \<in> set es" "draftRows run fs noWireless v st es w = (Inr rows, w')" by auto
    with Cons show ?thesis by simp
  next
    case False
    let ?st = "st\<lparr>rs_seen := e_key a # rs_seen st\<rparr>"
    from Cons.prems(1) False obtain folded rs1 st1 w1 rs2 st2 w2 rest where
      g: "guestLine run fs noWireless ?st a w = (Inr (folded, rs1, st1), w1)"
      and d: "(if folded then retR (rs1, st1) else editRow run fs v st1 a) w1 = (Inr (rs2, st2), w2)"
      and next': "draftRows run fs noWireless v st2 es w2 = (Inr rest, w')" and rows: "rows = rs2 @ rest"
      by (auto simp: bindR_Inr)
    note gl = guestLine_Inr [OF g]
    have m1: "mac \<notin> set (rs_schedules st1)" using guestLine_schedule [OF g] Cons.prems(8) by simp
    show ?thesis
    proof (cases "e_config a = ''firewall'' \<and> isScheduleSection (e_section a) \<and> scheduleMAC (e_section a) = Some mac")
      case True
      with gl(2) schedule_not_guest d have "editRow run fs v st1 a w1 = (Inr (rs2, st2), w2)" by (auto split: if_splits)
      from editRow_schedule(1) [OF this m1] True rows show ?thesis by auto
    next
      case False
      have "e_key a \<noteq> e_key e" using same_key [of a e] Cons.prems(2,3,5-7) False by auto
      moreover have "rs_seen st2 = e_key a # rs_seen st" using d gl(1) by (cases folded) (auto dest: editRow_Inr(1))
      moreover have "mac \<notin> set (rs_schedules st2)" using d m1 False by (cases folded) (auto dest: editRow_schedule(2) [OF _ m1])
      ultimately show ?thesis using Cons.IH [OF next'] Cons.prems rows by auto
    qed
  qed
qed

section \<open>Secrets\<close>

lemma scheduleMAC_address: "scheduleMAC s = Some mac \<Longrightarrow> deviceAddress mac"
  using NormalizeMAC_address by (auto simp: scheduleMAC_def Let_def split: if_splits sum.splits)

lemma plainName_dotless: "plainName s \<Longrightarrow> CHR ''.'' \<notin> set s"
proof
  assume "plainName s" "CHR ''.'' \<in> set s"
  moreover have "\<not> word_char CHR ''.''" by code_simp
  ultimately show False by (auto simp: plainName_def list_all_iff)
qed

text \<open>A row is the field's own, or it names a section.\<close>

definition namesSection :: "config_change \<Rightarrow> bool" where
  "namesSection r \<longleftrightarrow> length (Split (Detail r) CHR ''.'') = 2"

lemma namesSection_rows:
  "namesSection (guestRow was will)" "deviceAddress mac \<Longrightarrow> namesSection (scheduleRow mac was will)"
  "parsedEdit e \<Longrightarrow> moveRow run fs v e w = (Some r, w') \<Longrightarrow> namesSection r"
proof -
  show "namesSection (guestRow was will)"
  proof -
    have "length (Split (''network.'' @ guestSection) CHR ''.'') = 2" by code_simp
    then show ?thesis by (simp add: namesSection_def guestRow_def Let_def)
  qed
  show "namesSection (scheduleRow mac was will)" if "deviceAddress mac"
  proof -
    have a: "CHR ''.'' \<notin> set (scheduleSection mac)" "CHR ''.'' \<notin> set ''firewall''" using address_names(2) [OF that] plainName_dotless by auto
    have "Split (''firewall'' @ CHR ''.'' # scheduleSection mac) CHR ''.'' = [''firewall'', scheduleSection mac]"
      unfolding Split_append [OF a(2)] Split_no_sep [OF a(1)] ..
    then show ?thesis by (simp add: namesSection_def scheduleRow_def fw_def Let_def)
  qed
  show "parsedEdit e \<Longrightarrow> moveRow run fs v e w = (Some r, w') \<Longrightarrow> namesSection r"
    using Split_sectionKey by (auto simp: namesSection_def moveRow_def Let_def split: if_splits prod.splits)
qed

lemma guestLine_rows: "guestLine run fs noWireless st e w = (Inr (folded, rows, st1), w1) \<Longrightarrow> r \<in> set rows \<Longrightarrow> namesSection r"
  unfolding guestLine_def using namesSection_rows(1) by (auto simp: bindR_Inr Let_def split: if_splits)

lemma editRow_rows:
  "editRow run fs v st e w = (Inr (rows, st1), w1) \<Longrightarrow> parsedEdit e \<Longrightarrow> r \<in> set rows \<Longrightarrow> namesSection r \<or> fieldRow v e = Some r"
  unfolding editRow_def using namesSection_rows(2,3) scheduleMAC_address
  by (fastforce simp: bindR_Inr pureR_def scheduleChange_def Let_def split: if_splits option.splits prod.splits)

lemma draftRows_rows:
  "draftRows run fs noWireless v st es w = (Inr rows, w') \<Longrightarrow> \<forall>e \<in> set es. parsedEdit e \<Longrightarrow> r \<in> set rows \<Longrightarrow>
   namesSection r \<or> (\<exists>e \<in> set es. fieldRow v e = Some r)"
proof (induction es arbitrary: st w rows)
  case (Cons a es)
  show ?case
  proof (cases "e_key a \<in> set (rs_seen st)")
    case True
    with Cons show ?thesis by auto
  next
    case False
    from Cons.prems(1) False obtain folded rs1 st1 w1 rs2 st2 w2 rest where
      g: "guestLine run fs noWireless (st\<lparr>rs_seen := e_key a # rs_seen st\<rparr>) a w = (Inr (folded, rs1, st1), w1)"
      and d: "(if folded then retR (rs1, st1) else editRow run fs v st1 a) w1 = (Inr (rs2, st2), w2)"
      and next': "draftRows run fs noWireless v st2 es w2 = (Inr rest, w')" and rows: "rows = rs2 @ rest"
      by (auto simp: bindR_Inr)
    have "r \<in> set rs2 \<Longrightarrow> namesSection r \<or> fieldRow v a = Some r"
      using d guestLine_rows [OF g] Cons.prems(2) by (cases folded) (auto dest: editRow_rows)
    with Cons.IH [OF next'] Cons.prems rows show ?thesis by auto
  qed
qed simp

text \<open>
  C31. No row of the list shows a password or a key: where a row is about an option that holds a secret, each of its two sides is empty or four
  bullets, whatever the router holds.
\<close>

theorem draft_shows_no_secret:
  assumes "StagedChanges (Some run) fs noWireless dump w = (Inr rows, w')" "run ''uci'' [''changes''] w = (Inr out, w1)"
    and "e \<in> set (parseStagedEdits out)" "secretOption (e_option e)" "r \<in> set rows" "Detail r = e_key e"
  shows "From_value r \<in> {[], bullets} \<and> To_value r \<in> {[], bullets}"
proof -
  have ok: "\<forall>e \<in> set (parseStagedEdits out). parsedEdit e" using parseStagedEdits_parsed by blast
  have "parseStagedEdits out \<noteq> []" using assms(3) by auto
  with assms(1,2) obtain v w2 where "draftRows run fs noWireless v noRows (parseStagedEdits out) w2 = (Inr rows, w')"
    by (auto simp: StagedChanges_def bindR_Inr wrapR_def Let_def)
  from draftRows_rows [OF this ok assms(5)]
  have "namesSection r \<or> (\<exists>l \<in> set (parseStagedEdits out). fieldRow v l = Some r)" .
  moreover have "\<not> namesSection r"
    using option_key [of e] ok assms(3,4,6) by (auto simp: namesSection_def secretOption_def)
  ultimately obtain l where l: "l \<in> set (parseStagedEdits out)" "fieldRow v l = Some r" by blast
  have "e_option l = e_option e" using same_key [of l e] ok l(1) assms(3,6) fieldRow_parts(1) [OF l(2)] by simp
  with fieldRow_values(3) [OF l(2)] assms(4) show ?thesis by simp
qed

section \<open>A router with a draft\<close>

text \<open>A router that answers the questions of the list: what the draft is, the files with and without it, and the names \<^verbatim>\<open>-X\<close> prints.\<close>

definition lines :: "string list \<Rightarrow> string" where "lines ls = concat (map (\<lambda>l. l @ [newline]) ls)"

definition demo_run :: "string \<Rightarrow> (string \<Rightarrow> string \<Rightarrow> string list option) \<Rightarrow> (string \<Rightarrow> string list option) \<Rightarrow> unit runner" where
  \<comment> \<open>\<open>was\<close> and \<open>will\<close> are the lines of a file, each behind its package name\<close>
  "demo_run changes was will name args w =
     (case (case args of [a] \<Rightarrow> if a = ''changes'' then Some changes else None
        | [a, b, c] \<Rightarrow> if b = ''show'' then map_option lines (will c) else None
        | [a, b, c, d] \<Rightarrow> if b = ''-X'' then map_option lines (will d) else None
        | [a, b, c, d, e] \<Rightarrow> if d = ''show'' then map_option lines (was (TrimPrefix e committedPrefix) e) else None
        | [a, b, c, d, e, f] \<Rightarrow> map_option lines (was (TrimPrefix f committedPrefix) f)
        | _ \<Rightarrow> None) of
        None \<Rightarrow> (Inl (Failed ''uci''), w) | Some out \<Rightarrow> (Inr out, w))"

definition demo_fs :: "unit link_fs" where
  "demo_fs = \<lparr>MkdirTemp = (\<lambda>p w. (Inr ''/t'', w)), Symlink = (\<lambda>a b w. (Inr (), w)), RemoveAll = (\<lambda>d w. w), ConfigDir = []\<rparr>"

definition only :: "string \<Rightarrow> 'a \<Rightarrow> string \<Rightarrow> 'a option" where "only c x c' = (if c' = c then Some x else None)"

text \<open>An uplink changed from DHCP to PPPoE.\<close>

definition pppoe_text :: string where
  "pppoe_text = lines [''network.wan.proto='' @ [quote] @ ''pppoe'' @ [quote], ''network.wan.password='' @ [quote] @ ''tops3cret'' @ [quote]]"

definition pppoe_run :: "unit runner" where
  "pppoe_run = demo_run pppoe_text (\<lambda>c p. only ''network'' [p @ ''.wan=interface'', p @ ''.wan.proto=dhcp''] c)
     (only ''network'' [''network.wan=interface'', ''network.wan.proto=pppoe'', ''network.wan.password=tops3cret''])"

definition no_bus :: "ubus_interface list result" where "no_bus = Inl (Failed ''no bus'')"

definition demo_changes :: "unit runner \<Rightarrow> config_change list result" where
  "demo_changes run = fst (StagedChanges (Some run) demo_fs True no_bus ())"

definition row_facts :: "config_change \<Rightarrow> string \<times> string \<times> string" where "row_facts r = (Detail r, From_value r, To_value r)"

definition pppoe_proto :: staged_edit where
  "pppoe_proto = \<lparr>e_key = ''network.wan.proto'', e_config = ''network'', e_section = ''wan'', e_option = ''proto'', e_reorder = False\<rparr>"

definition pppoe_password :: staged_edit where
  "pppoe_password = \<lparr>e_key = ''network.wan.password'', e_config = ''network'', e_section = ''wan'', e_option = ''password'', e_reorder = False\<rparr>"

lemma pppoe_rows: "map_sum id (map row_facts) (demo_changes pppoe_run) =
    Inr [(''network.wan.proto'', ''dhcp'', ''pppoe''), (''network.wan.password'', [], bullets)]"
  by code_simp

lemma pppoe_parts:
  "fst (pppoe_run ''uci'' [''changes''] ()) = Inr pppoe_text" "parseStagedEdits pppoe_text = [pppoe_proto, pppoe_password]"
  "fst (draftColumns pppoe_run demo_fs (parseStagedEdits pppoe_text) ()) =
     ([(''network.wan'', ''interface''), (''network.wan.proto'', ''dhcp'')],
      [(''network.wan'', ''interface''), (''network.wan.proto'', ''pppoe''), (''network.wan.password'', ''tops3cret'')])"
  by code_simp+

lemma unit_pair: "fst p = x \<Longrightarrow> p = (x, ())"
  by (cases p) simp

lemma pppoe_list: "\<exists>a b. StagedChanges (Some pppoe_run) demo_fs True no_bus () = (Inr [a, b], ()) \<and>
    row_facts a = (''network.wan.proto'', ''dhcp'', ''pppoe'') \<and> row_facts b = (''network.wan.password'', [], bullets)"
proof -
  obtain rows where r: "demo_changes pppoe_run = Inr rows" using pppoe_rows by (cases "demo_changes pppoe_run") simp_all
  with pppoe_rows obtain a b where "rows = [a, b]" "row_facts a = (''network.wan.proto'', ''dhcp'', ''pppoe'')"
    "row_facts b = (''network.wan.password'', [], bullets)" by (auto simp: map_eq_Cons_conv)
  with unit_pair [OF r [unfolded demo_changes_def]] show ?thesis by blast
qed

theorem no_change_unseen_witness:
  "\<exists>rows. StagedChanges (Some pppoe_run) demo_fs True no_bus () = (Inr rows, ()) \<and>
    (\<exists>r \<in> set rows. Detail r = ''network.wan.proto'' \<and> From_value r = ''dhcp'' \<and> To_value r = ''pppoe'')"
proof -
  from pppoe_list obtain a b where r: "StagedChanges (Some pppoe_run) demo_fs True no_bus () = (Inr [a, b], ())"
    and d: "row_facts a = (''network.wan.proto'', ''dhcp'', ''pppoe'')" "row_facts b = (''network.wan.password'', [], bullets)" by blast
  have "\<not> isScheduleSection ''wan''" "\<not> isGuestSection ''network'' ''wan''" "plainOption ''proto''" by code_simp+
  with no_change_unseen [OF r unit_pair [OF pppoe_parts(1)] unit_pair [OF pppoe_parts(3)], of pppoe_proto] pppoe_parts(2)
  have "(\<exists>r \<in> {a, b}. Detail r = ''network.wan.proto'' \<and> From_value r = ''dhcp'' \<and> To_value r = ''pppoe'') \<or> (\<exists>r \<in> {a, b}. Detail r = ''network.wan'')"
    by (simp add: pppoe_proto_def pppoe_password_def sectionKey_def oget_def the_default_def) blast
  moreover have "Detail a \<noteq> ''network.wan''" "Detail b \<noteq> ''network.wan''" using d by (auto simp: row_facts_def)
  ultimately show ?thesis using r by auto
qed

theorem draft_shows_no_secret_witness:
  "\<exists>r. Detail r = ''network.wan.password'' \<and> To_value r \<in> {[], bullets} \<and>
    (\<exists>rows. StagedChanges (Some pppoe_run) demo_fs True no_bus () = (Inr rows, ()) \<and> r \<in> set rows)"
proof -
  from pppoe_list obtain a b where r: "StagedChanges (Some pppoe_run) demo_fs True no_bus () = (Inr [a, b], ())"
    and d: "row_facts b = (''network.wan.password'', [], bullets)" by blast
  have e: "pppoe_password \<in> set (parseStagedEdits pppoe_text)" "secretOption (e_option pppoe_password)" "b \<in> set [a, b]" "Detail b = e_key pppoe_password"
    using d pppoe_parts(2) by (simp_all add: pppoe_password_def secretOption_def row_facts_def)
  from draft_shows_no_secret [OF r unit_pair [OF pppoe_parts(1)] e] r d show ?thesis by (auto simp: row_facts_def)
qed

section \<open>Where a change is not shown\<close>

text \<open>
  A rule that the draft moves: its line in \<^verbatim>\<open>uci changes\<close> has the shape of a new section, so its fields count as part of the entry's row, and that row is
  never made. Opening the rule to everybody after moving it shows as the move alone.
\<close>

definition demo_moved :: "unit runner" where
  "demo_moved = demo_run (lines [''firewall.a='' @ [quote] @ ''1'' @ [quote], ''firewall.a.target='' @ [quote] @ ''ACCEPT'' @ [quote]])
     (\<lambda>c p. only ''firewall'' [p @ ''.a=rule'', p @ ''.a.target=DROP'', p @ ''.b=rule''] c)
     (only ''firewall'' [''firewall.b=rule'', ''firewall.a=rule'', ''firewall.a.target=ACCEPT''])"

lemma moved_rule_hides_edit:
  "map_sum id (map row_facts) (demo_changes demo_moved) = Inr [(''firewall.a'', ''1'', ''2'')]"
  by code_simp

text \<open>A rule moved and then removed has no row at all: the second line of its key is passed over, and the first finds it in no place.\<close>

definition demo_removed :: "unit runner" where
  "demo_removed = demo_run (lines [''firewall.a='' @ [quote] @ ''1'' @ [quote], ''-firewall.a''])
     (\<lambda>c p. only ''firewall'' [p @ ''.a=rule'', p @ ''.a.target=DROP'', p @ ''.b=rule''] c)
     (only ''firewall'' [''firewall.b=rule''])"

lemma moved_rule_removed_unseen: "demo_changes demo_removed = Inr []"
  by code_simp

text \<open>
  A rule removed and made again under its name is there before and after, so it has no row as an entry; but its lines have the shape of one that
  appears, so its fields have none either: the rule now lets everything in, and the list is empty.
\<close>

definition demo_remade :: "unit runner" where
  "demo_remade = demo_run (lines [''-firewall.a'', ''firewall.a='' @ [quote] @ ''rule'' @ [quote], ''firewall.a.target='' @ [quote] @ ''ACCEPT'' @ [quote]])
     (\<lambda>c p. only ''firewall'' [p @ ''.a=rule'', p @ ''.a.target=DROP''] c)
     (only ''firewall'' [''firewall.a=rule'', ''firewall.a.target=ACCEPT''])"

lemma remade_rule_unseen: "demo_changes demo_remade = Inr []"
  by code_simp

end
