(* ===== verification/Vpn_Config.thy ===== *)
theory Vpn_Config
  imports Store Sections "HOL-Library.AList"
begin

text \<open>
  A connection's file and what the engine is told: \<^verbatim>\<open>internal/vpn/amneziawg/parse.go\<close>, \<^verbatim>\<open>uapiConfig\<close> and \<^verbatim>\<open>parseStats\<close> of
  \<^verbatim>\<open>internal/vpn/amneziawg/netstack.go\<close>, \<^verbatim>\<open>helpers.go\<close> and \<^verbatim>\<open>defaultName\<close> of \<^verbatim>\<open>internal/adapters/openwrt/wiring.go\<close>. The digest
  \<^verbatim>\<open>sha256.Sum256\<close> and the name lookup \<^verbatim>\<open>net.LookupIP\<close> are arguments.
\<close>

section \<open>Reading lines\<close>

text \<open>
  \<^verbatim>\<open>bufio.Scanner\<close>: the lines up to the first that does not fit its buffer of 64 KiB, and whether there is such a line. The carriage return it
  takes off the end of a line is white space, which the callers trim.
\<close>

definition maxScan :: int where "maxScan = 65536"

definition rawLines :: "string \<Rightarrow> string list" where
  "rawLines raw = (let ls = Split raw newline in if last ls = [] then butlast ls else ls)"

definition scanLines :: "string \<Rightarrow> string list \<times> bool" where
  "scanLines raw =
     (takeWhile (\<lambda>l. int (length l) < maxScan) (rawLines raw), list_ex (\<lambda>l. \<not> int (length l) < maxScan) (rawLines raw))"

definition isComment :: "string \<Rightarrow> bool" where
  "isComment line \<longleftrightarrow> line = [] \<or> HasPrefix line ''#'' \<or> HasPrefix line '';''"

definition TrimSet :: "string \<Rightarrow> string \<Rightarrow> string" where
  \<comment> \<open>\<^verbatim>\<open>strings.Trim\<close>\<close>
  "TrimSet s cs = TrimRight (\<lambda>c. c \<in> set cs) (TrimLeft (\<lambda>c. c \<in> set cs) s)"

definition nameLine :: "string \<Rightarrow> string option" where
  "nameLine l =
     (let line = TrimSpace l in
      if \<not> HasPrefix line ''#'' then None
      else case Cut (TrimSpace (TrimPrefix line ''#'')) CHR ''='' of None \<Rightarrow> None
        | Some (k, v) \<Rightarrow> if EqualFold (TrimSpace k) ''name'' \<and> TrimSpace v \<noteq> [] then Some (TrimSpace v) else None)"

definition defaultName :: "string \<Rightarrow> string" where
  "defaultName raw = (case List.map_filter nameLine (fst (scanLines raw)) of [] \<Rightarrow> ''amneziawg-node'' | n # ns \<Rightarrow> n)"

section \<open>The file\<close>

definition obfuscationKeys :: "string list" where
  "obfuscationKeys = [''jc'', ''jmin'', ''jmax'', ''s1'', ''s2'', ''s3'', ''s4'', ''h1'', ''h2'', ''h3'', ''h4'']"

definition splitCSV :: "string \<Rightarrow> string list" where
  "splitCSV s = filter (\<lambda>p. p \<noteq> []) (map TrimSpace (Split s CHR '',''))"

definition firstCSV :: "string \<Rightarrow> string" where
  "firstCSV s = (case splitCSV s of [] \<Rightarrow> [] | p # ps \<Rightarrow> p)"

definition atoiDefault :: "string \<Rightarrow> int \<Rightarrow> int" where
  "atoiDefault s def = the_default def (Atoi (TrimSpace s))"

record conf_state =
  cs_sec :: node_secret
  cs_section :: string
  cs_endpoint :: string
  cs_keepalive :: int
  cs_peer :: bool

definition noSecret :: node_secret where
  "noSecret = \<lparr>ns_PrivateKey = [], ns_PeerPublicKey = [], ns_PresharedKey = [], ns_Address = [], ns_DNS = [], ns_AllowedIPs = [],
     ns_PersistentKeepalive = 0, ns_Obfuscation = []\<rparr>"

definition interfaceKey :: "string \<Rightarrow> string \<Rightarrow> node_secret \<Rightarrow> node_secret" where
  "interfaceKey key val sec =
     (if key = ''privatekey'' then sec\<lparr>ns_PrivateKey := val\<rparr>
      else if key = ''address'' then sec\<lparr>ns_Address := firstCSV val\<rparr>
      else if key = ''dns'' then sec\<lparr>ns_DNS := splitCSV val\<rparr>
      else if key \<in> set obfuscationKeys then sec\<lparr>ns_Obfuscation := AList.update key val (ns_Obfuscation sec)\<rparr>
      else sec)"

definition peerKey :: "string \<Rightarrow> string \<Rightarrow> conf_state \<Rightarrow> conf_state" where
  "peerKey key val st =
     (if key = ''publickey'' then st\<lparr>cs_sec := (cs_sec st)\<lparr>ns_PeerPublicKey := val\<rparr>\<rparr>
      else if key = ''presharedkey'' then st\<lparr>cs_sec := (cs_sec st)\<lparr>ns_PresharedKey := val\<rparr>\<rparr>
      else if key = ''endpoint'' then st\<lparr>cs_endpoint := val\<rparr>
      else if key = ''allowedips'' then st\<lparr>cs_sec := (cs_sec st)\<lparr>ns_AllowedIPs := splitCSV val\<rparr>\<rparr>
      else if key = ''persistentkeepalive'' then st\<lparr>cs_keepalive := atoiDefault val 0\<rparr>
      else st)"

definition confLine :: "string \<Rightarrow> conf_state \<Rightarrow> conf_state result" where
  "confLine l st =
     (let line = TrimSpace l in
      if isComment line then Inr st
      else if HasPrefix line ''['' \<and> HasSuffix line '']'' then
        (let s = ToLower (TrimSet line ''[]'') in Inr (st\<lparr>cs_section := s, cs_peer := cs_peer st \<or> s = ''peer''\<rparr>))
      else case Cut line CHR ''='' of None \<Rightarrow> Inl (Failed ''malformed line'')
        | Some (k, v) \<Rightarrow>
            let key = ToLower (TrimSpace k); val = TrimSpace v in
            Inr (if cs_section st = ''interface'' then st\<lparr>cs_sec := interfaceKey key val (cs_sec st)\<rparr>
                 else if cs_section st = ''peer'' then peerKey key val st
                 else st))"

fun confLines :: "string list \<Rightarrow> conf_state \<Rightarrow> conf_state result" where
  "confLines [] st = Inr st"
| "confLines (l # ls) st = (case confLine l st of Inl e \<Rightarrow> Inl e | Inr st' \<Rightarrow> confLines ls st')"

text \<open>\<^verbatim>\<open>net.SplitHostPort\<close>: the port is behind the last colon; an address with colons stands in brackets.\<close>

definition indexByte :: "string \<Rightarrow> char \<Rightarrow> nat option" where
  "indexByte s c = map_option (\<lambda>(a, b). length a) (Cut s c)"

definition SplitHostPort :: "string \<Rightarrow> (string \<times> string) option" where
  "SplitHostPort hp =
     (case lastCut hp CHR '':'' of None \<Rightarrow> None
      | Some (before', port) \<Rightarrow>
          let i = length before' in
          if hp = [] then None
          else if hd hp = CHR ''['' then
            (case indexByte hp CHR '']'' of None \<Rightarrow> None
             | Some e \<Rightarrow> if e + 1 \<noteq> i then None
                 else if CHR ''['' \<in> set (drop 1 hp) \<or> CHR '']'' \<in> set (drop (e + 1) hp) then None
                 else Some (drop 1 (take e hp), port))
          else if CHR '':'' \<in> set before' then None
          else if CHR ''['' \<in> set hp \<or> CHR '']'' \<in> set hp then None
          else Some (before', port))"

definition nodeID :: "(string \<Rightarrow> nat list) \<Rightarrow> string \<Rightarrow> string" where
  "nodeID sum256 key = concat (map hex2 (take 8 (sum256 key)))"

definition Parse :: "(string \<Rightarrow> nat list) \<Rightarrow> string \<Rightarrow> string \<Rightarrow> (core_node \<times> node_secret) result" where
  "Parse sum256 name raw =
     (case confLines (fst (scanLines raw)) \<lparr>cs_sec = noSecret, cs_section = [], cs_endpoint = [], cs_keepalive = 0, cs_peer = False\<rparr> of
        Inl e \<Rightarrow> Inl e
      | Inr st \<Rightarrow>
          let sec = (cs_sec st)\<lparr>ns_PersistentKeepalive := cs_keepalive st\<rparr> in
          if snd (scanLines raw) then Inl (Failed ''read config'')
          else if ns_PrivateKey sec = [] then Inl (Failed ''missing PrivateKey'')
          else if \<not> cs_peer st \<or> ns_PeerPublicKey sec = [] then Inl (Failed ''missing PublicKey'')
          else if cs_endpoint st = [] then Inl (Failed ''missing Endpoint'')
          else if SplitHostPort (cs_endpoint st) = None then Inl (Failed ''bad endpoint'')
          else Inr (\<lparr>nd_ID = nodeID sum256 (ns_PeerPublicKey sec), nd_Name = name, nd_Engine = ''amneziawg'', nd_Endpoint = cs_endpoint st\<rparr>, sec))"

section \<open>What the engine is told\<close>

record node_config =
  nc_PrivateKey :: string
  nc_PeerPublicKey :: string
  nc_PresharedKey :: string
  nc_Endpoint :: string
  nc_Address :: string
  nc_DNS :: "string list"
  nc_AllowedIPs :: "string list"
  nc_PersistentKeepalive :: int
  nc_Obfuscation :: "(string \<times> string) list"

definition ToNodeConfig :: "string \<Rightarrow> node_secret \<Rightarrow> node_config" where
  "ToNodeConfig endpoint sec =
     \<lparr>nc_PrivateKey = ns_PrivateKey sec, nc_PeerPublicKey = ns_PeerPublicKey sec, nc_PresharedKey = ns_PresharedKey sec, nc_Endpoint = endpoint,
      nc_Address = ns_Address sec, nc_DNS = ns_DNS sec, nc_AllowedIPs = ns_AllowedIPs sec, nc_PersistentKeepalive = ns_PersistentKeepalive sec,
      nc_Obfuscation = ns_Obfuscation sec\<rparr>"

lemma ToNodeConfig_simps [simp]:
  "nc_PrivateKey (ToNodeConfig e sec) = ns_PrivateKey sec" "nc_PeerPublicKey (ToNodeConfig e sec) = ns_PeerPublicKey sec"
  "nc_PresharedKey (ToNodeConfig e sec) = ns_PresharedKey sec" "nc_Endpoint (ToNodeConfig e sec) = e" "nc_Address (ToNodeConfig e sec) = ns_Address sec"
  "nc_AllowedIPs (ToNodeConfig e sec) = ns_AllowedIPs sec" "nc_PersistentKeepalive (ToNodeConfig e sec) = ns_PersistentKeepalive sec"
  "nc_Obfuscation (ToNodeConfig e sec) = ns_Obfuscation sec"
  by (simp_all add: ToNodeConfig_def)

text \<open>\<^verbatim>\<open>base64.StdEncoding\<close>: groups of four, padded, line breaks anywhere passed over, loose bits of the last group ignored.\<close>

definition b64alphabet :: string where
  "b64alphabet = ''ABCDEFGHIJKLMNOPQRSTUVWXYZabcdefghijklmnopqrstuvwxyz0123456789+/''"

definition b64val :: "char \<Rightarrow> nat option" where "b64val c = indexByte b64alphabet c"

fun b64groups :: "string \<Rightarrow> nat list option" where
  "b64groups [] = Some []"
| "b64groups (a # b # c # d # r) =
     (case (b64val a, b64val b) of
        (Some x, Some y) \<Rightarrow>
          if c = CHR ''='' \<and> d = CHR ''='' \<and> r = [] then Some [x * 4 + y div 16]
          else (case b64val c of None \<Rightarrow> None
            | Some z \<Rightarrow>
                if d = CHR ''='' \<and> r = [] then Some [x * 4 + y div 16, y mod 16 * 16 + z div 4]
                else (case (b64val d, b64groups r) of
                    (Some u, Some bs) \<Rightarrow> Some ([x * 4 + y div 16, y mod 16 * 16 + z div 4, z mod 4 * 64 + u] @ bs)
                  | _ \<Rightarrow> None))
      | _ \<Rightarrow> None)"
| "b64groups s = None"

definition DecodeString :: "string \<Rightarrow> nat list option" where
  "DecodeString s = b64groups (filter (\<lambda>c. c \<noteq> newline \<and> c \<noteq> CHR 0x0D) s)"

definition b64ToHex :: "string \<Rightarrow> string result" where
  "b64ToHex s =
     (case DecodeString (TrimSpace s) of None \<Rightarrow> Inl (Failed ''not valid base64'')
      | Some raw \<Rightarrow> if length raw \<noteq> 32 then Inl (Failed ''expected 32-byte key'') else Inr (concat (map hex2 raw)))"

definition JoinHostPort :: "string \<Rightarrow> string \<Rightarrow> string" where
  "JoinHostPort host port = (if CHR '':'' \<in> set host then ''['' @ host @ '']:'' @ port else host @ '':'' @ port)"

definition IP_String :: "addr \<Rightarrow> string" where
  \<comment> \<open>\<^verbatim>\<open>net.IP.String\<close>: no zone, and an IPv4 address inside an IPv6 one is printed as such\<close>
  "IP_String a = (case To4 a of Some x \<Rightarrow> ip4_string x | None \<Rightarrow> (case a of V4 x \<Rightarrow> ip4_string x | V6 x z \<Rightarrow> ip6_string x))"

definition resolveEndpoint :: "(string \<Rightarrow> addr list) \<Rightarrow> string \<Rightarrow> string result" where
  \<comment> \<open>\<open>lookup\<close> is \<^verbatim>\<open>net.LookupIP\<close>; no address stands for its error too\<close>
  "resolveEndpoint lookup endpoint =
     (case SplitHostPort endpoint of None \<Rightarrow> Inl (Failed ''bad endpoint'')
      | Some (host, port) \<Rightarrow>
          if ParseIP host \<noteq> None then Inr endpoint
          else case lookup host of [] \<Rightarrow> Inl (Failed ''resolve endpoint host'') | ip # ips \<Rightarrow> Inr (JoinHostPort (IP_String ip) port))"

text \<open>The settings in the order of their lines.\<close>

definition allowedOf :: "node_config \<Rightarrow> string list" where
  "allowedOf cfg = (if nc_AllowedIPs cfg = [] then [''0.0.0.0/0'', ''::/0''] else nc_AllowedIPs cfg)"

definition uapiLines :: "node_config \<Rightarrow> string \<Rightarrow> string \<Rightarrow> string \<Rightarrow> string \<Rightarrow> (string \<times> string) list" where
  "uapiLines cfg priv pub psk ep =
     [(''private_key'', priv)] @
     List.map_filter (\<lambda>k. case map_of (nc_Obfuscation cfg) k of None \<Rightarrow> None | Some v \<Rightarrow> if v = [] then None else Some (k, v)) obfuscationKeys @
     [(''public_key'', pub)] @ (if nc_PresharedKey cfg = [] then [] else [(''preshared_key'', psk)]) @ [(''endpoint'', ep)] @
     (if nc_PersistentKeepalive cfg > 0 then [(''persistent_keepalive_interval'', Itoa (nc_PersistentKeepalive cfg))] else []) @
     map (Pair ''allowed_ip'') (allowedOf cfg)"

definition uapiPairs :: "(string \<Rightarrow> addr list) \<Rightarrow> node_config \<Rightarrow> (string \<times> string) list result" where
  "uapiPairs lookup cfg =
     (case b64ToHex (nc_PrivateKey cfg) of Inl e \<Rightarrow> Inl (Failed ''private_key'')
      | Inr priv \<Rightarrow> (case b64ToHex (nc_PeerPublicKey cfg) of Inl e \<Rightarrow> Inl (Failed ''public_key'')
      | Inr pub \<Rightarrow> (case (if nc_PresharedKey cfg = [] then Inr [] else b64ToHex (nc_PresharedKey cfg)) of Inl e \<Rightarrow> Inl (Failed ''preshared_key'')
      | Inr psk \<Rightarrow> map_sum id (uapiLines cfg priv pub psk) (resolveEndpoint lookup (nc_Endpoint cfg)))))"

definition uapiText :: "(string \<times> string) list \<Rightarrow> string" where
  "uapiText kvs = concat (map (\<lambda>(k, v). k @ ''='' @ v @ [newline]) kvs)"

definition uapiConfig :: "(string \<Rightarrow> addr list) \<Rightarrow> node_config \<Rightarrow> string result" where
  "uapiConfig lookup cfg = map_sum id uapiText (uapiPairs lookup cfg)"

section \<open>What the engine tells\<close>

record vpn_stats =
  vs_HandshakeAgeSec :: int
  vs_RxBytes :: int
  vs_TxBytes :: int

definition ParseIntValue :: "string \<Rightarrow> int" where
  \<comment> \<open>\<^verbatim>\<open>n, _ := strconv.ParseInt(s, 10, 64)\<close>: out of range gives the nearest value, anything else that is no number 0\<close>
  "ParseIntValue s =
     (case Atoi s of Some n \<Rightarrow> n
      | None \<Rightarrow> if all_digits (if take 1 s = ''-'' \<or> take 1 s = ''+'' then drop 1 s else s)
          then (if take 1 s = ''-'' then - (2 ^ 63) else 2 ^ 63 - 1) else 0)"

definition statsLine :: "string \<Rightarrow> int \<times> vpn_stats \<Rightarrow> int \<times> vpn_stats" where
  "statsLine line acc =
     (case Cut line CHR ''='' of None \<Rightarrow> acc
      | Some (k, v) \<Rightarrow>
          if k = ''last_handshake_time_sec'' then (ParseIntValue v, snd acc)
          else if k = ''rx_bytes'' then (fst acc, (snd acc)\<lparr>vs_RxBytes := ParseIntValue v\<rparr>)
          else if k = ''tx_bytes'' then (fst acc, (snd acc)\<lparr>vs_TxBytes := ParseIntValue v\<rparr>)
          else acc)"

definition parseStats :: "int \<Rightarrow> string \<Rightarrow> vpn_stats" where
  "parseStats now raw =
     (let (t, st) = fold statsLine (Split raw newline) (0, \<lparr>vs_HandshakeAgeSec = -1, vs_RxBytes = 0, vs_TxBytes = 0\<rparr>)
      in if t > 0 then st\<lparr>vs_HandshakeAgeSec := max 0 (now - t)\<rparr> else st)"

section \<open>Nothing in the file reaches another line\<close>

abbreviation oneLine :: "string \<Rightarrow> bool" where "oneLine s \<equiv> newline \<notin> set s"

lemma TrimSpace_within: "set (TrimSpace s) \<subseteq> set s"
  unfolding TrimSpace_def TrimRight_def TrimLeft_def by (auto dest!: set_dropWhileD)

lemma oneLine_TrimSpace: "oneLine s \<Longrightarrow> oneLine (TrimSpace s)"
  using TrimSpace_within by blast

lemma oneLine_Split: "oneLine s \<Longrightarrow> p \<in> set (Split s c) \<Longrightarrow> oneLine p"
  using Split_chars by blast

lemma splitCSV_lines: "oneLine s \<Longrightarrow> \<forall>p \<in> set (splitCSV s). oneLine p"
  unfolding splitCSV_def using oneLine_Split oneLine_TrimSpace by auto

lemma firstCSV_line: "oneLine s \<Longrightarrow> oneLine (firstCSV s)"
  using splitCSV_lines [of s] by (cases "splitCSV s") (auto simp: firstCSV_def)

definition lineSecret :: "node_secret \<Rightarrow> bool" where
  "lineSecret sec \<longleftrightarrow> oneLine (ns_PrivateKey sec) \<and> oneLine (ns_PeerPublicKey sec) \<and> oneLine (ns_PresharedKey sec) \<and> oneLine (ns_Address sec) \<and>
     (\<forall>d \<in> set (ns_DNS sec). oneLine d) \<and> (\<forall>a \<in> set (ns_AllowedIPs sec). oneLine a) \<and> (\<forall>v \<in> snd ` set (ns_Obfuscation sec). oneLine v)"

definition lineConf :: "conf_state \<Rightarrow> bool" where
  "lineConf st \<longleftrightarrow> lineSecret (cs_sec st) \<and> oneLine (cs_endpoint st)"

lemma update_values: "snd ` set (AList.update k v m) \<subseteq> insert v (snd ` set m)"
  by (induction m) auto

lemma interfaceKey_lines: "lineSecret sec \<Longrightarrow> oneLine v \<Longrightarrow> lineSecret (interfaceKey k v sec)"
proof -
  assume a: "lineSecret sec" "oneLine v"
  then have "\<forall>v' \<in> snd ` set (AList.update k v (ns_Obfuscation sec)). oneLine v'"
    using update_values [of k v "ns_Obfuscation sec"] unfolding lineSecret_def by blast
  then show ?thesis using a splitCSV_lines [of v] firstCSV_line [of v] by (auto simp: lineSecret_def interfaceKey_def)
qed

lemma peerKey_lines: "lineConf st \<Longrightarrow> oneLine v \<Longrightarrow> lineConf (peerKey k v st)"
  using splitCSV_lines [of v] by (auto simp: lineConf_def lineSecret_def peerKey_def)

lemma confLine_lines: "oneLine l \<Longrightarrow> lineConf st \<Longrightarrow> confLine l st = Inr st' \<Longrightarrow> lineConf st'"
proof -
  assume l: "oneLine l" "lineConf st" and r: "confLine l st = Inr st'"
  have "oneLine (TrimSpace v)" if "Cut (TrimSpace l) CHR ''='' = Some (k, v)" for k v
    using that oneLine_TrimSpace [OF l(1)] oneLine_TrimSpace [of v] by (auto simp: Cut_Some)
  with l r interfaceKey_lines peerKey_lines show ?thesis
    by (auto simp: confLine_def lineConf_def Let_def split: if_splits option.splits)
qed

lemma confLines_lines: "confLines ls st = Inr st' \<Longrightarrow> \<forall>l \<in> set ls. oneLine l \<Longrightarrow> lineConf st \<Longrightarrow> lineConf st'"
  using confLine_lines by (induction ls arbitrary: st) (auto split: sum.splits)

lemma scanLines_lines: "\<forall>l \<in> set (fst (scanLines raw)). oneLine l"
proof -
  have "\<forall>l \<in> set (rawLines raw). oneLine l"
    using set_Split in_set_butlastD by (fastforce simp: rawLines_def Let_def split: if_splits)
  then show ?thesis by (auto simp: scanLines_def dest: set_takeWhileD)
qed

lemma Parse_lines:
  assumes "Parse sum256 name raw = Inr (node, sec)"
  shows "lineSecret sec" "oneLine (nd_Endpoint node)" "SplitHostPort (nd_Endpoint node) \<noteq> None"
proof -
  from assms obtain st where st: "confLines (fst (scanLines raw))
      \<lparr>cs_sec = noSecret, cs_section = [], cs_endpoint = [], cs_keepalive = 0, cs_peer = False\<rparr> = Inr st"
    and r: "sec = (cs_sec st)\<lparr>ns_PersistentKeepalive := cs_keepalive st\<rparr>" "nd_Endpoint node = cs_endpoint st"
    and hp: "SplitHostPort (cs_endpoint st) \<noteq> None"
    by (auto simp: Parse_def Let_def split: sum.splits if_splits)
  have "lineConf st" using confLines_lines [OF st scanLines_lines] by (simp add: lineConf_def lineSecret_def noSecret_def)
  with r hp show "lineSecret sec" "oneLine (nd_Endpoint node)" "SplitHostPort (nd_Endpoint node) \<noteq> None"
    by (auto simp: lineConf_def lineSecret_def)
qed

section \<open>The settings are read back\<close>

lemma b64val_less: "b64val c = Some n \<Longrightarrow> n < 64"
proof -
  assume "b64val c = Some n"
  then obtain a b where "b64alphabet = a @ c # b" "n = length a" by (auto simp: b64val_def indexByte_def Cut_Some)
  moreover have "length b64alphabet = 64" by code_simp
  ultimately show ?thesis by (metis add_Suc_right length_Cons length_append less_add_Suc1)
qed

lemma b64_bytes:
  "x < 64 \<Longrightarrow> y < 64 \<Longrightarrow> x * 4 + y div 16 < (256 :: nat)" "y < 64 \<Longrightarrow> z < 64 \<Longrightarrow> y mod 16 * 16 + z div 4 < (256 :: nat)"
  "z < 64 \<Longrightarrow> u < 64 \<Longrightarrow> z mod 4 * 64 + u < (256 :: nat)"
proof -
  have d: "y < 64 \<Longrightarrow> y div 16 < 4" "z < 64 \<Longrightarrow> z div 4 < 16" for y z :: nat by (simp_all add: less_mult_imp_div_less)
  have m: "y mod 16 < 16" "z mod 4 < 4" for y z :: nat by simp_all
  show "x < 64 \<Longrightarrow> y < 64 \<Longrightarrow> x * 4 + y div 16 < 256" using d(1) [of y] by linarith
  show "y < 64 \<Longrightarrow> z < 64 \<Longrightarrow> y mod 16 * 16 + z div 4 < 256" using m(1) [of y] d(2) [of z] by linarith
  show "z < 64 \<Longrightarrow> u < 64 \<Longrightarrow> z mod 4 * 64 + u < 256" using m(2) [of z] by linarith
qed

lemma b64val_pad: "b64val CHR ''='' = None"
  by code_simp

lemma b64groups_bytes: "b64groups s = Some bs \<Longrightarrow> \<forall>b \<in> set bs. b < 256"
proof (induction s arbitrary: bs rule: b64groups.induct)
  case (2 a b c d r)
  note g = 2(2)
  from g obtain x y where xy: "b64val a = Some x" "b64val b = Some y" by (cases "b64val a"; cases "b64val b") simp_all
  note l = b64val_less [OF xy(1)] b64val_less [OF xy(2)]
  show ?case
  proof (cases "c = CHR ''='' \<and> d = CHR ''='' \<and> r = []")
    case True
    with g xy have "bs = [x * 4 + y div 16]" by simp
    with b64_bytes(1) [OF l] show ?thesis by simp
  next
    case one: False
    then obtain z where z: "b64val c = Some z" using g xy by (cases "b64val c") auto
    note m = b64val_less [OF z]
    show ?thesis
    proof (cases "d = CHR ''='' \<and> r = []")
      case True
      with g xy z one have "bs = [x * 4 + y div 16, y mod 16 * 16 + z div 4]" by simp
      with b64_bytes(1) [OF l] b64_bytes(2) [OF l(2) m] show ?thesis by simp
    next
      case two: False
      then obtain u ds where u: "b64val d = Some u" "b64groups r = Some ds"
        using g xy z one by (cases "b64val d"; cases "b64groups r") auto
      with g xy z one two have "bs = [x * 4 + y div 16, y mod 16 * 16 + z div 4, z mod 4 * 64 + u] @ ds" by auto
      moreover have "\<forall>b \<in> set ds. b < 256" using 2(1) xy z one two u by blast
      ultimately show ?thesis using b64_bytes(1) [OF l] b64_bytes(2) [OF l(2) m] b64_bytes(3) [OF m b64val_less [OF u(1)]] by simp
    qed
  qed
qed simp_all

lemma hexDigit_line: "d < 16 \<Longrightarrow> hexDigit d \<noteq> newline \<and> hexDigit d \<noteq> CHR ''=''"
proof -
  have "list_all (\<lambda>d. hexDigit d \<noteq> newline \<and> hexDigit d \<noteq> CHR ''='') [0..<16]" by code_simp
  then show "d < 16 \<Longrightarrow> ?thesis" unfolding list_all_iff by simp
qed

lemma hex_line: "\<forall>b \<in> set bs. b < 256 \<Longrightarrow> oneLine (concat (map hex2 bs))"
proof -
  have "oneLine (hex2 b)" if "b < 256" for b
  proof -
    have "b div 16 < 16" "b mod 16 < 16" using that by auto
    then show ?thesis using hexDigit_line [of "b div 16"] hexDigit_line [of "b mod 16"] by (simp add: hex2_def eq_commute)
  qed
  then show "\<forall>b \<in> set bs. b < 256 \<Longrightarrow> ?thesis" by simp
qed

lemma b64ToHex_line: "b64ToHex s = Inr h \<Longrightarrow> oneLine h"
  unfolding b64ToHex_def DecodeString_def by (auto split: option.splits if_splits dest!: b64groups_bytes hex_line)

lemma digits_line: "oneLine (nat_digits n)"
proof -
  have "\<not> is_digit newline" by (simp add: is_digit_def)
  with all_digits_nat_digits [of n] show ?thesis by (auto simp: all_digits_def list_all_iff)
qed

lemma ip4_line: "oneLine (ip4_string a)"
  using digits_line by (simp add: ip4_string_def octets4_def)

lemma hex_string_line: "oneLine (hex_string n)"
proof (induction n rule: hex_string.induct)
  case (1 n)
  have m: "n mod 16 < 16" by simp
  show ?case using 1 hexDigit_line [OF m] hexDigit_line [of n] by (subst hex_string.simps) auto
qed

lemma Join_line: "\<forall>v \<in> set vs. oneLine v \<Longrightarrow> oneLine sep \<Longrightarrow> oneLine (Join vs sep)"
  using Join_chars [of vs sep] by blast

lemma ip6_line: "oneLine (ip6_string a)"
  using ip4_line by (auto simp: ip6_string_def Let_def hex_string_line intro!: Join_line split: option.split)
    (use Join_line hex_string_line in \<open>force+\<close>)

lemma IP_String_line: "oneLine (IP_String a)"
  using ip4_line ip6_line by (auto simp: IP_String_def split: option.split addr.split)

lemma SplitHostPort_line: "SplitHostPort hp = Some (h, p) \<Longrightarrow> oneLine hp \<Longrightarrow> oneLine p"
  by (auto simp: SplitHostPort_def lastCut_def Let_def Cut_Some split: option.splits if_splits) (metis Un_iff list.set_intros(2) set_append set_rev)+

lemma resolveEndpoint_line: "resolveEndpoint lookup e = Inr r \<Longrightarrow> oneLine e \<Longrightarrow> oneLine r"
  using SplitHostPort_line IP_String_line by (auto simp: resolveEndpoint_def JoinHostPort_def split: option.splits if_splits list.splits)

definition uapiKeys :: "string list" where
  "uapiKeys = [''private_key'', ''public_key'', ''preshared_key'', ''endpoint'', ''persistent_keepalive_interval'', ''allowed_ip''] @ obfuscationKeys"

lemma uapiKeys_plain: "k \<in> set uapiKeys \<Longrightarrow> oneLine k \<and> CHR ''='' \<notin> set k"
proof -
  have "list_all (\<lambda>k. oneLine k \<and> CHR ''='' \<notin> set k) uapiKeys" by code_simp
  then show "k \<in> set uapiKeys \<Longrightarrow> ?thesis" by (simp add: list_all_iff)
qed

lemma uapiText_reads:
  assumes "\<forall>(k, v) \<in> set kvs. k \<in> set uapiKeys \<and> oneLine v"
  shows "map (\<lambda>l. Cut l CHR ''='') (Split (uapiText kvs) newline) = map Some kvs @ [None]"
proof -
  let ?ls = "map (\<lambda>(k, v). k @ ''='' @ v) kvs"
  have t: "uapiText kvs = concat (map (\<lambda>l. l @ [newline]) ?ls)" by (simp add: uapiText_def case_prod_unfold comp_def)
  have "\<forall>l \<in> set ?ls. oneLine l" using assms uapiKeys_plain by fastforce
  then have "Split (uapiText kvs) newline = ?ls @ [[]]" unfolding t by (rule Split_lines)
  moreover have "map (\<lambda>l. Cut l CHR ''='') ?ls = map Some kvs" using assms uapiKeys_plain by (auto simp: Cut_Some)
  ultimately show ?thesis by simp
qed

lemma uapiLines_plain:
  assumes "oneLine priv" "oneLine pub" "oneLine psk" "oneLine ep" "lineSecret sec"
  shows "\<forall>(k, v) \<in> set (uapiLines (ToNodeConfig e sec) priv pub psk ep). k \<in> set uapiKeys \<and> oneLine v"
proof -
  have "oneLine (Itoa n)" for n using digits_line by (simp add: Itoa_def)
  moreover have "\<forall>a \<in> set (allowedOf (ToNodeConfig e sec)). oneLine a" using assms(5) by (auto simp: allowedOf_def lineSecret_def)
  moreover have "oneLine v" if "map_of (ns_Obfuscation sec) k = Some v" for k v
    using assms(5) map_of_SomeD [OF that] by (force simp: lineSecret_def)
  ultimately show ?thesis using assms(1-4)
    by (auto simp: uapiLines_def uapiKeys_def map_filter_def split: option.splits if_splits)
qed

lemma uapiPairs_Inr: "uapiPairs lookup cfg = Inr kvs \<Longrightarrow> \<exists>priv pub psk ep. b64ToHex (nc_PrivateKey cfg) = Inr priv \<and>
    b64ToHex (nc_PeerPublicKey cfg) = Inr pub \<and> (if nc_PresharedKey cfg = [] then Inr [] else b64ToHex (nc_PresharedKey cfg)) = Inr psk \<and>
    resolveEndpoint lookup (nc_Endpoint cfg) = Inr ep \<and> kvs = uapiLines cfg priv pub psk ep"
  by (auto simp: uapiPairs_def map_sum_def split: sum.splits)

lemma uapiPairs_lines:
  assumes "uapiPairs lookup (ToNodeConfig e sec) = Inr kvs" "lineSecret sec" "oneLine e"
  shows "\<forall>(k, v) \<in> set kvs. k \<in> set uapiKeys \<and> oneLine v"
proof -
  from assms(1) obtain priv pub psk ep where
    h: "b64ToHex (ns_PrivateKey sec) = Inr priv" "b64ToHex (ns_PeerPublicKey sec) = Inr pub"
      "(if ns_PresharedKey sec = [] then Inr [] else b64ToHex (ns_PresharedKey sec)) = Inr psk" "resolveEndpoint lookup e = Inr ep"
    and kvs: "kvs = uapiLines (ToNodeConfig e sec) priv pub psk ep"
    using uapiPairs_Inr [OF assms(1)] unfolding ToNodeConfig_simps by blast
  have "oneLine psk" using h(3) b64ToHex_line by (auto split: if_splits)
  with uapiLines_plain [OF _ _ this _ assms(2)] h b64ToHex_line resolveEndpoint_line assms(3) kvs show ?thesis by blast
qed

text \<open>
  C19. What the engine is told is the file's settings and nothing else. For a connection read from a file, the text handed to the engine reads back
  line by line as its settings, in their order, and ends there: no value of the file, no name a resolver answers and no key can start a line of its own
  or be taken for another setting.
\<close>

theorem engine_text_reads_back:
  assumes "Parse sum256 name raw = Inr (node, sec)" "uapiConfig lookup (ToNodeConfig (nd_Endpoint node) sec) = Inr text"
  shows "\<exists>kvs. uapiPairs lookup (ToNodeConfig (nd_Endpoint node) sec) = Inr kvs \<and>
    map (\<lambda>l. Cut l CHR ''='') (Split text newline) = map Some kvs @ [None] \<and> fst ` set kvs \<subseteq> set uapiKeys"
proof -
  from assms(2) obtain kvs where k: "uapiPairs lookup (ToNodeConfig (nd_Endpoint node) sec) = Inr kvs" and t: "text = uapiText kvs"
    by (auto simp: uapiConfig_def map_sum_def split: sum.splits)
  note plain = uapiPairs_lines [OF k Parse_lines(1,2) [OF assms(1)]]
  with uapiText_reads [OF plain] k t show ?thesis by fastforce
qed

definition demo_conf :: string where
  "demo_conf = concat (map (\<lambda>l. l @ [newline])
     [''# Name = Office'', ''[Interface]'', ''PrivateKey = AAAAAAAAAAAAAAAAAAAAAAAAAAAAAAAAAAAAAAAAAAA='', ''Address = 10.8.1.2/32'', ''Jc = 4'',
      ''[Peer]'', ''PublicKey = BBBBBBBBBBBBBBBBBBBBBBBBBBBBBBBBBBBBBBBBBBA='', ''Endpoint = 203.0.113.10:443'', ''AllowedIPs = 0.0.0.0/0, ::/0''])"

definition demo_sum :: "string \<Rightarrow> nat list" where "demo_sum key = replicate 32 (length key)"

definition demo_read :: "(core_node \<times> node_secret) result" where "demo_read = Parse demo_sum (defaultName demo_conf) demo_conf"

lemma demo_conf_read: "case demo_read of Inl e \<Rightarrow> False
    | Inr (node, sec) \<Rightarrow> nd_Name node = ''Office'' \<and> \<not> isl (uapiConfig (\<lambda>h. []) (ToNodeConfig (nd_Endpoint node) sec))"
  by code_simp

theorem engine_text_reads_back_witness:
  "\<exists>node sec told kvs. demo_read = Inr (node, sec) \<and> uapiConfig (\<lambda>h. []) (ToNodeConfig (nd_Endpoint node) sec) = Inr told \<and>
    map (\<lambda>l. Cut l CHR ''='') (Split told newline) = map Some kvs @ [None]"
proof -
  from demo_conf_read obtain node sec where r: "demo_read = Inr (node, sec)" by (auto split: sum.splits)
  have "\<not> isl (uapiConfig (\<lambda>h. []) (ToNodeConfig (nd_Endpoint node) sec))" using demo_conf_read unfolding r by simp
  then obtain told where t: "uapiConfig (\<lambda>h. []) (ToNodeConfig (nd_Endpoint node) sec) = Inr told" by (metis sum.collapse(2))
  from engine_text_reads_back [OF r [unfolded demo_read_def] t] r t show ?thesis by blast
qed

end
