(* ===== verification/Vpn.thy ===== *)
theory Vpn
  imports Vpn_Config Tunnel
begin

text \<open>
  The connections and the one that is up: \<^verbatim>\<open>internal/adapters/openwrt/vpn.go\<close>, and the two engines it drives,
  \<^verbatim>\<open>internal/vpn/amneziawg/kernel.go\<close> and \<^verbatim>\<open>netstack.go\<close>. The document is kept by theory Store, the routing by theory Tunnel; the
  AmneziaWG device, the interface it makes and the program \<^verbatim>\<open>ip\<close> are the parameter \<open>awg_device\<close>. Every method runs under the
  manager's lock and is one step; an engine's own state is \<open>'e\<close>, the rest of the world \<open>'w\<close>.
\<close>

section \<open>Engines\<close>

type_synonym dialer = string

record ('e, 'w) engine =
  en_Up :: "node_config \<Rightarrow> ('e \<times> 'w, unit) step"
  en_Down :: "('e \<times> 'w, unit) step"
  en_Stats :: "('e \<times> 'w, vpn_stats) step"
  en_Dialer :: "'e \<Rightarrow> dialer option result"
  en_TunName :: "('e \<Rightarrow> string) option"

text \<open>The third-party device: handles are names.\<close>

record 'w awg_device =
  aw_CreateTUN :: "string \<Rightarrow> int \<Rightarrow> ('w, string) step"
  aw_Name :: "string \<Rightarrow> 'w \<Rightarrow> string result"
  aw_CreateNetTUN :: "addr \<Rightarrow> addr list \<Rightarrow> int \<Rightarrow> ('w, string \<times> dialer) step"
  aw_NewDevice :: "string \<Rightarrow> 'w \<Rightarrow> string \<times> 'w"
  aw_IpcSet :: "string \<Rightarrow> string \<Rightarrow> ('w, unit) step"
  aw_Up :: "string \<Rightarrow> ('w, unit) step"
  aw_Close :: "string \<Rightarrow> 'w \<Rightarrow> 'w"
  aw_IpcGet :: "string \<Rightarrow> ('w, string) step"
  aw_Ip :: "string list \<Rightarrow> ('w, string) step"
  aw_LookupIP :: "'w \<Rightarrow> string \<Rightarrow> addr list"
  aw_Now :: "'w \<Rightarrow> int"

definition parseAddrOnly :: "string \<Rightarrow> addr option" where
  "parseAddrOnly s = ParseAddr (TrimSpace (case Cut s CHR ''/'' of None \<Rightarrow> s | Some (a, b) \<Rightarrow> a))"

fun parseAddrs :: "string list \<Rightarrow> addr list option" where
  "parseAddrs [] = Some []"
| "parseAddrs (s # ss) = (case ParseAddr (TrimSpace s) of None \<Rightarrow> None | Some a \<Rightarrow> map_option (Cons a) (parseAddrs ss))"

definition BypassMark :: int where "BypassMark = 0x20000000"

definition engineMTU :: int where "engineMTU = 1420"

text \<open>On an error the device is closed.\<close>

definition orClose :: "'w awg_device \<Rightarrow> string \<Rightarrow> error \<Rightarrow> ('w, 'a) step \<Rightarrow> ('w, 'a) step" where
  "orClose dv d e m w = (case m w of (Inl x, w') \<Rightarrow> (Inl e, aw_Close dv d w') | (Inr x, w') \<Rightarrow> (Inr x, w'))"

subsection \<open>The kernel engine\<close>

record kernel_engine =
  ke_dev :: "string option"
  ke_name :: string
  ke_addr :: string

definition NewKernelEngine :: kernel_engine where
  "NewKernelEngine = \<lparr>ke_dev = None, ke_name = ''awg0'', ke_addr = []\<rparr>"

definition configureLink :: "'w awg_device \<Rightarrow> string \<Rightarrow> node_config \<Rightarrow> ('w, unit) step" where
  "configureLink dv name cfg =
     bindR (aw_Ip dv [''addr'', ''add'', nc_Address cfg, ''dev'', name]) (\<lambda>_.
     bindR (aw_Ip dv [''link'', ''set'', ''up'', ''dev'', name]) (\<lambda>_. retR ()))"

definition deviceUp :: "'w awg_device \<Rightarrow> string \<Rightarrow> string \<Rightarrow> node_config \<Rightarrow> ('w, unit) step \<Rightarrow> ('w, unit) step" where
  \<comment> \<open>what both engines do with a new device; \<open>link\<close> is the kernel engine's own last part\<close>
  "deviceUp dv d prefix cfg link =
     bindR (\<lambda>w. orClose dv d (Failed ''build uapi'') (liftR (uapiConfig (aw_LookupIP dv w) cfg)) w) (\<lambda>uapi.
     bindR (orClose dv d (Failed ''ipc set'') (aw_IpcSet dv d (prefix @ uapi))) (\<lambda>_.
     bindR (orClose dv d (Failed ''device up'') (aw_Up dv d)) (\<lambda>_.
       orClose dv d (Failed ''configure link'') link)))"

definition kernel_Up :: "'w awg_device \<Rightarrow> node_config \<Rightarrow> (kernel_engine \<times> 'w, unit) step" where
  "kernel_Up dv cfg s =
     (case s of (e, w) \<Rightarrow>
        if ke_dev e \<noteq> None then (Inl (Failed ''kernel engine already up''), s)
        else if parseAddrOnly (nc_Address cfg) = None then (Inl (Failed ''address''), s)
        else case aw_CreateTUN dv (ke_name e) engineMTU w of
          (Inl x, w1) \<Rightarrow> (Inl (Failed ''create kernel tun''), (e, w1))
        | (Inr tun, w1) \<Rightarrow>
            let e1 = (case aw_Name dv tun w1 of Inr real \<Rightarrow> if real \<noteq> [] then e\<lparr>ke_name := real\<rparr> else e | Inl x \<Rightarrow> e);
                (d, w2) = aw_NewDevice dv tun w1 in
            (case deviceUp dv d (''fwmark='' @ Itoa BypassMark @ [newline]) cfg (configureLink dv (ke_name e1) cfg) w2 of
               (Inl x, w3) \<Rightarrow> (Inl x, (e1, w3))
             | (Inr u, w3) \<Rightarrow> (Inr (), (e1\<lparr>ke_dev := Some d, ke_addr := nc_Address cfg\<rparr>, w3))))"

definition kernel_Down :: "'w awg_device \<Rightarrow> (kernel_engine \<times> 'w, unit) step" where
  "kernel_Down dv s =
     (case s of (e, w) \<Rightarrow> (case ke_dev e of None \<Rightarrow> (Inr (), s) | Some d \<Rightarrow> (Inr (), (e\<lparr>ke_dev := None, ke_addr := []\<rparr>, aw_Close dv d w))))"

definition deviceStats :: "'w awg_device \<Rightarrow> string option \<Rightarrow> ('w, vpn_stats) step" where
  "deviceStats dv d w =
     (case d of None \<Rightarrow> (Inl (Failed ''engine down''), w)
      | Some d \<Rightarrow> (case aw_IpcGet dv d w of (Inl x, w') \<Rightarrow> (Inl (Failed ''ipc get''), w') | (Inr raw, w') \<Rightarrow> (Inr (parseStats (aw_Now dv w') raw), w')))"

definition withEngine :: "('e \<Rightarrow> ('w, 'a) step) \<Rightarrow> ('e \<times> 'w, 'a) step" where
  "withEngine m s = (case m (fst s) (snd s) of (r, w) \<Rightarrow> (r, (fst s, w)))"

definition kernel_TunName :: "kernel_engine \<Rightarrow> string" where
  "kernel_TunName e = (if ke_dev e = None then [] else ke_name e)"

definition kernelEngine :: "'w awg_device \<Rightarrow> (kernel_engine, 'w) engine" where
  "kernelEngine dv =
     \<lparr>en_Up = kernel_Up dv, en_Down = kernel_Down dv, en_Stats = withEngine (\<lambda>e. deviceStats dv (ke_dev e)),
      en_Dialer = (\<lambda>e. Inr None), en_TunName = Some kernel_TunName\<rparr>"

subsection \<open>The userspace engine\<close>

record netstack_engine =
  ne_dev :: "string option"
  ne_net :: "dialer option"

definition NewNetstackEngine :: netstack_engine where "NewNetstackEngine = \<lparr>ne_dev = None, ne_net = None\<rparr>"

definition netstack_Up :: "'w awg_device \<Rightarrow> node_config \<Rightarrow> (netstack_engine \<times> 'w, unit) step" where
  "netstack_Up dv cfg s =
     (case s of (e, w) \<Rightarrow>
        if ne_dev e \<noteq> None then (Inl (Failed ''engine already up''), s)
        else case parseAddrOnly (nc_Address cfg) of None \<Rightarrow> (Inl (Failed ''address''), s)
        | Some a \<Rightarrow> (case parseAddrs (nc_DNS cfg) of None \<Rightarrow> (Inl (Failed ''dns''), s)
        | Some dns \<Rightarrow> (case aw_CreateNetTUN dv a dns engineMTU w of
            (Inl x, w1) \<Rightarrow> (Inl (Failed ''create netstack tun''), (e, w1))
          | (Inr (tun, net), w1) \<Rightarrow>
              let (d, w2) = aw_NewDevice dv tun w1 in
              (case deviceUp dv d [] cfg (retR ()) w2 of
                 (Inl x, w3) \<Rightarrow> (Inl x, (e, w3))
               | (Inr u, w3) \<Rightarrow> (Inr (), (\<lparr>ne_dev = Some d, ne_net = Some net\<rparr>, w3))))))"

definition netstack_Down :: "'w awg_device \<Rightarrow> (netstack_engine \<times> 'w, unit) step" where
  "netstack_Down dv s =
     (case s of (e, w) \<Rightarrow> (case ne_dev e of None \<Rightarrow> (Inr (), s) | Some d \<Rightarrow> (Inr (), (\<lparr>ne_dev = None, ne_net = None\<rparr>, aw_Close dv d w))))"

definition netstack_Dialer :: "netstack_engine \<Rightarrow> dialer option result" where
  "netstack_Dialer e = (case ne_net e of None \<Rightarrow> Inl (Failed ''engine down'') | Some n \<Rightarrow> Inr (Some n))"

definition netstackEngine :: "'w awg_device \<Rightarrow> (netstack_engine, 'w) engine" where
  "netstackEngine dv =
     \<lparr>en_Up = netstack_Up dv, en_Down = netstack_Down dv, en_Stats = withEngine (\<lambda>e. deviceStats dv (ne_dev e)),
      en_Dialer = netstack_Dialer, en_TunName = None\<rparr>"

section \<open>The manager\<close>

record 'w doc_store =
  ds_Load :: "'w \<Rightarrow> document result"
  ds_Save :: "document \<Rightarrow> ('w, unit) step"
  ds_Update :: "(document \<Rightarrow> error option \<times> document) \<Rightarrow> ('w, unit) step"

definition fileStore :: "'w store_fs \<Rightarrow> codec \<Rightarrow> string \<Rightarrow> 'w doc_store" where
  "fileStore fs js path = \<lparr>ds_Load = Load fs js path, ds_Save = (\<lambda>d. Save fs js path (Some d)), ds_Update = Update fs js path\<rparr>"

record 'w connection_router =
  ro_Ensure :: "'w \<Rightarrow> error list \<times> 'w"
  ro_Up :: "string \<Rightarrow> string list \<Rightarrow> 'w \<Rightarrow> error list \<times> 'w"
  ro_Down :: "'w \<Rightarrow> error list \<times> 'w"

definition tunnelRouter :: "'w runner \<Rightarrow> bool \<Rightarrow> 'w connection_router" where
  "tunnelRouter run v6 = \<lparr>ro_Ensure = Ensure run v6, ro_Up = Up run v6, ro_Down = Down run v6\<rparr>"

record ('e, 'w) vpn_manager =
  vm_store :: "'w doc_store"
  vm_engine :: "('e, 'w) engine"
  vm_router :: "'w connection_router option"
  vm_sum256 :: "string \<Rightarrow> nat list"

record ('e, 'w) vpn_state =
  vn_up :: string
  vn_en :: 'e
  vn_os :: 'w

definition onOs :: "('w, 'a) step \<Rightarrow> (('e, 'w) vpn_state, 'a) step" where
  "onOs m s = (case m (vn_os s) of (r, w) \<Rightarrow> (r, s\<lparr>vn_os := w\<rparr>))"

definition onEngine :: "('e \<times> 'w, 'a) step \<Rightarrow> (('e, 'w) vpn_state, 'a) step" where
  "onEngine m s = (case m (vn_en s, vn_os s) of (r, (e, w)) \<Rightarrow> (r, s\<lparr>vn_en := e, vn_os := w\<rparr>))"

definition loadDoc :: "('e, 'w) vpn_manager \<Rightarrow> (('e, 'w) vpn_state, document) step" where
  "loadDoc m s = (ds_Load (vm_store m) (vn_os s), s)"

definition setUp :: "string \<Rightarrow> (('e, 'w) vpn_state, unit) step" where
  "setUp nid s = (Inr (), s\<lparr>vn_up := nid\<rparr>)"

definition sn_ID :: "stored_node \<Rightarrow> string" where "sn_ID n = nd_ID (sn_Node n)"

text \<open>The same node again (its ID is derived from the server's key) replaces the first of that ID.\<close>

fun putNode :: "stored_node \<Rightarrow> stored_node list \<Rightarrow> stored_node list" where
  "putNode n [] = [n]"
| "putNode n (x # xs) = (if sn_ID x = sn_ID n then n # xs else x # putNode n xs)"

fun dropNode :: "string \<Rightarrow> stored_node list \<Rightarrow> stored_node list" where
  "dropNode nid [] = []"
| "dropNode nid (x # xs) = (if sn_ID x = nid then xs else x # dropNode nid xs)"

definition findNode :: "string \<Rightarrow> document \<Rightarrow> stored_node option" where
  "findNode nid d = List.find (\<lambda>n. sn_ID n = nid) (doc_Nodes d)"

definition ImportConfig :: "('e, 'w) vpn_manager \<Rightarrow> string \<Rightarrow> (('e, 'w) vpn_state, core_node list) step" where
  "ImportConfig m raw =
     bindR (liftR (Parse (vm_sum256 m) (defaultName raw) raw)) (\<lambda>(node, sec).
     bindR (loadDoc m) (\<lambda>doc.
     bindR (onOs (ds_Save (vm_store m) (doc\<lparr>doc_Nodes := putNode \<lparr>sn_Node = node, sn_Secret = sec\<rparr> (doc_Nodes doc)\<rparr>))) (\<lambda>_.
       retR [node])))"

definition ListNodes :: "('e, 'w) vpn_manager \<Rightarrow> (('e, 'w) vpn_state, core_node list) step" where
  "ListNodes m = bindR (loadDoc m) (\<lambda>doc. retR (PublicNodes doc))"

definition unroute :: "('e, 'w) vpn_manager \<Rightarrow> (('e, 'w) vpn_state, unit) step" where
  "unroute m = pureR (\<lambda>s. ((), case vm_router m of None \<Rightarrow> s | Some r \<Rightarrow> s\<lparr>vn_os := snd (ro_Down r (vn_os s))\<rparr>))"

definition engineDown :: "('e, 'w) vpn_manager \<Rightarrow> (('e, 'w) vpn_state, unit) step" where
  \<comment> \<open>\<^verbatim>\<open>_ = m.engine.Down()\<close>\<close>
  "engineDown m = pureR (\<lambda>s. ((), snd (onEngine (en_Down (vm_engine m)) s)))"

definition takeDown :: "('e, 'w) vpn_manager \<Rightarrow> (('e, 'w) vpn_state, unit) step" where
  "takeDown m = bindR (engineDown m) (\<lambda>_. bindR (unroute m) (\<lambda>_. setUp []))"

definition route :: "('e, 'w) vpn_manager \<Rightarrow> string list \<Rightarrow> (('e, 'w) vpn_state, unit) step" where
  "route m allowed s =
     (case (vm_router m, en_TunName (vm_engine m)) of
        (Some r, Some tun) \<Rightarrow>
          if tun (vn_en s) = [] then (Inr (), s)
          else (case ro_Up r (tun (vn_en s)) allowed (vn_os s) of
              ([], w) \<Rightarrow> (Inr (), s\<lparr>vn_os := w\<rparr>) | (e # es, w) \<Rightarrow> (Inl (Failed ''route the tunnel''), s\<lparr>vn_os := w\<rparr>))
      | _ \<Rightarrow> (Inr (), s))"

definition chooseNode :: "string \<Rightarrow> document \<Rightarrow> error option \<times> document" where
  "chooseNode nid d = (None, d\<lparr>doc_Settings := (doc_Settings d)\<lparr>st_ActiveNodeID := nid\<rparr>\<rparr>)"

definition RemoveNode :: "('e, 'w) vpn_manager \<Rightarrow> string \<Rightarrow> (('e, 'w) vpn_state, unit) step" where
  "RemoveNode m nid =
     bindR (loadDoc m) (\<lambda>doc.
     bindR (checkR (findNode nid doc \<noteq> None) (Failed ''node not found'')) (\<lambda>_.
     bindR (\<lambda>s. if vn_up s = nid then takeDown m s else retR () s) (\<lambda>_.
     let doc' = (if st_ActiveNodeID (doc_Settings doc) = nid then snd (chooseNode [] doc) else doc) in
       onOs (ds_Save (vm_store m) (doc'\<lparr>doc_Nodes := dropNode nid (doc_Nodes doc')\<rparr>)))))"

definition nowUp :: "('e, 'w) vpn_manager \<Rightarrow> string \<Rightarrow> string list \<Rightarrow> (('e, 'w) vpn_state, unit) step" where
  \<comment> \<open>the last part of \<open>Activate\<close>: a tunnel nothing routes into is not reported as up\<close>
  "nowUp m nid allowed s =
     (case route m allowed s of
        (Inl e, s') \<Rightarrow> (Inl e, snd (bindR (engineDown m) (\<lambda>_. unroute m) s'))
      | (Inr u, s') \<Rightarrow> bindR (setUp nid) (\<lambda>_. onOs (ds_Update (vm_store m) (chooseNode nid))) s')"

definition Activate :: "('e, 'w) vpn_manager \<Rightarrow> string \<Rightarrow> (('e, 'w) vpn_state, unit) step" where
  "Activate m nid =
     bindR (loadDoc m) (\<lambda>doc.
       case findNode nid doc of None \<Rightarrow> failR (Failed ''node not found'')
       | Some sn \<Rightarrow>
           let cfg = ToNodeConfig (nd_Endpoint (sn_Node sn)) (sn_Secret sn) in
           bindR (\<lambda>s. if vn_up s \<noteq> [] then takeDown m s else retR () s) (\<lambda>_.
           bindR (wrapR (Failed ''activate'') (onEngine (en_Up (vm_engine m) cfg))) (\<lambda>_.
             nowUp m nid (nc_AllowedIPs cfg))))"

record node_status =
  ns_NodeID :: string
  ns_Active :: bool
  ns_HandshakeAgeSec :: int
  ns_RxBytes :: int
  ns_TxBytes :: int
  ns_LastError :: "error option"

definition NodeStatus :: "('e, 'w) vpn_manager \<Rightarrow> string \<Rightarrow> (('e, 'w) vpn_state, node_status) step" where
  "NodeStatus m nid =
     bindR (loadDoc m) (\<lambda>doc.
     bindR (checkR (findNode nid doc \<noteq> None) (Failed ''node not found'')) (\<lambda>_ s.
     let st = \<lparr>ns_NodeID = nid, ns_Active = (vn_up s = nid), ns_HandshakeAgeSec = -1, ns_RxBytes = 0, ns_TxBytes = 0, ns_LastError = None\<rparr> in
     if vn_up s \<noteq> nid then (Inr st, s)
     else case onEngine (en_Stats (vm_engine m)) s of
         (Inl e, s') \<Rightarrow> (Inr (st\<lparr>ns_LastError := Some e\<rparr>), s')
       | (Inr x, s') \<Rightarrow> (Inr (st\<lparr>ns_HandshakeAgeSec := vs_HandshakeAgeSec x, ns_RxBytes := vs_RxBytes x, ns_TxBytes := vs_TxBytes x\<rparr>), s')))"

definition activeDialer :: "('e, 'w) vpn_manager \<Rightarrow> ('e, 'w) vpn_state \<Rightarrow> dialer option" where
  "activeDialer m s = (if vn_up s = [] then None else case en_Dialer (vm_engine m) (vn_en s) of Inl e \<Rightarrow> None | Inr d \<Rightarrow> d)"

definition activeTunName :: "('e, 'w) vpn_manager \<Rightarrow> ('e, 'w) vpn_state \<Rightarrow> string" where
  "activeTunName m s = (if vn_up s = [] then [] else case en_TunName (vm_engine m) of None \<Rightarrow> [] | Some tun \<Rightarrow> tun (vn_en s))"

definition ensureRules :: "('e, 'w) vpn_manager \<Rightarrow> ('e, 'w) vpn_state \<Rightarrow> error list \<times> ('e, 'w) vpn_state" where
  "ensureRules m s =
     (case (en_TunName (vm_engine m), vm_router m) of
        (Some tun, Some r) \<Rightarrow> (case ro_Ensure r (vn_os s) of (errs, w) \<Rightarrow> (errs, s\<lparr>vn_os := w\<rparr>))
      | _ \<Rightarrow> ([], s))"

text \<open>After a start: the errors, and the node to bring back in the background.\<close>

definition Restore :: "('e, 'w) vpn_manager \<Rightarrow> ('e, 'w) vpn_state \<Rightarrow> (error list \<times> string option) \<times> ('e, 'w) vpn_state" where
  "Restore m s =
     (case ensureRules m s of (errs, s') \<Rightarrow>
        (case loadDoc m s' of
           (Inl e, s'') \<Rightarrow> ((errs @ [e], None), s'')
         | (Inr doc, s'') \<Rightarrow>
             let nid = st_ActiveNodeID (doc_Settings doc) in ((errs, if nid = [] then None else Some nid), s'')))"

definition bringBackOnce :: "('e, 'w) vpn_manager \<Rightarrow> string \<Rightarrow> ('e, 'w) vpn_state \<Rightarrow> (bool \<times> error option) \<times> ('e, 'w) vpn_state" where
  "bringBackOnce m nid s =
     (case loadDoc m s of (Inl e, s1) \<Rightarrow> ((False, Some e), s1)
      | (Inr doc, s1) \<Rightarrow>
          if vn_up s1 \<noteq> [] \<or> st_ActiveNodeID (doc_Settings doc) \<noteq> nid then ((True, None), s1)
          else (case Activate m nid s1 of (Inl e, s2) \<Rightarrow> ((False, Some e), s2) | (Inr u, s2) \<Rightarrow> ((True, None), s2)))"

section \<open>What happens to the manager\<close>

text \<open>
  Requests, the retries of the node to bring back, a restart of the daemon (the engine is new, the world what it is then) and anything else that
  happens to the world.
\<close>

datatype 'w vpn_event =
  EvImport string | EvRemove string | EvActivate string | EvStatus string | EvRestore | EvBringBack string | EvRestart 'w | EvWorld 'w

fun vpn_do :: "('e, 'w) vpn_manager \<Rightarrow> 'e \<Rightarrow> 'w vpn_event \<Rightarrow> ('e, 'w) vpn_state \<Rightarrow> ('e, 'w) vpn_state" where
  "vpn_do m e0 (EvImport raw) s = snd (ImportConfig m raw s)"
| "vpn_do m e0 (EvRemove nid) s = snd (RemoveNode m nid s)"
| "vpn_do m e0 (EvActivate nid) s = snd (Activate m nid s)"
| "vpn_do m e0 (EvStatus nid) s = snd (NodeStatus m nid s)"
| "vpn_do m e0 EvRestore s = snd (Restore m s)"
| "vpn_do m e0 (EvBringBack nid) s = snd (bringBackOnce m nid s)"
| "vpn_do m e0 (EvRestart w) s = \<lparr>vn_up = [], vn_en = e0, vn_os = w\<rparr>"
| "vpn_do m e0 (EvWorld w) s = s\<lparr>vn_os := w\<rparr>"

text \<open>A node is asked for by a name: the path of the request has one, and \<open>Restore\<close> starts no retries for the empty one.\<close>

fun namedEvent :: "'w vpn_event \<Rightarrow> bool" where
  "namedEvent (EvActivate nid) = (nid \<noteq> [])"
| "namedEvent (EvBringBack nid) = (nid \<noteq> [])"
| "namedEvent ev = True"

section \<open>What the manager relies on of an engine\<close>

locale engine_contract =
  fixes en :: "('e, 'w) engine" and running :: "'e \<Rightarrow> bool"
  assumes up_ok: "en_Up en cfg (e, w) = (Inr (), (e', w')) \<Longrightarrow> \<not> running e \<and> running e'"
    and up_refused: "en_Up en cfg (e, w) = (Inl x, (e', w')) \<Longrightarrow> running e' = running e"
    and down: "en_Down en (e, w) = (r, (e', w')) \<Longrightarrow> \<not> running e'"
    and stats: "en_Stats en (e, w) = (r', (e', w')) \<Longrightarrow> e' = e"
begin

definition upOK :: "('e, 'w) vpn_state \<Rightarrow> bool" where
  "upOK s \<longleftrightarrow> (running (vn_en s) \<longleftrightarrow> vn_up s \<noteq> [])"

lemma engineDown_down: "engineDown m s = (r, s') \<Longrightarrow> vm_engine m = en \<Longrightarrow> \<not> running (vn_en s') \<and> vn_up s' = vn_up s"
  using down by (auto simp: engineDown_def pureR_def onEngine_def split: prod.splits)

lemma unroute_keeps: "unroute m s = (r, s') \<Longrightarrow> vn_en s' = vn_en s \<and> vn_up s' = vn_up s"
  by (auto simp: unroute_def pureR_def split: option.splits)

lemma engineDown_Inr: "\<exists>s'. engineDown m s = (Inr (), s')" by (simp add: engineDown_def pureR_def)

lemma unroute_Inr: "\<exists>s'. unroute m s = (Inr (), s')" by (simp add: unroute_def pureR_def)

lemma takeDown_down: "vm_engine m = en \<Longrightarrow> \<exists>s'. takeDown m s = (Inr (), s') \<and> \<not> running (vn_en s') \<and> vn_up s' = []"
proof -
  assume m: "vm_engine m = en"
  obtain s1 where s1: "engineDown m s = (Inr (), s1)" using engineDown_Inr by blast
  obtain s2 where s2: "unroute m s1 = (Inr (), s2)" using unroute_Inr by blast
  show ?thesis using engineDown_down [OF s1 m] unroute_keeps [OF s2] by (simp add: takeDown_def bindR_def s1 s2 setUp_def)
qed

lemma onOs_keeps: "onOs f s = (r, s') \<Longrightarrow> vn_en s' = vn_en s \<and> vn_up s' = vn_up s"
  by (auto simp: onOs_def split: prod.splits)

lemma loadDoc_same: "loadDoc m s = (r, s') \<Longrightarrow> s' = s"
  by (simp add: loadDoc_def)

lemma route_keeps: "route m allowed s = (r, s') \<Longrightarrow> vn_en s' = vn_en s \<and> vn_up s' = vn_up s"
  by (auto simp: route_def split: option.splits if_splits prod.splits list.splits)

text \<open>Bringing up: the tunnel before is down or another's; after it either runs under the asked name, or nothing runs.\<close>

lemma Activate_cases:
  assumes "Activate m nid s = (r, s')" "vm_engine m = en" "upOK s"
  shows "s' = s \<and> isl r \<or> vn_up s' = [] \<and> \<not> running (vn_en s') \<and> isl r \<or> vn_up s' = nid \<and> running (vn_en s')"
proof (cases "ds_Load (vm_store m) (vn_os s)")
  case (Inl e)
  with assms(1) show ?thesis by (auto simp: Activate_def bindR_def loadDoc_def)
next
  case doc: (Inr doc)
  show ?thesis
  proof (cases "findNode nid doc")
    case None
    with assms(1) doc show ?thesis by (auto simp: Activate_def bindR_def loadDoc_def failR_def)
  next
    case (Some sn)
    let ?cfg = "ToNodeConfig (nd_Endpoint (sn_Node sn)) (sn_Secret sn)"
    obtain s1 where s1: "(if vn_up s \<noteq> [] then takeDown m s else retR () s) = (Inr (), s1)" "\<not> running (vn_en s1)" "vn_up s1 = []"
      using takeDown_down [OF assms(2), of s] assms(3) by (auto simp: upOK_def retR_def)
    obtain x e w where u: "en_Up en ?cfg (vn_en s1, vn_os s1) = (x, (e, w))" by (metis prod.collapse)
    show ?thesis
    proof (cases x)
      case (Inl y)
      with assms(1,2) doc Some s1(1) u have "r = Inl (Failed ''activate'')" "s' = s1\<lparr>vn_en := e, vn_os := w\<rparr>"
        by (auto simp: Activate_def bindR_def loadDoc_def wrapR_def onEngine_def Let_def)
      with up_refused [OF u [unfolded Inl]] s1 show ?thesis by simp
    next
      case (Inr y)
      let ?s2 = "s1\<lparr>vn_en := e, vn_os := w\<rparr>"
      have run: "running e" using up_ok u Inr by simp
      obtain z s3 where z: "route m (nc_AllowedIPs ?cfg) ?s2 = (z, s3)" by (rule prod.exhaust)
      note k = route_keeps [OF z]
      show ?thesis
      proof (cases z)
        case l: (Inl y')
        obtain s4 where s4: "engineDown m s3 = (Inr (), s4)" using engineDown_Inr by blast
        obtain s5 where s5: "unroute m s4 = (Inr (), s5)" using unroute_Inr by blast
        from assms(1,2) doc Some s1(1) u Inr z l s4 s5 have "s' = s5" "isl r"
          by (auto simp: Activate_def bindR_def loadDoc_def wrapR_def onEngine_def Let_def nowUp_def)
        with engineDown_down [OF s4 assms(2)] unroute_keeps [OF s5] k s1(3) show ?thesis by simp
      next
        case l: (Inr y')
        from assms(1,2) doc Some s1(1) u Inr z l have "onOs (ds_Update (vm_store m) (chooseNode nid)) (s3\<lparr>vn_up := nid\<rparr>) = (r, s')"
          by (simp add: Activate_def bindR_def loadDoc_def wrapR_def onEngine_def Let_def setUp_def nowUp_def)
        from onOs_keeps [OF this] k run show ?thesis by simp
      qed
    qed
  qed
qed

lemma bringBackOnce_cases:
  assumes "bringBackOnce m nid s = ((fin, err), s')" "vm_engine m = en" "upOK s"
  shows "s' = s \<or> vn_up s = [] \<and> (vn_up s' = [] \<and> \<not> running (vn_en s') \<or> vn_up s' = nid \<and> running (vn_en s')) \<and>
    (\<exists>doc. ds_Load (vm_store m) (vn_os s) = Inr doc \<and> st_ActiveNodeID (doc_Settings doc) = nid)"
  using assms Activate_cases [of m nid s] by (auto simp: bringBackOnce_def loadDoc_def split: sum.splits if_splits prod.splits)

lemma RemoveNode_cases:
  assumes "RemoveNode m nid s = (r, s')" "vm_engine m = en" "upOK s"
  shows "upOK s' \<and> (vn_up s' = vn_up s \<or> vn_up s' = [] \<and> vn_up s = nid)"
proof (cases "ds_Load (vm_store m) (vn_os s)")
  case (Inl e)
  with assms(1,3) show ?thesis by (auto simp: RemoveNode_def bindR_def loadDoc_def)
next
  case doc: (Inr doc)
  show ?thesis
  proof (cases "findNode nid doc")
    case None
    with assms(1,3) doc show ?thesis by (auto simp: RemoveNode_def bindR_def loadDoc_def checkR_def failR_def)
  next
    case (Some sn)
    obtain s1 where s1: "(if vn_up s = nid then takeDown m s else retR () s) = (Inr (), s1)" "upOK s1" "vn_up s1 = vn_up s \<or> vn_up s1 = [] \<and> vn_up s = nid"
      using takeDown_down [OF assms(2), of s] assms(3) by (cases "vn_up s = nid") (auto simp: upOK_def retR_def)
    with assms(1) doc Some obtain f where "onOs f s1 = (r, s')"
      by (auto simp: RemoveNode_def bindR_def loadDoc_def checkR_def retR_def Let_def)
    from onOs_keeps [OF this] s1 show ?thesis by (auto simp: upOK_def)
  qed
qed

lemma quiet_events:
  "vm_engine m = en \<Longrightarrow> vn_en (snd (ImportConfig m raw s)) = vn_en s \<and> vn_up (snd (ImportConfig m raw s)) = vn_up s"
  "vm_engine m = en \<Longrightarrow> vn_en (snd (NodeStatus m nid s)) = vn_en s \<and> vn_up (snd (NodeStatus m nid s)) = vn_up s"
  "vm_engine m = en \<Longrightarrow> vn_en (snd (Restore m s)) = vn_en s \<and> vn_up (snd (Restore m s)) = vn_up s"
proof -
  assume m: "vm_engine m = en"
  show "vn_en (snd (ImportConfig m raw s)) = vn_en s \<and> vn_up (snd (ImportConfig m raw s)) = vn_up s"
    by (auto simp: ImportConfig_def bindR_def loadDoc_def liftR_def retR_def onOs_def split: sum.splits prod.splits)
  show "vn_en (snd (NodeStatus m nid s)) = vn_en s \<and> vn_up (snd (NodeStatus m nid s)) = vn_up s"
    using stats m by (auto simp: NodeStatus_def bindR_def loadDoc_def checkR_def retR_def failR_def onEngine_def Let_def split: sum.splits prod.splits)
  show "vn_en (snd (Restore m s)) = vn_en s \<and> vn_up (snd (Restore m s)) = vn_up s"
    by (auto simp: Restore_def ensureRules_def loadDoc_def Let_def split: sum.splits prod.splits option.splits)
qed

lemma event_keeps:
  assumes "upOK s" "namedEvent ev" "vm_engine m = en" "\<not> running e0"
  shows "upOK (vpn_do m e0 ev s)"
proof (cases ev)
  case (EvActivate nid)
  obtain r s' where a: "Activate m nid s = (r, s')" by (rule prod.exhaust)
  from Activate_cases [OF a assms(3,1)] EvActivate assms(1,2) a show ?thesis by (auto simp: upOK_def)
next
  case (EvBringBack nid)
  obtain fin err s' where b: "bringBackOnce m nid s = ((fin, err), s')" by (metis prod.collapse)
  from bringBackOnce_cases [OF b assms(3,1)] EvBringBack assms(1,2) b show ?thesis by (auto simp: upOK_def)
next
  case (EvRemove nid)
  obtain r s' where b: "RemoveNode m nid s = (r, s')" by (rule prod.exhaust)
  from RemoveNode_cases [OF b assms(3,1)] EvRemove b show ?thesis by simp
qed (use assms quiet_events [OF assms(3)] in \<open>auto simp: upOK_def\<close>)

lemma events_keep:
  "upOK s \<Longrightarrow> \<forall>ev \<in> set evs. namedEvent ev \<Longrightarrow> vm_engine m = en \<Longrightarrow> \<not> running e0 \<Longrightarrow> upOK (fold (vpn_do m e0) evs s)"
  using event_keeps by (induction evs arbitrary: s) auto

end

interpretation ke: engine_contract "kernelEngine dv" "\<lambda>e. ke_dev e \<noteq> None" for dv
proof
  show "en_Up (kernelEngine dv) cfg (e, w) = (Inr (), (e', w')) \<Longrightarrow> \<not> ke_dev e \<noteq> None \<and> ke_dev e' \<noteq> None" for cfg e w e' w'
    by (auto simp: kernelEngine_def kernel_Up_def Let_def split: if_splits sum.splits prod.splits)
  show "en_Up (kernelEngine dv) cfg (e, w) = (Inl x, (e', w')) \<Longrightarrow> (ke_dev e' \<noteq> None) = (ke_dev e \<noteq> None)" for cfg e w x e' w'
    by (auto simp: kernelEngine_def kernel_Up_def Let_def split: if_splits sum.splits prod.splits)
qed (auto simp: kernelEngine_def kernel_Down_def withEngine_def split: option.splits prod.splits)

interpretation ne: engine_contract "netstackEngine dv" "\<lambda>e. ne_dev e \<noteq> None" for dv
proof
  show "en_Up (netstackEngine dv) cfg (e, w) = (Inr (), (e', w')) \<Longrightarrow> \<not> ne_dev e \<noteq> None \<and> ne_dev e' \<noteq> None" for cfg e w e' w'
    by (auto simp: netstackEngine_def netstack_Up_def Let_def split: if_splits sum.splits prod.splits option.splits)
  show "en_Up (netstackEngine dv) cfg (e, w) = (Inl x, (e', w')) \<Longrightarrow> (ne_dev e' \<noteq> None) = (ne_dev e \<noteq> None)" for cfg e w x e' w'
    by (auto simp: netstackEngine_def netstack_Up_def Let_def split: if_splits sum.splits prod.splits option.splits)
qed (auto simp: netstackEngine_def netstack_Down_def withEngine_def split: option.splits prod.splits)

section \<open>What an engine keeps of itself\<close>

text \<open>A property of an engine that none of its own operations breaks survives everything that happens to the manager.\<close>

locale engine_invariant = engine_contract +
  fixes inv :: "'a \<Rightarrow> bool"
  assumes up_keeps: "en_Up en cfg (e, w) = (r, (e', w')) \<Longrightarrow> inv e \<Longrightarrow> inv e'"
    and down_keeps: "en_Down en (e, w) = (r, (e', w')) \<Longrightarrow> inv e \<Longrightarrow> inv e'"
begin

definition kept :: "('a, 'b) vpn_state \<Rightarrow> bool" where "kept s \<longleftrightarrow> inv (vn_en s)"

definition keeps :: "(('a, 'b) vpn_state, 'c) step \<Rightarrow> bool" where
  "keeps m \<longleftrightarrow> holdsR kept m (\<lambda>_. kept) kept"

lemma keepsI: "(\<And>s r s'. m s = (r, s') \<Longrightarrow> kept s \<Longrightarrow> kept s') \<Longrightarrow> keeps m"
  unfolding keeps_def by (rule holdsR_I) blast+

lemma keepsD: "keeps m \<Longrightarrow> kept s \<Longrightarrow> kept (snd (m s))"
  by (cases "m s"; cases "fst (m s)") (auto simp: keeps_def dest: holdsR_Inr holdsR_Inl)

lemma keeps_bind: "keeps m \<Longrightarrow> (\<And>x. keeps (k x)) \<Longrightarrow> keeps (bindR m k)"
  unfolding keeps_def by (rule holds_bindR)

lemma keeps_basic:
  "keeps (retR x)" "keeps (failR e)" "keeps (checkR b e)" "keeps (liftR q)" "keeps (loadDoc m)" "keeps (onOs f)" "keeps (setUp nid)"
  by (auto intro!: keepsI simp: retR_def failR_def checkR_def liftR_def loadDoc_def onOs_def setUp_def kept_def split: prod.splits if_splits)

lemma keeps_choice: "keeps m \<Longrightarrow> keeps m' \<Longrightarrow> keeps (\<lambda>s. if b s then m s else m' s)"
  unfolding keeps_def holdsR_def by auto

lemma keeps_engine: "vm_engine m = en \<Longrightarrow> keeps (engineDown m)" "vm_engine m = en \<Longrightarrow> keeps (wrapR e (onEngine (en_Up (vm_engine m) cfg)))"
  "keeps (unroute m)" "keeps (route m allowed)"
proof -
  show "vm_engine m = en \<Longrightarrow> keeps (engineDown m)"
    using down_keeps by (auto intro!: keepsI simp: engineDown_def pureR_def onEngine_def kept_def split: prod.splits)
  show "vm_engine m = en \<Longrightarrow> keeps (wrapR e (onEngine (en_Up (vm_engine m) cfg)))"
    using up_keeps by (auto intro!: keepsI simp: wrapR_def onEngine_def kept_def split: prod.splits sum.splits)
  show "keeps (unroute m)" by (auto intro!: keepsI dest: unroute_keeps simp: kept_def)
  show "keeps (route m allowed)" by (auto intro!: keepsI dest: route_keeps simp: kept_def)
qed

lemma keeps_takeDown: "vm_engine m = en \<Longrightarrow> keeps (takeDown m)"
  unfolding takeDown_def by (intro keeps_bind keeps_engine keeps_basic)

lemma keeps_RemoveNode: "vm_engine m = en \<Longrightarrow> keeps (RemoveNode m nid)"
  unfolding RemoveNode_def Let_def by (intro keeps_bind keeps_choice keeps_takeDown keeps_basic)

lemma keeps_up:
  assumes "vm_engine m = en"
  shows "keeps (nowUp m nid allowed)"
proof (rule keepsI)
  fix s r s'
  assume m: "nowUp m nid allowed s = (r, s')" and k: "kept s"
  obtain q u where q: "route m allowed s = (q, u)" by (rule prod.exhaust)
  have u: "kept u" using keepsD [OF keeps_engine(4) k] q by (metis snd_conv)
  have "keeps (bindR (engineDown m) (\<lambda>_. unroute m))" "keeps (bindR (setUp nid) (\<lambda>_. onOs (ds_Update (vm_store m) (chooseNode nid))))"
    by (intro keeps_bind keeps_engine assms keeps_basic)+
  from keepsD [OF this(1) u] keepsD [OF this(2) u] m q show "kept s'" by (cases q) (auto simp: nowUp_def)
qed

lemma keeps_Activate:
  assumes "vm_engine m = en"
  shows "keeps (Activate m nid)"
  unfolding Activate_def Let_def
proof (rule keeps_bind [OF keeps_basic(5)])
  show "keeps (case findNode nid doc of None \<Rightarrow> failR (Failed ''node not found'')
      | Some sn \<Rightarrow> bindR (\<lambda>s. if vn_up s \<noteq> [] then takeDown m s else retR () s) (\<lambda>_.
          bindR (wrapR (Failed ''activate'') (onEngine (en_Up (vm_engine m) (ToNodeConfig (nd_Endpoint (sn_Node sn)) (sn_Secret sn))))) (\<lambda>_.
            nowUp m nid (nc_AllowedIPs (ToNodeConfig (nd_Endpoint (sn_Node sn)) (sn_Secret sn))))))" for doc
    by (cases "findNode nid doc") (auto intro!: keeps_bind keeps_choice keeps_engine(2) keeps_takeDown keeps_up keeps_basic assms)
qed

lemma event_kept:
  assumes "kept s" "upOK s" "vm_engine m = en" "inv e0"
  shows "kept (vpn_do m e0 ev s)"
proof (cases ev)
  case (EvActivate nid)
  then show ?thesis using keepsD [OF keeps_Activate [OF assms(3)] assms(1)] by simp
next
  case (EvRemove nid)
  then show ?thesis using keepsD [OF keeps_RemoveNode [OF assms(3)] assms(1)] by simp
next
  case (EvBringBack nid)
  have "kept (snd (Activate m nid s))" by (rule keepsD [OF keeps_Activate [OF assms(3)] assms(1)])
  then show ?thesis using EvBringBack assms(1) by (auto simp: bringBackOnce_def loadDoc_def split: sum.splits prod.splits)
qed (use assms quiet_events [OF assms(3)] in \<open>auto simp: kept_def\<close>)

lemma events_kept:
  "kept s \<Longrightarrow> upOK s \<Longrightarrow> \<forall>ev \<in> set evs. namedEvent ev \<Longrightarrow> vm_engine m = en \<Longrightarrow> inv e0 \<Longrightarrow> \<not> running e0 \<Longrightarrow>
   kept (fold (vpn_do m e0) evs s)"
  using event_kept event_keeps by (induction evs arbitrary: s) auto

end

interpretation kn: engine_invariant "kernelEngine dv" "\<lambda>e. ke_dev e \<noteq> None" "\<lambda>e. ke_name e \<noteq> []" for dv
proof
  show "en_Up (kernelEngine dv) cfg (e, w) = (r, (e', w')) \<Longrightarrow> ke_name e \<noteq> [] \<Longrightarrow> ke_name e' \<noteq> []" for cfg e w r e' w'
    by (auto simp: kernelEngine_def kernel_Up_def Let_def split: if_splits sum.splits prod.splits)
qed (auto simp: kernelEngine_def kernel_Down_def split: option.splits)

interpretation nn: engine_invariant "netstackEngine dv" "\<lambda>e. ne_dev e \<noteq> None" "\<lambda>e. ne_dev e = None \<longleftrightarrow> ne_net e = None" for dv
proof
  show "en_Up (netstackEngine dv) cfg (e, w) = (r, (e', w')) \<Longrightarrow> ne_dev e = None \<longleftrightarrow> ne_net e = None \<Longrightarrow> ne_dev e' = None \<longleftrightarrow> ne_net e' = None"
    for cfg e w r e' w'
    by (auto simp: netstackEngine_def netstack_Up_def Let_def split: if_splits sum.splits prod.splits option.splits)
qed (auto simp: netstackEngine_def netstack_Down_def split: option.splits)

section \<open>Up is up\<close>

definition vpn_start :: "'e \<Rightarrow> 'w \<Rightarrow> ('e, 'w) vpn_state" where "vpn_start e w = \<lparr>vn_up = [], vn_en = e, vn_os = w\<rparr>"

text \<open>
  C26. A connection is called up exactly when its tunnel runs. Whatever requests come, in whatever order and with whatever outcome, with restarts
  in between and a world that may change at any moment: after each of them the manager names a node as up if and only if the kernel engine holds a
  running device, and then the interface it gives for the tunnel has a name.
\<close>

theorem connection_up_is_up:
  assumes "vm_engine m = kernelEngine dv" and "\<forall>ev \<in> set evs. namedEvent ev"
    and "s = fold (vpn_do m NewKernelEngine) evs (vpn_start NewKernelEngine w)"
  shows "(vn_up s \<noteq> [] \<longleftrightarrow> ke_dev (vn_en s) \<noteq> None) \<and> (vn_up s \<noteq> [] \<longleftrightarrow> activeTunName m s \<noteq> [])"
proof -
  have z: "\<not> ke_dev NewKernelEngine \<noteq> None" "ke_name NewKernelEngine \<noteq> []" by (simp_all add: NewKernelEngine_def)
  have u: "ke.upOK (vpn_start NewKernelEngine w)" unfolding ke.upOK_def vpn_start_def using z by simp
  have k: "kn.kept (vpn_start NewKernelEngine w)" unfolding kn.kept_def vpn_start_def using z by simp
  have "ke.upOK s" using ke.events_keep [OF u assms(2,1) z(1)] assms(3) by simp
  moreover have "kn.kept s" using kn.events_kept [OF k u assms(2,1) z(2,1)] assms(3) by simp
  ultimately show ?thesis unfolding ke.upOK_def kn.kept_def activeTunName_def assms(1)
    by (auto simp: kernelEngine_def kernel_TunName_def)
qed

text \<open>The same for the userspace engine: up exactly when there is a dialer.\<close>

lemma userspace_up_is_up:
  assumes "vm_engine m = netstackEngine dv" and "\<forall>ev \<in> set evs. namedEvent ev"
    and "s = fold (vpn_do m NewNetstackEngine) evs (vpn_start NewNetstackEngine w)"
  shows "vn_up s \<noteq> [] \<longleftrightarrow> activeDialer m s \<noteq> None"
proof -
  have z: "\<not> ne_dev NewNetstackEngine \<noteq> None" "ne_dev NewNetstackEngine = None \<longleftrightarrow> ne_net NewNetstackEngine = None"
    by (simp_all add: NewNetstackEngine_def)
  have u: "ne.upOK (vpn_start NewNetstackEngine w)" unfolding ne.upOK_def vpn_start_def using z by simp
  have k: "nn.kept (vpn_start NewNetstackEngine w)" unfolding nn.kept_def vpn_start_def using z by simp
  have "ne.upOK s" using ne.events_keep [OF u assms(2,1) z(1)] assms(3) by simp
  moreover have "nn.kept s" using nn.events_kept [OF k u assms(2,1) z(2,1)] assms(3) by simp
  ultimately show ?thesis unfolding ne.upOK_def nn.kept_def activeDialer_def assms(1)
    by (auto simp: netstackEngine_def netstack_Dialer_def split: option.splits)
qed

section \<open>A connection comes back\<close>

lemma fileStore_simps: "ds_Load (fileStore fs js path) = Load fs js path" "ds_Update (fileStore fs js path) = Update fs js path"
  by (simp_all add: fileStore_def)

lemma nowUp_Inr:
  assumes "nowUp m nid allowed s = (Inr u, s')"
  shows "vn_up s' = nid \<and> (\<exists>w. ds_Update (vm_store m) (chooseNode nid) w = (Inr (), vn_os s'))"
proof -
  obtain q s1 where q: "route m allowed s = (q, s1)" by (rule prod.exhaust)
  with assms have "onOs (ds_Update (vm_store m) (chooseNode nid)) (s1\<lparr>vn_up := nid\<rparr>) = (Inr u, s')"
    by (cases q) (auto simp: nowUp_def bindR_def setUp_def)
  then show ?thesis by (auto simp: onOs_def split: prod.splits)
qed

lemma Activate_updates:
  assumes "Activate m nid s = (Inr u, s')"
  shows "vn_up s' = nid \<and> (\<exists>w. ds_Update (vm_store m) (chooseNode nid) w = (Inr (), vn_os s'))"
proof -
  from assms obtain allowed u' s2 where "nowUp m nid allowed s2 = (Inr u', s')"
    by (auto simp: Activate_def bindR_Inr loadDoc_def failR_def Let_def split: option.splits)
  then show ?thesis by (rule nowUp_Inr)
qed

lemma Save_marshals: "Save fs js path (Some d) w = (Inr u, w') \<Longrightarrow> \<exists>b. Marshal js (withVersion d) = Inr b"
  by (auto simp: Save_def bindR_Inr liftR_def wrapR_def split: sum.splits prod.splits)

lemma saved_back:
  assumes "file_store fs now kept path" and "\<forall>d b. Marshal js d = Inr b \<longrightarrow> Unmarshal js b = Inr d \<and> TrimSpace b \<noteq> []"
    and "Save fs js path (Some d) w = (Inr u, w')"
  shows "Load fs js path w' = Inr (withVersion d)"
proof -
  obtain b where b: "Marshal js (withVersion d) = Inr b" using Save_marshals [OF assms(3)] by blast
  with assms(2) have "Unmarshal js b = Inr (withVersion d)" "TrimSpace b \<noteq> []" by blast+
  from file_store.saved_is_loaded [OF assms(1) b this assms(3)] show ?thesis .
qed

lemma updated_choice:
  assumes "file_store fs now kept path" and "\<forall>d b. Marshal js d = Inr b \<longrightarrow> Unmarshal js b = Inr d \<and> TrimSpace b \<noteq> []"
    and "Update fs js path (chooseNode nid) w = (Inr u, w')"
  shows "\<exists>d. Load fs js path w = Inr d \<and> Load fs js path w' = Inr (withVersion (snd (chooseNode nid d)))"
proof -
  from assms(3) obtain d where d: "Load fs js path w = Inr d" and sv: "Save fs js path (Some (snd (chooseNode nid d))) w = (Inr u, w')"
    by (auto simp: Update_def chooseNode_def split: sum.splits)
  from saved_back [OF assms(1,2) sv] d show ?thesis by blast
qed

lemma withVersion_settings: "doc_Settings (withVersion d) = doc_Settings d"
  by (simp add: withVersion_def)

lemma Restore_back:
  assumes "vm_store m = fileStore fs js path"
    and "\<forall>rt v. vm_router m = Some rt \<longrightarrow> Load fs js path (snd (ro_Ensure rt v)) = Load fs js path v"
    and "Load fs js path w = Inr d"
  shows "snd (fst (Restore m (vpn_start e0 w))) = (if st_ActiveNodeID (doc_Settings d) = [] then None else Some (st_ActiveNodeID (doc_Settings d)))"
proof -
  obtain errs t where t: "ensureRules m (vpn_start e0 w) = (errs, t)" by (rule prod.exhaust)
  have "Load fs js path (vn_os t) = Load fs js path w"
  proof (cases "en_TunName (vm_engine m)")
    case None
    with t show ?thesis by (auto simp: ensureRules_def vpn_start_def)
  next
    case (Some tun)
    show ?thesis
    proof (cases "vm_router m")
      case None
      with t Some show ?thesis by (auto simp: ensureRules_def vpn_start_def)
    next
      case r: (Some rt)
      with t Some have "vn_os t = snd (ro_Ensure rt w)" by (auto simp: ensureRules_def vpn_start_def split: prod.splits)
      with r assms(2) show ?thesis by simp
    qed
  qed
  with assms(1,3) t show ?thesis by (simp add: Restore_def loadDoc_def fileStore_simps Let_def)
qed

lemma RemoveNode_saves:
  assumes "RemoveNode m nid s = (Inr u, s')"
  shows "\<exists>d w. ds_Save (vm_store m) d w = (Inr (), vn_os s') \<and> (nid \<noteq> [] \<longrightarrow> st_ActiveNodeID (doc_Settings d) \<noteq> nid)"
proof -
  from assms obtain doc d' s1 where "d' = (if st_ActiveNodeID (doc_Settings doc) = nid then snd (chooseNode [] doc) else doc)"
    and o: "onOs (ds_Save (vm_store m) (d'\<lparr>doc_Nodes := dropNode nid (doc_Nodes d')\<rparr>)) s1 = (Inr u, s')"
    by (auto simp: RemoveNode_def bindR_Inr loadDoc_def Let_def)
  then have "nid \<noteq> [] \<longrightarrow> st_ActiveNodeID (doc_Settings d') \<noteq> nid" by (simp add: chooseNode_def)
  with o show ?thesis by (intro exI [of _ "d'\<lparr>doc_Nodes := dropNode nid (doc_Nodes d')\<rparr>"] exI [of _ "vn_os s1"]) (auto simp: onOs_def split: prod.splits)
qed

text \<open>
  C22. A connection comes back after a restart, and a removed one does not. Once a node has been activated, the daemon that starts on the saved
  document has that node to bring back, and each of its tries is an activation of it, ended only by one that succeeds, as long as the choice stands and
  nothing else is up. Once a node has been removed, no start brings it back.
\<close>

theorem activated_is_brought_back:
  assumes "file_store fs now kept path" and "\<forall>d b. Marshal js d = Inr b \<longrightarrow> Unmarshal js b = Inr d \<and> TrimSpace b \<noteq> []"
    and "vm_store m = fileStore fs js path"
    and "\<forall>rt v. vm_router m = Some rt \<longrightarrow> Load fs js path (snd (ro_Ensure rt v)) = Load fs js path v"
    and "nid \<noteq> []" and "Load fs js path w = Load fs js path (vn_os s')"
  shows "(Activate m nid s = (Inr u, s') \<longrightarrow>
      vn_up s' = nid \<and> snd (fst (Restore m (vpn_start e0 w))) = Some nid \<and>
      (\<forall>t. vn_up t = [] \<and> Load fs js path (vn_os t) = Load fs js path w \<longrightarrow>
         bringBackOnce m nid t = (case Activate m nid t of (Inl e, t') \<Rightarrow> ((False, Some e), t') | (Inr _, t') \<Rightarrow> ((True, None), t')))) \<and>
    (RemoveNode m nid s = (Inr v, s') \<longrightarrow> snd (fst (Restore m (vpn_start e0 w))) \<noteq> Some nid)"
proof (intro conjI impI)
  assume a: "Activate m nid s = (Inr u, s')"
  obtain w1 where s1: "vn_up s' = nid" "Update fs js path (chooseNode nid) w1 = (Inr (), vn_os s')"
    using Activate_updates [OF a] by (auto simp: assms(3) fileStore_simps)
  obtain d where d: "Load fs js path (vn_os s') = Inr (withVersion (snd (chooseNode nid d)))"
    using updated_choice [OF assms(1,2) s1(2)] by blast
  have c: "st_ActiveNodeID (doc_Settings (withVersion (snd (chooseNode nid d)))) = nid" by (simp add: withVersion_settings chooseNode_def)
  have w: "Load fs js path w = Inr (withVersion (snd (chooseNode nid d)))" using d assms(6) by simp
  have "bringBackOnce m nid t = (case Activate m nid t of (Inl e, t') \<Rightarrow> ((False, Some e), t') | (Inr _, t') \<Rightarrow> ((True, None), t'))"
    if "vn_up t = []" "Load fs js path (vn_os t) = Load fs js path w" for t
    using that w c by (simp add: bringBackOnce_def loadDoc_def assms(3) fileStore_simps)
  then show "\<forall>t. vn_up t = [] \<and> Load fs js path (vn_os t) = Load fs js path w \<longrightarrow>
         bringBackOnce m nid t = (case Activate m nid t of (Inl e, t') \<Rightarrow> ((False, Some e), t') | (Inr _, t') \<Rightarrow> ((True, None), t'))" by simp
  show "snd (fst (Restore m (vpn_start e0 w))) = Some nid" using Restore_back [OF assms(3,4) w] c assms(5) by simp
  show "vn_up s' = nid" by (rule s1(1))
next
  assume r: "RemoveNode m nid s = (Inr v, s')"
  obtain d w1 where d: "Save fs js path (Some d) w1 = (Inr (), vn_os s')" "st_ActiveNodeID (doc_Settings d) \<noteq> nid"
    using RemoveNode_saves [OF r] assms(3,5) by (auto simp: fileStore_def)
  have w: "Load fs js path w = Inr (withVersion d)" using saved_back [OF assms(1,2) d(1)] assms(6) by simp
  show "snd (fst (Restore m (vpn_start e0 w))) \<noteq> Some nid" using Restore_back [OF assms(3,4) w] d(2) by (simp add: withVersion_settings)
qed

section \<open>A connection on a disk\<close>

definition demo_awg :: "disk awg_device" where
  "demo_awg =
     \<lparr>aw_CreateTUN = (\<lambda>name mtu w. (Inr name, w)), aw_Name = (\<lambda>tun w. Inr tun), aw_CreateNetTUN = (\<lambda>a dns mtu w. (Inr (''tun'', ''net''), w)),
      aw_NewDevice = (\<lambda>tun w. (''device'', w)), aw_IpcSet = (\<lambda>d cfg w. (Inr (), w)), aw_Up = (\<lambda>d w. (Inr (), w)), aw_Close = (\<lambda>d w. w),
      aw_IpcGet = (\<lambda>d w. (Inr [], w)), aw_Ip = (\<lambda>args w. (Inr [], w)), aw_LookupIP = (\<lambda>w h. []), aw_Now = (\<lambda>w. 0)\<rparr>"

definition demo_stored :: stored_node where
  "demo_stored =
     \<lparr>sn_Node = \<lparr>nd_ID = ''n1'', nd_Name = ''Office'', nd_Engine = ''amneziawg'', nd_Endpoint = ''203.0.113.10:443''\<rparr>,
      sn_Secret = \<lparr>ns_PrivateKey = ''AAAAAAAAAAAAAAAAAAAAAAAAAAAAAAAAAAAAAAAAAAA='', ns_PeerPublicKey = ''BBBBBBBBBBBBBBBBBBBBBBBBBBBBBBBBBBBBBBBBBBA='',
        ns_PresharedKey = [], ns_Address = ''10.8.1.2/32'', ns_DNS = [], ns_AllowedIPs = [''0.0.0.0/0''], ns_PersistentKeepalive = 25, ns_Obfuscation = []\<rparr>\<rparr>"

definition demo_chosen :: "string \<Rightarrow> document" where
  "demo_chosen nid = snd (chooseNode nid (Default\<lparr>doc_Nodes := [demo_stored]\<rparr>))"

definition demo_texts :: codec where
  "demo_texts =
     \<lparr>Marshal = (\<lambda>d. if d = demo_chosen ''n1'' then Inr ''{1}'' else if d = demo_chosen [] then Inr ''{0}'' else Inl (Failed ''no such document'')),
      Unmarshal = (\<lambda>b. if b = ''{1}'' then Inr (demo_chosen ''n1'') else if b = ''{0}'' then Inr (demo_chosen []) else Inl (Failed ''no such text''))\<rparr>"

definition demo_mgr :: "(kernel_engine, disk) vpn_manager" where
  "demo_mgr = \<lparr>vm_store = fileStore ref_store demo_texts DefaultPath, vm_engine = kernelEngine demo_awg, vm_router = None, vm_sum256 = demo_sum\<rparr>"

definition demo_vpn :: "(kernel_engine, disk) vpn_state" where
  "demo_vpn = vpn_start NewKernelEngine \<lparr>dk_now = (\<lambda>p. if p = DefaultPath then Some ''{0}'' else None), dk_kept = (\<lambda>p. None), dk_temps = 0\<rparr>"

lemma demo_activates: "case Activate demo_mgr ''n1'' demo_vpn of (Inl e, s) \<Rightarrow> False | (Inr u, s) \<Rightarrow> vn_up s = ''n1''"
  by code_simp

lemma demo_activated: "\<exists>s. Activate demo_mgr ''n1'' demo_vpn = (Inr (), s) \<and> vn_up s = ''n1''"
  using demo_activates by (auto split: prod.splits sum.splits)

lemma demo_texts_back: "\<forall>d b. Marshal demo_texts d = Inr b \<longrightarrow> Unmarshal demo_texts b = Inr d \<and> TrimSpace b \<noteq> []"
proof -
  have "TrimSpace ''{1}'' \<noteq> []" "TrimSpace ''{0}'' \<noteq> []" by code_simp+
  then show ?thesis by (auto simp: demo_texts_def split: if_splits)
qed

theorem connection_up_is_up_witness:
  "\<exists>s. s = fold (vpn_do demo_mgr NewKernelEngine) [EvActivate ''n1''] demo_vpn \<and> vn_up s = ''n1'' \<and> ke_dev (vn_en s) \<noteq> None \<and> activeTunName demo_mgr s \<noteq> []"
proof -
  let ?s = "fold (vpn_do demo_mgr NewKernelEngine) [EvActivate ''n1''] demo_vpn"
  have m: "vm_engine demo_mgr = kernelEngine demo_awg" by (simp add: demo_mgr_def)
  have n: "\<forall>ev \<in> set [EvActivate ''n1'']. namedEvent ev" by simp
  have u: "vn_up ?s = ''n1''" using demo_activated by auto
  from connection_up_is_up [OF m n refl, of "vn_os demo_vpn"] u show ?thesis by (simp add: demo_vpn_def vpn_start_def)
qed

theorem activated_is_brought_back_witness:
  "\<exists>s. Activate demo_mgr ''n1'' demo_vpn = (Inr (), s) \<and> snd (fst (Restore demo_mgr (vpn_start NewKernelEngine (vn_os s)))) = Some ''n1''"
proof -
  obtain s where s: "Activate demo_mgr ''n1'' demo_vpn = (Inr (), s)" using demo_activated by blast
  have m: "vm_store demo_mgr = fileStore ref_store demo_texts DefaultPath" by (simp add: demo_mgr_def)
  have r: "\<forall>rt v. vm_router demo_mgr = Some rt \<longrightarrow>
      Load ref_store demo_texts DefaultPath (snd (ro_Ensure rt v)) = Load ref_store demo_texts DefaultPath v" by (simp add: demo_mgr_def)
  have "file_store ref_store dk_now dk_kept DefaultPath" by unfold_locales
  from activated_is_brought_back [OF this demo_texts_back m r _ refl, of "''n1''" demo_vpn "()" s NewKernelEngine] s show ?thesis by simp
qed

end
