(* ===== verification/Emergency.thy ===== *)
theory Emergency
  imports Transaction Uci
begin

text \<open>
  The emergency command, \<^verbatim>\<open>internal/adapters/openwrt/restore.go\<close>: the way back from a shell when a change took the panel with it. It reads
  the snapshots of the transaction (theory Uci_Applier), picks the newest that differs from what is in place and puts back the files the panel
  writes. What is printed is a list of lines beside the world; gzip and tar are the parameter \<open>em_untar\<close>, which gives the members of an archive
  or an error, \<open>em_stamp\<close> is \<^verbatim>\<open>time.Parse\<close> of a snapshot's name.
\<close>

section \<open>Data\<close>

record tar_member =
  tm_Name :: string
  tm_Reg :: bool
  tm_Mode :: nat
  tm_Data :: string

record restored_file =
  rf_data :: string
  rf_mode :: nat

record restore_point =
  rp_id :: string
  rp_taken :: "int option"
  rp_files :: "(string \<times> restored_file) list"
  rp_differs :: "string list"

record restore_options =
  op_List :: bool
  op_Point :: string
  op_Force :: bool

record 'w emergency =
  em_os :: "'w os"
  em_applier :: uci_applier
  em_configDir :: string
  em_untar :: "string \<Rightarrow> tar_member list result"
  em_Chmod :: "string \<Rightarrow> nat \<Rightarrow> 'w \<Rightarrow> error option \<times> 'w"
  em_stamp :: "string \<Rightarrow> int option"
  em_notExist :: "error \<Rightarrow> bool"

definition newEmergency ::
  "'w os \<Rightarrow> (string \<Rightarrow> tar_member list result) \<Rightarrow> (string \<Rightarrow> nat \<Rightarrow> 'w \<Rightarrow> error option \<times> 'w) \<Rightarrow> (string \<Rightarrow> int option) \<Rightarrow> (error \<Rightarrow> bool) \<Rightarrow> 'w emergency" where
  "newEmergency os untar chmod stamp missing =
     (let a = newUCIApplier in
      \<lparr>em_os = os, em_applier = a, em_configDir = joinPath (configRoot a) (configDir a), em_untar = untar, em_Chmod = chmod, em_stamp = stamp,
       em_notExist = missing\<rparr>)"

text \<open>What is printed, a constructor a sentence.\<close>

datatype em_line =
  Unreadable string error | WarnJournal error | PendingChange "int option" "int option" | NoPoints | PointsHead
  | PointLine bool string "int option" "string list" | StarLine | NothingDiffers nat | NoneYet | SamePoint string
  | Restoring "string list" string "int option" | WarnKeep error | WarnDraft error | NotInPoint string | FileRestored string
  | WarnClear error | PendingDropped | RebootHint error | AllDone | UndoWith string

type_synonym ('w, 'a) em_step = "('w \<times> em_line list, 'a) step"

definition em_say :: "em_line \<Rightarrow> ('w, unit) em_step" where "em_say l s = (Inr (), (fst s, snd s @ [l]))"

definition inWorld :: "('w \<Rightarrow> 'a \<times> 'w) \<Rightarrow> ('w, 'a) em_step" where
  \<comment> \<open>a call that answers with a value, an error among its values\<close>
  "inWorld m s = (case m (fst s) of (x, w) \<Rightarrow> (Inr x, (w, snd s)))"

section \<open>Reading the restore points\<close>

definition writtenConfigs :: "string list" where "writtenConfigs = [''network'', ''dhcp'', ''firewall'']"

definition limitRead :: "string \<Rightarrow> string" where
  "limitRead d = (if int (length d) \<le> 2 ^ 20 then d else take (2 ^ 20) d)"

definition wantedMember :: "tar_member \<Rightarrow> (string \<times> restored_file) option" where
  "wantedMember m =
     (let name = TrimPrefix (tm_Name m) ''./'' in
      if \<not> tm_Reg m \<or> name \<notin> set (map (\<lambda>c. ''config/'' @ c) writtenConfigs) then None
      else Some (TrimPrefix name ''config/'', \<lparr>rf_data = limitRead (tm_Data m), rf_mode = tm_Mode m mod 512\<rparr>))"

definition filesOf :: "tar_member list \<Rightarrow> (string \<times> restored_file) list" where
  "filesOf ms = fold (\<lambda>(c, f). AList.update c f) (List.map_filter wantedMember ms) []"

definition readSnapshotFiles :: "'w emergency \<Rightarrow> string \<Rightarrow> 'w \<Rightarrow> (string \<times> restored_file) list result" where
  "readSnapshotFiles em path w =
     (case os_ReadFile (em_os em) path w of
        FileMissing \<Rightarrow> Inl (Failed ''open'') | ReadError e \<Rightarrow> Inl e
      | FileData raw \<Rightarrow> map_sum (\<lambda>e. e) filesOf (em_untar em raw))"

definition currentFile :: "'w emergency \<Rightarrow> 'w \<Rightarrow> string \<Rightarrow> string option" where
  "currentFile em w c = (case os_ReadFile (em_os em) (joinPath (em_configDir em) c) w of FileData b \<Rightarrow> Some b | _ \<Rightarrow> None)"

definition differsIn :: "(string \<times> restored_file) list \<Rightarrow> (string \<Rightarrow> string option) \<Rightarrow> string list" where
  "differsIn files current = filter (\<lambda>c. map_option rf_data (map_of files c) \<noteq> current c) writtenConfigs"

definition pointNames :: "(string \<times> bool) list \<Rightarrow> string list" where
  "pointNames entries = rev (sort (map fst (filter (\<lambda>(n, isDir). \<not> isDir \<and> HasPrefix n ''uci-'' \<and> HasSuffix n ''.tar.gz'') entries)))"

fun readPoints :: "'w emergency \<Rightarrow> string list \<Rightarrow> ('w, restore_point list) em_step" where
  "readPoints em [] = retR []"
| "readPoints em (name # names) = (\<lambda>s.
     let i = TrimSuffix name ''.tar.gz'' in
     case readSnapshotFiles em (joinPath (snapshotDir (em_applier em)) name) (fst s) of
       Inl e \<Rightarrow> bindR (em_say (Unreadable i e)) (\<lambda>_. readPoints em names) s
     | Inr files \<Rightarrow>
         bindR (readPoints em names) (\<lambda>ps. retR
           (\<lparr>rp_id = i, rp_taken = em_stamp em (TrimPrefix i ''uci-''), rp_files = files, rp_differs = differsIn files (currentFile em (fst s))\<rparr> # ps)) s)"

definition points :: "'w emergency \<Rightarrow> ('w, restore_point list) em_step" where
  "points em s =
     (case os_ReadDir (em_os em) (snapshotDir (em_applier em)) (fst s) of
        Inl e \<Rightarrow> if em_notExist em e then (Inr [], s) else (Inl (Failed ''read restore points''), s)
      | Inr entries \<Rightarrow> readPoints em (pointNames entries) s)"

section \<open>The list\<close>

fun pointLines :: "bool \<Rightarrow> restore_point list \<Rightarrow> em_line list" where
  "pointLines chosen [] = (if chosen then [StarLine] else [])"
| "pointLines chosen (p # ps) =
     (let mark = \<not> chosen \<and> rp_differs p \<noteq> [] in
        PointLine mark (rp_id p) (rp_taken p) (rp_differs p) # pointLines (chosen \<or> mark) ps)"

definition listPoints :: "restore_point list \<Rightarrow> ('w, unit) em_step" where
  "listPoints ps s = (Inr (), (fst s, snd s @ (if ps = [] then [NoPoints] else PointsHead # pointLines False ps)))"

section \<open>Restoring\<close>

definition second_ns :: int where "second_ns = 1000000000"

definition roundSecond :: "int \<Rightarrow> int" where
  \<comment> \<open>\<^verbatim>\<open>time.Duration.Round(time.Second)\<close>, halves away from zero\<close>
  "roundSecond d =
     (if d < 0 then (let r = (- d) mod second_ns in if 2 * r < second_ns then d + r else d - second_ns + r)
      else (let r = d mod second_ns in if 2 * r < second_ns then d - r else d + second_ns - r))"

definition untilTime :: "int option \<Rightarrow> int \<Rightarrow> int option" where
  \<comment> \<open>\<open>None\<close> is \<^verbatim>\<open>any moment\<close>; the zero time is long past\<close>
  "untilTime until now =
     (case until of None \<Rightarrow> None | Some t \<Rightarrow> let d = roundSecond (t - now) in if d < 0 then None else Some d)"

definition tempFor :: "string \<Rightarrow> string \<Rightarrow> string" where "tempFor dir name = joinPath dir (''.'' @ name @ ''.vb-restore'')"

definition writeAtomic :: "'w emergency \<Rightarrow> string \<Rightarrow> string \<Rightarrow> restored_file \<Rightarrow> 'w \<Rightarrow> error option \<times> 'w" where
  "writeAtomic em dir name f w =
     (let mode = (if rf_mode f = 0 then 420 else rf_mode f); tmp = tempFor dir name in
      case os_WriteFile (em_os em) tmp (rf_data f) w of
        (Some e, w1) \<Rightarrow> (Some e, w1)
      | (None, w1) \<Rightarrow> (case em_Chmod em tmp mode w1 of
          (Some e, w2) \<Rightarrow> (Some e, snd (os_Remove (em_os em) tmp w2))
        | (None, w2) \<Rightarrow> os_Rename (em_os em) tmp (joinPath dir name) w2))"

fun putBack :: "'w emergency \<Rightarrow> restore_point \<Rightarrow> string list \<Rightarrow> ('w, unit) em_step" where
  "putBack em p [] = retR ()"
| "putBack em p (c # cs) =
     (case map_of (rp_files p) c of
        None \<Rightarrow> bindR (em_say (NotInPoint c)) (\<lambda>_. putBack em p cs)
      | Some f \<Rightarrow>
          bindR (inWorld (writeAtomic em (em_configDir em) c f)) (\<lambda>r.
            case r of Some e \<Rightarrow> failR (Failed (''restore '' @ c))
            | None \<Rightarrow> bindR (em_say (FileRestored c)) (\<lambda>_. putBack em p cs)))"

definition keepCurrent :: "'w emergency \<Rightarrow> ('w, string) em_step" where
  \<comment> \<open>the point to undo with, empty when there is none\<close>
  "keepCurrent em =
     bindR (inWorld (uci_Snapshot (em_applier em) (em_os em))) (\<lambda>r.
       case r of Inl e \<Rightarrow> bindR (em_say (WarnKeep e)) (\<lambda>_. retR []) | Inr snap \<Rightarrow> retR (snap_ID snap))"

definition dropDraft :: "'w emergency \<Rightarrow> ('w, unit) em_step" where
  "dropDraft em = bindR (inWorld (dropStaged (em_os em))) (\<lambda>r. case r of Some e \<Rightarrow> em_say (WarnDraft e) | None \<Rightarrow> retR ())"

definition dropPending :: "'w emergency \<Rightarrow> ('w, unit) em_step" where
  "dropPending em =
     bindR (inWorld (journal_Clear (journalPath (em_applier em)) (em_os em))) (\<lambda>r.
       case r of Some e \<Rightarrow> em_say (WarnClear e) | None \<Rightarrow> em_say PendingDropped)"

definition tellServices :: "'w emergency \<Rightarrow> string \<Rightarrow> ('w, unit) em_step" where
  "tellServices em undo =
     bindR (inWorld (runCommand (em_os em) ''/sbin/reload_config'' [])) (\<lambda>r.
       case r of Inl e \<Rightarrow> em_say (RebootHint e)
       | Inr out \<Rightarrow> bindR (em_say AllDone) (\<lambda>_. if undo \<noteq> [] then em_say (UndoWith undo) else retR ()))"

definition restoreFrom :: "'w emergency \<Rightarrow> bool \<Rightarrow> restore_point \<Rightarrow> ('w, unit) em_step" where
  "restoreFrom em force p =
     (if rp_differs p = [] then em_say (SamePoint (rp_id p))
      else
        bindR (em_say (Restoring (rp_differs p) (rp_id p) (rp_taken p))) (\<lambda>_.
        bindR (keepCurrent em) (\<lambda>undo.
        bindR (dropDraft em) (\<lambda>_.
        bindR (putBack em p (rp_differs p)) (\<lambda>_.
        bindR (if force then dropPending em else retR ()) (\<lambda>_.
          tellServices em undo))))))"

text \<open>The point asked for (the last of that name), or the newest that differs.\<close>

definition choosePoint :: "string \<Rightarrow> restore_point list \<Rightarrow> restore_point option" where
  "choosePoint asked ps =
     (if asked \<noteq> [] then List.find (\<lambda>p. rp_id p = asked) (rev ps) else List.find (\<lambda>p. rp_differs p \<noteq> []) ps)"

definition ErrChangePending :: error where "ErrChangePending = Failed ''a change is waiting for confirmation''"

definition checkPending :: "'w emergency \<Rightarrow> bool \<Rightarrow> ('w, unit) em_step" where
  "checkPending em force s =
     (case journal_Load (journalPath (em_applier em)) (em_os em) (fst s) of
        (Inl e, w) \<Rightarrow> em_say (WarnJournal e) (w, snd s)
      | (Inr None, w) \<Rightarrow> (Inr (), (w, snd s))
      | (Inr (Some r), w) \<Rightarrow>
          if force then (Inr (), (w, snd s))
          else bindR (em_say (PendingChange (rec_Deadline r) (untilTime (rec_Deadline r) (os_now (em_os em) w)))) (\<lambda>_. failR ErrChangePending) (w, snd s))"

definition restore :: "'w emergency \<Rightarrow> restore_options \<Rightarrow> ('w, unit) em_step" where
  "restore em opts =
     bindR (points em) (\<lambda>ps.
       if op_List opts then listPoints ps
       else
         bindR (checkPending em (op_Force opts)) (\<lambda>_.
           case choosePoint (op_Point opts) ps of
             Some p \<Rightarrow> restoreFrom em (op_Force opts) p
           | None \<Rightarrow>
               if op_Point opts \<noteq> [] then bindR (listPoints ps) (\<lambda>_. failR (Failed ''no restore point''))
               else bindR (em_say (NothingDiffers (length ps))) (\<lambda>_. if ps = [] then em_say NoneYet else retR ())))"

definition EmergencyRestore :: "'w emergency \<Rightarrow> restore_options \<Rightarrow> 'w \<Rightarrow> unit result \<times> ('w \<times> em_line list)" where
  "EmergencyRestore em opts w = restore em opts (w, [])"

section \<open>What is relied on of the system\<close>

text \<open>
  \<open>files\<close> is what every file holds. A file operation acts on its own files; the programs run here, the archiving \<^verbatim>\<open>tar\<close>, the listing and
  dropping of a draft and \<^verbatim>\<open>reload_config\<close>, leave the files of the configuration alone.
\<close>

definition inConfig :: "string \<Rightarrow> bool" where "inConfig f \<longleftrightarrow> HasPrefix f ''/etc/config/''"

definition quietCall :: "string \<Rightarrow> string list \<Rightarrow> bool" where
  "quietCall name args \<longleftrightarrow>
     name = ''/sbin/reload_config'' \<or> name = ''tar'' \<and> take 1 args = [''czf''] \<or> name = ''uci'' \<and> (take 1 args = [''changes''] \<or> take 1 args = [''revert''])"

text \<open>The files it writes: the three, and one beside each while it is written.\<close>

definition configFile :: "string \<Rightarrow> string" where "configFile c = joinPath ''/etc/config'' c"

definition ownFiles :: "string set" where
  "ownFiles = configFile ` set writtenConfigs \<union> tempFor ''/etc/config'' ` set writtenConfigs"

locale restore_files =
  fixes em :: "'w emergency" and files :: "'w \<Rightarrow> string \<Rightarrow> string option"
  assumes applier: "em_applier em = newUCIApplier" "em_configDir em = ''/etc/config''"
    and read_data: "os_ReadFile (em_os em) f w = FileData d \<longleftrightarrow> files w f = Some d"
    and write_file: "os_WriteFile (em_os em) f d w = (y, w') \<Longrightarrow> (y = None \<longrightarrow> files w' f = Some d) \<and> (\<forall>g. g \<noteq> f \<longrightarrow> files w' g = files w g)"
    and chmod_file: "em_Chmod em f m w = (y, w') \<Longrightarrow> files w' = files w"
    and rename_file: "os_Rename (em_os em) f g w = (y, w') \<Longrightarrow>
      files w' g = (if y = None then files w f else files w g) \<and> (\<forall>h. h \<noteq> f \<longrightarrow> h \<noteq> g \<longrightarrow> files w' h = files w h)"
    and remove_file: "os_Remove (em_os em) f w = (q, w') \<Longrightarrow> g \<noteq> f \<Longrightarrow> files w' g = files w g"
    and mkdir_file: "os_MkdirAll (em_os em) f w = (y, w') \<Longrightarrow> files w' = files w"
    and run_quiet: "quietCall name args \<Longrightarrow> os_run (em_os em) name args w = (x, w') \<Longrightarrow> inConfig g \<Longrightarrow> files w' g = files w g"
begin

definition calm :: "'w \<Rightarrow> 'w \<Rightarrow> bool" where "calm w w' \<longleftrightarrow> (\<forall>g. inConfig g \<longrightarrow> files w' g = files w g)"

lemma calm_refl: "calm w w" by (simp add: calm_def)

lemma calm_trans: "calm w1 w2 \<Longrightarrow> calm w2 w3 \<Longrightarrow> calm w1 w3" by (simp add: calm_def)

lemma calm_config: "calm w w' \<Longrightarrow> files w' (configFile c) = files w (configFile c)"
  by (simp add: calm_def inConfig_def configFile_def joinPath_def HasPrefix_def)

definition calmly :: "('w, 'b) em_step \<Rightarrow> bool" where "calmly m \<longleftrightarrow> (\<forall>s. calm (fst s) (fst (snd (m s))))"

lemma calmly_bind: "calmly m \<Longrightarrow> (\<And>x. calmly (f x)) \<Longrightarrow> calmly (bindR m f)"
proof -
  assume m: "calmly m" and f: "\<And>x. calmly (f x)"
  have "calm (fst s) (fst (snd (bindR m f s)))" for s
  proof -
    obtain r u where r: "m s = (r, u)" by (rule prod.exhaust)
    have "calm (fst s) (fst u)" using m r unfolding calmly_def by (metis snd_conv)
    moreover have "calm (fst u) (fst (snd (f x u)))" for x using f unfolding calmly_def by blast
    ultimately show ?thesis using r calm_trans by (cases r) (auto simp: bindR_def)
  qed
  then show ?thesis by (simp add: calmly_def)
qed

lemma calmly_simple: "calmly (retR x)" "calmly (failR e)" "calmly (em_say l)"
  by (simp_all add: calmly_def retR_def failR_def em_say_def calm_refl)

lemma calmly_world: "(\<And>w. calm w (snd (m w))) \<Longrightarrow> calmly (inWorld m)"
  by (auto simp: calmly_def inWorld_def split: prod.splits) (metis snd_conv)

lemma calm_run: "quietCall name args \<Longrightarrow> calm w (snd (runCommand (em_os em) name args w))"
  using run_quiet by (auto simp: calm_def runCommand_def) (metis prod.collapse)

lemma elsewhere_calm:
  assumes "\<not> inConfig f"
  shows "calm w (snd (os_WriteFile (em_os em) f d w))" "calm w (snd (os_Remove (em_os em) f w))"
proof -
  obtain y w1 where y: "os_WriteFile (em_os em) f d w = (y, w1)" by (rule prod.exhaust)
  show "calm w (snd (os_WriteFile (em_os em) f d w))" using write_file [OF y] y assms by (auto simp: calm_def)
  obtain q w2 where q: "os_Remove (em_os em) f w = (q, w2)" by (rule prod.exhaust)
  have "files w2 g = files w g" if "inConfig g" for g using remove_file [OF q, of g] that assms by blast
  then show "calm w (snd (os_Remove (em_os em) f w))" using q by (simp add: calm_def)
qed

lemma snapshots_elsewhere: "\<not> inConfig (joinPath (snapshotDir newUCIApplier) n)" "\<not> inConfig (journalPath newUCIApplier)"
  by (simp_all add: inConfig_def joinPath_def newUCIApplier_paths HasPrefix_def)

lemma calm_removeNames: "calm w (snd (removeNames (em_os em) (snapshotDir newUCIApplier) ns w))"
proof (induction ns arbitrary: w)
  case (Cons n ns)
  obtain q w1 where q: "os_Remove (em_os em) (joinPath (snapshotDir newUCIApplier) n) w = (q, w1)" by (rule prod.exhaust)
  have "calm w w1" using elsewhere_calm(2) [OF snapshots_elsewhere(1)] q by (metis snd_conv)
  with Cons [of w1] calm_trans q show ?case by (auto split: remove_result.splits)
qed (simp add: calm_refl)

lemma calm_persist: "calm w (snd (persist newUCIApplier (em_os em) sn w))"
proof -
  obtain y w1 where y: "os_MkdirAll (em_os em) (snapshotDir newUCIApplier) w = (y, w1)" by (rule prod.exhaust)
  obtain z w2 where z: "os_WriteFile (em_os em) (snapshotPath newUCIApplier (snap_ID sn)) (snap_Payload sn) w1 = (z, w2)" by (rule prod.exhaust)
  have c1: "calm w w1" using mkdir_file [OF y] by (simp add: calm_def)
  have c2: "calm w1 w2" using elsewhere_calm(1) [OF snapshots_elsewhere(1)] z unfolding snapshotPath_def by (metis snd_conv)
  have "calm w2 (snd (prune newUCIApplier (em_os em) w2))"
    using calm_removeNames calm_refl by (auto simp: prune_def split: sum.splits)
  then have "calm w (snd (prune newUCIApplier (em_os em) w2))" "calm w w2" using c1 c2 calm_trans by blast+
  then show ?thesis using c1 y z by (simp add: persist_def calm_refl split: option.split)
qed

lemma calm_Snapshot: "calm w (snd (uci_Snapshot newUCIApplier (em_os em) w))"
proof -
  let ?args = "[''czf'', ''-'', ''-C'', configRoot newUCIApplier, configDir newUCIApplier]"
  have "quietCall ''tar'' ?args" by (simp add: quietCall_def)
  from calm_run [OF this, of w] calm_persist calm_trans show ?thesis
    by (auto simp: uci_Snapshot_def Let_def split: prod.splits sum.splits)
qed

lemma calm_revertPackages: "calm w (snd (revertPackages (em_os em) ps w))"
proof (induction ps arbitrary: w)
  case (Cons p ps)
  have "quietCall ''uci'' [''revert'', p]" by (simp add: quietCall_def)
  from calm_run [OF this, of w] Cons calm_trans show ?case by (auto split: prod.splits sum.splits)
qed (simp add: calm_refl)

lemma calm_dropStaged: "calm w (snd (dropStaged (em_os em) w))"
proof -
  have "quietCall ''uci'' [''changes'']" by (simp add: quietCall_def)
  from calm_run [OF this, of w] calm_revertPackages calm_trans show ?thesis by (auto simp: dropStaged_def split: prod.splits sum.splits)
qed

lemma calm_Clear: "calm w (snd (journal_Clear (journalPath newUCIApplier) (em_os em) w))"
proof -
  obtain q w' where q: "os_Remove (em_os em) (journalPath newUCIApplier) w = (q, w')" by (rule prod.exhaust)
  have "calm w w'" using elsewhere_calm(2) [OF snapshots_elsewhere(2)] q by (metis snd_conv)
  then show ?thesis using q by (cases q) (simp_all add: journal_Clear_def)
qed

lemma calmly_parts: "calmly (keepCurrent em)" "calmly (dropDraft em)" "calmly (dropPending em)" "calmly (tellServices em u)"
proof -
  show "calmly (keepCurrent em)" unfolding keepCurrent_def applier
    by (intro calmly_bind calmly_world calm_Snapshot) (auto intro!: calmly_bind calmly_simple split: sum.split)
  show "calmly (dropDraft em)" unfolding dropDraft_def
    by (intro calmly_bind calmly_world calm_dropStaged) (auto intro!: calmly_simple split: option.split)
  show "calmly (dropPending em)" unfolding dropPending_def applier
    by (intro calmly_bind calmly_world calm_Clear) (auto intro!: calmly_simple split: option.split)
  have "quietCall ''/sbin/reload_config'' []" by (simp add: quietCall_def)
  then show "calmly (tellServices em u)" unfolding tellServices_def
    by (intro calmly_bind calmly_world calm_run) (auto intro!: calmly_bind calmly_simple split: sum.split)
qed

lemma keepCurrent_ok: "\<exists>u s'. keepCurrent em s = (Inr u, s')"
  by (cases "uci_Snapshot (em_applier em) (em_os em) (fst s)"; cases "fst (uci_Snapshot (em_applier em) (em_os em) (fst s))")
    (auto simp: keepCurrent_def bindR_def inWorld_def em_say_def retR_def)

lemma dropDraft_ok: "\<exists>s'. dropDraft em s = (Inr (), s')"
  by (cases "dropStaged (em_os em) (fst s)"; cases "fst (dropStaged (em_os em) (fst s))")
    (auto simp: dropDraft_def bindR_def inWorld_def em_say_def retR_def)

text \<open>One file is the old one or the whole new one, and no other of the configuration changes.\<close>

lemma tempFor_other: "c \<in> set writtenConfigs \<Longrightarrow> c' \<in> set writtenConfigs \<Longrightarrow> tempFor dir c \<noteq> joinPath dir c'"
  by (auto simp: tempFor_def joinPath_def writtenConfigs_def)

lemma writeAtomic_one:
  assumes "writeAtomic em ''/etc/config'' c f w = (r, w')" "c \<in> set writtenConfigs"
  shows "files w' (configFile c) = (if r = None then Some (rf_data f) else files w (configFile c))"
    and "c' \<in> set writtenConfigs \<Longrightarrow> c' \<noteq> c \<Longrightarrow> files w' (configFile c') = files w (configFile c')"
    and "g \<notin> ownFiles \<Longrightarrow> files w' g = files w g"
proof -
  let ?tmp = "tempFor ''/etc/config'' c"
  have other: "c' \<in> set writtenConfigs \<Longrightarrow> configFile c' \<noteq> ?tmp" for c' using tempFor_other [OF assms(2)] unfolding configFile_def by metis
  have own: "g \<notin> ownFiles \<Longrightarrow> g \<noteq> ?tmp \<and> g \<noteq> configFile c" for g using assms(2) by (auto simp: ownFiles_def)
  have inj: "c' \<noteq> c \<Longrightarrow> configFile c' \<noteq> configFile c" for c' by (simp add: configFile_def joinPath_def)
  obtain y w1 where y: "os_WriteFile (em_os em) ?tmp (rf_data f) w = (y, w1)" by (rule prod.exhaust)
  obtain z w2 where z: "em_Chmod em ?tmp (if rf_mode f = 0 then 420 else rf_mode f) w1 = (z, w2)" by (rule prod.exhaust)
  obtain q w3 where q: "os_Remove (em_os em) ?tmp w2 = (q, w3)" by (rule prod.exhaust)
  obtain x w4 where x: "os_Rename (em_os em) ?tmp (configFile c) w2 = (x, w4)" by (rule prod.exhaust)
  have r: "(r, w') = (if y \<noteq> None then (y, w1) else if z \<noteq> None then (z, w3) else (x, w4))"
    using assms(1) y z q x by (auto simp: writeAtomic_def configFile_def Let_def split: option.splits)
  note laws = write_file [OF y] chmod_file [OF z] remove_file [OF q] rename_file [OF x]
  have w: "files w2 g = files w g" if "g \<noteq> ?tmp" for g using laws(1,2) that by simp
  have w3: "files w3 g = files w g" if "g \<noteq> ?tmp" for g using laws(3) [OF that] w [OF that] by simp
  have w4: "files w4 g = files w g" if "g \<noteq> ?tmp" "g \<noteq> configFile c" for g using laws(4) w [OF that(1)] that by simp
  show "files w' (configFile c) = (if r = None then Some (rf_data f) else files w (configFile c))"
    using r laws(1,2,4) w3 [OF other [OF assms(2)]] other [OF assms(2)] by (auto split: if_splits)
  have keep: "files w' g = files w g" if "g \<noteq> ?tmp" "g \<noteq> configFile c" for g
    using r laws(1) w3 [OF that(1)] w4 [OF that] that by (auto split: if_splits)
  show "c' \<in> set writtenConfigs \<Longrightarrow> c' \<noteq> c \<Longrightarrow> files w' (configFile c') = files w (configFile c')" using keep [OF other inj] by blast
  show "g \<notin> ownFiles \<Longrightarrow> files w' g = files w g" using keep own by blast
qed

text \<open>Of a list of files: those of the point are put back up to the first error.\<close>

definition putResult :: "restore_point \<Rightarrow> string list \<Rightarrow> 'w \<Rightarrow> 'w \<Rightarrow> bool \<Rightarrow> bool" where
  "putResult p cs w w' ok \<longleftrightarrow>
     (\<forall>c \<in> set writtenConfigs. files w' (configFile c) = files w (configFile c) \<and> (ok \<longrightarrow> c \<notin> set cs \<or> map_of (rp_files p) c = None) \<or>
        (\<exists>f. map_of (rp_files p) c = Some f \<and> files w' (configFile c) = Some (rf_data f))) \<and>
     (\<forall>g. g \<notin> ownFiles \<longrightarrow> files w' g = files w g)"

lemma putBack_result:
  "putBack em p cs s = (r, s') \<Longrightarrow> set cs \<subseteq> set writtenConfigs \<Longrightarrow> putResult p cs (fst s) (fst s') (\<not> isl r)"
proof (induction cs arbitrary: s)
  case Nil
  then show ?case by (auto simp: putResult_def)
next
  case (Cons c cs)
  note c = Cons.prems(2)
  show ?case
  proof (cases "map_of (rp_files p) c")
    case None
    with Cons.prems(1) have "putBack em p cs (fst s, snd s @ [NotInPoint c]) = (r, s')" by (simp add: bindR_def em_say_def)
    from Cons.IH [OF this] c None show ?thesis by (simp add: putResult_def) metis
  next
    case (Some f)
    obtain x w1 where x: "writeAtomic em ''/etc/config'' c f (fst s) = (x, w1)" by (rule prod.exhaust)
    note one = writeAtomic_one [OF x]
    show ?thesis
    proof (cases x)
      case xs: (Some e)
      with Cons.prems(1) Some x have "isl r" "fst s' = w1" by (auto simp: bindR_def inWorld_def applier)
      with one c xs show ?thesis by (auto simp: putResult_def)
    next
      case None
      with Cons.prems(1) Some x have "putBack em p cs (w1, snd s @ [FileRestored c]) = (r, s')"
        by (simp add: bindR_def inWorld_def em_say_def applier)
      from Cons.IH [OF this] c have h: "putResult p cs w1 (fst s') (\<not> isl r)" by simp
      have own: "files w1 (configFile c) = Some (rf_data f)" using one(1) c None by simp
      have others: "c' \<in> set writtenConfigs \<Longrightarrow> c' \<noteq> c \<Longrightarrow> files w1 (configFile c') = files (fst s) (configFile c')" for c' using one(2) c by simp
      have rest: "g \<notin> ownFiles \<Longrightarrow> files w1 g = files (fst s) g" for g using one(3) c by simp
      show ?thesis unfolding putResult_def
      proof (intro conjI ballI allI impI)
        show "files (fst s') g = files (fst s) g" if "g \<notin> ownFiles" for g using h rest that by (simp add: putResult_def)
        fix c'
        assume c': "c' \<in> set writtenConfigs"
        show "files (fst s') (configFile c') = files (fst s) (configFile c') \<and> (\<not> isl r \<longrightarrow> c' \<notin> set (c # cs) \<or> map_of (rp_files p) c' = None) \<or>
            (\<exists>f. map_of (rp_files p) c' = Some f \<and> files (fst s') (configFile c') = Some (rf_data f))"
          using h c' own others [OF c'] Some by (cases "c' = c") (auto simp: putResult_def)
      qed
    qed
  qed
qed

lemma readPoints_facts:
  "readPoints em names s = (r, s') \<Longrightarrow> fst s' = fst s \<and> (\<forall>ps p. r = Inr ps \<longrightarrow> p \<in> set ps \<longrightarrow>
     rp_differs p = differsIn (rp_files p) (currentFile em (fst s)))"
proof (induction names arbitrary: s s' r)
  case (Cons name names)
  show ?case
  proof (cases "readSnapshotFiles em (joinPath (snapshotDir (em_applier em)) name) (fst s)")
    case (Inl e)
    with Cons.prems have "readPoints em names (fst s, snd s @ [Unreadable (TrimSuffix name ''.tar.gz'') e]) = (r, s')"
      by (simp add: bindR_def em_say_def Let_def)
    from Cons.IH [OF this] show ?thesis by simp
  next
    case (Inr fs)
    obtain q u where q: "readPoints em names s = (q, u)" by (rule prod.exhaust)
    from Cons.IH [OF q] q Cons.prems Inr show ?thesis by (cases q) (auto simp: bindR_def retR_def Let_def)
  qed
qed simp

lemma points_facts:
  assumes "points em s = (r, s')"
  shows "fst s' = fst s" and "r = Inr ps \<Longrightarrow> p \<in> set ps \<Longrightarrow> rp_differs p = differsIn (rp_files p) (currentFile em (fst s))"
  using assms readPoints_facts [of "pointNames x" for x] by (auto simp: points_def split: sum.splits if_splits)

lemma currentFile_files: "currentFile em w c = files w (configFile c)"
proof (cases "os_ReadFile (em_os em) (configFile c) w")
  case (FileData d)
  then have "files w (configFile c) = Some d" using read_data by simp
  with FileData show ?thesis by (simp add: currentFile_def configFile_def applier)
next
  case FileMissing
  then have "files w (configFile c) = None" using read_data by (metis not_Some_eq read_result.distinct(1,2))
  with FileMissing show ?thesis by (simp add: currentFile_def configFile_def applier)
next
  case (ReadError e)
  then have "files w (configFile c) = None" using read_data by (metis not_Some_eq read_result.distinct)
  with ReadError show ?thesis by (simp add: currentFile_def configFile_def applier)
qed

lemma restoreFrom_result:
  assumes "restoreFrom em force p s = (r, s')" "set (rp_differs p) \<subseteq> set writtenConfigs"
  shows "\<exists>w1 w2 ok. calm (fst s) w1 \<and> putResult p (rp_differs p) w1 w2 ok \<and> calm w2 (fst s') \<and> (\<not> isl r \<longrightarrow> ok)"
proof (cases "rp_differs p = []")
  case True
  with assms(1) have "fst s' = fst s" by (auto simp: restoreFrom_def em_say_def)
  with True calm_refl show ?thesis by (intro exI [of _ "fst s"] exI [of _ True]) (auto simp: putResult_def)
next
  case False
  let ?s0 = "(fst s, snd s @ [Restoring (rp_differs p) (rp_id p) (rp_taken p)])"
  let ?after = "\<lambda>undo. bindR (if force then dropPending em else retR ()) (\<lambda>_. tellServices em undo)"
  obtain u s1 where u: "keepCurrent em ?s0 = (Inr u, s1)" using keepCurrent_ok by blast
  obtain s2 where d: "dropDraft em s1 = (Inr (), s2)" using dropDraft_ok by blast
  obtain q s3 where q: "putBack em p (rp_differs p) s2 = (q, s3)" by (rule prod.exhaust)
  have "calm (fst s) (fst s1)" "calm (fst s1) (fst s2)"
    using calmly_parts(1,2) u d unfolding calmly_def by (metis fst_conv snd_conv)+
  then have c: "calm (fst s) (fst s2)" by (rule calm_trans)
  have a: "calmly (?after u)" using calmly_parts calmly_simple by (auto intro!: calmly_bind)
  have r: "(r, s') = (case q of Inl e \<Rightarrow> (Inl e, s3) | Inr _ \<Rightarrow> ?after u s3)"
    using assms(1) False u d q by (simp add: restoreFrom_def bindR_def em_say_def split: sum.splits)
  have "calm (fst s3) (fst (snd (?after u s3)))" using a unfolding calmly_def by blast
  then have "calm (fst s3) (fst s')" using r [symmetric] calm_refl by (cases q) auto
  moreover have "\<not> isl r \<longrightarrow> \<not> isl q" using r by (cases q) auto
  ultimately show ?thesis using c putBack_result [OF q assms(2)] by blast
qed

lemma differsIn_subset: "set (differsIn fs cur) \<subseteq> set writtenConfigs"
  by (auto simp: differsIn_def)

text \<open>What the command leaves of the files: \<open>q\<close> is the point it took, if any.\<close>

definition restoreResult :: "restore_point option \<Rightarrow> 'w \<Rightarrow> 'w \<Rightarrow> bool \<Rightarrow> bool" where
  "restoreResult q w w' ok \<longleftrightarrow>
     (\<forall>c \<in> set writtenConfigs. files w' (configFile c) = files w (configFile c) \<or>
        (\<exists>p f. q = Some p \<and> map_of (rp_files p) c = Some f \<and> files w' (configFile c) = Some (rf_data f))) \<and>
     (\<forall>g. inConfig g \<and> g \<notin> ownFiles \<longrightarrow> files w' g = files w g) \<and>
     (\<forall>p c f. q = Some p \<and> ok \<and> c \<in> set writtenConfigs \<and> map_of (rp_files p) c = Some f \<longrightarrow> files w' (configFile c) = Some (rf_data f))"

lemma calm_result: "calm w w' \<Longrightarrow> q = None \<or> \<not> ok \<Longrightarrow> restoreResult q w w' ok"
  using calm_config by (auto simp: restoreResult_def calm_def)

lemma put_result:
  assumes "calm w w1" "putResult p (rp_differs p) w1 w2 ok" "calm w2 w'" "rp_differs p = differsIn (rp_files p) (currentFile em w)" "ok' \<longrightarrow> ok"
  shows "restoreResult (Some p) w w' ok'"
proof -
  have f: "files w1 (configFile c) = files w (configFile c)" "files w' (configFile c) = files w2 (configFile c)" for c
    using assms(1,3) calm_config by blast+
  have g: "files w' g = files w g" if "inConfig g" "g \<notin> ownFiles" for g
    using assms(1-3) that by (simp add: calm_def putResult_def)
  have now: "files w (configFile c) = Some (rf_data x)"
    if "c \<in> set writtenConfigs" "c \<notin> set (rp_differs p)" "map_of (rp_files p) c = Some x" for c x
    using that assms(4) by (simp add: differsIn_def currentFile_files)
  show ?thesis unfolding restoreResult_def
  proof (intro conjI ballI allI impI)
    show "inConfig g \<and> g \<notin> ownFiles \<Longrightarrow> files w' g = files w g" for g using g by blast
    fix c
    assume c: "c \<in> set writtenConfigs"
    show "files w' (configFile c) = files w (configFile c) \<or>
        (\<exists>p' x. Some p = Some p' \<and> map_of (rp_files p') c = Some x \<and> files w' (configFile c) = Some (rf_data x))"
      using assms(2) c f by (auto simp: putResult_def)
  next
    fix p' c x
    assume a: "Some p = Some p' \<and> ok' \<and> c \<in> set writtenConfigs \<and> map_of (rp_files p') c = Some x"
    show "files w' (configFile c) = Some (rf_data x)"
      using assms(2,5) a f now [of c x] by (cases "c \<in> set (rp_differs p)") (auto simp: putResult_def)
  qed
qed

lemma checkPending_calm: "checkPending em force s = (r, s') \<Longrightarrow> fst s' = fst s"
  by (auto simp: checkPending_def journal_Load_def em_say_def bindR_def failR_def split: read_result.splits sum.splits option.splits if_splits)

lemma restore_result:
  assumes "restore em opts s = (r, s')"
    and "q = (if op_List opts then None else case fst (points em s) of Inl e \<Rightarrow> None | Inr ps \<Rightarrow> choosePoint (op_Point opts) ps)"
  shows "restoreResult q (fst s) (fst s') (r = Inr ())"
proof -
  obtain x u where x: "points em s = (x, u)" by (rule prod.exhaust)
  note u = points_facts [OF x]
  show ?thesis
  proof (cases x)
    case (Inl e)
    with x assms u(1) show ?thesis by (intro calm_result) (auto simp: restore_def bindR_def calm_refl split: if_splits)
  next
    case (Inr ps)
    show ?thesis
    proof (cases "op_List opts")
      case True
      with x Inr assms u(1) show ?thesis by (intro calm_result) (auto simp: restore_def bindR_def listPoints_def calm_refl)
    next
      case False
      obtain y v where y: "checkPending em (op_Force opts) u = (y, v)" by (rule prod.exhaust)
      have v: "fst v = fst s" using checkPending_calm [OF y] u(1) by simp
      have q: "q = choosePoint (op_Point opts) ps" using assms(2) x Inr False by simp
      show ?thesis
      proof (cases y)
        case e: (Inl e)
        with x Inr False assms(1) y v show ?thesis by (intro calm_result) (auto simp: restore_def bindR_def calm_refl)
      next
        case y': (Inr y')
        show ?thesis
        proof (cases q)
          case None
          with x Inr False assms(1) y y' v q show ?thesis
            by (intro calm_result) (auto simp: restore_def bindR_def listPoints_def em_say_def calm_refl split: if_splits)
        next
          case (Some p)
          have cp: "choosePoint (op_Point opts) ps = Some p" using q Some by simp
          have "restoreFrom em (op_Force opts) p v = (r, s')" using x Inr False assms(1) y y' cp by (simp add: restore_def bindR_def)
          moreover have "p \<in> set ps" using cp by (auto simp: choosePoint_def dest: find_in split: if_splits)
          then have d: "rp_differs p = differsIn (rp_files p) (currentFile em (fst s))" using u(2) Inr by blast
          ultimately obtain w1 w2 ok where "calm (fst s) w1" "putResult p (rp_differs p) w1 w2 ok" "calm w2 (fst s')" "\<not> isl r \<longrightarrow> ok"
            using restoreFrom_result [of "op_Force opts" p v r s'] differsIn_subset v by metis
          from put_result [OF this(1-3) d] this(4) Some show ?thesis by auto
        qed
      qed
    qed
  qed
qed

end

section \<open>The command puts a point back\<close>

text \<open>
  C30. The emergency command puts a restore point back, whole files at a time, and touches nothing else of the configuration. However it ends, each of
  the three files is as it was or is exactly the chosen point's, and no other file of the configuration but the one being written beside its target
  has changed; where it ends without an error, every file of the chosen point holds what the point holds. Listing, a refusal and a point not found
  change none of them.
\<close>

theorem emergency_restores_point:
  assumes "restore_files em files" and "EmergencyRestore em opts w = (r, (w', out))"
    and "q = (if op_List opts then None else case fst (points em (w, [])) of Inl e \<Rightarrow> None | Inr ps \<Rightarrow> choosePoint (op_Point opts) ps)"
  shows "(\<forall>c \<in> set writtenConfigs. files w' (configFile c) = files w (configFile c) \<or>
        (\<exists>p f. q = Some p \<and> map_of (rp_files p) c = Some f \<and> files w' (configFile c) = Some (rf_data f))) \<and>
    (\<forall>g. inConfig g \<and> g \<notin> ownFiles \<longrightarrow> files w' g = files w g) \<and>
    (\<forall>p c f. q = Some p \<and> r = Inr () \<and> c \<in> set writtenConfigs \<and> map_of (rp_files p) c = Some f \<longrightarrow>
        files w' (configFile c) = Some (rf_data f))"
  using restore_files.restore_result [OF assms(1) assms(2) [unfolded EmergencyRestore_def] assms(3)]
  unfolding restore_files.restoreResult_def [OF assms(1)] fst_conv .

section \<open>On the reference system\<close>

definition ref_untar :: "string \<Rightarrow> tar_member list result" where
  "ref_untar p =
     (case p of [] \<Rightarrow> Inl (Failed ''gzip'')
      | c # cf \<Rightarrow> Inr (map (\<lambda>(n, d). \<lparr>tm_Name = ''config/'' @ n, tm_Reg = True, tm_Mode = 420, tm_Data = d\<rparr>) (zip writtenConfigs (Split cf CHR '';''))))"

definition ref_em :: "ref_world emergency" where
  "ref_em = newEmergency ref_os ref_untar (\<lambda>f m w. (None, w)) (\<lambda>i. None) (\<lambda>e. False)"

lemma ref_run_files: "ref_run name args w = (x, w') \<Longrightarrow> ref_file w' = ref_file w"
  by (auto simp: ref_run_def split: if_splits list.splits option.splits)

interpretation re: restore_files ref_em ref_file
proof
  have os: "em_os ref_em = ref_os" by (simp add: ref_em_def newEmergency_def Let_def)
  show "em_applier ref_em = newUCIApplier" "em_configDir ref_em = ''/etc/config''"
    by (simp_all add: ref_em_def newEmergency_def Let_def newUCIApplier_paths joinPath_def)
  fix f g d name args x y q m and w w' :: ref_world
  show "os_ReadFile (em_os ref_em) f w = FileData d \<longleftrightarrow> ref_file w f = Some d" by (simp add: os ref_os_def split: option.split)
  show "os_WriteFile (em_os ref_em) f d w = (y, w') \<Longrightarrow> (y = None \<longrightarrow> ref_file w' f = Some d) \<and> (\<forall>g. g \<noteq> f \<longrightarrow> ref_file w' g = ref_file w g)"
    by (auto simp: os ref_os_def ref_write_def) (auto simp: ref_file_def)
  show "em_Chmod ref_em f m w = (y, w') \<Longrightarrow> ref_file w' = ref_file w" by (simp add: ref_em_def newEmergency_def Let_def)
  show "os_Rename (em_os ref_em) f g w = (y, w') \<Longrightarrow>
      ref_file w' g = (if y = None then ref_file w f else ref_file w g) \<and> (\<forall>h. h \<noteq> f \<longrightarrow> h \<noteq> g \<longrightarrow> ref_file w' h = ref_file w h)"
    by (auto simp: os ref_os_def ref_rename_def delete_conv' split: option.splits if_splits) (auto simp: ref_file_def)
  show "os_Remove (em_os ref_em) f w = (q, w') \<Longrightarrow> g \<noteq> f \<Longrightarrow> ref_file w' g = ref_file w g"
    by (auto simp: os ref_os_def ref_remove_def split: if_splits) (auto simp: ref_file_def)
  show "os_MkdirAll (em_os ref_em) f w = (y, w') \<Longrightarrow> ref_file w' = ref_file w" by (simp add: os ref_os_def)
  show "os_run (em_os ref_em) name args w = (x, w') \<Longrightarrow> ref_file w' g = ref_file w g"
    using ref_run_files [of name args w] by (simp add: os ref_os_def)
qed

definition plain_options :: restore_options where "plain_options = \<lparr>op_List = False, op_Point = [], op_Force = False\<rparr>"

definition kept_points :: "string list \<Rightarrow> string \<Rightarrow> (string \<times> string) list" where
  "kept_points ids payload = map (\<lambda>n. (''/etc/veilbridge/snapshots/uci-'' @ n @ ''.tar.gz'', payload)) ids"

definition demo_stuck :: ref_world where
  "demo_stuck = \<lparr>rw_conf = ''b'', rw_staged = None, rw_files = (''/etc/config/network'', ''b'') # kept_points [''21''] ''Ta'', rw_clock = 30\<rparr>"

lemma demo_restored:
  "case EmergencyRestore ref_em plain_options demo_stuck of
     (Inr u, (w', out)) \<Rightarrow> out = [Restoring [''network''] ''uci-21'' None, FileRestored ''network'', AllDone, UndoWith ''uci-31''] | _ \<Rightarrow> False"
  by code_simp

lemma demo_point:
  "case fst (points ref_em (demo_stuck, [])) of Inl e \<Rightarrow> False
   | Inr ps \<Rightarrow> (case choosePoint [] ps of None \<Rightarrow> False | Some p \<Rightarrow> map_of (rp_files p) ''network'' = Some \<lparr>rf_data = ''a'', rf_mode = 420\<rparr>)"
  by code_simp

theorem emergency_restores_point_witness:
  "\<exists>w' out. EmergencyRestore ref_em plain_options demo_stuck = (Inr (), (w', out)) \<and> ref_file w' (configFile ''network'') = Some ''a''"
proof -
  obtain w' out where e: "EmergencyRestore ref_em plain_options demo_stuck = (Inr (), (w', out))"
    using demo_restored by (auto split: prod.splits sum.splits)
  obtain ps p where ps: "fst (points ref_em (demo_stuck, [])) = Inr ps" "choosePoint [] ps = Some p"
    and f: "map_of (rp_files p) ''network'' = Some \<lparr>rf_data = ''a'', rf_mode = 420\<rparr>"
    using demo_point by (auto split: sum.splits option.splits)
  have "''network'' \<in> set writtenConfigs" by (simp add: writtenConfigs_def)
  with emergency_restores_point [OF re.restore_files_axioms e refl] ps f e show ?thesis by (auto simp: plain_options_def)
qed

text \<open>
  The point to undo with is promised from what \<open>Snapshot\<close> answers, which is not what is on the disk: with the clock behind, as before the time
  is known after a start, it is pruned as soon as it is written.
\<close>

definition demo_behind :: ref_world where
  "demo_behind = clock_behind\<lparr>rw_files := (''/etc/config/network'', ''a'') # rw_files clock_behind\<rparr>"

lemma undo_promised_not_kept:
  "case EmergencyRestore ref_em plain_options demo_behind of
     (Inr u, (w', out)) \<Rightarrow> UndoWith ''uci-17'' \<in> set out \<and> ref_file w' (snapshotPath newUCIApplier ''uci-17'') = None
   | _ \<Rightarrow> False"
  by code_simp

text \<open>
  A file that came after the newest older point: the point differs by it alone, is chosen, and restores nothing; it is chosen every time, and the
  older points are never reached.
\<close>

definition demo_newer_file :: ref_world where
  "demo_newer_file = \<lparr>rw_conf = ''b;x'', rw_staged = None,
     rw_files = [(''/etc/config/network'', ''b''), (''/etc/config/dhcp'', ''x'')] @ kept_points [''22''] ''Tb'' @ kept_points [''21''] ''Ta'', rw_clock = 30\<rparr>"

lemma missing_file_chosen_for_ever:
  "case EmergencyRestore ref_em plain_options demo_newer_file of
     (Inr u, (w', out)) \<Rightarrow> out = [Restoring [''dhcp''] ''uci-22'' None, NotInPoint ''dhcp'', AllDone, UndoWith ''uci-31''] \<and>
       (case EmergencyRestore ref_em plain_options w' of
          (Inr v, (w2, out2)) \<Rightarrow> Restoring [''dhcp''] ''uci-22'' None \<in> set out2 \<and> ref_file w2 (configFile ''network'') = Some ''b''
        | _ \<Rightarrow> False)
   | _ \<Rightarrow> False"
  by code_simp

end
