(* ===== verification/Route_Draft.thy ===== *)
theory Route_Draft
  imports Routes Sections
begin

text \<open>
  A static route from the request to what the draft then shows: an interface to the entries of a file in the program \<open>uci\<close>, what a batch of its
  \<open>set\<close> and \<open>delete\<close> lines makes of one entry, and the staged route (\<^verbatim>\<open>StageStaticRoute\<close> of
  \<^verbatim>\<open>internal/adapters/openwrt/routes_write.go\<close>) read back beside every other route.
\<close>

section \<open>The entries of a file\<close>

text \<open>An entry goes by its name, or by its kind and place; a new one by the name \<open>uci add\<close> answers.\<close>

definition entryName :: "string \<Rightarrow> bool" where "entryName i \<longleftrightarrow> sectionName i \<or> anonSection i"

definition oneLine :: "uci_section \<Rightarrow> bool" where
  "oneLine s \<longleftrightarrow> (\<forall>(k, v) \<in> set (sec_options s). newline \<notin> set v)"

definition tidy :: "uci_section \<Rightarrow> bool" where
  "tidy s \<longleftrightarrow> (\<forall>(k, v) \<in> set (sec_options s). bare v \<and> TrimSpace v = v)"

definition sopts :: "uci_section \<Rightarrow> string \<Rightarrow> string option" where "sopts s = map_of (sec_options s)"

definition setOpt :: "string \<Rightarrow> string \<Rightarrow> uci_section \<Rightarrow> uci_section" where
  "setOpt k v s = s\<lparr>sec_options := AList.update k v (sec_options s)\<rparr>"

definition delOpt :: "string \<Rightarrow> uci_section \<Rightarrow> uci_section" where
  "delOpt k s = s\<lparr>sec_options := AList.delete k (sec_options s)\<rparr>"

definition onEntry :: "nat \<Rightarrow> (uci_section \<Rightarrow> uci_section) \<Rightarrow> uci_section list \<Rightarrow> uci_section list" where
  "onEntry j f secs = secs[j := f (secs ! j)]"

text \<open>
  What is relied on of \<^verbatim>\<open>uci\<close>: the draft of a file is a list of entries, \<open>at\<close> says which one a name means. \<open>show\<close> prints every entry, one with a
  value of one line each as itself but for values with a quote in them; \<open>get\<close>, \<open>set\<close> and \<open>delete\<close> read, write and remove one option of
  one entry, \<open>add\<close> appends one with no options and answers a name for it. Reading what is committed, through a link, leaves the draft alone.
\<close>

locale uci_entries =
  fixes run :: "'w runner" and fs :: "'w link_fs" and secs :: "'w \<Rightarrow> string \<Rightarrow> uci_section list"
    and at :: "'w \<Rightarrow> string \<Rightarrow> string \<Rightarrow> nat option" and printed :: "uci_section \<Rightarrow> uci_section"
  assumes show_value: "run ''uci'' [''-q'', ''show'', c] w = (Inr out, w') \<Longrightarrow> \<forall>s \<in> set (secs w c). oneLine s \<Longrightarrow>
      parseUCISections out = map printed (secs w c) \<and> distinct (map sec_id (secs w c)) \<and> [] \<notin> sec_id ` set (secs w c)"
    and show_frame: "run ''uci'' [''-q'', ''show'', c] w = (x, w') \<Longrightarrow> secs w' = secs w \<and> at w' = at w"
    and shown_head: "sec_id (printed s) = sec_id s \<and> sec_kind (printed s) = sec_kind s"
    and shown_absent: "sopts s k = None \<Longrightarrow> sopts (printed s) k = None"
    and shown_bare: "sopts s k = Some v \<Longrightarrow> bare v \<Longrightarrow> sopts (printed s) k = Some v"
    and at_shown: "run ''uci'' [''-q'', ''show'', c] w = (Inr out, w') \<Longrightarrow> j < length (secs w c) \<Longrightarrow> at w c (sec_id (secs w c ! j)) = Some j"
    and at_range: "at w c i = Some j \<Longrightarrow> j < length (secs w c)"
    and get_frame: "run ''uci'' [''-q'', ''get'', k] w = (x, w') \<Longrightarrow> secs w' = secs w \<and> at w' = at w"
    and get_value: "plainName c \<Longrightarrow> entryName i \<Longrightarrow> plainName k \<Longrightarrow> at w c i = Some j \<Longrightarrow>
      run ''uci'' [''-q'', ''get'', stageKey c i k] w = (Inr out, w') \<Longrightarrow> \<exists>v. sopts (secs w c ! j) k = Some v \<and> TrimSpace out = TrimSpace v"
    and get_absent: "plainName c \<Longrightarrow> entryName i \<Longrightarrow> plainName k \<Longrightarrow> at w c i = Some j \<Longrightarrow>
      run ''uci'' [''-q'', ''get'', stageKey c i k] w = (Inl e, w') \<Longrightarrow> sopts (secs w c ! j) k = None"
    and set_option: "plainName c \<Longrightarrow> entryName i \<Longrightarrow> plainName k \<Longrightarrow> bare v \<Longrightarrow> v \<noteq> [] \<Longrightarrow> at w c i = Some j \<Longrightarrow>
      run ''uci'' [''set'', stageKey c i k @ ''='' @ v] w = (Inr out, w') \<Longrightarrow>
      secs w' = (secs w)(c := onEntry j (setOpt k v) (secs w c)) \<and> at w' = at w"
    and delete_option: "plainName c \<Longrightarrow> entryName i \<Longrightarrow> plainName k \<Longrightarrow> at w c i = Some j \<Longrightarrow>
      run ''uci'' [''delete'', stageKey c i k] w = (Inr out, w') \<Longrightarrow>
      secs w' = (secs w)(c := onEntry j (delOpt k) (secs w c)) \<and> at w' = at w"
    and add_entry: "plainName c \<Longrightarrow> plainName t \<Longrightarrow> run ''uci'' [''add'', c, t] w = (Inr out, w') \<Longrightarrow>
      \<exists>i. secs w' = (secs w)(c := secs w c @ [\<lparr>sec_id = i, sec_kind = t, sec_options = []\<rparr>]) \<and> at w' c (TrimSpace out) = Some (length (secs w c))"
    and committed_frame: "run ''uci'' [''-q'', ''-c'', d, ''show'', a] w = (x, w') \<Longrightarrow> secs w' = secs w \<and> at w' = at w"
    and mkdir_frame: "MkdirTemp fs p w = (y, w') \<Longrightarrow> secs w' = secs w \<and> at w' = at w"
    and symlink_frame: "Symlink fs a b w = (z, w') \<Longrightarrow> secs w' = secs w \<and> at w' = at w"
    and remove_frame: "secs (RemoveAll fs d w) = secs w \<and> at (RemoveAll fs d w) = at w"

text \<open>What one setting, and a batch, makes of an entry.\<close>

definition stagedOption :: "setting \<Rightarrow> uci_section \<Rightarrow> uci_section" where
  "stagedOption s e =
     (if isNoop s (TrimSpace (the_default [] (sopts e (s_key s)))) then e
      else if s_remove s then delOpt (s_key s) e else setOpt (s_key s) (s_value s) e)"

definition plainSetting :: "setting \<Rightarrow> bool" where
  "plainSetting s \<longleftrightarrow> plainName (s_key s) \<and> (s_remove s \<or> bare (s_value s) \<and> s_value s \<noteq> [])"

lemma onEntry_simps [simp]:
  "length (onEntry j f es) = length es" "j < length es \<Longrightarrow> onEntry j f es ! j = f (es ! j)"
  "j < length es \<Longrightarrow> onEntry j f (onEntry j g es) = onEntry j (\<lambda>e. f (g e)) es"
  "onEntry j (\<lambda>e. e) es = es" "onEntry j id es = es"
  by (simp_all add: onEntry_def)

lemma sopts_simps [simp]:
  "sopts (setOpt k v s) = (sopts s)(k \<mapsto> v)" "sopts (delOpt k s) = (sopts s)(k := None)"
  by (simp_all add: sopts_def setOpt_def delOpt_def update_conv' delete_conv')

lemma opt_head [simp]:
  "sec_id (setOpt k v s) = sec_id s" "sec_kind (setOpt k v s) = sec_kind s" "sec_id (delOpt k s) = sec_id s" "sec_kind (delOpt k s) = sec_kind s"
  by (simp_all add: setOpt_def delOpt_def)

lemma stagedOption_head [simp]: "sec_id (stagedOption s e) = sec_id e" "sec_kind (stagedOption s e) = sec_kind e"
  by (simp_all add: stagedOption_def)

lemma staged_head [simp]: "sec_id (fold stagedOption ss e) = sec_id e" "sec_kind (fold stagedOption ss e) = sec_kind e"
  by (induction ss arbitrary: e) simp_all

lemma stagedOption_value:
  "sopts (stagedOption s e) k =
     (if k = s_key s \<and> \<not> isNoop s (TrimSpace (the_default [] (sopts e k))) then if s_remove s then None else Some (s_value s) else sopts e k)"
  by (auto simp: stagedOption_def)

lemma staged_other: "k \<notin> s_key ` set ss \<Longrightarrow> sopts (fold stagedOption ss e) k = sopts e k"
  by (induction ss arbitrary: e) (auto simp: stagedOption_value)

lemma staged_value:
  assumes "s \<in> set ss" "distinct (map s_key ss)"
  shows "sopts (fold stagedOption ss e) (s_key s) =
    (if isNoop s (TrimSpace (the_default [] (sopts e (s_key s)))) then sopts e (s_key s) else if s_remove s then None else Some (s_value s))"
  using assms
proof (induction ss arbitrary: e)
  case (Cons t ss)
  show ?case
  proof (cases "s = t")
    case True
    with Cons.prems have "s_key s \<notin> s_key ` set ss" by auto
    then show ?thesis using True staged_other [of "s_key s" ss] by (simp add: stagedOption_value)
  next
    case False
    then have m: "s \<in> set ss" using Cons.prems(1) by simp
    then have "s_key s \<noteq> s_key t" using Cons.prems(2) by (metis distinct.simps(2) image_eqI list.simps(9) set_map)
    with m Cons.IH [of "stagedOption t e"] Cons.prems(2) show ?thesis by (simp add: stagedOption_value)
  qed
qed simp

lemma staged_set:
  assumes "s \<in> set ss" "distinct (map s_key ss)" "tidy e" "\<not> s_remove s" "s_value s \<noteq> []"
  shows "sopts (fold stagedOption ss e) (s_key s) = Some (s_value s)"
proof -
  have "TrimSpace v = v" if "sopts e (s_key s) = Some v" for v
    using that assms(3) by (force simp: tidy_def sopts_def dest: map_of_SomeD)
  then show ?thesis unfolding staged_value [OF assms(1,2)] using assms(4,5)
    by (cases "sopts e (s_key s)") (auto simp: isNoop_def the_default_def TrimSpace_Nil)
qed

lemma staged_removed:
  assumes "s \<in> set ss" "distinct (map s_key ss)" "tidy e" "s_remove s"
  shows "the_default [] (sopts (fold stagedOption ss e) (s_key s)) = [] \<or>
    s_sameAsAbsent s \<noteq> [] \<and> sopts e (s_key s) = Some (s_sameAsAbsent s) \<and> sopts (fold stagedOption ss e) (s_key s) = Some (s_sameAsAbsent s)"
proof -
  have "TrimSpace v = v" if "sopts e (s_key s) = Some v" for v
    using that assms(3) by (force simp: tidy_def sopts_def dest: map_of_SomeD)
  then show ?thesis unfolding staged_value [OF assms(1,2)] using assms(4)
    by (cases "sopts e (s_key s)") (auto simp: isNoop_def the_default_def TrimSpace_Nil)
qed

lemma oget_sopts: "oget (sec_options e) k = the_default [] (sopts e k)"
  by (simp add: oget_def sopts_def)

section \<open>The settings of a route\<close>

lemma case_Inr: "(case o' of None \<Rightarrow> Inl e | Some p \<Rightarrow> Inr p) = Inr q \<longleftrightarrow> o' = Some q"
  by (cases o') auto

lemma StageStaticRoute_parts:
  assumes "StageStaticRoute (Some run) fs ifaces le files cfg w = (Inr changes, w')" "sc_Enabled cfg"
  obtains p gateway out w1 current iface w2 sect w3 ch where
    "parseRouteTarget (sc_Target cfg) = Some p" "parseGateway (sc_Gateway cfg) = Inr gateway"
    "run ''uci'' [''-q'', ''show'', ''network''] w = (Inr out, w1)" "currentRoute (TrimSpace (sc_ID cfg)) (fst (parseRouteSections out)) = Inr current"
    "routeInterfaceFor (TrimSpace (sc_Interface cfg)) gateway (routeInterfaces ifaces) = Inr iface"
    "routeClash run fs le files (TrimSpace (sc_ID cfg)) p (requestedMetric cfg (snd (parseRouteSections out)) iface) (fst (parseRouteSections out))
       (snd (parseRouteSections out)) (routeInterfaces ifaces) w1 = (Inr (), w2)"
    "(if TrimSpace (sc_ID cfg) = [] then addEntry run ''network'' ''route'' else retR (TrimSpace (sc_ID cfg))) w2 = (Inr sect, w3)"
    "stage run ''network'' sect (routeSettings cfg iface p gateway (TrimSpace (sc_Name cfg))
       (case current of None \<Rightarrow> False | Some r \<Rightarrow> rs_netmaskForm r)) w3 = (Inr ch, w')"
    "\<not> badName (TrimSpace (sc_Name cfg))" "0 \<le> sc_Metric cfg" "sc_Metric cfg \<le> 65535"
  using assms unfolding StageStaticRoute_def Let_def
  by (clarsimp simp: bindR_Inr split_beta liftR_def not_less case_Inr)

lemma ip4_bare: "bare (ip4_string a)" "bare (nat_digits n)"
proof -
  have d: "bare (nat_digits n)" for n
  proof -
    have "\<not> is_digit quote" "\<not> is_digit newline" by (simp_all add: is_digit_def)
    then show ?thesis using all_digits_nat_digits [of n] by (auto simp: bare_def all_digits_def list_all_iff)
  qed
  then show "bare (nat_digits n)" .
  have "bare (CHR ''.'' # v) = bare v" for v by (simp add: bare_def)
  with d show "bare (ip4_string a)" unfolding ip4_string_def octets4_def by simp
qed

lemma route_settings_plain:
  assumes "bare iface" "iface \<noteq> []" "parseRouteTarget t = Some p" "parseGateway g = Inr gateway" "\<not> badName name"
  shows "\<forall>s \<in> set (routeSettings cfg iface p gateway name form). plainSetting s" "distinct (map s_key (routeSettings cfg iface p gateway name form))"
proof -
  from parseRouteTarget_form [OF assms(3)] obtain a n where p: "p = \<lparr>pfx_addr = V4 (network4 n a), pfx_bits = n\<rparr>" "n \<le> 32" by blast
  have g: "\<exists>a. gateway = Some (V4 a)" if "gateway \<noteq> None"
    using assms(4) that by (auto simp: parseGateway_def split: if_splits option.splits addr.splits)
  have keys: "plainName ''interface''" "plainName ''target''" "plainName ''netmask''" "plainName ''gateway''" "plainName ''metric''" "plainName ''name''" "plainName ''disabled''"
    by (simp_all add: plainName_def word_char_def)
  have n: "bare name" using assms(5) by (auto simp: badName_def ContainsAny_def list_ex_iff bare_def)
  have c: "bare (CHR ''/'' # v) = bare v" "bare (CHR ''-'' # v) = bare v" for v by (simp_all add: bare_def)
  have one: "bare ''1''" by (simp add: bare_def)
  have v: "bare (prefix_String p)" "bare (addr_String (pfx_addr p))" "bare (netmaskOf (pfx_bits p))" "bare (Itoa (sc_Metric cfg))"
    "prefix_String p \<noteq> []" "addr_String (pfx_addr p) \<noteq> []" "netmaskOf (pfx_bits p) \<noteq> []" "Itoa (sc_Metric cfg) \<noteq> []"
    using p ip4_bare c by (simp_all add: prefix_String_def netmaskOf_masks ip4_string_ends Itoa_def)
  show "\<forall>s \<in> set (routeSettings cfg iface p gateway name form). plainSetting s"
    using g assms(1,2) keys n one v ip4_bare ip4_string_ends(3)
    by (auto simp: routeSettings_def routeSetting_def removeSetting_def setting0_def plainSetting_def split: option.split)
  show "distinct (map s_key (routeSettings cfg iface p gateway name form))"
    by (simp add: routeSettings_def routeSetting_def removeSetting_def setting0_def split: option.split)
qed

lemma setting_sel [simp]:
  "s_key (routeSetting k v) = k" "s_value (routeSetting k v) = v" "s_remove (routeSetting k v) = False"
  "s_key (removeSetting k a) = k" "s_remove (removeSetting k a) = True" "s_sameAsAbsent (removeSetting k a) = a"
  by (simp_all add: routeSetting_def removeSetting_def setting0_def)

lemma oneLine_iff: "oneLine s \<longleftrightarrow> (\<forall>k v. (k, v) \<in> set (sec_options s) \<longrightarrow> newline \<notin> set v)"
  by (auto simp: oneLine_def)

lemma staged_oneLine: "\<forall>s \<in> set ss. plainSetting s \<Longrightarrow> oneLine e \<Longrightarrow> oneLine (fold stagedOption ss e)"
proof (induction ss arbitrary: e)
  case (Cons s ss)
  have "oneLine (stagedOption s e)" using Cons.prems set_update [of "s_key s" "s_value s" "sec_options e"]
    by (auto simp: AList.delete_eq stagedOption_def oneLine_iff setOpt_def delOpt_def plainSetting_def bare_def)
  with Cons show ?case by simp
qed simp

lemma filter_onEntry:
  assumes "j < length es" "\<not> P (g (f (es ! j)))" "\<not> P (g (es ! j))"
  shows "filter P (map g (onEntry j f es)) = filter P (map g es)"
proof -
  have "es = take j es @ es ! j # drop (Suc j) es" using assms(1) by (rule id_take_nth_drop)
  then have "filter P (map g es) = filter P (map g (take j es @ es ! j # drop (Suc j) es))" by (rule arg_cong)
  also have "\<dots> = filter P (map g (take j es)) @ filter P (map g (drop (Suc j) es))"
    using assms(3) by (simp only: map_append list.map filter_append filter.simps if_False)
  finally have "filter P (map g es) = filter P (map g (take j es)) @ filter P (map g (drop (Suc j) es))" .
  then show ?thesis using assms(1,2) by (simp add: onEntry_def upd_conv_take_nth_drop)
qed

lemma rs_head [simp]: "rs_id (routeSectionOf s) = sec_id s" "rs_family (routeSectionOf s) = (if sec_kind s = ''route6'' then ''ipv6'' else ''ipv4'')"
  by (simp_all add: routeSectionOf_def Let_def split_beta)

lemma lastWhere_in: "lastWhere P xs = Some x \<Longrightarrow> x \<in> set xs \<and> P x"
  using find_in [of P "rev xs"] by (simp add: lastWhere_def)

context uci_entries
begin

lemma shown_value: "the_default [] (sopts e k) = v \<Longrightarrow> bare v \<Longrightarrow> oget (sec_options (printed e)) k = v"
  using shown_absent [of e k] shown_bare [of e k v] by (cases "sopts e k") (auto simp: oget_sopts the_default_def)

lemma addEntry_new:
  assumes "addEntry run c t w = (Inr i, w')" "plainName c" "plainName t"
  shows "\<exists>n. secs w' = (secs w)(c := secs w c @ [\<lparr>sec_id = n, sec_kind = t, sec_options = []\<rparr>]) \<and> at w' c i = Some (length (secs w c)) \<and> entryName i"
proof -
  from assms(1) obtain out where r: "run ''uci'' [''add'', c, t] w = (Inr out, w')" and i: "i = TrimSpace out" "sectionName i"
    by (auto simp: addEntry_def Let_def split: prod.splits sum.splits if_splits)
  from add_entry [OF assms(2,3) r] i show ?thesis by (auto simp: entryName_def)
qed

lemma get_before:
  assumes "uciGet run (stageKey c i k) w = (v, w')" "plainName c" "entryName i" "plainName k" "at w c i = Some j"
  shows "v = TrimSpace (the_default [] (sopts (secs w c ! j) k)) \<and> secs w' = secs w \<and> at w' = at w"
  using assms get_value [OF assms(2-5)] get_absent [OF assms(2-5)] get_frame
  by (fastforce simp: uciGet_def the_default_def TrimSpace_Nil split: prod.splits sum.splits)

lemma write_effect:
  assumes "writeSetting run s (stageKey c i (s_key s)) w = (None, w')" "plainSetting s" "plainName c" "entryName i" "at w c i = Some j"
    and "\<not> isNoop s (TrimSpace (the_default [] (sopts (secs w c ! j) (s_key s))))"
  shows "secs w' = (secs w)(c := onEntry j (stagedOption s) (secs w c)) \<and> at w' = at w"
proof -
  have e: "onEntry j (stagedOption s) (secs w c) = onEntry j (if s_remove s then delOpt (s_key s) else setOpt (s_key s) (s_value s)) (secs w c)"
    using assms(6) by (simp add: onEntry_def stagedOption_def)
  have k: "plainName (s_key s)" using assms(2) by (simp add: plainSetting_def)
  show ?thesis
  proof (cases "s_remove s")
    case True
    with assms(1) obtain out where "run ''uci'' [''delete'', stageKey c i (s_key s)] w = (Inr out, w')"
      by (auto simp: writeSetting_def uciDelete_def split: prod.splits sum.splits)
    from delete_option [OF assms(3,4) k assms(5) this] True show ?thesis unfolding e by simp
  next
    case False
    with assms(1) obtain out where "run ''uci'' [''set'', stageKey c i (s_key s) @ ''='' @ s_value s] w = (Inr out, w')"
      by (auto simp: writeSetting_def uciSet_def split: prod.splits sum.splits)
    from set_option [OF assms(3,4) k _ _ assms(5) this] False assms(2) show ?thesis unfolding e by (simp add: plainSetting_def)
  qed
qed

lemma stageSets_entry:
  assumes "stageSets run c i ss ch w = (Inr changes, w')" "\<forall>s \<in> set ss. plainSetting s" "plainName c" "entryName i" "at w c i = Some j"
  shows "secs w' = (secs w)(c := onEntry j (fold stagedOption ss) (secs w c)) \<and> at w' = at w"
  using assms(1,2,5)
proof (induction ss arbitrary: ch w)
  case (Cons s ss)
  obtain v w1 where g: "uciGet run (stageKey c i (s_key s)) w = (v, w1)" by (rule prod.exhaust)
  have k: "plainName (s_key s)" using Cons.prems(2) by (simp add: plainSetting_def)
  note g' = get_before [OF g assms(3,4) k Cons.prems(3)]
  have r: "j < length (secs w c)" using at_range [OF Cons.prems(3)] .
  show ?case
  proof (cases "isNoop s v")
    case True
    then have "onEntry j (stagedOption s) (secs w c) = secs w c" using g' r by (simp add: onEntry_def stagedOption_def list_update_id)
    moreover have "onEntry j (fold stagedOption (s # ss)) (secs w c) = onEntry j (fold stagedOption ss) (onEntry j (stagedOption s) (secs w c))"
      using r by (simp add: onEntry_def)
    then have "onEntry j (fold stagedOption (s # ss)) (secs w c) = onEntry j (fold stagedOption ss) (secs w c)"
      using calculation by simp
    ultimately show ?thesis using Cons.IH [of ch w1] Cons.prems g g' True by (simp add: comp_def)
  next
    case False
    obtain e w2 where w: "writeSetting run s (stageKey c i (s_key s)) w1 = (e, w2)" by (rule prod.exhaust)
    from Cons.prems(1) g w False have e: "e = None" by (auto split: option.splits)
    have "secs w2 = (secs w1)(c := onEntry j (stagedOption s) (secs w1 c)) \<and> at w2 = at w1"
      using write_effect [OF w [unfolded e] _ assms(3,4)] Cons.prems(2,3) g' False by simp
    moreover have "onEntry j (fold stagedOption (s # ss)) (secs w c) = onEntry j (fold stagedOption ss) (onEntry j (stagedOption s) (secs w c))"
      using r by (simp add: onEntry_def)
    ultimately show ?thesis using Cons.IH [of _ w2] Cons.prems g g' w e False by (auto simp: comp_def fun_eq_iff)
  qed
qed simp

lemma route_clash_keeps: "routeClash run fs le files i p m sections ms is w = (Inr x, w') \<Longrightarrow> secs w' = secs w \<and> at w' = at w"
proof -
  have "secs w2 = secs w1 \<and> at w2 = at w1" if "ownSections run fs i w1 = (y, w2)" for y w1 w2
  proof -
    have c: "secs v2 = secs v1 \<and> at v2 = at v1"
      if "bindR (run ''uci'' [''-q'', ''-c'', d, ''show'', a]) (\<lambda>out. retR (fst (parseRouteSections out))) v1 = (z, v2)" for d a z v1 v2
      using that committed_frame [of d a v1] by (auto simp: bindR_def retR_def split: prod.splits sum.splits)
    have "secs v2 = secs v1 \<and> at v2 = at v1" if "committedRouteSections run fs v1 = (z, v2)" for z v1 v2
    proof -
      obtain d u1 where m: "MkdirTemp fs ''veilbridge-committed-'' v1 = (d, u1)" by (rule prod.exhaust)
      show ?thesis
      proof (cases d)
        case (Inl e) with that m mkdir_frame [OF m] show ?thesis
          by (auto simp: committedRouteSections_def withCommitted_def Let_def split: if_splits)
      next
        case (Inr dir)
        obtain r u2 where l: "bindR (Symlink fs (joinPath (if ConfigDir fs = [] then ''/etc/config'' else ConfigDir fs) ''network'') (joinPath dir (committedPrefix @ ''network'')))
          (\<lambda>_. bindR (run ''uci'' [''-q'', ''-c'', dir, ''show'', committedPrefix @ ''network'']) (\<lambda>out. retR (fst (parseRouteSections out)))) u1 = (r, u2)"
          by (rule prod.exhaust)
        have "secs u2 = secs u1 \<and> at u2 = at u1"
          using l symlink_frame c by (auto simp: bindR_def [of "Symlink fs _ _"] split: prod.splits sum.splits)
        with that m l Inr mkdir_frame [OF m] remove_frame show ?thesis
          by (auto simp: committedRouteSections_def withCommitted_def Let_def split: if_splits)
      qed
    qed
    with that show ?thesis by (auto simp: ownSections_def split: if_splits prod.splits sum.splits)
  qed
  then show "routeClash run fs le files i p m sections ms is w = (Inr x, w') \<Longrightarrow> secs w' = secs w \<and> at w' = at w"
    by (auto simp: routeClash_def bindR_Inr pureR_def split: prod.splits)
qed

text \<open>What a route's entry reads as after the batch.\<close>

lemma route_entry_read_back:
  assumes e: "tidy e" "sec_kind e = ''route''" "sc_Metric cfg = 0 \<Longrightarrow> sopts e ''metric'' \<noteq> Some ''0''"
    and c: "bare iface" "iface \<noteq> []" "parseRouteTarget t = Some p" "parseGateway g = Inr gateway" "\<not> badName name"
      "sc_Enabled cfg" "0 \<le> sc_Metric cfg" "sc_Metric cfg \<le> 65535"
    and r: "r = routeSectionOf (printed (fold stagedOption (routeSettings cfg iface p gateway name form) e))"
  shows "rs_id r = sec_id e \<and> rs_family r = ''ipv4'' \<and> rs_prefix r = Some p \<and> \<not> rs_disabled r \<and> rs_gateway r = gateway \<and> rs_iface r = iface \<and>
    rs_metric r = sc_Metric cfg \<and> rs_hasMetric r = (sc_Metric cfg \<noteq> 0)"
proof -
  let ?ss = "routeSettings cfg iface p gateway name form"
  let ?e = "fold stagedOption ?ss e"
  note plain = route_settings_plain(1) [OF c(1-5), of cfg form]
  note d = route_settings_plain(2) [OF c(1-5), of cfg form]
  have bares: "bare (s_value s)" "s_value s \<noteq> []" if "s \<in> set ?ss" "\<not> s_remove s" for s using plain that by (auto simp: plainSetting_def)
  have put: "oget (sec_options (printed ?e)) k = v" if "routeSetting k v \<in> set ?ss" for k v
    using staged_set [OF that d e(1)] bares [OF that] by (intro shown_value) (simp_all add: the_default_def)
  have gone: "oget (sec_options (printed ?e)) k = [] \<or> a \<noteq> [] \<and> sopts e k = Some a \<and> oget (sec_options (printed ?e)) k = a" if "removeSetting k a \<in> set ?ss" "bare a" for k a
    using staged_removed [OF that(1) d e(1)] that(2) shown_value [of ?e k "[]"] shown_value [of ?e k a] by (auto simp: the_default_def)
  have iface: "oget (sec_options (printed ?e)) ''interface'' = iface" by (rule put) (simp add: routeSettings_def)
  have target: "fst (routeTarget (oget (sec_options (printed ?e)) ''target'') (oget (sec_options (printed ?e)) ''netmask'') ''ipv4'') = Some p"
  proof (cases form)
    case True
    have "oget (sec_options (printed ?e)) ''target'' = addr_String (pfx_addr p)" by (rule put) (simp add: routeSettings_def True)
    moreover have "oget (sec_options (printed ?e)) ''netmask'' = netmaskOf (pfx_bits p)" by (rule put) (simp add: routeSettings_def True)
    ultimately show ?thesis using staged_target_reads_back [OF c(3)] by simp
  next
    case False
    have "oget (sec_options (printed ?e)) ''target'' = prefix_String p" by (rule put) (simp add: routeSettings_def False)
    moreover have "oget (sec_options (printed ?e)) ''netmask'' = []" using gone [of "''netmask''" "[]"] by (simp add: routeSettings_def False)
    ultimately show ?thesis using staged_target_reads_back [OF c(3)] by simp
  qed
  have gw: "ParseAddr (oget (sec_options (printed ?e)) ''gateway'') = gateway"
  proof (cases gateway)
    case None
    then have "oget (sec_options (printed ?e)) ''gateway'' = []" using gone [of "''gateway''" "[]"] by (simp add: routeSettings_def)
    with None show ?thesis by (simp add: ParseAddr_def)
  next
    case (Some x)
    then have "oget (sec_options (printed ?e)) ''gateway'' = addr_String x" by (intro put) (simp add: routeSettings_def)
    moreover obtain a where "x = V4 a" using c(4) Some by (auto simp: parseGateway_def split: if_splits option.splits addr.splits)
    ultimately show ?thesis using Some by (simp add: ParseAddr_ip4)
  qed
  have zero: "bare ''0''" by (simp add: bare_def)
  have metric: "Atoi (oget (sec_options (printed ?e)) ''metric'') = (if sc_Metric cfg = 0 then None else Some (sc_Metric cfg))"
  proof (cases "sc_Metric cfg = 0")
    case True
    then have "oget (sec_options (printed ?e)) ''metric'' = []" using gone [of "''metric''" "''0''"] e(3) zero by (auto simp: routeSettings_def)
    with True show ?thesis by (simp add: Atoi_def Let_def all_digits_def)
  next
    case False
    then have "oget (sec_options (printed ?e)) ''metric'' = Itoa (sc_Metric cfg)" by (intro put) (simp add: routeSettings_def)
    with False c(7,8) show ?thesis by (simp add: Atoi_Itoa)
  qed
  have on: "oget (sec_options (printed ?e)) ''disabled'' \<noteq> ''1''" using gone [of "''disabled''" "''0''"] c(6) zero by (auto simp: routeSettings_def)
  show ?thesis using e(2) iface target gw metric on shown_head [of ?e] unfolding r
    by (simp add: routeSectionOf_def Let_def split_beta the_default_def)
qed

text \<open>The entry the settings go to: the one asked for, or a new one at the end.\<close>

lemma staged_entry:
  assumes "\<forall>s \<in> set es. oneLine s \<and> (sec_id s = i \<longrightarrow> tidy s \<and> M s)" "M \<lparr>sec_id = n0, sec_kind = ''route'', sec_options = []\<rparr>"
    and "secs w2 ''network'' = es" "\<And>j. j < length es \<Longrightarrow> at w2 ''network'' (sec_id (es ! j)) = Some j"
    and "currentRoute i (map routeSectionOf (filter (\<lambda>s. sec_kind s = ''route'' \<or> sec_kind s = ''route6'') (map printed es))) = Inr current"
    and "(if i = [] then addEntry run ''network'' ''route'' else retR i) w2 = (Inr sect, w3)"
    and M: "\<And>s n. M s = M (s\<lparr>sec_id := n\<rparr>)"
  shows "\<exists>j e0 es3. secs w3 ''network'' = es3 \<and> at w3 ''network'' sect = Some j \<and> j < length es3 \<and> es3 ! j = e0 \<and> entryName sect \<and> tidy e0 \<and> M e0 \<and>
    sec_kind e0 = ''route'' \<and> (i \<noteq> [] \<longrightarrow> sec_id e0 = i) \<and> set es3 \<subseteq> insert e0 (set es) \<and> (\<forall>s \<in> set es3. oneLine s) \<and>
    filter (\<lambda>s. sec_kind s = ''interface'') (map printed es3) = filter (\<lambda>s. sec_kind s = ''interface'') (map printed es)"
proof (cases "i = []")
  case True
  have k: "plainName ''network''" "plainName ''route''" by (simp_all add: plainName_def word_char_def)
  from addEntry_new [OF _ k, of w2 sect w3] assms(6) True obtain n where a: "secs w3 = (secs w2)(''network'' := secs w2 ''network'' @ [\<lparr>sec_id = n, sec_kind = ''route'', sec_options = []\<rparr>])"
    "at w3 ''network'' sect = Some (length (secs w2 ''network''))" "entryName sect" by auto
  let ?e = "\<lparr>sec_id = n, sec_kind = ''route'', sec_options = []\<rparr>"
  have "M ?e" using assms(2) M [of "\<lparr>sec_id = n0, sec_kind = ''route'', sec_options = []\<rparr>" n] by simp
  then show ?thesis using a True assms(1,3) shown_head [of ?e]
    by (intro exI [of _ "length es"] exI [of _ ?e] exI [of _ "es @ [?e]"]) (auto simp: tidy_def oneLine_def)
next
  case False
  let ?rs = "map routeSectionOf (filter (\<lambda>s. sec_kind s = ''route'' \<or> sec_kind s = ''route6'') (map printed es))"
  from False assms(5) obtain r where f: "lastWhere (\<lambda>r. rs_id r = i) ?rs = Some r" "rs_family r = ''ipv4''" and en: "entryName i"
    by (auto simp: currentRoute_def entryName_def simp del: set_map split: if_splits option.splits)
  then have r: "r \<in> set ?rs" "rs_id r = i" "rs_family r = ''ipv4''" "entryName i" using lastWhere_in [OF f(1)] by simp_all
  then obtain s where s: "s \<in> set es" "sec_kind (printed s) = ''route'' \<or> sec_kind (printed s) = ''route6''" "r = routeSectionOf (printed s)"
    by (auto simp del: rs_head)
  then have h: "sec_id s = i" "sec_kind s = ''route''" using r(2,3) shown_head [of s] by (auto split: if_splits)
  from s(1) obtain j where j: "j < length es" "es ! j = s" by (auto simp: in_set_conv_nth)
  from False assms(6) have "sect = i" "w3 = w2" by (auto simp: retR_def)
  then show ?thesis using assms(1,3,4) j h r(4) False s(1)
    by (intro exI [of _ j] exI [of _ s] exI [of _ es]) auto
qed

lemma staged_route_alone:
  assumes st: "StageStaticRoute (Some run) fs ifaces le files cfg w = (Inr changes, w')" "sc_Enabled cfg"
    and names: "\<forall>i \<in> set (routeInterfaces ifaces). bare (ri_Name i) \<and> ri_Name i \<noteq> []"
    and here: "\<forall>s \<in> set (secs w ''network''). oneLine s \<and>
      (sec_id s = TrimSpace (sc_ID cfg) \<longrightarrow> tidy s \<and> (sc_Metric cfg = 0 \<longrightarrow> sopts s ''metric'' \<noteq> Some ''0''))"
    and after: "run ''uci'' [''-q'', ''show'', ''network''] w' = (Inr out', w4)" "parseRouteSections out' = (sections, ms)"
  shows "\<exists>nw \<in> set sections. (TrimSpace (sc_ID cfg) \<noteq> [] \<longrightarrow> rs_id nw = TrimSpace (sc_ID cfg)) \<and>
    rs_prefix nw \<noteq> None \<and> rs_prefix nw = parseRouteTarget (sc_Target cfg) \<and> parseGateway (sc_Gateway cfg) = Inr (rs_gateway nw) \<and>
    routeInterfaceFor (TrimSpace (sc_Interface cfg)) (rs_gateway nw) (routeInterfaces ifaces) = Inr (rs_iface nw) \<and>
    rs_metric nw = sc_Metric cfg \<and> \<not> rs_disabled nw \<and>
    (\<forall>r \<in> set sections. rs_id r \<noteq> rs_id nw \<and> \<not> rs_disabled r \<and> rs_family r = ''ipv4'' \<longrightarrow> (\<forall>k d d'. \<not> (matches nw k d ms \<and> matches r k d' ms)))"
proof -
  let ?i = "TrimSpace (sc_ID cfg)" and ?es = "secs w ''network''"
  define routes where "routes = filter (\<lambda>s :: uci_section. sec_kind s = ''route'' \<or> sec_kind s = ''route6'')"
  define M where "M s = (sc_Metric cfg = 0 \<longrightarrow> sopts s ''metric'' \<noteq> Some ''0'')" for s :: uci_section
  obtain p gateway out w1 current iface w2 sect w3 ch where g:
    "parseRouteTarget (sc_Target cfg) = Some p" "parseGateway (sc_Gateway cfg) = Inr gateway"
    "run ''uci'' [''-q'', ''show'', ''network''] w = (Inr out, w1)" "currentRoute ?i (fst (parseRouteSections out)) = Inr current"
    "routeInterfaceFor (TrimSpace (sc_Interface cfg)) gateway (routeInterfaces ifaces) = Inr iface"
    "routeClash run fs le files ?i p (requestedMetric cfg (snd (parseRouteSections out)) iface) (fst (parseRouteSections out))
       (snd (parseRouteSections out)) (routeInterfaces ifaces) w1 = (Inr (), w2)"
    "(if ?i = [] then addEntry run ''network'' ''route'' else retR ?i) w2 = (Inr sect, w3)"
    "stage run ''network'' sect (routeSettings cfg iface p gateway (TrimSpace (sc_Name cfg))
       (case current of None \<Rightarrow> False | Some r \<Rightarrow> rs_netmaskForm r)) w3 = (Inr ch, w')"
    "\<not> badName (TrimSpace (sc_Name cfg))" "0 \<le> sc_Metric cfg" "sc_Metric cfg \<le> 65535"
    using StageStaticRoute_parts [OF st] by metis
  let ?ss = "routeSettings cfg iface p gateway (TrimSpace (sc_Name cfg)) (case current of None \<Rightarrow> False | Some r \<Rightarrow> rs_netmaskForm r)"
  have pout: "parseUCISections out = map printed ?es" "[] \<notin> sec_id ` set ?es" using show_value [OF g(3)] here by auto
  then have old: "parseRouteSections out = (map routeSectionOf (routes (map printed ?es)), ifaceMetrics (map printed ?es))"
    by (simp add: parseRouteSections_def routes_def)
  have w2: "secs w2 = secs w" "at w2 = at w" using route_clash_keeps [OF g(6)] show_frame [OF g(3)] by simp_all
  have iface: "bare iface" "iface \<noteq> []" using g(5) names
    by (auto simp: routeInterfaceFor_def split: if_splits option.splits dest!: lastWhere_in find_in)
  note plain = route_settings_plain [OF iface g(1,2,9)]
  have "M \<lparr>sec_id = [], sec_kind = ''route'', sec_options = []\<rparr>" "\<And>s n. M s = M (s\<lparr>sec_id := n\<rparr>)" by (simp_all add: M_def sopts_def)
  from staged_entry [of ?es ?i M "[]", OF _ this(1) _ _ _ g(7) this(2)] here w2 at_shown [OF g(3)] g(4) old
  obtain j e0 es3 where e: "secs w3 ''network'' = es3" "at w3 ''network'' sect = Some j" "j < length es3" "es3 ! j = e0" "entryName sect" "tidy e0" "M e0"
    "sec_kind e0 = ''route''" "?i \<noteq> [] \<longrightarrow> sec_id e0 = ?i" "set es3 \<subseteq> insert e0 (set ?es)" "\<forall>s \<in> set es3. oneLine s"
    "filter (\<lambda>s. sec_kind s = ''interface'') (map printed es3) = filter (\<lambda>s. sec_kind s = ''interface'') (map printed ?es)"
    unfolding routes_def M_def by auto
  let ?f = "fold stagedOption ?ss"
  have net: "plainName ''network''" by (simp add: plainName_def word_char_def)
  from g(8) have "stageSets run ''network'' sect ?ss [] w3 = (Inr ch, w')" by (simp add: stage_def split: if_splits)
  from stageSets_entry [OF this plain(1) net e(5,2)] have w': "secs w' ''network'' = onEntry j ?f es3" using e(1) by simp
  have sub: "set (onEntry j ?f es3) \<subseteq> insert (?f e0) (set es3)" using e(4) by (auto simp: onEntry_def dest: set_update_subset_insert [THEN subsetD])
  have "\<forall>s \<in> set (secs w' ''network''). oneLine s" using w' sub e(3,4,11) staged_oneLine [OF plain(1)] by fastforce
  from show_value [OF after(1) this] w' have "parseUCISections out' = map printed (onEntry j ?f es3)" by simp
  then have new: "sections = map routeSectionOf (routes (map printed (onEntry j ?f es3)))" "ms = ifaceMetrics (map printed ?es)"
    using after(2) filter_onEntry [of j es3 "\<lambda>s. sec_kind s = ''interface''" printed ?f] e(3,4,8,12) shown_head
    by (simp_all add: parseRouteSections_def routes_def ifaceMetrics_def)
  define nw where "nw = routeSectionOf (printed (?f e0))"
  have nw: "rs_id nw = sec_id e0" "rs_family nw = ''ipv4''" "rs_prefix nw = Some p" "\<not> rs_disabled nw" "rs_gateway nw = gateway" "rs_iface nw = iface"
    "rs_metric nw = sc_Metric cfg" "rs_hasMetric nw = (sc_Metric cfg \<noteq> 0)"
    using route_entry_read_back [OF e(6,8) _ iface g(1,2,9) st(2) g(10,11) nw_def] e(7) by (auto simp: M_def)
  have "?f e0 \<in> set (onEntry j ?f es3)" using e(3,4) set_update_memI [of j es3 "?f e0"] by (simp add: onEntry_def)
  then have "nw \<in> set sections" using e(8) shown_head by (auto simp: new nw_def routes_def)
  moreover have "\<not> (matches nw k d ms \<and> matches r k d' ms)"
    if r: "r \<in> set sections" "rs_id r \<noteq> rs_id nw" "\<not> rs_disabled r" "rs_family r = ''ipv4''" for r k d d'
  proof -
    from r(1) obtain x where x: "x \<in> set (onEntry j ?f es3)" "sec_kind x = ''route'' \<or> sec_kind x = ''route6''" "r = routeSectionOf (printed x)"
      using shown_head by (auto simp: new routes_def simp del: rs_head)
    with r(2) nw(1) shown_head [of x] have "sec_id x \<noteq> sec_id e0" by simp
    then have "x \<in> set ?es" using x(1) sub e(10) by auto
    then have o': "r \<in> set (fst (parseRouteSections out))" using x shown_head [of x] by (auto simp: old routes_def simp del: rs_head)
    have "rs_id r \<noteq> ?i" using x \<open>x \<in> set ?es\<close> \<open>sec_id x \<noteq> sec_id e0\<close> shown_head [of x] pout(2) e(9) by (cases "?i = []") (force simp: image_iff)+
    moreover from routeClash_ok [OF g(6)] o' have "\<not> claimed ?i p (requestedMetric cfg ms iface) ms r" unfolding old new(2) fst_conv snd_conv by blast
    moreover have "effectiveMetric nw ms = requestedMetric cfg ms iface" using nw by (simp add: effectiveMetric_def requestedMetric_def)
    ultimately show ?thesis using r nw(3) by (auto simp: claimed_def matches_def)
  qed
  ultimately show ?thesis using nw g e(9) by (intro bexI [of _ nw]) auto
qed

end

section \<open>A reference for the contract\<close>

definition entryAt :: "draft_world \<Rightarrow> string \<Rightarrow> string \<Rightarrow> nat option" where
  "entryAt w c i = indexOf (\<lambda>s. sec_id s = i) (w c)"

definition ref_option :: "string \<Rightarrow> draft_world \<Rightarrow> (string \<times> nat \<times> string) option" where
  "ref_option key w =
     (case SplitN 3 key CHR ''.'' of [c, i, k] \<Rightarrow> map_option (\<lambda>j. (c, j, k)) (entryAt w c i) | _ \<Rightarrow> None)"

text \<open>The name of a new section: longer than every name there is.\<close>

definition freshEntry :: "uci_section list \<Rightarrow> string" where
  "freshEntry secs = replicate (Suc (Max (insert 0 (set (map (length \<circ> sec_id) secs))))) CHR ''n''"

definition ref_entries :: "draft_world runner" where
  "ref_entries name args w =
     (if name \<noteq> ''uci'' then (Inr [], w)
      else case args of
        [q, verb, c] \<Rightarrow>
          (if q = ''-q'' \<and> verb = ''show'' \<and> plainName c \<and> wellFormed (w c) then (Inr (printSections c (w c)), w)
           else if q = ''-q'' \<and> verb = ''get'' then
             (case ref_option c w of None \<Rightarrow> (Inl (Failed ''uci''), w)
              | Some (f, j, k) \<Rightarrow> (case sopts (w f ! j) k of None \<Rightarrow> (Inl (Failed ''uci''), w) | Some v \<Rightarrow> (Inr (v @ [newline]), w)))
           else if q = ''add'' then
             (let i = freshEntry (w verb) in (Inr (i @ [newline]), w(verb := w verb @ [\<lparr>sec_id = i, sec_kind = c, sec_options = []\<rparr>])))
           else (Inl (Failed ''uci''), w))
      | [verb, x] \<Rightarrow>
          (if verb = ''set'' then
             (case Cut x CHR ''='' of None \<Rightarrow> (Inl (Failed ''uci''), w)
              | Some (key, v) \<Rightarrow> (case ref_option key w of None \<Rightarrow> (Inl (Failed ''uci''), w)
                  | Some (f, j, k) \<Rightarrow> (Inr [], w(f := onEntry j (setOpt k v) (w f)))))
           else if verb = ''delete'' then
             (case ref_option x w of None \<Rightarrow> (Inl (Failed ''uci''), w) | Some (f, j, k) \<Rightarrow> (Inr [], w(f := onEntry j (delOpt k) (w f))))
           else (Inl (Failed ''uci''), w))
      | _ \<Rightarrow> (Inl (Failed ''uci''), w))"

definition ref_links :: "draft_world link_fs" where
  "ref_links = \<lparr>MkdirTemp = (\<lambda>p w. (Inr ''/tmp/x'', w)), Symlink = (\<lambda>a b w. (Inr (), w)), RemoveAll = (\<lambda>d w. w), ConfigDir = []\<rparr>"

lemma indexOf_found: "indexOf P xs = Some j \<Longrightarrow> j < length xs \<and> P (xs ! j) \<and> (\<forall>m < j. \<not> P (xs ! m))"
  by (induction xs arbitrary: j) (auto split: if_splits simp: less_Suc_eq_0_disj)

lemma indexOf_this: "j < length xs \<Longrightarrow> P (xs ! j) \<Longrightarrow> \<forall>m < j. \<not> P (xs ! m) \<Longrightarrow> indexOf P xs = Some j"
proof (induction xs arbitrary: j)
  case (Cons x xs)
  show ?case
  proof (cases j)
    case 0 with Cons.prems show ?thesis by simp
  next
    case (Suc m)
    have "\<forall>i < m. \<not> P (xs ! i)" using Cons.prems(3) Suc by (auto dest: spec [of _ "Suc _"])
    moreover have "\<not> P x" using Cons.prems(3) Suc by (auto dest: spec [of _ 0])
    ultimately show ?thesis using Cons.IH [of m] Cons.prems Suc by simp
  qed
qed simp

lemma freshEntry_new: "i \<in> sec_id ` set secs \<Longrightarrow> i \<noteq> freshEntry secs"
proof
  assume i: "i \<in> sec_id ` set secs" "i = freshEntry secs"
  then have "length i \<in> insert 0 (set (map (length \<circ> sec_id) secs))" by auto
  then have "length i \<le> Max (insert 0 (set (map (length \<circ> sec_id) secs)))" by (intro Max_ge) simp_all
  with i(2) show False by (simp add: freshEntry_def)
qed

lemma entryName_chars: "entryName i \<Longrightarrow> CHR ''='' \<notin> set i \<and> CHR ''.'' \<notin> set i"
proof -
  have w: "\<not> word_char CHR ''=''" "\<not> word_char CHR ''.''" by (simp_all add: word_char_def)
  have d: "\<not> is_digit CHR ''=''" "\<not> is_digit CHR ''.''" by (simp_all add: is_digit_def)
  have n: "sectionName i \<Longrightarrow> CHR ''='' \<notin> set i \<and> CHR ''.'' \<notin> set i" for i using w by (auto simp: sectionName_def list_all_iff)
  have "CHR ''='' \<notin> set i \<and> CHR ''.'' \<notin> set i" if a: "anonSection i"
  proof -
    from a obtain a b where c: "Cut i CHR ''['' = Some (a, b)" "take 1 a = ''@''" "sectionName (drop 1 a)" "HasSuffix b '']''" "all_digits (butlast b)"
      by (auto simp: anonSection_def Let_def split: option.splits)
    have i: "i = a @ CHR ''['' # b" using c(1) by (simp add: Cut_Some)
    have "CHR ''='' \<notin> set a \<and> CHR ''.'' \<notin> set a" using n [OF c(3)] c(2) by (cases a) auto
    moreover obtain t where t: "b = t @ '']''" using c(4) by (auto simp: HasSuffix_iff)
    have "CHR ''='' \<notin> set b \<and> CHR ''.'' \<notin> set b" using d c(5) unfolding t by (auto simp: all_digits_def list_all_iff)
    ultimately show ?thesis unfolding i by auto
  qed
  with n show "entryName i \<Longrightarrow> ?thesis" by (auto simp: entryName_def)
qed

lemma entry_key:
  assumes "plainName c" "entryName i" "plainName k"
  shows "SplitN 3 (stageKey c i k) CHR ''.'' = [c, i, k]" "Cut (stageKey c i k @ ''='' @ v) CHR ''='' = Some (stageKey c i k, v)"
proof -
  have "Cut (c @ CHR ''.'' # i @ CHR ''.'' # k) CHR ''.'' = Some (c, i @ CHR ''.'' # k)" "Cut (i @ CHR ''.'' # k) CHR ''.'' = Some (i, k)" "Cut k CHR ''.'' = None"
    using plainName_chars [OF assms(1)] entryName_chars [OF assms(2)] plainName_chars [OF assms(3)] by (simp_all add: Cut_Some Cut_None)
  then show "SplitN 3 (stageKey c i k) CHR ''.'' = [c, i, k]" by (simp add: stageKey_def numeral_3_eq_3)
  show "Cut (stageKey c i k @ ''='' @ v) CHR ''='' = Some (stageKey c i k, v)"
    using plainName_chars [OF assms(1)] entryName_chars [OF assms(2)] plainName_chars [OF assms(3)] by (simp add: stageKey_def Cut_Some)
qed

lemma entryAt_distinct: "distinct (map sec_id (w c)) \<Longrightarrow> j < length (w c) \<Longrightarrow> entryAt w c (sec_id (w c ! j)) = Some j"
  unfolding entryAt_def by (rule indexOf_this) (auto simp: distinct_conv_nth)

lemma entryAt_kept: "map sec_id (v c) = map sec_id (w c) \<Longrightarrow> entryAt v c = entryAt w c"
proof (rule ext)
  fix i
  have "indexOf (\<lambda>s. sec_id s = i) xs = indexOf (\<lambda>n. n = i) (map sec_id xs)" for xs by (induction xs) auto
  note keys = this
  show "map sec_id (v c) = map sec_id (w c) \<Longrightarrow> entryAt v c i = entryAt w c i" by (simp only: entryAt_def keys)
qed

lemma entryAt_upd: "(\<And>s. sec_id (f s) = sec_id s) \<Longrightarrow> entryAt (w(c := onEntry j f (w c))) = entryAt w"
proof (rule ext)
  fix d
  assume "\<And>s. sec_id (f s) = sec_id s"
  then have "map sec_id (onEntry j f (w c)) = map sec_id (w c)"
    by (cases "j < length (w c)") (auto simp: onEntry_def nth_list_update list_update_beyond intro!: nth_equalityI [where 'a = string])
  then show "entryAt (w(c := onEntry j f (w c))) d = entryAt w d" by (intro entryAt_kept) simp
qed

interpretation re: uci_entries ref_entries ref_links "\<lambda>w. w" entryAt "\<lambda>s. s"
proof unfold_locales
  fix c i k t v out d a b p q x y z j and e :: error and w w' :: draft_world and s :: uci_section
  have nl: "TrimSpace (v @ [newline]) = TrimSpace v" for v by (rule TrimSpace_snoc_space) (simp add: is_space_def)
  show sh: "ref_entries ''uci'' [''-q'', ''show'', c] w = (x, w') \<Longrightarrow> w' = w \<and> entryAt w' = entryAt w" for x by (auto simp: ref_entries_def split: if_splits)
  show "ref_entries ''uci'' [''-q'', ''show'', c] w = (Inr out, w') \<Longrightarrow> \<forall>s \<in> set (w c). oneLine s \<Longrightarrow>
      parseUCISections out = map (\<lambda>s. s) (w c) \<and> distinct (map sec_id (w c)) \<and> [] \<notin> sec_id ` set (w c)"
    using printed_back [of c "w c"] by (auto simp: ref_entries_def wellFormed_def printable_def plainName_def list_all_iff split: if_splits)
  show "ref_entries ''uci'' [''-q'', ''show'', c] w = (Inr out, w') \<Longrightarrow> j < length (w c) \<Longrightarrow> entryAt w c (sec_id (w c ! j)) = Some j"
    by (rule entryAt_distinct) (auto simp: ref_entries_def wellFormed_def split: if_splits)
  show "entryAt w c i = Some j \<Longrightarrow> j < length (w c)" by (auto simp: entryAt_def dest: indexOf_found)
  show "ref_entries ''uci'' [''-q'', ''get'', k] w = (x, w') \<Longrightarrow> w' = w \<and> entryAt w' = entryAt w" for x
    by (auto simp: ref_entries_def split: option.splits prod.splits)
  show "sec_id s = sec_id s \<and> sec_kind s = sec_kind s" "sopts s k = None \<Longrightarrow> sopts s k = None" "sopts s k = Some v \<Longrightarrow> sopts s k = Some v" by simp_all
next
  fix c i k t v out and d a b p :: string and j and e :: error and w w' :: draft_world
  assume n: "plainName c" "entryName i" "plainName k"
  note key = entry_key [OF n]
  have nl: "TrimSpace (v @ [newline]) = TrimSpace v" for v by (rule TrimSpace_snoc_space) (simp add: is_space_def)
  assume at: "entryAt w c i = Some j"
  show "ref_entries ''uci'' [''-q'', ''get'', stageKey c i k] w = (Inr out, w') \<Longrightarrow> \<exists>v. sopts (w c ! j) k = Some v \<and> TrimSpace out = TrimSpace v"
    using key at nl by (auto simp: ref_entries_def ref_option_def split: option.splits)
  show "ref_entries ''uci'' [''-q'', ''get'', stageKey c i k] w = (Inl e, w') \<Longrightarrow> sopts (w c ! j) k = None"
    using key at by (auto simp: ref_entries_def ref_option_def split: option.splits)
  show "ref_entries ''uci'' [''delete'', stageKey c i k] w = (Inr out, w') \<Longrightarrow> w' = w(c := onEntry j (delOpt k) (w c)) \<and> entryAt w' = entryAt w"
    using key at entryAt_upd [of "delOpt k" w c j] by (auto simp: ref_entries_def ref_option_def)
  show "ref_entries ''uci'' [''set'', stageKey c i k @ ''='' @ v] w = (Inr out, w') \<Longrightarrow> w' = w(c := onEntry j (setOpt k v) (w c)) \<and> entryAt w' = entryAt w"
    using key at entryAt_upd [of "setOpt k v" w c j] by (auto simp: ref_entries_def ref_option_def)
next
  fix c t out and w w' :: draft_world
  let ?i = "freshEntry (w c)" and ?s = "\<lparr>sec_id = freshEntry (w c), sec_kind = t, sec_options = []\<rparr>"
  assume "ref_entries ''uci'' [''add'', c, t] w = (Inr out, w')"
  then have o': "out = ?i @ [newline]" "w' = w(c := w c @ [?s])" by (auto simp: ref_entries_def Let_def)
  have "TrimSpace (?i @ [newline]) = TrimSpace ?i" by (rule TrimSpace_snoc_space) (simp add: is_space_def)
  also have "\<dots> = ?i" by (rule TrimSpace_id) (simp_all add: freshEntry_def is_space_def)
  finally have t: "TrimSpace out = ?i" using o' by simp
  have "entryAt w' c ?i = Some (length (w c))" unfolding entryAt_def o'
    by (rule indexOf_this) (use freshEntry_new [of _ "w c"] in \<open>auto simp: nth_append\<close>)
  then show "\<exists>i. w' = w(c := w c @ [\<lparr>sec_id = i, sec_kind = t, sec_options = []\<rparr>]) \<and> entryAt w' c (TrimSpace out) = Some (length (w c))"
    using o' t by (intro exI [of _ ?i]) simp
qed (auto simp: ref_entries_def ref_links_def)

section \<open>The staged route\<close>

text \<open>
  C32. A staged route is what the panel then reads, and has no rival. When a route is staged switched on, the draft shows a route with the
  network, gateway, connection and metric asked for, switched on: the entry that was edited, or a new one. And no other switched-on IPv4
  route of the draft can be the same kernel route: whatever the kernel holds, at most one of the two matches it, so removing one never takes
  the other's route away. Left out: an entry whose stored metric is 0 staged with no metric (\<open>stored_zero_metric_unchecked\<close>). Relied on: connections have
  plain names, no stored value has a line break, and those of the entry edited have no quotes and no blanks around them.
\<close>

theorem staged_route_has_no_rival:
  assumes "uci_entries run fs secs at printed" and "StageStaticRoute (Some run) fs ifaces le files cfg w = (Inr changes, w')" and "sc_Enabled cfg"
    and "\<forall>i \<in> set (routeInterfaces ifaces). bare (ri_Name i) \<and> ri_Name i \<noteq> []" and "\<forall>s \<in> set (secs w ''network''). oneLine s"
    and "\<forall>s \<in> set (secs w ''network''). sec_id s = TrimSpace (sc_ID cfg) \<longrightarrow> tidy s \<and> (sc_Metric cfg = 0 \<longrightarrow> sopts s ''metric'' \<noteq> Some ''0'')"
    and "run ''uci'' [''-q'', ''show'', ''network''] w' = (Inr out, w1)" and "parseRouteSections out = (sections, ms)"
  shows "\<exists>nw \<in> set sections. (TrimSpace (sc_ID cfg) \<noteq> [] \<longrightarrow> rs_id nw = TrimSpace (sc_ID cfg)) \<and>
    rs_prefix nw \<noteq> None \<and> rs_prefix nw = parseRouteTarget (sc_Target cfg) \<and> parseGateway (sc_Gateway cfg) = Inr (rs_gateway nw) \<and>
    routeInterfaceFor (TrimSpace (sc_Interface cfg)) (rs_gateway nw) (routeInterfaces ifaces) = Inr (rs_iface nw) \<and>
    rs_metric nw = sc_Metric cfg \<and> \<not> rs_disabled nw \<and>
    (\<forall>r \<in> set sections. rs_id r \<noteq> rs_id nw \<and> \<not> rs_disabled r \<and> rs_family r = ''ipv4'' \<longrightarrow> (\<forall>k d d'. \<not> (matches nw k d ms \<and> matches r k d' ms)))"
  by (rule uci_entries.staged_route_alone [OF assms(1-4) _ assms(7,8)]) (use assms(5,6) in auto)

definition demo_network :: draft_world where
  "demo_network = (\<lambda>c. if c = ''network'' then
     [\<lparr>sec_id = ''lan'', sec_kind = ''interface'', sec_options = [(''proto'', ''static'')]\<rparr>,
      \<lparr>sec_id = ''r1'', sec_kind = ''route'', sec_options = [(''interface'', ''lan''), (''target'', ''10.0.0.0/8'')]\<rparr>] else [])"

definition demo_drafted :: "config_change list result \<times> draft_world" where
  "demo_drafted = StageStaticRoute (Some ref_entries) ref_links (Inr [demo_lan]) True no_files demo_route demo_network"

definition demo_out :: string where "demo_out = projr (fst (ref_entries ''uci'' [''-q'', ''show'', ''network''] (snd demo_drafted)))"

lemma demo_drafted_ok:
  "\<not> isl (fst demo_drafted)" "TrimSpace (sc_ID demo_route) = []"
  "list_all (\<lambda>i. bare (ri_Name i) \<and> ri_Name i \<noteq> []) (routeInterfaces (Inr [demo_lan]))"
  "parseRouteTarget (sc_Target demo_route) = Some \<lparr>pfx_addr = V4 0x0A090000, pfx_bits = 16\<rparr>"
  by code_simp+

lemma demo_drafted_network: "snd demo_drafted ''network'' = demo_network ''network'' @ [\<lparr>sec_id = ''nnnn'', sec_kind = ''route'',
    sec_options = [(''interface'', ''lan''), (''target'', ''10.9.0.0/16''), (''gateway'', ''192.168.1.2'')]\<rparr>]"
  by code_simp

lemma demo_drafted_shown: "\<not> isl (fst (ref_entries ''uci'' [''-q'', ''show'', ''network''] (snd demo_drafted)))"
proof -
  have "wellFormed (snd demo_drafted ''network'')" unfolding demo_drafted_network
    by (simp add: demo_network_def wellFormed_def printable_def plainName_def plainWord_def word_char_def is_space_def bare_def)
  moreover have "plainName ''network''" by (simp add: plainName_def word_char_def)
  ultimately show ?thesis by (simp add: ref_entries_def)
qed

theorem staged_route_has_no_rival_witness:
  "\<exists>nw \<in> set (fst (parseRouteSections demo_out)). rs_prefix nw = Some \<lparr>pfx_addr = V4 0x0A090000, pfx_bits = 16\<rparr> \<and> \<not> rs_disabled nw"
proof -
  obtain changes w' where s: "StageStaticRoute (Some ref_entries) ref_links (Inr [demo_lan]) True no_files demo_route demo_network = (Inr changes, w')"
    using demo_drafted_ok(1) unfolding demo_drafted_def by (metis isl_def obj_sumE prod.collapse)
  then have w': "snd demo_drafted = w'" by (simp add: demo_drafted_def)
  then obtain w1 where sh: "ref_entries ''uci'' [''-q'', ''show'', ''network''] w' = (Inr demo_out, w1)"
    using demo_drafted_shown unfolding demo_out_def by (metis isl_def obj_sumE prod.collapse sum.sel(2))
  have e: "sc_Enabled demo_route" by (simp add: demo_route_def)
  have n: "\<forall>i \<in> set (routeInterfaces (Inr [demo_lan])). bare (ri_Name i) \<and> ri_Name i \<noteq> []" using demo_drafted_ok(3) by (simp add: list_all_iff)
  obtain sections ms where p: "parseRouteSections demo_out = (sections, ms)" by (rule prod.exhaust)
  have "\<exists>nw \<in> set sections. rs_prefix nw = Some \<lparr>pfx_addr = V4 0x0A090000, pfx_bits = 16\<rparr> \<and> \<not> rs_disabled nw"
    using staged_route_has_no_rival [OF re.uci_entries_axioms s e n _ _ sh p] demo_drafted_ok(2,4)
    by (fastforce simp: demo_network_def oneLine_def)
  with p show ?thesis by simp
qed

end
