(* ===== verification/Device_List.thy ===== *)
theory Device_List
  imports Device_Switch Vpn_Config
begin

unbundle bit_operations_syntax

text \<open>
  Who is on the network: \<^verbatim>\<open>ListDevices\<close> of \<^verbatim>\<open>internal/adapters/openwrt/devices.go\<close> with what it remembers, the counting of traffic in
  \<^verbatim>\<open>devices_traffic.go\<close>, waking in \<^verbatim>\<open>devices_wake.go\<close>, the router's clock (\<^verbatim>\<open>devices_schedule.go\<close>), and \<^verbatim>\<open>MarkHere\<close> and
  \<^verbatim>\<open>CleanDeviceName\<close> of \<^verbatim>\<open>internal/core/devices.go\<close>. Times are nanoseconds of the monotonic clock, \<open>None\<close> the zero time. A Go map is an
  association list, its order the order the map is walked in; where the walk decides which entry is dropped (\<^verbatim>\<open>any one\<close>), that choice is the
  parameter \<open>pick\<close>.
\<close>

definition LinkCable :: string where "LinkCable = ''cable''"
definition LinkWiFi :: string where "LinkWiFi = ''wifi''"

definition noLink :: device_link where "noLink = \<lparr>Kind = [], Band = [], SignalDBm = 0\<rparr>"

section \<open>What a look sees\<close>

record observation =
  ob_ips :: "string list"
  ob_reported :: string
  ob_reserved :: string
  ob_online :: bool
  ob_at :: "int option"
  ob_link :: device_link

definition noObservation :: observation where
  "noObservation = \<lparr>ob_ips = [], ob_reported = [], ob_reserved = [], ob_online = False, ob_at = None, ob_link = noLink\<rparr>"

type_synonym sightings = "(string \<times> observation) list"

definition sighting :: "sightings \<Rightarrow> string \<Rightarrow> observation" where
  "sighting obs mac = the_default noObservation (map_of obs mac)"

text \<open>The closure \<open>get\<close> and what its caller does with the answer.\<close>

definition sight :: "string \<Rightarrow> (observation \<Rightarrow> observation) \<Rightarrow> sightings \<Rightarrow> sightings" where
  "sight raw f obs = (case macOf raw of None \<Rightarrow> obs | Some mac \<Rightarrow> AList.update mac (f (sighting obs mac)) obs)"

definition later :: "int \<Rightarrow> observation \<Rightarrow> observation" where
  "later t ob = (case ob_at ob of None \<Rightarrow> ob\<lparr>ob_at := Some t\<rparr> | Some a \<Rightarrow> if t > a then ob\<lparr>ob_at := Some t\<rparr> else ob)"

definition seeLease :: "address_lease \<Rightarrow> sightings \<Rightarrow> sightings" where
  "seeLease l = sight (l_MAC l) (\<lambda>ob.
     let ob1 = (if l_Hostname l \<noteq> [] then ob\<lparr>ob_reported := l_Hostname l\<rparr> else ob)
     in if l_ExpiresSec l > 0 then ob1\<lparr>ob_ips := ob_ips ob1 @ [l_IP l]\<rparr> else ob1)"

definition seeReserved :: "reserved_address \<Rightarrow> sightings \<Rightarrow> sightings" where
  "seeReserved r = sight (ra_MAC r) (\<lambda>ob. ob\<lparr>ob_reserved := ra_IP r\<rparr>)"

definition seeClient :: "int \<Rightarrow> string \<Rightarrow> string \<times> int \<Rightarrow> sightings \<Rightarrow> sightings" where
  "seeClient now band c = sight (fst c) (\<lambda>ob. later now (ob\<lparr>ob_online := True, ob_link := \<lparr>Kind = LinkWiFi, Band = band, SignalDBm = snd c\<rparr>\<rparr>))"

definition seeAccessPoint :: "int \<Rightarrow> access_point \<Rightarrow> sightings \<Rightarrow> sightings" where
  "seeAccessPoint now ap = fold (seeClient now (ap_band ap)) (ap_clients ap)"

definition seeForwarded :: "int \<Rightarrow> fdb_entry \<Rightarrow> sightings \<Rightarrow> sightings" where
  "seeForwarded now e obs =
     (if fe_local e then obs
      else sight (fe_mac e) (\<lambda>ob0. let ob = later (now - fe_age e) ob0 in
        if Kind (ob_link ob) = LinkWiFi \<and> ob_online ob then ob
        else if fe_wifi e then ob\<lparr>ob_link := \<lparr>Kind = LinkWiFi, Band = fe_band e, SignalDBm = 0\<rparr>\<rparr>
        else ob\<lparr>ob_link := \<lparr>Kind = LinkCable, Band = [], SignalDBm = 0\<rparr>, ob_online := True\<rparr>) obs)"

record neighbour =
  nb_ip :: string
  nb_mac :: string
  nb_fresh :: bool

definition seeNeighbour :: "int \<Rightarrow> bool \<Rightarrow> neighbour \<Rightarrow> sightings \<Rightarrow> sightings" where
  "seeNeighbour now bridged n = sight (nb_mac n) (\<lambda>ob0.
     let ob = ob0\<lparr>ob_ips := ob_ips ob0 @ [nb_ip n]\<rparr> in
     if \<not> bridged \<and> nb_fresh n then
       (let ob1 = later now (ob\<lparr>ob_online := True\<rparr>) in
        if Kind (ob_link ob1) = [] then ob1\<lparr>ob_link := \<lparr>Kind = LinkCable, Band = [], SignalDBm = 0\<rparr>\<rparr> else ob1)
     else ob)"

definition keepListed :: "string \<Rightarrow> sightings \<Rightarrow> sightings" where "keepListed mac = sight mac (\<lambda>ob. ob)"

text \<open>The neighbour table: one message of the kernel.\<close>

definition ndMsgLen :: nat where "ndMsgLen = 12"

function neighAttrs :: "bool \<Rightarrow> 8 word list \<Rightarrow> 8 word list option \<times> 8 word list \<Rightarrow> 8 word list option \<times> 8 word list" where
  "neighAttrs le a (ip, mac) =
     (if length a < 4 then (ip, mac)
      else let l = nativeValue le (take 2 a); t = nativeValue le (take 2 (drop 2 a)); v = take (l - 4) (drop 4 a) in
        if l < 4 \<or> l > length a then (ip, mac)
        else neighAttrs le (drop (4 * ((l + 3) div 4)) a) (if t = 1 then (Some v, mac) else if t = 2 then (ip, v) else (ip, mac)))"
  by pat_completeness auto
termination by (relation "measure (\<lambda>(le, a, p). length a)") auto

declare neighAttrs.simps [simp del]

definition bytesNat :: "8 word list \<Rightarrow> nat" where "bytesNat bs = foldl (\<lambda>n b. 256 * n + unat b) 0 bs"

definition addrOfBytes :: "8 word list \<Rightarrow> addr option" where
  "addrOfBytes bs =
     (if length bs = 4 then Some (V4 (of_nat (bytesNat bs))) else if length bs = 16 then Some (V6 (of_nat (bytesNat bs)) []) else None)"

definition IsLinkLocalUnicast :: "addr \<Rightarrow> bool" where
  "IsLinkLocalUnicast a =
     (case To4 a of Some x \<Rightarrow> drop_bit 16 x = 0xA9FE | None \<Rightarrow> (case a of V4 x \<Rightarrow> False | V6 x z \<Rightarrow> drop_bit 118 x = 0x3FA))"

definition parseNeighMsg :: "bool \<Rightarrow> 8 word list \<Rightarrow> int \<Rightarrow> neighbour option" where
  "parseNeighMsg le b ifindex =
     (if length b < ndMsgLen then None
      else if sint (word_of_nat (nativeValue le (take 4 (drop 4 b))) :: 32 word) \<noteq> ifindex then None
      else let state = nativeValue le (take 2 (drop 8 b)); (ip, mac) = neighAttrs le (drop ndMsgLen b) (None, []) in
        case ip of None \<Rightarrow> None
        | Some bs \<Rightarrow> (case addrOfBytes bs of None \<Rightarrow> None
          | Some a \<Rightarrow>
              if length mac \<noteq> 6 \<or> IsLinkLocalUnicast a then None
              else let n = \<lparr>nb_ip = IP_String a, nb_mac = macString (map unat mac), nb_fresh = False\<rparr> in
                if state AND (0x02 OR 0x08 OR 0x10) \<noteq> 0 then Some (n\<lparr>nb_fresh := True\<rparr>)
                else if state AND (0x04 OR 0x80) \<noteq> 0 then Some n
                else None))"

definition sortIPs :: "string list \<Rightarrow> string list" where
  \<comment> \<open>a stable sort by \<^verbatim>\<open>IPv4 first\<close> and then by the text\<close>
  "sortIPs ips =
     (let out = remdups (map IP_String (List.map_filter ParseIP ips)) in
        sort (filter (\<lambda>s. ParseIP4 s \<noteq> None) out) @ sort (filter (\<lambda>s. ParseIP4 s = None) out))"

section \<open>What is remembered\<close>

record heard =
  hd_at :: int
  hd_link :: device_link

record device_memory =
  dm_started :: int
  dm_seen :: "(string \<times> heard) list"
  dm_owner :: "(string \<times> string) list"

definition maxRemembered :: nat where "maxRemembered = 2048"
definition maxAddrOwners :: nat where "maxAddrOwners = 8192"

text \<open>The entry longest unheard, the first of several.\<close>

fun oldestOf :: "(string \<times> heard) option \<Rightarrow> (string \<times> heard) list \<Rightarrow> (string \<times> heard) option" where
  "oldestOf best [] = best"
| "oldestOf best (x # xs) =
     oldestOf (case best of None \<Rightarrow> Some x | Some b \<Rightarrow> if hd_at (snd x) < hd_at (snd b) then Some x else Some b) xs"

definition remember :: "string \<Rightarrow> heard \<Rightarrow> (string \<times> heard) list \<Rightarrow> (string \<times> heard) list" where
  "remember mac h seen =
     AList.update mac h
       (if map_of seen mac = None \<and> length seen \<ge> maxRemembered
        then (case oldestOf None seen of None \<Rightarrow> seen | Some (k, v) \<Rightarrow> AList.delete k seen) else seen)"

definition rememberOwner :: "((string \<times> string) list \<Rightarrow> string) \<Rightarrow> string \<times> string \<Rightarrow> (string \<times> string) list \<Rightarrow> (string \<times> string) list" where
  "rememberOwner pick x owner =
     AList.update (fst x) (snd x)
       (if map_of owner (fst x) = None \<and> length owner \<ge> maxAddrOwners then AList.delete (pick owner) owner else owner)"

definition rememberOwners :: "((string \<times> string) list \<Rightarrow> string) \<Rightarrow> (string \<times> string) list \<Rightarrow> (string \<times> string) list \<Rightarrow> (string \<times> string) list" where
  "rememberOwners pick owners owner = fold (rememberOwner pick) owners owner"

definition ownersOf :: "sightings \<Rightarrow> (string \<times> string) list" where
  \<comment> \<open>the addresses of every device; of two devices with one address the later\<close>
  "ownersOf obs = fold (\<lambda>(mac, ob). fold (\<lambda>ip m. case ParseIP ip of None \<Rightarrow> m | Some a \<Rightarrow> AList.update (IP_String a) mac m) (ob_ips ob)) obs []"

section \<open>Counting\<close>

definition trafficTable :: string where "trafficTable = ''veilbridge_traffic''"
definition bootWindow :: int where "bootWindow = 300"

definition trafficRuleset :: "string \<Rightarrow> int \<Rightarrow> string" where
  "trafficRuleset lanDev uptime =
     (let q = [CHR 0x22]; tab = [CHR 0x09] in
      concat (map (\<lambda>l. l @ [newline])
        [''table inet '' @ trafficTable @ '' {'',
         tab @ ''comment '' @ q @ ''vb uptime='' @ Itoa uptime @ '' dev='' @ lanDev @ q,
         tab @ ''set up { type ether_addr; flags dynamic; counter; size 4096; }'',
         tab @ ''set down4 { type ipv4_addr; flags dynamic; counter; size 8192; }'',
         tab @ ''set down6 { type ipv6_addr; flags dynamic; counter; size 8192; }'',
         tab @ ''chain tally {'',
         tab @ tab @ ''type filter hook forward priority filter + 10; policy accept;'',
         tab @ tab @ ''iifname '' @ q @ lanDev @ q @ '' update @up { ether saddr }'',
         tab @ tab @ ''oifname '' @ q @ lanDev @ q @ '' meta nfproto ipv4 update @down4 { ip daddr }'',
         tab @ tab @ ''oifname '' @ q @ lanDev @ q @ '' meta nfproto ipv6 update @down6 { ip6 daddr }'',
         tab @ ''}'',
         ''}'']))"

text \<open>What \<^verbatim>\<open>nft -j\<close> lists, decoded: a table, or a set with its elements (the value when it is a string, and the bytes).\<close>

record nft_object =
  nf_table :: "(string \<times> string) option"
  nf_set :: "(string \<times> (string option \<times> int) list) option"

record traffic_read =
  tr_up :: "(string \<times> int) list"
  tr_down :: "(string \<times> int) list"
  tr_startedAt :: int
  tr_dev :: string

definition addCount :: "string \<Rightarrow> int \<Rightarrow> (string \<times> int) list \<Rightarrow> (string \<times> int) list" where
  "addCount k n m = AList.update k (wrap64 (the_default 0 (map_of m k) + n)) m"

definition tableWord :: "string \<Rightarrow> traffic_read \<Rightarrow> traffic_read" where
  "tableWord f r =
     (let r1 = (if HasPrefix f ''uptime='' then (case Atoi (TrimPrefix f ''uptime='') of None \<Rightarrow> r | Some n \<Rightarrow> r\<lparr>tr_startedAt := n\<rparr>) else r)
      in if HasPrefix f ''dev='' then r1\<lparr>tr_dev := TrimPrefix f ''dev=''\<rparr> else r1)"

definition setElem :: "string \<Rightarrow> string option \<times> int \<Rightarrow> traffic_read \<Rightarrow> traffic_read" where
  "setElem name e r =
     (case fst e of None \<Rightarrow> r
      | Some key \<Rightarrow>
          if name = ''up'' then (case ParseMAC key of None \<Rightarrow> r | Some hw \<Rightarrow> r\<lparr>tr_up := addCount (macString hw) (snd e) (tr_up r)\<rparr>)
          else (case ParseIP key of None \<Rightarrow> r | Some a \<Rightarrow> r\<lparr>tr_down := addCount (IP_String a) (snd e) (tr_down r)\<rparr>))"

definition nftObject :: "nft_object \<Rightarrow> traffic_read \<times> nat \<Rightarrow> traffic_read \<times> nat" where
  "nftObject x st =
     (case st of (r, sets) \<Rightarrow>
        let r1 = (case nf_table x of None \<Rightarrow> r | Some (name, comment) \<Rightarrow> if name = trafficTable then fold tableWord (Fields comment) r else r) in
        (case nf_set x of None \<Rightarrow> (r1, sets)
         | Some (name, elems) \<Rightarrow>
             if name \<in> set [''up'', ''down4'', ''down6''] then (fold (setElem name) elems r1, sets + 1) else (r1, sets)))"

definition parseTraffic :: "(string \<Rightarrow> nft_object list option) \<Rightarrow> string \<Rightarrow> traffic_read option" where
  "parseTraffic unmarshal body =
     (case unmarshal body of None \<Rightarrow> None
      | Some objs \<Rightarrow> (case fold nftObject objs (\<lparr>tr_up = [], tr_down = [], tr_startedAt = -1, tr_dev = []\<rparr>, 0) of (r, sets) \<Rightarrow>
          if sets = 3 \<and> tr_startedAt r \<ge> 0 then Some r else None))"

text \<open>What a look asks of the system beside \<open>device_env\<close>.\<close>

record 'w look_env =
  lk_env :: device_env
  lk_now :: int
  lk_localtime :: "int option"
  lk_neigh :: "string \<Rightarrow> neighbour list"
  lk_float :: "string \<Rightarrow> int option"
  lk_nft :: "string \<Rightarrow> nft_object list option"
  lk_tempDir :: string
  lk_WriteFile :: "string \<Rightarrow> string \<Rightarrow> ('w, unit) step"
  lk_Remove :: "string \<Rightarrow> 'w \<Rightarrow> 'w"
  lk_pick :: "(string \<times> string) list \<Rightarrow> string"

definition uptimeSec :: "'w look_env \<Rightarrow> int option" where
  "uptimeSec lk =
     (case sr_ReadFile (de_sys (lk_env lk)) ''/proc/uptime'' of Inl e \<Rightarrow> None
      | Inr b \<Rightarrow> (case Fields (bytesText b) of [] \<Rightarrow> None | f # fs \<Rightarrow> lk_float lk f))"

definition traffic :: "'w runner \<Rightarrow> 'w look_env \<Rightarrow> string \<Rightarrow> 'w \<Rightarrow> (traffic_read \<times> int) option \<times> 'w" where
  "traffic run lk lanDev w =
     (case uptimeSec lk of None \<Rightarrow> (None, w)
      | Some now \<Rightarrow>
          (case run ''/usr/sbin/nft'' [''-j'', ''list'', ''table'', ''inet'', trafficTable] w of (x, w1) \<Rightarrow>
             let made = (let (y, w2) = run ''/usr/sbin/nft'' [''delete'', ''table'', ''inet'', trafficTable] w1;
                             path = lk_tempDir lk @ ''/veilbridge-traffic.nft'' in
                         case lk_WriteFile lk path (trafficRuleset lanDev now) w2 of
                           (Inl e, w3) \<Rightarrow> (None, w3)
                         | (Inr u, w3) \<Rightarrow> (case run ''/usr/sbin/nft'' [''-f'', path] w3 of
                             (Inl e, w4) \<Rightarrow> (None, lk_Remove lk path w4)
                           | (Inr out, w4) \<Rightarrow> (Some (\<lparr>tr_up = [], tr_down = [], tr_startedAt = now, tr_dev = lanDev\<rparr>, now), lk_Remove lk path w4))) in
             (case x of Inl e \<Rightarrow> made
              | Inr out \<Rightarrow> (case parseTraffic (lk_nft lk) out of None \<Rightarrow> made
                  | Some r \<Rightarrow> if tr_dev r = lanDev then (Some (r, now), w1) else made))))"

definition offloaded :: "'w runner \<Rightarrow> 'w \<Rightarrow> bool \<times> 'w" where
  "offloaded run w =
     (let (a, w1) = uciGet run ''firewall.@defaults[0].flow_offloading'' w in
      if a = ''1'' then (True, w1)
      else let (b, w2) = uciGet run ''firewall.@defaults[0].flow_offloading_hw'' w1 in (b = ''1'', w2))"

section \<open>The clock\<close>

definition timeValidFile :: string where "timeValidFile = ''/var/state/dnsmasqsec''"

definition clock :: "'w runner \<Rightarrow> 'w look_env \<Rightarrow> 'w \<Rightarrow> router_clock option \<times> 'w" where
  \<comment> \<open>the first of January 1970 was a Thursday\<close>
  "clock run lk w =
     (case (de_bus (lk_env lk), lk_localtime lk) of
        (Some bus, Some t) \<Rightarrow>
          if t = 0 then (None, w)
          else let (zn, w1) = uciGet run ''system.@system[0].zonename'' w;
                   (zone, w2) = (if zn = [] then uciGet run ''system.@system[0].timezone'' w1 else (zn, w1)) in
            (Some \<lparr>Synced = sr_Exists (de_sys (lk_env lk)) timeValidFile, Now = hhmm (t mod 86400 div 60),
               Weekday = Weekdays ! nat ((t div 86400 + 3) mod 7), Timezone = zone\<rparr>, w2)
      | _ \<Rightarrow> (None, w))"

section \<open>The list\<close>

record traffic_counting =
  tc_SinceSec :: int
  tc_SinceBoot :: bool
  tc_Partial :: bool

record device_list =
  dl_Devices :: "device list"
  dl_WatchingSec :: int
  dl_Traffic :: "traffic_counting option"
  dl_Clock :: "router_clock option"

definition secondsIn :: "int \<Rightarrow> int" where
  \<comment> \<open>\<^verbatim>\<open>int64(d / time.Second)\<close>\<close>
  "secondsIn d = (if d < 0 then - ((- d) div 1000000000) else d div 1000000000)"

definition sightingsOf :: "int \<Rightarrow> address_lease list \<Rightarrow> reserved_address list \<Rightarrow> access_point list \<Rightarrow> fdb_entry list \<Rightarrow> neighbour list \<Rightarrow> sightings" where
  "sightingsOf now ls rs aps fdb neigh =
     fold (seeNeighbour now (fdb \<noteq> [])) neigh (fold (seeForwarded now) fdb (fold (seeAccessPoint now) aps
       (fold seeReserved rs (fold seeLease ls []))))"

definition wiredOf :: "sightings \<Rightarrow> string list" where
  "wiredOf obs = map fst (filter (\<lambda>(mac, ob). ob_online ob \<and> Kind (ob_link ob) = LinkCable) obs)"

text \<open>One look: the sightings without the guests but with every device whose internet is off or scheduled.\<close>

record look =
  lo_aps :: "access_point list"
  lo_guests :: "string list"
  lo_blocked :: "string list"
  lo_scheduled :: "(string \<times> internet_schedule) list"
  lo_obs :: sightings

definition lookAt :: "'w runner \<Rightarrow> 'w look_env \<Rightarrow> string \<Rightarrow> 'w \<Rightarrow> look \<times> 'w" where
  "lookAt run lk lanDev w =
     (let env = lk_env lk;
          (ls, w1) = leases run (de_files env) (de_now env) w;
          (rs, w2) = reserved run w1;
          aps = accessPoints (de_unmarshal env) (de_bus env) (de_sys env);
          fdb = forwarding (de_le env) (de_sys env) lanDev (map (\<lambda>ap. (ap_iface ap, ap_band ap)) (rev aps));
          obs = sightingsOf (lk_now lk) ls rs aps fdb (lk_neigh lk lanDev);
          (guests, w3) = guestClients run env aps (wiredOf obs) w2;
          (off, w4) = blocked (Some run) w3;
          (sch, w5) = schedulesNow (Some run) w4
      in (\<lparr>lo_aps = aps, lo_guests = guests, lo_blocked = off, lo_scheduled = sch,
           lo_obs = fold keepListed (map fst sch) (fold keepListed off (filter (\<lambda>(mac, ob). mac \<notin> set guests) obs))\<rparr>, w5))"

definition recall :: "(string \<times> heard) list \<Rightarrow> string \<Rightarrow> observation \<Rightarrow> observation" where
  "recall seen mac ob =
     (case map_of seen mac of None \<Rightarrow> ob
      | Some p \<Rightarrow>
          let ob1 = (case ob_at ob of None \<Rightarrow> ob\<lparr>ob_at := Some (hd_at p)\<rparr> | Some a \<Rightarrow> if hd_at p > a then ob\<lparr>ob_at := Some (hd_at p)\<rparr> else ob)
          in if Kind (ob_link ob1) = [] then ob1\<lparr>ob_link := \<lparr>Kind = Kind (hd_link p), Band = Band (hd_link p), SignalDBm = 0\<rparr>\<rparr> else ob1)"

fun recallAll :: "sightings \<Rightarrow> (string \<times> heard) list \<Rightarrow> sightings \<times> (string \<times> heard) list" where
  "recallAll [] seen = ([], seen)"
| "recallAll ((mac, ob) # obs) seen =
     (let ob' = recall seen mac ob;
          seen1 = (case ob_at ob' of None \<Rightarrow> seen | Some t \<Rightarrow> remember mac \<lparr>hd_at = t, hd_link = ob_link ob'\<rparr> seen);
          (obs', seen') = recallAll obs seen1
      in ((mac, ob') # obs', seen'))"

definition goneSince :: "string list \<Rightarrow> (string \<times> heard) list \<Rightarrow> sightings \<Rightarrow> sightings" where
  "goneSince guests seen obs =
     obs @ map (\<lambda>(mac, h). (mac, noObservation\<lparr>ob_at := Some (hd_at h), ob_link := \<lparr>Kind = Kind (hd_link h), Band = Band (hd_link h), SignalDBm = 0\<rparr>\<rparr>))
       (filter (\<lambda>(mac, h). mac \<notin> fst ` set obs \<and> mac \<notin> set guests) seen)"

definition receivedBy :: "(string \<times> string) list \<Rightarrow> (string \<times> int) list \<Rightarrow> (string \<times> int) list" where
  "receivedBy owner down = fold (\<lambda>(ip, b) rx. case map_of owner ip of None \<Rightarrow> rx | Some mac \<Rightarrow> addCount mac b rx) down []"

definition deviceRow ::
  "int \<Rightarrow> look \<Rightarrow> router_clock option \<Rightarrow> (traffic_read \<times> int) option \<Rightarrow> (string \<times> int) list \<Rightarrow> string \<times> observation \<Rightarrow> device" where
  "deviceRow now lo clk counts rx x =
     (case x of (mac, ob) \<Rightarrow>
        let d0 = noDevice\<lparr>d_MAC := mac, d_ReportedName := ob_reported ob, d_ReservedIP := ob_reserved ob, d_Online := ob_online ob,
              d_IPs := sortIPs (ob_ips ob), d_Link := ob_link ob, d_Internet := InternetAllowed\<rparr>;
            d1 = (if mac \<in> set (lo_blocked lo) then d0\<lparr>d_Internet := InternetBlocked\<rparr> else d0);
            d2 = (case counts of None \<Rightarrow> d1
              | Some (r, up) \<Rightarrow> d1\<lparr>d_RxBytes := the_default 0 (map_of rx mac), d_TxBytes := the_default 0 (map_of (tr_up r) mac)\<rparr>);
            d3 = (case map_of (lo_scheduled lo) mac of None \<Rightarrow> d2 | Some s \<Rightarrow> ApplySchedule (d2\<lparr>d_Schedule := Some s\<rparr>) clk);
            d4 = (if Kind (d_Link d3) = [] then d3\<lparr>d_Link := (d_Link d3)\<lparr>Kind := LinkUnknown\<rparr>\<rparr> else d3)
        in case ob_at ob of None \<Rightarrow> d4
           | Some t \<Rightarrow> if ob_online ob then d4 else d4\<lparr>d_LastSeenSec := Some (max 0 (secondsIn (now - t)))\<rparr>)"

definition countingSince :: "'w runner \<Rightarrow> (traffic_read \<times> int) option \<Rightarrow> 'w \<Rightarrow> traffic_counting option \<times> 'w" where
  "countingSince run counts w =
     (case counts of None \<Rightarrow> (None, w)
      | Some (r, up) \<Rightarrow> (case offloaded run w of (part, w') \<Rightarrow>
          (Some \<lparr>tc_SinceSec = max 0 (up - tr_startedAt r), tc_SinceBoot = (tr_startedAt r \<le> bootWindow), tc_Partial = part\<rparr>, w')))"

definition ListDevices :: "'w runner option \<Rightarrow> 'w look_env \<Rightarrow> ('w \<times> device_memory, device_list) step" where
  "ListDevices mrun lk s =
     (case lanDevice (de_ifaces (lk_env lk)) of Inl e \<Rightarrow> (Inl e, s)
      | Inr lanDev \<Rightarrow> (case mrun of None \<Rightarrow> (Inl (Failed ''not implemented''), s)
        | Some run \<Rightarrow>
            let (lo, w1) = lookAt run lk lanDev (fst s);
                (clk, w2) = clock run lk w1;
                (counts, w3) = traffic run lk lanDev w2;
                mem = snd s;
                owner = rememberOwners (lk_pick lk) (ownersOf (lo_obs lo)) (dm_owner mem);
                rx = receivedBy owner (case counts of None \<Rightarrow> [] | Some (r, up) \<Rightarrow> tr_down r);
                (obs, seen) = recallAll (lo_obs lo) (dm_seen mem);
                all = goneSince (lo_guests lo) seen obs;
                (tc, w4) = countingSince run counts w3
            in (Inr \<lparr>dl_Devices = sort_key d_MAC (map (deviceRow (lk_now lk) lo clk counts rx) all),
                 dl_WatchingSec = secondsIn (lk_now lk - dm_started mem), dl_Traffic = tc, dl_Clock = clk\<rparr>,
                (w4, mem\<lparr>dm_seen := seen, dm_owner := owner\<rparr>))))"

definition ObserveDevices :: "'w runner option \<Rightarrow> 'w look_env \<Rightarrow> 'w \<times> device_memory \<Rightarrow> 'w \<times> device_memory" where
  "ObserveDevices mrun lk s = snd (ListDevices mrun lk s)"

section \<open>Waking a device\<close>

definition magicPacket :: "nat list \<Rightarrow> nat list" where
  "magicPacket mac = replicate 6 255 @ concat (replicate 16 mac)"

definition wakeRepeats :: nat where "wakeRepeats = 3"

fun sendTimes :: "nat \<Rightarrow> ('w, unit) step \<Rightarrow> ('w, unit) step" where
  "sendTimes 0 m = retR ()"
| "sendTimes (Suc n) m = bindR (wrapR (Failed ''send the wake packet'') m) (\<lambda>_. sendTimes n m)"

definition WakeDevice :: "(string \<Rightarrow> nat list \<Rightarrow> ('w, unit) step) \<Rightarrow> network_interface list result \<Rightarrow> device_memory \<Rightarrow> string \<Rightarrow> ('w, unit) step" where
  "WakeDevice send ifaces mem raw =
     (case NormalizeMAC raw of Inl e \<Rightarrow> failR (Refused ''mac'' ''not a hardware address of a device'')
      | Inr mac \<Rightarrow>
          if (case map_of (dm_seen mem) mac of None \<Rightarrow> False | Some h \<Rightarrow> Kind (hd_link h) = LinkWiFi)
          then failR (Refused ''mac'' ''a device that sleeps on Wi-Fi cannot be woken over the network'')
          else case lanDevice ifaces of Inl e \<Rightarrow> failR e
            | Inr dev \<Rightarrow> sendTimes wakeRepeats (send dev (magicPacket (the_default [] (ParseMAC mac)))))"

section \<open>The panel's part\<close>

definition MaxDeviceNameLen :: nat where "MaxDeviceNameLen = 64"

text \<open>\<open>from\<close> is the address of the request; the first device with it is the one the panel is used from.\<close>

definition IsLoopback :: "addr \<Rightarrow> bool" where
  "IsLoopback a = (case To4 a of Some x \<Rightarrow> drop_bit 24 x = 127 | None \<Rightarrow> (case a of V4 x \<Rightarrow> False | V6 x z \<Rightarrow> x = 1))"

definition sameAddr :: "addr \<Rightarrow> addr \<Rightarrow> bool" where
  \<comment> \<open>\<^verbatim>\<open>net.IP.Equal\<close>: an IPv4 address and the same inside an IPv6 one are equal\<close>
  "sameAddr a b = (case (To4 a, To4 b) of (Some x, Some y) \<Rightarrow> x = y | (None, None) \<Rightarrow> a = b | _ \<Rightarrow> False)"

fun markFirst :: "addr \<Rightarrow> device list \<Rightarrow> device list" where
  "markFirst ip [] = []"
| "markFirst ip (d # ds) =
     (if list_ex (\<lambda>a. case ParseIP a of None \<Rightarrow> False | Some b \<Rightarrow> sameAddr b ip) (d_IPs d) then d\<lparr>d_Here := True\<rparr> # ds else d # markFirst ip ds)"

definition MarkHere :: "device list \<Rightarrow> string \<Rightarrow> device list" where
  "MarkHere devices from' =
     (case ParseIP from' of None \<Rightarrow> devices | Some ip \<Rightarrow> if IsLoopback ip then devices else markFirst ip devices)"

text \<open>UTF-8 as Go ranges over it: the code points with their bytes; a byte that starts none is U+FFFD by itself.\<close>

definition inRange :: "nat \<Rightarrow> nat \<Rightarrow> string \<Rightarrow> nat \<Rightarrow> bool" where
  "inRange lo hi s i \<longleftrightarrow> i < length s \<and> lo \<le> (of_char (s ! i) :: nat) \<and> (of_char (s ! i) :: nat) \<le> hi"

definition DecodeRune :: "string \<Rightarrow> nat \<times> nat" where
  "DecodeRune s =
     (let b = (\<lambda>i. of_char (s ! i) :: nat); b0 = b 0; cont = inRange 0x80 0xBF s in
      if b0 < 0x80 then (b0, 1)
      else if 0xC2 \<le> b0 \<and> b0 \<le> 0xDF \<and> cont 1 then ((b0 - 0xC0) * 64 + (b 1 - 0x80), 2)
      else if 0xE0 \<le> b0 \<and> b0 \<le> 0xEF \<and> inRange (if b0 = 0xE0 then 0xA0 else 0x80) (if b0 = 0xED then 0x9F else 0xBF) s 1 \<and> cont 2
        then ((b0 - 0xE0) * 4096 + (b 1 - 0x80) * 64 + (b 2 - 0x80), 3)
      else if 0xF0 \<le> b0 \<and> b0 \<le> 0xF4 \<and> inRange (if b0 = 0xF0 then 0x90 else 0x80) (if b0 = 0xF4 then 0x8F else 0xBF) s 1 \<and> cont 2 \<and> cont 3
        then ((b0 - 0xF0) * 262144 + (b 1 - 0x80) * 4096 + (b 2 - 0x80) * 64 + (b 3 - 0x80), 4)
      else (0xFFFD, 1))"

lemma DecodeRune_width: "0 < snd (DecodeRune s)"
  by (simp add: DecodeRune_def Let_def)

function runes :: "string \<Rightarrow> (nat \<times> string) list" where
  "runes s = (if s = [] then [] else (fst (DecodeRune s), take (snd (DecodeRune s)) s) # runes (drop (snd (DecodeRune s)) s))"
  by pat_completeness auto
termination by (relation "measure length") (auto simp: DecodeRune_width)

declare runes.simps [simp del]

definition unicodeSpace :: "nat \<Rightarrow> bool" where
  "unicodeSpace r \<longleftrightarrow> 9 \<le> r \<and> r \<le> 13 \<or> r \<in> {0x20, 0x85, 0xA0, 0x1680, 0x2028, 0x2029, 0x202F, 0x205F, 0x3000} \<or> 0x2000 \<le> r \<and> r \<le> 0x200A"

definition IsControl :: "nat \<Rightarrow> bool" where "IsControl r \<longleftrightarrow> r < 0x20 \<or> 0x7F \<le> r \<and> r < 0xA0"

definition trimRunes :: "(nat \<times> string) list \<Rightarrow> (nat \<times> string) list" where
  "trimRunes rs = rev (dropWhile (\<lambda>x. unicodeSpace (fst x)) (rev (dropWhile (\<lambda>x. unicodeSpace (fst x)) rs)))"

definition CleanDeviceName :: "string \<Rightarrow> string result" where
  "CleanDeviceName name =
     (let rs = trimRunes (runes name) in
      if length rs > MaxDeviceNameLen then Inl (Failed ''a name can be at most 64 characters'')
      else if list_ex (\<lambda>x. IsControl (fst x)) rs then Inl (Failed ''a name cannot contain line breaks or control characters'')
      else Inr (concat (map snd rs)))"

section \<open>Everyone once\<close>

lemma sight_map: "map_of (sight raw f obs) mac = (if macOf raw = Some mac then Some (f (sighting obs mac)) else map_of obs mac)"
  by (auto simp: sight_def update_conv' split: option.split)

lemma sight_distinct: "distinct (map fst obs) \<Longrightarrow> distinct (map fst (sight raw f obs))"
  by (auto simp: sight_def distinct_update split: option.split)

lemma fold_keeps: "(\<And>x a. P a \<Longrightarrow> P (f x a)) \<Longrightarrow> P a \<Longrightarrow> P (fold f xs a)"
  by (induction xs arbitrary: a) auto

lemma see_distinct:
  "distinct (map fst obs) \<Longrightarrow> distinct (map fst (seeLease l obs))"
  "distinct (map fst obs) \<Longrightarrow> distinct (map fst (seeReserved r obs))"
  "distinct (map fst obs) \<Longrightarrow> distinct (map fst (seeAccessPoint now ap obs))"
  "distinct (map fst obs) \<Longrightarrow> distinct (map fst (seeForwarded now e obs))"
  "distinct (map fst obs) \<Longrightarrow> distinct (map fst (seeNeighbour now b n obs))"
  "distinct (map fst obs) \<Longrightarrow> distinct (map fst (keepListed mac obs))"
proof -
  show "distinct (map fst obs) \<Longrightarrow> distinct (map fst (seeAccessPoint now ap obs))"
    unfolding seeAccessPoint_def by (rule fold_keeps [where P = "\<lambda>o'. distinct (map fst o')"]) (simp_all add: seeClient_def sight_distinct)
qed (simp_all add: seeLease_def seeReserved_def seeForwarded_def seeNeighbour_def keepListed_def sight_distinct)

lemma sightingsOf_distinct: "distinct (map fst (sightingsOf now ls rs aps fdb neigh))"
  unfolding sightingsOf_def
  by (intro fold_keeps [where P = "\<lambda>o'. distinct (map fst o')"] see_distinct) simp_all

lemma lookAt_distinct: "lookAt run lk dev w = (lo, w') \<Longrightarrow> distinct (map fst (lo_obs lo))"
proof -
  have f: "distinct (map fst obs) \<Longrightarrow> distinct (map fst (fold keepListed b (fold keepListed a (filter P obs))))" for obs a b P
    by (intro fold_keeps [where P = "\<lambda>o'. distinct (map fst o')"] see_distinct distinct_map_filter)
  show "lookAt run lk dev w = (lo, w') \<Longrightarrow> distinct (map fst (lo_obs lo))"
    by (auto simp: lookAt_def Let_def f sightingsOf_distinct split: prod.splits)
qed

lemma recallAll_keys: "recallAll obs seen = (obs', seen') \<Longrightarrow> map fst obs' = map fst obs"
  by (induction obs seen arbitrary: obs' seen' rule: recallAll.induct) (auto simp: Let_def split: prod.splits)

section \<open>The memory is bounded\<close>

definition memoryOK :: "device_memory \<Rightarrow> bool" where
  "memoryOK m \<longleftrightarrow> distinct (map fst (dm_seen m)) \<and> length (dm_seen m) \<le> maxRemembered \<and>
     distinct (map fst (dm_owner m)) \<and> length (dm_owner m) \<le> maxAddrOwners"

lemma bounded_update:
  assumes "distinct (map fst m)" "length m \<le> n" "map_of m k = None \<Longrightarrow> length m < n"
  shows "distinct (map fst (AList.update k v m)) \<and> length (AList.update k v m) \<le> n"
proof -
  have "length (AList.update k v m) = (if k \<in> fst ` set m then length m else length m + 1)"
    by (induction m) auto
  moreover have "k \<in> fst ` set m \<longleftrightarrow> map_of m k \<noteq> None" by (simp add: map_of_eq_None_iff)
  ultimately show ?thesis using assms distinct_update by (cases "map_of m k = None") auto
qed

lemma delete_shorter: "k \<in> fst ` set m \<Longrightarrow> length (AList.delete k m) < length m"
proof -
  assume "k \<in> fst ` set m"
  then obtain v where "(k, v) \<in> set m" by force
  from length_filter_less [OF this, of "\<lambda>(k', _). k \<noteq> k'"] show ?thesis by (simp add: AList.delete_eq)
qed

lemma delete_None: "map_of m k = None \<Longrightarrow> map_of (AList.delete j m) k = None"
  by (simp add: delete_conv')

lemma oldestOf_in: "oldestOf best xs = Some x \<Longrightarrow> x \<in> set xs \<or> best = Some x"
  by (induction best xs rule: oldestOf.induct) (auto split: option.splits if_splits)

lemma oldestOf_some: "xs \<noteq> [] \<or> best \<noteq> None \<Longrightarrow> oldestOf best xs \<noteq> None"
  by (induction best xs rule: oldestOf.induct) (auto split: option.splits)

lemma remember_bounded:
  assumes "distinct (map fst seen)" "length seen \<le> maxRemembered"
  shows "distinct (map fst (remember mac h seen)) \<and> length (remember mac h seen) \<le> maxRemembered"
proof (cases "map_of seen mac = None \<and> length seen \<ge> maxRemembered")
  case True
  then have "seen \<noteq> []" by (auto simp: maxRemembered_def)
  then obtain k v where k: "oldestOf None seen = Some (k, v)" using oldestOf_some [of seen None] by auto
  then have "k \<in> fst ` set seen" using oldestOf_in [OF k] by force
  from delete_shorter [OF this] assms have "length (AList.delete k seen) < maxRemembered" by simp
  with bounded_update [of "AList.delete k seen" maxRemembered mac h] distinct_delete [OF assms(1)] True k show ?thesis
    by (simp add: remember_def)
next
  case False
  with bounded_update [OF assms, of mac h] show ?thesis by (auto simp: remember_def)
qed

lemma rememberOwner_bounded:
  assumes "\<And>m. m \<noteq> [] \<Longrightarrow> pick m \<in> fst ` set m" "distinct (map fst owner)" "length owner \<le> maxAddrOwners"
  shows "distinct (map fst (rememberOwner pick x owner)) \<and> length (rememberOwner pick x owner) \<le> maxAddrOwners"
proof (cases "map_of owner (fst x) = None \<and> length owner \<ge> maxAddrOwners")
  case True
  then have "owner \<noteq> []" by (auto simp: maxAddrOwners_def)
  from delete_shorter [OF assms(1) [OF this]] assms(3) have "length (AList.delete (pick owner) owner) < maxAddrOwners" by simp
  with bounded_update [of "AList.delete (pick owner) owner" maxAddrOwners "fst x" "snd x"] distinct_delete [OF assms(2)] True show ?thesis
    by (simp add: rememberOwner_def)
next
  case False
  with bounded_update [OF assms(2,3), of "fst x" "snd x"] show ?thesis by (auto simp: rememberOwner_def)
qed

lemma recallAll_bounded:
  "recallAll obs seen = (obs', seen') \<Longrightarrow> distinct (map fst seen) \<Longrightarrow> length seen \<le> maxRemembered \<Longrightarrow>
   distinct (map fst seen') \<and> length seen' \<le> maxRemembered"
proof (induction obs seen arbitrary: obs' seen' rule: recallAll.induct)
  case (2 mac ob obs seen)
  let ?ob = "recall seen mac ob"
  let ?seen = "case ob_at ?ob of None \<Rightarrow> seen | Some t \<Rightarrow> remember mac \<lparr>hd_at = t, hd_link = ob_link ?ob\<rparr> seen"
  obtain o' s' where r: "recallAll obs ?seen = (o', s')" by (rule prod.exhaust)
  have "distinct (map fst ?seen) \<and> length ?seen \<le> maxRemembered"
    using remember_bounded [OF 2(3,4)] 2(3,4) by (simp split: option.split)
  with 2(1) [OF refl refl r] 2(2) r show ?case by (simp add: Let_def)
qed simp

text \<open>A look that answers, in its parts.\<close>

lemma ListDevices_parts:
  assumes "ListDevices mrun lk (w, mem) = (Inr l, (w', mem'))"
  shows "\<exists>run dev lo w1 clk counts rx obs seen. mrun = Some run \<and> lanDevice (de_ifaces (lk_env lk)) = Inr dev \<and> lookAt run lk dev w = (lo, w1) \<and>
    recallAll (lo_obs lo) (dm_seen mem) = (obs, seen) \<and>
    mem' = mem\<lparr>dm_seen := seen, dm_owner := rememberOwners (lk_pick lk) (ownersOf (lo_obs lo)) (dm_owner mem)\<rparr> \<and>
    dl_Devices l = sort_key d_MAC (map (deviceRow (lk_now lk) lo clk counts rx) (goneSince (lo_guests lo) seen obs))"
proof -
  from assms obtain run dev where r: "mrun = Some run" "lanDevice (de_ifaces (lk_env lk)) = Inr dev"
    by (auto simp: ListDevices_def split: sum.splits option.splits)
  obtain lo w1 where lo: "lookAt run lk dev w = (lo, w1)" by (rule prod.exhaust)
  obtain clk w2 where clk: "clock run lk w1 = (clk, w2)" by (rule prod.exhaust)
  obtain counts w3 where c: "traffic run lk dev w2 = (counts, w3)" by (rule prod.exhaust)
  obtain obs seen where o: "recallAll (lo_obs lo) (dm_seen mem) = (obs, seen)" by (rule prod.exhaust)
  obtain tc w4 where tc: "countingSince run counts w3 = (tc, w4)" by (rule prod.exhaust)
  from assms r lo clk c o tc show ?thesis unfolding ListDevices_def by (auto simp: Let_def intro!: exI)
qed

lemma ListDevices_memory:
  assumes "ListDevices mrun lk (w, mem) = (Inr l, (w', mem'))" "memoryOK mem" "\<And>m. m \<noteq> [] \<Longrightarrow> lk_pick lk m \<in> fst ` set m"
  shows "memoryOK mem'"
proof -
  from ListDevices_parts [OF assms(1)] obtain lo :: look and obs seen where o: "recallAll (lo_obs lo) (dm_seen mem) = (obs, seen)"
    and m: "mem' = mem\<lparr>dm_seen := seen, dm_owner := rememberOwners (lk_pick lk) (ownersOf (lo_obs lo)) (dm_owner mem)\<rparr>"
    by blast
  let ?P = "\<lambda>m. distinct (map fst m) \<and> length m \<le> maxAddrOwners"
  have o': "dm_owner mem' = fold (rememberOwner (lk_pick lk)) (ownersOf (lo_obs lo)) (dm_owner mem)" using m by (simp add: rememberOwners_def)
  have "?P (dm_owner mem')" unfolding o'
    by (rule fold_keeps [where P = ?P]) (use rememberOwner_bounded [OF assms(3)] assms(2) in \<open>auto simp: memoryOK_def\<close>)
  with recallAll_bounded [OF o] assms(2) m show ?thesis by (simp add: memoryOK_def)
qed

text \<open>A look that fails changes nothing.\<close>

lemma ListDevices_failed: "ListDevices mrun lk (w, mem) = (Inl e, (w', mem')) \<Longrightarrow> mem' = mem"
  by (auto simp: ListDevices_def Let_def split: sum.splits option.splits prod.splits)

section \<open>Who is on the list\<close>

definition associated :: "string \<Rightarrow> sightings \<Rightarrow> bool" where
  "associated mac obs \<longleftrightarrow> (\<exists>ob. map_of obs mac = Some ob \<and> ob_online ob \<and> Kind (ob_link ob) = LinkWiFi)"

lemma wifi_named: "LinkWiFi \<noteq> []" by (simp add: LinkWiFi_def)

lemma later_same [simp]: "ob_online (later t ob) = ob_online ob" "ob_link (later t ob) = ob_link ob"
  by (auto simp: later_def split: option.split)

lemma client_associates: "macOf (fst c) = Some mac \<Longrightarrow> associated mac (seeClient now band c obs)"
  by (simp add: seeClient_def associated_def sight_map)

lemma stays_associated:
  "associated mac obs \<Longrightarrow> associated mac (seeClient now band c obs)"
  "associated mac obs \<Longrightarrow> associated mac (seeForwarded now e obs)"
  "associated mac obs \<Longrightarrow> associated mac (seeNeighbour now b n obs)"
  "associated mac obs \<Longrightarrow> associated mac (keepListed m obs)"
  using wifi_named
  by (auto simp: associated_def seeClient_def seeForwarded_def seeNeighbour_def keepListed_def sight_map sighting_def the_default_def Let_def)

lemma fold_reaches: "x \<in> set xs \<Longrightarrow> (\<And>a. P (f x a)) \<Longrightarrow> (\<And>y a. P a \<Longrightarrow> P (f y a)) \<Longrightarrow> P (fold f xs a)"
  by (induction xs arbitrary: a) (auto intro: fold_keeps [where P = P])

lemma clients_associated:
  assumes "ap \<in> set aps" "c \<in> set (ap_clients ap)" "macOf (fst c) = Some mac"
  shows "associated mac (sightingsOf now ls rs aps fdb neigh)"
proof -
  have k: "associated mac (seeAccessPoint now ap obs)" for obs unfolding seeAccessPoint_def
    by (rule fold_reaches [where P = "associated mac" and x = c]) (simp_all add: client_associates assms(2,3) stays_associated)
  have s: "associated mac obs \<Longrightarrow> associated mac (seeAccessPoint now ap' obs)" for ap' obs unfolding seeAccessPoint_def
    by (rule fold_keeps [where P = "associated mac"]) (simp_all add: stays_associated)
  have a: "associated mac (fold (seeAccessPoint now) aps obs)" for obs
    by (rule fold_reaches [where P = "associated mac" and x = ap]) (use assms(1) k s in auto)
  have f: "associated mac (fold (seeForwarded now) fdb (fold (seeAccessPoint now) aps obs))" for obs
    by (rule fold_keeps [where P = "associated mac"]) (simp_all add: stays_associated a)
  show ?thesis unfolding sightingsOf_def
    by (rule fold_keeps [where P = "associated mac"]) (simp_all add: stays_associated f)
qed

lemma keepListed_keys: "macOf m = Some m \<Longrightarrow> fst ` set (keepListed m obs) = insert m (fst ` set obs)"
  by (auto simp: keepListed_def sight_def update_conv' dom_update dom_map_of_conv_image_fst [symmetric])

lemma keepListed_all: "\<forall>m \<in> set ms. macOf m = Some m \<Longrightarrow> fst ` set (fold keepListed ms obs) = set ms \<union> fst ` set obs"
  by (induction ms arbitrary: obs) (auto simp: keepListed_keys)

lemma recall_online: "ob_online (recall seen mac ob) = ob_online ob" "Kind (ob_link ob) \<noteq> [] \<Longrightarrow> ob_link (recall seen mac ob) = ob_link ob"
  by (auto simp: recall_def Let_def split: option.split)

lemma recallAll_associated: "recallAll obs seen = (obs', seen') \<Longrightarrow> associated mac obs \<Longrightarrow> associated mac obs'"
proof (induction obs seen arbitrary: obs' seen' rule: recallAll.induct)
  case (2 m ob obs seen)
  let ?ob = "recall seen m ob"
  let ?seen = "case ob_at ?ob of None \<Rightarrow> seen | Some t \<Rightarrow> remember m \<lparr>hd_at = t, hd_link = ob_link ?ob\<rparr> seen"
  obtain o' s' where r: "recallAll obs ?seen = (o', s')" by (rule prod.exhaust)
  have o: "obs' = (m, ?ob) # o'" using 2(2) r by (simp add: Let_def)
  show ?case
  proof (cases "mac = m")
    case True
    with 2(3) o wifi_named recall_online show ?thesis by (auto simp: associated_def)
  next
    case False
    with 2(3) have "associated mac obs" by (simp add: associated_def)
    with 2(1) [OF refl refl r] o False show ?thesis by (simp add: associated_def)
  qed
qed (simp add: associated_def)

lemma off_normal:
  "blocked mrun w = (off, w') \<Longrightarrow> m \<in> set off \<Longrightarrow> macOf m = Some m"
  "schedulesNow mrun w = (sch, w') \<Longrightarrow> m \<in> fst ` set sch \<Longrightarrow> macOf m = Some m"
proof -
  have "m \<in> set (blockedBy secs) \<Longrightarrow> macOf m = Some m" for secs
    using macOf_address by (auto simp: blockedBy_def map_filter_def deviceAddress_def)
  then show "blocked mrun w = (off, w') \<Longrightarrow> m \<in> set off \<Longrightarrow> macOf m = Some m"
    by (auto simp: blocked_def blockedDevices_def split: option.splits prod.splits sum.splits)
  have "m \<in> fst ` set (schedulesIn secs) \<Longrightarrow> m \<in> fst ` set (partOf False secs)" for secs
    by (force simp: schedulesIn_def map_filter_def)
  then have "m \<in> fst ` set (schedulesIn secs) \<Longrightarrow> macOf m = Some m" for secs
    using partOf_keys [of False secs] unfolding deviceAddress_def by blast
  then show "schedulesNow mrun w = (sch, w') \<Longrightarrow> m \<in> fst ` set sch \<Longrightarrow> macOf m = Some m"
    by (auto simp: schedulesNow_def schedules_def split: option.splits prod.splits sum.splits)
qed

lemma kept_key: "P k \<Longrightarrow> map_of (filter (\<lambda>(k, v). P k) m) k = map_of m k"
  by (induction m) auto

lemma lookAt_parts:
  assumes "lookAt run lk dev w = (lo, w')"
  shows "fst ` set (lo_obs lo) \<inter> set (lo_guests lo) \<subseteq> set (lo_blocked lo) \<union> fst ` set (lo_scheduled lo)"
    and "set (lo_blocked lo) \<union> fst ` set (lo_scheduled lo) \<subseteq> fst ` set (lo_obs lo)"
    and "ap \<in> set (lo_aps lo) \<Longrightarrow> c \<in> set (ap_clients ap) \<Longrightarrow> macOf (fst c) = Some mac \<Longrightarrow> mac \<notin> set (lo_guests lo) \<Longrightarrow> associated mac (lo_obs lo)"
proof -
  let ?env = "lk_env lk"
  obtain ls w1 where ls: "leases run (de_files ?env) (de_now ?env) w = (ls, w1)" by (rule prod.exhaust)
  obtain rs w2 where rs: "reserved run w1 = (rs, w2)" by (rule prod.exhaust)
  let ?aps = "accessPoints (de_unmarshal ?env) (de_bus ?env) (de_sys ?env)"
  let ?fdb = "forwarding (de_le ?env) (de_sys ?env) dev (map (\<lambda>ap. (ap_iface ap, ap_band ap)) (rev ?aps))"
  let ?obs = "sightingsOf (lk_now lk) ls rs ?aps ?fdb (lk_neigh lk dev)"
  obtain guests w3 where g: "guestClients run ?env ?aps (wiredOf ?obs) w2 = (guests, w3)" by (rule prod.exhaust)
  obtain off w4 where off: "blocked (Some run) w3 = (off, w4)" by (rule prod.exhaust)
  obtain sch w5 where sch: "schedulesNow (Some run) w4 = (sch, w5)" by (rule prod.exhaust)
  let ?home = "filter (\<lambda>(mac, ob). mac \<notin> set guests) ?obs"
  have lo: "lo = \<lparr>lo_aps = ?aps, lo_guests = guests, lo_blocked = off, lo_scheduled = sch,
      lo_obs = fold keepListed (map fst sch) (fold keepListed off ?home)\<rparr>"
    using assms ls rs g off sch unfolding lookAt_def by (simp add: Let_def)
  have keys: "fst ` set (lo_obs lo) = fst ` set sch \<union> set off \<union> fst ` set ?home"
    using off_normal(1) [OF off] off_normal(2) [OF sch] by (auto simp: lo keepListed_all)
  show "fst ` set (lo_obs lo) \<inter> set (lo_guests lo) \<subseteq> set (lo_blocked lo) \<union> fst ` set (lo_scheduled lo)"
    unfolding keys by (auto simp: lo)
  show "set (lo_blocked lo) \<union> fst ` set (lo_scheduled lo) \<subseteq> fst ` set (lo_obs lo)" unfolding keys by (auto simp: lo)
  assume a: "ap \<in> set (lo_aps lo)" "c \<in> set (ap_clients ap)" "macOf (fst c) = Some mac" "mac \<notin> set (lo_guests lo)"
  have "associated mac ?obs" using clients_associated [OF _ a(2,3)] a(1) by (simp add: lo)
  then have "associated mac ?home"
    using a(4) kept_key [of "\<lambda>m. m \<notin> set guests" mac ?obs] by (simp add: associated_def lo)
  then show "associated mac (lo_obs lo)" unfolding lo look.simps
    by (intro fold_keeps [where P = "associated mac"] stays_associated)
qed

lemma ApplySchedule_keeps: "d_MAC (ApplySchedule d clk) = d_MAC d" "d_Online (ApplySchedule d clk) = d_Online d" "d_Link (ApplySchedule d clk) = d_Link d"
  "d_Internet (ApplySchedule d clk) = (if d_Schedule d \<noteq> None \<and> d_Internet d \<noteq> InternetBlocked then InternetScheduled else d_Internet d)"
  by (auto simp: ApplySchedule_def Let_def split: option.split)

lemma scheduled_key: "k \<in> fst ` set m \<longleftrightarrow> map_of m k \<noteq> None"
  by (simp add: map_of_eq_None_iff)

lemma deviceRow_facts:
  "d_MAC (deviceRow now lo clk counts rx x) = fst x"
  "d_Online (deviceRow now lo clk counts rx x) = ob_online (snd x)"
  "Kind (d_Link (deviceRow now lo clk counts rx x)) = (if Kind (ob_link (snd x)) = [] then LinkUnknown else Kind (ob_link (snd x)))"
  "d_Internet (deviceRow now lo clk counts rx x) =
     (if fst x \<in> set (lo_blocked lo) then InternetBlocked else if fst x \<in> fst ` set (lo_scheduled lo) then InternetScheduled else InternetAllowed)"
  unfolding scheduled_key
  by (cases x; cases counts; cases "map_of (lo_scheduled lo) (fst x)"; cases "ob_at (snd x)";
      simp add: deviceRow_def Let_def ApplySchedule_keeps noDevice_def InternetBlocked_def InternetAllowed_def split: prod.split)+

lemma goneSince_fst: "map fst (goneSince guests seen obs) = map fst obs @ filter (\<lambda>k. k \<notin> set (map fst obs) \<and> k \<notin> set guests) (map fst seen)"
  by (simp add: goneSince_def comp_def case_prod_unfold filter_map)

lemma goneSince_keys: "fst ` set (goneSince guests seen obs) = fst ` set obs \<union> (fst ` set seen - set guests)"
proof -
  have "set (map fst (goneSince guests seen obs)) = set (map fst obs) \<union> (set (map fst seen) - set guests)"
    unfolding goneSince_fst set_append set_filter by blast
  then show ?thesis by simp
qed

lemma goneSince_distinct: "distinct (map fst obs) \<Longrightarrow> distinct (map fst seen) \<Longrightarrow> distinct (map fst (goneSince guests seen obs))"
  unfolding goneSince_fst distinct_append set_filter by (simp only: distinct_filter) blast

text \<open>
  C12. The list of devices is complete and says of each device what holds. Whatever the router answers, every device stands in it once, in the order of
  addresses; every device the access points have, no guest, is there as online over Wi-Fi; every device whose internet is off or on a schedule is
  there, and its internet reads so; every device heard since the start and still remembered is there; a guest is there only for its block or schedule.
  What is remembered stays within its bounds.
\<close>

theorem device_list_complete:
  assumes "ListDevices mrun lk (w, mem) = (Inr l, (w', mem'))" and "memoryOK mem" and "\<forall>m. m \<noteq> [] \<longrightarrow> lk_pick lk m \<in> fst ` set m"
  shows "memoryOK mem' \<and> (\<exists>run dev lo w1. mrun = Some run \<and> lanDevice (de_ifaces (lk_env lk)) = Inr dev \<and> lookAt run lk dev w = (lo, w1) \<and>
    sorted_wrt (<) (map d_MAC (dl_Devices l)) \<and>
    (\<forall>ap \<in> set (lo_aps lo). \<forall>c \<in> set (ap_clients ap). \<forall>mac. macOf (fst c) = Some mac \<and> mac \<notin> set (lo_guests lo) \<longrightarrow>
       (\<exists>d \<in> set (dl_Devices l). d_MAC d = mac \<and> d_Online d \<and> Kind (d_Link d) = LinkWiFi)) \<and>
    set (lo_blocked lo) \<union> fst ` set (lo_scheduled lo) \<union> (fst ` set (dm_seen mem') - set (lo_guests lo)) \<subseteq> d_MAC ` set (dl_Devices l) \<and>
    d_MAC ` set (dl_Devices l) \<inter> set (lo_guests lo) \<subseteq> set (lo_blocked lo) \<union> fst ` set (lo_scheduled lo) \<and>
    (\<forall>d \<in> set (dl_Devices l). d_Internet d =
       (if d_MAC d \<in> set (lo_blocked lo) then InternetBlocked else if d_MAC d \<in> fst ` set (lo_scheduled lo) then InternetScheduled else InternetAllowed)))"
proof -
  from ListDevices_parts [OF assms(1)] obtain run dev and lo :: look and w1 clk counts rx obs seen
    where r: "mrun = Some run" "lanDevice (de_ifaces (lk_env lk)) = Inr dev" "lookAt run lk dev w = (lo, w1)"
      and o: "recallAll (lo_obs lo) (dm_seen mem) = (obs, seen)"
      and m: "mem' = mem\<lparr>dm_seen := seen, dm_owner := rememberOwners (lk_pick lk) (ownersOf (lo_obs lo)) (dm_owner mem)\<rparr>"
      and l: "dl_Devices l = sort_key d_MAC (map (deviceRow (lk_now lk) lo clk counts rx) (goneSince (lo_guests lo) seen obs))" by blast
  let ?all = "goneSince (lo_guests lo) seen obs" and ?row = "deviceRow (lk_now lk) lo clk counts rx"
  have k: "map fst obs = map fst (lo_obs lo)" by (rule recallAll_keys [OF o])
  then have ks: "fst ` set obs = fst ` set (lo_obs lo)" by (metis set_map)
  have seen: "distinct (map fst seen)" using recallAll_bounded [OF o] assms(2) by (simp add: memoryOK_def)
  have macs: "map d_MAC (map ?row ?all) = map fst ?all" by (simp add: deviceRow_facts(1))
  have ds: "d_MAC ` set (dl_Devices l) = fst ` set ?all" unfolding l by (simp add: image_image deviceRow_facts(1))
  have "distinct (map d_MAC (dl_Devices l))"
    using goneSince_distinct [OF _ seen, of obs "lo_guests lo"] lookAt_distinct [OF r(3)] k macs unfolding l
    by (metis distinct_map distinct_sort mset_map mset_sort mset_eq_imp_distinct_iff)
  then have sorted: "sorted_wrt (<) (map d_MAC (dl_Devices l))" by (simp add: strict_sorted_iff l)
  have wifi: "\<exists>d \<in> set (dl_Devices l). d_MAC d = mac \<and> d_Online d \<and> Kind (d_Link d) = LinkWiFi"
    if "ap \<in> set (lo_aps lo)" "c \<in> set (ap_clients ap)" "macOf (fst c) = Some mac" "mac \<notin> set (lo_guests lo)" for ap c mac
  proof -
    from recallAll_associated [OF o lookAt_parts(3) [OF r(3) that]]
    obtain ob where ob: "map_of obs mac = Some ob" "ob_online ob" "Kind (ob_link ob) = LinkWiFi" by (auto simp: associated_def)
    then have "(mac, ob) \<in> set ?all" by (auto simp: goneSince_def dest: map_of_SomeD)
    then have "?row (mac, ob) \<in> set (dl_Devices l)" by (auto simp: l)
    with ob wifi_named show ?thesis by (intro bexI [of _ "?row (mac, ob)"]) (simp_all add: deviceRow_facts)
  qed
  have net: "d_Internet d = (if d_MAC d \<in> set (lo_blocked lo) then InternetBlocked else if d_MAC d \<in> fst ` set (lo_scheduled lo) then InternetScheduled
      else InternetAllowed)" if "d \<in> set (dl_Devices l)" for d
  proof -
    from that obtain x where "d = ?row x" unfolding l by auto
    then show ?thesis by (simp add: deviceRow_facts)
  qed
  have sub: "set (lo_blocked lo) \<union> fst ` set (lo_scheduled lo) \<union> (fst ` set (dm_seen mem') - set (lo_guests lo)) \<subseteq> d_MAC ` set (dl_Devices l)"
    using lookAt_parts(2) [OF r(3)] unfolding ds goneSince_keys ks by (auto simp: m)
  have guests: "d_MAC ` set (dl_Devices l) \<inter> set (lo_guests lo) \<subseteq> set (lo_blocked lo) \<union> fst ` set (lo_scheduled lo)"
    using lookAt_parts(1) [OF r(3)] unfolding ds goneSince_keys ks by blast
  have "memoryOK mem'" using ListDevices_memory [OF assms(1,2)] assms(3) by blast
  with r sorted wifi sub guests net show ?thesis by blast
qed

section \<open>A look at a small network\<close>

definition demo_look :: "unit look_env" where
  "demo_look =
     \<lparr>lk_env = \<lparr>de_ifaces = Inr [demo_lan],
        de_bus = Some \<lparr>wb_phyname = (\<lambda>i. None), wb_info = (\<lambda>i. None), wb_freqlist = (\<lambda>i. None), wb_wireless = None, wb_status = (\<lambda>i. None),
          wb_clients = (\<lambda>i. Some ''{}'')\<rparr>,
        de_unmarshal = (\<lambda>b. Some (5180, [(''02-00-5E-10-00-01'', \<lparr>ce_Assoc = Some True, ce_Authorized = None, ce_Signal = -50\<rparr>)])),
        de_sys = \<lparr>sr_ReadFile = (\<lambda>p. Inl (Failed ''no such file'')), sr_ReadDir = (\<lambda>p. Inr [''phy0-ap0'']),
          sr_Exists = (\<lambda>p. p = ''/sys/class/net/phy0-ap0/phy80211'')\<rparr>,
        de_le = True, de_files = (\<lambda>p. Inl (Failed ''no such file'')), de_now = 0\<rparr>,
      lk_now = 5000000000, lk_localtime = None, lk_neigh = (\<lambda>d. []), lk_float = (\<lambda>s. None), lk_nft = (\<lambda>b. None), lk_tempDir = ''/tmp'',
      lk_WriteFile = (\<lambda>p d w. (Inr (), w)), lk_Remove = (\<lambda>p w. w), lk_pick = (\<lambda>m. fst (hd m))\<rparr>"

definition demo_memory :: device_memory where "demo_memory = \<lparr>dm_started = 0, dm_seen = [], dm_owner = []\<rparr>"

definition no_programs :: "unit runner" where "no_programs name args w = (Inl (Failed ''no such program''), w)"

lemma demo_listed:
  "case ListDevices (Some no_programs) demo_look ((), demo_memory) of
     (Inr l, (w', mem')) \<Rightarrow> map (\<lambda>d. (d_MAC d, d_Online d, Kind (d_Link d), Band (d_Link d))) (dl_Devices l) = [(''02:00:5e:10:00:01'', True, ''wifi'', ''5'')]
   | _ \<Rightarrow> False"
  by code_simp

theorem device_list_complete_witness:
  "\<exists>l mem'. ListDevices (Some no_programs) demo_look ((), demo_memory) = (Inr l, ((), mem')) \<and> memoryOK mem' \<and>
    map d_MAC (dl_Devices l) = [''02:00:5e:10:00:01''] \<and> sorted_wrt (<) (map d_MAC (dl_Devices l))"
proof -
  obtain l mem' where e: "ListDevices (Some no_programs) demo_look ((), demo_memory) = (Inr l, ((), mem'))"
    and m: "map (\<lambda>d. (d_MAC d, d_Online d, Kind (d_Link d), Band (d_Link d))) (dl_Devices l) = [(''02:00:5e:10:00:01'', True, ''wifi'', ''5'')]"
    using demo_listed by (auto split: prod.splits sum.splits)
  have "map d_MAC (dl_Devices l) = map fst (map (\<lambda>d. (d_MAC d, d_Online d, Kind (d_Link d), Band (d_Link d))) (dl_Devices l))" by simp
  then have macs: "map d_MAC (dl_Devices l) = [''02:00:5e:10:00:01'']" unfolding m by simp
  have "memoryOK demo_memory" by (simp add: memoryOK_def demo_memory_def)
  moreover have "\<forall>m. m \<noteq> [] \<longrightarrow> lk_pick demo_look m \<in> fst ` set m" by (simp add: demo_look_def)
  ultimately have "memoryOK mem'" "sorted_wrt (<) (map d_MAC (dl_Devices l))" using device_list_complete [OF e] by blast+
  with e macs show ?thesis by (intro exI [of _ l] exI [of _ mem'] conjI)
qed

end
