(* ===== verification/Api.thy ===== *)
theory Api
  imports Transaction Guest_Staged Staged_Draft Lan Routes Device_List
begin

text \<open>
  The handlers of \<^verbatim>\<open>internal/api\<close> that change the router: the apply transaction and the staging requests of \<^verbatim>\<open>server.go\<close>,
  the Wi-Fi requests of \<^verbatim>\<open>wifi.go\<close>, the device requests of \<^verbatim>\<open>devices.go\<close> that stage or wake. A handler answers an HTTP error or the body of its
  success; the framework that turns this into JSON is not in the repository. The adapter's interfaces are records of functions, optional ones options,
  as a Go type assertion finds them; \<open>openwrt\<close> is the adapter of the other theories. The closure a handler passes to the coordinator is a step on
  the world; what it assigns to \<^verbatim>\<open>changes\<close> is read off with \<open>assigned\<close>.
\<close>

section \<open>Answers\<close>

record error_detail =
  ed_Message :: string
  ed_Location :: string

record http_error =
  he_Status :: int
  he_Detail :: string
  he_Errors :: "error_detail list"


definition httpError :: "int \<Rightarrow> string \<Rightarrow> http_error" where
  "httpError status detail = \<lparr>he_Status = status, he_Detail = detail, he_Errors = []\<rparr>"

definition httpBecause :: "int \<Rightarrow> string \<Rightarrow> error \<Rightarrow> http_error" where
  \<comment> \<open>\<^verbatim>\<open>huma.Error502BadGateway(detail, err)\<close> and its like\<close>
  "httpBecause status detail e =
     \<lparr>he_Status = status, he_Detail = detail, he_Errors = [\<lparr>ed_Message = errorText e, ed_Location = []\<rparr>]\<rparr>"

text \<open>The values that \<^verbatim>\<open>errors.Is\<close> looks for, as the adapter's theories return them.\<close>

definition ErrNotImplemented :: error where "ErrNotImplemented = Failed ''not implemented''"
definition ErrDraftNotEmpty :: error where "ErrDraftNotEmpty = Failed ''other changes are waiting in the draft''"
definition ErrGuestExists :: error where "ErrGuestExists = Failed ''there is a guest network already''"
definition ErrGuestBlocked :: error where "ErrGuestBlocked = Failed ''guests could not be kept from the home network here''"
definition ErrNoGuest :: error where "ErrNoGuest = Failed ''there is no guest network''"
definition errGuestDraftPending :: error where
  "errGuestDraftPending = Failed ''a guest network waits in the draft: apply or discard it first''"
definition errDraftUnreadable :: error where "errDraftUnreadable = Failed ''the draft could not be read''"
definition errNothingToApply :: error where "errNothingToApply = Failed ''nothing to apply''"


definition reasonFor :: "error \<Rightarrow> string" where "reasonFor e = TrimPrefix (errorText e) ''openwrt: ''"

definition refusal :: "error \<Rightarrow> http_error" where
  "refusal e =
     (if errIs e errGuestDraftPending then httpError 409 (errorText e)
      else if errIs e errDraftUnreadable then httpBecause 502 ''the draft could not be read'' e
      else case refusal_field e of
          Some f \<Rightarrow> \<lparr>he_Status = 400, he_Detail = reasonFor e,
            he_Errors = [\<lparr>ed_Message = reasonFor e, ed_Location = ''body.'' @ f\<rparr>]\<rparr>
        | None \<Rightarrow> httpError 400 (reasonFor e))"

record changes_output =
  out_Changes :: "config_change list"
  out_Dangerous :: bool



definition wifiError :: "string \<Rightarrow> error \<Rightarrow> http_error" where
  "wifiError what e =
     (if errIs e errGuestDraftPending then httpError 409 (errorText e)
      else if errIs e errDraftUnreadable then httpBecause 502 ''the draft could not be read'' e
      else if errIs e ErrNoWiFi then httpBecause 404 ''no radio on this device'' e
      else if errIs e ErrNotImplemented then httpBecause 501 what e
      else if refusal_field e \<noteq> None then refusal e
      else httpError 404 (reasonFor e))"

section \<open>The adapter\<close>

type_synonym 'w staging = "('w, config_change list) step"

record 'w network_writer =
  nw_StageWAN :: "wan_config \<Rightarrow> 'w staging"
  nw_StagedChanges :: "'w staging"
  nw_DiscardStaged :: "'w \<Rightarrow> error option \<times> 'w"

record 'w firewall_writer =
  fw_StagePortForward :: "port_forward_config \<Rightarrow> 'w staging"
  fw_RemovePortForward :: "string \<Rightarrow> 'w staging"
  fw_StageRule :: "rule_config \<Rightarrow> 'w staging"
  fw_RemoveRule :: "string \<Rightarrow> 'w staging"
  fw_MoveRule :: "string \<Rightarrow> string \<Rightarrow> 'w staging"

record 'w lan_writer =
  lw_StageLAN :: "lan_config \<Rightarrow> 'w staging"
  lw_StageHandout :: "handout_config \<Rightarrow> 'w staging"
  lw_StageReservation :: "reservation_config \<Rightarrow> 'w staging"
  lw_RemoveReservation :: "string \<Rightarrow> 'w staging"

record 'w route_writer =
  rw_StageStaticRoute :: "route_config \<Rightarrow> 'w staging"
  rw_RemoveStaticRoute :: "string \<Rightarrow> 'w staging"

record 'w internet_writer =
  iw_StageDeviceInternet :: "string \<Rightarrow> bool \<Rightarrow> 'w staging"
  iw_StageDeviceSchedule :: "string \<Rightarrow> internet_schedule option \<Rightarrow> 'w staging"

record 'w guest_manager =
  gm_StageGuest :: "guest_config \<Rightarrow> 'w staging"
  gm_StageGuestEnabled :: "bool \<Rightarrow> 'w staging"
  gm_StageGuestRemove :: "'w staging"

record 'w wifi_manager =
  wm_Status :: "('w, wifi_status) step"
  wm_WiFiPassword :: "string \<Rightarrow> ('w, string) step"
  wm_StageRadio :: "string \<Rightarrow> radio_config \<Rightarrow> 'w staging"
  wm_StageCountry :: "string \<Rightarrow> 'w staging"
  wm_StageAccess :: "string \<Rightarrow> access_config \<Rightarrow> 'w staging"
  wm_Guest :: "'w guest_manager option"

record 'w adapter =
  ad_writer :: "'w network_writer option"
  ad_firewall :: "'w firewall_writer option"
  ad_lan :: "'w lan_writer option"
  ad_routes :: "'w route_writer option"
  ad_ListDevices :: "('w, device_list) step"
  ad_internet :: "'w internet_writer option"
  ad_waker :: "(string \<Rightarrow> ('w, unit) step) option"
  ad_wifi :: "'w wifi_manager option"

section \<open>Staging under the lock\<close>

text \<open>A closure that returns an error and assigns \<^verbatim>\<open>changes\<close>, as the coordinator sees it and what it assigned.\<close>

definition errOf :: "('w, 'a) step \<Rightarrow> 'w \<Rightarrow> error option \<times> 'w" where
  "errOf m w = (case m w of (Inl e, w') \<Rightarrow> (Some e, w') | (Inr x, w') \<Rightarrow> (None, w'))"

definition assigned :: "'w staging \<Rightarrow> 'w \<Rightarrow> config_change list" where
  "assigned m w = (case fst (m w) of Inl e \<Rightarrow> [] | Inr changes \<Rightarrow> changes)"

definition sentence :: "apply_error \<Rightarrow> error" where
  \<comment> \<open>the Go value behind an error of the coordinator: \<open>StageFailed\<close> is the closure's own error\<close>
  "sentence e =
     (case e of StageFailed x \<Rightarrow> x
      | ErrApplyInFlight \<Rightarrow> Failed ''an apply is already awaiting confirmation''
      | ErrNoApplyInFlight \<Rightarrow> Failed ''no apply is awaiting confirmation''
      | ErrWrongToken \<Rightarrow> Failed ''this token does not match the pending apply''
      | ReadPending x \<Rightarrow> Wraps (Failed ''read pending apply'') x
      | SnapshotGone i x \<Rightarrow> Wraps (Failed (''pending apply '' @ i @ '' cannot be undone, its snapshot is gone'')) x
      | UndoAfterRestart i x \<Rightarrow> Wraps (Failed (''undo pending apply '' @ i @ '' after restart'')) x
      | JournalNotCleared x \<Rightarrow> Wraps (Failed ''pending apply undone but the journal was not cleared'') x
      | SnapshotBeforeApply x \<Rightarrow> Wraps (Failed ''snapshot before apply'') x
      | CommitAndRevertFailed x y \<Rightarrow> Wraps (Failed (''commit failed ('' @ errorText x @ '') and revert failed too'')) y
      | CommitFailedRestored x \<Rightarrow> Wraps (Failed ''commit failed, configuration restored'') x
      | NotJournalled x \<Rightarrow> Wraps (Failed ''apply is live but not journalled, a restart will not undo it'') x
      | SnapshotBeforeApplying x \<Rightarrow> Wraps (Failed ''snapshot before applying'') x
      | AutoRevertFailed i x \<Rightarrow> Wraps (Failed (''automatic revert to snapshot '' @ i @ '' failed'')) x
      | ClearJournal x \<Rightarrow> Wraps (Failed ''clear pending-apply journal'') x)"

definition guestLabelKey :: string where "guestLabelKey = ''wireless.guest.section''"

definition guestDraftPending :: "config_change list \<Rightarrow> bool" where
  "guestDraftPending staged = list_ex (\<lambda>c. LabelKey c = guestLabelKey) staged"

definition unlessGuestWaits :: "'w network_writer option \<Rightarrow> 'w staging \<Rightarrow> 'w staging" where
  "unlessGuestWaits mnw fn w =
     (case mnw of None \<Rightarrow> fn w
      | Some nw \<Rightarrow> (case nw_StagedChanges nw w of
            (Inl e, w1) \<Rightarrow> if errIs e ErrNotImplemented then fn w1 else (Inl (Wraps errDraftUnreadable e), w1)
          | (Inr staged, w1) \<Rightarrow> if guestDraftPending staged then (Inl errGuestDraftPending, w1) else fn w1))"

definition lockedStage :: "'w network_writer option \<Rightarrow> 'w staging \<Rightarrow> coordinator \<Rightarrow> 'w \<Rightarrow> config_change list result \<times> coordinator \<times> 'w" where
  "lockedStage mnw fn c w =
     (case Exclusive (errOf (unlessGuestWaits mnw fn)) c w of
        (Some e, c', w') \<Rightarrow> (Inl (sentence e), c', w')
      | (None, c', w') \<Rightarrow> (Inr (assigned (unlessGuestWaits mnw fn) w), c', w'))"

definition refuseWhileApplying :: "coordinator \<Rightarrow> http_error option" where
  "refuseWhileApplying c =
     (if st_Phase (stateLocked c) = PhaseAwaitingConfirm then Some (httpError 409 ''a change is already waiting for confirmation'') else None)"




section \<open>The uplink, the local network, the firewall, the routes\<close>















section \<open>Devices\<close>








section \<open>Wi-Fi\<close>







text \<open>One guest edit: a dozen sections in four files, under the coordinator's lock and only on an empty draft.\<close>

definition onEmptyDraft :: "'w network_writer option \<Rightarrow> 'w staging \<Rightarrow> 'w staging" where
  "onEmptyDraft mnw fn w =
     (case mnw of None \<Rightarrow> fn w
      | Some nw \<Rightarrow> (case nw_StagedChanges nw w of
            (Inl e, w1) \<Rightarrow> (Inl (Wraps errDraftUnreadable e), w1)
          | (Inr staged, w1) \<Rightarrow> if staged \<noteq> [] then (Inl ErrDraftNotEmpty, w1) else fn w1))"

definition guestRefusal :: "string \<Rightarrow> error \<Rightarrow> http_error" where
  "guestRefusal what e =
     (if errIs e (sentence ErrApplyInFlight) then httpError 409 ''a change is already waiting for confirmation''
      else if errIs e errDraftUnreadable then httpBecause 502 ''the draft could not be read'' e
      else if errIs e ErrDraftNotEmpty then httpError 409 ''other changes are waiting in the draft: apply or discard them first''
      else if errIs e ErrGuestExists then httpBecause 409 ''there is a guest network already'' e
      else if errIs e ErrGuestBlocked then httpBecause 422 ''guests could not be kept from the home network here'' e
      else if errIs e ErrNoGuest then httpBecause 404 ''there is no guest network'' e
      else wifiError what e)"






text \<open>A network's name and password are applied at once. A draft that cannot be read counts as empty here.\<close>

definition accessEdit :: "'w network_writer option \<Rightarrow> 'w staging \<Rightarrow> 'w staging" where
  "accessEdit mnw fn w =
     (let (busy, w1) = (case mnw of None \<Rightarrow> (False, w)
            | Some nw \<Rightarrow> (case nw_StagedChanges nw w of (Inl e, w1) \<Rightarrow> (False, w1) | (Inr staged, w1) \<Rightarrow> (staged \<noteq> [], w1)))
      in if busy then (Inl ErrDraftNotEmpty, w1)
         else (case fn w1 of
             (Inl e, w2) \<Rightarrow> (Inl e, w2)
           | (Inr changes, w2) \<Rightarrow> (if changes = [] then Inl errNothingToApply else Inr changes, w2)))"


section \<open>The apply transaction\<close>

definition maxApplyTimeout :: int where "maxApplyTimeout = 10 * 60 * Second"

definition applyWindow :: "int \<Rightarrow> int" where
  \<comment> \<open>a \<^verbatim>\<open>time.Duration\<close> has 64 bits\<close>
  "applyWindow seconds =
     min (if seconds > 0 then signed_take_bit 63 (seconds * Second) else DefaultApplyWindow) maxApplyTimeout"





definition RecoverPendingApply :: "'w apply_env \<Rightarrow> 'w snapshot_loader option \<Rightarrow> coordinator \<Rightarrow> 'w \<Rightarrow> (bool \<times> apply_error option) \<times> coordinator \<times> 'w" where
  \<comment> \<open>called at startup, before serving\<close>
  "RecoverPendingApply env mloader c w = (case mloader of None \<Rightarrow> ((False, None), c, w) | Some loader \<Rightarrow> RecoverPending env loader c w)"

section \<open>The requests\<close>


datatype body = Body_state apply_state | Body_changes changes_output | Body_list "config_change list" | Body_text string
  | Body_wifi "wifi_status \<times> wifi_here option" | Body_none


abbreviation nothing :: "unit \<Rightarrow> body" where "nothing \<equiv> (\<lambda>_. Body_none)"


text \<open>The router's own adapter, with what it reads of the system besides the configuration. Its memory of devices is part of the world.\<close>

record router_facts =
  rf_uplink :: "string result"
  rf_ifaces :: "network_interface list result"
  rf_files :: "string \<Rightarrow> string result"
  rf_now :: int
  rf_noWireless :: bool
  rf_dump :: "ubus_interface list result"
  rf_device :: device_env
  rf_wifi :: "wifi_bus option"
  rf_clients :: unmarshal_clients
  rf_routes :: "kernel_route list"
  rf_littleEndian :: bool

definition onRouter :: "('w, 'a) step \<Rightarrow> ('w \<times> device_memory, 'a) step" where
  "onRouter m s = (case m (fst s) of (r, w') \<Rightarrow> (r, w', snd s))"

definition openwrtAdapter ::
  "'w runner \<Rightarrow> 'w link_fs \<Rightarrow> (string \<Rightarrow> nat list \<Rightarrow> ('w, unit) step) \<Rightarrow> 'w look_env \<Rightarrow> router_facts \<Rightarrow> ('w \<times> device_memory) adapter" where
  "openwrtAdapter run fs send lk rf =
     \<lparr>ad_writer = Some \<lparr>nw_StageWAN = \<lambda>cfg. onRouter (StageWAN (Some run) (rf_uplink rf) cfg),
        nw_StagedChanges = onRouter (StagedChanges (Some run) fs (rf_noWireless rf) (rf_dump rf)),
        nw_DiscardStaged = (\<lambda>s. case DiscardStaged (Some run) (fst s) of (e, w') \<Rightarrow> (e, w', snd s))\<rparr>,
      ad_firewall = Some \<lparr>fw_StagePortForward = \<lambda>cfg. onRouter (StagePortForward (Some run) (rf_ifaces rf) (rf_files rf) (rf_now rf) cfg),
        fw_RemovePortForward = \<lambda>i. onRouter (RemovePortForward (Some run) (rf_ifaces rf) i),
        fw_StageRule = \<lambda>cfg. onRouter (StageRule (Some run) (rf_ifaces rf) cfg),
        fw_RemoveRule = \<lambda>i. onRouter (RemoveRule (Some run) (rf_ifaces rf) i),
        fw_MoveRule = \<lambda>i front. onRouter (MoveRule (Some run) (rf_ifaces rf) i front)\<rparr>,
      ad_lan = Some \<lparr>lw_StageLAN = \<lambda>cfg. onRouter (StageLAN (Some run) cfg),
        lw_StageHandout = \<lambda>cfg. onRouter (StageHandout (Some run) (rf_ifaces rf) (rf_files rf) (rf_now rf) cfg),
        lw_StageReservation = \<lambda>cfg. onRouter (StageReservation (Some run) (rf_ifaces rf) (rf_files rf) (rf_now rf) cfg),
        lw_RemoveReservation = \<lambda>i. onRouter (RemoveReservation (Some run) i)\<rparr>,
      ad_routes = Some \<lparr>rw_StageStaticRoute = \<lambda>cfg. onRouter (StageStaticRoute (Some run) fs (rf_ifaces rf) (rf_littleEndian rf) (rf_files rf) cfg),
        rw_RemoveStaticRoute = \<lambda>i. onRouter (RemoveStaticRoute (Some run) i)\<rparr>,
      ad_ListDevices = ListDevices (Some run) lk,
      ad_internet = Some \<lparr>iw_StageDeviceInternet = \<lambda>mac a. onRouter (StageDeviceInternet (Some run) (rf_device rf) mac a),
        iw_StageDeviceSchedule = \<lambda>mac want. onRouter (StageDeviceSchedule (Some run) (rf_device rf) mac want)\<rparr>,
      ad_waker = Some (\<lambda>mac s. onRouter (WakeDevice send (rf_ifaces rf) (snd s) mac) s),
      ad_wifi = Some \<lparr>wm_Status = onRouter (Status (Some run) (rf_clients rf) (rf_wifi rf) (Some (rf_dump rf)) (rf_files rf) fs),
        wm_WiFiPassword = \<lambda>i. onRouter (WiFiPassword (Some run) i),
        wm_StageRadio = \<lambda>i cfg. onRouter (StageRadio (Some run) (rf_wifi rf) i cfg),
        wm_StageCountry = \<lambda>s. onRouter (StageCountry (Some run) s),
        wm_StageAccess = \<lambda>i cfg. onRouter (StageAccess (Some run) i cfg),
        wm_Guest = Some \<lparr>gm_StageGuest = \<lambda>cfg. onRouter (StageGuest (Some run) (Some (rf_dump rf)) (rf_files rf) (rf_routes rf) cfg),
          gm_StageGuestEnabled = \<lambda>b. onRouter (StageGuestEnabled (Some run) (Some (rf_dump rf)) b),
          gm_StageGuestRemove = onRouter (StageGuestRemove (Some run) (Some (rf_dump rf)))\<rparr>\<rparr>\<rparr>"


section \<open>What each request runs\<close>







lemma http_simps [simp]:
  "he_Status (httpError s d) = s" "he_Status (httpBecause s d e) = s" "he_Detail (httpError s d) = d" "he_Detail (httpBecause s d e) = d"
  by (simp_all add: httpError_def httpBecause_def)


lemma refusal_status: "he_Status (refusal e) \<in> {400, 409, 502}"
  by (simp add: refusal_def httpError_def httpBecause_def split: option.split)


lemma wifiError_status: "he_Status (wifiError what e) \<in> {400, 404, 409, 501, 502}"
  using refusal_status [of e] by (auto simp: wifiError_def)











lemma lockedStage_run: "lockedStage mnw fn c w = (case unlessGuestWaits mnw fn w of (r, w') \<Rightarrow> (r, c, w'))"
  by (auto simp: lockedStage_def Exclusive_def errOf_def assigned_def sentence_def split: prod.splits sum.splits)



lemma guestRefusal_status: "he_Status (guestRefusal what e) \<in> {400, 404, 409, 422, 501, 502}"
  using wifiError_status [of what e] by (auto simp: guestRefusal_def)


lemma errIs_simps: "errIs e e" "errIs (Failed r) e \<longleftrightarrow> e = Failed r" "errIs (Refused f r) e \<longleftrightarrow> e = Refused f r"
  by (cases e) auto



section \<open>What a pending change refuses\<close>









text \<open>
  Where it fails. The look at the transaction is not under its lock: an apply that comes in between finds the draft as it was, and the staging then goes
  through while that change awaits its confirmation. And a request that changes a Wi-Fi network at once takes a draft it cannot read for an empty one, so
  what waits there is committed with it; the guest requests and the staging ones refuse in that case.
\<close>

lemma staging_slips_in:
  assumes "refuseWhileApplying c = None" and "phase c2 = PhaseAwaitingConfirm" and "unlessGuestWaits mnw fn w2 = (Inr cs, w3)"
  shows "lockedStage mnw fn c2 w2 = (Inr cs, c2, w3) \<and> refuseWhileApplying c2 \<noteq> None"
  using assms by (simp add: lockedStage_run refuseWhileApplying_def stateLocked_def Let_def)

lemma unreadable_draft_is_empty:
  assumes "nw_StagedChanges nw w = (Inl e, w1)" "errIs e ErrNotImplemented = False" "fn w1 = (Inr cs, w2)" "cs \<noteq> []"
  shows "accessEdit (Some nw) fn w = (Inr cs, w2)" "unlessGuestWaits (Some nw) fn w = (Inl (Wraps errDraftUnreadable e), w1)"
    "onEmptyDraft (Some nw) fn w = (Inl (Wraps errDraftUnreadable e), w1)"
  using assms by (simp_all add: accessEdit_def unlessGuestWaits_def onEmptyDraft_def)

text \<open>The window a client may ask for, as the request's schema admits it.\<close>

lemma applyWindow_range: "0 \<le> s \<Longrightarrow> s \<le> 600 \<Longrightarrow> 0 < applyWindow s \<and> applyWindow s \<le> 10 * 60 * Second"
proof -
  assume s: "0 \<le> s" "s \<le> 600"
  have "signed_take_bit 63 (s * Second) = s * Second" if "0 < s"
    using s by (intro signed_take_bit_int_eq_self) (simp_all add: Second_def)
  then show ?thesis using s by (auto simp: applyWindow_def maxApplyTimeout_def DefaultApplyWindow_def Second_def min_def)
qed

end
