(* ===== verification/Session.thy ===== *)
theory Session
  imports Store
begin

text \<open>
  Who may use the panel: the tokens of \<^verbatim>\<open>internal/api/tokens.go\<close>, and of \<^verbatim>\<open>server.go\<close> the login, the bearer check before every other request
  (\<^verbatim>\<open>requireAuth\<close>) and the import of a whole document. The JWT package is the pair of functions \<open>sign\<close> and \<open>accepts\<close>; times are in nanooneSeconds, the
  dates in a token in oneSeconds.
\<close>

section \<open>Tokens\<close>

record token_claims =
  tc_Issuer :: string
  tc_Subject :: string
  tc_ExpiresAt :: int
  tc_IssuedAt :: int

record token_issuer =
  ti_key :: string

definition oneSecond :: int where "oneSecond = 1000000000"

definition tokenTTL :: int where "tokenTTL = 12 * 3600 * oneSecond"

definition newTokenIssuer :: "string \<Rightarrow> token_issuer" where
  "newTokenIssuer passwordHash = \<lparr>ti_key = ''veilbridge-v1:'' @ passwordHash\<rparr>"

definition issue :: "(string \<Rightarrow> token_claims \<Rightarrow> string result) \<Rightarrow> token_issuer \<Rightarrow> int \<Rightarrow> (string \<times> int) result" where
  "issue sign t now =
     (if ti_key t = [] then Inl (Failed ''no signing key (password not set)'')
      else let exp = now + tokenTTL in
        (case sign (ti_key t) \<lparr>tc_Issuer = ''veilbridge'', tc_Subject = ''admin'', tc_ExpiresAt = exp div oneSecond, tc_IssuedAt = now div oneSecond\<rparr> of
           Inl e \<Rightarrow> Inl (Failed ''sign token'') | Inr signed \<Rightarrow> Inr (signed, exp)))"

definition verify :: "(string \<Rightarrow> int \<Rightarrow> string \<Rightarrow> bool) \<Rightarrow> token_issuer \<Rightarrow> int \<Rightarrow> string \<Rightarrow> bool" where
  \<comment> \<open>\<open>accepts\<close>: \<^verbatim>\<open>jwt.Parse\<close> with this key and HS256 alone\<close>
  "verify accepts t now raw = (if ti_key t = [] \<or> raw = [] then False else accepts (ti_key t) now raw)"

definition requireAuth :: "(string \<Rightarrow> int \<Rightarrow> string \<Rightarrow> bool) \<Rightarrow> token_issuer \<Rightarrow> int \<Rightarrow> string \<Rightarrow> ('w, 'a) step \<Rightarrow> ('w, 'a) step" where
  "requireAuth accepts t now auth handler =
     (let raw = TrimPrefix auth ''Bearer '' in
      if raw = auth \<or> \<not> verify accepts t now raw then failR (Failed ''missing or invalid token'') else handler)"

text \<open>The server keeps one issuer: from the document it started with, then from the one of the latest login.\<close>

definition startIssuer :: "document \<Rightarrow> token_issuer" where "startIssuer doc = newTokenIssuer (st_PasswordHash (doc_Settings doc))"

definition login ::
  "'w store_fs \<Rightarrow> codec \<Rightarrow> string \<Rightarrow> (string \<Rightarrow> string \<Rightarrow> bool) \<Rightarrow> (string \<Rightarrow> token_claims \<Rightarrow> string result) \<Rightarrow> int \<Rightarrow> string \<Rightarrow> token_issuer \<Rightarrow> 'w \<Rightarrow>
    (string \<times> int) result \<times> token_issuer" where
  "login fs js path agrees sign now password t w =
     (case Load fs js path w of Inl e \<Rightarrow> (Inl (Failed ''load config''), t)
      | Inr doc \<Rightarrow>
          if \<not> VerifyPassword agrees password doc then (Inl (Failed ''invalid password''), t)
          else let t' = newTokenIssuer (st_PasswordHash (doc_Settings doc)) in
            (case issue sign t' now of Inl e \<Rightarrow> (Inl (Failed ''issue token''), t') | Inr p \<Rightarrow> (Inr p, t')))"

definition exportConfig :: "'w store_fs \<Rightarrow> codec \<Rightarrow> string \<Rightarrow> 'w \<Rightarrow> document result" where
  "exportConfig fs js path w = (case Load fs js path w of Inl e \<Rightarrow> Inl (Failed ''export config'') | Inr doc \<Rightarrow> Inr doc)"

definition importConfig :: "'w store_fs \<Rightarrow> codec \<Rightarrow> string \<Rightarrow> string \<Rightarrow> ('w, unit) step" where
  "importConfig fs js path raw =
     (case Unmarshal js raw of Inl e \<Rightarrow> failR (Failed ''parse config'')
      | Inr doc \<Rightarrow> wrapR (Failed ''save config'') (Save fs js path (Some doc)))"

section \<open>What the tokens are worth\<close>

text \<open>
  What is relied on of the JWT package and of HMAC: what was signed with a key is accepted with it until it expires, and nothing else is; nothing is
  signed with two keys.
\<close>

locale jwt =
  fixes sign :: "string \<Rightarrow> token_claims \<Rightarrow> string result" and accepts :: "string \<Rightarrow> int \<Rightarrow> string \<Rightarrow> bool"
  assumes signed_accepted: "sign k c = Inr tok \<Longrightarrow> now < tc_ExpiresAt c * oneSecond \<Longrightarrow> accepts k now tok \<and> tok \<noteq> []"
    and accepted_signed: "accepts k now tok \<Longrightarrow> \<exists>c. sign k c = Inr tok \<and> now < tc_ExpiresAt c * oneSecond"
    and one_key: "sign k c = Inr tok \<Longrightarrow> sign k' c' = Inr tok \<Longrightarrow> k = k'"
begin

lemma bearer: "requireAuth accepts t now (''Bearer '' @ tok) handler = (if verify accepts t now tok then handler else failR (Failed ''missing or invalid token''))"
proof -
  have "TrimPrefix (''Bearer '' @ tok) ''Bearer '' = tok" by (rule TrimPrefix_append)
  moreover have "tok \<noteq> ''Bearer '' @ tok" by simp
  ultimately show ?thesis unfolding requireAuth_def Let_def by (simp only:) simp
qed

text \<open>A login opens the panel for its token, until the token expires.\<close>

lemma login_opens:
  assumes "login fs js path agrees sign now password t w = (Inr (tok, exp), t')" and "later < exp div oneSecond * oneSecond"
  shows "requireAuth accepts t' later (''Bearer '' @ tok) handler = handler \<and> exp = now + tokenTTL"
proof -
  from assms(1) have "issue sign t' now = Inr (tok, exp)" by (auto simp: login_def Let_def split: sum.splits if_split_asm)
  then have c: "sign (ti_key t') \<lparr>tc_Issuer = ''veilbridge'', tc_Subject = ''admin'', tc_ExpiresAt = exp div oneSecond, tc_IssuedAt = now div oneSecond\<rparr> = Inr tok"
    "ti_key t' \<noteq> []" "exp = now + tokenTTL"
    by (simp_all add: issue_def Let_def split: sum.split_asm if_split_asm)
  from signed_accepted [OF c(1), of later] assms(2) c show ?thesis unfolding bearer by (simp add: verify_def)
qed

text \<open>A request is let through only with a token signed with the issuer's own key; a login with another password ends every session before it.\<close>

lemma let_through:
  "requireAuth accepts t now auth handler w = (Inr x, w') \<Longrightarrow> \<exists>c tok. auth = ''Bearer '' @ tok \<and> sign (ti_key t) c = Inr tok \<and> now < tc_ExpiresAt c * oneSecond"
  using accepted_signed [of "ti_key t" now "TrimPrefix auth ''Bearer ''"]
  by (auto simp: requireAuth_def verify_def failR_def Let_def TrimPrefix_def HasPrefix_iff split: if_splits)

lemma other_password_ends_sessions:
  assumes "sign (ti_key (newTokenIssuer h)) c = Inr tok" and "h' \<noteq> h"
  shows "requireAuth accepts (newTokenIssuer h') now (''Bearer '' @ tok) handler = failR (Failed ''missing or invalid token'')"
proof -
  have "\<not> accepts (ti_key (newTokenIssuer h')) now tok"
    using accepted_signed [of "ti_key (newTokenIssuer h')" now tok] one_key [OF assms(1)] assms(2) by (auto simp: newTokenIssuer_def)
  then show ?thesis unfolding bearer by (simp add: verify_def)
qed

text \<open>
  Where it fails. Before a password is set nobody can log in, but the issuer's key is a constant of the program: whoever signs a token with it is let
  in. And an imported document with another password does not change the issuer, so the sessions of before go on until the next login or restart.
\<close>

lemma passwordless_router_open:
  assumes "Load fs js path w = Inr doc" "st_PasswordHash (doc_Settings doc) = []"
    and "sign ''veilbridge-v1:'' c = Inr tok" "now < tc_ExpiresAt c * oneSecond"
  shows "fst (login fs js path agrees sign now password t w) = Inl (Failed ''invalid password'')"
    "requireAuth accepts (startIssuer doc) now (''Bearer '' @ tok) handler = handler"
proof -
  show "fst (login fs js path agrees sign now password t w) = Inl (Failed ''invalid password'')"
    using assms(1,2) by (simp add: login_def VerifyPassword_def)
  have "verify accepts (startIssuer doc) now tok"
    using assms(2) signed_accepted [OF assms(3,4)] by (simp add: startIssuer_def newTokenIssuer_def verify_def)
  then show "requireAuth accepts (startIssuer doc) now (''Bearer '' @ tok) handler = handler" unfolding bearer by simp
qed

end

section \<open>A reference for the contract\<close>

text \<open>A token that says its key and its end.\<close>

definition ref_sign :: "string \<Rightarrow> token_claims \<Rightarrow> string result" where
  "ref_sign k c =
     (if - (2 ^ 63) \<le> tc_ExpiresAt c \<and> tc_ExpiresAt c < 2 ^ 63 then Inr (k @ ''/'' @ Itoa (tc_ExpiresAt c)) else Inl (Failed ''date''))"

definition ref_accepts :: "string \<Rightarrow> int \<Rightarrow> string \<Rightarrow> bool" where
  "ref_accepts k now tok \<longleftrightarrow>
     HasPrefix tok (k @ ''/'') \<and>
     (case Atoi (TrimPrefix tok (k @ ''/'')) of None \<Rightarrow> False
      | Some e \<Rightarrow> - (2 ^ 63) \<le> e \<and> e < 2 ^ 63 \<and> TrimPrefix tok (k @ ''/'') = Itoa e \<and> now < e * oneSecond)"

lemma Itoa_no_slash: "CHR ''/'' \<notin> set (Itoa i)"
proof -
  have "\<not> is_digit CHR ''/''" by (simp add: is_digit_def)
  then have "CHR ''/'' \<notin> set (nat_digits n)" for n using all_digits_nat_digits [of n] by (auto simp: all_digits_def list_all_iff)
  then show ?thesis by (simp add: Itoa_def)
qed

lemma last_slash:
  assumes "a @ CHR ''/'' # u = b @ CHR ''/'' # v" "CHR ''/'' \<notin> set u" "CHR ''/'' \<notin> set v"
  shows "a = b"
proof -
  have d: "dropWhile (\<lambda>c. c \<noteq> CHR ''/'') (rev x @ CHR ''/'' # y) = CHR ''/'' # y" if "CHR ''/'' \<notin> set x" for x y
    using that by (subst dropWhile_append2) auto
  have "rev u @ CHR ''/'' # rev a = rev v @ CHR ''/'' # rev b" using arg_cong [OF assms(1), of rev] by simp
  then have "dropWhile (\<lambda>c. c \<noteq> CHR ''/'') (rev u @ CHR ''/'' # rev a) = dropWhile (\<lambda>c. c \<noteq> CHR ''/'') (rev v @ CHR ''/'' # rev b)" by simp
  then show ?thesis unfolding d [OF assms(2)] d [OF assms(3)] by simp
qed

interpretation rj: jwt ref_sign ref_accepts
proof
  fix k k' c c' tok and now :: int
  show "ref_sign k c = Inr tok \<Longrightarrow> now < tc_ExpiresAt c * oneSecond \<Longrightarrow> ref_accepts k now tok \<and> tok \<noteq> []"
    using TrimPrefix_append [of "k @ ''/''" "Itoa (tc_ExpiresAt c)"] HasPrefix_append [of "k @ ''/''" "Itoa (tc_ExpiresAt c)"]
    by (auto simp: ref_sign_def ref_accepts_def Atoi_Itoa split: if_splits)
  show "ref_accepts k now tok \<Longrightarrow> \<exists>c. ref_sign k c = Inr tok \<and> now < tc_ExpiresAt c * oneSecond"
  proof -
    assume a: "ref_accepts k now tok"
    then obtain t where t: "tok = (k @ ''/'') @ t" by (auto simp: ref_accepts_def HasPrefix_iff)
    have "TrimPrefix tok (k @ ''/'') = t" unfolding t by (rule TrimPrefix_append)
    with a obtain e where "t = Itoa e" "- (2 ^ 63) \<le> e" "e < 2 ^ 63" "now < e * oneSecond" by (auto simp: ref_accepts_def split: option.splits)
    with t show ?thesis
      by (intro exI [of _ "\<lparr>tc_Issuer = [], tc_Subject = [], tc_ExpiresAt = e, tc_IssuedAt = 0\<rparr>"]) (simp add: ref_sign_def)
  qed
  show "ref_sign k c = Inr tok \<Longrightarrow> ref_sign k' c' = Inr tok \<Longrightarrow> k = k'"
    using last_slash [of k "Itoa (tc_ExpiresAt c)" k' "Itoa (tc_ExpiresAt c')"] Itoa_no_slash by (auto simp: ref_sign_def split: if_splits)
qed

end
