(* ===== verification/Spec2Isabelle.thy ===== *)
theory Spec2Isabelle
  imports Transaction Schedule Metrics Selective_Routing Guest_Staged Draft_Shown Vpn Emergency Route_Draft Api Session
begin

text \<open>VeilBridge.\<close>

end
